(* ===== verification/Tardis_Prelude.thy ===== *)
theory Tardis_Prelude
  imports Main "HOL-Library.Word"
begin

text \<open>
  Shared vocabulary of the development: the machine integers of the code, the values that stand
  for its exceptions, the two ways an operation can fail (a pure result, and a result together
  with the state the exception leaves behind), and the lemmas on lists and words that several
  components use.
\<close>

unbundle bit_operations_syntax

type_synonym u8 = "8 word"
type_synonym u32 = "32 word"
type_synonym u64 = "64 word"

text \<open>
  Everything that leaves an operation other than by its normal return. The first group are the
  exception classes the code throws (foundations/exceptions.hpp, sqlParser/SQLParser.hpp,
  semanticAnalyser/SemanticAnalyser.hpp, std::runtime_error, std::out_of_range, and the string
  literals the casts of foundations/LegacyTypes.cpp throw), each with its message. The second
  group are the ways the code leaves defined behaviour: a failed assert, an access to memory that is
  not there, and the macro \<^verbatim>\<open>unreachable()\<close> of utils/general.hpp.
\<close>

datatype exn =
    RuntimeError string
  | InvalidOperation string
  | NotImplemented string
  | ParserException string
  | SyntacticalError string
  | SemanticSqlError string
  | OutOfRange string
  | ThrownString string
  | ArithmeticException string
  | DivideByZero
  | AssertFailed
  | MemFault
  | Unreachable

type_synonym 'a result = "exn + 'a"

definition bind_res :: "'a result \<Rightarrow> ('a \<Rightarrow> 'b result) \<Rightarrow> 'b result" where
  "bind_res m f = (case m of Inl e \<Rightarrow> Inl e | Inr x \<Rightarrow> f x)"

lemma bind_res_simps [simp]:
  "bind_res (Inl e) f = Inl e"
  "bind_res (Inr x) f = f x"
  by (simp_all add: bind_res_def)

lemma bind_res_eq_Inr: "bind_res m f = Inr y \<longleftrightarrow> (\<exists>x. m = Inr x \<and> f x = Inr y)"
  by (cases m) auto

lemma bind_res_cong [fundef_cong]:
  "m = m' \<Longrightarrow> (\<And>x. m' = Inr x \<Longrightarrow> f x = f' x) \<Longrightarrow> bind_res m f = bind_res m' f'"
  by (cases m') auto

text \<open>
  A computation with a loop that may not end: \<open>None\<close> is "does not return", otherwise a result.
\<close>

type_synonym 'a comp = "'a result option"

definition bind_comp :: "'a comp \<Rightarrow> ('a \<Rightarrow> 'b comp) \<Rightarrow> 'b comp" where
  "bind_comp m f = (case m of None \<Rightarrow> None | Some (Inl e) \<Rightarrow> Some (Inl e) | Some (Inr x) \<Rightarrow> f x)"

lemma bind_comp_simps [simp]:
  "bind_comp None f = None"
  "bind_comp (Some (Inl e)) f = Some (Inl e)"
  "bind_comp (Some (Inr x)) f = f x"
  by (simp_all add: bind_comp_def)

text \<open>
  A loop that runs an operation on each element and stops at the first exception; the second
  form keeps the state reached so far, because a C++ exception does not undo the assignments
  made before it.
\<close>

fun mapM_res :: "('a \<Rightarrow> 'b result) \<Rightarrow> 'a list \<Rightarrow> 'b list result" where
  "mapM_res f [] = Inr []"
| "mapM_res f (x # xs) = bind_res (f x) (\<lambda>y. bind_res (mapM_res f xs) (\<lambda>ys. Inr (y # ys)))"

fun foldM_res :: "('a \<Rightarrow> 's \<Rightarrow> 's result) \<Rightarrow> 'a list \<Rightarrow> 's \<Rightarrow> 's result" where
  "foldM_res f [] s = Inr s"
| "foldM_res f (x # xs) s = bind_res (f x s) (foldM_res f xs)"

fun foldE :: "('a \<Rightarrow> 's \<Rightarrow> exn option \<times> 's) \<Rightarrow> 'a list \<Rightarrow> 's \<Rightarrow> exn option \<times> 's" where
  "foldE f [] s = (None, s)"
| "foldE f (x # xs) s =
     (case f x s of (None, s') \<Rightarrow> foldE f xs s' | (Some e, s') \<Rightarrow> (Some e, s'))"

definition keep_state :: "'s \<Rightarrow> 's result \<Rightarrow> exn option \<times> 's" where
  "keep_state s r = (case r of Inl e \<Rightarrow> (Some e, s) | Inr s' \<Rightarrow> (None, s'))"

lemma keep_state_simps [simp]:
  "keep_state s (Inl e) = (Some e, s)"
  "keep_state s (Inr s') = (None, s')"
  by (simp_all add: keep_state_def)

fun mapM_comp :: "('a \<Rightarrow> 'b comp) \<Rightarrow> 'a list \<Rightarrow> 'b list comp" where
  "mapM_comp f [] = Some (Inr [])"
| "mapM_comp f (x # xs) =
     bind_comp (f x) (\<lambda>y. bind_comp (mapM_comp f xs) (\<lambda>ys. Some (Inr (y # ys))))"

fun foldM_comp :: "('a \<Rightarrow> 's \<Rightarrow> 's comp) \<Rightarrow> 'a list \<Rightarrow> 's \<Rightarrow> 's comp" where
  "foldM_comp f [] s = Some (Inr s)"
| "foldM_comp f (x # xs) s = bind_comp (f x s) (foldM_comp f xs)"

lemma bind_comp_eq_Inr: "bind_comp m f = Some (Inr y) \<longleftrightarrow> (\<exists>x. m = Some (Inr x) \<and> f x = Some (Inr y))"
  by (auto simp: bind_comp_def split: option.splits sum.splits)

lemma bind_comp_not_None: "m \<noteq> None \<Longrightarrow> (\<And>x. m = Some (Inr x) \<Longrightarrow> f x \<noteq> None) \<Longrightarrow> bind_comp m f \<noteq> None"
  by (auto simp: bind_comp_def split: option.splits sum.splits)

lemma mapM_comp_Inr:
  "(\<And>x. x \<in> set xs \<Longrightarrow> f x = Some (Inr (g x))) \<Longrightarrow> mapM_comp f xs = Some (Inr (map g xs))"
  by (induction xs) auto

lemma foldE_snoc:
  "foldE f (xs @ [x]) s =
     (case foldE f xs s of (None, s') \<Rightarrow> f x s' | (Some e, s') \<Rightarrow> (Some e, s'))"
  by (induction xs arbitrary: s) (auto split: prod.splits option.splits)

lemma mapM_res_guarded:
  "(\<And>x. x \<in> set xs \<Longrightarrow> f x = bind_res (c x) (\<lambda>_. Inr (g x))) \<Longrightarrow>
     mapM_res f xs = bind_res (mapM_res c xs) (\<lambda>_. Inr (map g xs))"
  by (induction xs) (auto simp: bind_res_def split: sum.splits)

lemma mapM_res_cong: "(\<And>x. x \<in> set xs \<Longrightarrow> f x = g x) \<Longrightarrow> mapM_res f xs = mapM_res g xs"
  by (induction xs) auto

lemma mapM_res_nth: "mapM_res (\<lambda>i. f (xs ! i)) [0 ..< length xs] = mapM_res f xs"
proof -
  have "mapM_res (f \<circ> g) ys = mapM_res f (map g ys)" for g and ys :: "nat list"
    by (induction ys) auto
  from this [of "(!) xs" "[0 ..< length xs]"] show ?thesis by (simp add: map_nth comp_def)
qed

lemma mapM_res_Inr: "(\<And>x. x \<in> set xs \<Longrightarrow> f x = Inr (g x)) \<Longrightarrow> mapM_res f xs = Inr (map g xs)"
  by (induction xs) auto

lemma foldM_res_append: "foldM_res f (xs @ ys) s = bind_res (foldM_res f xs s) (foldM_res f ys)"
  by (induction xs arbitrary: s) (auto simp: bind_res_def split: sum.splits)

text \<open>Characters and C strings. A C++ \<^verbatim>\<open>char\<close> and an Isabelle \<^verbatim>\<open>char\<close> are both one byte.\<close>

definition is_digit_char :: "char \<Rightarrow> bool" where
  "is_digit_char c = (48 \<le> (of_char c :: nat) \<and> (of_char c :: nat) \<le> 57)"

definition digit_value :: "char \<Rightarrow> nat" where
  "digit_value c = (of_char c :: nat) - 48"

lemma digit_value_less: "is_digit_char c \<Longrightarrow> digit_value c < 10"
  by (auto simp: is_digit_char_def digit_value_def)

text \<open>\<^verbatim>\<open>std::to_string\<close> of an unsigned number: its decimal digits.\<close>

definition digit_char :: "nat \<Rightarrow> char" where
  "digit_char d = char_of (48 + d)"

fun show_nat :: "nat \<Rightarrow> string" where
  "show_nat n = (if n < 10 then [digit_char n] else show_nat (n div 10) @ [digit_char (n mod 10)])"

declare show_nat.simps [simp del]

definition show_int :: "int \<Rightarrow> string" where
  "show_int i = (if i < 0 then CHR ''-'' # show_nat (nat (- i)) else show_nat (nat i))"

fun read_digits :: "nat \<Rightarrow> string \<Rightarrow> nat" where
  "read_digits acc [] = acc"
| "read_digits acc (c # cs) = read_digits (acc * 10 + digit_value c) cs"

lemma digit_char_simps [simp]:
  assumes "d < 10"
  shows "is_digit_char (digit_char d)" "digit_value (digit_char d) = d"
  using assms by (simp_all add: is_digit_char_def digit_value_def digit_char_def of_char_of)

lemma read_digits_append: "read_digits acc (xs @ ys) = read_digits (read_digits acc xs) ys"
  by (induction xs arbitrary: acc) auto

lemma show_nat_digits: "\<forall>c \<in> set (show_nat n). is_digit_char c"
proof (induction n rule: show_nat.induct)
  case (1 n)
  then show ?case by (cases "n < 10") (auto simp: show_nat.simps [of n])
qed

lemma show_nat_nonempty [simp]: "show_nat n \<noteq> []"
  by (subst show_nat.simps) simp

lemma read_show_nat [simp]: "read_digits 0 (show_nat n) = n"
proof (induction n rule: show_nat.induct)
  case (1 n)
  then show ?case
    by (cases "n < 10") (auto simp: show_nat.simps [of n] read_digits_append)
qed

lemma show_nat_inj: "show_nat m = show_nat n \<longleftrightarrow> m = n"
  by (metis read_show_nat)

text \<open>
  \<open>ceil_log2 n\<close> is the \<^verbatim>\<open>ceil(log2(n))\<close> the containers size their tables with: the least
  \<open>p\<close> with \<open>n \<le> 2 ^ p\<close>. (The code computes it in double precision, which is exact for every size
  a table of this program can have.)
\<close>

fun ceil_log2 :: "nat \<Rightarrow> nat" where
  "ceil_log2 n = (if n \<le> 1 then 0 else Suc (ceil_log2 ((n + 1) div 2)))"

declare ceil_log2.simps [simp del]

lemma ceil_log2_upper: "n \<le> 2 ^ ceil_log2 n"
proof (induction n rule: ceil_log2.induct)
  case (1 n)
  show ?case
  proof (cases "n \<le> 1")
    case False
    with 1 have "(n + 1) div 2 \<le> 2 ^ ceil_log2 ((n + 1) div 2)" by simp
    with False show ?thesis by (simp add: ceil_log2.simps [of n])
  qed (simp add: ceil_log2.simps [of n])
qed

lemma ceil_log2_lower: "1 < n \<Longrightarrow> 2 ^ ceil_log2 n < 2 * n"
proof (induction n rule: ceil_log2.induct)
  case (1 n)
  show ?case
  proof (cases "(n + 1) div 2 \<le> 1")
    case True
    with "1.prems" have "n = 2" by simp
    then show ?thesis by (simp add: ceil_log2.simps)
  next
    case False
    define p :: nat where "p = 2 ^ ceil_log2 ((n + 1) div 2)"
    from False 1 have "p < 2 * ((n + 1) div 2)" by (simp add: p_def)
    moreover have "even p"
      unfolding p_def using False by (subst ceil_log2.simps) simp
    ultimately have "p < n" by presburger
    moreover have "2 ^ ceil_log2 n = 2 * p"
      using "1.prems" by (simp add: p_def ceil_log2.simps [of n])
    ultimately show ?thesis by simp
  qed
qed

text \<open>Words: what the operations of the code do to the unsigned value.\<close>

lemma unat_minus_one_word: "(x :: 'a::len word) \<noteq> 0 \<Longrightarrow> unat (x - 1) = unat x - 1"
  by (metis unat_minus_one)

lemma bit_u8_beyond [simp]: "8 \<le> n \<Longrightarrow> \<not> bit (x :: u8) n"
  using bit_imp_le_length [of x n] by auto

lemma word_less_minus_one_iff:
  fixes x y :: "'a::len word"
  assumes "y \<noteq> 0"
  shows "x < y \<longleftrightarrow> x \<le> y - 1"
proof -
  from assms have "unat y \<noteq> 0" by (simp add: unat_eq_zero)
  then show ?thesis
    by (auto simp: word_less_nat_alt word_le_nat_alt unat_minus_one_word [OF assms])
qed

end
