(* ===== verification/BranchBitmap.thy ===== *)
theory BranchBitmap
  imports Tardis_Prelude
begin

text \<open>
  The two row containers of foundations/: \<^verbatim>\<open>Vector\<close> (Vector.cpp), the growable array every column
  is stored in, and \<^verbatim>\<open>BitmapTable\<close> (Database.cpp), the table of bits the null indicators and the
  branch visibility of the rows are stored in. A slot of a vector is the block of
  \<^verbatim>\<open>elementSize\<close> bytes the code addresses as one element: \<open>None\<close> while nothing has been stored in
  it since it was allocated. The bitmap's slots are rows of bytes.

  The interface of the vector is the locale \<open>growable\<close>; the vector of the code is interpreted
  as \<open>vec\<close> below, and the bitmap and the tables build on the facts of that interpretation.
\<close>

section \<open>Vector\<close>

record 'a vec =
  vec_elementSize :: nat
  vec_elementCount :: nat
  vec_capacity :: nat
  vec_array :: "'a option list"

definition vec_defaultCount :: nat where
  "vec_defaultCount = 2"

definition Vector_reserve_ctor :: "nat \<Rightarrow> nat \<Rightarrow> 'a vec" where
  "Vector_reserve_ctor elementSize reserveCount =
     (let capacity = vec_defaultCount;
          capacity = (if reserveCount > vec_defaultCount then 2 ^ ceil_log2 capacity else capacity)
      in \<lparr>vec_elementSize = elementSize, vec_elementCount = reserveCount,
          vec_capacity = capacity, vec_array = replicate capacity None\<rparr>)"

definition Vector_ctor :: "nat \<Rightarrow> 'a vec" where
  "Vector_ctor elementSize = Vector_reserve_ctor elementSize 0"

definition vec_resize :: "nat \<Rightarrow> 'a option list \<Rightarrow> 'a option list" where
  \<comment> \<open>realloc: the old contents up to the smaller size, fresh memory after it\<close>
  "vec_resize n xs = take n xs @ replicate (n - length xs) None"

definition Vector_reserve_back :: "'a vec \<Rightarrow> nat \<times> 'a vec" where
  "Vector_reserve_back v =
     (let v' = (if vec_elementCount v = vec_capacity v
                then v\<lparr>vec_capacity := vec_capacity v * 2,
                       vec_array := vec_resize (vec_capacity v * 2) (vec_array v)\<rparr>
                else v)
      in (vec_elementCount v', v'\<lparr>vec_elementCount := vec_elementCount v' + 1\<rparr>))"

definition Vector_pop_back :: "'a vec \<Rightarrow> 'a vec result" where
  "Vector_pop_back v =
     (if \<not> vec_elementCount v > 0 then Inl AssertFailed
      else let v' = v\<lparr>vec_elementCount := vec_elementCount v - 1\<rparr>
           in if vec_elementCount v' \<le> vec_defaultCount then Inr v'
              else if vec_elementCount v' \<le> vec_capacity v' div 2
                   then Inr (v'\<lparr>vec_capacity := vec_capacity v' div 2,
                                vec_array := vec_resize (vec_capacity v' div 2) (vec_array v')\<rparr>)
                   else Inr v')"

definition Vector_at :: "'a vec \<Rightarrow> nat \<Rightarrow> nat result" where
  \<comment> \<open>the address of an element, as its slot\<close>
  "Vector_at v i = (if i < vec_elementCount v then Inr i else Inl AssertFailed)"

definition Vector_back :: "'a vec \<Rightarrow> nat result" where
  "Vector_back v = (if vec_elementCount v = 0 then Inl AssertFailed
                    else Vector_at v (vec_elementCount v - 1))"

definition vec_load :: "'a vec \<Rightarrow> nat \<Rightarrow> 'a option result" where
  \<comment> \<open>reading through an element's address\<close>
  "vec_load v i = (if i < length (vec_array v) then Inr (vec_array v ! i) else Inl MemFault)"

definition vec_store :: "'a vec \<Rightarrow> nat \<Rightarrow> 'a \<Rightarrow> 'a vec result" where
  \<comment> \<open>writing through an element's address\<close>
  "vec_store v i x =
     (if i < length (vec_array v) then Inr (v\<lparr>vec_array := (vec_array v)[i := Some x]\<rparr>)
      else Inl MemFault)"

definition Vector_push_back :: "'a vec \<Rightarrow> 'a \<Rightarrow> 'a vec result" where
  "Vector_push_back v x = (let (i, v') = Vector_reserve_back v in vec_store v' i x)"

definition Vector_remove_at :: "'a vec \<Rightarrow> nat \<Rightarrow> 'a vec result" where
  \<comment> \<open>\<open>size() - 1\<close> is unsigned, so the guard holds for an empty vector and \<open>at\<close> fails\<close>
  "Vector_remove_at v index =
     (if vec_elementCount v = 0 then Inl AssertFailed
      else let v' = (if index < vec_elementCount v - 1
                     then v\<lparr>vec_array := take index (vec_array v)
                              @ take (vec_elementCount v - index - 1) (drop (index + 1) (vec_array v))
                              @ drop (vec_elementCount v - 1) (vec_array v)\<rparr>
                     else v)
           in Vector_pop_back v')"

text \<open>What a vector holds, and the invariant every operation keeps.\<close>

definition vec_cells :: "'a vec \<Rightarrow> 'a option list" where
  "vec_cells v = take (vec_elementCount v) (vec_array v)"

definition vec_ok :: "'a vec \<Rightarrow> bool" where
  "vec_ok v \<longleftrightarrow> vec_elementCount v \<le> vec_capacity v \<and> length (vec_array v) = vec_capacity v
      \<and> 0 < vec_capacity v"

lemma length_vec_resize [simp]: "length (vec_resize n xs) = n"
  by (simp add: vec_resize_def)

lemma take_vec_resize: "k \<le> n \<Longrightarrow> k \<le> length xs \<Longrightarrow> take k (vec_resize n xs) = take k xs"
  by (simp add: vec_resize_def min_def)

lemma length_vec_cells [simp]: "vec_ok v \<Longrightarrow> length (vec_cells v) = vec_elementCount v"
  by (simp add: vec_cells_def vec_ok_def)

lemma Vector_ctor_ok: "vec_ok (Vector_ctor es)" "vec_cells (Vector_ctor es) = []"
    "vec_elementSize (Vector_ctor es) = es"
  by (simp_all add: Vector_ctor_def Vector_reserve_ctor_def vec_ok_def vec_cells_def
      vec_defaultCount_def Let_def)

lemma Vector_reserve_back_ok:
  assumes "vec_ok v"
  shows "vec_ok (snd (Vector_reserve_back v))"
  using assms by (auto simp: Vector_reserve_back_def vec_ok_def Let_def)

lemma Vector_reserve_back_cells:
  assumes "vec_ok v"
  shows "\<exists>c. vec_cells (snd (Vector_reserve_back v)) = vec_cells v @ [c]"
    and "fst (Vector_reserve_back v) = length (vec_cells v)"
proof -
  let ?v' = "snd (Vector_reserve_back v)"
  have len: "vec_elementCount v < length (vec_array ?v')"
    and arr: "take (vec_elementCount v) (vec_array ?v') = take (vec_elementCount v) (vec_array v)"
    using assms by (auto simp: Vector_reserve_back_def vec_ok_def Let_def take_vec_resize)
  have "vec_elementCount ?v' = Suc (vec_elementCount v)"
    by (simp add: Vector_reserve_back_def Let_def)
  then have "vec_cells ?v' = take (vec_elementCount v) (vec_array ?v') @ [vec_array ?v' ! vec_elementCount v]"
    using len by (simp add: vec_cells_def take_Suc_conv_app_nth)
  then show "\<exists>c. vec_cells ?v' = vec_cells v @ [c]"
    by (simp add: arr vec_cells_def)
  show "fst (Vector_reserve_back v) = length (vec_cells v)"
    using assms by (simp add: Vector_reserve_back_def Let_def)
qed

lemma Vector_reserve_back_count [simp]:
  "vec_elementCount (snd (Vector_reserve_back v)) = Suc (vec_elementCount v)"
  "vec_elementSize (snd (Vector_reserve_back v)) = vec_elementSize v"
  by (simp_all add: Vector_reserve_back_def Let_def)

lemma vec_store_Inr:
  assumes "vec_ok v" "i < length (vec_cells v)"
  shows "\<exists>v'. vec_store v i x = Inr v' \<and> vec_ok v' \<and> vec_cells v' = (vec_cells v)[i := Some x]
    \<and> vec_elementSize v' = vec_elementSize v"
  using assms by (auto simp: vec_store_def vec_ok_def vec_cells_def take_update_swap)

lemma vec_load_Inr:
  assumes "vec_ok v" "i < length (vec_cells v)"
  shows "vec_load v i = Inr (vec_cells v ! i)"
  using assms by (auto simp: vec_load_def vec_ok_def vec_cells_def)

lemma Vector_pop_back_Inr:
  assumes "vec_ok v" "vec_cells v \<noteq> []"
  shows "\<exists>v'. Vector_pop_back v = Inr v' \<and> vec_ok v' \<and> vec_cells v' = butlast (vec_cells v)"
proof -
  have n: "0 < vec_elementCount v" "vec_elementCount v \<le> length (vec_array v)"
    using assms by (auto simp: vec_cells_def vec_ok_def)
  then have "butlast (vec_cells v) = take (vec_elementCount v - 1) (vec_array v)"
    by (simp add: vec_cells_def butlast_take)
  with n assms show ?thesis
    by (auto simp: Vector_pop_back_def vec_ok_def vec_cells_def Let_def take_vec_resize
        vec_defaultCount_def)
qed

lemma Vector_remove_at_Inr:
  assumes ok: "vec_ok v" and i: "i < length (vec_cells v)"
  shows "\<exists>v'. Vector_remove_at v i = Inr v' \<and> vec_ok v'
    \<and> vec_cells v' = take i (vec_cells v) @ drop (Suc i) (vec_cells v)"
proof -
  let ?n = "vec_elementCount v" and ?a = "vec_array v"
  have n: "i < ?n" "?n \<le> length ?a" using assms by (auto simp: vec_ok_def)
  define v1 where "v1 = (if i < ?n - 1
      then v\<lparr>vec_array := take i ?a @ take (?n - i - 1) (drop (i + 1) ?a) @ drop (?n - 1) ?a\<rparr>
      else v)"
  have ok1: "vec_ok v1" using ok n by (auto simp: v1_def vec_ok_def)
  have cnt: "vec_elementCount v1 = ?n" by (simp add: v1_def)
  have len1: "length (vec_array v1) = length ?a" using n by (auto simp: v1_def)
  have arr: "take (?n - 1) (vec_array v1) = take i ?a @ take (?n - 1 - i) (drop (Suc i) ?a)"
  proof (cases "i < ?n - 1")
    case True
    then show ?thesis using n by (auto simp: v1_def min_def)
  next
    case False
    with n have "i = ?n - 1" by simp
    then show ?thesis by (simp add: v1_def)
  qed
  have "vec_cells v1 \<noteq> []" using n ok1 cnt len1 by (auto simp: vec_cells_def)
  then obtain v' where v': "Vector_pop_back v1 = Inr v'" "vec_ok v'"
      "vec_cells v' = butlast (vec_cells v1)"
    using Vector_pop_back_Inr [OF ok1] by blast
  have "butlast (vec_cells v1) = take (?n - 1) (vec_array v1)"
    using n cnt len1 by (simp add: vec_cells_def butlast_take)
  also have "\<dots> = take i (vec_cells v) @ drop (Suc i) (vec_cells v)"
    using arr n by (simp add: vec_cells_def min_def drop_take)
  finally have "vec_cells v' = take i (vec_cells v) @ drop (Suc i) (vec_cells v)"
    using v' by simp
  moreover have "Vector_remove_at v i = Vector_pop_back v1"
    using n by (simp add: Vector_remove_at_def v1_def Let_def)
  ultimately show ?thesis using v' by auto
qed

subsection \<open>The interface its clients use\<close>

locale growable =
  fixes reserve :: "'v \<Rightarrow> nat \<times> 'v"
    and store :: "'v \<Rightarrow> nat \<Rightarrow> 'a \<Rightarrow> 'v result"
    and load :: "'v \<Rightarrow> nat \<Rightarrow> 'a option result"
    and cells :: "'v \<Rightarrow> 'a option list"
    and ok :: "'v \<Rightarrow> bool"
    and width :: "'v \<Rightarrow> nat"
  assumes reserve_ok: "ok v \<Longrightarrow> ok (snd (reserve v))"
    and reserve_index: "ok v \<Longrightarrow> fst (reserve v) = length (cells v)"
    and reserve_cells: "ok v \<Longrightarrow> \<exists>c. cells (snd (reserve v)) = cells v @ [c]"
    and reserve_width: "width (snd (reserve v)) = width v"
    and store_spec: "ok v \<Longrightarrow> i < length (cells v) \<Longrightarrow>
      \<exists>v'. store v i x = Inr v' \<and> ok v' \<and> cells v' = (cells v)[i := Some x] \<and> width v' = width v"
    and load_spec: "ok v \<Longrightarrow> i < length (cells v) \<Longrightarrow> load v i = Inr (cells v ! i)"
begin

lemma push_spec:
  assumes "ok v" "reserve v = (i, v1)"
  shows "\<exists>v'. store v1 i x = Inr v' \<and> ok v' \<and> cells v' = cells v @ [Some x] \<and> width v' = width v"
proof -
  from assms reserve_ok reserve_cells reserve_index reserve_width obtain c where
    "ok v1" "cells v1 = cells v @ [c]" "i = length (cells v)" "width v1 = width v"
    by (metis fst_conv snd_conv)
  with store_spec [of v1 i x] show ?thesis by auto
qed

lemma load_after_store:
  assumes "ok v" "i < length (cells v)" "j < length (cells v)" "store v i x = Inr v'"
  shows "load v' j = Inr (if j = i then Some x else cells v ! j)"
  using assms store_spec [of v i x] load_spec [of v' j] by (auto simp: nth_list_update)

end

interpretation vec: growable Vector_reserve_back vec_store vec_load vec_cells vec_ok vec_elementSize
  by unfold_locales
    (simp_all add: Vector_reserve_back_ok Vector_reserve_back_cells vec_store_Inr vec_load_Inr)

section \<open>BitmapTable\<close>

type_synonym bits_row = "u8 list"

record bitmap =
  bm_availableCount :: nat
  bm_columnCount :: nat
  bm_data :: "bits_row vec"

definition BitmapTable_ctor :: "nat \<Rightarrow> bitmap" where
  "BitmapTable_ctor columnCountHint =
     (let bytesPerTuple = (columnCountHint + 7) div 8
      in \<lparr>bm_availableCount = bytesPerTuple * 8, bm_columnCount = 0,
          bm_data = Vector_ctor bytesPerTuple\<rparr>)"

definition BitmapTable_default_ctor :: bitmap where
  "BitmapTable_default_ctor = BitmapTable_ctor 8"

text \<open>
  The byte and the bit of a column. \<open>section ^= (-value ^ section) & (1 << sectionIndex)\<close> is
  computed in \<^verbatim>\<open>int\<close> and cut back to a byte.
\<close>

definition set_section :: "u8 \<Rightarrow> nat \<Rightarrow> bool \<Rightarrow> u8" where
  "set_section section sectionIndex value =
     (let wide = (ucast section :: u32); neg = - (if value then 1 else 0 :: u32)
      in ucast (wide XOR ((neg XOR wide) AND push_bit sectionIndex 1)))"

definition get_section :: "u8 \<Rightarrow> nat \<Rightarrow> bool" where
  "get_section section sectionIndex =
     ((drop_bit sectionIndex (ucast section :: u32) AND 1) \<noteq> 0)"

definition bitmap_row :: "bitmap \<Rightarrow> nat \<Rightarrow> bits_row result" where
  \<comment> \<open>the row at \<open>_data->at(tid)\<close>; a row that was never written is no row\<close>
  "bitmap_row bm tid =
     bind_res (Vector_at (bm_data bm) tid) (\<lambda>i.
     bind_res (vec_load (bm_data bm) i) (\<lambda>c.
       case c of None \<Rightarrow> Inl MemFault | Some row \<Rightarrow> Inr row))"

definition BitmapTable_set :: "bitmap \<Rightarrow> nat \<Rightarrow> nat \<Rightarrow> bool \<Rightarrow> bitmap result" where
  "BitmapTable_set bm tid column value =
     (if \<not> column < bm_columnCount bm then Inl AssertFailed
      else bind_res (bitmap_row bm tid) (\<lambda>row.
        let byte = column div 8; sectionIndex = column mod 8
        in if \<not> byte < length row then Inl MemFault
           else bind_res (vec_store (bm_data bm) tid
                            (row[byte := set_section (row ! byte) sectionIndex value]))
                  (\<lambda>d. Inr (bm\<lparr>bm_data := d\<rparr>))))"

definition BitmapTable_isSet :: "bitmap \<Rightarrow> nat \<Rightarrow> nat \<Rightarrow> bool result" where
  "BitmapTable_isSet bm tid column =
     (if \<not> column < bm_columnCount bm then Inl AssertFailed
      else bind_res (bitmap_row bm tid) (\<lambda>row.
        let byte = column div 8; sectionIndex = column mod 8
        in if \<not> byte < length row then Inl MemFault
           else Inr (get_section (row ! byte) sectionIndex)))"

definition BitmapTable_resize :: "bitmap \<Rightarrow> exn option \<times> bitmap" where
  "BitmapTable_resize bm = (Some (NotImplemented ''BitmapTable::resize()''), bm)"

definition BitmapTable_newColumn :: "bitmap \<Rightarrow> exn option \<times> bitmap" where
  \<comment> \<open>the common start of addColumn and cloneColumn; the count stays incremented when resize throws\<close>
  "BitmapTable_newColumn bm =
     (let bm' = bm\<lparr>bm_columnCount := bm_columnCount bm + 1\<rparr>
      in if bm_columnCount bm' > bm_availableCount bm' then BitmapTable_resize bm'
         else (None, bm'))"

definition BitmapTable_addColumn :: "bitmap \<Rightarrow> nat result \<times> bitmap" where
  "BitmapTable_addColumn bm =
     (let column = bm_columnCount bm
      in case BitmapTable_newColumn bm of
           (Some e, bm') \<Rightarrow> (Inl e, bm')
         | (None, bm') \<Rightarrow>
             (case foldE (\<lambda>tid b. keep_state b (BitmapTable_set b tid column False))
                     [0 ..< vec_elementCount (bm_data bm')] bm' of
                (Some e, bm'') \<Rightarrow> (Inl e, bm'')
              | (None, bm'') \<Rightarrow> (Inr column, bm'')))"

definition BitmapTable_cloneColumn :: "bitmap \<Rightarrow> nat \<Rightarrow> nat result \<times> bitmap" where
  "BitmapTable_cloneColumn bm original =
     (let column = bm_columnCount bm
      in case BitmapTable_newColumn bm of
           (Some e, bm') \<Rightarrow> (Inl e, bm')
         | (None, bm') \<Rightarrow>
             (case foldE (\<lambda>tid b. keep_state b (bind_res (BitmapTable_isSet b tid original)
                                                 (BitmapTable_set b tid column)))
                     [0 ..< vec_elementCount (bm_data bm')] bm' of
                (Some e, bm'') \<Rightarrow> (Inl e, bm'')
              | (None, bm'') \<Rightarrow> (Inr column, bm'')))"

definition BitmapTable_addRow :: "bitmap \<Rightarrow> bitmap result" where
  "BitmapTable_addRow bm =
     (let (i, d) = Vector_reserve_back (bm_data bm); byteCount = bm_availableCount bm div 8
      in bind_res (vec_store d i (replicate byteCount 0)) (\<lambda>d'. Inr (bm\<lparr>bm_data := d'\<rparr>)))"

text \<open>What the bits are, and the invariant.\<close>

definition bm_rows :: "bitmap \<Rightarrow> nat" where
  "bm_rows bm = length (vec_cells (bm_data bm))"

definition bm_bit :: "bitmap \<Rightarrow> nat \<Rightarrow> nat \<Rightarrow> bool" where
  "bm_bit bm tid column = bit (the (vec_cells (bm_data bm) ! tid) ! (column div 8)) (column mod 8)"

definition bm_ok :: "bitmap \<Rightarrow> bool" where
  "bm_ok bm \<longleftrightarrow> vec_ok (bm_data bm) \<and> bm_columnCount bm \<le> bm_availableCount bm
     \<and> bm_availableCount bm = 8 * vec_elementSize (bm_data bm)
     \<and> (\<forall>c \<in> set (vec_cells (bm_data bm)).
          \<exists>row. c = Some row \<and> length row = vec_elementSize (bm_data bm))"

lemma get_section_bit: "i < 8 \<Longrightarrow> get_section s i = bit s i"
proof -
  assume "i < 8"
  have "get_section s i = odd (drop_bit i (ucast s :: u32))"
    by (simp add: get_section_def and_one_eq odd_iff_mod_2_eq_one)
  also have "\<dots> = bit (ucast s :: u32) i" by (simp only: bit_iff_odd_drop_bit)
  also have "\<dots> = bit s i" using \<open>i < 8\<close> by (simp add: bit_simps)
  finally show ?thesis .
qed

lemma bit_set_section:
  "i < 8 \<Longrightarrow> j < 8 \<Longrightarrow> bit (set_section s i v) j = (if j = i then v else bit s j)"
  by (auto simp: set_section_def Let_def bit_simps)

lemma bitmap_row_Inr:
  assumes "bm_ok bm" "tid < bm_rows bm"
  shows "\<exists>row. bitmap_row bm tid = Inr row \<and> vec_cells (bm_data bm) ! tid = Some row
    \<and> length row = vec_elementSize (bm_data bm)"
proof -
  from assms have ok: "vec_ok (bm_data bm)" and tid: "tid < length (vec_cells (bm_data bm))"
    by (auto simp: bm_ok_def bm_rows_def)
  with assms obtain row where "vec_cells (bm_data bm) ! tid = Some row"
      "length row = vec_elementSize (bm_data bm)"
    unfolding bm_ok_def by (metis nth_mem)
  with ok tid show ?thesis
    by (simp add: bitmap_row_def Vector_at_def vec.load_spec)
qed

lemma BitmapTable_isSet_Inr:
  assumes "bm_ok bm" "tid < bm_rows bm" "column < bm_columnCount bm"
  shows "BitmapTable_isSet bm tid column = Inr (bm_bit bm tid column)"
proof -
  from bitmap_row_Inr [OF assms(1,2)] obtain row where
    "bitmap_row bm tid = Inr row" "vec_cells (bm_data bm) ! tid = Some row"
    "length row = vec_elementSize (bm_data bm)" by blast
  with assms show ?thesis
    by (auto simp: BitmapTable_isSet_def Let_def bm_bit_def get_section_bit bm_ok_def
        less_mult_imp_div_less mult.commute)
qed

lemma BitmapTable_set_Inr:
  assumes ok: "bm_ok bm" and tid: "tid < bm_rows bm" and col: "column < bm_columnCount bm"
  shows "\<exists>bm'. BitmapTable_set bm tid column v = Inr bm' \<and> bm_ok bm' \<and> bm_rows bm' = bm_rows bm
    \<and> bm_columnCount bm' = bm_columnCount bm \<and> bm_availableCount bm' = bm_availableCount bm
    \<and> (\<forall>t < bm_rows bm. \<forall>c < bm_availableCount bm.
         bm_bit bm' t c = (if t = tid \<and> c = column then v else bm_bit bm t c))"
proof -
  let ?d = "bm_data bm"
  from bitmap_row_Inr [OF ok tid] obtain row where row:
    "bitmap_row bm tid = Inr row" "vec_cells ?d ! tid = Some row" "length row = vec_elementSize ?d"
    by blast
  define row' where "row' = row[column div 8 := set_section (row ! (column div 8)) (column mod 8) v]"
  have byte: "column div 8 < length row"
    using ok col row(3) by (auto simp: bm_ok_def less_mult_imp_div_less mult.commute)
  have tid': "tid < length (vec_cells ?d)" and vok: "vec_ok ?d"
    using tid ok by (auto simp: bm_rows_def bm_ok_def)
  from vec.store_spec [OF vok tid', of row'] obtain d where d: "vec_store ?d tid row' = Inr d"
    "vec_ok d" "vec_cells d = (vec_cells ?d)[tid := Some row']" "vec_elementSize d = vec_elementSize ?d"
    by blast
  let ?bm' = "bm\<lparr>bm_data := d\<rparr>"
  have set: "BitmapTable_set bm tid column v = Inr ?bm'"
    using col byte row(1) d(1) by (simp add: BitmapTable_set_def Let_def row'_def)
  have ok': "bm_ok ?bm'"
    using ok d row(3)
    by (auto simp: bm_ok_def row'_def dest!: set_update_subset_insert [THEN subsetD])
  have bits: "bm_bit ?bm' t c = (if t = tid \<and> c = column then v else bm_bit bm t c)"
    if "t < bm_rows bm" "c < bm_availableCount bm" for t c
  proof (cases "t = tid")
    case True
    have eq: "c = column \<longleftrightarrow> c div 8 = column div 8 \<and> c mod 8 = column mod 8"
      by (metis div_mult_mod_eq)
    with True tid' d(3) row(2) byte show ?thesis
      by (auto simp: bm_bit_def row'_def nth_list_update bit_set_section)
  qed (simp add: bm_bit_def d(3))
  show ?thesis
    using set ok' bits d(3) by (auto simp: bm_rows_def)
qed

text \<open>A pass over all rows that sets one column, as \<open>addColumn\<close> and \<open>cloneColumn\<close> make it.\<close>

lemma set_column_loop:
  assumes ok: "bm_ok bm" and col: "column < bm_columnCount bm"
    and step: "\<And>b t. bm_ok b \<Longrightarrow> t < bm_rows b \<Longrightarrow> bm_columnCount b = bm_columnCount bm \<Longrightarrow>
        (\<forall>c < bm_availableCount bm. c \<noteq> column \<longrightarrow> bm_bit b t c = bm_bit bm t c) \<Longrightarrow>
        f t b = keep_state b (BitmapTable_set b t column (g t))"
    and n: "n \<le> bm_rows bm"
  shows "\<exists>bm'. foldE f [0 ..< n] bm = (None, bm') \<and> bm_ok bm' \<and> bm_rows bm' = bm_rows bm
    \<and> bm_columnCount bm' = bm_columnCount bm \<and> bm_availableCount bm' = bm_availableCount bm
    \<and> (\<forall>t < bm_rows bm. \<forall>c < bm_availableCount bm.
         bm_bit bm' t c = (if t < n \<and> c = column then g t else bm_bit bm t c))"
  using n
proof (induction n)
  case 0
  then show ?case using ok by simp
next
  case (Suc n)
  then obtain b where b: "foldE f [0 ..< n] bm = (None, b)" "bm_ok b" "bm_rows b = bm_rows bm"
    "bm_columnCount b = bm_columnCount bm" "bm_availableCount b = bm_availableCount bm"
    "\<forall>t < bm_rows bm. \<forall>c < bm_availableCount bm.
         bm_bit b t c = (if t < n \<and> c = column then g t else bm_bit bm t c)"
    by auto
  then have n: "n < bm_rows b" and col': "column < bm_columnCount b" using Suc.prems col by auto
  from BitmapTable_set_Inr [OF b(2) n col'] obtain b' where b': "BitmapTable_set b n column (g n) = Inr b'"
    "bm_ok b'" "bm_rows b' = bm_rows b" "bm_columnCount b' = bm_columnCount b"
    "bm_availableCount b' = bm_availableCount b"
    "\<forall>t < bm_rows b. \<forall>c < bm_availableCount b.
         bm_bit b' t c = (if t = n \<and> c = column then g n else bm_bit b t c)"
    by blast
  have "f n b = (None, b')"
    using step [OF b(2) n b(4)] b b'(1) n by auto
  then have "foldE f [0 ..< Suc n] bm = (None, b')"
    using b(1) by (simp add: foldE_snoc)
  moreover have "\<forall>t < bm_rows bm. \<forall>c < bm_availableCount bm.
         bm_bit b' t c = (if t < Suc n \<and> c = column then g t else bm_bit bm t c)"
    using b'(6) b by (auto simp: less_Suc_eq)
  ultimately show ?case using b b' by auto
qed

lemma newColumn_ok:
  assumes "bm_ok bm" "bm_columnCount bm < bm_availableCount bm"
  shows "BitmapTable_newColumn bm = (None, bm\<lparr>bm_columnCount := Suc (bm_columnCount bm)\<rparr>)"
    and "bm_ok (bm\<lparr>bm_columnCount := Suc (bm_columnCount bm)\<rparr>)"
  using assms by (simp_all add: BitmapTable_newColumn_def Let_def bm_ok_def)

lemma BitmapTable_addColumn_Inr:
  assumes ok: "bm_ok bm" and room: "bm_columnCount bm < bm_availableCount bm"
  shows "\<exists>bm'. BitmapTable_addColumn bm = (Inr (bm_columnCount bm), bm') \<and> bm_ok bm'
    \<and> bm_rows bm' = bm_rows bm \<and> bm_columnCount bm' = Suc (bm_columnCount bm)
    \<and> bm_availableCount bm' = bm_availableCount bm
    \<and> (\<forall>t < bm_rows bm. \<forall>c < bm_availableCount bm.
         bm_bit bm' t c = (if c = bm_columnCount bm then False else bm_bit bm t c))"
proof -
  let ?b = "bm\<lparr>bm_columnCount := Suc (bm_columnCount bm)\<rparr>"
  have rows: "bm_rows ?b = bm_rows bm" "\<And>t c. bm_bit ?b t c = bm_bit bm t c"
    "vec_elementCount (bm_data bm) = bm_rows bm"
    using ok by (simp_all add: bm_rows_def bm_bit_def bm_ok_def)
  have "\<exists>bm'. foldE (\<lambda>tid b. keep_state b (BitmapTable_set b tid (bm_columnCount bm) False))
      [0 ..< bm_rows bm] ?b = (None, bm') \<and> bm_ok bm' \<and> bm_rows bm' = bm_rows ?b
    \<and> bm_columnCount bm' = bm_columnCount ?b \<and> bm_availableCount bm' = bm_availableCount ?b
    \<and> (\<forall>t < bm_rows ?b. \<forall>c < bm_availableCount ?b. bm_bit bm' t c
         = (if t < bm_rows bm \<and> c = bm_columnCount bm then False else bm_bit ?b t c))"
    by (rule set_column_loop [OF newColumn_ok(2) [OF ok room]]) (simp_all add: rows)
  then show ?thesis
    using newColumn_ok(1) [OF ok room] by (auto simp: BitmapTable_addColumn_def Let_def rows)
qed

lemma BitmapTable_cloneColumn_Inr:
  assumes ok: "bm_ok bm" and room: "bm_columnCount bm < bm_availableCount bm"
    and orig: "original < bm_columnCount bm"
  shows "\<exists>bm'. BitmapTable_cloneColumn bm original = (Inr (bm_columnCount bm), bm') \<and> bm_ok bm'
    \<and> bm_rows bm' = bm_rows bm \<and> bm_columnCount bm' = Suc (bm_columnCount bm)
    \<and> bm_availableCount bm' = bm_availableCount bm
    \<and> (\<forall>t < bm_rows bm. \<forall>c < bm_availableCount bm.
         bm_bit bm' t c = (if c = bm_columnCount bm then bm_bit bm t original else bm_bit bm t c))"
proof -
  let ?b = "bm\<lparr>bm_columnCount := Suc (bm_columnCount bm)\<rparr>"
  have rows: "bm_rows ?b = bm_rows bm" "\<And>t c. bm_bit ?b t c = bm_bit bm t c"
    "vec_elementCount (bm_data bm) = bm_rows bm"
    using ok by (simp_all add: bm_rows_def bm_bit_def bm_ok_def)
  have avail: "original < bm_availableCount bm" using orig room by simp
  have "\<exists>bm'. foldE (\<lambda>tid b. keep_state b (bind_res (BitmapTable_isSet b tid original)
          (BitmapTable_set b tid (bm_columnCount bm))))
      [0 ..< bm_rows bm] ?b = (None, bm') \<and> bm_ok bm' \<and> bm_rows bm' = bm_rows ?b
    \<and> bm_columnCount bm' = bm_columnCount ?b \<and> bm_availableCount bm' = bm_availableCount ?b
    \<and> (\<forall>t < bm_rows ?b. \<forall>c < bm_availableCount ?b. bm_bit bm' t c
         = (if t < bm_rows bm \<and> c = bm_columnCount bm then bm_bit bm t original else bm_bit ?b t c))"
    by (rule set_column_loop [OF newColumn_ok(2) [OF ok room]])
      (use orig avail in \<open>auto simp: rows BitmapTable_isSet_Inr\<close>)
  then show ?thesis
    using newColumn_ok(1) [OF ok room] by (auto simp: BitmapTable_cloneColumn_def Let_def rows)
qed

lemma BitmapTable_full:
  assumes "bm_columnCount bm = bm_availableCount bm"
  shows "BitmapTable_addColumn bm = (Inl (NotImplemented ''BitmapTable::resize()''),
            bm\<lparr>bm_columnCount := Suc (bm_columnCount bm)\<rparr>)"
    and "BitmapTable_cloneColumn bm original = (Inl (NotImplemented ''BitmapTable::resize()''),
            bm\<lparr>bm_columnCount := Suc (bm_columnCount bm)\<rparr>)"
  using assms by (simp_all add: BitmapTable_addColumn_def BitmapTable_cloneColumn_def
      BitmapTable_newColumn_def BitmapTable_resize_def Let_def)

lemma BitmapTable_addRow_Inr:
  assumes ok: "bm_ok bm"
  shows "\<exists>bm'. BitmapTable_addRow bm = Inr bm' \<and> bm_ok bm' \<and> bm_rows bm' = Suc (bm_rows bm)
    \<and> bm_columnCount bm' = bm_columnCount bm \<and> bm_availableCount bm' = bm_availableCount bm
    \<and> (\<forall>t c. c < bm_availableCount bm \<longrightarrow> t < bm_rows bm \<longrightarrow> bm_bit bm' t c = bm_bit bm t c)
    \<and> (\<forall>c < bm_availableCount bm. \<not> bm_bit bm' (bm_rows bm) c)"
proof -
  let ?d = "bm_data bm" and ?w = "bm_availableCount bm div 8"
  obtain i v1 where r: "Vector_reserve_back ?d = (i, v1)" by fastforce
  from ok have vok: "vec_ok ?d" and w: "?w = vec_elementSize ?d" by (auto simp: bm_ok_def)
  from vec.push_spec [OF vok r, of "replicate ?w 0"] obtain d where d:
    "vec_store v1 i (replicate ?w 0) = Inr d" "vec_ok d"
    "vec_cells d = vec_cells ?d @ [Some (replicate ?w 0)]" "vec_elementSize d = vec_elementSize ?d"
    by blast
  have "BitmapTable_addRow bm = Inr (bm\<lparr>bm_data := d\<rparr>)"
    using d(1) by (simp add: BitmapTable_addRow_def r)
  moreover have "bm_ok (bm\<lparr>bm_data := d\<rparr>)"
    using ok d w by (auto simp: bm_ok_def)
  moreover have "c div 8 < ?w" if "c < bm_availableCount bm" for c
    using that ok by (auto simp: bm_ok_def less_mult_imp_div_less mult.commute)
  ultimately show ?thesis
    by (auto simp: bm_rows_def bm_bit_def d(3) nth_append)
qed

lemma BitmapTable_ctor_ok:
  "bm_ok (BitmapTable_ctor n)" "bm_rows (BitmapTable_ctor n) = 0"
  "bm_columnCount (BitmapTable_ctor n) = 0" "bm_availableCount (BitmapTable_ctor n) = (n + 7) div 8 * 8"
  by (simp_all add: BitmapTable_ctor_def bm_ok_def bm_rows_def Vector_ctor_ok Let_def)

section \<open>The bit test of generated code\<close>

text \<open>
  \<^verbatim>\<open>isSet_gen\<close> (Database.cpp) emits the code a scan tests a row's visibility and null indicators
  with: it addresses the bitmap as one flat block of bytes, \<^verbatim>\<open>getRowSize()\<close> bytes to the row.
\<close>

definition bm_byte :: "bitmap \<Rightarrow> nat \<Rightarrow> u8 result" where
  "bm_byte bm k =
     (let w = vec_elementSize (bm_data bm)
      in bind_res (vec_load (bm_data bm) (k div w)) (\<lambda>c.
           case c of None \<Rightarrow> Inl MemFault
                   | Some row \<Rightarrow> if k mod w < length row then Inr (row ! (k mod w)) else Inl MemFault))"

definition isSet_gen :: "bitmap \<Rightarrow> nat \<Rightarrow> u32 \<Rightarrow> bool result" where
  "isSet_gen bm tid column =
     (let sectionIndex = unat (drop_bit 3 column);
          offset = tid * vec_elementSize (bm_data bm);
          indicatorIndex = unat (column AND 7);
          byteIndex = sectionIndex + offset
      in bind_res (bm_byte bm byteIndex) (\<lambda>section.
           let shifted = drop_bit indicatorIndex section
           in Inr (bit shifted 0)))"

definition isVisibleInBranch :: "bitmap \<Rightarrow> nat \<Rightarrow> u32 \<Rightarrow> bool result" where
  "isVisibleInBranch branchBitmap tid branchId = isSet_gen branchBitmap tid branchId"

definition genNullIndicatorLoad :: "bitmap \<Rightarrow> nat \<Rightarrow> u32 \<Rightarrow> bool result" where
  "genNullIndicatorLoad table tid column = isSet_gen table tid column"

lemma unat_column_parts:
  "unat (drop_bit 3 (column :: u32)) = unat column div 8" "unat (column AND 7) = unat column mod 8"
proof -
  show "unat (drop_bit 3 column) = unat column div 8"
    by (simp add: unat_drop_bit_eq drop_bit_eq_div unat_div)
  have "column AND 7 = take_bit 3 column"
    by (simp add: take_bit_eq_mask mask_numeral numeral_eq_Suc mask_Suc_exp)
  then show "unat (column AND 7) = unat column mod 8"
    by (simp add: take_bit_eq_mod unat_mod)
qed

lemma isSet_gen_Inr:
  assumes "bm_ok bm" "tid < bm_rows bm" "unat column < bm_columnCount bm"
  shows "isSet_gen bm tid column = Inr (bm_bit bm tid (unat column))"
proof -
  let ?w = "vec_elementSize (bm_data bm)"
  from bitmap_row_Inr [OF assms(1,2)] obtain row where row:
    "vec_cells (bm_data bm) ! tid = Some row" "length row = ?w" by blast
  have byte: "unat column div 8 < ?w"
    using assms by (auto simp: bm_ok_def less_mult_imp_div_less mult.commute)
  then have idx: "(unat column div 8 + tid * ?w) div ?w = tid"
      "(unat column div 8 + tid * ?w) mod ?w = unat column div 8" by simp_all
  have "vec_load (bm_data bm) tid = Inr (Some row)"
    using assms row by (simp add: bm_ok_def bm_rows_def vec.load_spec)
  with idx byte row have "bm_byte bm (unat column div 8 + tid * ?w) = Inr (row ! (unat column div 8))"
    by (simp add: bm_byte_def Let_def)
  then show ?thesis
    by (simp add: isSet_gen_def Let_def unat_column_parts bm_bit_def row bit_simps)
qed

end
