(* ===== verification/SqlTypes.thy ===== *)
theory SqlTypes
  imports Tardis_Prelude
begin

text \<open>
  \<^verbatim>\<open>Sql::SqlType\<close> (sql/SqlType.hpp, sql/SqlType.cpp): the descriptor of a column's type, its
  constructors, its comparison, its name, and the LLVM type it is laid out as. The union of the
  struct is its 32 bits: \<^verbatim>\<open>length\<close> reads all of them, \<^verbatim>\<open>numericLayout\<close> the two low bytes. The type
  cache of the code generator is a map from names to LLVM types; how many bytes LLVM allocates for
  a type (\<^verbatim>\<open>DataLayout::getTypeAllocSize\<close>) is LLVM's business and a parameter here.
\<close>

datatype TypeID = UnknownID | BoolID | IntegerID | LongIntegerID | CharID | VarcharID
  | NumericID | DateID | TimestampID | TextID

record SqlType =
  ty_typeID :: TypeID
  ty_length :: u32
  ty_nullable :: bool

definition numericLayout_length :: "SqlType \<Rightarrow> u8" where
  "numericLayout_length t = ucast (ty_length t)"

definition numericLayout_precision :: "SqlType \<Rightarrow> u8" where
  "numericLayout_precision t = ucast (drop_bit 8 (ty_length t))"

definition SqlType_ctor :: "TypeID \<Rightarrow> bool \<Rightarrow> SqlType" where
  "SqlType_ctor typeID nullable = \<lparr>ty_typeID = typeID, ty_length = 0, ty_nullable = nullable\<rparr>"

definition getUnknownTy :: SqlType where
  "getUnknownTy = SqlType_ctor UnknownID True"

definition getBoolTy :: "bool \<Rightarrow> SqlType" where
  "getBoolTy nullable = SqlType_ctor BoolID nullable"

definition getDateTy :: "bool \<Rightarrow> SqlType" where
  "getDateTy nullable = SqlType_ctor DateID nullable"

definition getIntegerTy :: "bool \<Rightarrow> SqlType" where
  "getIntegerTy nullable = SqlType_ctor IntegerID nullable"

definition getLongIntegerTy :: "bool \<Rightarrow> SqlType" where
  "getLongIntegerTy nullable = SqlType_ctor LongIntegerID nullable"

definition numeric_maxDigits :: nat where
  \<comment> \<open>\<^verbatim>\<open>std::numeric_limits<long>::digits10\<close>\<close>
  "numeric_maxDigits = 18"

definition getNumericTy :: "u8 \<Rightarrow> u8 \<Rightarrow> bool \<Rightarrow> SqlType" where
  "getNumericTy len precision nullable =
     (let len = min len (of_nat numeric_maxDigits);
          precision = min precision len
      in (SqlType_ctor NumericID nullable)
           \<lparr>ty_length := ucast len OR push_bit 8 (ucast precision)\<rparr>)"

definition getNumericFullLengthTy :: "u8 \<Rightarrow> bool \<Rightarrow> SqlType" where
  "getNumericFullLengthTy precision nullable =
     getNumericTy (of_nat numeric_maxDigits) precision nullable"

definition getCharTy :: "u32 \<Rightarrow> bool \<Rightarrow> SqlType" where
  "getCharTy len nullable = (SqlType_ctor CharID nullable)\<lparr>ty_length := len\<rparr>"

definition getVarcharTy :: "u32 \<Rightarrow> bool \<Rightarrow> SqlType" where
  "getVarcharTy capacity nullable = (SqlType_ctor VarcharID nullable)\<lparr>ty_length := capacity\<rparr>"

definition getTimestampTy :: "bool \<Rightarrow> SqlType" where
  "getTimestampTy nullable = SqlType_ctor TimestampID nullable"

definition getTextTy :: "bool \<Rightarrow> SqlType" where
  "getTextTy nullable = SqlType_ctor TextID nullable"

definition toNullableTy :: "SqlType \<Rightarrow> SqlType" where
  "toNullableTy type = type\<lparr>ty_nullable := True\<rparr>"

definition toNotNullableTy :: "SqlType \<Rightarrow> SqlType" where
  "toNotNullableTy type = type\<lparr>ty_nullable := False\<rparr>"

definition show_u8 :: "u8 \<Rightarrow> string" where
  "show_u8 w = show_nat (unat w)"

definition getName :: "SqlType \<Rightarrow> string" where
  "getName type =
     (let signature = (case ty_typeID type of
          UnknownID \<Rightarrow> ''Unknown''
        | BoolID \<Rightarrow> ''Bool''
        | IntegerID \<Rightarrow> ''Integer''
        | LongIntegerID \<Rightarrow> ''LongInteger''
        | CharID \<Rightarrow> ''Char<'' @ show_nat (unat (ty_length type)) @ ''>''
        | VarcharID \<Rightarrow> ''Varchar<'' @ show_nat (unat (ty_length type)) @ ''>''
        | NumericID \<Rightarrow> ''Numeric<'' @ show_u8 (numericLayout_length type) @ '', ''
                        @ show_u8 (numericLayout_precision type) @ ''>''
        | DateID \<Rightarrow> ''Date''
        | TimestampID \<Rightarrow> ''Timestamp''
        | TextID \<Rightarrow> ''Text'')
      in if ty_nullable type then signature @ ''?'' else signature)"

datatype SqlTypeEqualsMode = Full | WithoutNullable

definition SqlType_equals :: "SqlType \<Rightarrow> SqlType \<Rightarrow> SqlTypeEqualsMode \<Rightarrow> bool" where
  \<comment> \<open>\<^verbatim>\<open>memcmp\<close> of two packed structs whose padding is zero compares the three fields\<close>
  "SqlType_equals type1 type2 mode =
     (if ty_typeID type1 = TextID then ty_typeID type2 = TextID
      else let type1 = (if mode = WithoutNullable then type1\<lparr>ty_nullable := False\<rparr> else type1);
               type2 = (if mode = WithoutNullable then type2\<lparr>ty_nullable := False\<rparr> else type2)
           in ty_typeID type1 = ty_typeID type2 \<and> ty_length type1 = ty_length type2
              \<and> ty_nullable type1 = ty_nullable type2)"

definition sameTypeID :: "SqlType \<Rightarrow> SqlType \<Rightarrow> bool" where
  "sameTypeID type1 type2 = (ty_typeID type1 = ty_typeID type2)"

section \<open>LLVM types and the type cache\<close>

datatype llvm_type = LVoid | LInt nat | LArray nat llvm_type | LStruct "llvm_type list"

definition lengthIndicatorSize :: "u32 \<Rightarrow> nat" where
  "lengthIndicatorSize len = (if len < 256 then 8 else if len < 65536 then 16 else 32)"

type_synonym type_cache = "string \<rightharpoonup> llvm_type"

definition createNotNullLLVMTy :: "SqlType \<Rightarrow> llvm_type" where
  \<comment> \<open>the switch of createLLVMTy\<close>
  "createNotNullLLVMTy type =
     (case ty_typeID type of
        UnknownID \<Rightarrow> LVoid
      | BoolID \<Rightarrow> LInt 1
      | IntegerID \<Rightarrow> LInt 32
      | LongIntegerID \<Rightarrow> LInt 64
      | CharID \<Rightarrow> if ty_length type = 1 then LInt 8
                   else LStruct [LInt (lengthIndicatorSize (ty_length type)),
                                 LArray (unat (ty_length type)) (LInt 8)]
      | VarcharID \<Rightarrow> LStruct [LInt (lengthIndicatorSize (ty_length type)),
                               LArray (unat (ty_length type)) (LInt 8)]
      | NumericID \<Rightarrow> LInt 64
      | DateID \<Rightarrow> LInt 32
      | TimestampID \<Rightarrow> LInt 64
      | TextID \<Rightarrow> LArray 2 (LInt 64))"

definition cached :: "(SqlType \<Rightarrow> type_cache \<Rightarrow> llvm_type \<times> type_cache) \<Rightarrow>
    SqlType \<Rightarrow> type_cache \<Rightarrow> llvm_type \<times> type_cache" where
  \<comment> \<open>toLLVMTy over a given createLLVMTy\<close>
  "cached create type cache =
     (case cache (getName type) of
        Some llvmTy \<Rightarrow> (llvmTy, cache)
      | None \<Rightarrow> let (llvmTy, cache') = create type cache in (llvmTy, cache'(getName type \<mapsto> llvmTy)))"

definition createLLVMTy :: "SqlType \<Rightarrow> type_cache \<Rightarrow> llvm_type \<times> type_cache" where
  \<comment> \<open>a nullable type is the struct of its value and an indicator bit; the recursive call to
     toLLVMTy is for a type that is not nullable, so it goes no deeper\<close>
  "createLLVMTy type cache =
     (if ty_nullable type
      then let (valueTy, cache') =
                 cached (\<lambda>t c. (createNotNullLLVMTy t, c)) (type\<lparr>ty_nullable := False\<rparr>) cache
           in (LStruct [valueTy, LInt 1], cache')
      else (createNotNullLLVMTy type, cache))"

definition toLLVMTy :: "SqlType \<Rightarrow> type_cache \<Rightarrow> llvm_type \<times> type_cache" where
  "toLLVMTy = cached createLLVMTy"

definition getValueSize :: "(llvm_type \<Rightarrow> nat) \<Rightarrow> SqlType \<Rightarrow> type_cache \<Rightarrow> nat \<times> type_cache" where
  "getValueSize allocSize type cache =
     (let (llvmTy, cache') = toLLVMTy type cache in (allocSize llvmTy, cache'))"

section \<open>Facts\<close>

text \<open>The layout a type has, whatever the cache holds, and the caches that agree with it.\<close>

definition layout :: "SqlType \<Rightarrow> llvm_type" where
  "layout type = (if ty_nullable type then LStruct [createNotNullLLVMTy type, LInt 1]
                  else createNotNullLLVMTy type)"

definition ty_wf :: "SqlType \<Rightarrow> bool" where
  \<comment> \<open>the types the constructors above build: no stray bits in the union\<close>
  "ty_wf type \<longleftrightarrow>
     (case ty_typeID type of CharID \<Rightarrow> True | VarcharID \<Rightarrow> True
        | NumericID \<Rightarrow> drop_bit 16 (ty_length type) = 0
        | _ \<Rightarrow> ty_length type = 0)"

definition cache_ok :: "type_cache \<Rightarrow> bool" where
  "cache_ok cache \<longleftrightarrow>
     (\<forall>type llvmTy. ty_wf type \<longrightarrow> cache (getName type) = Some llvmTy \<longrightarrow> llvmTy = layout type)"

text \<open>Splitting a name at its first character that is no digit.\<close>

lemma digits_split:
  assumes "\<forall>c \<in> set xs. is_digit_char c" "\<forall>c \<in> set ys. is_digit_char c"
    and "\<not> is_digit_char a" "\<not> is_digit_char b"
    and "xs @ a # us = ys @ b # vs"
  shows "xs = ys \<and> a = b \<and> us = vs"
  using assms
proof (induction xs arbitrary: ys)
  case Nil
  then show ?case by (cases ys) auto
next
  case (Cons x xs)
  then show ?case by (cases ys) auto
qed

lemma show_nat_split:
  assumes "\<not> is_digit_char a" "\<not> is_digit_char b"
  shows "show_nat m @ a # us = show_nat n @ b # vs \<longleftrightarrow> m = n \<and> a = b \<and> us = vs"
  using assms digits_split [OF show_nat_digits show_nat_digits] by (metis show_nat_inj)

lemma numeric_length_bytes:
  fixes v w :: u32
  assumes "drop_bit 16 v = 0" "drop_bit 16 w = 0"
    and "(ucast v :: u8) = ucast w" "(ucast (drop_bit 8 v) :: u8) = ucast (drop_bit 8 w)"
  shows "v = w"
proof (rule bit_word_eqI)
  fix n assume n: "n < LENGTH(32)"
  consider "n < 8" | "8 \<le> n" "n < 16" | "16 \<le> n" by linarith
  then show "bit v n = bit w n"
  proof cases
    case 1
    have "bit (ucast v :: u8) n = bit (ucast w :: u8) n" by (simp add: assms(3))
    with 1 show ?thesis by (simp add: bit_simps)
  next
    case 2
    have "bit (ucast (drop_bit 8 v) :: u8) (n - 8) = bit (ucast (drop_bit 8 w) :: u8) (n - 8)"
      by (simp add: assms(4))
    moreover from 2 have "n - 8 < 8" by simp
    ultimately show ?thesis using 2 by (simp add: bit_simps)
  next
    case 3
    have "bit (drop_bit 16 v) (n - 16) = bit (drop_bit 16 w) (n - 16)" by (simp add: assms(1,2))
    with 3 show ?thesis by (simp add: bit_simps)
  qed
qed

lemma getName_inj_lemma:
  assumes wf: "ty_wf t1" "ty_wf t2" and eq: "getName t1 = getName t2"
  shows "t1 = t2"
proof -
  have "ty_nullable t1 = ty_nullable t2"
  proof (rule ccontr)
    assume "ty_nullable t1 \<noteq> ty_nullable t2"
    then have "last (getName t1) \<noteq> last (getName t2)"
      by (auto simp: getName_def Let_def split: TypeID.splits)
    with eq show False by simp
  qed
  moreover have "ty_typeID t1 = ty_typeID t2 \<and> ty_length t1 = ty_length t2"
    using eq wf \<open>ty_nullable t1 = ty_nullable t2\<close>
    by (auto simp: getName_def ty_wf_def Let_def show_u8_def show_nat_split show_nat_inj
        is_digit_char_def numericLayout_length_def numericLayout_precision_def
        simp flip: word_unat_eq_iff
        intro: numeric_length_bytes split: TypeID.splits if_splits)
  ultimately show ?thesis by simp
qed

lemma cached_spec:
  assumes "cache_ok cache" "ty_wf type"
    and create: "\<And>c. cache_ok c \<Longrightarrow> fst (create type c) = layout type \<and> cache_ok (snd (create type c))"
  shows "fst (cached create type cache) = layout type" "cache_ok (snd (cached create type cache))"
proof -
  obtain ty c where c: "create type cache = (ty, c)" by fastforce
  with create [OF assms(1)] have ty: "ty = layout type" and ok: "cache_ok c" by simp_all
  have ok': "cache_ok (c(getName type \<mapsto> layout type))"
    unfolding cache_ok_def
  proof (intro allI impI)
    fix t l assume t: "ty_wf t" "(c(getName type \<mapsto> layout type)) (getName t) = Some l"
    show "l = layout t"
    proof (cases "getName t = getName type")
      case True
      with t(1) assms(2) have "t = type" by (rule getName_inj_lemma)
      with t(2) show ?thesis by simp
    next
      case False
      with t ok show ?thesis by (simp add: cache_ok_def)
    qed
  qed
  show "fst (cached create type cache) = layout type" "cache_ok (snd (cached create type cache))"
  proof (atomize (full), cases "cache (getName type)")
    case None
    with c ty ok' show "fst (cached create type cache) = layout type
        \<and> cache_ok (snd (cached create type cache))"
      by (simp add: cached_def)
  next
    case (Some l)
    with assms(1,2) have "l = layout type" unfolding cache_ok_def by blast
    with Some assms(1) show "fst (cached create type cache) = layout type
        \<and> cache_ok (snd (cached create type cache))"
      by (simp add: cached_def)
  qed
qed

lemma createLLVMTy_spec:
  assumes "cache_ok cache" "ty_wf type"
  shows "fst (createLLVMTy type cache) = layout type \<and> cache_ok (snd (createLLVMTy type cache))"
proof (cases "ty_nullable type")
  case True
  let ?t = "type\<lparr>ty_nullable := False\<rparr>" and ?c = "\<lambda>t c :: type_cache. (createNotNullLLVMTy t, c)"
  have wf: "ty_wf ?t" using assms(2) by (auto simp: ty_wf_def split: TypeID.splits)
  have l: "layout ?t = createNotNullLLVMTy ?t" "createNotNullLLVMTy ?t = createNotNullLLVMTy type"
    by (auto simp: layout_def createNotNullLLVMTy_def split: TypeID.splits)
  have "fst (cached ?c ?t cache) = layout ?t" "cache_ok (snd (cached ?c ?t cache))"
    using cached_spec [OF assms(1) wf, of ?c] by (simp_all add: l)
  with True show ?thesis
    by (simp add: createLLVMTy_def layout_def l split_beta)
next
  case False
  with assms show ?thesis by (simp add: createLLVMTy_def layout_def)
qed

lemmas toLLVMTy_spec = cached_spec [where create = createLLVMTy, folded toLLVMTy_def,
    OF _ _ createLLVMTy_spec]

lemma constructors_wf:
  "ty_wf getUnknownTy" "ty_wf (getBoolTy b)" "ty_wf (getDateTy b)" "ty_wf (getIntegerTy b)"
  "ty_wf (getLongIntegerTy b)" "ty_wf (getNumericTy l p b)" "ty_wf (getCharTy n b)"
  "ty_wf (getVarcharTy n b)" "ty_wf (getTimestampTy b)" "ty_wf (getTextTy b)"
  "ty_wf (getNumericFullLengthTy p b)"
proof -
  show num: "ty_wf (getNumericTy l p b)" for l p b
    by (auto simp: ty_wf_def getNumericTy_def SqlType_ctor_def Let_def bit_simps intro!: bit_word_eqI)
  then show "ty_wf (getNumericFullLengthTy p b)" by (simp add: getNumericFullLengthTy_def)
qed (simp_all add: ty_wf_def SqlType_ctor_def getUnknownTy_def getBoolTy_def getDateTy_def
  getIntegerTy_def getLongIntegerTy_def getCharTy_def getVarcharTy_def getTimestampTy_def getTextTy_def)

lemma numericLayout_getNumericTy:
  "numericLayout_length (getNumericTy len precision b) = min len 18"
  "numericLayout_precision (getNumericTy len precision b) = min precision (min len 18)"
  by (auto simp: numericLayout_length_def numericLayout_precision_def getNumericTy_def
      SqlType_ctor_def numeric_maxDigits_def Let_def bit_simps intro!: bit_word_eqI)

end
