(* ===== verification/TableStore.thy ===== *)
theory TableStore
  imports BranchBitmap SqlTypes
begin

text \<open>
  The storage of the database, foundations/Database.hpp and Database.cpp: a \<open>Table\<close> with its columns,
  null indicators, branch bitmap and version entries, and the \<open>Database\<close> with its tables and
  branches. The data a table holds in its cells is a parameter \<^verbatim>\<open>'v\<close>; a cell is \<open>None\<close> until a
  value has been stored in it.

  The chain elements of foundations/version_management.hpp are here because a table owns them. An
  \<open>element\<close> is what the code's \<^verbatim>\<open>const void *\<close> chain pointers hold: null, the address of a version
  entry, or the address of a \<^verbatim>\<open>VersionedTupleStorage\<close> obtained from malloc. \<open>tb_heap\<close> are the storages
  allocated for a table and \<open>tb_brk\<close> the next address malloc hands out, so an allocation never
  aliases a live storage. A hash map of the code that is iterated is a list of its pairs here, in
  the order in which the iteration visits them.
\<close>

type_synonym branch_id_t = u32
type_synonym tid_t = u64

definition master_branch_id :: branch_id_t where
  "master_branch_id = 0"

definition invalid_branch_id :: branch_id_t where
  "invalid_branch_id = -1"

definition invalid_tid :: tid_t where
  "invalid_tid = -1"

section \<open>Data\<close>

datatype element = Null | Entry tid_t | Storage nat

type_synonym 'v row = "'v option list"

record 'v VersionedTupleStorage =
  vs_next :: element
  vs_next_in_branch :: element
  vs_branch_id :: branch_id_t
  vs_creation_ts :: branch_id_t
  vs_data :: "'v row"

record VersionEntry =
  ve_first :: element
  ve_prev :: element
  ve_next :: element
  ve_next_in_branch :: element
  ve_branch_id :: branch_id_t
  ve_creation_ts :: branch_id_t
  ve_branch_visibility :: "bool list"

record ColumnInformation =
  ci_columnName :: string
  ci_type :: SqlType
  ci_nullColumnIndex :: "nat option"

record 'v Table =
  tb_columnsByName :: "(string \<times> nat) list"
  tb_columns :: "(ColumnInformation \<times> 'v vec) list"
  tb_nullIndicatorTable :: bitmap
  tb_branchBitmap :: bitmap
  tb_version_mgmt_column :: "VersionEntry list"
  tb_dangling_version_mgmt_column :: "VersionEntry list"
  tb_heap :: "nat \<rightharpoonup> 'v VersionedTupleStorage"
  tb_brk :: nat

record Branch =
  br_id :: branch_id_t
  br_parent_id :: branch_id_t
  br_name :: string

record 'v Database =
  db_tables :: "(string \<times> 'v Table) list"
  db_branches :: "(branch_id_t \<times> Branch) list"
  db_branchMapping :: "string \<rightharpoonup> branch_id_t"
  db_next_branch_id :: branch_id_t

section \<open>Table\<close>

definition Table_createBranch :: "branch_id_t \<Rightarrow> 'v Table \<Rightarrow> exn option \<times> 'v Table" where
  "Table_createBranch parent t =
     (let (r, bm) = (if parent = invalid_branch_id then BitmapTable_addColumn (tb_branchBitmap t)
                     else BitmapTable_cloneColumn (tb_branchBitmap t) (unat parent))
      in (case r of Inl e \<Rightarrow> Some e | Inr _ \<Rightarrow> None, t\<lparr>tb_branchBitmap := bm\<rparr>))"

definition Table_ctor :: "exn option \<times> 'v Table" where
  "Table_ctor =
     Table_createBranch invalid_branch_id
       \<lparr>tb_columnsByName = [], tb_columns = [],
        tb_nullIndicatorTable = BitmapTable_default_ctor, tb_branchBitmap = BitmapTable_default_ctor,
        tb_version_mgmt_column = [], tb_dangling_version_mgmt_column = [],
        tb_heap = Map.empty, tb_brk = 0\<rparr>"

definition Table_addColumn :: "(SqlType \<Rightarrow> nat) \<Rightarrow> string \<Rightarrow> SqlType \<Rightarrow> 'v Table \<Rightarrow> exn option \<times> 'v Table" where
  "Table_addColumn valueSize columnName type t =
     (if map_of (tb_columnsByName t) columnName \<noteq> None then (Some (InvalidOperation ''name already in use''), t)
      else let column = Vector_ctor (valueSize (toNotNullableTy type));
               ci = \<lparr>ci_columnName = columnName, ci_type = type, ci_nullColumnIndex = None\<rparr>;
               (r, nit) = (if ty_nullable type
                           then let (r, bm) = BitmapTable_addColumn (tb_nullIndicatorTable t)
                                in (map_sum id Some r, bm)
                           else (Inr None, tb_nullIndicatorTable t));
               t1 = t\<lparr>tb_nullIndicatorTable := nit\<rparr>
           in case r of
                Inl e \<Rightarrow> (Some e, t1)
              | Inr idx \<Rightarrow>
                  (None, t1\<lparr>tb_columnsByName := tb_columnsByName t @ [(columnName, length (tb_columns t))],
                            tb_columns := tb_columns t @ [(ci\<lparr>ci_nullColumnIndex := idx\<rparr>, column)]\<rparr>))"

definition Table_addRow :: "branch_id_t \<Rightarrow> 'v Table \<Rightarrow> exn option \<times> 'v Table" where
  "Table_addRow branchId t =
     (let t1 = t\<lparr>tb_columns := map (\<lambda>(ci, vec). (ci, snd (Vector_reserve_back vec))) (tb_columns t)\<rparr>
      in case BitmapTable_addRow (tb_nullIndicatorTable t1) of
           Inl e \<Rightarrow> (Some e, t1)
         | Inr nit \<Rightarrow>
             let t2 = t1\<lparr>tb_nullIndicatorTable := nit\<rparr>
             in case BitmapTable_addRow (tb_branchBitmap t2) of
                  Inl e \<Rightarrow> (Some e, t2)
                | Inr bb \<Rightarrow>
                    let t3 = t2\<lparr>tb_branchBitmap := bb\<rparr>
                    in case tb_columns t3 of
                         [] \<Rightarrow> (Some MemFault, t3)
                       | (ci, vec) # _ \<Rightarrow>
                           (case BitmapTable_set bb (vec_elementCount vec - 1) (unat branchId) True of
                              Inl e \<Rightarrow> (Some e, t3)
                            | Inr bb' \<Rightarrow> (None, t3\<lparr>tb_branchBitmap := bb'\<rparr>)))"

definition Table_removeRowForBranch :: "tid_t \<Rightarrow> branch_id_t \<Rightarrow> 'v Table \<Rightarrow> 'v Table result" where
  "Table_removeRowForBranch tid branchId t =
     bind_res (BitmapTable_set (tb_branchBitmap t) (unat tid) (unat branchId) False)
       (\<lambda>bb. Inr (t\<lparr>tb_branchBitmap := bb\<rparr>))"

definition Table_getCI :: "'v Table \<Rightarrow> string \<Rightarrow> ColumnInformation result" where
  "Table_getCI t columnName =
     (case map_of (tb_columnsByName t) columnName of
        None \<Rightarrow> Inl (OutOfRange columnName)
      | Some idx \<Rightarrow> if idx < length (tb_columns t) then Inr (fst (tb_columns t ! idx)) else Inl MemFault)"

definition Table_getColumn :: "'v Table \<Rightarrow> nat \<Rightarrow> 'v vec result" where
  "Table_getColumn t idx =
     (if idx < length (tb_columns t) then Inr (snd (tb_columns t ! idx)) else Inl (OutOfRange ''_columns''))"

definition Table_getColumnByName :: "'v Table \<Rightarrow> string \<Rightarrow> 'v vec result" where
  "Table_getColumnByName t columnName =
     (case map_of (tb_columnsByName t) columnName of
        None \<Rightarrow> Inl (OutOfRange columnName)
      | Some idx \<Rightarrow> if idx < length (tb_columns t) then Inr (snd (tb_columns t ! idx)) else Inl MemFault)"

definition Table_getColumnCount :: "'v Table \<Rightarrow> nat" where
  "Table_getColumnCount t = length (tb_columns t)"

definition Table_getColumnNames :: "'v Table \<Rightarrow> string list" where
  "Table_getColumnNames t = map fst (sort_key snd (tb_columnsByName t))"

definition Table_getTupleType :: "'v Table \<Rightarrow> SqlType list" where
  "Table_getTupleType t = map (ci_type \<circ> fst) (tb_columns t)"

definition Table_size :: "'v Table \<Rightarrow> nat" where
  "Table_size t = (case tb_columns t of [] \<Rightarrow> 0 | (ci, vec) # _ \<Rightarrow> vec_elementCount vec)"

section \<open>Database\<close>

definition Database_getLargestBranchId :: "'v Database \<Rightarrow> branch_id_t" where
  "Database_getLargestBranchId db = db_next_branch_id db - 1"

definition Database_getTable :: "'v Database \<Rightarrow> string \<Rightarrow> 'v Table option" where
  "Database_getTable db tableName = map_of (db_tables db) tableName"

definition Database_hasTable :: "'v Database \<Rightarrow> string \<Rightarrow> bool" where
  "Database_hasTable db tableName = (Database_getTable db tableName \<noteq> None)"

definition put_table :: "string \<Rightarrow> 'v Table \<Rightarrow> 'v Database \<Rightarrow> 'v Database" where
  \<comment> \<open>the database after a change through the reference getTable returned\<close>
  "put_table name t db =
     db\<lparr>db_tables := map (\<lambda>(n, t'). (n, if n = name then t else t')) (db_tables db)\<rparr>"

fun createBranch_tables :: "branch_id_t \<Rightarrow> (string \<times> 'v Table) list \<Rightarrow>
    exn option \<times> (string \<times> 'v Table) list" where
  "createBranch_tables parent [] = (None, [])"
| "createBranch_tables parent ((name, t) # ts) =
     (case Table_createBranch parent t of
        (Some e, t') \<Rightarrow> (Some e, (name, t') # ts)
      | (None, t') \<Rightarrow> let (r, ts') = createBranch_tables parent ts in (r, (name, t') # ts'))"

definition Database_createBranch :: "string \<Rightarrow> branch_id_t \<Rightarrow> 'v Database \<Rightarrow>
    branch_id_t result \<times> 'v Database" where
  "Database_createBranch name parent db =
     (case createBranch_tables parent (db_tables db) of
        (Some e, ts) \<Rightarrow> (Inl e, db\<lparr>db_tables := ts\<rparr>)
      | (None, ts) \<Rightarrow>
          let branch_id = db_next_branch_id db;
              branch = \<lparr>br_id = branch_id, br_parent_id = parent, br_name = name\<rparr>
          in (Inr branch_id,
              db\<lparr>db_tables := ts,
                 db_next_branch_id := db_next_branch_id db + 1,
                 db_branches := (if map_of (db_branches db) branch_id = None
                                 then db_branches db @ [(branch_id, branch)] else db_branches db),
                 db_branchMapping := (db_branchMapping db)(name \<mapsto> branch_id)\<rparr>))"

definition Database_ctor :: "'v Database" where
  "Database_ctor =
     snd (Database_createBranch ''master'' invalid_branch_id
       \<lparr>db_tables = [], db_branches = [], db_branchMapping = Map.empty,
        db_next_branch_id = master_branch_id\<rparr>)"

definition Database_createTable :: "string \<Rightarrow> 'v Database \<Rightarrow> exn option \<times> 'v Database" where
  "Database_createTable name db =
     (case Table_ctor of
        (Some e, _) \<Rightarrow> (Some e, db)
      | (None, t) \<Rightarrow>
          if Database_getTable db name \<noteq> None then (Some AssertFailed, db)
          else let (r, t') = foldE (\<lambda>_. Table_createBranch invalid_branch_id)
                               [0 ..< length (db_branches db) - 1] t
               in (r, db\<lparr>db_tables := db_tables db @ [(name, t')]\<rparr>))"

section \<open>Facts\<close>

text \<open>
  The invariant of a table: its containers are well formed, every container holds one entry per
  row, and the name map numbers the columns in order. A row is the cells of one index.
\<close>

definition tb_rows :: "'v Table \<Rightarrow> nat" where
  "tb_rows t = length (tb_version_mgmt_column t)"

definition tb_row :: "'v Table \<Rightarrow> nat \<Rightarrow> 'v row" where
  "tb_row t i = map (\<lambda>c. vec_cells (snd c) ! i) (tb_columns t)"

definition tb_visible :: "'v Table \<Rightarrow> nat \<Rightarrow> branch_id_t \<Rightarrow> bool" where
  "tb_visible t i b = bm_bit (tb_branchBitmap t) i (unat b)"

definition nulls_ok :: "ColumnInformation list \<Rightarrow> bitmap \<Rightarrow> bool" where
  \<comment> \<open>every nullable column has an indicator column, and no indicator is set: no operation sets one\<close>
  "nulls_ok cis nit \<longleftrightarrow> bm_availableCount nit = 8 \<and>
     (\<forall>ci \<in> set cis. case ci_nullColumnIndex ci of
          None \<Rightarrow> \<not> ty_nullable (ci_type ci)
        | Some k \<Rightarrow> ty_nullable (ci_type ci) \<and> k < bm_columnCount nit)
     \<and> (\<forall>i < bm_rows nit. \<forall>k < bm_columnCount nit. \<not> bm_bit nit i k)"

definition tb_ok :: "'v Table \<Rightarrow> bool" where
  "tb_ok t \<longleftrightarrow> bm_ok (tb_branchBitmap t) \<and> bm_ok (tb_nullIndicatorTable t)
     \<and> bm_rows (tb_branchBitmap t) = tb_rows t
     \<and> bm_rows (tb_nullIndicatorTable t) = tb_rows t
     \<and> (\<forall>c \<in> set (tb_columns t). vec_ok (snd c) \<and> length (vec_cells (snd c)) = tb_rows t)
     \<and> tb_columnsByName t = zip (map (ci_columnName \<circ> fst) (tb_columns t)) [0 ..< length (tb_columns t)]
     \<and> bm_availableCount (tb_branchBitmap t) = 8
     \<and> nulls_ok (map fst (tb_columns t)) (tb_nullIndicatorTable t)"

lemma Table_getColumnNames_eq:
  assumes "tb_ok t"
  shows "Table_getColumnNames t = map (ci_columnName \<circ> fst) (tb_columns t)"
proof -
  have "sort_key snd (zip xs [0 ..< length xs]) = zip xs [0 ..< length xs]" for xs :: "string list"
    by (rule sort_key_id_if_sorted) simp
  from this [of "map (ci_columnName \<circ> fst) (tb_columns t)"] assms show ?thesis
    by (simp add: Table_getColumnNames_def tb_ok_def)
qed

end
