(* ===== verification/VersionChain.thy ===== *)
theory VersionChain
  imports TableStore
begin

text \<open>
  The version management of tuples, foundations/version_management.hpp and version_management.cpp,
  with the execution context it reads the current branch and its lineage from
  (queryExecutor/ExecutionContext.hpp) and the construction of that lineage
  (Database::constructBranchLineage).

  Every tuple owns a chain of versions linked through \<^verbatim>\<open>next\<close> from the newest to the oldest. One
  element of the chain is the tuple's \<open>VersionEntry\<close>, whose data are the cells of the table's
  columns (the "current master"); the others are storages on the heap. The loops that walk a chain
  return \<open>None\<close> when they do not end, which a cyclic chain would make them do.
\<close>

section \<open>Execution context and lineage\<close>

record ExecutionContext =
  ctx_branchId :: branch_id_t
  ctx_branch_lineage :: "branch_id_t \<rightharpoonup> branch_id_t"
  ctx_branch_lineages :: "branch_id_t \<rightharpoonup> (branch_id_t \<rightharpoonup> branch_id_t)"
  ctx_branch_lineage_bitset :: "bool list"
  ctx_overflowFlag :: bool

definition ExecutionContext_ctor :: ExecutionContext where
  "ExecutionContext_ctor = \<lparr>ctx_branchId = 0, ctx_branch_lineage = Map.empty,
     ctx_branch_lineages = Map.empty, ctx_branch_lineage_bitset = [], ctx_overflowFlag = False\<rparr>"

definition map_insert :: "'k \<Rightarrow> 'v \<Rightarrow> ('k \<rightharpoonup> 'v) \<Rightarrow> ('k \<rightharpoonup> 'v)" where
  \<comment> \<open>\<^verbatim>\<open>unordered_map::insert\<close>: keeps the value of a key that is there\<close>
  "map_insert k v m = (if m k = None then m(k \<mapsto> v) else m)"

definition bitset_resize :: "nat \<Rightarrow> bool list \<Rightarrow> bool list" where
  "bitset_resize n bits = take n bits @ replicate (n - length bits) False"

definition bitset_set :: "bool list \<Rightarrow> nat \<Rightarrow> bool list result" where
  "bitset_set bits i = (if i < length bits then Inr (bits[i := True]) else Inl AssertFailed)"

definition bitset_intersects :: "bool list \<Rightarrow> bool list \<Rightarrow> bool" where
  "bitset_intersects xs ys = (\<exists>(x, y) \<in> set (zip xs ys). x \<and> y)"

partial_function (option) lineage_loop :: "(branch_id_t \<times> Branch) list \<Rightarrow> branch_id_t \<Rightarrow>
    branch_id_t \<Rightarrow> ExecutionContext \<Rightarrow> ExecutionContext comp" where
  "lineage_loop branches branch current ctx =
     (case bitset_set (ctx_branch_lineage_bitset ctx) (unat current) of
        Inl e \<Rightarrow> Some (Inl e)
      | Inr bits \<Rightarrow>
          (case map_of branches current of
             None \<Rightarrow> Some (Inl MemFault)
           | Some branch_obj \<Rightarrow>
               let ctx1 = ctx\<lparr>ctx_branch_lineage_bitset := bits\<rparr>; p = br_parent_id branch_obj
               in if p = invalid_branch_id then Some (Inr ctx1)
                  else lineage_loop branches branch p
                    (ctx1\<lparr>ctx_branch_lineages := (ctx_branch_lineages ctx1)(branch \<mapsto>
                            map_insert p current (case ctx_branch_lineages ctx1 branch of
                                                    None \<Rightarrow> Map.empty | Some m \<Rightarrow> m)),
                          ctx_branch_lineage := map_insert p current (ctx_branch_lineage ctx1)\<rparr>)))"

definition constructBranchLineage :: "'v Database \<Rightarrow> branch_id_t \<Rightarrow> ExecutionContext \<Rightarrow> ExecutionContext comp" where
  "constructBranchLineage db branch dstCtx =
     (if branch = invalid_branch_id then Some (Inl AssertFailed)
      else lineage_loop (db_branches db) branch branch
             (dstCtx\<lparr>ctx_branch_lineages := (if ctx_branch_lineages dstCtx branch = None
                          then (ctx_branch_lineages dstCtx)(branch \<mapsto> Map.empty)
                          else ctx_branch_lineages dstCtx),
                    ctx_branch_lineage := Map.empty,
                    ctx_branch_lineage_bitset := bitset_resize (unat (db_next_branch_id db)) []\<rparr>))"

fun constructBranchLineages :: "branch_id_t list \<Rightarrow> 'v Database \<Rightarrow> ExecutionContext \<Rightarrow> ExecutionContext comp" where
  \<comment> \<open>the branches are a \<^verbatim>\<open>std::set\<close>: in increasing order\<close>
  "constructBranchLineages [] db ctx = Some (Inr ctx)"
| "constructBranchLineages (b # bs) db ctx =
     bind_comp (constructBranchLineage db b ctx) (constructBranchLineages bs db)"

section \<open>Tuple identifiers\<close>

definition mark_as_dangling_tid :: "tid_t \<Rightarrow> tid_t" where
  "mark_as_dangling_tid tid = tid OR push_bit (8 * 8 - 1) 1"

definition unmark_dangling_tid :: "tid_t \<Rightarrow> tid_t" where
  "unmark_dangling_tid tid = tid AND NOT (push_bit (8 * 8 - 1) 1)"

definition is_marked_as_dangling_tid :: "tid_t \<Rightarrow> bool" where
  "is_marked_as_dangling_tid tid = (0 \<noteq> tid AND push_bit (8 * 8 - 1) 1)"

definition get_version_entry :: "tid_t \<Rightarrow> 'v Table \<Rightarrow> VersionEntry result" where
  "get_version_entry tid table =
     (if is_marked_as_dangling_tid tid
      then let unmarked = unat (unmark_dangling_tid tid)
           in if unmarked < length (tb_dangling_version_mgmt_column table)
              then Inr (tb_dangling_version_mgmt_column table ! unmarked) else Inl MemFault
      else if unat tid < length (tb_version_mgmt_column table)
           then Inr (tb_version_mgmt_column table ! unat tid) else Inl MemFault)"

definition put_version_entry :: "tid_t \<Rightarrow> VersionEntry \<Rightarrow> 'v Table \<Rightarrow> 'v Table" where
  \<comment> \<open>the table after an assignment through the pointer get_version_entry returned\<close>
  "put_version_entry tid ve table =
     (if is_marked_as_dangling_tid tid
      then table\<lparr>tb_dangling_version_mgmt_column :=
              (tb_dangling_version_mgmt_column table)[unat (unmark_dangling_tid tid) := ve]\<rparr>
      else table\<lparr>tb_version_mgmt_column := (tb_version_mgmt_column table)[unat tid := ve]\<rparr>)"

definition has_lineage_intersection :: "ExecutionContext \<Rightarrow> VersionEntry \<Rightarrow> bool" where
  "has_lineage_intersection ctx ve =
     bitset_intersects (ctx_branch_lineage_bitset ctx) (ve_branch_visibility ve)"

section \<open>Walking a chain\<close>

definition is_visible :: "branch_id_t \<Rightarrow> branch_id_t \<Rightarrow> ExecutionContext \<Rightarrow> bool" where
  \<comment> \<open>the template of version_management.cpp on the two fields it reads of an element\<close>
  "is_visible elem_branch_id elem_creation_ts ctx =
     (if elem_branch_id = ctx_branchId ctx then True
      else case ctx_branch_lineage ctx elem_branch_id of
             Some offspring \<Rightarrow> elem_creation_ts < offspring
           | None \<Rightarrow> False)"

partial_function (option) latest_loop :: "(nat \<rightharpoonup> 'v VersionedTupleStorage) \<Rightarrow> tid_t \<Rightarrow>
    VersionEntry \<Rightarrow> ExecutionContext \<Rightarrow> element \<Rightarrow> element comp" where
  "latest_loop h tid ve ctx nxt =
     (case nxt of
        Null \<Rightarrow> Some (Inr Null)
      | Entry t \<Rightarrow>
          if t = tid
          then if is_visible (ve_branch_id ve) (ve_creation_ts ve) ctx then Some (Inr (Entry tid))
               else latest_loop h tid ve ctx (ve_next ve)
          else Some (Inl MemFault)
      | Storage a \<Rightarrow>
          (case h a of
             None \<Rightarrow> Some (Inl MemFault)
           | Some s \<Rightarrow>
               if is_visible (vs_branch_id s) (vs_creation_ts s) ctx then Some (Inr (Storage a))
               else latest_loop h tid ve ctx (vs_next s)))"

definition get_latest_chain_element :: "tid_t \<Rightarrow> VersionEntry \<Rightarrow> 'v Table \<Rightarrow> ExecutionContext \<Rightarrow> element comp" where
  "get_latest_chain_element tid ve table ctx =
     (if ctx_branchId ctx = master_branch_id then Some (Inr (Entry tid))
      else latest_loop (tb_heap table) tid ve ctx (ve_first ve))"

definition next_in_branch_of :: "(nat \<rightharpoonup> 'v VersionedTupleStorage) \<Rightarrow> tid_t \<Rightarrow> VersionEntry \<Rightarrow>
    element \<Rightarrow> element result" where
  "next_in_branch_of h tid ve current =
     (case current of
        Null \<Rightarrow> Inl MemFault
      | Entry t \<Rightarrow> if t = tid then Inr (ve_next_in_branch ve) else Inl MemFault
      | Storage a \<Rightarrow> (case h a of None \<Rightarrow> Inl MemFault | Some s \<Rightarrow> Inr (vs_next_in_branch s)))"

partial_function (option) earliest_loop :: "(nat \<rightharpoonup> 'v VersionedTupleStorage) \<Rightarrow> tid_t \<Rightarrow>
    VersionEntry \<Rightarrow> element \<Rightarrow> element \<Rightarrow> element comp" where
  "earliest_loop h tid ve current nxt =
     (if nxt = Null then Some (Inr current)
      else case next_in_branch_of h tid ve nxt of
             Inl e \<Rightarrow> Some (Inl e)
           | Inr nxt' \<Rightarrow> earliest_loop h tid ve nxt nxt')"

definition get_earliest_chain_element :: "tid_t \<Rightarrow> VersionEntry \<Rightarrow> 'v Table \<Rightarrow> ExecutionContext \<Rightarrow> element comp" where
  "get_earliest_chain_element tid ve table ctx =
     bind_comp (get_latest_chain_element tid ve table ctx)
       (\<lambda>latest. earliest_loop (tb_heap table) tid ve latest latest)"

partial_function (option) chain_element_loop :: "(nat \<rightharpoonup> 'v VersionedTupleStorage) \<Rightarrow> tid_t \<Rightarrow>
    VersionEntry \<Rightarrow> nat \<Rightarrow> element \<Rightarrow> element comp" where
  \<comment> \<open>the loop does not change \<^verbatim>\<open>current_offset\<close>\<close>
  "chain_element_loop h tid ve current_offset current =
     (if current_offset \<noteq> 0 \<and> current \<noteq> Null
      then case next_in_branch_of h tid ve current of
             Inl e \<Rightarrow> Some (Inl e)
           | Inr current' \<Rightarrow> chain_element_loop h tid ve current_offset current'
      else Some (Inr current))"

definition get_chain_element :: "tid_t \<Rightarrow> VersionEntry \<Rightarrow> nat \<Rightarrow> 'v Table \<Rightarrow> ExecutionContext \<Rightarrow> element comp" where
  "get_chain_element tid ve revision_offset table ctx =
     bind_comp (get_latest_chain_element tid ve table ctx)
       (chain_element_loop (tb_heap table) tid ve revision_offset)"

partial_function (option) destroy_loop :: "tid_t \<Rightarrow> VersionEntry \<Rightarrow> (nat \<rightharpoonup> 'v VersionedTupleStorage) \<Rightarrow>
    element \<Rightarrow> (nat \<rightharpoonup> 'v VersionedTupleStorage) comp" where
  "destroy_loop tid ve h nxt =
     (case nxt of
        Null \<Rightarrow> Some (Inr h)
      | Entry t \<Rightarrow> if t = tid then destroy_loop tid ve h (ve_next ve) else Some (Inl MemFault)
      | Storage a \<Rightarrow>
          (case h a of None \<Rightarrow> Some (Inl MemFault)
                     | Some s \<Rightarrow> destroy_loop tid ve (h(a := None)) (vs_next s)))"

definition destroy_chain :: "tid_t \<Rightarrow> VersionEntry \<Rightarrow> 'v Table \<Rightarrow> 'v Table comp" where
  "destroy_chain tid ve table =
     bind_comp (destroy_loop tid ve (tb_heap table) (ve_first ve))
       (\<lambda>h. Some (Inr (put_version_entry tid
               (ve\<lparr>ve_first := Entry tid, ve_next := Null, ve_next_in_branch := Null\<rparr>)
               (table\<lparr>tb_heap := h\<rparr>))))"

text \<open>The loops as code equations, so that they can be evaluated on concrete chains.\<close>

declare lineage_loop.simps [code] latest_loop.simps [code] earliest_loop.simps [code]
  chain_element_loop.simps [code] destroy_loop.simps [code]

section \<open>Reading and writing rows\<close>

text \<open>
  A tuple that is written is its list of values; a tuple that is read is a \<open>row\<close>, whose cells may
  never have been written. \<open>store_values\<close> is the loop over the values of a tuple, with the position
  each column's value goes to.
\<close>

fun store_values :: "('v vec \<Rightarrow> nat result) \<Rightarrow> nat \<Rightarrow> 'v list \<Rightarrow> 'v Table \<Rightarrow> exn option \<times> 'v Table" where
  "store_values pos column_idx [] table = (None, table)"
| "store_values pos column_idx (value # values) table =
     (case bind_res (Table_getColumn table column_idx) (\<lambda>col.
             bind_res (pos col) (\<lambda>ptr. vec_store col ptr value)) of
        Inl e \<Rightarrow> (Some e, table)
      | Inr col \<Rightarrow> store_values pos (Suc column_idx) values
          (table\<lparr>tb_columns := (tb_columns table)[column_idx := (fst (tb_columns table ! column_idx), col)]\<rparr>))"

definition Value_load_check :: "SqlType \<Rightarrow> unit result" where
  \<comment> \<open>the exceptions of \<^verbatim>\<open>Value::load\<close> of native/sql/SqlValues.cpp, which depend on the type only\<close>
  "Value_load_check type =
     (if ty_nullable type then Inl (NotImplemented [])
      else if ty_typeID type \<in> {UnknownID, BoolID, IntegerID, VarcharID, CharID, NumericID, DateID,
                                TimestampID, TextID} then Inr ()
      else Inl (InvalidOperation ''unknown type''))"

definition get_current_master :: "tid_t \<Rightarrow> 'v Table \<Rightarrow> 'v row result" where
  "get_current_master tid table =
     mapM_res (\<lambda>i. bind_res (Table_getColumn table i) (\<lambda>col.
                   bind_res (Vector_at col (unat tid)) (\<lambda>ptr.
                   bind_res (Value_load_check (Table_getTupleType table ! i)) (\<lambda>_. vec_load col ptr))))
       [0 ..< length (Table_getTupleType table)]"

definition update_master :: "tid_t \<Rightarrow> 'v list \<Rightarrow> 'v Table \<Rightarrow> exn option \<times> 'v Table" where
  "update_master tid tuple table = store_values (\<lambda>col. Vector_at col (unat tid)) 0 tuple table"

definition SqlTuple_load :: "'v row \<Rightarrow> 'v Table \<Rightarrow> 'v row result" where
  \<comment> \<open>the fields of the table's tuple type, from the data of a storage\<close>
  "SqlTuple_load data table =
     mapM_res (\<lambda>i. bind_res (Value_load_check (Table_getTupleType table ! i))
                    (\<lambda>_. if i < length data then Inr (data ! i) else Inl MemFault))
       [0 ..< length (Table_getTupleType table)]"

definition create_chain_element :: "'v VersionedTupleStorage \<Rightarrow> 'v Table \<Rightarrow> nat \<times> 'v Table" where
  \<comment> \<open>with the fields its caller assigns next\<close>
  "create_chain_element storage table =
     (tb_brk table, table\<lparr>tb_heap := (tb_heap table)(tb_brk table \<mapsto> storage),
                          tb_brk := Suc (tb_brk table)\<rparr>)"

section \<open>Insert, update, delete\<close>

definition insert_tuple :: "'v list \<Rightarrow> 'v Database \<Rightarrow> 'v Table \<Rightarrow> ExecutionContext \<Rightarrow>
    tid_t result \<times> 'v Table" where
  "insert_tuple tuple db table ctx =
     (let branch = ctx_branchId ctx;
          branch_cnt = unat (1 + Database_getLargestBranchId db);
          tid = of_nat (length (tb_version_mgmt_column table));
          version_entry = \<lparr>ve_first = Entry tid, ve_prev = Null, ve_next = Null, ve_next_in_branch = Null,
            ve_branch_id = branch, ve_creation_ts = Database_getLargestBranchId db,
            ve_branch_visibility = bitset_resize branch_cnt []\<rparr>;
          push = (\<lambda>ve. table\<lparr>tb_version_mgmt_column := tb_version_mgmt_column table @ [ve]\<rparr>)
      in case bitset_set (ve_branch_visibility version_entry) (unat branch) of
           Inl e \<Rightarrow> (Inl e, push version_entry)
         | Inr bits \<Rightarrow>
             (case Table_addRow branch (push (version_entry\<lparr>ve_branch_visibility := bits\<rparr>)) of
                (Some e, table') \<Rightarrow> (Inl e, table')
              | (None, table') \<Rightarrow>
                  (case store_values Vector_back 0 tuple table' of
                     (Some e, table'') \<Rightarrow> (Inl e, table'')
                   | (None, table'') \<Rightarrow> (Inr tid, table''))))"

definition insert_tuple_with_branchId :: "'v list \<Rightarrow> 'v Database \<Rightarrow> 'v Table \<Rightarrow> ExecutionContext \<Rightarrow>
    branch_id_t \<Rightarrow> (tid_t result \<times> 'v Table) \<times> ExecutionContext" where
  "insert_tuple_with_branchId tuple db table ctx branchId =
     (let ctx' = ctx\<lparr>ctx_branchId := branchId\<rparr> in (insert_tuple tuple db table ctx', ctx'))"

definition update_tuple_master :: "tid_t \<Rightarrow> VersionEntry \<Rightarrow> 'v list \<Rightarrow> 'v Database \<Rightarrow> 'v Table \<Rightarrow>
    branch_id_t \<Rightarrow> exn option \<times> 'v Table" where
  "update_tuple_master tid version_entry tuple db table branch =
     (case get_current_master tid table of
        Inl e \<Rightarrow> (Some e, table)
      | Inr old_tuple \<Rightarrow>
          let (storage, table1) = create_chain_element
                \<lparr>vs_next = ve_next version_entry, vs_next_in_branch = ve_next_in_branch version_entry,
                 vs_branch_id = ve_branch_id version_entry,
                 vs_creation_ts = ve_creation_ts version_entry, vs_data = old_tuple\<rparr> table;
              at_head = (ve_first version_entry = Entry tid);
              linked = (if at_head then Inr table1
                        else case ve_prev version_entry of
                               Storage p \<Rightarrow>
                                 (case tb_heap table1 p of
                                    Some prev \<Rightarrow> Inr (table1\<lparr>tb_heap := (tb_heap table1)
                                                       (p \<mapsto> prev\<lparr>vs_next := Storage storage\<rparr>)\<rparr>)
                                  | None \<Rightarrow> Inl MemFault)
                             | _ \<Rightarrow> Inl MemFault)
          in case linked of
               Inl e \<Rightarrow> (Some e, table1)
             | Inr table2 \<Rightarrow>
                 update_master tid tuple
                   (put_version_entry tid
                      (version_entry\<lparr>
                         ve_next := (if at_head then Storage storage else ve_first version_entry),
                         ve_next_in_branch := Storage storage,
                         ve_first := Entry tid,
                         ve_branch_id := branch,
                         ve_creation_ts := Database_getLargestBranchId db\<rparr>) table2))"

definition update_tuple_branch :: "tid_t \<Rightarrow> VersionEntry \<Rightarrow> 'v list \<Rightarrow> 'v Database \<Rightarrow> 'v Table \<Rightarrow>
    ExecutionContext \<Rightarrow> (exn option \<times> 'v Table) option" where
  "update_tuple_branch tid version_entry tuple db table ctx =
     (let branch = ctx_branchId ctx
      in case get_latest_chain_element tid version_entry table ctx of
           None \<Rightarrow> None
         | Some (Inl e) \<Rightarrow> Some (Some e, table)
         | Some (Inr predecessor) \<Rightarrow>
             if predecessor = Null
             then Some (Some (RuntimeError ''no such tuple in the given branch''), table)
             else
               let branch_cnt = unat (1 + Database_getLargestBranchId db);
                   visibility = (if length (ve_branch_visibility version_entry) < branch_cnt
                                 then bitset_resize branch_cnt (ve_branch_visibility version_entry)
                                 else ve_branch_visibility version_entry)
               in case bitset_set visibility (unat branch) of
                    Inl e \<Rightarrow> Some (Some e, put_version_entry tid
                                     (version_entry\<lparr>ve_branch_visibility := visibility\<rparr>) table)
                  | Inr bits \<Rightarrow>
                      let (storage, table1) = create_chain_element
                            \<lparr>vs_next = ve_first version_entry, vs_next_in_branch = predecessor,
                             vs_branch_id = branch,
                             vs_creation_ts = Database_getLargestBranchId db,
                             vs_data = map Some tuple\<rparr> table
                      in Some (None, put_version_entry tid
                           (version_entry\<lparr>
                              ve_branch_visibility := bits,
                              ve_prev := (if ve_first version_entry = Entry tid then Storage storage
                                          else ve_prev version_entry),
                              ve_first := Storage storage\<rparr>) table1))"

definition update_tuple :: "tid_t \<Rightarrow> 'v list \<Rightarrow> 'v Database \<Rightarrow> 'v Table \<Rightarrow> ExecutionContext \<Rightarrow>
    (exn option \<times> 'v Table) option" where
  "update_tuple tid tuple db table ctx =
     (let branch = ctx_branchId ctx
      in if is_marked_as_dangling_tid tid \<and> branch = master_branch_id
         then Some (Some (RuntimeError ''no such tuple in the given branch''), table)
         else case get_version_entry tid table of
                Inl e \<Rightarrow> Some (Some e, table)
              | Inr version_entry \<Rightarrow>
                  if branch = master_branch_id
                  then Some (update_tuple_master tid version_entry tuple db table branch)
                  else update_tuple_branch tid version_entry tuple db table ctx)"

definition update_tuple_with_branchId :: "tid_t \<Rightarrow> branch_id_t \<Rightarrow> 'v list \<Rightarrow> 'v Database \<Rightarrow> 'v Table \<Rightarrow>
    ExecutionContext \<Rightarrow> (exn option \<times> 'v Table) option \<times> ExecutionContext" where
  "update_tuple_with_branchId tid branchId tuple db table ctx =
     (let ctx' = ctx\<lparr>ctx_branchId := branchId\<rparr> in (update_tuple tid tuple db table ctx', ctx'))"

definition delete_tuple :: "tid_t \<Rightarrow> 'v Table \<Rightarrow> ExecutionContext \<Rightarrow> 'v Table result" where
  "delete_tuple tid table ctx = Table_removeRowForBranch tid (ctx_branchId ctx) table"

definition delete_tuple_with_branchId :: "tid_t \<Rightarrow> branch_id_t \<Rightarrow> 'v Table \<Rightarrow> ExecutionContext \<Rightarrow>
    'v Table result \<times> ExecutionContext" where
  "delete_tuple_with_branchId tid branchId table ctx =
     (let ctx' = ctx\<lparr>ctx_branchId := branchId\<rparr> in (delete_tuple tid table ctx', ctx'))"

section \<open>Lookups and scans\<close>

definition load_element :: "tid_t \<Rightarrow> 'v Table \<Rightarrow> element \<Rightarrow> 'v row result" where
  \<comment> \<open>the three-way branch at the end of get_latest_tuple and get_tuple\<close>
  "load_element tid table el =
     (case el of
        Null \<Rightarrow> Inl (RuntimeError ''no such tuple in the given branch'')
      | Entry _ \<Rightarrow> get_current_master tid table
      | Storage a \<Rightarrow> (case tb_heap table a of None \<Rightarrow> Inl MemFault
                                            | Some s \<Rightarrow> SqlTuple_load (vs_data s) table))"

definition get_latest_tuple :: "tid_t \<Rightarrow> 'v Table \<Rightarrow> ExecutionContext \<Rightarrow> 'v row comp" where
  "get_latest_tuple tid table ctx =
     (if ctx_branchId ctx = master_branch_id then Some (get_current_master tid table)
      else case get_version_entry tid table of
             Inl e \<Rightarrow> Some (Inl e)
           | Inr ve \<Rightarrow> bind_comp (get_latest_chain_element tid ve table ctx)
                         (\<lambda>el. Some (load_element tid table el)))"

definition get_latest_entry :: "tid_t \<Rightarrow> 'v Table \<Rightarrow> branch_id_t \<Rightarrow> ExecutionContext \<Rightarrow>
    nat option comp \<times> ExecutionContext" where
  \<comment> \<open>the address of the storage with the tuple's data, or None for nullptr: the row of the table\<close>
  "get_latest_entry tid table branchId ctx =
     (let lineage = (case ctx_branch_lineages ctx branchId of None \<Rightarrow> Map.empty | Some m \<Rightarrow> m);
          ctx' = ctx\<lparr>ctx_branchId := branchId,
                     ctx_branch_lineages := (ctx_branch_lineages ctx)(branchId \<mapsto> lineage),
                     ctx_branch_lineage := lineage\<rparr>
      in (if branchId = master_branch_id then Some (Inr None)
          else case get_version_entry tid table of
                 Inl e \<Rightarrow> Some (Inl e)
               | Inr ve \<Rightarrow> bind_comp (get_latest_chain_element tid ve table ctx')
                   (\<lambda>el. case el of
                           Null \<Rightarrow> Some (Inl (RuntimeError ''no such tuple in the given branch''))
                         | Entry _ \<Rightarrow> Some (Inr None)
                         | Storage a \<Rightarrow> Some (Inr (Some a))),
          ctx'))"

definition get_tuple :: "tid_t \<Rightarrow> nat \<Rightarrow> 'v Table \<Rightarrow> ExecutionContext \<Rightarrow> 'v row comp" where
  "get_tuple tid revision_offset table ctx =
     (case get_version_entry tid table of
        Inl e \<Rightarrow> Some (Inl e)
      | Inr ve \<Rightarrow> bind_comp (get_chain_element tid ve revision_offset table ctx)
                    (\<lambda>el. Some (load_element tid table el)))"

definition tuple_is_visible :: "tid_t \<Rightarrow> 'v Table \<Rightarrow> ExecutionContext \<Rightarrow> bool comp" where
  "tuple_is_visible tid table ctx =
     (if is_marked_as_dangling_tid tid \<and> ctx_branchId ctx = master_branch_id then Some (Inr False)
      else case get_version_entry tid table of
             Inl e \<Rightarrow> Some (Inl e)
           | Inr ve \<Rightarrow> bind_comp (get_latest_chain_element tid ve table ctx)
                         (\<lambda>el. Some (Inr (el \<noteq> Null))))"

text \<open>
  The scans. A scan item is a column of the table and the field of a storage's data it is read
  from; the consumer of a scan is called once for each row in the list.
\<close>

type_synonym scan_item = "nat \<times> nat"

definition produce_current_master :: "tid_t \<Rightarrow> 'v Table \<Rightarrow> scan_item list \<Rightarrow> 'v row result" where
  "produce_current_master tid table items =
     mapM_res (\<lambda>(column, offset). bind_res (Table_getColumn table column) (\<lambda>col.
                 bind_res (Vector_at col (unat tid)) (\<lambda>ptr. vec_load col ptr))) items"

definition produce :: "'v VersionedTupleStorage \<Rightarrow> scan_item list \<Rightarrow> 'v row result" where
  "produce storage items =
     mapM_res (\<lambda>(column, offset). if offset < length (vs_data storage) then Inr (vs_data storage ! offset)
                                  else Inl MemFault) items"

definition produce_element :: "tid_t \<Rightarrow> 'v Table \<Rightarrow> scan_item list \<Rightarrow> element \<Rightarrow> 'v row list comp" where
  "produce_element tid table items el =
     (case el of
        Null \<Rightarrow> Some (Inr [])
      | Entry _ \<Rightarrow> Some (bind_res (produce_current_master tid table items) (\<lambda>r. Inr [r]))
      | Storage a \<Rightarrow>
          (case tb_heap table a of None \<Rightarrow> Some (Inl MemFault)
                                 | Some s \<Rightarrow> Some (bind_res (produce s items) (\<lambda>r. Inr [r]))))"

definition produce_via :: "(VersionEntry \<Rightarrow> element comp) \<Rightarrow> ExecutionContext \<Rightarrow> tid_t \<Rightarrow> 'v Table \<Rightarrow>
    scan_item list \<Rightarrow> 'v row list comp" where
  \<comment> \<open>the body the produce functions share, with the lookup each of them uses\<close>
  "produce_via lookup ctx tid table items =
     (case get_version_entry tid table of
        Inl e \<Rightarrow> Some (Inl e)
      | Inr ve \<Rightarrow> if \<not> has_lineage_intersection ctx ve then Some (Inr [])
                  else bind_comp (lookup ve) (produce_element tid table items))"

definition produce_latest_tuple :: "ExecutionContext \<Rightarrow> tid_t \<Rightarrow> 'v Table \<Rightarrow> scan_item list \<Rightarrow> 'v row list comp" where
  "produce_latest_tuple ctx tid table items =
     (if ctx_branchId ctx = master_branch_id
      then Some (bind_res (produce_current_master tid table items) (\<lambda>r. Inr [r]))
      else produce_via (\<lambda>ve. get_latest_chain_element tid ve table ctx) ctx tid table items)"

definition produce_earliest_tuple :: "ExecutionContext \<Rightarrow> tid_t \<Rightarrow> 'v Table \<Rightarrow> scan_item list \<Rightarrow> 'v row list comp" where
  "produce_earliest_tuple ctx tid table items =
     produce_via (\<lambda>ve. get_earliest_chain_element tid ve table ctx) ctx tid table items"

definition produce_tuple :: "ExecutionContext \<Rightarrow> tid_t \<Rightarrow> nat \<Rightarrow> 'v Table \<Rightarrow> scan_item list \<Rightarrow> 'v row list comp" where
  "produce_tuple ctx tid revision_offset table items =
     produce_via (\<lambda>ve. get_chain_element tid ve revision_offset table ctx) ctx tid table items"

definition all_tids :: "'v Table \<Rightarrow> tid_t list" where
  "all_tids table = map of_nat [0 ..< length (tb_version_mgmt_column table)]"

definition all_dangling_tids :: "'v Table \<Rightarrow> tid_t list" where
  "all_dangling_tids table =
     map (\<lambda>i. mark_as_dangling_tid (of_nat i)) [0 ..< length (tb_dangling_version_mgmt_column table)]"

definition scan_relation_yielding_earliest :: "ExecutionContext \<Rightarrow> 'v Table \<Rightarrow> scan_item list \<Rightarrow> 'v row list comp" where
  "scan_relation_yielding_earliest ctx table items =
     bind_comp (mapM_comp (\<lambda>tid. produce_earliest_tuple ctx tid table items)
         (if ctx_branchId ctx = master_branch_id then all_tids table
          else all_tids table @ all_dangling_tids table))
       (\<lambda>rows. Some (Inr (concat rows)))"

definition scan_relation_yielding_latest :: "ExecutionContext \<Rightarrow> 'v Table \<Rightarrow> scan_item list \<Rightarrow> 'v row list comp" where
  "scan_relation_yielding_latest ctx table items =
     bind_comp (if ctx_branchId ctx = master_branch_id
         then mapM_comp (\<lambda>tid. Some (bind_res (produce_current_master tid table items) (\<lambda>r. Inr [r])))
                (all_tids table)
         else mapM_comp (\<lambda>tid. produce_latest_tuple ctx tid table items)
                (all_tids table @ all_dangling_tids table))
       (\<lambda>rows. Some (Inr (concat rows)))"

end
