(* ===== verification/VersionHistory.thy ===== *)
theory VersionHistory
  imports VersionChain
begin

text \<open>
  What the version chains of a table mean. The history of a tuple is the list of its versions, the
  newest first; \<open>lseg\<close> follows the \<^verbatim>\<open>next\<close> pointers from one element to another, \<open>chain\<close> is the
  invariant of one tuple's chain, and \<open>vt_ok\<close> the invariant of a table. The lemmas show what insert,
  update and delete do to the history and the visibility bits: an update in any branch, the master
  branch included, puts one version in front of the history of its tuple and changes nothing else,
  although in the master branch the code rewrites the row in place, moves the entry to the head of
  its chain and links the old row into the entry's place.
\<close>

section \<open>Segments of a chain\<close>

definition next_of :: "(nat \<rightharpoonup> 'v VersionedTupleStorage) \<Rightarrow> tid_t \<Rightarrow> VersionEntry \<Rightarrow> element \<Rightarrow> element option" where
  "next_of h t ve el = (case el of Null \<Rightarrow> None | Entry t' \<Rightarrow> if t' = t then Some (ve_next ve) else None
     | Storage a \<Rightarrow> map_option vs_next (h a))"

lemma next_of_simps [simp]:
  "next_of h t ve Null = None"
  "next_of h t ve (Entry t) = Some (ve_next ve)"
  "next_of h t ve (Storage a) = map_option vs_next (h a)"
  by (simp_all add: next_of_def)

fun lseg :: "(nat \<rightharpoonup> 'v VersionedTupleStorage) \<Rightarrow> tid_t \<Rightarrow> VersionEntry \<Rightarrow> element \<Rightarrow> element list \<Rightarrow>
    element \<Rightarrow> bool" where
  "lseg h t ve s [] e = (s = e)"
| "lseg h t ve s (x # xs) e = (s = x \<and> (\<exists>n. next_of h t ve x = Some n \<and> lseg h t ve n xs e))"

lemma lseg_append: "lseg h t ve s (xs @ ys) e = (\<exists>m. lseg h t ve s xs m \<and> lseg h t ve m ys e)"
  by (induction xs arbitrary: s) auto

lemma lseg_cong:
  assumes "\<And>x. x \<in> set xs \<Longrightarrow> next_of h' t ve' x = next_of h t ve x"
  shows "lseg h' t ve' s xs e = lseg h t ve s xs e"
  using assms by (induction xs arbitrary: s) auto

lemma lseg_next: "lseg h t ve s xs e \<Longrightarrow> x \<in> set xs \<Longrightarrow> \<exists>n. next_of h t ve x = Some n"
  by (induction xs arbitrary: s) auto

lemma lseg_heap:
  assumes "lseg h t ve s xs e"
  shows "Storage a \<in> set xs \<Longrightarrow> \<exists>s. h a = Some s" and "Entry t' \<in> set xs \<Longrightarrow> t' = t"
    and "Null \<notin> set xs"
  using lseg_next [OF assms] by (fastforce simp: next_of_def split: if_splits)+

lemma takeWhile_before: "y \<notin> set pre \<Longrightarrow> takeWhile (\<lambda>x. x \<noteq> y) (pre @ y # post) = pre"
  by (induction pre) auto

definition chain :: "(nat \<rightharpoonup> 'v VersionedTupleStorage) \<Rightarrow> tid_t \<Rightarrow> VersionEntry \<Rightarrow> element list \<Rightarrow> bool" where
  "chain h t ve xs \<longleftrightarrow> lseg h t ve (ve_first ve) xs Null \<and> distinct xs \<and> Entry t \<in> set xs
     \<and> (let pre = takeWhile (\<lambda>x. x \<noteq> Entry t) xs in pre \<noteq> [] \<longrightarrow> ve_prev ve = last pre)"

lemma chain_cong:
  assumes "\<And>a. Storage a \<in> set xs \<Longrightarrow> h' a = h a"
  shows "chain h' t ve xs = chain h t ve xs"
proof -
  have "lseg h' t ve s xs e = lseg h t ve s xs e" for s e
    by (rule lseg_cong) (use assms in \<open>auto simp: next_of_def split: element.splits\<close>)
  then show ?thesis by (simp add: chain_def)
qed

text \<open>A new chain: the entry alone.\<close>

lemma chain_new: "ve_first ve = Entry t \<Longrightarrow> ve_next ve = Null \<Longrightarrow> chain h t ve [Entry t]"
  by (simp add: chain_def)

text \<open>An update in a branch puts a storage at the head.\<close>

lemma chain_push:
  assumes "chain h t ve xs" and fresh: "h a = None" and s: "vs_next s = ve_first ve"
    and ve': "ve_first ve' = Storage a" "ve_next ve' = ve_next ve"
      "ve_prev ve' = (if ve_first ve = Entry t then Storage a else ve_prev ve)"
  shows "chain (h(a \<mapsto> s)) t ve' (Storage a # xs)"
proof -
  have new: "Storage a \<notin> set xs"
    using assms lseg_heap(1) by (fastforce simp: chain_def)
  have "lseg (h(a \<mapsto> s)) t ve' u xs e = lseg h t ve u xs e" for u e
    by (rule lseg_cong) (use new ve' in \<open>auto simp: next_of_def split: element.splits\<close>)
  moreover have "ve_prev ve' = last (Storage a # takeWhile (\<lambda>x. x \<noteq> Entry t) xs)"
    using assms(1) ve'(3) by (cases xs) (auto simp: chain_def Let_def)
  ultimately show ?thesis
    using assms(1) new s ve'(1) by (simp add: chain_def Let_def)
qed

text \<open>
  An update in the master branch takes the entry to the head, and a storage into the place it had:
  before every older version, after every newer one.
\<close>

lemma chain_move:
  assumes c: "chain h t ve xs" and xs: "xs = pre @ Entry t # post" and fresh: "h a = None"
    and s: "vs_next s = ve_next ve"
    and ve': "ve_first ve' = Entry t"
      "ve_next ve' = (if ve_first ve = Entry t then Storage a else ve_first ve)"
    and h': "h' = (if ve_first ve = Entry t then h(a \<mapsto> s)
        else h(a \<mapsto> s, p \<mapsto> q\<lparr>vs_next := Storage a\<rparr>))"
    and p: "ve_first ve \<noteq> Entry t \<Longrightarrow> ve_prev ve = Storage p \<and> h p = Some q"
  shows "chain h' t ve' (Entry t # pre @ Storage a # post)"
proof -
  from c have seg: "lseg h t ve (ve_first ve) xs Null" and dist: "distinct xs" by (auto simp: chain_def)
  have new: "Storage a \<notin> set xs" using lseg_heap(1) [OF seg] fresh by fastforce
  have sub: "lseg h' t ve' u ys e = lseg h t ve u ys e"
    if "set ys \<subseteq> set xs" "Entry t \<notin> set ys" "ve_first ve \<noteq> Entry t \<longrightarrow> Storage p \<notin> set ys" for u ys e
    by (rule lseg_cong)
      (use that new lseg_heap(2) [OF seg] in
        \<open>auto simp: next_of_def h' split: element.splits if_splits\<close>)
  have "lseg h' t ve' (Entry t) (Entry t # pre @ Storage a # post) Null"
  proof (cases "ve_first ve = Entry t")
    case True
    with seg xs dist have [simp]: "pre = []" by (cases pre) auto
    have "lseg h' t ve' (ve_next ve) post Null"
      using seg dist True by (subst sub) (auto simp: xs)
    then show ?thesis using True ve' s h' by simp
  next
    case False
    with p have p': "ve_prev ve = Storage p" "h p = Some q" by auto
    from seg xs False have "pre \<noteq> []" by auto
    moreover have "takeWhile (\<lambda>x. x \<noteq> Entry t) xs = pre"
      using dist by (simp add: xs takeWhile_before)
    ultimately have "last pre = Storage p" using c by (simp add: chain_def Let_def p')
    with \<open>pre \<noteq> []\<close> obtain pre0 where pre: "pre = pre0 @ [Storage p]"
      by (metis append_butlast_last_id)
    have ne: "a \<noteq> p" using fresh p' by auto
    from seg dist have "lseg h' t ve' (ve_first ve) pre0 (Storage p)"
      by (subst sub) (auto simp: xs pre lseg_append)
    moreover from seg dist have "lseg h' t ve' (ve_next ve) post Null"
      by (subst sub) (auto simp: xs pre lseg_append)
    ultimately show ?thesis using False ve' s ne by (auto simp: h' pre lseg_append)
  qed
  moreover have "distinct (Entry t # pre @ Storage a # post)"
    using dist new by (auto simp: xs)
  ultimately show ?thesis
    using ve'(1) by (simp add: chain_def)
qed

section \<open>The history of a tuple\<close>

type_synonym 'v version = "branch_id_t \<times> branch_id_t \<times> 'v row"

definition version_of :: "(nat \<rightharpoonup> 'v VersionedTupleStorage) \<Rightarrow> VersionEntry \<Rightarrow> 'v row \<Rightarrow> element \<Rightarrow> 'v version" where
  "version_of h ve master el =
     (case el of
        Storage a \<Rightarrow> (case h a of Some s \<Rightarrow> (vs_branch_id s, vs_creation_ts s, vs_data s)
                                | None \<Rightarrow> (0, 0, []))
      | _ \<Rightarrow> (ve_branch_id ve, ve_creation_ts ve, master))"

lemma version_of_simps [simp]:
  "version_of h ve master (Entry t) = (ve_branch_id ve, ve_creation_ts ve, master)"
  "h a = Some s \<Longrightarrow> version_of h ve master (Storage a) = (vs_branch_id s, vs_creation_ts s, vs_data s)"
  by (simp_all add: version_of_def)

fun walk :: "(nat \<rightharpoonup> 'v VersionedTupleStorage) \<Rightarrow> tid_t \<Rightarrow> VersionEntry \<Rightarrow> nat \<Rightarrow> element \<Rightarrow> element list" where
  "walk h t ve 0 el = []"
| "walk h t ve (Suc n) el = (case next_of h t ve el of None \<Rightarrow> [] | Some el' \<Rightarrow> el # walk h t ve n el')"

lemma walk_lseg: "lseg h t ve s xs Null \<Longrightarrow> length xs \<le> n \<Longrightarrow> walk h t ve n s = xs"
proof (induction xs arbitrary: s n)
  case Nil
  then show ?case by (cases n) auto
next
  case (Cons x xs)
  then show ?case by (cases n) auto
qed

definition tuple_entry :: "'v Table \<Rightarrow> nat \<Rightarrow> VersionEntry" where
  "tuple_entry t i = tb_version_mgmt_column t ! i"

definition tuple_chain :: "'v Table \<Rightarrow> nat \<Rightarrow> element list" where
  "tuple_chain t i = walk (tb_heap t) (of_nat i) (tuple_entry t i) (Suc (tb_brk t)) (ve_first (tuple_entry t i))"

definition tuple_history :: "'v Table \<Rightarrow> nat \<Rightarrow> 'v version list" where
  "tuple_history t i = map (version_of (tb_heap t) (tuple_entry t i) (tb_row t i)) (tuple_chain t i)"

definition storages :: "element list \<Rightarrow> nat set" where
  "storages xs = {a. Storage a \<in> set xs}"

definition vt_ok :: "'v Table \<Rightarrow> bool" where
  "vt_ok t \<longleftrightarrow> tb_ok t \<and> tb_columns t \<noteq> [] \<and> tb_dangling_version_mgmt_column t = []
     \<and> tb_rows t < 2 ^ 63
     \<and> (\<forall>a s. tb_heap t a = Some s \<longrightarrow> a < tb_brk t \<and> length (vs_data s) = length (tb_columns t))
     \<and> (\<forall>i < tb_rows t. chain (tb_heap t) (of_nat i) (tuple_entry t i) (tuple_chain t i))
     \<and> (\<forall>i < tb_rows t. \<forall>j < tb_rows t. i \<noteq> j \<longrightarrow>
          storages (tuple_chain t i) \<inter> storages (tuple_chain t j) = {})"

lemma chain_length:
  assumes "chain h t ve xs" "\<And>a s. h a = Some s \<Longrightarrow> a < n"
  shows "length xs \<le> Suc n"
proof -
  from assms have seg: "lseg h t ve (ve_first ve) xs Null" and "distinct xs" by (auto simp: chain_def)
  have "x \<in> insert (Entry t) (Storage ` {..<n})" if "x \<in> set xs" for x
    using that lseg_heap [OF seg] assms(2) by (induction x) (auto, blast+)
  then have "set xs \<subseteq> insert (Entry t) (Storage ` {..<n})" by blast
  then have "card (set xs) \<le> card (insert (Entry t) (Storage ` {..<n}))"
    by (intro card_mono) auto
  also have "\<dots> \<le> Suc n"
    using card_image_le [of "{..<n}" Storage] by (simp add: card_insert_if)
  finally show ?thesis using \<open>distinct xs\<close> by (simp add: distinct_card)
qed

lemma tuple_chain_eq:
  assumes "chain (tb_heap t) (of_nat i) (tuple_entry t i) xs" "\<And>a s. tb_heap t a = Some s \<Longrightarrow> a < tb_brk t"
  shows "tuple_chain t i = xs"
  unfolding tuple_chain_def
  by (rule walk_lseg) (use assms chain_length [OF assms] in \<open>auto simp: chain_def\<close>)

lemma version_of_cong:
  assumes "\<And>a. Storage a \<in> set xs \<Longrightarrow> h' a = h a"
  shows "map (version_of h' ve r) xs = map (version_of h ve r) xs"
  using assms by (auto simp: version_of_def split: element.splits option.splits)

text \<open>Lookup: the first version that is visible to the branch of the context.\<close>

definition vis :: "ExecutionContext \<Rightarrow> 'v version \<Rightarrow> bool" where
  "vis ctx v = is_visible (fst v) (fst (snd v)) ctx"

lemma latest_loop_lseg:
  assumes "lseg h t ve s xs Null"
  shows "latest_loop h t ve ctx s =
     Some (Inr (case find (\<lambda>x. vis ctx (version_of h ve r x)) xs of None \<Rightarrow> Null | Some x \<Rightarrow> x))"
  using assms
proof (induction xs arbitrary: s)
  case Nil
  then show ?case by (subst latest_loop.simps) simp
next
  case (Cons x xs)
  then obtain n where s: "s = x" and n: "next_of h t ve x = Some n" and seg: "lseg h t ve n xs Null" by auto
  note IH = Cons.IH [OF seg]
  show ?case
  proof (cases x)
    case Null
    with n show ?thesis by simp
  next
    case (Entry t')
    with n have "t' = t" "n = ve_next ve" by (auto simp: next_of_def split: if_splits)
    with IH s Entry show ?thesis by (subst latest_loop.simps) (simp add: vis_def)
  next
    case (Storage a)
    with n obtain st where "h a = Some st" "n = vs_next st" by auto
    with IH s Storage show ?thesis by (subst latest_loop.simps) (simp add: vis_def)
  qed
qed

section \<open>Rows\<close>

text \<open>\<open>cells_ok n\<close>: every container of the table holds \<open>n\<close> rows.\<close>

definition cells_ok :: "nat \<Rightarrow> 'v Table \<Rightarrow> bool" where
  "cells_ok n t \<longleftrightarrow> bm_ok (tb_branchBitmap t) \<and> bm_ok (tb_nullIndicatorTable t)
     \<and> bm_rows (tb_branchBitmap t) = n \<and> bm_rows (tb_nullIndicatorTable t) = n
     \<and> (\<forall>c \<in> set (tb_columns t). vec_ok (snd c) \<and> vec_elementCount (snd c) = n)
     \<and> tb_columnsByName t = zip (map (ci_columnName \<circ> fst) (tb_columns t)) [0 ..< length (tb_columns t)]
     \<and> bm_availableCount (tb_branchBitmap t) = 8
     \<and> nulls_ok (map fst (tb_columns t)) (tb_nullIndicatorTable t)"

lemma tb_ok_cells: "tb_ok t \<longleftrightarrow> cells_ok (tb_rows t) t"
  by (simp add: tb_ok_def cells_ok_def cong: conj_cong)

lemma cells_ok_columns:
  "cells_ok n t \<Longrightarrow> j < length (tb_columns t) \<Longrightarrow>
     vec_ok (snd (tb_columns t ! j)) \<and> vec_elementCount (snd (tb_columns t ! j)) = n"
  by (simp add: cells_ok_def)

text \<open>Storing a tuple into one row.\<close>

lemma store_values_Inr:
  assumes "\<And>c. c \<in> set (tb_columns t) \<Longrightarrow> vec_ok (snd c) \<and> vec_elementCount (snd c) = n"
    and "\<And>v :: 'v vec. vec_ok v \<Longrightarrow> vec_elementCount v = n \<Longrightarrow> pos v = Inr p" and "p < n"
    and "k + length vals \<le> length (tb_columns t)"
  shows "\<exists>cols. store_values pos k vals t = (None, t\<lparr>tb_columns := cols\<rparr>)
    \<and> map fst cols = map fst (tb_columns t)
    \<and> (\<forall>j < length (tb_columns t). vec_ok (snd (cols ! j))
         \<and> vec_cells (snd (cols ! j)) = (if k \<le> j \<and> j < k + length vals
              then (vec_cells (snd (tb_columns t ! j)))[p := Some (vals ! (j - k))]
              else vec_cells (snd (tb_columns t ! j))))"
  using assms(1,4)
proof (induction vals arbitrary: k t)
  case Nil
  then have "t\<lparr>tb_columns := tb_columns t\<rparr> = t" by simp
  with Nil show ?case by (intro exI [of _ "tb_columns t"]) auto
next
  case (Cons v vals)
  let ?c = "tb_columns t ! k"
  have k: "k < length (tb_columns t)" using Cons.prems by simp
  with Cons.prems(1) have c: "vec_ok (snd ?c)" "vec_elementCount (snd ?c) = n" by auto
  with assms(3) vec.store_spec [of "snd ?c" p v] obtain v' where v':
    "vec_store (snd ?c) p v = Inr v'" "vec_ok v'" "vec_cells v' = (vec_cells (snd ?c))[p := Some v]"
    by auto
  have count: "vec_elementCount v' = n"
    using v' c by (metis length_list_update length_vec_cells)
  define t' where "t' = t\<lparr>tb_columns := (tb_columns t)[k := (fst ?c, v')]\<rparr>"
  have step: "store_values pos k (v # vals) t = store_values pos (Suc k) vals t'"
    using k c v' assms(2) by (simp add: Table_getColumn_def t'_def)
  have "vec_ok (snd c) \<and> vec_elementCount (snd c) = n" if "c \<in> set (tb_columns t')" for c
  proof -
    from that have "c = (fst ?c, v') \<or> c \<in> set (tb_columns t)"
      using set_update_subset_insert [of "tb_columns t" k "(fst ?c, v')"] by (auto simp: t'_def)
    with Cons.prems(1) [of c] v'(2) count show ?thesis by (elim disjE) simp_all
  qed
  moreover have "Suc k + length vals \<le> length (tb_columns t')" using Cons.prems by (simp add: t'_def)
  ultimately obtain cols where cols:
    "store_values pos (Suc k) vals t' = (None, t'\<lparr>tb_columns := cols\<rparr>)"
    "map fst cols = map fst (tb_columns t')"
    "\<forall>j < length (tb_columns t'). vec_ok (snd (cols ! j))
         \<and> vec_cells (snd (cols ! j)) = (if Suc k \<le> j \<and> j < Suc k + length vals
              then (vec_cells (snd (tb_columns t' ! j)))[p := Some (vals ! (j - Suc k))]
              else vec_cells (snd (tb_columns t' ! j)))"
    using Cons.IH by blast
  have "map fst cols = map fst (tb_columns t)"
    using cols(2) k by (simp add: t'_def map_update) (metis list_update_id nth_map)
  moreover have "vec_ok (snd (cols ! j))
         \<and> vec_cells (snd (cols ! j)) = (if k \<le> j \<and> j < k + length (v # vals)
              then (vec_cells (snd (tb_columns t ! j)))[p := Some ((v # vals) ! (j - k))]
              else vec_cells (snd (tb_columns t ! j)))" if "j < length (tb_columns t)" for j
  proof (cases "j = k")
    case True
    with cols(3) k v' show ?thesis by (simp add: t'_def)
  next
    case False
    with cols(3) that show ?thesis by (auto simp: t'_def nth_Cons')
  qed
  moreover have "store_values pos k (v # vals) t = (None, t\<lparr>tb_columns := cols\<rparr>)"
    using cols(1) step by (simp add: t'_def)
  ultimately show ?case by blast
qed

lemma store_row_Inr:
  assumes ok: "cells_ok n t" and pos: "\<And>v :: 'v vec. vec_ok v \<Longrightarrow> vec_elementCount v = n \<Longrightarrow> pos v = Inr p"
    and p: "p < n" and len: "length vals = length (tb_columns t)"
  shows "\<exists>cols. store_values pos 0 vals t = (None, t\<lparr>tb_columns := cols\<rparr>)
    \<and> cells_ok n (t\<lparr>tb_columns := cols\<rparr>) \<and> map fst cols = map fst (tb_columns t)
    \<and> (\<forall>i < n. tb_row (t\<lparr>tb_columns := cols\<rparr>) i = (if i = p then map Some vals else tb_row t i))"
proof -
  have cells: "\<And>c. c \<in> set (tb_columns t) \<Longrightarrow> vec_ok (snd c) \<and> vec_elementCount (snd c) = n"
    using ok by (simp add: cells_ok_def)
  from store_values_Inr [of t n pos p 0 vals] cells pos p len obtain cols where c:
    "store_values pos 0 vals t = (None, t\<lparr>tb_columns := cols\<rparr>)"
    "map fst cols = map fst (tb_columns t)"
    "\<forall>j < length (tb_columns t). vec_ok (snd (cols ! j))
         \<and> vec_cells (snd (cols ! j)) = (vec_cells (snd (tb_columns t ! j)))[p := Some (vals ! j)]"
    by auto
  have l: "length cols = length (tb_columns t)" using c(2) by (metis length_map)
  have "vec_ok (snd x) \<and> vec_elementCount (snd x) = n" if "x \<in> set cols" for x
  proof -
    from that l obtain j where j: "j < length (tb_columns t)" "x = cols ! j"
      by (auto simp: in_set_conv_nth)
    from c(3) j(1) have v: "vec_ok (snd (cols ! j))"
      "vec_cells (snd (cols ! j)) = (vec_cells (snd (tb_columns t ! j)))[p := Some (vals ! j)]" by auto
    with cells [of "tb_columns t ! j"] j have "length (vec_cells (snd (cols ! j))) = n" by simp
    with v(1) j show ?thesis by simp
  qed
  moreover have "map (ci_columnName \<circ> fst) cols = map (ci_columnName \<circ> fst) (tb_columns t)"
    using c(2) by (metis map_map)
  ultimately have "cells_ok n (t\<lparr>tb_columns := cols\<rparr>)" using ok l c(2) by (simp add: cells_ok_def)
  moreover have "tb_row (t\<lparr>tb_columns := cols\<rparr>) i = (if i = p then map Some vals else tb_row t i)"
    if "i < n" for i
  proof (rule nth_equalityI)
    fix j assume "j < length (tb_row (t\<lparr>tb_columns := cols\<rparr>) i)"
    with l have j: "j < length (tb_columns t)" by (simp add: tb_row_def)
    with cells [of "tb_columns t ! j"] have "length (vec_cells (snd (tb_columns t ! j))) = n" by simp
    with c(3) j l len that p
    show "tb_row (t\<lparr>tb_columns := cols\<rparr>) i ! j = (if i = p then map Some vals else tb_row t i) ! j"
      by (simp add: tb_row_def)
  qed (use l len in \<open>simp add: tb_row_def\<close>)
  ultimately show ?thesis using c(1,2) by blast
qed

text \<open>
  Loading a row throws what \<^verbatim>\<open>Value::load\<close> throws for the first column whose type it does not support.
\<close>

definition row_loads :: "'v Table \<Rightarrow> unit result" where
  "row_loads t = bind_res (mapM_res Value_load_check (Table_getTupleType t)) (\<lambda>_. Inr ())"

lemma row_loads_columns:
  assumes "\<forall>c \<in> set (tb_columns t). Value_load_check (ci_type (fst c)) = Inr ()"
  shows "row_loads t = Inr ()"
proof -
  have "mapM_res Value_load_check (Table_getTupleType t) = Inr (map (\<lambda>_. ()) (Table_getTupleType t))"
    by (rule mapM_res_Inr) (use assms in \<open>auto simp: Table_getTupleType_def\<close>)
  then show ?thesis by (simp add: row_loads_def)
qed

lemma row_loads_cong: "map fst (tb_columns t') = map fst (tb_columns t) \<Longrightarrow> row_loads t' = row_loads t"
  by (metis row_loads_def Table_getTupleType_def map_map)

lemma loads_guarded:
  "mapM_res (\<lambda>i. bind_res (Value_load_check (Table_getTupleType t ! i)) (\<lambda>_. Inr (g i)))
       [0 ..< length (Table_getTupleType t)]
     = bind_res (row_loads t) (\<lambda>_. Inr (map g [0 ..< length (tb_columns t)]))"
proof -
  have "mapM_res (\<lambda>i. bind_res (Value_load_check (Table_getTupleType t ! i)) (\<lambda>_. Inr (g i)))
       [0 ..< length (Table_getTupleType t)]
     = bind_res (mapM_res Value_load_check (Table_getTupleType t))
         (\<lambda>_. Inr (map g [0 ..< length (Table_getTupleType t)]))"
    by (subst mapM_res_guarded [where c = "\<lambda>i. Value_load_check (Table_getTupleType t ! i)" and g = g])
      (simp_all add: mapM_res_nth)
  then show ?thesis
    by (cases "mapM_res Value_load_check (Table_getTupleType t)") (simp_all add: row_loads_def Table_getTupleType_def)
qed

lemma get_current_master_eq:
  assumes "cells_ok n t" "unat tid < n"
  shows "get_current_master tid t = bind_res (row_loads t) (\<lambda>_. Inr (tb_row t (unat tid)))"
proof -
  have "get_current_master tid t = mapM_res (\<lambda>i. bind_res (Value_load_check (Table_getTupleType t ! i))
      (\<lambda>_. Inr (vec_cells (snd (tb_columns t ! i)) ! unat tid))) [0 ..< length (Table_getTupleType t)]"
    unfolding get_current_master_def
  proof (rule mapM_res_cong)
    fix i assume "i \<in> set [0 ..< length (Table_getTupleType t)]"
    then have i: "i < length (tb_columns t)" by (simp add: Table_getTupleType_def)
    with cells_ok_columns [OF assms(1) i] assms(2)
    show "bind_res (Table_getColumn t i) (\<lambda>col. bind_res (Vector_at col (unat tid)) (\<lambda>ptr.
         bind_res (Value_load_check (Table_getTupleType t ! i)) (\<lambda>_. vec_load col ptr))) =
       bind_res (Value_load_check (Table_getTupleType t ! i))
         (\<lambda>_. Inr (vec_cells (snd (tb_columns t ! i)) ! unat tid))"
      by (simp add: Table_getColumn_def Vector_at_def vec.load_spec)
  qed
  moreover have "map (\<lambda>i. vec_cells (snd (tb_columns t ! i)) ! unat tid) [0 ..< length (tb_columns t)] =
      tb_row t (unat tid)"
    by (rule nth_equalityI) (simp_all add: tb_row_def)
  ultimately show ?thesis by (simp add: loads_guarded)
qed

lemma nulls_ok_addRow:
  assumes "nulls_ok cis nit" "bm_ok nit" "bm_rows nit' = Suc (bm_rows nit)"
    and "bm_columnCount nit' = bm_columnCount nit" "bm_availableCount nit' = bm_availableCount nit"
    and "\<forall>i k. k < bm_availableCount nit \<longrightarrow> i < bm_rows nit \<longrightarrow> bm_bit nit' i k = bm_bit nit i k"
    and "\<forall>k < bm_availableCount nit. \<not> bm_bit nit' (bm_rows nit) k"
  shows "nulls_ok cis nit'"
proof -
  have "bm_columnCount nit \<le> bm_availableCount nit" using assms(2) by (simp add: bm_ok_def)
  with assms(1,3-7) show ?thesis
    by (fastforce simp: nulls_ok_def less_Suc_eq split: option.splits)
qed

lemma Table_addRow_Inr:
  assumes ok: "cells_ok n t" and cols: "tb_columns t \<noteq> []"
    and b: "unat b < bm_columnCount (tb_branchBitmap t)"
  shows "\<exists>nit bb cols. Table_addRow b t = (None, t\<lparr>tb_columns := cols, tb_nullIndicatorTable := nit,
        tb_branchBitmap := bb\<rparr>)
    \<and> cells_ok (Suc n) (t\<lparr>tb_columns := cols, tb_nullIndicatorTable := nit, tb_branchBitmap := bb\<rparr>)
    \<and> map fst cols = map fst (tb_columns t) \<and> bm_columnCount bb = bm_columnCount (tb_branchBitmap t)
    \<and> (\<forall>i < n. map (\<lambda>c. vec_cells (snd c) ! i) cols = tb_row t i)
    \<and> (\<forall>i \<le> n. \<forall>c < 8. bm_bit bb i c =
         (if i < n then bm_bit (tb_branchBitmap t) i c else c = unat b))"
proof -
  define cols' where "cols' = map (\<lambda>(ci, vec). (ci, snd (Vector_reserve_back vec))) (tb_columns t)"
  have c: "vec_ok (snd x)" "vec_elementCount (snd x) = n" if "x \<in> set (tb_columns t)" for x
    using ok that by (auto simp: cells_ok_def)
  have c': "vec_ok (snd x) \<and> vec_elementCount (snd x) = Suc n" if "x \<in> set cols'" for x
  proof -
    from that obtain ci v where "(ci, v) \<in> set (tb_columns t)" "x = (ci, snd (Vector_reserve_back v))"
      by (auto simp: cols'_def)
    with c [of "(ci, v)"] show ?thesis by (simp add: Vector_reserve_back_ok)
  qed
  obtain nit where nit: "BitmapTable_addRow (tb_nullIndicatorTable t) = Inr nit" "bm_ok nit"
    "bm_rows nit = Suc n" "nulls_ok (map fst (tb_columns t)) nit"
    using BitmapTable_addRow_Inr [of "tb_nullIndicatorTable t"] ok
      nulls_ok_addRow [of "map fst (tb_columns t)" "tb_nullIndicatorTable t"]
    by (auto simp: cells_ok_def)
  obtain bb where bb: "BitmapTable_addRow (tb_branchBitmap t) = Inr bb" "bm_ok bb" "bm_rows bb = Suc n"
    "bm_columnCount bb = bm_columnCount (tb_branchBitmap t)" "bm_availableCount bb = 8"
    "\<forall>i c. c < 8 \<longrightarrow> i < n \<longrightarrow> bm_bit bb i c = bm_bit (tb_branchBitmap t) i c"
    "\<forall>c < 8. \<not> bm_bit bb n c"
    using BitmapTable_addRow_Inr [of "tb_branchBitmap t"] ok by (auto simp: cells_ok_def)
  obtain bb' where bb': "BitmapTable_set bb n (unat b) True = Inr bb'" "bm_ok bb'" "bm_rows bb' = Suc n"
    "bm_columnCount bb' = bm_columnCount bb" "bm_availableCount bb' = 8"
    "\<forall>i < Suc n. \<forall>c < 8. bm_bit bb' i c = (if i = n \<and> c = unat b then True else bm_bit bb i c)"
    using BitmapTable_set_Inr [of bb n "unat b" True] bb b by auto
  obtain ci vec rest where first: "tb_columns t = (ci, vec) # rest" using cols by (cases "tb_columns t") auto
  then have count: "vec_elementCount vec = n" using c [of "(ci, vec)"] by simp
  have fst_cols: "map fst cols' = map fst (tb_columns t)" by (auto simp: cols'_def)
  then have names: "map (ci_columnName \<circ> fst) cols' = map (ci_columnName \<circ> fst) (tb_columns t)"
    by (metis map_map)
  have row: "map (\<lambda>c. vec_cells (snd c) ! i) cols' = tb_row t i" if "i < n" for i
  proof -
    have "vec_cells (snd (Vector_reserve_back (snd x))) ! i = vec_cells (snd x) ! i"
      if "x \<in> set (tb_columns t)" for x
      using Vector_reserve_back_cells(1) [OF c(1) [OF that]] c [OF that] \<open>i < n\<close>
      by (auto simp: nth_append)
    then show ?thesis by (auto simp: cols'_def tb_row_def)
  qed
  have "Table_addRow b t = (None, t\<lparr>tb_columns := cols', tb_nullIndicatorTable := nit,
        tb_branchBitmap := bb'\<rparr>)"
    using nit(1) bb(1) bb'(1) count
    by (simp add: Table_addRow_def Let_def cols'_def [symmetric] first) (simp add: cols'_def first)
  moreover have "cells_ok (Suc n) (t\<lparr>tb_columns := cols', tb_nullIndicatorTable := nit,
        tb_branchBitmap := bb'\<rparr>)"
    using c' nit bb' ok names fst_cols by (simp add: cells_ok_def) (simp add: cols'_def)
  moreover have "\<forall>i \<le> n. \<forall>c < 8. bm_bit bb' i c =
         (if i < n then bm_bit (tb_branchBitmap t) i c else c = unat b)"
    using bb bb' by (auto simp: le_less)
  ultimately show ?thesis
    using fst_cols row bb(4) bb'(4)
    by (intro exI [of _ nit] exI [of _ bb'] exI [of _ cols'] conjI) simp_all
qed

section \<open>What the operations do to the histories\<close>

lemma chain_split:
  assumes "chain h t ve xs"
  obtains pre post where "xs = pre @ Entry t # post" "Entry t \<notin> set pre"
  using assms split_list_first [of "Entry t" xs] by (auto simp: chain_def)

lemma chain_prev:
  assumes c: "chain h t ve xs" and "ve_first ve \<noteq> Entry t"
  shows "\<exists>p q. ve_prev ve = Storage p \<and> h p = Some q \<and> Storage p \<in> set xs"
proof -
  obtain pre post where xs: "xs = pre @ Entry t # post" "Entry t \<notin> set pre" using c by (rule chain_split)
  from c have seg: "lseg h t ve (ve_first ve) xs Null" by (simp add: chain_def)
  with assms(2) xs have "pre \<noteq> []" by auto
  with c xs have prev: "ve_prev ve = last pre" by (simp add: chain_def Let_def takeWhile_before)
  have "last pre \<in> set pre" using \<open>pre \<noteq> []\<close> by simp
  then have mem: "last pre \<in> set xs" by (simp add: xs)
  have "last pre \<noteq> Entry t'" for t'
    using lseg_heap(2) [OF seg, of t'] mem \<open>last pre \<in> set pre\<close> xs(2) by metis
  moreover have "last pre \<noteq> Null" using lseg_heap(3) [OF seg] mem by metis
  ultimately obtain p where p: "last pre = Storage p" by (meson element.exhaust)
  with \<open>last pre \<in> set pre\<close> xs have "Storage p \<in> set xs" by auto
  with lseg_heap(1) [OF seg] prev p show ?thesis by auto
qed

lemma tid_facts:
  assumes "i < 2 ^ 63"
  shows "unat (of_nat i :: tid_t) = i" "\<not> is_marked_as_dangling_tid (of_nat i)"
proof -
  show "unat (of_nat i :: tid_t) = i"
    using assms by (simp add: unat_of_nat take_bit_nat_eq_self)
  have "\<not> bit i n" if "63 \<le> n" for n
  proof -
    have "i < 2 ^ n" using assms that by (rule less_le_trans [OF _ power_increasing]) simp
    then show ?thesis by (simp add: bit_iff_odd)
  qed
  then have "(of_nat i :: tid_t) AND push_bit 63 1 = 0"
    by (intro bit_word_eqI) (auto simp: bit_simps simp del: push_bit_of_1 push_bit_numeral)
  then show "\<not> is_marked_as_dangling_tid (of_nat i)"
    by (simp add: is_marked_as_dangling_tid_def)
qed

lemma vt_okI:
  assumes "tb_ok t" "tb_columns t \<noteq> []" "tb_dangling_version_mgmt_column t = []" "tb_rows t < 2 ^ 63"
    and heap: "\<And>a s. tb_heap t a = Some s \<Longrightarrow> a < tb_brk t \<and> length (vs_data s) = length (tb_columns t)"
    and chains: "\<And>i. i < tb_rows t \<Longrightarrow> chain (tb_heap t) (of_nat i) (tuple_entry t i) (xs i)"
    and disj: "\<And>i j. i < tb_rows t \<Longrightarrow> j < tb_rows t \<Longrightarrow> i \<noteq> j \<Longrightarrow> storages (xs i) \<inter> storages (xs j) = {}"
  shows "vt_ok t \<and> (\<forall>i < tb_rows t. tuple_chain t i = xs i)"
proof -
  have "tuple_chain t i = xs i" if "i < tb_rows t" for i
    by (rule tuple_chain_eq [OF chains [OF that]]) (use heap in auto)
  with assms show ?thesis by (simp add: vt_ok_def)
qed

text \<open>The part of a history that an operation on another tuple leaves alone.\<close>

lemma frame_chain:
  assumes "vt_ok t" "i < tb_rows t" "tuple_entry t' i = tuple_entry t i"
    and "\<And>a. a \<in> storages (tuple_chain t i) \<Longrightarrow> tb_heap t' a = tb_heap t a"
  shows "chain (tb_heap t') (of_nat i) (tuple_entry t' i) (tuple_chain t i)"
  using assms chain_cong [of "tuple_chain t i" "tb_heap t'" "tb_heap t"]
  by (simp add: vt_ok_def storages_def)

lemma frame_history:
  assumes "tuple_chain t' i = tuple_chain t i" "tuple_entry t' i = tuple_entry t i"
    and "tb_row t' i = tb_row t i"
    and "\<And>a. a \<in> storages (tuple_chain t i) \<Longrightarrow> tb_heap t' a = tb_heap t a"
  shows "tuple_history t' i = tuple_history t i"
  using assms version_of_cong [of "tuple_chain t i" "tb_heap t'" "tb_heap t"]
  by (simp add: tuple_history_def storages_def)

lemma storages_heap:
  assumes "vt_ok t" "i < tb_rows t" "a \<in> storages (tuple_chain t i)"
  shows "\<exists>s. tb_heap t a = Some s" "a < tb_brk t"
proof -
  from assms have "lseg (tb_heap t) (of_nat i) (tuple_entry t i) (ve_first (tuple_entry t i))
      (tuple_chain t i) Null" "Storage a \<in> set (tuple_chain t i)"
    by (auto simp: vt_ok_def chain_def storages_def)
  then show ex: "\<exists>s. tb_heap t a = Some s" using lseg_heap(1) by fastforce
  with assms(1) show "a < tb_brk t" by (auto simp: vt_ok_def)
qed

lemma storages_disjoint:
  assumes "vt_ok t" "j < tb_rows t" "i < tb_rows t" "j \<noteq> i" "a \<in> storages (tuple_chain t j)"
  shows "a \<notin> storages (tuple_chain t i)"
proof -
  from assms(1-4) have "storages (tuple_chain t j) \<inter> storages (tuple_chain t i) = {}"
    by (simp add: vt_ok_def)
  with assms(5) show ?thesis by blast
qed

lemma fresh_brk: "vt_ok t \<Longrightarrow> tb_heap t (tb_brk t) = None"
  by (cases "tb_heap t (tb_brk t)") (auto simp: vt_ok_def)

lemma insert_tuple_Inr:
  fixes t :: "'v Table"
  assumes ok: "vt_ok t" and b: "unat (ctx_branchId ctx) < bm_columnCount (tb_branchBitmap t)"
      "unat (ctx_branchId ctx) < unat (1 + Database_getLargestBranchId db)"
    and room: "Suc (tb_rows t) < 2 ^ 63" and len: "length tuple = length (tb_columns t)"
  shows "\<exists>t'. insert_tuple tuple db t ctx = (Inr (of_nat (tb_rows t)), t') \<and> vt_ok t'
    \<and> tb_rows t' = Suc (tb_rows t)
    \<and> (\<forall>i < tb_rows t. tuple_history t' i = tuple_history t i)
    \<and> tuple_history t' (tb_rows t) = [(ctx_branchId ctx, Database_getLargestBranchId db, map Some tuple)]
    \<and> (\<forall>i < tb_rows t'. tb_row t' i = (if i = tb_rows t then map Some tuple else tb_row t i))
    \<and> (\<forall>i < tb_rows t'. \<forall>c < 8. bm_bit (tb_branchBitmap t') i c =
         (if i < tb_rows t then bm_bit (tb_branchBitmap t) i c else c = unat (ctx_branchId ctx)))
    \<and> bm_columnCount (tb_branchBitmap t') = bm_columnCount (tb_branchBitmap t)
    \<and> map fst (tb_columns t') = map fst (tb_columns t)"
proof -
  let ?n = "tb_rows t" and ?b = "ctx_branchId ctx" and ?l = "Database_getLargestBranchId db"
  have tbok: "cells_ok ?n t" and cols: "tb_columns t \<noteq> []" using ok by (auto simp: vt_ok_def tb_ok_cells)
  define bits where "bits = (replicate (unat (1 + ?l)) False)[unat ?b := True]"
  define ve where "ve = \<lparr>ve_first = Entry (of_nat ?n), ve_prev = Null, ve_next = Null,
    ve_next_in_branch = Null, ve_branch_id = ?b, ve_creation_ts = ?l, ve_branch_visibility = bits\<rparr>"
  define t1 where "t1 = t\<lparr>tb_version_mgmt_column := tb_version_mgmt_column t @ [ve]\<rparr>"
  have t1: "cells_ok ?n t1" "tb_columns t1 \<noteq> []" "unat ?b < bm_columnCount (tb_branchBitmap t1)"
    using tbok cols b(1) by (simp_all add: t1_def cells_ok_def)
  from Table_addRow_Inr [OF this] obtain nit bb cs where add:
    "Table_addRow ?b t1 = (None, t1\<lparr>tb_columns := cs, tb_nullIndicatorTable := nit, tb_branchBitmap := bb\<rparr>)"
    "cells_ok (Suc ?n) (t1\<lparr>tb_columns := cs, tb_nullIndicatorTable := nit, tb_branchBitmap := bb\<rparr>)"
    "map fst cs = map fst (tb_columns t1)" "bm_columnCount bb = bm_columnCount (tb_branchBitmap t1)"
    "\<forall>i < ?n. map (\<lambda>c. vec_cells (snd c) ! i) cs = tb_row t1 i"
    "\<forall>i \<le> ?n. \<forall>c < 8. bm_bit bb i c = (if i < ?n then bm_bit (tb_branchBitmap t1) i c else c = unat ?b)"
    by (elim exE conjE) (rule that)
  define t2 where "t2 = t1\<lparr>tb_columns := cs, tb_nullIndicatorTable := nit, tb_branchBitmap := bb\<rparr>"
  have lcs: "length cs = length (tb_columns t)" using arg_cong [OF add(3), of length] by (simp add: t1_def)
  have "\<exists>cols. store_values Vector_back 0 tuple t2 = (None, t2\<lparr>tb_columns := cols\<rparr>)
    \<and> cells_ok (Suc ?n) (t2\<lparr>tb_columns := cols\<rparr>) \<and> map fst cols = map fst (tb_columns t2)
    \<and> (\<forall>i < Suc ?n. tb_row (t2\<lparr>tb_columns := cols\<rparr>) i = (if i = ?n then map Some tuple else tb_row t2 i))"
  proof (rule store_row_Inr)
    show "cells_ok (Suc ?n) t2" using add(2) by (simp add: t2_def)
    show "length tuple = length (tb_columns t2)" using len lcs by (simp add: t2_def)
  qed (simp_all add: Vector_back_def Vector_at_def)
  then obtain cs' where st: "store_values Vector_back 0 tuple t2 = (None, t2\<lparr>tb_columns := cs'\<rparr>)"
    "cells_ok (Suc ?n) (t2\<lparr>tb_columns := cs'\<rparr>)" "map fst cs' = map fst (tb_columns t2)"
    "\<forall>i < Suc ?n. tb_row (t2\<lparr>tb_columns := cs'\<rparr>) i = (if i = ?n then map Some tuple else tb_row t2 i)"
    by blast
  define t' where "t' = t2\<lparr>tb_columns := cs'\<rparr>"
  have run: "insert_tuple tuple db t ctx = (Inr (of_nat ?n), t')"
    using b(2) add(1) st(1)
    by (simp add: insert_tuple_def Let_def bitset_set_def bitset_resize_def bits_def [symmetric]
        tb_rows_def [symmetric] t1_def [unfolded ve_def, symmetric] t2_def [symmetric] t'_def)
  have rows: "tb_rows t' = Suc ?n" by (simp add: t'_def t2_def t1_def tb_rows_def)
  have heap: "tb_heap t' = tb_heap t" by (simp add: t'_def t2_def t1_def)
  have ent: "tuple_entry t' i = (if i < ?n then tuple_entry t i else ve)" if "i < Suc ?n" for i
    using that by (simp add: t'_def t2_def t1_def tuple_entry_def tb_rows_def nth_append)
  define xs where "xs i = (if i < ?n then tuple_chain t i else [Entry (of_nat ?n)])" for i
  have main: "vt_ok t' \<and> (\<forall>i < tb_rows t'. tuple_chain t' i = xs i)"
  proof (rule vt_okI)
    show "tb_ok t'" using st(2) by (simp add: tb_ok_cells rows) (simp add: t'_def)
    show "chain (tb_heap t') (of_nat i) (tuple_entry t' i) (xs i)" if "i < tb_rows t'" for i
    proof (cases "i < ?n")
      case True
      with frame_chain [OF ok True, of t'] ent show ?thesis by (simp add: heap xs_def)
    next
      case False
      with that rows have "i = ?n" by simp
      then show ?thesis using ent [of ?n] by (simp add: xs_def ve_def chain_new)
    qed
    show "storages (xs i) \<inter> storages (xs j) = {}" if "i < tb_rows t'" "j < tb_rows t'" "i \<noteq> j" for i j
      using that ok by (auto simp: xs_def vt_ok_def storages_def)
  qed (use ok room rows heap arg_cong [OF st(3), of length] lcs cols in
      \<open>auto simp: vt_ok_def t'_def t2_def t1_def\<close>)
  have row: "tb_row t' i = (if i = ?n then map Some tuple else tb_row t i)" if "i < Suc ?n" for i
    using st(4) add(5) that by (auto simp: t'_def t2_def t1_def tb_row_def)
  have "tuple_history t' i = tuple_history t i" if "i < ?n" for i
    using that main rows ent row by (intro frame_history) (auto simp: heap xs_def)
  moreover have "tuple_history t' ?n = [(?b, ?l, map Some tuple)]"
    using main rows ent [of ?n] row [of ?n] by (simp add: tuple_history_def xs_def ve_def)
  ultimately show ?thesis
    using run main rows add(3,4,6) st(3) row
    by (intro exI [of _ t']) (auto simp: t'_def t2_def t1_def)
qed

text \<open>
  An update. Both cases end in a table that differs from the old one in the entry of the tuple, in
  the heap outside the chains of the other tuples, and, in the master branch, in the row.
\<close>

lemma update_result:
  fixes t t' :: "'v Table"
  assumes ok: "vt_ok t" and i: "i < tb_rows t"
    and t': "cells_ok (tb_rows t) t'" "tb_rows t' = tb_rows t" "length (tb_columns t') = length (tb_columns t)"
      "tb_branchBitmap t' = tb_branchBitmap t" "tb_dangling_version_mgmt_column t' = []"
      "tb_brk t' = Suc (tb_brk t)"
    and ent: "\<And>j. j < tb_rows t \<Longrightarrow> j \<noteq> i \<Longrightarrow> tuple_entry t' j = tuple_entry t j"
    and row: "\<And>j. j < tb_rows t \<Longrightarrow> j \<noteq> i \<Longrightarrow> tb_row t' j = tb_row t j"
    and heap: "\<And>a. a \<noteq> tb_brk t \<Longrightarrow> a \<notin> storages (tuple_chain t i) \<Longrightarrow> tb_heap t' a = tb_heap t a"
      "\<And>a s. tb_heap t' a = Some s \<Longrightarrow> a < tb_brk t' \<and> length (vs_data s) = length (tb_columns t)"
    and ch: "chain (tb_heap t') (of_nat i) (tuple_entry t' i) ys"
      "storages ys \<subseteq> insert (tb_brk t) (storages (tuple_chain t i))"
  shows "vt_ok t' \<and> tuple_chain t' i = ys
    \<and> (\<forall>j < tb_rows t. j \<noteq> i \<longrightarrow> tuple_history t' j = tuple_history t j)"
proof -
  define xs where "xs j = (if j = i then ys else tuple_chain t j)" for j
  have other: "tb_heap t' a = tb_heap t a" if "j < tb_rows t" "j \<noteq> i" "a \<in> storages (tuple_chain t j)" for a j
    using heap(1) [of a] storages_heap(2) [OF ok that(1,3)] storages_disjoint [OF ok that(1) i that(2,3)]
    by simp
  have "vt_ok t' \<and> (\<forall>j < tb_rows t'. tuple_chain t' j = xs j)"
  proof (rule vt_okI)
    show "chain (tb_heap t') (of_nat j) (tuple_entry t' j) (xs j)" if "j < tb_rows t'" for j
    proof (cases "j = i")
      case False
      with that t'(2) have j: "j < tb_rows t" "j \<noteq> i" by auto
      with frame_chain [OF ok j(1) ent [OF j]] other show ?thesis by (simp add: xs_def)
    qed (simp add: xs_def ch)
    show "storages (xs j) \<inter> storages (xs k) = {}" if "j < tb_rows t'" "k < tb_rows t'" "j \<noteq> k" for j k
    proof -
      have "storages (tuple_chain t j) \<inter> storages (tuple_chain t k) = {}"
        "tb_brk t \<notin> storages (tuple_chain t j)" "tb_brk t \<notin> storages (tuple_chain t k)"
        using that t'(2) ok storages_heap(2) [OF ok] by (auto simp: vt_ok_def)
      with that ch(2) show ?thesis by (auto simp: xs_def split: if_splits)
    qed
  qed (use ok t' heap(2) in \<open>auto simp: vt_ok_def tb_ok_cells\<close>)
  then have "vt_ok t'" and chains: "\<And>j. j < tb_rows t \<Longrightarrow> tuple_chain t' j = xs j" using t'(2) by auto
  moreover have "tuple_history t' j = tuple_history t j" if "j < tb_rows t" "j \<noteq> i" for j
    using chains [OF that(1)] that ent row other by (intro frame_history) (auto simp: xs_def)
  ultimately show ?thesis using i by (simp add: xs_def)
qed

lemma get_version_entry_Inr:
  assumes "vt_ok t" "i < tb_rows t"
  shows "get_version_entry (of_nat i) t = Inr (tuple_entry t i)"
  using assms tid_facts [of i] by (simp add: get_version_entry_def vt_ok_def tb_rows_def tuple_entry_def)

lemma put_version_entry_eq:
  assumes "vt_ok t" "i < tb_rows t"
  shows "put_version_entry (of_nat i) ve t' =
    t'\<lparr>tb_version_mgmt_column := (tb_version_mgmt_column t')[i := ve]\<rparr>"
  using assms tid_facts [of i] by (simp add: put_version_entry_def vt_ok_def)

lemma latest_element:
  assumes ok: "vt_ok t" and i: "i < tb_rows t" and b: "ctx_branchId ctx \<noteq> master_branch_id"
  shows "get_latest_chain_element (of_nat i) (tuple_entry t i) t ctx =
    Some (Inr (case find (\<lambda>x. vis ctx (version_of (tb_heap t) (tuple_entry t i) (tb_row t i) x)) (tuple_chain t i)
      of None \<Rightarrow> Null | Some x \<Rightarrow> x))"
proof -
  have "lseg (tb_heap t) (of_nat i) (tuple_entry t i) (ve_first (tuple_entry t i)) (tuple_chain t i) Null"
    using ok i by (simp add: vt_ok_def chain_def)
  then show ?thesis using b by (simp add: get_latest_chain_element_def latest_loop_lseg)
qed

lemma find_map: "find P (map f xs) = map_option f (find (P \<circ> f) xs)"
  by (induction xs) auto

lemma update_branch_Inr:
  fixes t :: "'v Table"
  assumes ok: "vt_ok t" and i: "i < tb_rows t" and b: "ctx_branchId ctx \<noteq> master_branch_id"
      "unat (ctx_branchId ctx) < unat (1 + Database_getLargestBranchId db)"
    and len: "length tuple = length (tb_columns t)"
    and seen: "find (vis ctx) (tuple_history t i) \<noteq> None"
  shows "\<exists>t'. update_tuple (of_nat i) tuple db t ctx = Some (None, t') \<and> vt_ok t' \<and> tb_rows t' = tb_rows t
    \<and> (\<forall>j < tb_rows t. tuple_history t' j = (if j = i
         then (ctx_branchId ctx, Database_getLargestBranchId db, map Some tuple) # tuple_history t i
         else tuple_history t j))
    \<and> (\<forall>j < tb_rows t. tb_row t' j = tb_row t j)
    \<and> tb_branchBitmap t' = tb_branchBitmap t \<and> map fst (tb_columns t') = map fst (tb_columns t)"
proof -
  let ?b = "ctx_branchId ctx" and ?l = "Database_getLargestBranchId db" and ?a = "tb_brk t"
    and ?ve = "tuple_entry t i" and ?xs = "tuple_chain t i"
  let ?P = "\<lambda>x. vis ctx (version_of (tb_heap t) ?ve (tb_row t i) x)"
  have c: "chain (tb_heap t) (of_nat i) ?ve ?xs" using ok i by (simp add: vt_ok_def)
  from seen obtain pred where pred: "find ?P ?xs = Some pred"
    by (auto simp: tuple_history_def find_map comp_def)
  then have "pred \<in> set ?xs" by (auto simp: find_Some_iff)
  with c lseg_heap(3) have "pred \<noteq> Null" by (metis chain_def)
  define visibility where "visibility = (if length (ve_branch_visibility ?ve) < unat (1 + ?l)
      then bitset_resize (unat (1 + ?l)) (ve_branch_visibility ?ve) else ve_branch_visibility ?ve)"
  have "unat ?b < length visibility" using b(2) by (auto simp: visibility_def bitset_resize_def)
  then have bits: "bitset_set visibility (unat ?b) = Inr (visibility[unat ?b := True])"
    by (simp add: bitset_set_def)
  define s where "s = \<lparr>vs_next = ve_first ?ve, vs_next_in_branch = pred, vs_branch_id = ?b,
      vs_creation_ts = ?l, vs_data = map Some tuple\<rparr>"
  define ve' where "ve' = ?ve\<lparr>ve_branch_visibility := visibility[unat ?b := True],
      ve_prev := (if ve_first ?ve = Entry (of_nat i) then Storage ?a else ve_prev ?ve), ve_first := Storage ?a\<rparr>"
  define t' where "t' = t\<lparr>tb_heap := (tb_heap t)(?a \<mapsto> s), tb_brk := Suc ?a,
      tb_version_mgmt_column := (tb_version_mgmt_column t)[i := ve']\<rparr>"
  have run: "update_tuple (of_nat i) tuple db t ctx = Some (None, t')"
    using b(1) \<open>pred \<noteq> Null\<close> bits
    by (simp add: update_tuple_def update_tuple_branch_def latest_element [OF ok i b(1)] pred Let_def
        get_version_entry_Inr [OF ok i] put_version_entry_eq [OF ok i] create_chain_element_def
        visibility_def [symmetric] s_def [symmetric] ve'_def [symmetric] t'_def)
  have ent: "tuple_entry t' j = (if j = i then ve' else tuple_entry t j)" if "j < tb_rows t" for j
    using that by (simp add: tuple_entry_def t'_def tb_rows_def)
  have row: "tb_row t' j = tb_row t j" for j by (simp add: tb_row_def t'_def)
  have ch: "chain (tb_heap t') (of_nat i) ve' (Storage ?a # ?xs)"
    unfolding t'_def
    by (simp, rule chain_push [OF c fresh_brk [OF ok]]) (simp_all add: s_def ve'_def)
  have res: "vt_ok t' \<and> tuple_chain t' i = Storage ?a # ?xs
    \<and> (\<forall>j < tb_rows t. j \<noteq> i \<longrightarrow> tuple_history t' j = tuple_history t j)"
  proof (rule update_result [OF ok i])
    show "chain (tb_heap t') (of_nat i) (tuple_entry t' i) (Storage ?a # ?xs)"
      using ch by (simp add: ent [OF i])
    show "a < tb_brk t' \<and> length (vs_data u) = length (tb_columns t)" if "tb_heap t' a = Some u" for a u
      using that ok len by (auto simp: t'_def s_def vt_ok_def less_Suc_eq split: if_splits)
  qed (use ok ent in \<open>auto simp: t'_def cells_ok_def tb_ok_cells tb_rows_def vt_ok_def row storages_def
      tb_row_def\<close>)
  have "map (version_of (tb_heap t') ve' (tb_row t' i)) ?xs = map (version_of (tb_heap t) ?ve (tb_row t i)) ?xs"
    using storages_heap(2) [OF ok i] by (auto simp: version_of_def t'_def row ve'_def storages_def tb_row_def
        split: element.splits)
  with res have "tuple_history t' i = (?b, ?l, map Some tuple) # tuple_history t i"
    by (simp add: tuple_history_def ent [OF i]) (simp add: t'_def s_def)
  with res run row show ?thesis
    by (intro exI [of _ t'] conjI) (auto simp: t'_def tb_rows_def)
qed

lemma update_master_Inr:
  fixes t :: "'v Table"
  assumes ok: "vt_ok t" and i: "i < tb_rows t" and b: "ctx_branchId ctx = master_branch_id"
    and len: "length tuple = length (tb_columns t)" and loads: "row_loads t = Inr ()"
  shows "\<exists>t'. update_tuple (of_nat i) tuple db t ctx = Some (None, t') \<and> vt_ok t' \<and> tb_rows t' = tb_rows t
    \<and> (\<forall>j < tb_rows t. tuple_history t' j = (if j = i
         then (master_branch_id, Database_getLargestBranchId db, map Some tuple) # tuple_history t i
         else tuple_history t j))
    \<and> (\<forall>j < tb_rows t. tb_row t' j = (if j = i then map Some tuple else tb_row t j))
    \<and> tb_branchBitmap t' = tb_branchBitmap t \<and> map fst (tb_columns t') = map fst (tb_columns t)"
proof -
  let ?l = "Database_getLargestBranchId db" and ?a = "tb_brk t" and ?ve = "tuple_entry t i"
    and ?xs = "tuple_chain t i" and ?tid = "of_nat i :: tid_t"
  have bounds: "unat ?tid = i" "unat ?tid < tb_rows t" and mark: "\<not> is_marked_as_dangling_tid ?tid"
    using ok i tid_facts [of i] by (auto simp: vt_ok_def)
  have cells: "cells_ok (tb_rows t) t" using ok by (simp add: vt_ok_def tb_ok_cells)
  have c: "chain (tb_heap t) ?tid ?ve ?xs" using ok i by (simp add: vt_ok_def)
  obtain pre post where xs: "?xs = pre @ Entry ?tid # post" "Entry ?tid \<notin> set pre" using c by (rule chain_split)
  obtain p q where pq: "ve_first ?ve \<noteq> Entry ?tid \<longrightarrow> ve_prev ?ve = Storage p \<and> tb_heap t p = Some q
      \<and> Storage p \<in> set ?xs"
    using chain_prev [OF c] by blast
  define s where "s = \<lparr>vs_next = ve_next ?ve, vs_next_in_branch = ve_next_in_branch ?ve,
      vs_branch_id = ve_branch_id ?ve, vs_creation_ts = ve_creation_ts ?ve, vs_data = tb_row t i\<rparr>"
  define h where "h = (if ve_first ?ve = Entry ?tid then (tb_heap t)(?a \<mapsto> s)
        else (tb_heap t)(?a \<mapsto> s, p \<mapsto> q\<lparr>vs_next := Storage ?a\<rparr>))"
  define ve' where "ve' = ?ve\<lparr>
      ve_next := (if ve_first ?ve = Entry ?tid then Storage ?a else ve_first ?ve),
      ve_next_in_branch := Storage ?a, ve_first := Entry ?tid,
      ve_branch_id := master_branch_id, ve_creation_ts := ?l\<rparr>"
  define t1 where "t1 = t\<lparr>tb_heap := h, tb_brk := Suc ?a,
      tb_version_mgmt_column := (tb_version_mgmt_column t)[i := ve']\<rparr>"
  have pa: "ve_first ?ve \<noteq> Entry ?tid \<Longrightarrow> p \<noteq> ?a \<and> p \<in> storages ?xs"
    using pq fresh_brk [OF ok] by (auto simp: storages_def)
  have "cells_ok (tb_rows t) t1" using cells by (simp add: cells_ok_def t1_def)
  then have "\<exists>cols. store_values (\<lambda>col. Vector_at col (unat ?tid)) 0 tuple t1 = (None, t1\<lparr>tb_columns := cols\<rparr>)
    \<and> cells_ok (tb_rows t) (t1\<lparr>tb_columns := cols\<rparr>) \<and> map fst cols = map fst (tb_columns t1)
    \<and> (\<forall>j < tb_rows t. tb_row (t1\<lparr>tb_columns := cols\<rparr>) j = (if j = i then map Some tuple else tb_row t1 j))"
    by (rule store_row_Inr) (use bounds i len in \<open>simp_all add: Vector_at_def t1_def\<close>)
  then obtain cs where st: "update_master ?tid tuple t1 = (None, t1\<lparr>tb_columns := cs\<rparr>)"
    "cells_ok (tb_rows t) (t1\<lparr>tb_columns := cs\<rparr>)" "map fst cs = map fst (tb_columns t1)"
    "\<forall>j < tb_rows t. tb_row (t1\<lparr>tb_columns := cs\<rparr>) j = (if j = i then map Some tuple else tb_row t1 j)"
    unfolding update_master_def by blast
  define t' where "t' = t1\<lparr>tb_columns := cs\<rparr>"
  have run: "update_tuple ?tid tuple db t ctx = Some (None, t')"
  proof (cases "ve_first ?ve = Entry ?tid")
    case True
    then show ?thesis
      using b mark st(1)
      by (simp add: update_tuple_def update_tuple_master_def Let_def get_current_master_eq [OF cells bounds(2)] loads
          get_version_entry_Inr [OF ok i] put_version_entry_eq [OF ok i] create_chain_element_def bounds(1)
          s_def [symmetric] t1_def h_def ve'_def t'_def)
  next
    case False
    have comm: "t\<lparr>tb_brk := x, tb_heap := y\<rparr> = t\<lparr>tb_heap := y, tb_brk := x\<rparr>" for x y
      by simp
    from False show ?thesis
      using b mark st(1) pq pa
      by (simp add: comm update_tuple_def update_tuple_master_def Let_def get_current_master_eq [OF cells bounds(2)] loads
          get_version_entry_Inr [OF ok i] put_version_entry_eq [OF ok i] create_chain_element_def bounds(1)
          s_def [symmetric] t1_def h_def ve'_def t'_def)
  qed
  have ent: "tuple_entry t' j = (if j = i then ve' else tuple_entry t j)" if "j < tb_rows t" for j
    using that by (simp add: tuple_entry_def t'_def t1_def tb_rows_def)
  have row: "tb_row t' j = (if j = i then map Some tuple else tb_row t j)" if "j < tb_rows t" for j
    using st(4) that by (simp add: t'_def t1_def tb_row_def)
  have heap: "tb_heap t' = h" by (simp add: t'_def t1_def)
  have ch: "chain h ?tid ve' (Entry ?tid # pre @ Storage ?a # post)"
    by (rule chain_move [OF c xs(1) fresh_brk [OF ok], where s = s and p = p and q = q])
      (use pq in \<open>auto simp: s_def ve'_def h_def\<close>)
  have lcs: "length cs = length (tb_columns t)"
    using arg_cong [OF st(3), of length] by (simp add: t1_def)
  have rowlen: "length (tb_row t i) = length (tb_columns t)" by (simp add: tb_row_def)
  have res: "vt_ok t' \<and> tuple_chain t' i = Entry ?tid # pre @ Storage ?a # post
    \<and> (\<forall>j < tb_rows t. j \<noteq> i \<longrightarrow> tuple_history t' j = tuple_history t j)"
  proof (rule update_result [OF ok i])
    show "chain (tb_heap t') ?tid (tuple_entry t' i) (Entry ?tid # pre @ Storage ?a # post)"
      using ch by (simp add: ent [OF i] heap)
    show "a < tb_brk t' \<and> length (vs_data u) = length (tb_columns t)" if "tb_heap t' a = Some u" for a u
      using that ok rowlen pq
      by (auto simp: heap h_def t'_def t1_def s_def vt_ok_def less_Suc_eq split: if_splits)
    show "tb_heap t' a = tb_heap t a" if "a \<noteq> ?a" "a \<notin> storages ?xs" for a
      using that pa by (auto simp: heap h_def)
  qed (use ok ent st lcs row in
      \<open>auto simp: t'_def t1_def vt_ok_def storages_def xs(1) tb_rows_def\<close>)
  have old: "map (version_of h ve' (map Some tuple)) ys = map (version_of (tb_heap t) ?ve (tb_row t i)) ys"
    if "set ys \<subseteq> set ?xs" "Entry ?tid \<notin> set ys" for ys
  proof (rule map_cong [OF refl])
    fix x assume "x \<in> set ys"
    have seg: "lseg (tb_heap t) ?tid ?ve (ve_first ?ve) ?xs Null" using c by (simp add: chain_def)
    with \<open>x \<in> set ys\<close> that lseg_heap(2,3) obtain a where a: "x = Storage a"
      by (metis element.exhaust subsetD)
    with \<open>x \<in> set ys\<close> that storages_heap [OF ok i, of a] obtain u where "tb_heap t a = Some u" "a < ?a"
      by (auto simp: storages_def)
    with a pq show "version_of h ve' (map Some tuple) x = version_of (tb_heap t) ?ve (tb_row t i) x"
      by (auto simp: version_of_def h_def)
  qed
  have "distinct ?xs" using c by (simp add: chain_def)
  then have parts: "map (version_of h ve' (map Some tuple)) pre = map (version_of (tb_heap t) ?ve (tb_row t i)) pre"
    "map (version_of h ve' (map Some tuple)) post = map (version_of (tb_heap t) ?ve (tb_row t i)) post"
    using xs by (auto intro!: old simp del: map_eq_conv)
  have new: "version_of h ve' (map Some tuple) (Storage ?a) = version_of (tb_heap t) ?ve (tb_row t i) (Entry ?tid)"
    using pa by (auto simp: version_of_def h_def s_def)
  have "tuple_history t' i = (master_branch_id, ?l, map Some tuple) # tuple_history t i"
    using res ent [OF i] row [OF i] parts new
    by (simp add: tuple_history_def heap xs(1)) (simp add: ve'_def)
  with res run st(3) row show ?thesis
    by (intro exI [of _ t'] conjI) (auto simp: t'_def t1_def tb_rows_def)
qed

lemma update_master_Inl:
  fixes t :: "'v Table"
  assumes ok: "vt_ok t" and i: "i < tb_rows t" and b: "ctx_branchId ctx = master_branch_id"
    and loads: "row_loads t = Inl e"
  shows "update_tuple (of_nat i) tuple db t ctx = Some (Some e, t)"
proof -
  have "unat (of_nat i :: tid_t) < tb_rows t" "\<not> is_marked_as_dangling_tid (of_nat i)"
    using ok i tid_facts [of i] by (auto simp: vt_ok_def)
  moreover have "cells_ok (tb_rows t) t" using ok by (simp add: vt_ok_def tb_ok_cells)
  ultimately show ?thesis
    using b by (simp add: update_tuple_def update_tuple_master_def get_current_master_eq loads
        get_version_entry_Inr [OF ok i])
qed

text \<open>Removing a row from a branch clears one visibility bit.\<close>

lemma vt_ok_bitmap:
  assumes "vt_ok t" "bm_ok bb" "bm_rows bb = tb_rows t" "bm_availableCount bb = 8"
  shows "vt_ok (t\<lparr>tb_branchBitmap := bb\<rparr>)"
    and "tuple_history (t\<lparr>tb_branchBitmap := bb\<rparr>) i = tuple_history t i"
  using assms by (simp_all add: vt_ok_def tb_ok_def tb_rows_def tuple_chain_def tuple_entry_def
      tuple_history_def tb_row_def [abs_def] del: length_vec_cells walk.simps)

lemma delete_tuple_Inr:
  assumes ok: "vt_ok t" and i: "i < tb_rows t"
    and b: "unat (ctx_branchId ctx) < bm_columnCount (tb_branchBitmap t)"
  shows "\<exists>t'. delete_tuple (of_nat i) t ctx = Inr t' \<and> vt_ok t' \<and> tb_rows t' = tb_rows t
    \<and> (\<forall>j < tb_rows t. tuple_history t' j = tuple_history t j \<and> tb_row t' j = tb_row t j)
    \<and> (\<forall>j < tb_rows t. \<forall>c < 8. bm_bit (tb_branchBitmap t') j c =
         (if j = i \<and> c = unat (ctx_branchId ctx) then False else bm_bit (tb_branchBitmap t) j c))
    \<and> bm_columnCount (tb_branchBitmap t') = bm_columnCount (tb_branchBitmap t)
    \<and> map fst (tb_columns t') = map fst (tb_columns t)"
proof -
  from ok i have "bm_ok (tb_branchBitmap t)" "i < bm_rows (tb_branchBitmap t)"
    and rows: "bm_rows (tb_branchBitmap t) = tb_rows t" "bm_availableCount (tb_branchBitmap t) = 8"
    and tid: "unat (of_nat i :: tid_t) = i"
    using tid_facts [of i] by (auto simp: vt_ok_def tb_ok_def)
  from BitmapTable_set_Inr [OF this(1,2) b, of False] rows obtain bb where bb:
    "BitmapTable_set (tb_branchBitmap t) i (unat (ctx_branchId ctx)) False = Inr bb" "bm_ok bb"
    "bm_rows bb = tb_rows t" "bm_columnCount bb = bm_columnCount (tb_branchBitmap t)" "bm_availableCount bb = 8"
    "\<forall>j < tb_rows t. \<forall>c < 8. bm_bit bb j c =
       (if j = i \<and> c = unat (ctx_branchId ctx) then False else bm_bit (tb_branchBitmap t) j c)"
    by auto
  have "delete_tuple (of_nat i) t ctx = Inr (t\<lparr>tb_branchBitmap := bb\<rparr>)"
    using bb(1) by (simp add: delete_tuple_def Table_removeRowForBranch_def tid)
  with vt_ok_bitmap [OF ok bb(2,3,5)] bb show ?thesis
    by (intro exI [of _ "t\<lparr>tb_branchBitmap := bb\<rparr>"]) (auto simp: tb_rows_def tb_row_def)
qed

text \<open>A lookup finds the newest version that is visible to the branch.\<close>

lemma load_element_eq:
  assumes ok: "vt_ok t" and i: "i < tb_rows t" and x: "x \<in> set (tuple_chain t i)"
  shows "load_element (of_nat i) t x =
    bind_res (row_loads t) (\<lambda>_. Inr (snd (snd (version_of (tb_heap t) (tuple_entry t i) (tb_row t i) x))))"
proof -
  have c: "lseg (tb_heap t) (of_nat i) (tuple_entry t i) (ve_first (tuple_entry t i)) (tuple_chain t i) Null"
    using ok i by (simp add: vt_ok_def chain_def)
  have cells: "cells_ok (tb_rows t) t" and tid: "unat (of_nat i :: tid_t) = i"
    using ok i tid_facts [of i] by (auto simp: vt_ok_def tb_ok_cells)
  show ?thesis
  proof (cases x)
    case Null
    with x lseg_heap(3) [OF c] show ?thesis by metis
  next
    case (Entry t')
    with get_current_master_eq [OF cells, of "of_nat i"] tid i show ?thesis
      by (simp add: load_element_def version_of_def)
  next
    case (Storage a)
    with lseg_heap(1) [OF c] x obtain s where s: "tb_heap t a = Some s" by metis
    then have len: "length (vs_data s) = length (tb_columns t)" using ok by (auto simp: vt_ok_def)
    have "SqlTuple_load (vs_data s) t = mapM_res (\<lambda>i. bind_res (Value_load_check (Table_getTupleType t ! i))
        (\<lambda>_. Inr (vs_data s ! i))) [0 ..< length (Table_getTupleType t)]"
      unfolding SqlTuple_load_def by (rule mapM_res_cong) (simp add: Table_getTupleType_def len)
    also have "\<dots> = bind_res (row_loads t) (\<lambda>_. Inr (vs_data s))"
      using map_nth [of "vs_data s"] by (simp only: loads_guarded len)
    finally show ?thesis using Storage s by (simp add: load_element_def)
  qed
qed

lemma get_latest_tuple_branch:
  assumes ok: "vt_ok t" and i: "i < tb_rows t" and b: "ctx_branchId ctx \<noteq> master_branch_id"
  shows "get_latest_tuple (of_nat i) t ctx =
    Some (case find (vis ctx) (tuple_history t i) of
            None \<Rightarrow> Inl (RuntimeError ''no such tuple in the given branch'')
          | Some (_, _, r) \<Rightarrow> bind_res (row_loads t) (\<lambda>_. Inr r))"
proof (cases "find (\<lambda>x. vis ctx (version_of (tb_heap t) (tuple_entry t i) (tb_row t i) x)) (tuple_chain t i)")
  case None
  then show ?thesis
    using b by (simp add: get_latest_tuple_def get_version_entry_Inr [OF ok i] latest_element [OF ok i b]
        tuple_history_def find_map comp_def load_element_def)
next
  case (Some x)
  then have "x \<in> set (tuple_chain t i)" by (auto simp: find_Some_iff)
  with Some load_element_eq [OF ok i, of x] show ?thesis
    using b by (simp add: get_latest_tuple_def get_version_entry_Inr [OF ok i] latest_element [OF ok i b]
        tuple_history_def find_map comp_def split: prod.split)
qed

lemma get_latest_tuple_master:
  assumes ok: "vt_ok t" and i: "i < tb_rows t" and b: "ctx_branchId ctx = master_branch_id"
  shows "get_latest_tuple (of_nat i) t ctx = Some (bind_res (row_loads t) (\<lambda>_. Inr (tb_row t i)))"
proof -
  have "cells_ok (tb_rows t) t" "unat (of_nat i :: tid_t) = i"
    using ok i tid_facts [of i] by (auto simp: vt_ok_def tb_ok_cells)
  with get_current_master_eq [of "tb_rows t" t "of_nat i"] i b show ?thesis by (simp add: get_latest_tuple_def)
qed

end
