(* ===== verification/BranchLineage.thy ===== *)
theory BranchLineage
  imports VersionHistory
begin

text \<open>
  The branches as a tree: \<open>ancestors\<close> are the branches from one branch up to the master branch, and
  \<open>lineage_of\<close> the map a branch's lineage should be: every ancestor is mapped to the branch on the path
  that leaves it. The lemmas show that \<open>constructBranchLineage\<close> ends and computes these, and what a new
  branch does to them.
\<close>

definition branches_ok :: "(branch_id_t \<times> Branch) list \<Rightarrow> branch_id_t \<Rightarrow> bool" where
  "branches_ok brs n \<longleftrightarrow> 0 < n \<and> n < invalid_branch_id \<and> fst ` set brs = {..<n} \<and> length brs = unat n
     \<and> (\<forall>b < n. \<exists>br. map_of brs b = Some br \<and> (br_parent_id br = invalid_branch_id \<or> br_parent_id br < b))"

function ancestors :: "(branch_id_t \<times> Branch) list \<Rightarrow> branch_id_t \<Rightarrow> branch_id_t list" where
  "ancestors brs b = b # (case map_of brs b of
      Some br \<Rightarrow> if br_parent_id br < b then ancestors brs (br_parent_id br) else []
    | None \<Rightarrow> [])"
  by pat_completeness auto
termination
  by (relation "measure (\<lambda>(brs, b). unat b)") (auto simp: word_less_nat_alt)

declare ancestors.simps [simp del]

definition lineage_of :: "(branch_id_t \<times> Branch) list \<Rightarrow> branch_id_t \<Rightarrow> branch_id_t \<rightharpoonup> branch_id_t" where
  "lineage_of brs b = map_of (zip (tl (ancestors brs b)) (ancestors brs b))"

lemma ancestors_le: "a \<in> set (ancestors brs b) \<Longrightarrow> a \<le> b"
proof (induction brs b rule: ancestors.induct)
  case (1 brs b)
  show ?case
  proof (cases "a = b")
    case False
    with "1.prems" obtain br where br: "map_of brs b = Some br" "br_parent_id br < b"
        "a \<in> set (ancestors brs (br_parent_id br))"
      by (cases "map_of brs b") (auto simp: ancestors.simps [of brs b] split: if_splits)
    from "1.IH" [OF br] br(2) show ?thesis by simp
  qed simp
qed

lemma ancestors_hd [simp]: "hd (ancestors brs b) = b" "ancestors brs b \<noteq> []"
  by (subst ancestors.simps; simp)+

lemma ancestors_cons: "ancestors brs b = b # tl (ancestors brs b)"
  by (metis ancestors_hd list.collapse)

lemma ancestors_parent:
  "map_of brs b = Some br \<Longrightarrow> br_parent_id br < b \<Longrightarrow> ancestors brs b = b # ancestors brs (br_parent_id br)"
  by (subst ancestors.simps) simp

lemma ancestors_root:
  "map_of brs b = Some br \<Longrightarrow> br_parent_id br = invalid_branch_id \<Longrightarrow> ancestors brs b = [b]"
  by (subst ancestors.simps) (simp add: invalid_branch_id_def)

lemma distinct_ancestors: "distinct (ancestors brs b)"
proof (induction brs b rule: ancestors.induct)
  case (1 brs b)
  then show ?case
    by (subst ancestors.simps) (auto split: option.splits dest!: ancestors_le)
qed

lemma lineage_of_bound:
  assumes "lineage_of brs b a = Some off"
  shows "off \<le> b" "a \<le> b"
proof -
  from assms have "(a, off) \<in> set (zip (tl (ancestors brs b)) (ancestors brs b))"
    by (auto simp: lineage_of_def dest: map_of_SomeD)
  then show "off \<le> b" "a \<le> b"
    using ancestors_le by (metis set_zip_rightD, metis set_zip_leftD list.set_sel(2) ancestors_hd(2))
qed

lemma lineage_of_self: "lineage_of brs b b = None"
proof -
  have "b \<notin> set (tl (ancestors brs b))"
    using distinct_ancestors [of brs b] by (subst (asm) ancestors_cons) simp
  then show ?thesis by (auto simp: lineage_of_def map_of_eq_None_iff dest: set_zip_leftD)
qed

lemma ancestors_cong:
  assumes "\<And>a. a \<le> b \<Longrightarrow> map_of brs' a = map_of brs a"
  shows "ancestors brs' b = ancestors brs b"
  using assms
proof (induction brs b rule: ancestors.induct)
  case (1 brs b)
  show ?case
  proof (cases "map_of brs b")
    case (Some br)
    have "ancestors brs' (br_parent_id br) = ancestors brs (br_parent_id br)" if "br_parent_id br < b"
      by (rule "1.IH" [OF Some that]) (use that "1.prems" in auto)
    with Some "1.prems" [of b] show ?thesis
      by (simp add: ancestors.simps [of brs' b] ancestors.simps [of brs b])
  qed (use "1.prems" [of b] in \<open>simp add: ancestors.simps [of brs' b] ancestors.simps [of brs b]\<close>)
qed

text \<open>A new branch: its lineage is that of its parent, with the parent mapped to the new branch.\<close>

lemma new_branch:
  assumes ok: "branches_ok brs n" and p: "br_parent_id br < n" and n: "n + 1 < invalid_branch_id"
  shows "branches_ok (brs @ [(n, br)]) (n + 1)"
    and "b < n \<Longrightarrow> lineage_of (brs @ [(n, br)]) b = lineage_of brs b"
    and "lineage_of (brs @ [(n, br)]) n = (lineage_of brs (br_parent_id br))(br_parent_id br \<mapsto> n)"
proof -
  have new: "map_of brs n = None" using ok by (auto simp: branches_ok_def map_of_eq_None_iff)
  have old: "map_of (brs @ [(n, br)]) a = map_of brs a" if "a < n" for a
    using that ok by (auto simp: branches_ok_def map_add_def split: option.splits)
  have anc: "ancestors (brs @ [(n, br)]) a = ancestors brs a" if "a < n" for a
    by (rule ancestors_cong) (use that old in auto)
  then show "b < n \<Longrightarrow> lineage_of (brs @ [(n, br)]) b = lineage_of brs b"
    by (simp add: lineage_of_def)
  have "map_of (brs @ [(n, br)]) n = Some br" using new by (simp add: map_add_def)
  then have "ancestors (brs @ [(n, br)]) n = n # ancestors brs (br_parent_id br)"
    using ancestors_parent p anc by metis
  then show "lineage_of (brs @ [(n, br)]) n = (lineage_of brs (br_parent_id br))(br_parent_id br \<mapsto> n)"
    by (simp add: lineage_of_def) (subst ancestors_cons, simp)
  have less: "a < n + 1 \<longleftrightarrow> a < n \<or> a = n" for a
  proof -
    have "n + 1 \<noteq> 0" using ok by (auto simp: branches_ok_def invalid_branch_id_def eq_neg_iff_add_eq_0 [symmetric])
    from word_less_minus_one_iff [OF this, of a] show ?thesis by (auto simp: le_less)
  qed
  show "branches_ok (brs @ [(n, br)]) (n + 1)"
    unfolding branches_ok_def
  proof (intro conjI allI impI)
    show "0 < n + 1" using less [of n] by (meson le_less_trans word_zero_le)
    show "fst ` set (brs @ [(n, br)]) = {..<n + 1}"
      using ok less by (auto simp: branches_ok_def)
    show "length (brs @ [(n, br)]) = unat (n + 1)"
    proof -
      have "1 + n \<noteq> 0" using less [of n] by (metis add.commute word_not_simps(1))
      then show ?thesis using unatSuc [of n] ok by (simp add: branches_ok_def add.commute)
    qed
    show "\<exists>br'. map_of (brs @ [(n, br)]) b = Some br' \<and>
        (br_parent_id br' = invalid_branch_id \<or> br_parent_id br' < b)" if "b < n + 1" for b
      using that less [of b] old [of b] ok p \<open>map_of (brs @ [(n, br)]) n = Some br\<close>
      by (auto simp: branches_ok_def map_add_def)
  qed (rule n)
qed

section \<open>The loop that computes a lineage\<close>

lemma bitset_set_Inr: "i < length bits \<Longrightarrow> bitset_set bits i = Inr (bits[i := True])"
  by (simp add: bitset_set_def)

lemma zip_ancestors:
  "zip (tl (b # xs)) (b # xs) = (case xs of [] \<Rightarrow> [] | p # _ \<Rightarrow> (p, b) # zip (tl xs) xs)"
  by (cases xs) auto

lemma lineage_loop_ends:
  assumes "branches_ok brs n" "cur < n" "length (ctx_branch_lineage_bitset ctx) = unat n"
    and "\<forall>a \<in> set (tl (ancestors brs cur)). ctx_branch_lineage ctx a = None"
    and "\<exists>m. ctx_branch_lineages ctx branch = Some m \<and> (\<forall>a \<in> set (tl (ancestors brs cur)). m a = None)"
  shows "\<exists>ctx'. lineage_loop brs branch cur ctx = Some (Inr ctx')
    \<and> ctx_branch_lineage ctx' = ctx_branch_lineage ctx ++ lineage_of brs cur
    \<and> ctx_branch_lineages ctx' branch =
         map_option (\<lambda>m. m ++ lineage_of brs cur) (ctx_branch_lineages ctx branch)
    \<and> (\<forall>b. b \<noteq> branch \<longrightarrow> ctx_branch_lineages ctx' b = ctx_branch_lineages ctx b)
    \<and> ctx_branchId ctx' = ctx_branchId ctx
    \<and> length (ctx_branch_lineage_bitset ctx') = unat n
    \<and> (\<forall>a < n. ctx_branch_lineage_bitset ctx' ! unat a =
         (ctx_branch_lineage_bitset ctx ! unat a \<or> a \<in> set (ancestors brs cur)))"
  using assms
proof (induction brs cur arbitrary: ctx rule: ancestors.induct)
  case (1 brs cur)
  let ?bits = "(ctx_branch_lineage_bitset ctx)[unat cur := True]"
  let ?ctx1 = "ctx\<lparr>ctx_branch_lineage_bitset := ?bits\<rparr>"
  from "1.prems"(1,2) obtain br where br: "map_of brs cur = Some br"
    "br_parent_id br = invalid_branch_id \<or> br_parent_id br < cur"
    by (auto simp: branches_ok_def)
  have set: "bitset_set (ctx_branch_lineage_bitset ctx) (unat cur) = Inr ?bits"
    using "1.prems"(2,3) by (simp add: bitset_set_def word_less_nat_alt)
  have bit: "?bits ! unat a = (ctx_branch_lineage_bitset ctx ! unat a \<or> a = cur)" if "a < n" for a
    using that "1.prems"(2,3) by (auto simp: nth_list_update word_less_nat_alt word_unat_eq_iff)
  show ?case
  proof (cases "br_parent_id br = invalid_branch_id")
    case True
    have anc: "ancestors brs cur = [cur]" by (rule ancestors_root [OF br(1) True])
    have "lineage_loop brs branch cur ctx = Some (Inr ?ctx1)"
      by (subst lineage_loop.simps) (simp add: set br(1) True Let_def)
    moreover have "lineage_of brs cur = Map.empty" by (simp add: lineage_of_def anc)
    ultimately show ?thesis
      using bit "1.prems"(3) by (auto simp: anc option.map_ident)
  next
    case False
    let ?p = "br_parent_id br"
    from False br have p: "?p < cur" by simp
    have anc: "ancestors brs cur = cur # ancestors brs ?p" by (rule ancestors_parent [OF br(1) p])
    have lin: "lineage_of brs cur = (lineage_of brs ?p)(?p \<mapsto> cur)"
      by (simp add: lineage_of_def anc) (subst ancestors_cons, simp)
    from "1.prems"(5) obtain m where m: "ctx_branch_lineages ctx branch = Some m"
      "\<forall>a \<in> set (ancestors brs ?p). m a = None" by (auto simp: anc)
    have notin: "?p \<notin> set (tl (ancestors brs ?p))"
      using distinct_ancestors [of brs ?p] by (subst (asm) ancestors_cons) simp
    have pin: "?p \<in> set (ancestors brs ?p)" by (subst ancestors_cons) simp
    have tl: "set (tl (ancestors brs ?p)) \<subseteq> set (ancestors brs ?p)"
      by (metis ancestors_hd(2) list.set_sel(2) subsetI)
    from "1.prems"(4) have none: "\<forall>a \<in> set (ancestors brs ?p). ctx_branch_lineage ctx a = None"
      by (simp add: anc)
    define ctx2 where "ctx2 = ?ctx1\<lparr>ctx_branch_lineages := (ctx_branch_lineages ctx)(branch \<mapsto> m(?p \<mapsto> cur)),
        ctx_branch_lineage := (ctx_branch_lineage ctx)(?p \<mapsto> cur)\<rparr>"
    have step: "lineage_loop brs branch cur ctx = lineage_loop brs branch ?p ctx2"
      using m none pin
      by (subst lineage_loop.simps) (simp add: set br(1) False Let_def map_insert_def ctx2_def)
    have "\<exists>ctx'. lineage_loop brs branch ?p ctx2 = Some (Inr ctx')
      \<and> ctx_branch_lineage ctx' = ctx_branch_lineage ctx2 ++ lineage_of brs ?p
      \<and> ctx_branch_lineages ctx' branch =
           map_option (\<lambda>m. m ++ lineage_of brs ?p) (ctx_branch_lineages ctx2 branch)
      \<and> (\<forall>b. b \<noteq> branch \<longrightarrow> ctx_branch_lineages ctx' b = ctx_branch_lineages ctx2 b)
      \<and> ctx_branchId ctx' = ctx_branchId ctx2
      \<and> length (ctx_branch_lineage_bitset ctx') = unat n
      \<and> (\<forall>a < n. ctx_branch_lineage_bitset ctx' ! unat a =
           (ctx_branch_lineage_bitset ctx2 ! unat a \<or> a \<in> set (ancestors brs ?p)))"
    proof (rule "1.IH" [OF br(1) p "1.prems"(1)])
      show "?p < n" using p "1.prems"(2) by simp
      show "length (ctx_branch_lineage_bitset ctx2) = unat n" using "1.prems"(3) by (simp add: ctx2_def)
    qed (use none m notin tl in \<open>auto simp: ctx2_def\<close>)
    then obtain ctx' where ctx': "lineage_loop brs branch ?p ctx2 = Some (Inr ctx')"
      "ctx_branch_lineage ctx' = ctx_branch_lineage ctx2 ++ lineage_of brs ?p"
      "ctx_branch_lineages ctx' branch =
           map_option (\<lambda>m. m ++ lineage_of brs ?p) (ctx_branch_lineages ctx2 branch)"
      "\<forall>b. b \<noteq> branch \<longrightarrow> ctx_branch_lineages ctx' b = ctx_branch_lineages ctx2 b"
      "ctx_branchId ctx' = ctx_branchId ctx2" "length (ctx_branch_lineage_bitset ctx') = unat n"
      "\<forall>a < n. ctx_branch_lineage_bitset ctx' ! unat a =
           (ctx_branch_lineage_bitset ctx2 ! unat a \<or> a \<in> set (ancestors brs ?p))"
      by blast
    have move: "f(?p \<mapsto> cur) ++ lineage_of brs ?p = f ++ lineage_of brs cur" for f
      using lineage_of_self [of brs ?p] by (auto simp: lin map_add_def fun_eq_iff split: option.splits)
    show ?thesis
      using step ctx' m(1) move bit
      by (intro exI [of _ ctx']) (auto simp: ctx2_def anc)
  qed
qed

lemma constructBranchLineage_Inr:
  assumes "branches_ok (db_branches db) (db_next_branch_id db)" "b < db_next_branch_id db"
    and fresh: "ctx_branch_lineages ctx b = None"
  shows "\<exists>ctx'. constructBranchLineage db b ctx = Some (Inr ctx')
    \<and> ctx_branch_lineage ctx' = lineage_of (db_branches db) b
    \<and> ctx_branch_lineages ctx' b = Some (lineage_of (db_branches db) b)
    \<and> (\<forall>b'. b' \<noteq> b \<longrightarrow> ctx_branch_lineages ctx' b' = ctx_branch_lineages ctx b')
    \<and> (\<forall>a < db_next_branch_id db. ctx_branch_lineage_bitset ctx' ! unat a
         \<longleftrightarrow> a \<in> set (ancestors (db_branches db) b))"
proof -
  define ctx0 where "ctx0 = ctx\<lparr>ctx_branch_lineages := (ctx_branch_lineages ctx)(b \<mapsto> Map.empty),
      ctx_branch_lineage := Map.empty,
      ctx_branch_lineage_bitset := replicate (unat (db_next_branch_id db)) False\<rparr>"
  have "b \<noteq> invalid_branch_id" using assms(1,2) by (auto simp: branches_ok_def)
  then have "constructBranchLineage db b ctx = lineage_loop (db_branches db) b b ctx0"
    by (simp add: constructBranchLineage_def fresh ctx0_def bitset_resize_def)
  moreover have "\<forall>a < db_next_branch_id db. \<not> ctx_branch_lineage_bitset ctx0 ! unat a"
    by (simp add: ctx0_def word_less_nat_alt)
  moreover obtain ctx' where "lineage_loop (db_branches db) b b ctx0 = Some (Inr ctx')"
    "ctx_branch_lineage ctx' = ctx_branch_lineage ctx0 ++ lineage_of (db_branches db) b"
    "ctx_branch_lineages ctx' b =
         map_option (\<lambda>m. m ++ lineage_of (db_branches db) b) (ctx_branch_lineages ctx0 b)"
    "\<forall>b'. b' \<noteq> b \<longrightarrow> ctx_branch_lineages ctx' b' = ctx_branch_lineages ctx0 b'"
    "\<forall>a < db_next_branch_id db. ctx_branch_lineage_bitset ctx' ! unat a =
         (ctx_branch_lineage_bitset ctx0 ! unat a \<or> a \<in> set (ancestors (db_branches db) b))"
    using lineage_loop_ends [OF assms(1,2), of ctx0 b] by (auto simp: ctx0_def)
  ultimately show ?thesis by (intro exI [of _ ctx']) (auto simp: ctx0_def)
qed

end
