(* ===== verification/TableScan.thy ===== *)
theory TableScan
  imports BranchLineage
begin

text \<open>
  The scan of a table in one branch, algebra/physical/TableScan.cpp. The operator emits code; the
  definitions are what the emitted loop does to the execution context and which values it hands to
  its parent, one row per visible tuple: for each row it tests the branch bitmap, asks
  \<^verbatim>\<open>get_latest_entry\<close> for the storage of the newest visible version unless the branch is the master
  branch, and reads each required column from that storage, or from the column when there is none. The
  value of a nullable column comes with the indicator read from the table of null indicators; the
  required column \<^verbatim>\<open>tid\<close> is the loop index.
\<close>

definition column_index :: "'v Table \<Rightarrow> string \<Rightarrow> nat" where
  "column_index table columnName =
     (case find (\<lambda>i. Table_getColumnNames table ! i = columnName) [0 ..< Table_getColumnCount table] of
        Some i \<Rightarrow> i | None \<Rightarrow> 0)"

record TableScan =
  ts_required :: "string list"
  ts_columns :: "(string \<times> nat) list"

definition TableScan_ctor :: "'v Table \<Rightarrow> string list \<Rightarrow> TableScan" where
  \<comment> \<open>the required columns; each but the tid with its index in the table\<close>
  "TableScan_ctor table required = \<lparr>ts_required = required,
     ts_columns = map (\<lambda>columnName. (columnName, column_index table columnName)) (filter (\<lambda>c. c \<noteq> ''tid'') required)\<rparr>"

datatype 'v field = TidField tid_t | ValueField "'v option" | NullableField bool "'v option"

definition getMasterElem :: "'v Table \<Rightarrow> tid_t \<Rightarrow> string \<Rightarrow> 'v option result" where
  "getMasterElem table tid columnName =
     bind_res (Table_getColumnByName table columnName) (\<lambda>column. vec_load column (unat tid))"

text \<open>
  An element of a storage is read through the struct of the table's types, while \<^verbatim>\<open>SqlTuple::store\<close> wrote
  the storage through the struct of the types of the values, which are never nullable. The two structs
  agree up to the first column whose type is nullable; what is read after it depends on the data layout
  and is \<open>MemFault\<close> here. No statement creates a nullable column (\<^verbatim>\<open>CreateTableAnalyser\<close> rejects it).
\<close>

definition getBranchElem :: "'v Table \<Rightarrow> tid_t \<Rightarrow> nat option \<Rightarrow> string \<times> nat \<Rightarrow> 'v option result" where
  "getBranchElem table tid resultPtr column =
     (case resultPtr of
        Some a \<Rightarrow> (case tb_heap table a of
                     None \<Rightarrow> Inl MemFault
                   | Some s \<Rightarrow>
                       if snd column < length (vs_data s)
                          \<and> \<not> list_ex ty_nullable (take (snd column) (Table_getTupleType table))
                       then Inr (vs_data s ! snd column) else Inl MemFault)
      | None \<Rightarrow> getMasterElem table tid (fst column))"

definition load_field :: "'v Table \<Rightarrow> tid_t \<Rightarrow> string \<Rightarrow> 'v option \<Rightarrow> 'v field result" where
  \<comment> \<open>the null indicator is read under the tid, also for a row of another branch\<close>
  "load_field table tid columnName elem =
     bind_res (Table_getCI table columnName) (\<lambda>ci.
       if ty_nullable (ci_type ci)
       then (case ci_nullColumnIndex ci of
               None \<Rightarrow> Inl AssertFailed
             | Some k \<Rightarrow> bind_res (genNullIndicatorLoad (tb_nullIndicatorTable table) (unat tid) (of_nat k))
                           (\<lambda>isNull. Inr (NullableField isNull elem)))
       else Inr (ValueField elem))"

fun produce_fields :: "'v Table \<Rightarrow> tid_t \<Rightarrow> (string \<times> nat \<Rightarrow> 'v option result) \<Rightarrow> string list \<Rightarrow>
    (string \<times> nat) list \<Rightarrow> 'v field list result" where
  \<comment> \<open>the loop over the required units; \<^verbatim>\<open>i\<close> runs through the columns\<close>
  "produce_fields table tid elem [] columns = Inr []"
| "produce_fields table tid elem (iu # required) columns =
     (if iu = ''tid''
      then bind_res (produce_fields table tid elem required columns) (\<lambda>fs. Inr (TidField tid # fs))
      else (case columns of
              [] \<Rightarrow> Inl MemFault
            | column # columns' \<Rightarrow>
                bind_res (elem column) (\<lambda>v. bind_res (load_field table tid (fst column) v)
                  (\<lambda>f. bind_res (produce_fields table tid elem required columns') (\<lambda>fs. Inr (f # fs))))))"

definition TableScan_produce_tuple :: "'v Table \<Rightarrow> TableScan \<Rightarrow> branch_id_t \<Rightarrow> tid_t \<Rightarrow>
    ExecutionContext \<Rightarrow> 'v field list comp \<times> ExecutionContext" where
  "TableScan_produce_tuple table scan branchId tid ctx =
     (let fields = (\<lambda>elem. produce_fields table tid elem (ts_required scan) (ts_columns scan))
      in if branchId \<noteq> master_branch_id
         then let (resultPtr, ctx') = get_latest_entry tid table branchId ctx
              in (bind_comp resultPtr (\<lambda>p. Some (fields (getBranchElem table tid p))), ctx')
         else (Some (fields (getMasterElem table tid \<circ> fst)), ctx))"

fun TableScan_loop :: "'v Table \<Rightarrow> TableScan \<Rightarrow> branch_id_t \<Rightarrow> nat list \<Rightarrow> ExecutionContext \<Rightarrow>
    (nat \<times> 'v field list) list comp \<times> ExecutionContext" where
  "TableScan_loop table columns branchId [] ctx = (Some (Inr []), ctx)"
| "TableScan_loop table columns branchId (tid # tids) ctx =
     (case isVisibleInBranch (tb_branchBitmap table) tid branchId of
        Inl e \<Rightarrow> (Some (Inl e), ctx)
      | Inr False \<Rightarrow> TableScan_loop table columns branchId tids ctx
      | Inr True \<Rightarrow>
          (case TableScan_produce_tuple table columns branchId (of_nat tid) ctx of
             (None, ctx') \<Rightarrow> (None, ctx')
           | (Some (Inl e), ctx') \<Rightarrow> (Some (Inl e), ctx')
           | (Some (Inr r), ctx') \<Rightarrow>
               let (rest, ctx'') = TableScan_loop table columns branchId tids ctx'
               in (bind_comp rest (\<lambda>rs. Some (Inr ((tid, r) # rs))), ctx'')))"

definition TableScan_produce :: "'v Table \<Rightarrow> TableScan \<Rightarrow> branch_id_t \<Rightarrow> ExecutionContext \<Rightarrow>
    (nat \<times> 'v field list) list comp \<times> ExecutionContext" where
  "TableScan_produce table columns branchId ctx =
     (let tableSize = Table_size table
      in if tableSize < 1 then (Some (Inr []), ctx)
         else TableScan_loop table columns branchId [0 ..< tableSize] ctx)"

section \<open>What a scan produces\<close>

definition ctx_serves :: "(branch_id_t \<times> Branch) list \<Rightarrow> branch_id_t \<Rightarrow> ExecutionContext \<Rightarrow> bool" where
  \<comment> \<open>the lineage of the branch has been constructed\<close>
  "ctx_serves brs b ctx = (ctx_branch_lineages ctx b = Some (lineage_of brs b))"

definition seen_by :: "(branch_id_t \<rightharpoonup> branch_id_t) \<Rightarrow> branch_id_t \<Rightarrow> 'v version \<Rightarrow> bool" where
  "seen_by lin b v = (fst v = b \<or> (case lin (fst v) of Some off \<Rightarrow> fst (snd v) < off | None \<Rightarrow> False))"

lemma vis_seen_by: "vis ctx v = seen_by (ctx_branch_lineage ctx) (ctx_branchId ctx) v"
  by (auto simp: vis_def is_visible_def seen_by_def split: option.splits)

lemma column_index_nth:
  assumes "tb_ok t" "j < length (tb_columns t)" "distinct (map (ci_columnName \<circ> fst) (tb_columns t))"
  shows "column_index t (ci_columnName (fst (tb_columns t ! j))) = j"
proof -
  let ?names = "map (ci_columnName \<circ> fst) (tb_columns t)"
  have "find (\<lambda>i. ?names ! i = ci_columnName (fst (tb_columns t ! j))) [0 ..< length ?names] = Some j"
    using assms(2) distinct_conv_nth [THEN iffD1, OF assms(3)]
    by (subst find_Some_iff) (intro exI [of _ j], auto simp: nth_append)
  then show ?thesis
    using assms(1) by (simp add: column_index_def Table_getColumnNames_eq Table_getColumnCount_def)
qed

lemma getColumnByName_nth:
  assumes "tb_ok t" "j < length (tb_columns t)" "distinct (map (ci_columnName \<circ> fst) (tb_columns t))"
  shows "Table_getColumnByName t (ci_columnName (fst (tb_columns t ! j))) = Inr (snd (tb_columns t ! j))"
proof -
  let ?names = "map (ci_columnName \<circ> fst) (tb_columns t)"
  have "map_of (tb_columnsByName t) (?names ! j) = Some ([0 ..< length (tb_columns t)] ! j)"
    using assms by (simp only: tb_ok_def) (rule map_of_zip_nth, auto)
  then show ?thesis using assms(2) by (simp add: Table_getColumnByName_def)
qed

lemma getMasterElem_nth:
  assumes "tb_ok t" "j < length (tb_columns t)" "distinct (map (ci_columnName \<circ> fst) (tb_columns t))"
    and "i < tb_rows t" "i < 2 ^ 63"
  shows "getMasterElem t (of_nat i) (ci_columnName (fst (tb_columns t ! j))) = Inr (tb_row t i ! j)"
proof -
  from assms(1,2) have "vec_ok (snd (tb_columns t ! j))" "vec_elementCount (snd (tb_columns t ! j)) = tb_rows t"
    using cells_ok_columns tb_ok_cells by blast+
  with assms show ?thesis
    by (simp add: getMasterElem_def getColumnByName_nth tid_facts(1) vec.load_spec tb_row_def)
qed

lemma get_latest_entry_Inr:
  assumes ok: "vt_ok t" and i: "i < tb_rows t" and b: "b \<noteq> master_branch_id"
    and ctx: "ctx_serves brs b ctx" and v: "find (seen_by (lineage_of brs b) b) (tuple_history t i) = Some v"
  shows "\<exists>p ctx'. get_latest_entry (of_nat i) t b ctx = (Some (Inr p), ctx') \<and> ctx_serves brs b ctx'
    \<and> (case p of None \<Rightarrow> snd (snd v) = tb_row t i
        | Some a \<Rightarrow> \<exists>s. tb_heap t a = Some s \<and> vs_data s = snd (snd v))"
proof -
  define ctx' where "ctx' = ctx\<lparr>ctx_branchId := b,
      ctx_branch_lineages := (ctx_branch_lineages ctx)(b \<mapsto> lineage_of brs b),
      ctx_branch_lineage := lineage_of brs b\<rparr>"
  have b': "ctx_branchId ctx' \<noteq> master_branch_id" and "vis ctx' = (seen_by (lineage_of brs b) b :: 'a version \<Rightarrow> bool)"
    using b by (auto simp: ctx'_def vis_seen_by [abs_def])
  with v obtain x where x: "find (\<lambda>x. vis ctx' (version_of (tb_heap t) (tuple_entry t i) (tb_row t i) x))
      (tuple_chain t i) = Some x" "version_of (tb_heap t) (tuple_entry t i) (tb_row t i) x = v"
    by (auto simp: tuple_history_def find_map comp_def)
  then have mem: "x \<in> set (tuple_chain t i)" by (auto simp: find_Some_iff)
  have c: "lseg (tb_heap t) (of_nat i) (tuple_entry t i) (ve_first (tuple_entry t i)) (tuple_chain t i) Null"
    using ok i by (simp add: vt_ok_def chain_def)
  have run: "get_latest_entry (of_nat i) t b ctx = (case x of
      Null \<Rightarrow> Some (Inl (RuntimeError ''no such tuple in the given branch''))
    | Entry _ \<Rightarrow> Some (Inr None) | Storage a \<Rightarrow> Some (Inr (Some a)), ctx')"
    using ctx b latest_element [OF ok i b'] x(1)
    by (simp add: get_latest_entry_def Let_def ctx_serves_def get_version_entry_Inr [OF ok i] ctx'_def)
  have serves: "ctx_serves brs b ctx'" by (simp add: ctx_serves_def ctx'_def)
  show ?thesis
  proof (cases x)
    case Null
    with mem lseg_heap(3) [OF c] show ?thesis by metis
  next
    case (Entry t')
    with run serves x(2) show ?thesis by (auto simp: version_of_def)
  next
    case (Storage a)
    with mem lseg_heap(1) [OF c] obtain s where "tb_heap t a = Some s" by metis
    with Storage run serves x(2) show ?thesis by auto
  qed
qed

text \<open>
  The rows of one scan: each required column of the newest visible version of each visible tuple.
\<close>

definition row_fields :: "'v Table \<Rightarrow> string list \<Rightarrow> nat \<Rightarrow> 'v row \<Rightarrow> 'v field list" where
  "row_fields t required i r =
     map (\<lambda>name. let j = column_index t name
                 in if name = ''tid'' then TidField (of_nat i)
                    else if ty_nullable (ci_type (fst (tb_columns t ! j))) then NullableField False (r ! j)
                    else ValueField (r ! j)) required"

definition plain_columns :: "'v Table \<Rightarrow> bool" where
  \<comment> \<open>no column is nullable: a storage is read with the layout it was written with\<close>
  "plain_columns t = list_all (\<lambda>type. \<not> ty_nullable type) (Table_getTupleType t)"

lemma plain_columns_take: "plain_columns t \<Longrightarrow> \<not> list_ex ty_nullable (take k (Table_getTupleType t))"
  by (auto simp: plain_columns_def list_all_iff list_ex_iff dest: in_set_takeD)

definition scan_ready :: "(branch_id_t \<times> Branch) list \<Rightarrow> 'v Table \<Rightarrow> branch_id_t \<Rightarrow> bool" where
  \<comment> \<open>every visible tuple has a version the branch sees; the master branch sees the row in the columns\<close>
  "scan_ready brs t b \<longleftrightarrow> plain_columns t \<and> (\<forall>i < tb_rows t. tb_visible t i b \<longrightarrow>
     (\<exists>v. find (seen_by (lineage_of brs b) b) (tuple_history t i) = Some v
       \<and> length (snd (snd v)) = length (tb_columns t)
       \<and> (b = master_branch_id \<longrightarrow> snd (snd v) = tb_row t i)))"

definition visible_row :: "(branch_id_t \<times> Branch) list \<Rightarrow> 'v Table \<Rightarrow> branch_id_t \<Rightarrow> nat \<Rightarrow> 'v row option" where
  "visible_row brs t b i =
     (if tb_visible t i b
      then map_option (snd \<circ> snd) (find (seen_by (lineage_of brs b) b) (tuple_history t i)) else None)"

lemma getCI_nth:
  assumes "tb_ok t" "j < length (tb_columns t)" "distinct (map (ci_columnName \<circ> fst) (tb_columns t))"
  shows "Table_getCI t (ci_columnName (fst (tb_columns t ! j))) = Inr (fst (tb_columns t ! j))"
proof -
  let ?names = "map (ci_columnName \<circ> fst) (tb_columns t)"
  have "map_of (tb_columnsByName t) (?names ! j) = Some ([0 ..< length (tb_columns t)] ! j)"
    using assms by (simp only: tb_ok_def) (rule map_of_zip_nth, auto)
  then show ?thesis using assms(2) by (simp add: Table_getCI_def)
qed

lemma load_field_nth:
  assumes "tb_ok t" "j < length (tb_columns t)" "distinct (map (ci_columnName \<circ> fst) (tb_columns t))"
    and i: "i < tb_rows t" "i < 2 ^ 63"
  shows "load_field t (of_nat i) (ci_columnName (fst (tb_columns t ! j))) v =
    Inr (if ty_nullable (ci_type (fst (tb_columns t ! j))) then NullableField False v else ValueField v)"
proof -
  let ?ci = "fst (tb_columns t ! j)" and ?nit = "tb_nullIndicatorTable t"
  have nit: "bm_ok ?nit" "i < bm_rows ?nit" "nulls_ok (map fst (tb_columns t)) ?nit"
    using assms(1) i(1) by (simp_all add: tb_ok_def)
  have "?ci \<in> set (map fst (tb_columns t))" using assms(2) by auto
  with nit(3) have ci: "case ci_nullColumnIndex ?ci of None \<Rightarrow> \<not> ty_nullable (ci_type ?ci)
      | Some k \<Rightarrow> ty_nullable (ci_type ?ci) \<and> k < bm_columnCount ?nit"
    unfolding nulls_ok_def by blast
  show ?thesis
  proof (cases "ci_nullColumnIndex ?ci")
    case None
    with ci show ?thesis by (simp add: load_field_def getCI_nth [OF assms(1-3)])
  next
    case (Some k)
    with ci have k: "ty_nullable (ci_type ?ci)" "k < bm_columnCount ?nit" by auto
    then have "k < 8" using nit(1,3) by (simp add: nulls_ok_def bm_ok_def)
    then have "unat (of_nat k :: u32) = k" by (simp add: unat_of_nat take_bit_nat_eq_self)
    moreover have "\<not> bm_bit ?nit i k" using nit(2,3) k(2) by (simp add: nulls_ok_def)
    ultimately have "genNullIndicatorLoad ?nit i (of_nat k) = Inr False"
      using isSet_gen_Inr [OF nit(1,2), of "of_nat k"] k(2) by (simp add: genNullIndicatorLoad_def)
    with Some k(1) tid_facts(1) [OF i(2)] show ?thesis
      by (simp add: load_field_def getCI_nth [OF assms(1-3)])
  qed
qed

lemma produce_fields_Inr:
  assumes "\<And>name. name \<in> set required \<Longrightarrow> name \<noteq> ''tid'' \<Longrightarrow>
      elem (name, column_index t name) = Inr (r ! column_index t name)"
    and "\<And>name v. name \<in> set required \<Longrightarrow> name \<noteq> ''tid'' \<Longrightarrow> load_field t (of_nat i) name v =
      Inr (if ty_nullable (ci_type (fst (tb_columns t ! column_index t name))) then NullableField False v else ValueField v)"
  shows "produce_fields t (of_nat i) elem required (ts_columns (TableScan_ctor t required)) =
    Inr (row_fields t required i r)"
  using assms by (induction required) (auto simp: TableScan_ctor_def row_fields_def Let_def)

lemma produce_tuple_Inr:
  assumes ok: "vt_ok t" and names: "distinct (map (ci_columnName \<circ> fst) (tb_columns t))"
    and req: "set required \<subseteq> insert ''tid'' (ci_columnName ` fst ` set (tb_columns t))"
    and ready: "scan_ready brs t b" and i: "i < tb_rows t" "tb_visible t i b"
    and ctx: "b \<noteq> master_branch_id \<longrightarrow> ctx_serves brs b ctx"
  shows "\<exists>r ctx'. TableScan_produce_tuple t (TableScan_ctor t required) b (of_nat i) ctx =
      (Some (Inr (row_fields t required i r)), ctx') \<and> visible_row brs t b i = Some r
      \<and> (b \<noteq> master_branch_id \<longrightarrow> ctx_serves brs b ctx')"
proof -
  from ready i obtain v where v: "find (seen_by (lineage_of brs b) b) (tuple_history t i) = Some v"
    "length (snd (snd v)) = length (tb_columns t)" "b = master_branch_id \<longrightarrow> snd (snd v) = tb_row t i"
    unfolding scan_ready_def by blast
  have plain: "plain_columns t" using ready by (simp add: scan_ready_def)
  from v have row: "visible_row brs t b i = Some (snd (snd v))" using i by (simp add: visible_row_def)
  have tb: "tb_ok t" and small: "i < 2 ^ 63" using ok i by (auto simp: vt_ok_def)
  have col: "\<exists>j < length (tb_columns t). name = ci_columnName (fst (tb_columns t ! j)) \<and> column_index t name = j"
    if "name \<in> set required" "name \<noteq> ''tid''" for name
  proof -
    from that req obtain c where "c \<in> set (tb_columns t)" "name = ci_columnName (fst c)" by auto
    then obtain j where "j < length (tb_columns t)" "name = ci_columnName (fst (tb_columns t ! j))"
      by (metis in_set_conv_nth)
    with column_index_nth [OF tb _ names] show ?thesis by auto
  qed
  have load: "load_field t (of_nat i) name v = Inr (if ty_nullable (ci_type (fst (tb_columns t ! column_index t name)))
      then NullableField False v else ValueField v)" if "name \<in> set required" "name \<noteq> ''tid''" for name v
    using col [OF that] load_field_nth [OF tb _ names i(1) small] by metis
  have master: "getMasterElem t (of_nat i) name = Inr (tb_row t i ! column_index t name)"
    if "name \<in> set required" "name \<noteq> ''tid''" for name
    using col [OF that] getMasterElem_nth [OF tb _ names i(1) small] by metis
  have ts: "ts_required (TableScan_ctor t required) = required" by (simp add: TableScan_ctor_def)
  show ?thesis
  proof (cases "b = master_branch_id")
    case True
    then have "produce_fields t (of_nat i) (getMasterElem t (of_nat i) \<circ> fst) required
        (ts_columns (TableScan_ctor t required)) = Inr (row_fields t required i (snd (snd v)))"
      using master v(3) by (intro produce_fields_Inr load) auto
    with True row ts show ?thesis by (simp add: TableScan_produce_tuple_def Let_def)
  next
    case False
    with ctx get_latest_entry_Inr [OF ok i(1) False _ v(1)] obtain p ctx' where p:
      "get_latest_entry (of_nat i) t b ctx = (Some (Inr p), ctx')" "ctx_serves brs b ctx'"
      "case p of None \<Rightarrow> snd (snd v) = tb_row t i | Some a \<Rightarrow> \<exists>s. tb_heap t a = Some s \<and> vs_data s = snd (snd v)"
      by blast
    have "getBranchElem t (of_nat i) p (name, column_index t name) = Inr (snd (snd v) ! column_index t name)"
      if "name \<in> set required" "name \<noteq> ''tid''" for name
      using master [OF that] col [OF that] p(3) v(2) plain_columns_take [OF plain]
      by (auto simp: getBranchElem_def split: option.splits)
    then have "produce_fields t (of_nat i) (getBranchElem t (of_nat i) p) required
        (ts_columns (TableScan_ctor t required)) = Inr (row_fields t required i (snd (snd v)))"
      by (intro produce_fields_Inr load)
    with False p row ts show ?thesis by (simp add: TableScan_produce_tuple_def Let_def)
  qed
qed

lemma isVisibleInBranch_Inr:
  assumes "vt_ok t" "i < tb_rows t" "unat b < bm_columnCount (tb_branchBitmap t)"
  shows "isVisibleInBranch (tb_branchBitmap t) i b = Inr (tb_visible t i b)"
  using assms by (simp add: isVisibleInBranch_def tb_visible_def isSet_gen_Inr vt_ok_def tb_ok_def)

lemma TableScan_loop_Inr:
  assumes ok: "vt_ok t" and names: "distinct (map (ci_columnName \<circ> fst) (tb_columns t))"
    and req: "set required \<subseteq> insert ''tid'' (ci_columnName ` fst ` set (tb_columns t))"
    and ready: "scan_ready brs t b" and b: "unat b < bm_columnCount (tb_branchBitmap t)"
    and ctx: "b \<noteq> master_branch_id \<longrightarrow> ctx_serves brs b ctx" and tids: "set tids \<subseteq> {..<tb_rows t}"
  shows "\<exists>ctx'. TableScan_loop t (TableScan_ctor t required) b tids ctx =
      (Some (Inr [(i, row_fields t required i r). i \<leftarrow> tids, r \<leftarrow>
          (case visible_row brs t b i of None \<Rightarrow> [] | Some r \<Rightarrow> [r])]), ctx')"
  using ctx tids
proof (induction tids arbitrary: ctx)
  case (Cons i tids)
  then have i: "i < tb_rows t" and rest: "set tids \<subseteq> {..<tb_rows t}" by auto
  note vis = isVisibleInBranch_Inr [OF ok i b]
  show ?case
  proof (cases "tb_visible t i b")
    case True
    from produce_tuple_Inr [OF ok names req ready i True Cons.prems(1)] obtain r ctx1 where r:
      "TableScan_produce_tuple t (TableScan_ctor t required) b (of_nat i) ctx =
        (Some (Inr (row_fields t required i r)), ctx1)"
      "visible_row brs t b i = Some r" "b \<noteq> master_branch_id \<longrightarrow> ctx_serves brs b ctx1" by blast
    from Cons.IH [OF r(3) rest] obtain ctx' where
      "TableScan_loop t (TableScan_ctor t required) b tids ctx1 =
      (Some (Inr [(i, row_fields t required i r). i \<leftarrow> tids, r \<leftarrow>
          (case visible_row brs t b i of None \<Rightarrow> [] | Some r \<Rightarrow> [r])]), ctx')" by blast
    with r vis True show ?thesis by simp
  next
    case False
    from Cons.IH [OF Cons.prems(1) rest] obtain ctx' where
      "TableScan_loop t (TableScan_ctor t required) b tids ctx =
      (Some (Inr [(i, row_fields t required i r). i \<leftarrow> tids, r \<leftarrow>
          (case visible_row brs t b i of None \<Rightarrow> [] | Some r \<Rightarrow> [r])]), ctx')" by blast
    with vis False show ?thesis by (simp add: visible_row_def)
  qed
qed simp

lemma TableScan_produce_Inr:
  assumes ok: "vt_ok t" and names: "distinct (map (ci_columnName \<circ> fst) (tb_columns t))"
    and req: "set required \<subseteq> insert ''tid'' (ci_columnName ` fst ` set (tb_columns t))"
    and ready: "scan_ready brs t b" and b: "unat b < bm_columnCount (tb_branchBitmap t)"
    and ctx: "b \<noteq> master_branch_id \<longrightarrow> ctx_serves brs b ctx"
  shows "fst (TableScan_produce t (TableScan_ctor t required) b ctx) =
      Some (Inr [(i, row_fields t required i r). i \<leftarrow> [0 ..< tb_rows t], r \<leftarrow>
          (case visible_row brs t b i of None \<Rightarrow> [] | Some r \<Rightarrow> [r])])"
proof -
  have size: "Table_size t = tb_rows t"
    using ok cells_ok_columns [of "tb_rows t" t 0]
    by (auto simp: Table_size_def vt_ok_def tb_ok_cells split: list.splits)
  show ?thesis
    using TableScan_loop_Inr [OF ok names req ready b ctx, of "[0 ..< tb_rows t]"]
    by (cases "tb_rows t = 0") (auto simp: TableScan_produce_def Let_def size lessThan_atLeast0)
qed

end
