(* ===== verification/Snapshots.thy ===== *)
theory Snapshots
  imports TableScan
begin

text \<open>
  Branches as snapshots. The contract of a versioned table is the locale \<open>version_store\<close>: what its
  operations do to the histories of the tuples, their visibility bits and the current rows. From
  these laws alone the lemmas of the locale show that the table keeps, for every branch, the rows
  the branch was created with and the changes made in it since (\<open>snap_inv\<close>). The tables of the code are
  interpreted as \<open>vt\<close>, and \<open>db_run\<close> are the runs of a whole database, with the snapshots they build.
\<close>

type_synonym 'v snapshots = "branch_id_t \<Rightarrow> nat \<Rightarrow> 'v row option"

definition snap_inv :: "(branch_id_t \<Rightarrow> branch_id_t \<rightharpoonup> branch_id_t) \<Rightarrow> branch_id_t \<Rightarrow> nat \<Rightarrow>
    (nat \<Rightarrow> 'v version list) \<Rightarrow> (nat \<Rightarrow> branch_id_t \<Rightarrow> bool) \<Rightarrow> (nat \<Rightarrow> 'v row) \<Rightarrow> 'v snapshots \<Rightarrow> bool" where
  "snap_inv lin n rows hist vb current S \<longleftrightarrow>
     (\<forall>i < rows. \<forall>v \<in> set (hist i). fst v < n \<and> fst (snd v) < n)
     \<and> (\<forall>i < rows. \<forall>b < n. (S b i = None) = (\<not> vb i b))
     \<and> (\<forall>i < rows. \<forall>b < n. vb i b \<longrightarrow> S b i = map_option (snd \<circ> snd) (find (seen_by (lin b) b) (hist i)))
     \<and> (\<forall>i < rows. vb i master_branch_id \<longrightarrow> S master_branch_id i = Some (current i))
     \<and> (\<forall>b < n. \<forall>i \<ge> rows. S b i = None)"

definition lin_ok :: "(branch_id_t \<Rightarrow> branch_id_t \<rightharpoonup> branch_id_t) \<Rightarrow> branch_id_t \<Rightarrow> bool" where
  "lin_ok lin n \<longleftrightarrow> 0 < n \<and> lin master_branch_id = Map.empty
     \<and> (\<forall>b < n. \<forall>a off. lin b a = Some off \<longrightarrow> off < n \<and> a < n)"

lemma snap_invD:
  assumes "snap_inv lin n rows hist vb current S"
  shows "i < rows \<Longrightarrow> v \<in> set (hist i) \<Longrightarrow> fst v < n \<and> fst (snd v) < n"
    and "i < rows \<Longrightarrow> b < n \<Longrightarrow> S b i = None \<longleftrightarrow> \<not> vb i b"
    and "i < rows \<Longrightarrow> b < n \<Longrightarrow> vb i b \<Longrightarrow> S b i = map_option (snd \<circ> snd) (find (seen_by (lin b) b) (hist i))"
    and "i < rows \<Longrightarrow> vb i master_branch_id \<Longrightarrow> S master_branch_id i = Some (current i)"
    and "b < n \<Longrightarrow> rows \<le> i \<Longrightarrow> S b i = None"
proof -
  note c = assms [unfolded snap_inv_def]
  show "i < rows \<Longrightarrow> v \<in> set (hist i) \<Longrightarrow> fst v < n \<and> fst (snd v) < n"
    by (rule c [THEN conjunct1, rule_format])
  show "i < rows \<Longrightarrow> b < n \<Longrightarrow> S b i = None \<longleftrightarrow> \<not> vb i b"
    by (rule c [THEN conjunct2, THEN conjunct1, rule_format])
  show "i < rows \<Longrightarrow> b < n \<Longrightarrow> vb i b \<Longrightarrow> S b i = map_option (snd \<circ> snd) (find (seen_by (lin b) b) (hist i))"
    by (rule c [THEN conjunct2, THEN conjunct2, THEN conjunct1, rule_format])
  show "i < rows \<Longrightarrow> vb i master_branch_id \<Longrightarrow> S master_branch_id i = Some (current i)"
    by (rule c [THEN conjunct2, THEN conjunct2, THEN conjunct2, THEN conjunct1, rule_format])
  show "b < n \<Longrightarrow> rows \<le> i \<Longrightarrow> S b i = None"
    by (rule c [THEN conjunct2, THEN conjunct2, THEN conjunct2, THEN conjunct2, rule_format])
qed

lemma snap_inv_found:
  assumes "snap_inv lin n rows hist vb current S" "i < rows" "b < n" "vb i b"
  shows "\<exists>v. find (seen_by (lin b) b) (hist i) = Some v \<and> S b i = Some (snd (snd v))"
  using snap_invD(2,3) [OF assms(1-3)] assms(4) by (cases "find (seen_by (lin b) b) (hist i)") auto

lemma find_cong': "(\<And>x. x \<in> set xs \<Longrightarrow> P x = Q x) \<Longrightarrow> find P xs = find Q xs"
  by (induction xs) auto

text \<open>The three facts about visibility: an update is seen in its own branch only.\<close>

lemma seen_own: "seen_by lin b (b, ts, r)"
  by (simp add: seen_by_def)

lemma not_seen_elsewhere:
  assumes "lin_ok lin n" "b < n" "b \<noteq> b'" "ts = n - 1"
  shows "\<not> seen_by (lin b) b (b', ts, r)"
proof -
  have "\<not> n - 1 < off" if "lin b b' = Some off" for off
  proof -
    from that assms(1,2) have "off < n" "0 < n" unfolding lin_ok_def by blast+
    then have "n \<noteq> 0" by (metis less_irrefl)
    with \<open>off < n\<close> show ?thesis by (simp add: word_less_minus_one_iff)
  qed
  with assms show ?thesis by (auto simp: seen_by_def split: option.splits)
qed

lemma seen_by_child:
  assumes "fst v < n" "fst (snd v) < n" "lin' n = (lin p)(p \<mapsto> n)"
  shows "seen_by (lin' n) n v = seen_by (lin p) p v"
  using assms by (auto simp: seen_by_def)

section \<open>The contract of a versioned table\<close>

locale version_store =
  fixes ok :: "'s \<Rightarrow> bool" and rows :: "'s \<Rightarrow> nat" and hist :: "'s \<Rightarrow> nat \<Rightarrow> 'v version list"
    and vb :: "'s \<Rightarrow> nat \<Rightarrow> branch_id_t \<Rightarrow> bool" and current :: "'s \<Rightarrow> nat \<Rightarrow> 'v row"
    and width :: "'s \<Rightarrow> nat" and writable :: "'c \<Rightarrow> 's \<Rightarrow> bool" and fits :: "'s \<Rightarrow> 'v list \<Rightarrow> bool" and room :: "'s \<Rightarrow> bool"
    and branch :: "'c \<Rightarrow> branch_id_t" and stamp :: "'c \<Rightarrow> branch_id_t"
    and lineage :: "'c \<Rightarrow> branch_id_t \<rightharpoonup> branch_id_t"
    and ins :: "'c \<Rightarrow> 'v list \<Rightarrow> 's \<Rightarrow> 's option" and upd :: "'c \<Rightarrow> nat \<Rightarrow> 'v list \<Rightarrow> 's \<Rightarrow> 's option"
    and del :: "'c \<Rightarrow> nat \<Rightarrow> 's \<Rightarrow> 's option" and clone :: "branch_id_t \<Rightarrow> 's \<Rightarrow> 's option"
  assumes ins_law: "ok s \<Longrightarrow> unat (branch c) < width s \<Longrightarrow> unat (branch c) < unat (1 + stamp c) \<Longrightarrow>
      fits s tuple \<Longrightarrow> room s \<Longrightarrow>
      \<exists>s'. ins c tuple s = Some s' \<and> ok s' \<and> rows s' = Suc (rows s) \<and> width s' = width s
        \<and> hist s' (rows s) = [(branch c, stamp c, map Some tuple)] \<and> current s' (rows s) = map Some tuple
        \<and> (\<forall>i < rows s. hist s' i = hist s i \<and> current s' i = current s i)
        \<and> (\<forall>i < rows s. \<forall>b. unat b < width s \<longrightarrow> vb s' i b = vb s i b)
        \<and> (\<forall>b. unat b < width s \<longrightarrow> vb s' (rows s) b = (b = branch c))"
    and upd_law: "ok s \<Longrightarrow> unat (branch c) < width s \<Longrightarrow> unat (branch c) < unat (1 + stamp c) \<Longrightarrow>
      fits s tuple \<Longrightarrow> writable c s \<Longrightarrow> i < rows s \<Longrightarrow> find (seen_by (lineage c) (branch c)) (hist s i) \<noteq> None \<Longrightarrow>
      \<exists>s'. upd c i tuple s = Some s' \<and> ok s' \<and> rows s' = rows s \<and> width s' = width s
        \<and> hist s' i = (branch c, stamp c, map Some tuple) # hist s i
        \<and> current s' i = (if branch c = master_branch_id then map Some tuple else current s i)
        \<and> (\<forall>j < rows s. j \<noteq> i \<longrightarrow> hist s' j = hist s j \<and> current s' j = current s j)
        \<and> (\<forall>j < rows s. \<forall>b. unat b < width s \<longrightarrow> vb s' j b = vb s j b)"
    and upd_refused: "ok s \<Longrightarrow> i < rows s \<Longrightarrow> \<not> writable c s \<Longrightarrow> upd c i tuple s = None"
    and del_law: "ok s \<Longrightarrow> unat (branch c) < width s \<Longrightarrow> i < rows s \<Longrightarrow>
      \<exists>s'. del c i s = Some s' \<and> ok s' \<and> rows s' = rows s \<and> width s' = width s
        \<and> (\<forall>j < rows s. hist s' j = hist s j \<and> current s' j = current s j)
        \<and> (\<forall>j < rows s. \<forall>b. unat b < width s \<longrightarrow> vb s' j b = (vb s j b \<and> \<not> (j = i \<and> b = branch c)))"
    and clone_law: "ok s \<Longrightarrow> unat p < width s \<Longrightarrow> clone p s = Some s' \<Longrightarrow>
      ok s' \<and> rows s' = rows s \<and> width s' = Suc (width s)
        \<and> (\<forall>j < rows s. hist s' j = hist s j \<and> current s' j = current s j)
        \<and> (\<forall>j < rows s. \<forall>b. unat b \<le> width s \<longrightarrow>
             vb s' j b = (if unat b = width s then vb s j p else vb s j b))"
begin

lemma ins_snap:
  assumes s: "ok s" "width s = unat n" "fits s tuple" "room s" and lin: "lin_ok lin n"
    and inv: "snap_inv lin n (rows s) (hist s) (vb s) (current s) S"
    and c: "branch c < n" "stamp c = n - 1"
  shows "\<exists>s'. ins c tuple s = Some s' \<and> ok s' \<and> width s' = width s \<and> rows s' = Suc (rows s)
    \<and> snap_inv lin n (rows s') (hist s') (vb s') (current s')
        (S(branch c := (S (branch c))(rows s \<mapsto> map Some tuple)))"
proof -
  have b: "unat (branch c) < width s" "unat (branch c) < unat (1 + stamp c)"
    using c s(2) by (simp_all add: word_less_nat_alt)
  from ins_law [OF s(1) b s(3,4)] obtain s' where s': "ins c tuple s = Some s'" "ok s'"
    "rows s' = Suc (rows s)" "width s' = width s"
    "hist s' (rows s) = [(branch c, stamp c, map Some tuple)]" "current s' (rows s) = map Some tuple"
    "\<forall>i < rows s. hist s' i = hist s i \<and> current s' i = current s i"
    "\<forall>i < rows s. \<forall>b. unat b < width s \<longrightarrow> vb s' i b = vb s i b"
    "\<forall>b. unat b < width s \<longrightarrow> vb s' (rows s) b = (b = branch c)" by blast
  have n: "0 < n" using lin by (simp add: lin_ok_def)
  then have ts: "stamp c < n" using c by (simp add: word_less_minus_one_iff)
  have m: "master_branch_id < n" using n by (simp add: master_branch_id_def)
  have bits: "vb s' i b = (if i < rows s then vb s i b else b = branch c)" if "i < rows s'" "b < n" for i b
    using s'(3,8,9) that s(2) by (auto simp: less_Suc_eq word_less_nat_alt)
  have "snap_inv lin n (rows s') (hist s') (vb s') (current s')
        (S(branch c := (S (branch c))(rows s \<mapsto> map Some tuple)))"
    unfolding snap_inv_def
  proof (intro conjI allI impI)
    show "\<forall>v \<in> set (hist s' i). fst v < n \<and> fst (snd v) < n" if "i < rows s'" for i
    proof (cases "i = rows s")
      case False
      with that s'(3) have "i < rows s" by simp
      with s'(7) snap_invD(1) [OF inv this] show ?thesis by simp
    qed (simp add: s'(5) ts c(1))
    fix i b assume i: "i < rows s'" and b: "b < n"
    let ?S' = "S(branch c := (S (branch c))(rows s \<mapsto> map Some tuple))"
    show "?S' b i = None \<longleftrightarrow> \<not> vb s' i b"
      using bits [OF i b] snap_invD(2,5) [OF inv] i b s'(3) by (auto simp: less_Suc_eq)
    show "?S' b i = map_option (snd \<circ> snd) (find (seen_by (lin b) b) (hist s' i))" if "vb s' i b"
      using bits [OF i b] snap_invD(3) [OF inv] i b s'(3,5,7) that
      by (cases "i = rows s") (auto simp: seen_own)
  next
    show "(S(branch c := (S (branch c))(rows s \<mapsto> map Some tuple))) master_branch_id i = Some (current s' i)"
      if "i < rows s'" "vb s' i master_branch_id" for i
      using that bits [OF that(1) m] s'(3,6,7) snap_invD(4) [OF inv] by (cases "i = rows s") auto
    show "(S(branch c := (S (branch c))(rows s \<mapsto> map Some tuple))) b i = None" if "b < n" "rows s' \<le> i" for b i
      using that s'(3) snap_invD(5) [OF inv] by auto
  qed
  with s' show ?thesis by blast
qed

lemma upd_snap:
  assumes s: "ok s" "width s = unat n" "fits s tuple" "writable c s" and lin: "lin_ok lin n"
    and inv: "snap_inv lin n (rows s) (hist s) (vb s) (current s) S"
    and c: "branch c < n" "stamp c = n - 1" "branch c \<noteq> master_branch_id \<longrightarrow> lineage c = lin (branch c)"
    and i: "i < rows s" "vb s i (branch c)"
  shows "\<exists>s'. upd c i tuple s = Some s' \<and> ok s' \<and> width s' = width s \<and> rows s' = rows s
    \<and> snap_inv lin n (rows s') (hist s') (vb s') (current s')
        (S(branch c := (S (branch c))(i \<mapsto> map Some tuple)))"
proof -
  have b: "unat (branch c) < width s" "unat (branch c) < unat (1 + stamp c)"
    using c s(2) by (simp_all add: word_less_nat_alt)
  obtain v where "find (seen_by (lin (branch c)) (branch c)) (hist s i) = Some v"
    using snap_inv_found [OF inv i(1) c(1) i(2)] by blast
  then have v: "v \<in> set (hist s i)" "seen_by (lin (branch c)) (branch c) v" by (auto simp: find_Some_iff)
  have "seen_by (lineage c) (branch c) v"
  proof (cases "branch c = master_branch_id")
    case True
    with lin v(2) show ?thesis by (auto simp: lin_ok_def seen_by_def)
  qed (use c(3) v(2) in simp)
  with v(1) have "find (seen_by (lineage c) (branch c)) (hist s i) \<noteq> None" by (metis find_None_iff)
  from upd_law [OF s(1) b s(3,4) i(1) this] obtain s' where s': "upd c i tuple s = Some s'" "ok s'"
    "rows s' = rows s" "width s' = width s" "hist s' i = (branch c, stamp c, map Some tuple) # hist s i"
    "current s' i = (if branch c = master_branch_id then map Some tuple else current s i)"
    "\<forall>j < rows s. j \<noteq> i \<longrightarrow> hist s' j = hist s j \<and> current s' j = current s j"
    "\<forall>j < rows s. \<forall>b. unat b < width s \<longrightarrow> vb s' j b = vb s j b" by blast
  have n: "0 < n" using lin by (simp add: lin_ok_def)
  then have ts: "stamp c < n" using c by (simp add: word_less_minus_one_iff)
  have bits: "vb s' j b = vb s j b" if "j < rows s" "b < n" for j b
    using s'(8) that s(2) by (auto simp: word_less_nat_alt)
  have other: "find (seen_by (lin b) b) (hist s' i) = find (seen_by (lin b) b) (hist s i)"
    if "b < n" "b \<noteq> branch c" for b
    by (simp add: s'(5) not_seen_elsewhere [OF lin that c(2)])
  have "snap_inv lin n (rows s') (hist s') (vb s') (current s')
        (S(branch c := (S (branch c))(i \<mapsto> map Some tuple)))"
    unfolding snap_inv_def s'(3)
  proof (intro conjI allI impI)
    show "\<forall>v \<in> set (hist s' j). fst v < n \<and> fst (snd v) < n" if "j < rows s" for j
      using that s'(5,7) snap_invD(1) [OF inv] ts c(1) by (cases "j = i") (auto simp del: split_paired_All)
    fix j b assume j: "j < rows s" and b: "b < n"
    let ?S' = "S(branch c := (S (branch c))(i \<mapsto> map Some tuple))"
    show "?S' b j = None \<longleftrightarrow> \<not> vb s' j b"
      using bits [OF j b] snap_invD(2) [OF inv] j b i by auto
    show "?S' b j = map_option (snd \<circ> snd) (find (seen_by (lin b) b) (hist s' j))" if "vb s' j b"
    proof (cases "j = i \<and> b = branch c")
      case False
      then have "find (seen_by (lin b) b) (hist s' j) = find (seen_by (lin b) b) (hist s j)"
        using other [OF b] j s'(7) by (cases "j = i") auto
      with False bits [OF j b] that snap_invD(3) [OF inv j b] show ?thesis by auto
    qed (simp add: s'(5) seen_own)
  next
    show "(S(branch c := (S (branch c))(i \<mapsto> map Some tuple))) master_branch_id j = Some (current s' j)"
      if "j < rows s" "vb s' j master_branch_id" for j
      using that bits [OF that(1), of master_branch_id] n s'(6,7) snap_invD(4) [OF inv that(1)]
      by (cases "j = i") (auto simp: master_branch_id_def)
    show "(S(branch c := (S (branch c))(i \<mapsto> map Some tuple))) b j = None" if "b < n" "rows s \<le> j" for b j
      using that i snap_invD(5) [OF inv] by auto
  qed
  with s' show ?thesis by blast
qed

lemma del_snap:
  assumes s: "ok s" "width s = unat n" and lin: "lin_ok lin n"
    and inv: "snap_inv lin n (rows s) (hist s) (vb s) (current s) S"
    and c: "branch c < n" and i: "i < rows s"
  shows "\<exists>s'. del c i s = Some s' \<and> ok s' \<and> width s' = width s \<and> rows s' = rows s
    \<and> snap_inv lin n (rows s') (hist s') (vb s') (current s')
        (S(branch c := (S (branch c))(i := None)))"
proof -
  have b: "unat (branch c) < width s" using c s(2) by (simp add: word_less_nat_alt)
  from del_law [OF s(1) b i] obtain s' where s': "del c i s = Some s'" "ok s'" "rows s' = rows s"
    "width s' = width s" "\<forall>j < rows s. hist s' j = hist s j \<and> current s' j = current s j"
    "\<forall>j < rows s. \<forall>b. unat b < width s \<longrightarrow> vb s' j b = (vb s j b \<and> \<not> (j = i \<and> b = branch c))" by blast
  have bits: "vb s' j b = (vb s j b \<and> \<not> (j = i \<and> b = branch c))" if "j < rows s" "b < n" for j b
    using s'(6) that s(2) by (auto simp: word_less_nat_alt)
  have n: "master_branch_id < n" using lin by (simp add: lin_ok_def master_branch_id_def)
  have "snap_inv lin n (rows s') (hist s') (vb s') (current s') (S(branch c := (S (branch c))(i := None)))"
    unfolding snap_inv_def s'(3)
  proof (intro conjI allI impI)
    fix j b assume j: "j < rows s" and b: "b < n"
    show "(S(branch c := (S (branch c))(i := None))) b j = None \<longleftrightarrow> \<not> vb s' j b"
      using bits [OF j b] snap_invD(2) [OF inv j b] by auto
    show "(S(branch c := (S (branch c))(i := None))) b j =
        map_option (snd \<circ> snd) (find (seen_by (lin b) b) (hist s' j))" if "vb s' j b"
      using bits [OF j b] snap_invD(3) [OF inv j b] s'(5) j that by auto
  next
    show "\<forall>v \<in> set (hist s' j). fst v < n \<and> fst (snd v) < n" if "j < rows s" for j
      using that s'(5) snap_invD(1) [OF inv that] by (simp del: split_paired_All)
    show "(S(branch c := (S (branch c))(i := None))) master_branch_id j = Some (current s' j)"
      if "j < rows s" "vb s' j master_branch_id" for j
      using that bits [OF that(1) n] s'(5) snap_invD(4) [OF inv that(1)] by auto
    show "(S(branch c := (S (branch c))(i := None))) b j = None" if "b < n" "rows s \<le> j" for b j
      using that snap_invD(5) [OF inv] by auto
  qed
  with s' show ?thesis by blast
qed

lemma clone_snap:
  assumes s: "ok s" "width s = unat n" "clone p s = Some s'" and lin: "lin_ok lin n"
    and n: "n + 1 \<noteq> 0" and p: "p < n"
    and lin': "lin' n = (lin p)(p \<mapsto> n)" "\<forall>b < n. lin' b = lin b"
    and inv: "snap_inv lin n (rows s) (hist s) (vb s) (current s) S"
  shows "ok s' \<and> width s' = unat (n + 1)
    \<and> snap_inv lin' (n + 1) (rows s') (hist s') (vb s') (current s') (S(n := S p))"
proof -
  have "unat p < width s" using p s(2) by (simp add: word_less_nat_alt)
  from clone_law [OF s(1) this s(3)] have s': "ok s'" "rows s' = rows s" "width s' = Suc (width s)"
    "\<forall>j < rows s. hist s' j = hist s j \<and> current s' j = current s j"
    "\<forall>j < rows s. \<forall>b. unat b \<le> width s \<longrightarrow> vb s' j b = (if unat b = width s then vb s j p else vb s j b)"
    by blast+
  have less: "b < n + 1 \<longleftrightarrow> b < n \<or> b = n" for b
    using word_less_minus_one_iff [OF n, of b] by (auto simp: le_less)
  have bits: "vb s' j b = (if b = n then vb s j p else vb s j b)" if "j < rows s" "b < n \<or> b = n" for j b
    using s'(5) that s(2) by (auto simp: word_less_nat_alt word_unat_eq_iff)
  have n0: "master_branch_id < n" using lin by (simp add: lin_ok_def master_branch_id_def)
  have child: "find (seen_by (lin' n) n) (hist s j) = find (seen_by (lin p) p) (hist s j)" if "j < rows s" for j
  proof (rule find_cong')
    fix v assume "v \<in> set (hist s j)"
    from snap_invD(1) [OF inv that this] show "seen_by (lin' n) n v = seen_by (lin p) p v"
      by (intro seen_by_child lin'(1)) simp_all
  qed
  have "snap_inv lin' (n + 1) (rows s') (hist s') (vb s') (current s') (S(n := S p))"
    unfolding snap_inv_def s'(2)
  proof (intro conjI allI impI)
    show "\<forall>v \<in> set (hist s' j). fst v < n + 1 \<and> fst (snd v) < n + 1" if "j < rows s" for j
      using that s'(4) snap_invD(1) [OF inv that] less by (simp del: split_paired_All)
    fix j b assume j: "j < rows s" and "b < n + 1"
    then have b: "b < n \<or> b = n" using less by blast
    show "(S(n := S p)) b j = None \<longleftrightarrow> \<not> vb s' j b"
      using bits [OF j b] snap_invD(2) [OF inv j] b p by auto
    show "(S(n := S p)) b j = map_option (snd \<circ> snd) (find (seen_by (lin' b) b) (hist s' j))" if "vb s' j b"
      using bits [OF j b] child [OF j] lin'(2) s'(4) snap_invD(3) [OF inv j] j b p that by auto
  next
    show "(S(n := S p)) master_branch_id j = Some (current s' j)" if "j < rows s" "vb s' j master_branch_id" for j
      using that bits [OF that(1), of master_branch_id] n0 s'(4) snap_invD(4) [OF inv that(1)] by auto
    show "(S(n := S p)) b j = None" if "b < n + 1" "rows s \<le> j" for b j
      using that less p snap_invD(5) [OF inv] by auto
  qed
  moreover have "width s' = unat (n + 1)"
    using s'(3) s(2) unatSuc [of n] n by (simp add: add.commute)
  ultimately show ?thesis using s'(1) by simp
qed

end

section \<open>The tables of the database\<close>

definition table_ok :: "'v Table \<Rightarrow> bool" where
  "table_ok t \<longleftrightarrow> vt_ok t \<and> distinct (map (ci_columnName \<circ> fst) (tb_columns t)) \<and> plain_columns t"

definition update_loads :: "branch_id_t \<Rightarrow> 'v Table \<Rightarrow> unit result" where
  \<comment> \<open>an update of the master branch loads the row it replaces, one of another branch loads nothing\<close>
  "update_loads b t = (if b = master_branch_id then row_loads t else Inr ())"

definition table_width :: "'v Table \<Rightarrow> nat" where
  "table_width t = bm_columnCount (tb_branchBitmap t)"

type_synonym 'v session = "'v Database \<times> ExecutionContext"

definition table_insert :: "'v session \<Rightarrow> 'v list \<Rightarrow> 'v Table \<Rightarrow> 'v Table option" where
  "table_insert c tuple t =
     (case insert_tuple tuple (fst c) t (snd c) of (Inr _, t') \<Rightarrow> Some t' | _ \<Rightarrow> None)"

definition table_update :: "'v session \<Rightarrow> nat \<Rightarrow> 'v list \<Rightarrow> 'v Table \<Rightarrow> 'v Table option" where
  "table_update c i tuple t =
     (case update_tuple (of_nat i) tuple (fst c) t (snd c) of Some (None, t') \<Rightarrow> Some t' | _ \<Rightarrow> None)"

definition table_delete :: "'v session \<Rightarrow> nat \<Rightarrow> 'v Table \<Rightarrow> 'v Table option" where
  "table_delete c i t = (case delete_tuple (of_nat i) t (snd c) of Inr t' \<Rightarrow> Some t' | _ \<Rightarrow> None)"

definition table_clone :: "branch_id_t \<Rightarrow> 'v Table \<Rightarrow> 'v Table option" where
  "table_clone p t = (case Table_createBranch p t of (None, t') \<Rightarrow> Some t' | _ \<Rightarrow> None)"

lemma bm_bit_unat_inj: "unat (b :: branch_id_t) = unat b' \<longleftrightarrow> b = b'"
  by (simp add: word_unat_eq_iff)

lemma table_ok_width: "table_ok t \<Longrightarrow> table_width t \<le> 8"
  by (auto simp: table_ok_def vt_ok_def tb_ok_def bm_ok_def table_width_def)

lemma names_cong: "map fst cs' = map fst cs \<Longrightarrow> map (ci_columnName \<circ> fst) cs' = map (ci_columnName \<circ> fst) cs"
  by (metis map_map)

lemma table_ok_cong:
  assumes "table_ok t" "vt_ok t'" "map fst (tb_columns t') = map fst (tb_columns t)"
  shows "table_ok t'"
proof -
  have "Table_getTupleType t' = Table_getTupleType t" by (metis Table_getTupleType_def assms(3) map_map)
  with assms names_cong [OF assms(3)] show ?thesis by (simp add: table_ok_def plain_columns_def)
qed

lemma clone_full: "bm_columnCount bm = bm_availableCount bm \<Longrightarrow> \<exists>e bm'. BitmapTable_cloneColumn bm o' = (Inl e, bm')"
  by (metis BitmapTable_full(2))

lemma Table_createBranch_clone:
  assumes ok: "vt_ok t" and p: "unat p < bm_columnCount (tb_branchBitmap t)"
    and run: "Table_createBranch p t = (None, t')"
  shows "vt_ok t' \<and> tb_rows t' = tb_rows t \<and> tb_columns t' = tb_columns t
    \<and> bm_columnCount (tb_branchBitmap t') = Suc (bm_columnCount (tb_branchBitmap t))
    \<and> (\<forall>j. tuple_history t' j = tuple_history t j)
    \<and> (\<forall>j < tb_rows t. \<forall>b. unat b \<le> bm_columnCount (tb_branchBitmap t) \<longrightarrow> tb_visible t' j b =
         (if unat b = bm_columnCount (tb_branchBitmap t) then tb_visible t j p else tb_visible t j b))"
proof -
  let ?bm = "tb_branchBitmap t"
  have bm: "bm_ok ?bm" "bm_rows ?bm = tb_rows t" "bm_availableCount ?bm = 8"
    using ok by (auto simp: vt_ok_def tb_ok_def)
  then have le: "bm_columnCount ?bm \<le> 8" by (auto simp: bm_ok_def)
  have pi: "p \<noteq> invalid_branch_id"
    using p le by (auto simp: invalid_branch_id_def unsigned_minus_1_eq_mask mask_eq_exp_minus_1)
  have "bm_columnCount ?bm \<noteq> 8"
    using run pi clone_full [of ?bm "unat p"] bm(3)
    by (auto simp: Table_createBranch_def split: prod.splits sum.splits)
  with le have room: "bm_columnCount ?bm < 8" by simp
  from BitmapTable_cloneColumn_Inr [OF bm(1) _ p] room bm obtain bm' where bm':
    "BitmapTable_cloneColumn ?bm (unat p) = (Inr (bm_columnCount ?bm), bm')" "bm_ok bm'"
    "bm_rows bm' = tb_rows t" "bm_columnCount bm' = Suc (bm_columnCount ?bm)" "bm_availableCount bm' = 8"
    "\<forall>j < tb_rows t. \<forall>c < 8. bm_bit bm' j c = (if c = bm_columnCount ?bm then bm_bit ?bm j (unat p) else bm_bit ?bm j c)"
    by auto
  have t': "t' = t\<lparr>tb_branchBitmap := bm'\<rparr>"
    using run pi bm'(1) by (simp add: Table_createBranch_def)
  show ?thesis
    using vt_ok_bitmap [OF ok bm'(2,3,5)] bm' room
    by (auto simp: t' tb_rows_def tb_visible_def)
qed

interpretation vt: version_store table_ok tb_rows tuple_history tb_visible tb_row table_width
  "\<lambda>c t. update_loads (ctx_branchId (snd c)) t = Inr ()" "\<lambda>t tuple. length tuple = length (tb_columns t)" "\<lambda>t. Suc (tb_rows t) < 2 ^ 63"
  "\<lambda>c. ctx_branchId (snd c)" "\<lambda>c. Database_getLargestBranchId (fst c)" "\<lambda>c. ctx_branch_lineage (snd c)"
  table_insert table_update table_delete table_clone
proof unfold_locales
  fix s :: "'a Table" and c :: "'a session" and tuple :: "'a list"
  let ?b = "ctx_branchId (snd c)" and ?l = "Database_getLargestBranchId (fst c)"
  assume ok: "table_ok s" and b: "unat ?b < table_width s" "unat ?b < unat (1 + ?l)"
  have w: "table_width s \<le> 8" using ok by (rule table_ok_width)
  from ok have vt: "vt_ok s" by (simp add: table_ok_def)
  have b': "unat ?b < bm_columnCount (tb_branchBitmap s)" using b(1) by (simp add: table_width_def)
  assume len: "length tuple = length (tb_columns s)"
  {
    assume room: "Suc (tb_rows s) < 2 ^ 63"
    from insert_tuple_Inr [OF vt b' b(2) room len] obtain s' where
      s': "insert_tuple tuple (fst c) s (snd c) = (Inr (of_nat (tb_rows s)), s')" "vt_ok s'"
      "tb_rows s' = Suc (tb_rows s)" "\<forall>i < tb_rows s. tuple_history s' i = tuple_history s i"
      "tuple_history s' (tb_rows s) = [(?b, ?l, map Some tuple)]"
      "\<forall>i < tb_rows s'. tb_row s' i = (if i = tb_rows s then map Some tuple else tb_row s i)"
      "\<forall>i < tb_rows s'. \<forall>c' < 8. bm_bit (tb_branchBitmap s') i c' =
         (if i < tb_rows s then bm_bit (tb_branchBitmap s) i c' else c' = unat ?b)"
      "bm_columnCount (tb_branchBitmap s') = bm_columnCount (tb_branchBitmap s)"
      "map fst (tb_columns s') = map fst (tb_columns s)" by blast
    have "table_ok s'" by (rule table_ok_cong [OF ok s'(2,9)])
    with s' w show "\<exists>s'. table_insert c tuple s = Some s' \<and> table_ok s' \<and> tb_rows s' = Suc (tb_rows s)
        \<and> table_width s' = table_width s
        \<and> tuple_history s' (tb_rows s) = [(?b, ?l, map Some tuple)] \<and> tb_row s' (tb_rows s) = map Some tuple
        \<and> (\<forall>i < tb_rows s. tuple_history s' i = tuple_history s i \<and> tb_row s' i = tb_row s i)
        \<and> (\<forall>i < tb_rows s. \<forall>b. unat b < table_width s \<longrightarrow> tb_visible s' i b = tb_visible s i b)
        \<and> (\<forall>b. unat b < table_width s \<longrightarrow> tb_visible s' (tb_rows s) b = (b = ?b))"
      by (intro exI [of _ s']) (auto simp: table_insert_def table_width_def tb_visible_def bm_bit_unat_inj)
  }
  {
    fix i assume i: "i < tb_rows s" and loads: "update_loads ?b s = Inr ()"
      and seen: "find (seen_by (ctx_branch_lineage (snd c)) ?b) (tuple_history s i) \<noteq> None"
    have "vis (snd c) = (seen_by (ctx_branch_lineage (snd c)) ?b :: 'a version \<Rightarrow> bool)"
      by (simp add: vis_seen_by [abs_def])
    with seen have seen': "find (vis (snd c)) (tuple_history s i) \<noteq> None" by simp
    obtain s' where
      s': "update_tuple (of_nat i) tuple (fst c) s (snd c) = Some (None, s')" "vt_ok s'" "tb_rows s' = tb_rows s"
      "\<forall>j < tb_rows s. tuple_history s' j = (if j = i then (?b, ?l, map Some tuple) # tuple_history s i
         else tuple_history s j)"
      "\<forall>j < tb_rows s. tb_row s' j = (if ?b = master_branch_id \<and> j = i then map Some tuple else tb_row s j)"
      "tb_branchBitmap s' = tb_branchBitmap s" "map fst (tb_columns s') = map fst (tb_columns s)"
    proof (cases "?b = master_branch_id")
      case True
      with loads have "row_loads s = Inr ()" by (simp add: update_loads_def)
      from update_master_Inr [OF vt i True len this, of "fst c"] that True show ?thesis by auto
    next
      case False
      from update_branch_Inr [OF vt i False b(2) len seen'] that False show ?thesis by auto
    qed
    have "table_ok s'" by (rule table_ok_cong [OF ok s'(2,7)])
    with s' i show "\<exists>s'. table_update c i tuple s = Some s' \<and> table_ok s' \<and> tb_rows s' = tb_rows s
        \<and> table_width s' = table_width s
        \<and> tuple_history s' i = (?b, ?l, map Some tuple) # tuple_history s i
        \<and> tb_row s' i = (if ?b = master_branch_id then map Some tuple else tb_row s i)
        \<and> (\<forall>j < tb_rows s. j \<noteq> i \<longrightarrow> tuple_history s' j = tuple_history s j \<and> tb_row s' j = tb_row s j)
        \<and> (\<forall>j < tb_rows s. \<forall>b. unat b < table_width s \<longrightarrow> tb_visible s' j b = tb_visible s j b)"
      by (intro exI [of _ s']) (auto simp: table_update_def table_width_def tb_visible_def)
  }
next
  fix s :: "'a Table" and c :: "'a session" and i and tuple :: "'a list"
  assume ok: "table_ok s" and i: "i < tb_rows s" and "update_loads (ctx_branchId (snd c)) s \<noteq> Inr ()"
  then obtain e where e: "ctx_branchId (snd c) = master_branch_id" "row_loads s = Inl e"
    by (cases "row_loads s") (auto simp: update_loads_def split: if_splits)
  have "vt_ok s" using ok by (simp add: table_ok_def)
  from update_master_Inl [OF this i e, of tuple "fst c"] show "table_update c i tuple s = None"
    by (simp add: table_update_def)
next
  fix s :: "'a Table" and c :: "'a session" and i
  let ?b = "ctx_branchId (snd c)"
  assume ok: "table_ok s" and b: "unat ?b < table_width s" and i: "i < tb_rows s"
  have w: "table_width s \<le> 8" using ok by (rule table_ok_width)
  from ok have vt: "vt_ok s" by (simp add: table_ok_def)
  have b': "unat ?b < bm_columnCount (tb_branchBitmap s)" using b by (simp add: table_width_def)
  from delete_tuple_Inr [OF vt i b'] obtain s' where
    s': "delete_tuple (of_nat i) s (snd c) = Inr s'" "vt_ok s'" "tb_rows s' = tb_rows s"
    "\<forall>j < tb_rows s. tuple_history s' j = tuple_history s j \<and> tb_row s' j = tb_row s j"
    "\<forall>j < tb_rows s. \<forall>c' < 8. bm_bit (tb_branchBitmap s') j c' =
         (if j = i \<and> c' = unat ?b then False else bm_bit (tb_branchBitmap s) j c')"
    "bm_columnCount (tb_branchBitmap s') = bm_columnCount (tb_branchBitmap s)"
    "map fst (tb_columns s') = map fst (tb_columns s)" by blast
  have "table_ok s'" by (rule table_ok_cong [OF ok s'(2,7)])
  with s' w show "\<exists>s'. table_delete c i s = Some s' \<and> table_ok s' \<and> tb_rows s' = tb_rows s
      \<and> table_width s' = table_width s
      \<and> (\<forall>j < tb_rows s. tuple_history s' j = tuple_history s j \<and> tb_row s' j = tb_row s j)
      \<and> (\<forall>j < tb_rows s. \<forall>b. unat b < table_width s \<longrightarrow>
           tb_visible s' j b = (tb_visible s j b \<and> \<not> (j = i \<and> b = ?b)))"
    by (intro exI [of _ s']) (auto simp: table_delete_def table_width_def tb_visible_def bm_bit_unat_inj)
next
  fix s s' :: "'a Table" and p
  assume "table_ok s" "unat p < table_width s" "table_clone p s = Some s'"
  then have "vt_ok s" "unat p < bm_columnCount (tb_branchBitmap s)" "Table_createBranch p s = (None, s')"
    "distinct (map (ci_columnName \<circ> fst) (tb_columns s))" "plain_columns s"
    by (auto simp: table_ok_def table_width_def table_clone_def split: prod.splits option.splits)
  with Table_createBranch_clone [OF this(1-3)]
  show "table_ok s' \<and> tb_rows s' = tb_rows s \<and> table_width s' = Suc (table_width s)
    \<and> (\<forall>j < tb_rows s. tuple_history s' j = tuple_history s j \<and> tb_row s' j = tb_row s j)
    \<and> (\<forall>j < tb_rows s. \<forall>b. unat b \<le> table_width s \<longrightarrow>
         tb_visible s' j b = (if unat b = table_width s then tb_visible s j p else tb_visible s j b))"
    by (simp add: table_ok_def table_width_def tb_row_def plain_columns_def Table_getTupleType_def)
qed

end
