(* ===== verification/DatabaseRuns.thy ===== *)
theory DatabaseRuns
  imports Snapshots
begin

text \<open>
  Runs of a whole database. \<open>db_run\<close> are the sequences of successful statements: tables are created,
  branches are created from existing branches, rows are inserted, and rows that a scan of a branch
  yields are updated or deleted in that branch, each by the functions of the code. Beside the
  database a run builds the abstract one: for every table the snapshot each branch should have.
  A statement that throws leaves the run. The columns of a table that is created are not nullable, as
  \<^verbatim>\<open>CreateTableAnalyser\<close> demands.
\<close>

definition add_columns :: "(SqlType \<Rightarrow> nat) \<Rightarrow> (string \<times> SqlType) list \<Rightarrow> 'v Table \<Rightarrow> exn option \<times> 'v Table" where
  "add_columns valueSize cols t = foldE (\<lambda>(name, type). Table_addColumn valueSize name type) cols t"

inductive db_run :: "(SqlType \<Rightarrow> nat) \<Rightarrow> 'v Database \<Rightarrow> (string \<Rightarrow> 'v snapshots) \<Rightarrow> bool" for valueSize where
  db_start: "db_run valueSize Database_ctor (\<lambda>_ _ _. None)"
| db_create_table: "db_run valueSize db S \<Longrightarrow> Database_createTable name db = (None, db1) \<Longrightarrow>
    Database_getTable db1 name = Some t \<Longrightarrow> cols \<noteq> [] \<Longrightarrow> \<forall>(_, type) \<in> set cols. \<not> ty_nullable type \<Longrightarrow>
    add_columns valueSize cols t = (None, t') \<Longrightarrow>
    db_run valueSize (put_table name t' db1) S"
| db_create_branch: "db_run valueSize db S \<Longrightarrow> parent < db_next_branch_id db \<Longrightarrow>
    db_next_branch_id db + 1 < invalid_branch_id \<Longrightarrow>
    Database_createBranch name parent db = (Inr child, db') \<Longrightarrow>
    db_run valueSize db' (\<lambda>table. (S table)(child := S table parent))"
| db_insert: "db_run valueSize db S \<Longrightarrow> Database_getTable db table = Some t \<Longrightarrow> b < db_next_branch_id db \<Longrightarrow>
    length tuple = Table_getColumnCount t \<Longrightarrow> Suc (Table_size t) < 2 ^ 63 \<Longrightarrow>
    insert_tuple_with_branchId tuple db t ctx b = ((Inr tid, t'), ctx') \<Longrightarrow>
    db_run valueSize (put_table table t' db)
      (S(table := (S table)(b := (S table b)(unat tid \<mapsto> map Some tuple))))"
| db_update: "db_run valueSize db S \<Longrightarrow> Database_getTable db table = Some t \<Longrightarrow> b < db_next_branch_id db \<Longrightarrow>
    length tuple = Table_getColumnCount t \<Longrightarrow> ctx_branch_lineages ctx b = None \<Longrightarrow>
    constructBranchLineage db b ctx = Some (Inr ctx1) \<Longrightarrow> i < Table_size t \<Longrightarrow>
    isVisibleInBranch (tb_branchBitmap t) i b = Inr True \<Longrightarrow>
    TableScan_produce_tuple t columns b (of_nat i) ctx1 = (Some (Inr r), ctx2) \<Longrightarrow>
    update_tuple_with_branchId (of_nat i) b tuple db t ctx2 = (Some (None, t'), ctx3) \<Longrightarrow>
    db_run valueSize (put_table table t' db)
      (S(table := (S table)(b := (S table b)(i \<mapsto> map Some tuple))))"
| db_delete: "db_run valueSize db S \<Longrightarrow> Database_getTable db table = Some t \<Longrightarrow> b < db_next_branch_id db \<Longrightarrow>
    i < Table_size t \<Longrightarrow> isVisibleInBranch (tb_branchBitmap t) i b = Inr True \<Longrightarrow>
    delete_tuple_with_branchId (of_nat i) b t ctx = (Inr t', ctx') \<Longrightarrow>
    db_run valueSize (put_table table t' db) (S(table := (S table)(b := (S table b)(i := None))))"

section \<open>The invariant of the database\<close>

definition table_inv :: "'v Database \<Rightarrow> 'v Table \<Rightarrow> 'v snapshots \<Rightarrow> bool" where
  "table_inv db t T \<longleftrightarrow> table_ok t \<and> table_width t = unat (db_next_branch_id db)
     \<and> snap_inv (lineage_of (db_branches db)) (db_next_branch_id db)
         (tb_rows t) (tuple_history t) (tb_visible t) (tb_row t) T"

definition db_inv :: "'v Database \<Rightarrow> (string \<Rightarrow> 'v snapshots) \<Rightarrow> bool" where
  "db_inv db S \<longleftrightarrow> branches_ok (db_branches db) (db_next_branch_id db)
     \<and> distinct (map fst (db_tables db))
     \<and> (\<forall>table t. (table, t) \<in> set (db_tables db) \<longrightarrow> table_inv db t (S table))
     \<and> (\<forall>table. table \<notin> fst ` set (db_tables db) \<longrightarrow> S table = (\<lambda>_ _. None))"

lemma lin_ok_lineage:
  assumes "branches_ok brs n"
  shows "lin_ok (lineage_of brs) n"
proof -
  have "lineage_of brs b a = Some off \<Longrightarrow> b < n \<Longrightarrow> off < n \<and> a < n" for a b off
    using lineage_of_bound [of brs b a off] by auto
  moreover have "ancestors brs 0 = [0]" by (subst ancestors.simps) (simp split: option.split)
  then have "lineage_of brs master_branch_id = Map.empty"
    by (simp add: lineage_of_def master_branch_id_def)
  ultimately show ?thesis using assms by (auto simp: lin_ok_def branches_ok_def)
qed

lemma put_table_tables:
  "map fst (db_tables (put_table name t db)) = map fst (db_tables db)"
  "db_branches (put_table name t db) = db_branches db"
  "db_next_branch_id (put_table name t db) = db_next_branch_id db"
  by (auto simp: put_table_def)

lemma put_table_mem:
  "(n, u) \<in> set (db_tables (put_table name t db)) \<Longrightarrow>
     n = name \<and> u = t \<or> n \<noteq> name \<and> (n, u) \<in> set (db_tables db)"
  by (auto simp: put_table_def split: if_splits)

lemma getTable_mem: "Database_getTable db name = Some t \<Longrightarrow> (name, t) \<in> set (db_tables db)"
  by (simp add: Database_getTable_def map_of_SomeD)

lemma put_table_fst: "fst ` set (db_tables (put_table name t db)) = fst ` set (db_tables db)"
  by (metis put_table_tables(1) set_map)

text \<open>Replacing one table by one that keeps its invariant.\<close>

lemma db_inv_put:
  assumes inv: "db_inv db S" and t: "Database_getTable db name = Some t"
    and t': "table_ok t'" "table_width t' = table_width t"
      "snap_inv (lineage_of (db_branches db)) (db_next_branch_id db) (tb_rows t') (tuple_history t')
        (tb_visible t') (tb_row t') T"
  shows "db_inv (put_table name t' db) (S(name := T))"
proof -
  have "table_inv db t (S name)" using inv getTable_mem [OF t] by (simp add: db_inv_def)
  then have new: "table_inv (put_table name t' db) t' T"
    using t' by (simp add: table_inv_def put_table_tables)
  have old: "table_inv (put_table name t' db) u (S n)" if "(n, u) \<in> set (db_tables db)" for n u
    using inv that by (simp add: db_inv_def table_inv_def put_table_tables)
  have "name \<in> fst ` set (db_tables db)" using getTable_mem [OF t] by force
  have "table_inv (put_table name t' db) u ((S(name := T)) n)"
    if "(n, u) \<in> set (db_tables (put_table name t' db))" for n u
    using put_table_mem [OF that] new old by auto
  with inv \<open>name \<in> fst ` set (db_tables db)\<close> show ?thesis
    by (auto simp: db_inv_def put_table_tables put_table_fst)
qed

lemma db_inv_table:
  assumes "db_inv db S" "Database_getTable db name = Some t"
  shows "table_ok t" "vt_ok t" "table_width t = unat (db_next_branch_id db)"
    "snap_inv (lineage_of (db_branches db)) (db_next_branch_id db) (tb_rows t) (tuple_history t)
        (tb_visible t) (tb_row t) (S name)"
    "lin_ok (lineage_of (db_branches db)) (db_next_branch_id db)"
  using assms getTable_mem [OF assms(2)] lin_ok_lineage
  by (auto simp: db_inv_def table_inv_def table_ok_def)

lemma Table_size_rows: "vt_ok t \<Longrightarrow> Table_size t = tb_rows t"
  using cells_ok_columns [of "tb_rows t" t 0]
  by (auto simp: Table_size_def vt_ok_def tb_ok_cells split: list.splits)

text \<open>Inserting, updating, deleting.\<close>

lemma n_minus_one: "Database_getLargestBranchId db = db_next_branch_id db - 1"
  by (simp add: Database_getLargestBranchId_def)

lemma insert_keeps:
  assumes inv: "db_inv db S" and t: "Database_getTable db table = Some t" and b: "b < db_next_branch_id db"
    and len: "length tuple = Table_getColumnCount t" and room: "Suc (Table_size t) < 2 ^ 63"
  shows "\<exists>t'. insert_tuple_with_branchId tuple db t ctx b =
      ((Inr (of_nat (Table_size t)), t'), ctx\<lparr>ctx_branchId := b\<rparr>)
    \<and> db_inv (put_table table t' db)
        (S(table := (S table)(b := (S table b)(Table_size t \<mapsto> map Some tuple))))"
proof -
  let ?c = "(db, ctx\<lparr>ctx_branchId := b\<rparr>)"
  note T = db_inv_table [OF inv t]
  note size = Table_size_rows [OF T(2)]
  have "\<exists>t'. table_insert ?c tuple t = Some t' \<and> table_ok t' \<and> table_width t' = table_width t
    \<and> tb_rows t' = Suc (tb_rows t)
    \<and> snap_inv (lineage_of (db_branches db)) (db_next_branch_id db) (tb_rows t') (tuple_history t')
        (tb_visible t') (tb_row t')
        ((S table)(ctx_branchId (snd ?c) := (S table (ctx_branchId (snd ?c)))(tb_rows t \<mapsto> map Some tuple)))"
    by (rule vt.ins_snap) (use T len room b in \<open>simp_all add: size n_minus_one Table_getColumnCount_def\<close>)
  then obtain t' where t': "table_insert ?c tuple t = Some t'" "table_ok t'" "table_width t' = table_width t"
    "snap_inv (lineage_of (db_branches db)) (db_next_branch_id db) (tb_rows t') (tuple_history t')
        (tb_visible t') (tb_row t') ((S table)(b := (S table b)(tb_rows t \<mapsto> map Some tuple)))"
    by auto
  have w: "unat b < bm_columnCount (tb_branchBitmap t)" "unat b < unat (1 + Database_getLargestBranchId db)"
    using T(3) b by (simp_all add: table_width_def word_less_nat_alt n_minus_one)
  have "\<exists>u. insert_tuple tuple db t (snd ?c) = (Inr (of_nat (tb_rows t)), u)"
    using insert_tuple_Inr [OF T(2), of "snd ?c" db tuple] w room len
    by (auto simp: size Table_getColumnCount_def)
  with t'(1) have "insert_tuple tuple db t (snd ?c) = (Inr (of_nat (tb_rows t)), t')"
    by (auto simp: table_insert_def)
  then show ?thesis
    using db_inv_put [OF inv t t'(2,3,4)] by (auto simp: insert_tuple_with_branchId_def size)
qed

lemma produce_tuple_lineage:
  assumes "TableScan_produce_tuple t columns b tid ctx = (r, ctx')" "b \<noteq> master_branch_id" "ctx_serves brs b ctx"
  shows "ctx_branch_lineage ctx' = lineage_of brs b"
  using assms
  by (auto simp: TableScan_produce_tuple_def get_latest_entry_def ctx_serves_def Let_def split: prod.splits)

lemma update_keeps:
  assumes inv: "db_inv db S" and t: "Database_getTable db table = Some t" and b: "b < db_next_branch_id db"
    and len: "length tuple = Table_getColumnCount t" and i: "i < Table_size t"
    and vis: "isVisibleInBranch (tb_branchBitmap t) i b = Inr True"
    and ctx: "b \<noteq> master_branch_id \<longrightarrow> ctx_branch_lineage ctx = lineage_of (db_branches db) b"
    and loads: "update_loads b t = Inr ()"
  shows "\<exists>t'. update_tuple_with_branchId (of_nat i) b tuple db t ctx =
      (Some (None, t'), ctx\<lparr>ctx_branchId := b\<rparr>)
    \<and> db_inv (put_table table t' db) (S(table := (S table)(b := (S table b)(i \<mapsto> map Some tuple))))"
proof -
  let ?c = "(db, ctx\<lparr>ctx_branchId := b\<rparr>)"
  note T = db_inv_table [OF inv t]
  note size = Table_size_rows [OF T(2)]
  have w: "unat b < bm_columnCount (tb_branchBitmap t)"
    using T(3) b by (simp add: table_width_def word_less_nat_alt)
  with vis i have v: "tb_visible t i b" using isVisibleInBranch_Inr [OF T(2)] by (simp add: size)
  have "\<exists>t'. table_update ?c i tuple t = Some t' \<and> table_ok t' \<and> table_width t' = table_width t
    \<and> tb_rows t' = tb_rows t
    \<and> snap_inv (lineage_of (db_branches db)) (db_next_branch_id db) (tb_rows t') (tuple_history t')
        (tb_visible t') (tb_row t')
        ((S table)(ctx_branchId (snd ?c) := (S table (ctx_branchId (snd ?c)))(i \<mapsto> map Some tuple)))"
    by (rule vt.upd_snap) (use T len b v i ctx loads in \<open>simp_all add: size n_minus_one Table_getColumnCount_def\<close>)
  then obtain t' where t': "table_update ?c i tuple t = Some t'" "table_ok t'" "table_width t' = table_width t"
    "snap_inv (lineage_of (db_branches db)) (db_next_branch_id db) (tb_rows t') (tuple_history t')
        (tb_visible t') (tb_row t') ((S table)(b := (S table b)(i \<mapsto> map Some tuple)))"
    by auto
  then have "update_tuple (of_nat i) tuple db t (snd ?c) = Some (None, t')"
    by (auto simp: table_update_def split: option.splits prod.splits)
  then show ?thesis
    using db_inv_put [OF inv t t'(2,3,4)] by (auto simp: update_tuple_with_branchId_def)
qed

lemma update_refused:
  assumes inv: "db_inv db S" and t: "Database_getTable db table = Some t" and i: "i < Table_size t"
    and loads: "update_loads b t = Inl e"
  shows "update_tuple_with_branchId (of_nat i) b tuple db t ctx = (Some (Some e, t), ctx\<lparr>ctx_branchId := b\<rparr>)"
proof -
  note T = db_inv_table [OF inv t]
  have b: "b = master_branch_id" "row_loads t = Inl e" using loads by (auto simp: update_loads_def split: if_splits)
  have "i < tb_rows t" using i Table_size_rows [OF T(2)] by simp
  from update_master_Inl [OF T(2) this _ b(2), of "ctx\<lparr>ctx_branchId := b\<rparr>" tuple db] b(1)
  show ?thesis by (simp add: update_tuple_with_branchId_def Let_def)
qed

lemma delete_keeps:
  assumes inv: "db_inv db S" and t: "Database_getTable db table = Some t" and b: "b < db_next_branch_id db"
    and i: "i < Table_size t"
  shows "\<exists>t'. delete_tuple_with_branchId (of_nat i) b t ctx = (Inr t', ctx\<lparr>ctx_branchId := b\<rparr>)
    \<and> db_inv (put_table table t' db) (S(table := (S table)(b := (S table b)(i := None))))"
proof -
  let ?c = "(db, ctx\<lparr>ctx_branchId := b\<rparr>)"
  note T = db_inv_table [OF inv t]
  note size = Table_size_rows [OF T(2)]
  have "\<exists>t'. table_delete ?c i t = Some t' \<and> table_ok t' \<and> table_width t' = table_width t
    \<and> tb_rows t' = tb_rows t
    \<and> snap_inv (lineage_of (db_branches db)) (db_next_branch_id db) (tb_rows t') (tuple_history t')
        (tb_visible t') (tb_row t')
        ((S table)(ctx_branchId (snd ?c) := (S table (ctx_branchId (snd ?c)))(i := None)))"
    by (rule vt.del_snap) (use T b i in \<open>simp_all add: size\<close>)
  then obtain t' where t': "table_delete ?c i t = Some t'" "table_ok t'" "table_width t' = table_width t"
    "snap_inv (lineage_of (db_branches db)) (db_next_branch_id db) (tb_rows t') (tuple_history t')
        (tb_visible t') (tb_row t') ((S table)(b := (S table b)(i := None)))"
    by auto
  then have "delete_tuple (of_nat i) t (snd ?c) = Inr t'"
    by (auto simp: table_delete_def split: sum.splits)
  then show ?thesis
    using db_inv_put [OF inv t t'(2,3,4)] by (auto simp: delete_tuple_with_branchId_def)
qed

text \<open>Creating a branch and a table.\<close>

lemma createBranch_tables_None:
  "createBranch_tables p ts = (None, ts') \<Longrightarrow> map fst ts' = map fst ts
     \<and> (\<forall>n t'. (n, t') \<in> set ts' \<longrightarrow> (\<exists>t. (n, t) \<in> set ts \<and> Table_createBranch p t = (None, t')))"
proof (induction ts arbitrary: ts')
  case (Cons x ts)
  obtain n t where [simp]: "x = (n, t)" by (cases x)
  from Cons.prems obtain t' ts1 where t': "Table_createBranch p t = (None, t')"
    "createBranch_tables p ts = (None, ts1)" "ts' = (n, t') # ts1"
    by (auto split: prod.splits option.splits)
  from Cons.IH [OF t'(2)] t'(1,3) show ?case by auto
qed simp

lemma create_branch_keeps:
  assumes inv: "db_inv db S" and p: "parent < db_next_branch_id db"
    and n: "db_next_branch_id db + 1 < invalid_branch_id"
    and run: "Database_createBranch name parent db = (Inr child, db')"
  shows "child = db_next_branch_id db" "db_inv db' (\<lambda>table. (S table)(child := S table parent))"
proof -
  let ?n = "db_next_branch_id db"
  define br where "br = \<lparr>br_id = ?n, br_parent_id = parent, br_name = name\<rparr>"
  have ok: "branches_ok (db_branches db) ?n" using inv by (simp add: db_inv_def)
  have new: "map_of (db_branches db) ?n = None" using ok by (auto simp: branches_ok_def map_of_eq_None_iff)
  from run obtain ts where ts: "createBranch_tables parent (db_tables db) = (None, ts)" "child = ?n"
    "db' = db\<lparr>db_tables := ts, db_next_branch_id := ?n + 1, db_branches := db_branches db @ [(?n, br)],
        db_branchMapping := (db_branchMapping db)(name \<mapsto> ?n)\<rparr>"
    using new by (auto simp: Database_createBranch_def Let_def br_def split: prod.splits option.splits)
  show "child = ?n" by (rule ts(2))
  have pbr: "br_parent_id br = parent" by (simp add: br_def)
  note nb = new_branch [OF ok, of br, unfolded pbr, OF p n]
  have n0: "?n + 1 \<noteq> 0"
  proof -
    have "0 < ?n + 1" using nb(1) by (simp add: branches_ok_def)
    then show ?thesis by (metis less_irrefl)
  qed
  have tab: "table_inv db' t' ((S table)(?n := S table parent))" if "(table, t') \<in> set ts" for table t'
  proof -
    from that createBranch_tables_None [OF ts(1)] obtain t where t: "(table, t) \<in> set (db_tables db)"
      "Table_createBranch parent t = (None, t')" by blast
    then have "Database_getTable db table = Some t"
      using inv by (simp add: Database_getTable_def db_inv_def)
    note T = db_inv_table [OF inv this]
    have "table_ok t' \<and> table_width t' = unat (?n + 1)
      \<and> snap_inv (lineage_of (db_branches db @ [(?n, br)])) (?n + 1) (tb_rows t') (tuple_history t')
          (tb_visible t') (tb_row t') ((S table)(?n := S table parent))"
      by (rule vt.clone_snap [where s = t and n = ?n and p = parent and lin = "lineage_of (db_branches db)"])
        (use T n0 p nb(2,3) t(2) in \<open>simp_all add: table_clone_def\<close>)
    then show ?thesis by (simp add: table_inv_def ts(3))
  qed
  have names: "map fst ts = map fst (db_tables db)" using createBranch_tables_None [OF ts(1)] by blast
  then have "fst ` set ts = fst ` set (db_tables db)" by (metis set_map)
  with inv tab names nb(1) show "db_inv db' (\<lambda>table. (S table)(child := S table parent))"
    by (auto simp: db_inv_def ts(2,3) fun_eq_iff)
qed

definition empty_table :: "nat \<Rightarrow> 'v Table \<Rightarrow> bool" where
  \<comment> \<open>a table under construction: no rows, some columns, \<open>k\<close> branches\<close>
  "empty_table k t \<longleftrightarrow> tb_ok t \<and> tb_rows t = 0 \<and> table_width t = k
     \<and> distinct (map (ci_columnName \<circ> fst) (tb_columns t))
     \<and> tb_dangling_version_mgmt_column t = [] \<and> tb_heap t = Map.empty \<and> plain_columns t"

lemma empty_table_ok:
  assumes "empty_table k t" "tb_columns t \<noteq> []"
  shows "table_ok t" "table_width t = k" "snap_inv lin n (tb_rows t) (tuple_history t) (tb_visible t) (tb_row t) (\<lambda>_ _. None)"
proof -
  have "vt_ok t \<and> (\<forall>i < tb_rows t. tuple_chain t i = [])"
    by (rule vt_okI) (use assms in \<open>auto simp: empty_table_def\<close>)
  with assms show "table_ok t" by (simp add: table_ok_def empty_table_def)
qed (use assms in \<open>simp_all add: empty_table_def snap_inv_def\<close>)

lemma addColumn_success:
  assumes "bm_ok bm" "BitmapTable_addColumn bm = (Inr c, bm')"
  shows "bm_ok bm' \<and> bm_rows bm' = bm_rows bm \<and> bm_columnCount bm' = Suc (bm_columnCount bm)
    \<and> bm_availableCount bm' = bm_availableCount bm \<and> c = bm_columnCount bm"
proof -
  have "bm_columnCount bm \<noteq> bm_availableCount bm" using assms(2) BitmapTable_full(1) [of bm] by auto
  with assms(1) have "bm_columnCount bm < bm_availableCount bm" by (simp add: bm_ok_def)
  with BitmapTable_addColumn_Inr [OF assms(1)] assms(2) show ?thesis by auto
qed

lemma empty_createBranch:
  assumes "empty_table k t" "Table_createBranch invalid_branch_id t = (None, t')"
  shows "empty_table (Suc k) t'"
proof -
  from assms(2) obtain c bm' where bm': "BitmapTable_addColumn (tb_branchBitmap t) = (Inr c, bm')"
    "t' = t\<lparr>tb_branchBitmap := bm'\<rparr>"
    by (auto simp: Table_createBranch_def split: prod.splits sum.splits)
  have "bm_ok (tb_branchBitmap t)" using assms(1) by (simp add: empty_table_def tb_ok_def)
  from addColumn_success [OF this bm'(1)] assms(1) show ?thesis
    by (simp add: bm'(2) empty_table_def tb_ok_cells cells_ok_def table_width_def tb_rows_def plain_columns_def
        Table_getTupleType_def)
qed

lemma empty_addColumn:
  assumes e: "empty_table k t" and type: "\<not> ty_nullable type"
    and run: "Table_addColumn valueSize name type t = (None, t')"
  shows "empty_table k t'" "tb_columns t' \<noteq> []"
proof -
  have nit: "bm_ok (tb_nullIndicatorTable t)" "nulls_ok (map fst (tb_columns t)) (tb_nullIndicatorTable t)"
    "bm_rows (tb_nullIndicatorTable t) = 0" and by_name:
    "tb_columnsByName t = zip (map (ci_columnName \<circ> fst) (tb_columns t)) [0 ..< length (tb_columns t)]"
    using e by (simp_all add: empty_table_def tb_ok_def)
  from run have fresh: "map_of (tb_columnsByName t) name = None"
    by (auto simp: Table_addColumn_def split: if_splits)
  then have name: "name \<notin> set (map (ci_columnName \<circ> fst) (tb_columns t))"
    by (simp add: by_name map_of_zip_is_None)
  obtain nit' idx where t': "bm_ok nit'" "bm_rows nit' = bm_rows (tb_nullIndicatorTable t)"
    "nulls_ok (map fst (tb_columns t) @ [\<lparr>ci_columnName = name, ci_type = type, ci_nullColumnIndex = idx\<rparr>]) nit'"
    "t' = t\<lparr>tb_nullIndicatorTable := nit',
            tb_columnsByName := tb_columnsByName t @ [(name, length (tb_columns t))],
            tb_columns := tb_columns t @ [(\<lparr>ci_columnName = name, ci_type = type, ci_nullColumnIndex = idx\<rparr>,
              Vector_ctor (valueSize (toNotNullableTy type)))]\<rparr>"
  proof (cases "ty_nullable type")
    case True
    with run fresh obtain c nit' where "BitmapTable_addColumn (tb_nullIndicatorTable t) = (Inr c, nit')"
      "t' = t\<lparr>tb_nullIndicatorTable := nit',
            tb_columnsByName := tb_columnsByName t @ [(name, length (tb_columns t))],
            tb_columns := tb_columns t @ [(\<lparr>ci_columnName = name, ci_type = type, ci_nullColumnIndex = Some c\<rparr>,
              Vector_ctor (valueSize (toNotNullableTy type)))]\<rparr>"
      by (auto simp: Table_addColumn_def Let_def map_sum_def split: prod.splits sum.splits)
    moreover from this addColumn_success [OF nit(1)]
    have "nulls_ok (map fst (tb_columns t) @ [\<lparr>ci_columnName = name, ci_type = type, ci_nullColumnIndex = Some c\<rparr>]) nit'"
      using nit(2,3) True by (fastforce simp: nulls_ok_def split: option.splits)
    ultimately show ?thesis using addColumn_success [OF nit(1)] that by blast
  next
    case False
    with nit(2) have "nulls_ok (map fst (tb_columns t) @ [\<lparr>ci_columnName = name, ci_type = type,
        ci_nullColumnIndex = None\<rparr>]) (tb_nullIndicatorTable t)"
      by (simp add: nulls_ok_def)
    with False run fresh nit that [of "tb_nullIndicatorTable t" None] show ?thesis
      by (simp add: Table_addColumn_def Let_def)
  qed
  then show "tb_columns t' \<noteq> []" by simp
  show "empty_table k t'"
    using e t'(1-3) name type
    by (auto simp: t'(4) plain_columns_def Table_getTupleType_def empty_table_def tb_ok_cells cells_ok_def table_width_def tb_rows_def
        Vector_ctor_def Vector_reserve_ctor_def vec_ok_def vec_defaultCount_def Let_def comp_def)
qed

lemma empty_Table_ctor:
  "\<exists>t. Table_ctor = (None, t) \<and> empty_table 1 t \<and> tb_columns t = []"
proof -
  from BitmapTable_addColumn_Inr [OF BitmapTable_ctor_ok(1), of 8] obtain bm where bm:
    "BitmapTable_addColumn (BitmapTable_ctor 8) = (Inr 0, bm)" "bm_ok bm" "bm_rows bm = 0"
    "bm_columnCount bm = 1" "bm_availableCount bm = 8"
    by (auto simp: BitmapTable_ctor_ok)
  then show ?thesis
    by (simp add: Table_ctor_def Table_createBranch_def BitmapTable_default_ctor_def empty_table_def
        tb_ok_def tb_rows_def table_width_def BitmapTable_ctor_ok nulls_ok_def plain_columns_def
        Table_getTupleType_def)
qed

lemma empty_createBranches:
  "empty_table k t \<Longrightarrow> foldE (\<lambda>_. Table_createBranch invalid_branch_id) xs t = (None, t') \<Longrightarrow>
     empty_table (k + length xs) t'"
proof (induction xs arbitrary: k t)
  case (Cons x xs)
  from Cons.prems(2) obtain t1 where t1: "Table_createBranch invalid_branch_id t = (None, t1)"
    "foldE (\<lambda>_. Table_createBranch invalid_branch_id) xs t1 = (None, t')"
    by (auto split: prod.splits option.splits)
  from Cons.IH [OF empty_createBranch [OF Cons.prems(1) t1(1)] t1(2)] show ?case by simp
qed simp

lemma empty_add_columns:
  "empty_table k t \<Longrightarrow> \<forall>(_, type) \<in> set cols. \<not> ty_nullable type \<Longrightarrow>
     add_columns valueSize cols t = (None, t') \<Longrightarrow> empty_table k t' \<and> (cols \<noteq> [] \<longrightarrow> tb_columns t' \<noteq> [])"
proof (induction cols arbitrary: t)
  case (Cons c cols)
  obtain name type where [simp]: "c = (name, type)" by (cases c)
  from Cons.prems(3) obtain t1 where t1: "Table_addColumn valueSize name type t = (None, t1)"
    "add_columns valueSize cols t1 = (None, t')"
    by (auto simp: add_columns_def split: prod.splits option.splits)
  have type: "\<not> ty_nullable type" and rest: "\<forall>(_, type) \<in> set cols. \<not> ty_nullable type"
    using Cons.prems(2) by auto
  from empty_addColumn [OF Cons.prems(1) type t1(1)] Cons.IH [OF _ rest t1(2)] t1(2) show ?case
    by (cases cols) (auto simp: add_columns_def)
qed (simp add: add_columns_def)

lemma create_table_keeps:
  assumes inv: "db_inv db S" and run: "Database_createTable name db = (None, db1)"
    and t: "Database_getTable db1 name = Some t" and cols: "cols \<noteq> []"
      "\<forall>(_, type) \<in> set cols. \<not> ty_nullable type"
    and add: "add_columns valueSize cols t = (None, t')"
  shows "db_inv (put_table name t' db1) S"
proof -
  let ?n = "db_next_branch_id db"
  have ok: "branches_ok (db_branches db) ?n" using inv by (simp add: db_inv_def)
  then have len: "length (db_branches db) = unat ?n" "0 < unat ?n"
    by (auto simp: branches_ok_def word_less_nat_alt)
  obtain t0 where t0: "Table_ctor = (None, t0 :: 'a Table)" "empty_table 1 t0"
    using empty_Table_ctor by blast
  from run obtain t1 where t1: "Database_getTable db name = None"
    "foldE (\<lambda>_. Table_createBranch invalid_branch_id) [0 ..< length (db_branches db) - 1] t0 = (None, t1)"
    "db1 = db\<lparr>db_tables := db_tables db @ [(name, t1)]\<rparr>"
    by (auto simp: Database_createTable_def t0(1) split: if_splits prod.splits)
  have fresh: "name \<notin> fst ` set (db_tables db)"
    using t1(1) by (simp add: Database_getTable_def map_of_eq_None_iff)
  have "empty_table (unat ?n) t1"
    using empty_createBranches [OF t0(2) t1(2)] len by simp
  moreover have "t = t1"
    using t t1(3) fresh by (simp add: Database_getTable_def map_add_def map_of_eq_None_iff [THEN iffD2])
  ultimately have e: "empty_table (unat ?n) t'" "tb_columns t' \<noteq> []"
    using empty_add_columns [OF _ cols(2) add] cols(1) by auto
  have S: "S name = (\<lambda>_ _. None)" using inv fresh by (simp add: db_inv_def)
  have tabs: "db_tables (put_table name t' db1) = db_tables db @ [(name, t')]"
    using fresh by (auto simp: put_table_def t1(3) intro!: map_idI) force?
  have "table_inv (put_table name t' db1) t' (S name)"
    using empty_table_ok [OF e] by (simp add: table_inv_def put_table_def t1(3) S)
  moreover have "table_inv (put_table name t' db1) u (S n)" if "(n, u) \<in> set (db_tables db)" for n u
    using inv that by (simp add: db_inv_def table_inv_def put_table_def t1(3))
  moreover have "db_branches (put_table name t' db1) = db_branches db"
    "db_next_branch_id (put_table name t' db1) = ?n" by (simp_all add: put_table_def t1(3))
  ultimately show ?thesis
    using inv fresh unfolding db_inv_def tabs by auto
qed

lemma start_inv: "db_inv Database_ctor (\<lambda>_ _. \<lambda>_. None)"
proof -
  have "branches_ok [(0, \<lparr>br_id = 0, br_parent_id = invalid_branch_id, br_name = ''master''\<rparr>)] 1"
    by (auto simp: branches_ok_def invalid_branch_id_def word_less_nat_alt unsigned_minus_1_eq_mask
        mask_eq_exp_minus_1 lessThan_def word_unat_eq_iff)
  then show ?thesis
    by (simp add: db_inv_def Database_ctor_def Database_createBranch_def Let_def master_branch_id_def)
qed

lemma db_run_inv: "db_run valueSize db S \<Longrightarrow> db_inv db S"
proof (induction rule: db_run.induct)
  case (db_insert db S table t b tuple ctx tid t' ctx')
  from insert_keeps [OF db_insert.IH db_insert.hyps(2,3,4,5), of ctx] db_insert.hyps(6)
  have "tid = of_nat (Table_size t)"
    "db_inv (put_table table t' db) (S(table := (S table)(b := (S table b)(Table_size t \<mapsto> map Some tuple))))"
    by auto
  moreover have "unat (of_nat (Table_size t) :: tid_t) = Table_size t"
    using db_insert.hyps(5) by (intro tid_facts(1)) simp
  ultimately show ?case by (simp only:)
next
  case (db_update db S table t b tuple ctx ctx1 i columns r ctx2 t' ctx3)
  have ok: "branches_ok (db_branches db) (db_next_branch_id db)" using db_update.IH by (simp add: db_inv_def)
  from constructBranchLineage_Inr [OF ok db_update.hyps(3,5)] db_update.hyps(6)
  have "ctx_serves (db_branches db) b ctx1" by (auto simp: ctx_serves_def)
  with produce_tuple_lineage [OF db_update.hyps(9)]
  have "b \<noteq> master_branch_id \<longrightarrow> ctx_branch_lineage ctx2 = lineage_of (db_branches db) b" by blast
  moreover have "update_loads b t = Inr ()"
    using update_refused [OF db_update.IH db_update.hyps(2,7), of b] db_update.hyps(10)
    by (cases "update_loads b t") auto
  ultimately have "\<exists>t'. update_tuple_with_branchId (of_nat i) b tuple db t ctx2 = (Some (None, t'), ctx2\<lparr>ctx_branchId := b\<rparr>)
    \<and> db_inv (put_table table t' db) (S(table := (S table)(b := (S table b)(i \<mapsto> map Some tuple))))"
    by (rule update_keeps [OF db_update.IH db_update.hyps(2,3,4,7,8)])
  with db_update.hyps(10)
  have "db_inv (put_table table t' db) (S(table := (S table)(b := (S table b)(i \<mapsto> map Some tuple))))" by auto
  then show ?case by (simp only:)
next
  case (db_delete db S table t b i ctx t' ctx')
  from delete_keeps [OF db_delete.IH db_delete.hyps(2,3,4), of ctx] db_delete.hyps(6)
  have "db_inv (put_table table t' db) (S(table := (S table)(b := (S table b)(i := None))))" by auto
  then show ?case by (simp only:)
next
  case (db_create_branch db S parent name child db')
  show ?case by (rule create_branch_keeps(2) [OF db_create_branch.IH db_create_branch.hyps(2,3,4)])
next
  case (db_create_table db S name db1 t cols t')
  show ?case by (rule create_table_keeps [OF db_create_table.IH db_create_table.hyps(2-6)])
qed (rule start_inv)

section \<open>What a branch reads\<close>

lemma history_length:
  assumes ok: "vt_ok t" and i: "i < tb_rows t" and v: "v \<in> set (tuple_history t i)"
  shows "length (snd (snd v)) = length (tb_columns t)"
proof -
  from v obtain x where x: "x \<in> set (tuple_chain t i)"
    "v = version_of (tb_heap t) (tuple_entry t i) (tb_row t i) x" by (auto simp: tuple_history_def)
  show ?thesis
  proof (cases x)
    case (Storage a)
    with x(1) storages_heap(1) [OF ok i, of a] obtain s where "tb_heap t a = Some s"
      by (auto simp: storages_def)
    with Storage x(2) ok show ?thesis by (auto simp: vt_ok_def)
  qed (simp_all add: x(2) version_of_def tb_row_def)
qed

lemma inv_scan_ready:
  assumes "db_inv db S" "Database_getTable db table = Some t" "b < db_next_branch_id db"
  shows "scan_ready (db_branches db) t b"
    and "i < tb_rows t \<Longrightarrow> visible_row (db_branches db) t b i = S table b i"
proof -
  note T = db_inv_table [OF assms(1,2)]
  have m: "master_branch_id < db_next_branch_id db" using T(5) by (simp add: lin_ok_def master_branch_id_def)
  show "scan_ready (db_branches db) t b"
    unfolding scan_ready_def
  proof (intro conjI allI impI)
    show "plain_columns t" using T(1) by (simp add: table_ok_def)
    fix i assume i: "i < tb_rows t" "tb_visible t i b"
    from snap_inv_found [OF T(4) i(1) assms(3) i(2)] obtain v where
      v: "find (seen_by (lineage_of (db_branches db) b) b) (tuple_history t i) = Some v"
      "S table b i = Some (snd (snd v))" by blast
    then have "v \<in> set (tuple_history t i)" by (auto simp: find_Some_iff)
    from history_length [OF T(2) i(1) this] v snap_invD(4) [OF T(4) i(1)] i(2)
    show "\<exists>v. find (seen_by (lineage_of (db_branches db) b) b) (tuple_history t i) = Some v
       \<and> length (snd (snd v)) = length (tb_columns t)
       \<and> (b = master_branch_id \<longrightarrow> snd (snd v) = tb_row t i)" by auto
  qed
  show "visible_row (db_branches db) t b i = S table b i" if "i < tb_rows t"
    using snap_invD(2,3) [OF T(4) that assms(3)] by (auto simp: visible_row_def)
qed

lemma inv_scan:
  assumes inv: "db_inv db S" and t: "Database_getTable db table = Some t" and b: "b < db_next_branch_id db"
    and req: "set required \<subseteq> insert ''tid'' (set (Table_getColumnNames t))"
    and ctx: "b \<noteq> master_branch_id \<longrightarrow> ctx_serves (db_branches db) b ctx"
  shows "fst (TableScan_produce t (TableScan_ctor t required) b ctx) =
      Some (Inr [(i, row_fields t required i r). i \<leftarrow> [0 ..< Table_size t], r \<leftarrow>
          (case S table b i of None \<Rightarrow> [] | Some r \<Rightarrow> [r])])"
proof -
  note T = db_inv_table [OF inv t]
  have names: "distinct (map (ci_columnName \<circ> fst) (tb_columns t))" using T(1) by (simp add: table_ok_def)
  have tb: "tb_ok t" using T(2) by (simp add: vt_ok_def)
  have req': "set required \<subseteq> insert ''tid'' (ci_columnName ` fst ` set (tb_columns t))"
    using req by (auto simp: Table_getColumnNames_eq [OF tb])
  have w: "unat b < bm_columnCount (tb_branchBitmap t)"
    using T(3) b by (simp add: table_width_def word_less_nat_alt)
  have "concat (map (\<lambda>i. map (\<lambda>r. (i, row_fields t required i r))
      (case visible_row (db_branches db) t b i of None \<Rightarrow> [] | Some r \<Rightarrow> [r])) [0 ..< tb_rows t])
    = concat (map (\<lambda>i. map (\<lambda>r. (i, row_fields t required i r))
      (case S table b i of None \<Rightarrow> [] | Some r \<Rightarrow> [r])) [0 ..< tb_rows t])"
    using inv_scan_ready(2) [OF inv t b] by (intro arg_cong [where f = concat] map_cong) auto
  with TableScan_produce_Inr [OF T(2) names req' inv_scan_ready(1) [OF inv t b] w ctx] Table_size_rows [OF T(2)]
  show ?thesis by simp
qed

section \<open>An example database\<close>

text \<open>
  One table with one column; a row inserted in the master branch, a branch created from it, the row
  updated in the branch. The evaluated facts let the theorems below be applied to it.
\<close>

definition ex_size :: "SqlType \<Rightarrow> nat" where
  "ex_size type = 4"

definition ex_db1 :: "nat Database" where
  "ex_db1 = snd (Database_createTable ''t'' Database_ctor)"

definition ex_t1 :: "nat Table" where
  "ex_t1 = snd (add_columns ex_size [(''a'', getIntegerTy False)] (the (Database_getTable ex_db1 ''t'')))"

definition ex_db2 :: "nat Database" where
  "ex_db2 = put_table ''t'' ex_t1 ex_db1"

definition ex_t2 :: "nat Table" where
  "ex_t2 = snd (fst (insert_tuple_with_branchId [5] ex_db2 ex_t1 ExecutionContext_ctor 0))"

definition ex_db3 :: "nat Database" where
  "ex_db3 = put_table ''t'' ex_t2 ex_db2"

definition ex_db4 :: "nat Database" where
  "ex_db4 = snd (Database_createBranch ''b'' 0 ex_db3)"

definition ex_t4 :: "nat Table" where
  "ex_t4 = the (Database_getTable ex_db4 ''t'')"

definition ex_ctx :: "nat Database \<Rightarrow> branch_id_t \<Rightarrow> ExecutionContext" where
  "ex_ctx db b = (case constructBranchLineage db b ExecutionContext_ctor of
      Some (Inr ctx) \<Rightarrow> ctx | _ \<Rightarrow> ExecutionContext_ctor)"

definition ex_ctx2 :: ExecutionContext where
  "ex_ctx2 = snd (TableScan_produce_tuple ex_t4 (TableScan_ctor ex_t4 [''a'']) 1 0 (ex_ctx ex_db4 1))"

definition ex_t5 :: "nat Table" where
  "ex_t5 = (case update_tuple_with_branchId 0 1 [7] ex_db4 ex_t4 ex_ctx2 of
      (Some (None, t), _) \<Rightarrow> t | _ \<Rightarrow> ex_t4)"

definition ex_db5 :: "nat Database" where
  "ex_db5 = put_table ''t'' ex_t5 ex_db4"

definition ex_S3 :: "string \<Rightarrow> nat snapshots" where
  "ex_S3 = (\<lambda>_ _ _. None)(''t'' := (\<lambda>_ _. None)(0 := [0 \<mapsto> [Some 5]]))"

definition ex_S4 :: "string \<Rightarrow> nat snapshots" where
  "ex_S4 = (\<lambda>table. (ex_S3 table)(1 := ex_S3 table 0))"

definition ex_S5 :: "string \<Rightarrow> nat snapshots" where
  "ex_S5 = ex_S4(''t'' := (ex_S4 ''t'')(1 := (ex_S4 ''t'' 1)(0 \<mapsto> [Some 7])))"

lemma ex_ctx_eq:
  "case constructBranchLineage db b ExecutionContext_ctor of Some (Inr ctx) \<Rightarrow> True | _ \<Rightarrow> False \<Longrightarrow>
     constructBranchLineage db b ExecutionContext_ctor = Some (Inr (ex_ctx db b))"
  by (auto simp: ex_ctx_def split: option.splits sum.splits)

lemma ex_lookup: "case x of Some t \<Rightarrow> True | None \<Rightarrow> False \<Longrightarrow> x = Some (the x)"
  by (simp split: option.splits)

lemma ex_facts:
  "fst (Database_createTable ''t'' (Database_ctor :: nat Database)) = None"
  "fst (add_columns ex_size [(''a'', getIntegerTy False)] (the (Database_getTable ex_db1 ''t''))) = None"
  "case Database_getTable ex_db1 ''t'' of Some t \<Rightarrow> True | None \<Rightarrow> False"
  "fst (fst (insert_tuple_with_branchId [5] ex_db2 ex_t1 ExecutionContext_ctor 0)) = Inr 0"
  "Table_getColumnCount ex_t1 = 1" "Table_size ex_t1 = 0" "db_next_branch_id ex_db2 = 1"
  "fst (Database_createBranch ''b'' 0 ex_db3) = Inr 1" "db_next_branch_id ex_db3 = 1"
  by code_simp+

lemma ex_facts4:
  "db_next_branch_id ex_db4 = 2" "Table_getColumnCount ex_t4 = 1" "Table_size ex_t4 = 1"
  "case Database_getTable ex_db4 ''t'' of Some t \<Rightarrow> True | None \<Rightarrow> False"
  "case constructBranchLineage ex_db4 1 ExecutionContext_ctor of Some (Inr ctx) \<Rightarrow> True | _ \<Rightarrow> False"
  "isVisibleInBranch (tb_branchBitmap ex_t4) 0 1 = Inr True"
  "fst (TableScan_produce_tuple ex_t4 (TableScan_ctor ex_t4 [''a'']) 1 0 (ex_ctx ex_db4 1)) = Some (Inr [ValueField (Some 5)])"
  "case fst (update_tuple_with_branchId 0 1 [7] ex_db4 ex_t4 ex_ctx2) of Some (None, t) \<Rightarrow> True | _ \<Rightarrow> False"
  by code_simp+

lemma ex_facts5:
  "db_next_branch_id ex_db5 = 2" "Table_size ex_t5 = 1" "Table_getColumnNames ex_t5 = [''a'']"
  "case constructBranchLineage ex_db5 1 ExecutionContext_ctor of Some (Inr ctx) \<Rightarrow> True | _ \<Rightarrow> False"
  "case constructBranchLineage ex_db5 0 ExecutionContext_ctor of Some (Inr ctx) \<Rightarrow> True | _ \<Rightarrow> False"
  "column_index ex_t5 ''a'' = 0" "\<not> ty_nullable (ci_type (fst (tb_columns ex_t5 ! 0)))" "Table_getColumnCount ex_t5 = 1"
  "isVisibleInBranch (tb_branchBitmap ex_t5) 0 0 = Inr True"
  by code_simp+

lemma put_table_get: "Database_getTable db n = Some t \<Longrightarrow> Database_getTable (put_table n u db) n = Some u"
proof -
  have "map_of ts n = Some t \<Longrightarrow> map_of (map (\<lambda>(m, t'). (m, if m = n then u else t')) ts) n = Some u" for ts
    by (induction ts) auto
  then show "Database_getTable db n = Some t \<Longrightarrow> Database_getTable (put_table n u db) n = Some u"
    by (simp add: Database_getTable_def put_table_def)
qed

lemma ex_tables:
  "Database_getTable ex_db1 ''t'' = Some (the (Database_getTable ex_db1 ''t''))"
  "Database_getTable ex_db2 ''t'' = Some ex_t1" "Database_getTable ex_db3 ''t'' = Some ex_t2"
  "Database_getTable ex_db4 ''t'' = Some ex_t4" "Database_getTable ex_db5 ''t'' = Some ex_t5"
proof -
  show 1: "Database_getTable ex_db1 ''t'' = Some (the (Database_getTable ex_db1 ''t''))"
    by (rule ex_lookup [OF ex_facts(3)])
  show 2: "Database_getTable ex_db2 ''t'' = Some ex_t1" unfolding ex_db2_def by (rule put_table_get [OF 1])
  show "Database_getTable ex_db3 ''t'' = Some ex_t2" unfolding ex_db3_def by (rule put_table_get [OF 2])
  show 4: "Database_getTable ex_db4 ''t'' = Some ex_t4" unfolding ex_t4_def by (rule ex_lookup [OF ex_facts4(4)])
  show "Database_getTable ex_db5 ''t'' = Some ex_t5" unfolding ex_db5_def by (rule put_table_get [OF 4])
qed

lemma ex_run4: "db_run ex_size ex_db4 ex_S4"
proof -
  have "db_run ex_size ex_db2 (\<lambda>_ _ _. None)"
    unfolding ex_db2_def
    by (rule db_create_table [OF db_start _ ex_tables(1), where cols = "[(''a'', getIntegerTy False)]"])
      (use ex_facts(1,2) in \<open>simp_all add: ex_db1_def ex_t1_def prod_eq_iff getIntegerTy_def SqlType_ctor_def\<close>)
  from db_insert [OF this ex_tables(2), where b = 0 and tuple = "[5]" and ctx = ExecutionContext_ctor
      and tid = 0 and t' = ex_t2]
  have "db_run ex_size ex_db3 ex_S3"
    using ex_facts(4-7) by (simp add: ex_db3_def ex_t2_def ex_S3_def prod_eq_iff)
  from db_create_branch [OF this, of 0 "''b''" 1 ex_db4] ex_facts(8,9) show ?thesis
    unfolding ex_S4_def by (simp add: ex_db4_def prod_eq_iff invalid_branch_id_def)
qed

lemma ex_run5: "db_run ex_size ex_db5 ex_S5"
proof -
  have upd: "update_tuple_with_branchId 0 1 [7] ex_db4 ex_t4 ex_ctx2 =
      (Some (None, ex_t5), snd (update_tuple_with_branchId 0 1 [7] ex_db4 ex_t4 ex_ctx2))"
    using ex_facts4(8) by (auto simp: ex_t5_def split: option.splits prod.splits)
  have scan: "TableScan_produce_tuple ex_t4 (TableScan_ctor ex_t4 [''a'']) 1 (of_nat 0) (ex_ctx ex_db4 1) =
      (Some (Inr [ValueField (Some 5)]), ex_ctx2)"
    using ex_facts4(7) by (simp add: ex_ctx2_def prod_eq_iff)
  have "db_run ex_size ex_db5 (ex_S4(''t'' := (ex_S4 ''t'')(1 := (ex_S4 ''t'' 1)(0 \<mapsto> map Some [7]))))"
    unfolding ex_db5_def
    by (rule db_update [OF ex_run4 ex_tables(4) _ _ _ ex_ctx_eq [OF ex_facts4(5)] _ _ scan])
      (use ex_facts4 upd in \<open>simp_all add: ExecutionContext_ctor_def\<close>)
  then show ?thesis by (simp add: ex_S5_def)
qed

section \<open>Properties\<close>

text \<open>
  C1: branch isolation. In every database that a run of statements reaches, a scan of a table in a
  branch ends and yields exactly the rows of the branch's snapshot, in the order of their tids and
  with the required columns: the rows its parent had when the branch was created, with the inserts,
  updates and deletes made in the branch since then and none of those made in other branches. (The columns
  are those \<^verbatim>\<open>CREATE TABLE\<close> accepts, which are not nullable. The scan is taken at the level of cells: for
  which types code that loads a cell can be generated is \<open>Value_load_gen\<close>, which throws for a boolean.)
\<close>

theorem branch_snapshots:
  assumes "db_run valueSize db S" "Database_getTable db table = Some t" "b < db_next_branch_id db"
    and "set required \<subseteq> insert ''tid'' (set (Table_getColumnNames t))"
    and "constructBranchLineage db b ctx0 = Some (Inr ctx)" "ctx_branch_lineages ctx0 b = None"
  shows "fst (TableScan_produce t (TableScan_ctor t required) b ctx) =
      Some (Inr [(i, row_fields t required i r). i \<leftarrow> [0 ..< Table_size t], r \<leftarrow>
          (case S table b i of None \<Rightarrow> [] | Some r \<Rightarrow> [r])])"
proof -
  note inv = db_run_inv [OF assms(1)]
  then have "branches_ok (db_branches db) (db_next_branch_id db)" by (simp add: db_inv_def)
  from constructBranchLineage_Inr [OF this assms(3,6)] assms(5)
  have "ctx_serves (db_branches db) b ctx" by (auto simp: ctx_serves_def)
  with inv_scan [OF inv assms(2,3,4)] show ?thesis by blast
qed

theorem branch_snapshots_witness:
  "fst (TableScan_produce ex_t5 (TableScan_ctor ex_t5 [''a'']) 1 (ex_ctx ex_db5 1)) = Some (Inr [(0, [ValueField (Some 7)])])"
  by (subst branch_snapshots [OF ex_run5 ex_tables(5) _ _ ex_ctx_eq [OF ex_facts5(4)]])
    (simp_all add: ex_facts5 ExecutionContext_ctor_def ex_S5_def ex_S4_def row_fields_def)

text \<open>
  C6: what an update of a visible row does. In every reachable database, for every row that is visible
  in a branch, the scan finds a version, and the update that follows it ends. It throws in one case: an
  update of the master branch first loads the row it replaces, and \<^verbatim>\<open>Value::load\<close> throws for a column whose
  type it does not know; then that exception is the result and the table is as before. Otherwise the
  update succeeds, and the resulting database is again that of a run, whose snapshots differ only in the
  updated row of the branch. (A column of type longinteger is such a column; a nullable one would be
  too, but \<^verbatim>\<open>CREATE TABLE\<close> rejects it.)
\<close>

theorem visible_rows_update:
  assumes "db_run valueSize db S" "Database_getTable db table = Some t" "b < db_next_branch_id db"
    and "length tuple = Table_getColumnCount t" "i < Table_size t"
    and "isVisibleInBranch (tb_branchBitmap t) i b = Inr True" "ctx_branch_lineages ctx0 b = None"
    and "set required \<subseteq> insert ''tid'' (set (Table_getColumnNames t))"
  shows "\<exists>ctx r ctx' res t' ctx''. constructBranchLineage db b ctx0 = Some (Inr ctx)
    \<and> TableScan_produce_tuple t (TableScan_ctor t required) b (of_nat i) ctx = (Some (Inr r), ctx')
    \<and> update_tuple_with_branchId (of_nat i) b tuple db t ctx' = (Some (res, t'), ctx'')
    \<and> (case if b = master_branch_id then mapM_res Value_load_check (Table_getTupleType t) else Inr [] of
         Inl e \<Rightarrow> res = Some e \<and> t' = t
       | Inr _ \<Rightarrow> res = None \<and> db_run valueSize (put_table table t' db)
           (S(table := (S table)(b := (S table b)(i \<mapsto> map Some tuple)))))"
proof -
  note inv = db_run_inv [OF assms(1)]
  note T = db_inv_table [OF inv assms(2)]
  have brs: "branches_ok (db_branches db) (db_next_branch_id db)" using inv by (simp add: db_inv_def)
  from constructBranchLineage_Inr [OF brs assms(3,7)] obtain ctx where ctx:
    "constructBranchLineage db b ctx0 = Some (Inr ctx)" "ctx_serves (db_branches db) b ctx"
    by (auto simp: ctx_serves_def)
  have names: "distinct (map (ci_columnName \<circ> fst) (tb_columns t))" using T(1) by (simp add: table_ok_def)
  have "set required \<subseteq> insert ''tid'' (ci_columnName ` fst ` set (tb_columns t))"
    using assms(8) T(2) by (auto simp: Table_getColumnNames_eq vt_ok_def)
  moreover have i: "i < tb_rows t" using assms(5) Table_size_rows [OF T(2)] by simp
  moreover have "tb_visible t i b"
    using isVisibleInBranch_Inr [OF T(2) i] assms(3,6) T(3) by (simp add: table_width_def word_less_nat_alt)
  ultimately obtain r ctx' where scan:
    "TableScan_produce_tuple t (TableScan_ctor t required) b (of_nat i) ctx = (Some (Inr r), ctx')"
    using produce_tuple_Inr [OF T(2) names _ inv_scan_ready(1) [OF inv assms(2,3)]] ctx(2) by blast
  have lineage: "b \<noteq> master_branch_id \<longrightarrow> ctx_branch_lineage ctx' = lineage_of (db_branches db) b"
    using produce_tuple_lineage [OF scan] ctx(2) by blast
  let ?loads = "if b = master_branch_id then mapM_res Value_load_check (Table_getTupleType t) else Inr []"
  have loads: "update_loads b t = map_sum id (\<lambda>_. ()) ?loads"
    by (cases "mapM_res Value_load_check (Table_getTupleType t)") (simp_all add: update_loads_def row_loads_def)
  show ?thesis
  proof (cases ?loads)
    case (Inl e)
    with loads have "update_loads b t = Inl e" by (simp only: map_sum.simps id_apply)
    from update_refused [OF inv assms(2,5) this] Inl ctx(1) scan show ?thesis by auto
  next
    case (Inr x)
    with loads have "update_loads b t = Inr ()" by (simp only: map_sum.simps)
    from update_keeps [OF inv assms(2-6) lineage this] obtain t' ctx'' where upd:
      "update_tuple_with_branchId (of_nat i) b tuple db t ctx' = (Some (None, t'), ctx'')" by blast
    from db_update [OF assms(1-4,7) ctx(1) assms(5,6) scan upd] ctx(1) scan upd Inr show ?thesis by auto
  qed
qed

theorem visible_rows_update_witness:
  "\<exists>ctx r ctx' t' ctx''. constructBranchLineage ex_db5 0 ExecutionContext_ctor = Some (Inr ctx)
    \<and> TableScan_produce_tuple ex_t5 (TableScan_ctor ex_t5 [''a'']) 0 (of_nat 0) ctx = (Some (Inr r), ctx')
    \<and> update_tuple_with_branchId (of_nat 0) 0 [9] ex_db5 ex_t5 ctx' = (Some (None, t'), ctx'')
    \<and> db_run ex_size (put_table ''t'' t' ex_db5)
        (ex_S5(''t'' := (ex_S5 ''t'')(0 := (ex_S5 ''t'' 0)(0 \<mapsto> map Some [9]))))"
proof -
  have "mapM_res Value_load_check (Table_getTupleType ex_t5) = Inr [()]" by code_simp
  with visible_rows_update [OF ex_run5 ex_tables(5), of 0 "[9]" 0 ExecutionContext_ctor "[''a'']"]
  show ?thesis by (auto simp: ex_facts5 ExecutionContext_ctor_def master_branch_id_def)
qed

end
