(* ===== verification/StorageProperties.thy ===== *)
theory StorageProperties
  imports DatabaseRuns
begin

text \<open>
  What single operations of the storage promise, stated for a well-formed table or container, and the
  invariant that makes them apply in every database a run of statements reaches.
\<close>

section \<open>Reachable tables\<close>

text \<open>
  C11: in every database that a run of statements reaches, each table is well formed -- every container
  holds one entry per row, every version chain is finite, free of dangling pointers and disjoint from the
  chains of other tuples -- and its branch bitmap has one column per branch, so there are at most eight
  branches as soon as there is a table.
\<close>

theorem run_tables_well_formed:
  assumes "db_run valueSize db S" "Database_getTable db table = Some t"
  shows "vt_ok t \<and> distinct (Table_getColumnNames t)
    \<and> bm_columnCount (tb_branchBitmap t) = unat (db_next_branch_id db) \<and> unat (db_next_branch_id db) \<le> 8"
proof -
  note T = db_inv_table [OF db_run_inv [OF assms(1)] assms(2)]
  have "tb_ok t" using T(2) by (simp add: vt_ok_def)
  with T table_ok_width [OF T(1)] show ?thesis
    by (simp add: table_ok_def table_width_def Table_getColumnNames_eq)
qed

theorem run_tables_well_formed_witness:
  "vt_ok ex_t5 \<and> distinct (Table_getColumnNames ex_t5)
    \<and> bm_columnCount (tb_branchBitmap ex_t5) = unat (db_next_branch_id ex_db5) \<and> unat (db_next_branch_id ex_db5) \<le> 8"
  by (rule run_tables_well_formed [OF ex_run5 ex_tables(5)])

lemma ex_t5_ok: "vt_ok ex_t5" "tb_rows ex_t5 = 1" "length (tb_columns ex_t5) = 1"
    "bm_columnCount (tb_branchBitmap ex_t5) = 2" "bm_ok (tb_branchBitmap ex_t5)" "bm_rows (tb_branchBitmap ex_t5) = 1"
proof -
  show ok: "vt_ok ex_t5" by (rule db_inv_table(2) [OF db_run_inv [OF ex_run5] ex_tables(5)])
  show "tb_rows ex_t5 = 1" "length (tb_columns ex_t5) = 1" "bm_columnCount (tb_branchBitmap ex_t5) = 2"
    by code_simp+
  with ok show "bm_ok (tb_branchBitmap ex_t5)" "bm_rows (tb_branchBitmap ex_t5) = 1"
    by (auto simp: vt_ok_def tb_ok_def)
qed

section \<open>Versions\<close>

text \<open>
  C13: an insert appends one row. The tid it returns is the old number of rows; the history of the new
  tuple is the one version the tuple was given, stamped with the branch of the context and the largest
  branch id; the row is visible in that branch only, and no other tuple's history, cells or visibility
  change.
\<close>

theorem insert_appends_row:
  assumes "vt_ok t" and "unat (ctx_branchId ctx) < bm_columnCount (tb_branchBitmap t)"
    and "unat (ctx_branchId ctx) < unat (1 + Database_getLargestBranchId db)"
    and "Suc (tb_rows t) < 2 ^ 63" and "length tuple = length (tb_columns t)"
  shows "\<exists>t'. insert_tuple tuple db t ctx = (Inr (of_nat (tb_rows t)), t') \<and> vt_ok t' \<and> tb_rows t' = Suc (tb_rows t)
    \<and> tuple_history t' (tb_rows t) = [(ctx_branchId ctx, Database_getLargestBranchId db, map Some tuple)]
    \<and> (\<forall>i < tb_rows t. tuple_history t' i = tuple_history t i \<and> tb_row t' i = tb_row t i)
    \<and> (\<forall>i < tb_rows t'. \<forall>b < 8. bm_bit (tb_branchBitmap t') i b =
         (if i < tb_rows t then bm_bit (tb_branchBitmap t) i b else b = unat (ctx_branchId ctx)))"
proof -
  from insert_tuple_Inr [OF assms] obtain t' where t': "insert_tuple tuple db t ctx = (Inr (of_nat (tb_rows t)), t')"
    "vt_ok t'" "tb_rows t' = Suc (tb_rows t)" "\<forall>i < tb_rows t. tuple_history t' i = tuple_history t i"
    "tuple_history t' (tb_rows t) = [(ctx_branchId ctx, Database_getLargestBranchId db, map Some tuple)]"
    "\<forall>i < tb_rows t'. tb_row t' i = (if i = tb_rows t then map Some tuple else tb_row t i)"
    "\<forall>i < tb_rows t'. \<forall>c < 8. bm_bit (tb_branchBitmap t') i c =
         (if i < tb_rows t then bm_bit (tb_branchBitmap t) i c else c = unat (ctx_branchId ctx))" by blast
  then have "\<forall>i < tb_rows t. tuple_history t' i = tuple_history t i \<and> tb_row t' i = tb_row t i" by auto
  with t' show ?thesis by blast
qed

definition ex_ctx1 :: ExecutionContext where
  "ex_ctx1 = (ex_ctx ex_db5 1)\<lparr>ctx_branchId := 1\<rparr>"

lemma ex_ctx1_facts: "ctx_branchId ex_ctx1 = 1" "Database_getLargestBranchId ex_db5 = 1"
  "vis ex_ctx1 (1, 1, [Some 7])" "master_branch_id \<noteq> 1"
  "tuple_history ex_t5 0 = [(1, 1, [Some 7]), (0, 0, [Some 5])]"
  by (simp add: ex_ctx1_def) (code_simp | simp add: master_branch_id_def)+

theorem insert_appends_row_witness:
  "\<exists>t'. insert_tuple [3] ex_db5 ex_t5 ex_ctx1 = (Inr 1, t') \<and> tuple_history t' 1 = [(1, 1, [Some 3])]"
  using insert_appends_row [OF ex_t5_ok(1), of ex_ctx1 ex_db5 "[3]"] by (auto simp: ex_ctx1_facts ex_t5_ok)

text \<open>
  C12: an update puts one version, stamped with the branch of the context and the largest branch id, in
  front of the tuple's history and keeps every older version, whether the current values move from the
  columns to the heap (master branch) or the new values go to the heap (other branches, which must see
  some version). Histories of other tuples and the visibility of rows are as before, and the cells of the
  columns change only for an update of the master branch. Such an update loads the current values first:
  where \<^verbatim>\<open>Value::load\<close> throws for the type of a column, the first such exception is the result and the table
  stays as it was.
\<close>

theorem update_prepends_version:
  assumes "vt_ok t" and "i < tb_rows t" and "length tuple = length (tb_columns t)"
    and "ctx_branchId ctx \<noteq> master_branch_id \<longrightarrow>
      unat (ctx_branchId ctx) < unat (1 + Database_getLargestBranchId db) \<and> find (vis ctx) (tuple_history t i) \<noteq> None"
  shows "case if ctx_branchId ctx = master_branch_id then mapM_res Value_load_check (Table_getTupleType t) else Inr [] of
      Inl e \<Rightarrow> update_tuple (of_nat i) tuple db t ctx = Some (Some e, t)
    | Inr _ \<Rightarrow> \<exists>t'. update_tuple (of_nat i) tuple db t ctx = Some (None, t') \<and> vt_ok t' \<and> tb_rows t' = tb_rows t
        \<and> (\<forall>j < tb_rows t. tuple_history t' j = (if j = i
             then (ctx_branchId ctx, Database_getLargestBranchId db, map Some tuple) # tuple_history t i
             else tuple_history t j))
        \<and> (\<forall>j < tb_rows t. tb_row t' j =
             (if j = i \<and> ctx_branchId ctx = master_branch_id then map Some tuple else tb_row t j))
        \<and> tb_branchBitmap t' = tb_branchBitmap t"
proof (cases "ctx_branchId ctx = master_branch_id")
  case True
  show ?thesis
  proof (cases "mapM_res Value_load_check (Table_getTupleType t)")
    case (Inl e)
    then have "row_loads t = Inl e" by (simp add: row_loads_def)
    from update_master_Inl [OF assms(1,2) True this, of tuple db] Inl True show ?thesis by simp
  next
    case (Inr x)
    then have "row_loads t = Inr ()" by (simp add: row_loads_def)
    from update_master_Inr [OF assms(1,2) True assms(3) this, of db] Inr True show ?thesis by auto
  qed
next
  case False
  with assms(4) update_branch_Inr [OF assms(1,2) False _ assms(3), of db] show ?thesis by auto
qed

theorem update_prepends_version_witness:
  "\<exists>t'. update_tuple (of_nat 0) [3] ex_db5 ex_t5 ex_ctx1 = Some (None, t')
    \<and> tuple_history t' 0 = [(1, 1, [Some 3]), (1, 1, [Some 7]), (0, 0, [Some 5])]"
  using update_prepends_version [OF ex_t5_ok(1), of 0 "[3]" ex_ctx1 ex_db5] by (auto simp: ex_ctx1_facts ex_t5_ok)

text \<open>
  C15: a delete hides the row in the branch of the context, and in no other branch; no version and no cell
  is lost. The comment at the declaration in version_management.hpp says otherwise, that the entire chain
  has to be deleted and the tuple relocated when the branch is the master branch: this is not done.
\<close>

theorem delete_hides_row:
  assumes "vt_ok t" and "i < tb_rows t" and "unat (ctx_branchId ctx) < bm_columnCount (tb_branchBitmap t)"
  shows "\<exists>t'. delete_tuple (of_nat i) t ctx = Inr t' \<and> vt_ok t' \<and> tb_rows t' = tb_rows t
    \<and> (\<forall>j < tb_rows t. tuple_history t' j = tuple_history t j \<and> tb_row t' j = tb_row t j)
    \<and> (\<forall>j < tb_rows t. \<forall>b < 8. bm_bit (tb_branchBitmap t') j b =
         (bm_bit (tb_branchBitmap t) j b \<and> \<not> (j = i \<and> b = unat (ctx_branchId ctx))))"
proof -
  from delete_tuple_Inr [OF assms] obtain t' where t': "delete_tuple (of_nat i) t ctx = Inr t'" "vt_ok t'"
    "tb_rows t' = tb_rows t" "\<forall>j < tb_rows t. tuple_history t' j = tuple_history t j \<and> tb_row t' j = tb_row t j"
    "\<forall>j < tb_rows t. \<forall>b < 8. bm_bit (tb_branchBitmap t') j b =
         (if j = i \<and> b = unat (ctx_branchId ctx) then False else bm_bit (tb_branchBitmap t) j b)" by blast
  then have "\<forall>j < tb_rows t. \<forall>b < 8. bm_bit (tb_branchBitmap t') j b =
         (bm_bit (tb_branchBitmap t) j b \<and> \<not> (j = i \<and> b = unat (ctx_branchId ctx)))" by auto
  with t' show ?thesis by blast
qed

theorem delete_hides_row_witness:
  "\<exists>t'. delete_tuple (of_nat 0) ex_t5 ex_ctx1 = Inr t' \<and> \<not> bm_bit (tb_branchBitmap t') 0 1
    \<and> bm_bit (tb_branchBitmap t') 0 0 = bm_bit (tb_branchBitmap ex_t5) 0 0"
  using delete_hides_row [OF ex_t5_ok(1), of 0 ex_ctx1] by (auto simp: ex_ctx1_facts ex_t5_ok)

text \<open>
  C14: a lookup ends. In the master branch it finds the row in the columns, whether or not the row is
  visible there; in another branch it finds the newest version the branch sees -- the walk along the
  chain computes the first visible version of the tuple's history -- and throws when there is none. What
  was found is loaded column by column: the first exception of \<^verbatim>\<open>Value::load\<close> for the type of a column is
  thrown, and otherwise the row is the result.
\<close>

theorem get_latest_tuple_newest_visible:
  assumes "vt_ok t" and "i < tb_rows t"
  shows "get_latest_tuple (of_nat i) t ctx =
    Some (case if ctx_branchId ctx = master_branch_id then Some (tb_row t i)
               else map_option (\<lambda>(_, _, r). r) (find (vis ctx) (tuple_history t i)) of
            None \<Rightarrow> Inl (RuntimeError ''no such tuple in the given branch'')
          | Some r \<Rightarrow> map_sum id (\<lambda>_. r) (mapM_res Value_load_check (Table_getTupleType t)))"
proof -
  have load: "bind_res (row_loads t) (\<lambda>_. Inr r) = map_sum id (\<lambda>_. r) (mapM_res Value_load_check (Table_getTupleType t))"
    for r :: "'a row"
    by (cases "mapM_res Value_load_check (Table_getTupleType t)") (simp_all add: row_loads_def)
  show ?thesis
  proof (cases "ctx_branchId ctx = master_branch_id")
    case True
    with get_latest_tuple_master [OF assms True] show ?thesis by (simp add: load)
  next
    case False
    with get_latest_tuple_branch [OF assms False] show ?thesis by (simp add: load split: option.split)
  qed
qed

theorem get_latest_tuple_newest_visible_witness:
  "get_latest_tuple (of_nat 0) ex_t5 ex_ctx1 = Some (Inr [Some 7])"
proof -
  have "mapM_res Value_load_check (Table_getTupleType ex_t5) = Inr [()]" by code_simp
  with get_latest_tuple_newest_visible [OF ex_t5_ok(1), of 0 ex_ctx1] show ?thesis
    by (simp add: ex_t5_ok ex_ctx1_facts master_branch_id_def)
qed

lemma chain_element_loop_stuck:
  assumes "chain_element_loop h tid ve offset current = Some r"
  shows "offset \<noteq> 0 \<longrightarrow> (\<forall>el. r = Inr el \<longrightarrow> el = Null)"
proof (rule chain_element_loop.raw_induct [OF _ assms])
  fix f h tid ve offset current r
  assume IH: "\<And>h tid ve offset current r. f h tid ve offset current = Some r \<Longrightarrow>
      offset \<noteq> 0 \<longrightarrow> (\<forall>el. r = Inr el \<longrightarrow> el = Null)"
    and run: "(if offset \<noteq> 0 \<and> current \<noteq> Null
      then case next_in_branch_of h tid ve current of
             Inl e \<Rightarrow> Some (Inl e)
           | Inr current' \<Rightarrow> f h tid ve offset current'
      else Some (Inr current)) = Some r"
  show "offset \<noteq> 0 \<longrightarrow> (\<forall>el. r = Inr el \<longrightarrow> el = Null)"
  proof
    assume off: "offset \<noteq> 0"
    show "\<forall>el. r = Inr el \<longrightarrow> el = Null"
    proof (cases "current = Null")
      case False
      with run off show ?thesis using IH off by (cases "next_in_branch_of h tid ve current") auto
    qed (use run in auto)
  qed
qed

text \<open>
  A lookup with a revision offset other than zero never finds a version. The loop of
  \<^verbatim>\<open>get_chain_element\<close> does not count its offset down, so it runs off the end of the chain: whatever the
  chain, the call throws or does not return.
\<close>

theorem revision_lookup_finds_nothing:
  assumes "revision_offset \<noteq> 0"
  shows "\<forall>r. get_tuple tid revision_offset table ctx \<noteq> Some (Inr r)"
proof -
  have "get_chain_element tid ve revision_offset table ctx = Some (Inr el) \<Longrightarrow> el = Null" for ve el
    using chain_element_loop_stuck [of "tb_heap table" tid ve revision_offset] assms
    by (auto simp: get_chain_element_def bind_comp_def split: option.splits sum.splits)
  then show ?thesis
    by (auto simp: get_tuple_def bind_comp_def load_element_def split: option.splits sum.splits element.splits)
qed

theorem revision_lookup_finds_nothing_witness:
  "\<forall>r. get_tuple 0 1 ex_t5 ex_ctx1 \<noteq> Some (Inr r)"
  by (rule revision_lookup_finds_nothing) simp

section \<open>Branches\<close>

text \<open>
  C16: the construction of a branch's lineage ends, and computes the way to the root: every ancestor is
  mapped to its descendant on that way, the bit set holds the branch and its ancestors, and the lineages
  of other branches in the context stay as they were.
\<close>

theorem lineage_construction:
  assumes "branches_ok (db_branches db) (db_next_branch_id db)" and "b < db_next_branch_id db"
    and "ctx_branch_lineages ctx b = None"
  shows "\<exists>ctx'. constructBranchLineage db b ctx = Some (Inr ctx')
    \<and> ctx_branch_lineage ctx' = map_of (zip (tl (ancestors (db_branches db) b)) (ancestors (db_branches db) b))
    \<and> ctx_branch_lineages ctx' b = Some (ctx_branch_lineage ctx')
    \<and> (\<forall>b'. b' \<noteq> b \<longrightarrow> ctx_branch_lineages ctx' b' = ctx_branch_lineages ctx b')
    \<and> (\<forall>a < db_next_branch_id db. ctx_branch_lineage_bitset ctx' ! unat a
         \<longleftrightarrow> a \<in> set (ancestors (db_branches db) b))"
  using constructBranchLineage_Inr [OF assms] by (auto simp: lineage_of_def)

theorem lineage_construction_witness:
  "\<exists>ctx'. constructBranchLineage ex_db5 1 ExecutionContext_ctor = Some (Inr ctx') \<and> ctx_branch_lineage ctx' 0 = Some 1"
proof -
  have "branches_ok (db_branches ex_db5) (db_next_branch_id ex_db5)"
    using db_run_inv [OF ex_run5] by (simp add: db_inv_def)
  moreover have "map_of (zip (tl (ancestors (db_branches ex_db5) 1)) (ancestors (db_branches ex_db5) 1)) 0 = Some 1"
    by code_simp
  ultimately show ?thesis
    using lineage_construction [of ex_db5 1 ExecutionContext_ctor] by (auto simp: ex_facts5 ExecutionContext_ctor_def)
qed

text \<open>
  C17: a ninth branch cannot be created once there is a table: the branch bitmap of a table has room for
  eight columns, and \<^verbatim>\<open>createBranch\<close> throws \<^verbatim>\<open>NotImplementedException\<close>. The exception leaves the bitmap with a
  column count that is one too high.
\<close>

theorem ninth_branch_rejected:
  assumes "bm_columnCount (tb_branchBitmap t) = bm_availableCount (tb_branchBitmap t)"
    and "db_tables db = (name, t) # rest"
  shows "\<exists>db'. Database_createBranch branch parent db = (Inl (NotImplemented ''BitmapTable::resize()''), db')
    \<and> db_branches db' = db_branches db
    \<and> db_tables db' = (name, t\<lparr>tb_branchBitmap := (tb_branchBitmap t)
          \<lparr>bm_columnCount := Suc (bm_columnCount (tb_branchBitmap t))\<rparr>\<rparr>) # rest"
  using BitmapTable_full [OF assms(1)] assms(2)
  by (simp add: Database_createBranch_def Table_createBranch_def split: if_splits)

theorem ninth_branch_rejected_witness:
  "\<exists>t :: nat Table. \<exists>db' :: nat Database. Database_createBranch ''x'' 0 (Database_ctor\<lparr>db_tables := [(''t'', t)]\<rparr>) =
     (Inl (NotImplemented ''BitmapTable::resize()''), db')"
proof -
  let ?t = "ex_t5\<lparr>tb_branchBitmap := (tb_branchBitmap ex_t5)\<lparr>bm_columnCount := bm_availableCount (tb_branchBitmap ex_t5)\<rparr>\<rparr>"
  show ?thesis
    using ninth_branch_rejected [of ?t "Database_ctor\<lparr>db_tables := [(''t'', ?t)]\<rparr>" "''t''" "[]" "''x''" 0] by auto
qed

section \<open>Containers\<close>

text \<open>
  The bits of the branch bitmap are independent: setting one returns a well-formed bitmap in which
  that bit has the new value and every other bit the old one.
\<close>

theorem bitmap_set_get:
  assumes "bm_ok bm" and "tid < bm_rows bm" and "column < bm_columnCount bm"
    and "tid' < bm_rows bm" and "column' < bm_columnCount bm"
  shows "\<exists>bm'. BitmapTable_set bm tid column v = Inr bm' \<and> bm_ok bm'
    \<and> BitmapTable_isSet bm' tid' column' =
        (if tid' = tid \<and> column' = column then Inr v else BitmapTable_isSet bm tid' column')"
proof -
  from BitmapTable_set_Inr [OF assms(1-3), of v] obtain bm' where bm': "BitmapTable_set bm tid column v = Inr bm'"
    "bm_ok bm'" "bm_rows bm' = bm_rows bm" "bm_columnCount bm' = bm_columnCount bm"
    "\<forall>t < bm_rows bm. \<forall>c < bm_availableCount bm. bm_bit bm' t c = (if t = tid \<and> c = column then v else bm_bit bm t c)"
    by blast
  have "column' < bm_availableCount bm" using assms(1,5) by (simp add: bm_ok_def)
  with bm' assms show ?thesis by (auto simp: BitmapTable_isSet_Inr)
qed

theorem bitmap_set_get_witness:
  "\<exists>bm'. BitmapTable_set (tb_branchBitmap ex_t5) 0 1 False = Inr bm' \<and> BitmapTable_isSet bm' 0 1 = Inr False"
  using bitmap_set_get [OF ex_t5_ok(5), of 0 1 0 1 False] by (auto simp: ex_t5_ok)

text \<open>
  The test the generated code makes on the raw bytes of a bitmap agrees with \<^verbatim>\<open>isSet\<close> for every row
  and column of the bitmap.
\<close>

theorem generated_test_agrees:
  assumes "bm_ok bm" and "tid < bm_rows bm" and "unat column < bm_columnCount bm"
  shows "isSet_gen bm tid column = BitmapTable_isSet bm tid (unat column)"
  using assms by (simp add: isSet_gen_Inr BitmapTable_isSet_Inr)

theorem generated_test_agrees_witness:
  "isSet_gen (tb_branchBitmap ex_t5) 0 1 = BitmapTable_isSet (tb_branchBitmap ex_t5) 0 (unat (1 :: u32))"
  by (rule generated_test_agrees) (simp_all add: ex_t5_ok)

text \<open>
  The name of a type is unambiguous: two types the constructors can build have the same name only
  when they are the same type, which makes the name a sound key for the cache of layouts.
\<close>

theorem type_names_unique:
  assumes "ty_wf t1" and "ty_wf t2"
  shows "getName t1 = getName t2 \<longleftrightarrow> t1 = t2"
  using getName_inj_lemma [OF assms] by blast

theorem type_names_unique_witness:
  "getName (getVarcharTy 10 False) = getName (getNumericTy 10 2 False) \<longleftrightarrow>
     getVarcharTy 10 False = getNumericTy 10 2 False"
  by (rule type_names_unique) (rule constructors_wf)+

end
