(* ===== verification/SqlTokenizer.thy ===== *)
theory SqlTokenizer
  imports Tardis_Prelude
begin

text \<open>
  The tokenizer of the SQL parser, tools/sqlParser/Tokenizer.cpp and sqlParser/Tokenizer.hpp.

  The stream the tokenizer reads is the list of the bytes that are left. At the end of the input
  \<^verbatim>\<open>get()\<close> sets the stream's failbit, so the \<^verbatim>\<open>putback(';')\<close> that follows has no effect: a token that
  has begun ends there, and otherwise the byte \<^verbatim>\<open>(char) EOF\<close> becomes a token of its own, as often as
  one is asked for.
\<close>

section \<open>Tokens\<close>

datatype tok_type = Ty_delimiter | Ty_controlSymbol | Ty_keyword | Ty_op | Ty_identifier | Ty_literal

record Token =
  tok_type :: tok_type
  tok_value :: string

definition keywordset :: "string list" where
  "keywordset = [''version'', ''select'', ''from'', ''where'', ''and'', ''insert'', ''into'', ''values'',
     ''update'', ''set'', ''delete'', ''create'', ''table'', ''not'', ''null'', ''branch'', ''copy'',
     ''with'', ''format'', ''csv'', ''tbl'', ''to'']"

definition controlSymbolSet :: "string list" where
  "controlSymbolSet = ['','', ''('', '')'', ''*'']"

definition equalsKeyword :: "Token \<Rightarrow> string \<Rightarrow> bool" where
  "equalsKeyword tok keywordStr = (tok_type tok = Ty_keyword \<and> tok_value tok = keywordStr)"

definition equalsControlSymbol :: "Token \<Rightarrow> string \<Rightarrow> bool" where
  "equalsControlSymbol tok symbolStr = (tok_type tok = Ty_controlSymbol \<and> tok_value tok = symbolStr)"

definition is_space :: "char \<Rightarrow> bool" where
  "is_space c = ((of_char c :: nat) \<in> {9, 10, 11, 12, 13, 32})"

definition to_lower :: "char \<Rightarrow> char" where
  "to_lower c = (let n = (of_char c :: nat) in if 65 \<le> n \<and> n \<le> 90 then char_of (n + 32) else c)"

definition first_char :: "string \<Rightarrow> char" where
  \<comment> \<open>\<^verbatim>\<open>value[0]\<close>: the terminating zero byte for an empty string\<close>
  "first_char s = (case s of [] \<Rightarrow> CHR 0x00 | c # _ \<Rightarrow> c)"

section \<open>Classification\<close>

definition is_delimiter :: "Token \<Rightarrow> bool \<times> Token" where
  "is_delimiter tok =
     (if tok_type tok = Ty_delimiter then (True, tok)
      else if tok_value tok = '';'' then (True, tok\<lparr>tok_type := Ty_delimiter\<rparr>)
      else (False, tok))"

definition is_controlSymbol :: "Token \<Rightarrow> bool \<times> Token" where
  "is_controlSymbol tok =
     (if tok_type tok = Ty_delimiter then (False, tok)
      else if tok_type tok = Ty_controlSymbol then (True, tok)
      else if tok_value tok \<in> set controlSymbolSet then (True, tok\<lparr>tok_type := Ty_controlSymbol\<rparr>)
      else (False, tok))"

definition is_keyword :: "Token \<Rightarrow> bool \<times> Token" where
  "is_keyword tok =
     (if tok_type tok = Ty_delimiter \<or> tok_type tok = Ty_controlSymbol then (False, tok)
      else if tok_type tok = Ty_keyword then (True, tok)
      else let lowercase_token_value = map to_lower (tok_value tok)
           in if lowercase_token_value \<in> set keywordset
              then (True, tok\<lparr>tok_type := Ty_keyword, tok_value := lowercase_token_value\<rparr>)
              else (False, tok))"

definition is_op :: "Token \<Rightarrow> bool \<times> Token" where
  "is_op tok =
     (if tok_type tok = Ty_delimiter \<or> tok_type tok = Ty_controlSymbol \<or> tok_type tok = Ty_keyword
      then (False, tok)
      else if tok_type tok = Ty_op then (True, tok)
      else if tok_value tok = ''='' then (True, tok\<lparr>tok_type := Ty_op\<rparr>)
      else (False, tok))"

definition identifier_chars :: string where
  "identifier_chars = ''abcdefghijklmnopqrstuvwxyz_.1234567890''"

definition is_identifier :: "Token \<Rightarrow> bool \<times> Token" where
  "is_identifier tok =
     (if tok_type tok = Ty_delimiter \<or> tok_type tok = Ty_controlSymbol \<or> tok_type tok = Ty_keyword
           \<or> tok_type tok = Ty_op
      then (False, tok)
      else if tok_type tok = Ty_identifier then (True, tok)
      else let lowercase_token_value = map to_lower (tok_value tok); c = first_char (tok_value tok)
           in if \<not> is_digit_char c \<and> c \<noteq> CHR ''.'' \<and> c \<noteq> CHR ''_''
                \<and> (\<forall>x \<in> set lowercase_token_value. x \<in> set identifier_chars)
              then (True, tok\<lparr>tok_type := Ty_identifier\<rparr>)
              else (False, tok))"

definition is_escaped :: "string \<Rightarrow> bool" where
  "is_escaped str =
     (if length str > 2 \<and> hd str = CHR 0x22 then last str = CHR 0x22
      else if length str > 2 \<and> hd str = CHR 0x27 then last str = CHR 0x27
      else False)"

definition unescape :: "string \<Rightarrow> string" where
  "unescape str = (if is_escaped str then take (length str - 2) (drop 1 str) else str)"

definition classify :: "string \<Rightarrow> Token" where
  \<comment> \<open>the chain of tests at the end of next(); each test may change the token\<close>
  "classify value =
     (let (d, t1) = is_delimiter \<lparr>tok_type = Ty_literal, tok_value = value\<rparr>;
          (c, t2) = is_controlSymbol t1; (k, t3) = is_keyword t2; (p, t4) = is_op t3;
          (i, t5) = is_identifier t4
      in if d then t1 else if c then t2 else if k then t3 else if p then t4 else if i then t5
         else t5\<lparr>tok_value := unescape (tok_value t5)\<rparr>)"

section \<open>Reading tokens\<close>

record Tokenizer =
  tz_in :: string
  tz_tokens :: "Token list"

definition eof_char :: char where
  "eof_char = CHR 0xFF"

fun next_loop :: "string \<Rightarrow> string \<Rightarrow> nat \<Rightarrow> string \<times> string" where
  \<comment> \<open>the stream, the string stream \<^verbatim>\<open>ss\<close> and the token length \<^verbatim>\<open>i\<close>; at the end of the input with
    \<^verbatim>\<open>i = 0\<close> the byte is appended and the next \<^verbatim>\<open>get()\<close> meets the end with \<^verbatim>\<open>i = 1\<close>\<close>
  "next_loop [] ss i = (if i > 0 then (ss, []) else (ss @ [eof_char], []))"
| "next_loop (c # inp) ss i =
     (if is_space c then (if i > 0 then (ss, inp) else next_loop inp ss i)
      else if c = CHR '';'' \<or> [c] \<in> set controlSymbolSet
           then (if i > 0 then (ss, c # inp) else (ss @ [c], inp))
      else next_loop inp (ss @ [c]) (i + 1))"

definition Tokenizer_next :: "Tokenizer \<Rightarrow> Token \<times> Tokenizer" where
  "Tokenizer_next tz =
     (let (ss, rest) = next_loop (tz_in tz) [] 0; token = classify ss
      in (token, tz\<lparr>tz_in := rest, tz_tokens := tz_tokens tz @ [token]\<rparr>))"

definition Tokenizer_prev :: "Tokenizer \<Rightarrow> nat \<Rightarrow> Token result" where
  "Tokenizer_prev tz i =
     (if \<not> length (tz_tokens tz) \<ge> i then Inl AssertFailed
      else if i < length (tz_tokens tz) then Inr (tz_tokens tz ! (length (tz_tokens tz) - 1 - i))
      else Inl MemFault)"

section \<open>Facts\<close>

lemma next_loop_length: "length (snd (next_loop inp ss i)) \<le> length inp"
  by (induction inp ss i rule: next_loop.induct) auto

lemma next_loop_shorter: "inp \<noteq> [] \<Longrightarrow> i = 0 \<Longrightarrow> length (snd (next_loop inp ss i)) < length inp"
proof (induction inp ss i rule: next_loop.induct)
  case (2 c inp ss i)
  then show ?case
    using next_loop_length [of inp "ss @ [c]" "Suc 0"] by (cases "inp = []") auto
qed simp

text \<open>A semicolon is always a token of its own.\<close>

lemma next_loop_semicolon:
  "CHR '';'' \<in> set inp \<Longrightarrow> CHR '';'' \<in> set (snd (next_loop inp ss i)) \<or> i = 0 \<and> fst (next_loop inp ss i) = ss @ '';''"
proof (induction inp ss i rule: next_loop.induct)
  case (2 c inp ss i)
  have "\<not> is_space (CHR '';'')" by code_simp
  with 2 show ?case by (auto simp: controlSymbolSet_def)
qed simp

lemma classify_semicolon: "classify '';'' = \<lparr>tok_type = Ty_delimiter, tok_value = '';''\<rparr>"
  by code_simp

lemma next_semicolon:
  assumes "CHR '';'' \<in> set (tz_in tz)"
  shows "CHR '';'' \<in> set (tz_in (snd (Tokenizer_next tz))) \<or> tok_type (fst (Tokenizer_next tz)) = Ty_delimiter"
    and "length (tz_in (snd (Tokenizer_next tz))) < length (tz_in tz)"
proof -
  show "CHR '';'' \<in> set (tz_in (snd (Tokenizer_next tz))) \<or> tok_type (fst (Tokenizer_next tz)) = Ty_delimiter"
    using next_loop_semicolon [OF assms, of "[]" 0]
    by (auto simp: Tokenizer_next_def Let_def classify_semicolon split: prod.splits)
  show "length (tz_in (snd (Tokenizer_next tz))) < length (tz_in tz)"
    using next_loop_shorter [of "tz_in tz" 0 "[]"] assms
    by (cases "tz_in tz = []") (auto simp: Tokenizer_next_def Let_def split: prod.splits)
qed

text \<open>Past the end of the input every token is the same literal.\<close>

lemma classify_eof: "classify [eof_char] = \<lparr>tok_type = Ty_literal, tok_value = [eof_char]\<rparr>"
  by code_simp

lemma next_eof:
  "tz_in tz = [] \<Longrightarrow> Tokenizer_next tz = (\<lparr>tok_type = Ty_literal, tok_value = [eof_char]\<rparr>,
     tz\<lparr>tz_tokens := tz_tokens tz @ [\<lparr>tok_type = Ty_literal, tok_value = [eof_char]\<rparr>]\<rparr>)"
  by (cases tz) (simp add: Tokenizer_next_def classify_eof Let_def)

end
