(* ===== verification/SqlParser.thy ===== *)
theory SqlParser
  imports SqlTokenizer
begin

text \<open>
  The SQL parser, tools/sqlParser/SQLParser.cpp with the statements and states of
  sqlParser/ParserResult.hpp: one step per token, a state machine over \<open>State\<close> that fills the
  statement it is building. \<open>parseToken\<close> is the switch of the code, with the states of each kind of
  statement in a definition of their own; \<open>parseStatement\<close> is the loop over the tokens, \<open>None\<close> when it
  does not end. The statement objects are there from the start; a state that uses one is reached
  only after the state that allocates it.
\<close>

section \<open>States and statements\<close>

text \<open>
  The states of \<^verbatim>\<open>enum State\<close>, one datatype for the states of each kind of statement.
\<close>

datatype select_state =
    St_Select | St_SelectProjectionStar | St_SelectProjectionAttrName | St_SelectProjectionAttrSeparator
  | St_SelectFrom | St_SelectFromRelationName | St_SelectFromVersion | St_SelectFromTag
  | St_SelectFromBindingName | St_SelectFromSeparator | St_SelectWhere | St_SelectWhereExprLhs
  | St_SelectWhereExprOp | St_SelectWhereExprRhs | St_SelectWhereAnd

datatype insert_state =
    St_Insert | St_InsertInto | St_InsertRelationName | St_InsertVersion | St_InsertTag
  | St_InsertColumnsBegin | St_InsertColumnsEnd | St_InsertColumnName | St_InsertColumnSeperator
  | St_InsertValues | St_InsertValuesBegin | St_InsertValuesEnd | St_InsertValue | St_InsertValueSeperator

datatype update_state =
    St_Update | St_UpdateRelationName | St_UpdateVersion | St_UpdateTag | St_UpdateSet
  | St_UpdateSetExprLhs | St_UpdateSetExprOp | St_UpdateSetExprRhs | St_UpdateSetSeperator
  | St_UpdateWhere | St_UpdateWhereExprLhs | St_UpdateWhereExprOp | St_UpdateWhereExprRhs | St_UpdateWhereAnd

datatype delete_state =
    St_Delete | St_DeleteFrom | St_DeleteRelationName | St_DeleteVersion | St_DeleteTag | St_DeleteWhere
  | St_DeleteWhereExprLhs | St_DeleteWhereExprOp | St_DeleteWhereExprRhs | St_DeleteWhereAnd

datatype table_state =
    St_CreateTable | St_CreateTableRelationName | St_CreateTableColumnsBegin
  | St_CreateTableColumnsEnd | St_CreateTableColumnName | St_CreateTableColumnType
  | St_CreateTableTypeDetailBegin | St_CreateTableTypeDetailEnd | St_CreateTableTypeDetailSeperator
  | St_CreateTableTypeDetailLength | St_CreateTableTypeDetailPrecision | St_CreateTableTypeNot
  | St_CreateTableTypeNotNull | St_CreateTableColumnSeperator

datatype create_state =
    St_Create | St_CreateBranch | St_CreateBranchTag | St_CreateBranchFrom | St_CreateBranchParent

datatype copy_state =
    St_Copy | St_CopyTable | St_CopyVersion | St_CopyTag | St_CopyDirection | St_CopyPath | St_CopyWith
  | St_CopyFormat | St_CopyType

datatype State =
    St_Init
  | In_Select select_state | In_Insert insert_state | In_Update update_state | In_Delete delete_state
  | In_CreateTable table_state | In_Create create_state
  | St_Branch
  | In_Copy copy_state
  | St_Done

record ColumnSpec =
  cs_name :: string
  cs_type :: string
  cs_length :: nat
  cs_precision :: nat
  cs_nullable :: bool

record PTable =
  pt_name :: string
  pt_alias :: string
  pt_version :: string

record PColumn =
  pc_name :: string
  pc_table :: string

record CreateTableStatement =
  ct_tableName :: string
  ct_columns :: "ColumnSpec list"

record CreateBranchStatement =
  cb_branchName :: string
  cb_parentBranchName :: string

record SelectStatement =
  sel_projections :: "PColumn list"
  sel_relations :: "PTable list"
  sel_joinConditions :: "(PColumn \<times> PColumn) list"
  sel_selections :: "(PColumn \<times> string) list"

record UpdateStatement =
  upd_relation :: PTable
  upd_updates :: "(PColumn \<times> string) list"
  upd_selections :: "(PColumn \<times> string) list"

record InsertStatement =
  ins_relation :: PTable
  ins_columns :: "PColumn list"
  ins_values :: "string list"

record DeleteStatement =
  del_relation :: PTable
  del_selections :: "(PColumn \<times> string) list"

record CopyStatement =
  cp_relation :: PTable
  cp_filePath :: string
  cp_format :: string
  cp_directionFrom :: bool

datatype OpType = Op_Unkown | Op_Select | Op_Insert | Op_Update | Op_Delete | Op_CreateTable
  | Op_CreateBranch | Op_Branch | Op_Copy

record ParsingContext =
  px_state :: State
  px_opType :: OpType
  px_createTableStmt :: CreateTableStatement
  px_createBranchStmt :: CreateBranchStatement
  px_insertStmt :: InsertStatement
  px_selectStmt :: SelectStatement
  px_updateStmt :: UpdateStatement
  px_deleteStmt :: DeleteStatement
  px_copyStmt :: CopyStatement

definition ColumnSpec_init :: ColumnSpec where
  "ColumnSpec_init = \<lparr>cs_name = [], cs_type = [], cs_length = 0, cs_precision = 0, cs_nullable = False\<rparr>"

definition PTable_init :: PTable where
  "PTable_init = \<lparr>pt_name = [], pt_alias = [], pt_version = []\<rparr>"

definition PColumn_init :: PColumn where
  "PColumn_init = \<lparr>pc_name = [], pc_table = []\<rparr>"

definition ParsingContext_ctor :: ParsingContext where
  "ParsingContext_ctor = \<lparr>px_state = St_Init, px_opType = Op_Unkown,
     px_createTableStmt = \<lparr>ct_tableName = [], ct_columns = []\<rparr>,
     px_createBranchStmt = \<lparr>cb_branchName = [], cb_parentBranchName = []\<rparr>,
     px_insertStmt = \<lparr>ins_relation = PTable_init, ins_columns = [], ins_values = []\<rparr>,
     px_selectStmt = \<lparr>sel_projections = [], sel_relations = [], sel_joinConditions = [], sel_selections = []\<rparr>,
     px_updateStmt = \<lparr>upd_relation = PTable_init, upd_updates = [], upd_selections = []\<rparr>,
     px_deleteStmt = \<lparr>del_relation = PTable_init, del_selections = []\<rparr>,
     px_copyStmt = \<lparr>cp_relation = PTable_init, cp_filePath = [], cp_format = [], cp_directionFrom = False\<rparr>\<rparr>"

definition finalStates :: "State list" where
  "finalStates = [In_Select St_SelectFromRelationName, In_Select St_SelectFromTag,
     In_Select St_SelectFromBindingName, In_Select St_SelectWhereExprRhs, In_Insert St_InsertValuesEnd,
     In_Update St_UpdateSetExprRhs, In_Update St_UpdateWhereExprRhs, In_Delete St_DeleteRelationName,
     In_Delete St_DeleteTag, In_Delete St_DeleteWhereExprRhs, In_CreateTable St_CreateTableRelationName,
     In_CreateTable St_CreateTableColumnsEnd, In_Create St_CreateBranchParent, St_Branch, In_Copy St_CopyType]"

definition stateIsFinal :: "ParsingContext \<Rightarrow> bool" where
  "stateIsFinal context = (px_state context \<in> set finalStates)"

text \<open>
  The messages: \<open>expected m tok\<close> is the exception with the text \<open>m\<close> followed by the token that was
  found in quotes; a backquote stands for a quote.
\<close>

definition quoted :: "string \<Rightarrow> string" where
  "quoted m = map (\<lambda>c. if c = CHR ''`'' then CHR 0x27 else c) m"

definition expected :: "string \<Rightarrow> Token \<Rightarrow> 'a result" where
  "expected m tok = Inl (SyntacticalError (quoted m @ quoted '' found `'' @ tok_value tok @ quoted ''`''))"

definition unexpected_token :: "Token \<Rightarrow> 'a result" where
  "unexpected_token tok = Inl (SyntacticalError (''unexpected token: '' @ tok_value tok))"

definition goto :: "State \<Rightarrow> ParsingContext \<Rightarrow> ParsingContext result" where
  "goto st c = Inr (c\<lparr>px_state := st\<rparr>)"

definition update_last :: "('a \<Rightarrow> 'a) \<Rightarrow> 'a list \<Rightarrow> 'a list" where
  \<comment> \<open>an assignment through \<^verbatim>\<open>back()\<close>\<close>
  "update_last f xs = (case xs of [] \<Rightarrow> [] | _ \<Rightarrow> butlast xs @ [f (last xs)])"

definition stoi :: "string \<Rightarrow> nat result" where
  \<comment> \<open>\<^verbatim>\<open>std::stoi\<close> of a string that begins with a digit, converted to \<^verbatim>\<open>size_t\<close>\<close>
  "stoi s = (let n = read_digits 0 (takeWhile is_digit_char s)
             in if n < 2 ^ 31 then Inr n else Inl (OutOfRange ''stoi''))"

section \<open>One token\<close>

definition parse_binding_attribute :: "string \<Rightarrow> string \<times> string" where
  "parse_binding_attribute v =
     (let binding = takeWhile (\<lambda>c. c \<noteq> CHR ''.'') v
      in if length binding = length v then ([], v) else (binding, drop (length binding + 1) v))"

abbreviation is_id :: "Token \<Rightarrow> bool" where
  "is_id tok \<equiv> tok_type tok = Ty_identifier"

abbreviation is_lit :: "Token \<Rightarrow> bool" where
  "is_lit tok \<equiv> tok_type tok = Ty_literal"

definition parse_init :: "Token \<Rightarrow> ParsingContext \<Rightarrow> ParsingContext result" where
  "parse_init tok c =
     (if equalsKeyword tok ''select'' then
        Inr (c\<lparr>px_opType := Op_Select, px_selectStmt := px_selectStmt ParsingContext_ctor, px_state := In_Select St_Select\<rparr>)
      else if equalsKeyword tok ''insert'' then
        Inr (c\<lparr>px_opType := Op_Insert, px_insertStmt := px_insertStmt ParsingContext_ctor, px_state := In_Insert St_Insert\<rparr>)
      else if equalsKeyword tok ''update'' then
        Inr (c\<lparr>px_opType := Op_Update, px_updateStmt := px_updateStmt ParsingContext_ctor, px_state := In_Update St_Update\<rparr>)
      else if equalsKeyword tok ''delete'' then
        Inr (c\<lparr>px_opType := Op_Delete, px_deleteStmt := px_deleteStmt ParsingContext_ctor, px_state := In_Delete St_Delete\<rparr>)
      else if equalsKeyword tok ''create'' then goto (In_Create St_Create) c
      else if equalsKeyword tok ''branch'' then Inr (c\<lparr>px_opType := Op_Branch, px_state := St_Branch\<rparr>)
      else if equalsKeyword tok ''copy'' then
        Inr (c\<lparr>px_opType := Op_Copy, px_copyStmt := px_copyStmt ParsingContext_ctor, px_state := In_Copy St_Copy\<rparr>)
      else expected ''Expected `Select`, `Insert`, `Update`, `Delete` , `BRANCH`, `COPY` or `Create`,'' tok)"

definition parse_copy :: "copy_state \<Rightarrow> Token \<Rightarrow> ParsingContext \<Rightarrow> ParsingContext result" where
  "parse_copy state tok c =
     (let stmt = px_copyStmt c; go = (\<lambda>st. goto (In_Copy st) c);
          set_stmt = (\<lambda>st s. Inr (c\<lparr>px_copyStmt := s, px_state := In_Copy st\<rparr>))
      in case state of
        St_Copy \<Rightarrow>
          if is_id tok then set_stmt St_CopyTable (stmt\<lparr>cp_relation := (cp_relation stmt)\<lparr>pt_name := tok_value tok\<rparr>\<rparr>)
          else expected ''Expected table name,'' tok
      | St_CopyTable \<Rightarrow>
          if equalsKeyword tok ''from'' then
            set_stmt St_CopyDirection (stmt\<lparr>cp_directionFrom := True,
              cp_relation := (cp_relation stmt)\<lparr>pt_version := ''master''\<rparr>\<rparr>)
          else if equalsKeyword tok ''to'' then
            set_stmt St_CopyDirection (stmt\<lparr>cp_directionFrom := False,
              cp_relation := (cp_relation stmt)\<lparr>pt_version := ''master''\<rparr>\<rparr>)
          else if equalsKeyword tok ''version'' then go St_CopyVersion
          else expected ''Expected `FROM`,`VERSION` OR `TO`,'' tok
      | St_CopyVersion \<Rightarrow>
          if is_id tok then set_stmt St_CopyTag (stmt\<lparr>cp_relation := (cp_relation stmt)\<lparr>pt_version := tok_value tok\<rparr>\<rparr>)
          else expected ''Expected branch name,'' tok
      | St_CopyTag \<Rightarrow>
          if equalsKeyword tok ''to'' then set_stmt St_CopyDirection (stmt\<lparr>cp_directionFrom := False\<rparr>)
          else expected ''Expected `TO`,'' tok
      | St_CopyDirection \<Rightarrow>
          if is_lit tok then set_stmt St_CopyPath (stmt\<lparr>cp_filePath := tok_value tok\<rparr>)
          else expected ''Expected file path,'' tok
      | St_CopyPath \<Rightarrow>
          if equalsKeyword tok ''with'' then go St_CopyWith else expected ''Expected `WITH`,'' tok
      | St_CopyWith \<Rightarrow>
          if equalsKeyword tok ''format'' then go St_CopyFormat else expected ''Expected `FORMAT`,'' tok
      | St_CopyFormat \<Rightarrow>
          if equalsKeyword tok ''csv'' then set_stmt St_CopyType (stmt\<lparr>cp_format := ''csv''\<rparr>)
          else if equalsKeyword tok ''tbl'' then set_stmt St_CopyType (stmt\<lparr>cp_format := ''tbl''\<rparr>)
          else expected ''Expected format name,'' tok
      | _ \<Rightarrow> unexpected_token tok)"

definition parse_create :: "create_state \<Rightarrow> Token \<Rightarrow> ParsingContext \<Rightarrow> ParsingContext result" where
  "parse_create state tok c =
     (let stmt = px_createBranchStmt c; go = (\<lambda>st. goto (In_Create st) c);
          set_stmt = (\<lambda>st s. Inr (c\<lparr>px_createBranchStmt := s, px_state := In_Create st\<rparr>))
      in case state of
        St_Create \<Rightarrow>
          if equalsKeyword tok ''table'' then
            Inr (c\<lparr>px_opType := Op_CreateTable, px_createTableStmt := px_createTableStmt ParsingContext_ctor,
                   px_state := In_CreateTable St_CreateTable\<rparr>)
          else if equalsKeyword tok ''branch'' then
            Inr (c\<lparr>px_opType := Op_CreateBranch, px_createBranchStmt := px_createBranchStmt ParsingContext_ctor,
                   px_state := In_Create St_CreateBranch\<rparr>)
          else expected ''Expected `TABLE` or `Branch`,'' tok
      | St_CreateBranch \<Rightarrow>
          if is_id tok then set_stmt St_CreateBranchTag (stmt\<lparr>cb_branchName := tok_value tok\<rparr>)
          else expected ''Expected branch name,'' tok
      | St_CreateBranchTag \<Rightarrow>
          if equalsKeyword tok ''from'' then go St_CreateBranchFrom else expected ''Expected `FROM`,'' tok
      | St_CreateBranchFrom \<Rightarrow>
          if is_id tok then set_stmt St_CreateBranchParent (stmt\<lparr>cb_parentBranchName := tok_value tok\<rparr>)
          else expected ''Expected parent branch name,'' tok
      | _ \<Rightarrow> unexpected_token tok)"

definition parse_create_table :: "table_state \<Rightarrow> Token \<Rightarrow> ParsingContext \<Rightarrow> ParsingContext result" where
  "parse_create_table state tok c =
     (let stmt = px_createTableStmt c; go = (\<lambda>st. goto (In_CreateTable st) c);
          set_stmt = (\<lambda>st s. Inr (c\<lparr>px_createTableStmt := s, px_state := In_CreateTable st\<rparr>));
          set_last = (\<lambda>st f. Inr (c\<lparr>px_createTableStmt := stmt\<lparr>ct_columns := update_last f (ct_columns stmt)\<rparr>,
                                  px_state := In_CreateTable st\<rparr>));
          column = (if is_id tok
               then set_stmt St_CreateTableColumnName
                      (stmt\<lparr>ct_columns := ct_columns stmt @ [ColumnSpec_init\<lparr>cs_name := tok_value tok\<rparr>]\<rparr>)
               else expected ''Expected column name,'' tok)
      in case state of
        St_CreateTable \<Rightarrow>
          if is_id tok then set_stmt St_CreateTableRelationName (stmt\<lparr>ct_tableName := tok_value tok\<rparr>)
          else expected ''Expected table name,'' tok
      | St_CreateTableRelationName \<Rightarrow>
          if equalsControlSymbol tok ''('' then go St_CreateTableColumnsBegin else Inr c
      | St_CreateTableColumnsBegin \<Rightarrow> column
      | St_CreateTableColumnSeperator \<Rightarrow> column
      | St_CreateTableColumnName \<Rightarrow>
          if is_id tok then set_last St_CreateTableColumnType (\<lambda>s. s\<lparr>cs_type := map to_lower (tok_value tok)\<rparr>)
          else expected ''Expected column name,'' tok
      | St_CreateTableColumnType \<Rightarrow>
          if equalsControlSymbol tok ''('' then go St_CreateTableTypeDetailBegin
          else if equalsKeyword tok ''not''
          then set_last St_CreateTableTypeNot (\<lambda>s. s\<lparr>cs_length := 0, cs_precision := 0\<rparr>)
          else if equalsControlSymbol tok '')''
          then set_last St_CreateTableColumnsEnd (\<lambda>s. s\<lparr>cs_length := 0, cs_precision := 0, cs_nullable := True\<rparr>)
          else if equalsControlSymbol tok '',''
          then set_last St_CreateTableColumnSeperator (\<lambda>s. s\<lparr>cs_length := 0, cs_precision := 0, cs_nullable := True\<rparr>)
          else expected ''Expected `(` , `,` , `)` or `NOT`,'' tok
      | St_CreateTableTypeDetailBegin \<Rightarrow>
          if is_lit tok \<and> is_digit_char (first_char (tok_value tok))
          then bind_res (stoi (tok_value tok)) (\<lambda>n. set_last St_CreateTableTypeDetailLength (\<lambda>s. s\<lparr>cs_length := n\<rparr>))
          else expected ''Expected type length,'' tok
      | St_CreateTableTypeDetailLength \<Rightarrow>
          if equalsControlSymbol tok '')''
          then set_last St_CreateTableTypeDetailEnd (\<lambda>s. s\<lparr>cs_precision := 0\<rparr>)
          else if equalsControlSymbol tok '','' then go St_CreateTableTypeDetailSeperator
          else expected ''Expected `,` or `)`,'' tok
      | St_CreateTableTypeDetailSeperator \<Rightarrow>
          if is_lit tok \<and> is_digit_char (first_char (tok_value tok))
          then bind_res (stoi (tok_value tok)) (\<lambda>n. set_last St_CreateTableTypeDetailPrecision (\<lambda>s. s\<lparr>cs_precision := n\<rparr>))
          else expected ''Expected type precision,'' tok
      | St_CreateTableTypeDetailPrecision \<Rightarrow>
          if equalsControlSymbol tok '')'' then go St_CreateTableTypeDetailEnd else expected ''Expected `)`,'' tok
      | St_CreateTableTypeDetailEnd \<Rightarrow>
          if equalsKeyword tok ''not'' then go St_CreateTableTypeNot
          else if equalsControlSymbol tok '')'' then set_last St_CreateTableColumnsEnd (\<lambda>s. s\<lparr>cs_nullable := True\<rparr>)
          else if equalsControlSymbol tok '','' then set_last St_CreateTableColumnSeperator (\<lambda>s. s\<lparr>cs_nullable := True\<rparr>)
          else expected ''Expected `,` , `)` or `NOT`,'' tok
      | St_CreateTableTypeNot \<Rightarrow>
          if equalsKeyword tok ''null'' then set_last St_CreateTableTypeNotNull (\<lambda>s. s\<lparr>cs_nullable := False\<rparr>)
          else expected ''Expected `NULL`,'' tok
      | St_CreateTableTypeNotNull \<Rightarrow>
          if equalsControlSymbol tok '')'' then go St_CreateTableColumnsEnd
          else if equalsControlSymbol tok '','' then go St_CreateTableColumnSeperator
          else expected ''Expected `,` , `)`,'' tok
      | St_CreateTableColumnsEnd \<Rightarrow> unexpected_token tok)"

text \<open>The right-hand side of \<^verbatim>\<open>column = 'constant'\<close>: the column is two tokens back.\<close>

definition condition :: "Tokenizer \<Rightarrow> Token \<Rightarrow> (PColumn \<times> string) result" where
  "condition tz tok = bind_res (Tokenizer_prev tz 2)
     (\<lambda>lhs. Inr (PColumn_init\<lparr>pc_name := tok_value lhs\<rparr>, tok_value tok))"

definition parse_delete :: "delete_state \<Rightarrow> Tokenizer \<Rightarrow> Token \<Rightarrow> ParsingContext \<Rightarrow> ParsingContext result" where
  "parse_delete state tz tok c =
     (let stmt = px_deleteStmt c; go = (\<lambda>st. goto (In_Delete st) c);
          set_stmt = (\<lambda>st s. Inr (c\<lparr>px_deleteStmt := s, px_state := In_Delete st\<rparr>));
          lhs = (if is_id tok then go St_DeleteWhereExprLhs else expected ''Expected left expression,'' tok)
      in case state of
        St_Delete \<Rightarrow>
          if equalsKeyword tok ''from'' then go St_DeleteFrom else expected ''Expected `WHERE`,'' tok
      | St_DeleteFrom \<Rightarrow>
          if is_id tok then set_stmt St_DeleteRelationName
            (stmt\<lparr>del_relation := (del_relation stmt)\<lparr>pt_name := tok_value tok, pt_version := ''master''\<rparr>\<rparr>)
          else expected ''Expected table name,'' tok
      | St_DeleteRelationName \<Rightarrow>
          if equalsKeyword tok ''version'' then go St_DeleteVersion
          else if equalsKeyword tok ''where'' then go St_DeleteWhere
          else expected ''Expected `VERSION` or `WHERE`,'' tok
      | St_DeleteVersion \<Rightarrow>
          if is_id tok then set_stmt St_DeleteTag (stmt\<lparr>del_relation := (del_relation stmt)\<lparr>pt_version := tok_value tok\<rparr>\<rparr>)
          else expected ''Expected version name,'' tok
      | St_DeleteTag \<Rightarrow>
          if equalsKeyword tok ''where'' then go St_DeleteWhere else expected ''Expected `WHERE`,'' tok
      | St_DeleteWhere \<Rightarrow> lhs
      | St_DeleteWhereAnd \<Rightarrow> lhs
      | St_DeleteWhereExprLhs \<Rightarrow>
          if tok_type tok = Ty_op then go St_DeleteWhereExprOp else expected ''Expected `=`,'' tok
      | St_DeleteWhereExprOp \<Rightarrow>
          if is_lit tok then bind_res (condition tz tok)
            (\<lambda>s. set_stmt St_DeleteWhereExprRhs (stmt\<lparr>del_selections := del_selections stmt @ [s]\<rparr>))
          else expected ''Expected right expression,'' tok
      | St_DeleteWhereExprRhs \<Rightarrow>
          if equalsKeyword tok ''and'' then go St_DeleteWhereAnd else expected ''Expected `AND`,'' tok)"

definition parse_update :: "update_state \<Rightarrow> Tokenizer \<Rightarrow> Token \<Rightarrow> ParsingContext \<Rightarrow> ParsingContext result" where
  "parse_update state tz tok c =
     (let stmt = px_updateStmt c; go = (\<lambda>st. goto (In_Update st) c);
          set_stmt = (\<lambda>st s. Inr (c\<lparr>px_updateStmt := s, px_state := In_Update st\<rparr>));
          lhs = (\<lambda>st. if is_id tok then go st else expected ''Expected left expression,'' tok)
      in case state of
        St_Update \<Rightarrow>
          if is_id tok then set_stmt St_UpdateRelationName (stmt\<lparr>upd_relation := (upd_relation stmt)\<lparr>pt_name := tok_value tok\<rparr>\<rparr>)
          else expected ''Expected table name,'' tok
      | St_UpdateRelationName \<Rightarrow>
          if equalsKeyword tok ''version'' then go St_UpdateVersion
          else if equalsKeyword tok ''set''
          then set_stmt St_UpdateSet (stmt\<lparr>upd_relation := (upd_relation stmt)\<lparr>pt_version := ''master''\<rparr>\<rparr>)
          else expected ''Expected `VERSION`, `SET`,'' tok
      | St_UpdateVersion \<Rightarrow>
          if is_id tok then set_stmt St_UpdateTag (stmt\<lparr>upd_relation := (upd_relation stmt)\<lparr>pt_version := tok_value tok\<rparr>\<rparr>)
          else expected ''Expected version name,'' tok
      | St_UpdateTag \<Rightarrow>
          if equalsKeyword tok ''set'' then go St_UpdateSet else expected ''Expected `SET`,'' tok
      | St_UpdateSet \<Rightarrow> lhs St_UpdateSetExprLhs
      | St_UpdateSetSeperator \<Rightarrow> lhs St_UpdateSetExprLhs
      | St_UpdateSetExprLhs \<Rightarrow>
          if tok_type tok = Ty_op then go St_UpdateSetExprOp else expected ''Expected `=`,'' tok
      | St_UpdateSetExprOp \<Rightarrow>
          if is_lit tok then bind_res (condition tz tok)
            (\<lambda>s. set_stmt St_UpdateSetExprRhs (stmt\<lparr>upd_updates := upd_updates stmt @ [s]\<rparr>))
          else expected ''Expected right expression,'' tok
      | St_UpdateSetExprRhs \<Rightarrow>
          if equalsControlSymbol tok '','' then go St_UpdateSetSeperator
          else if equalsKeyword tok ''where'' then go St_UpdateWhere
          else expected ''Expected `SET` or `WHERE`,'' tok
      | St_UpdateWhere \<Rightarrow> lhs St_UpdateWhereExprLhs
      | St_UpdateWhereAnd \<Rightarrow> lhs St_UpdateWhereExprLhs
      | St_UpdateWhereExprLhs \<Rightarrow>
          if tok_type tok = Ty_op then go St_UpdateWhereExprOp else expected ''Expected `=`,'' tok
      | St_UpdateWhereExprOp \<Rightarrow>
          if is_lit tok then bind_res (condition tz tok)
            (\<lambda>s. set_stmt St_UpdateWhereExprRhs (stmt\<lparr>upd_selections := upd_selections stmt @ [s]\<rparr>))
          else expected ''Expected right expression,'' tok
      | St_UpdateWhereExprRhs \<Rightarrow>
          if equalsKeyword tok ''and'' then go St_UpdateWhereAnd else expected ''Expected `AND`,'' tok)"

definition parse_insert :: "insert_state \<Rightarrow> Token \<Rightarrow> ParsingContext \<Rightarrow> ParsingContext result" where
  "parse_insert state tok c =
     (let stmt = px_insertStmt c; go = (\<lambda>st. goto (In_Insert st) c);
          set_stmt = (\<lambda>st s. Inr (c\<lparr>px_insertStmt := s, px_state := In_Insert st\<rparr>));
          set_version = (\<lambda>v. stmt\<lparr>ins_relation := (ins_relation stmt)\<lparr>pt_version := v\<rparr>\<rparr>);
          column = (if is_id tok
               then set_stmt St_InsertColumnName
                      (stmt\<lparr>ins_columns := ins_columns stmt @ [PColumn_init\<lparr>pc_name := tok_value tok\<rparr>]\<rparr>)
               else expected ''Expected column name,'' tok);
          constant = (if is_lit tok
               then set_stmt St_InsertValue (stmt\<lparr>ins_values := ins_values stmt @ [tok_value tok]\<rparr>)
               else expected ''Expected constant,'' tok)
      in case state of
        St_Insert \<Rightarrow>
          if equalsKeyword tok ''into'' then go St_InsertInto else expected ''Expected `INTO`,'' tok
      | St_InsertInto \<Rightarrow>
          if is_id tok then set_stmt St_InsertRelationName (stmt\<lparr>ins_relation := (ins_relation stmt)\<lparr>pt_name := tok_value tok\<rparr>\<rparr>)
          else expected ''Expected table name,'' tok
      | St_InsertRelationName \<Rightarrow>
          if equalsKeyword tok ''version'' then go St_InsertVersion
          else if equalsControlSymbol tok ''('' then set_stmt St_InsertColumnsBegin (set_version ''master'')
          else if equalsKeyword tok ''values'' then set_stmt St_InsertValues (set_version ''master'')
          else expected ''Expected `(`, `VERSION` or `VALUES`,'' tok
      | St_InsertVersion \<Rightarrow>
          if is_id tok then set_stmt St_InsertTag (set_version (tok_value tok))
          else expected ''Expected version name,'' tok
      | St_InsertTag \<Rightarrow>
          if equalsControlSymbol tok ''('' then go St_InsertColumnsBegin
          else if equalsKeyword tok ''values'' then go St_InsertValues
          else expected ''Expected `(` or `VALUES`,'' tok
      | St_InsertColumnsBegin \<Rightarrow> column
      | St_InsertColumnSeperator \<Rightarrow> column
      | St_InsertColumnName \<Rightarrow>
          if equalsControlSymbol tok '')'' then go St_InsertColumnsEnd
          else if equalsControlSymbol tok '','' then go St_InsertColumnSeperator
          else expected ''Expected `,` , `)`,'' tok
      | St_InsertColumnsEnd \<Rightarrow>
          if equalsKeyword tok ''values'' then go St_InsertValues else expected ''Expected `VALUES`,'' tok
      | St_InsertValues \<Rightarrow>
          if equalsControlSymbol tok ''('' then go St_InsertValuesBegin else expected ''Expected `(`,'' tok
      | St_InsertValuesBegin \<Rightarrow> constant
      | St_InsertValueSeperator \<Rightarrow> constant
      | St_InsertValue \<Rightarrow>
          if equalsControlSymbol tok '')'' then go St_InsertValuesEnd
          else if equalsControlSymbol tok '','' then go St_InsertValueSeperator
          else expected ''Expected `,` , `)`,'' tok
      | St_InsertValuesEnd \<Rightarrow> unexpected_token tok)"

definition column_of :: "string \<Rightarrow> PColumn" where
  "column_of v = (let (binding, attribute) = parse_binding_attribute v
                  in PColumn_init\<lparr>pc_name := attribute, pc_table := binding\<rparr>)"

definition parse_select :: "select_state \<Rightarrow> Tokenizer \<Rightarrow> Token \<Rightarrow> ParsingContext \<Rightarrow> ParsingContext result" where
  "parse_select state tz tok c =
     (let stmt = px_selectStmt c; go = (\<lambda>st. goto (In_Select st) c);
          set_stmt = (\<lambda>st s. Inr (c\<lparr>px_selectStmt := s, px_state := In_Select st\<rparr>));
          set_last = (\<lambda>st f. Inr (c\<lparr>px_selectStmt := stmt\<lparr>sel_relations := update_last f (sel_relations stmt)\<rparr>,
                                  px_state := In_Select st\<rparr>));
          projection = (if equalsControlSymbol tok ''*'' then go St_SelectProjectionStar
               else if is_id tok
               then set_stmt St_SelectProjectionAttrName
                      (stmt\<lparr>sel_projections := sel_projections stmt @ [column_of (tok_value tok)]\<rparr>)
               else expected ''Expected column name or star,'' tok);
          relation = (if is_id tok
               then set_stmt St_SelectFromRelationName
                      (stmt\<lparr>sel_relations := sel_relations stmt @
                          [PTable_init\<lparr>pt_name := tok_value tok, pt_alias := [], pt_version := ''master''\<rparr>]\<rparr>)
               else expected ''Expected table name,'' tok);
          lhs = (if is_id tok then go St_SelectWhereExprLhs else expected ''Expected left expression,'' tok)
      in case state of
        St_Select \<Rightarrow> projection
      | St_SelectProjectionAttrSeparator \<Rightarrow> projection
      | St_SelectProjectionStar \<Rightarrow>
          if equalsKeyword tok ''from'' then go St_SelectFrom else expected ''Expected `FROM` ,'' tok
      | St_SelectProjectionAttrName \<Rightarrow>
          if equalsKeyword tok ''from'' then go St_SelectFrom
          else if equalsControlSymbol tok '','' then go St_SelectProjectionAttrSeparator
          else expected ''Expected `,` or `FROM`,'' tok
      | St_SelectFrom \<Rightarrow> relation
      | St_SelectFromSeparator \<Rightarrow> relation
      | St_SelectFromRelationName \<Rightarrow>
          if equalsKeyword tok ''version'' then go St_SelectFromVersion
          else if is_id tok
          then set_last St_SelectFromBindingName (\<lambda>r. r\<lparr>pt_alias := tok_value tok, pt_version := ''master''\<rparr>)
          else if equalsKeyword tok ''where'' then go St_SelectWhere
          else if equalsControlSymbol tok '','' then go St_SelectFromSeparator
          else expected ''Expected binding name, `VERSION`, `WHERE` or `,`'' tok
      | St_SelectFromVersion \<Rightarrow>
          if is_id tok then set_last St_SelectFromTag (\<lambda>r. r\<lparr>pt_version := tok_value tok\<rparr>)
          else expected ''Expected version name,'' tok
      | St_SelectFromTag \<Rightarrow>
          if equalsKeyword tok ''where'' then go St_SelectWhere
          else if equalsControlSymbol tok '','' then go St_SelectFromSeparator
          else if is_id tok then set_last St_SelectFromBindingName (\<lambda>r. r\<lparr>pt_alias := tok_value tok\<rparr>)
          else expected ''Expected binding name , `WHERE` or `,`,'' tok
      | St_SelectFromBindingName \<Rightarrow>
          if equalsKeyword tok ''where'' then go St_SelectWhere
          else if equalsControlSymbol tok '','' then go St_SelectFromSeparator
          else expected ''Expected `,` or `Where`,'' tok
      | St_SelectWhere \<Rightarrow> lhs
      | St_SelectWhereAnd \<Rightarrow> lhs
      | St_SelectWhereExprLhs \<Rightarrow>
          if tok_type tok = Ty_op then go St_SelectWhereExprOp else expected ''Expected `=`,'' tok
      | St_SelectWhereExprOp \<Rightarrow>
          if is_id tok
          then bind_res (Tokenizer_prev tz 2) (\<lambda>l. set_stmt St_SelectWhereExprRhs
                 (stmt\<lparr>sel_joinConditions := sel_joinConditions stmt @ [(column_of (tok_value l), column_of (tok_value tok))]\<rparr>))
          else if is_lit tok
          then bind_res (Tokenizer_prev tz 2) (\<lambda>l. set_stmt St_SelectWhereExprRhs
                 (stmt\<lparr>sel_selections := sel_selections stmt @ [(column_of (tok_value l), tok_value tok)]\<rparr>))
          else expected ''Expected right expression,'' tok
      | St_SelectWhereExprRhs \<Rightarrow>
          if equalsKeyword tok ''and'' then go St_SelectWhereAnd else expected ''Expected `AND`,'' tok)"

definition transition :: "Tokenizer \<Rightarrow> Token \<Rightarrow> ParsingContext \<Rightarrow> ParsingContext result" where
  \<comment> \<open>the switch\<close>
  "transition tz tok c =
     (case px_state c of
        St_Init \<Rightarrow> parse_init tok c
      | In_Copy st \<Rightarrow> parse_copy st tok c
      | In_Create st \<Rightarrow> parse_create st tok c
      | In_CreateTable st \<Rightarrow> parse_create_table st tok c
      | In_Delete st \<Rightarrow> parse_delete st tz tok c
      | In_Update st \<Rightarrow> parse_update st tz tok c
      | In_Insert st \<Rightarrow> parse_insert st tok c
      | In_Select st \<Rightarrow> parse_select st tz tok c
      | _ \<Rightarrow> unexpected_token tok)"

definition parseToken :: "Tokenizer \<Rightarrow> ParsingContext \<Rightarrow> (Tokenizer \<times> ParsingContext) result" where
  "parseToken tz c =
     (let (tok, tz') = Tokenizer_next tz
      in if tok_type tok = Ty_delimiter
         then if \<not> stateIsFinal c then Inl (SyntacticalError ''unexpected end of input'')
              else Inr (tz', c\<lparr>px_state := St_Done\<rparr>)
         else bind_res (transition tz' tok c) (\<lambda>c'. Inr (tz', c')))"

section \<open>A statement\<close>

partial_function (option) parse_loop :: "Tokenizer \<Rightarrow> ParsingContext \<Rightarrow> ParsingContext comp" where
  "parse_loop tz c =
     (if px_state c = St_Done then Some (Inr c)
      else case parseToken tz c of
             Inl e \<Rightarrow> Some (Inl e)
           | Inr p \<Rightarrow> parse_loop (fst p) (snd p))"

declare parse_loop.simps [code]

definition parseStatement :: "ParsingContext \<Rightarrow> string \<Rightarrow> ParsingContext comp" where
  "parseStatement c statement =
     parse_loop \<lparr>tz_in = statement, tz_tokens = []\<rparr> (c\<lparr>px_state := St_Init\<rparr>)"

section \<open>Facts\<close>

lemma parse_loop_step:
  "px_state c \<noteq> St_Done \<Longrightarrow> parse_loop tz c =
     (case parseToken tz c of Inl e \<Rightarrow> Some (Inl e) | Inr p \<Rightarrow> parse_loop (fst p) (snd p))"
  by (subst parse_loop.simps) simp

lemma parse_loop_done: "px_state c = St_Done \<Longrightarrow> parse_loop tz c = Some (Inr c)"
  by (subst parse_loop.simps) simp

lemma parseToken_tokenizer: "parseToken tz c = Inr (tz', c') \<Longrightarrow> tz' = snd (Tokenizer_next tz)"
  by (auto simp: parseToken_def bind_res_def split: prod.splits if_splits sum.splits)

lemma parseToken_delimiter:
  "tok_type (fst (Tokenizer_next tz)) = Ty_delimiter \<Longrightarrow> parseToken tz c = Inr (tz', c') \<Longrightarrow> px_state c' = St_Done"
  by (auto simp: parseToken_def split: prod.splits if_splits)

lemma parse_loop_ends:
  "CHR '';'' \<in> set (tz_in tz) \<or> px_state c = St_Done \<Longrightarrow> \<exists>r. parse_loop tz c = Some r"
proof (induction "length (tz_in tz)" arbitrary: tz c rule: less_induct)
  case less
  show ?case
  proof (cases "px_state c = St_Done")
    case True
    then show ?thesis by (simp add: parse_loop_done)
  next
    case False
    with less.prems have semi: "CHR '';'' \<in> set (tz_in tz)" by simp
    show ?thesis
    proof (cases "parseToken tz c")
      case (Inl e)
      with False show ?thesis by (simp add: parse_loop_step)
    next
      case (Inr p)
      obtain tz' c' where p: "p = (tz', c')" by (cases p)
      with Inr parseToken_tokenizer have tz': "tz' = snd (Tokenizer_next tz)" by blast
      have "CHR '';'' \<in> set (tz_in tz') \<or> px_state c' = St_Done"
        using next_semicolon(1) [OF semi] parseToken_delimiter Inr p tz' by blast
      with less.hyps [of tz' c'] next_semicolon(2) [OF semi] tz' False Inr p show ?thesis
        by (auto simp: parse_loop_step)
    qed
  qed
qed

text \<open>
  C9: every input that contains a semicolon is parsed in finitely many steps: the parser returns the
  statement or throws, from any context.
\<close>

theorem parse_terminates:
  assumes "CHR '';'' \<in> set statement"
  shows "\<exists>r. parseStatement c statement = Some r"
  unfolding parseStatement_def by (rule parse_loop_ends) (simp add: assms)

theorem parse_terminates_witness:
  "\<exists>r. parseStatement ParsingContext_ctor ''select * from t ;'' = Some r"
  by (rule parse_terminates) simp

section \<open>What an accepted statement looks like\<close>

text \<open>
  \<open>wf_state\<close> is the invariant of the state machine: which kind of statement is being built, and what
  has been collected when a state is reached.
\<close>

definition wf_table :: "PTable \<Rightarrow> bool" where
  "wf_table r \<longleftrightarrow> pt_name r \<noteq> [] \<and> pt_version r \<noteq> []"

definition wf_state :: "ParsingContext \<Rightarrow> bool" where
  "wf_state c =
     (case px_state c of
        In_Select st \<Rightarrow> px_opType c = Op_Select \<and> list_all wf_table (sel_relations (px_selectStmt c))
          \<and> (st \<in> {St_SelectFromRelationName, St_SelectFromVersion, St_SelectFromTag, St_SelectFromBindingName,
                  St_SelectFromSeparator, St_SelectWhere, St_SelectWhereExprLhs, St_SelectWhereExprOp,
                  St_SelectWhereExprRhs, St_SelectWhereAnd} \<longrightarrow> sel_relations (px_selectStmt c) \<noteq> [])
      | In_Insert st \<Rightarrow> px_opType c = Op_Insert
          \<and> (st \<notin> {St_Insert, St_InsertInto} \<longrightarrow> pt_name (ins_relation (px_insertStmt c)) \<noteq> [])
          \<and> (st \<notin> {St_Insert, St_InsertInto, St_InsertRelationName, St_InsertVersion} \<longrightarrow>
               wf_table (ins_relation (px_insertStmt c)))
          \<and> list_all (\<lambda>c. pc_name c \<noteq> []) (ins_columns (px_insertStmt c))
          \<and> (st \<in> {St_InsertValue, St_InsertValuesEnd, St_InsertValueSeperator} \<longrightarrow> ins_values (px_insertStmt c) \<noteq> [])
      | In_Update st \<Rightarrow> px_opType c = Op_Update
          \<and> (st \<noteq> St_Update \<longrightarrow> pt_name (upd_relation (px_updateStmt c)) \<noteq> [])
          \<and> (st \<notin> {St_Update, St_UpdateRelationName, St_UpdateVersion} \<longrightarrow> wf_table (upd_relation (px_updateStmt c)))
          \<and> (st \<in> {St_UpdateSetExprRhs, St_UpdateSetSeperator, St_UpdateWhere, St_UpdateWhereExprLhs,
                  St_UpdateWhereExprOp, St_UpdateWhereExprRhs, St_UpdateWhereAnd} \<longrightarrow>
               upd_updates (px_updateStmt c) \<noteq> [])
      | In_Delete st \<Rightarrow> px_opType c = Op_Delete
          \<and> (st \<notin> {St_Delete, St_DeleteFrom} \<longrightarrow> wf_table (del_relation (px_deleteStmt c)))
      | In_CreateTable st \<Rightarrow> px_opType c = Op_CreateTable
          \<and> (st \<noteq> St_CreateTable \<longrightarrow> ct_tableName (px_createTableStmt c) \<noteq> [])
          \<and> list_all (\<lambda>s. cs_name s \<noteq> []) (ct_columns (px_createTableStmt c))
          \<and> (st \<notin> {St_CreateTable, St_CreateTableRelationName, St_CreateTableColumnsBegin} \<longrightarrow>
               ct_columns (px_createTableStmt c) \<noteq> [])
      | In_Create st \<Rightarrow> st \<noteq> St_Create \<longrightarrow> px_opType c = Op_CreateBranch
          \<and> (st = St_CreateBranchParent \<longrightarrow> cb_parentBranchName (px_createBranchStmt c) \<noteq> [])
          \<and> (st \<noteq> St_CreateBranch \<longrightarrow> cb_branchName (px_createBranchStmt c) \<noteq> [])
      | St_Branch \<Rightarrow> px_opType c = Op_Branch
      | In_Copy st \<Rightarrow> px_opType c = Op_Copy
          \<and> (st \<noteq> St_Copy \<longrightarrow> pt_name (cp_relation (px_copyStmt c)) \<noteq> [])
          \<and> (st \<notin> {St_Copy, St_CopyTable, St_CopyVersion} \<longrightarrow> wf_table (cp_relation (px_copyStmt c)))
          \<and> (st \<in> {St_CopyPath, St_CopyWith, St_CopyFormat, St_CopyType} \<longrightarrow> cp_filePath (px_copyStmt c) \<noteq> [])
          \<and> (st = St_CopyType \<longrightarrow> cp_format (px_copyStmt c) \<in> {''csv'', ''tbl''})
      | St_Init \<Rightarrow> True
      | St_Done \<Rightarrow> False)"

definition complete :: "ParsingContext \<Rightarrow> bool" where
  \<comment> \<open>which parts of a statement are there\<close>
  "complete c =
     (case px_opType c of
        Op_Unkown \<Rightarrow> False
      | Op_Select \<Rightarrow> sel_relations (px_selectStmt c) \<noteq> [] \<and> list_all wf_table (sel_relations (px_selectStmt c))
      | Op_Insert \<Rightarrow> wf_table (ins_relation (px_insertStmt c)) \<and> ins_values (px_insertStmt c) \<noteq> []
          \<and> list_all (\<lambda>c. pc_name c \<noteq> []) (ins_columns (px_insertStmt c))
      | Op_Update \<Rightarrow> wf_table (upd_relation (px_updateStmt c)) \<and> upd_updates (px_updateStmt c) \<noteq> []
      | Op_Delete \<Rightarrow> wf_table (del_relation (px_deleteStmt c))
      | Op_CreateTable \<Rightarrow> ct_tableName (px_createTableStmt c) \<noteq> []
          \<and> list_all (\<lambda>s. cs_name s \<noteq> []) (ct_columns (px_createTableStmt c))
      | Op_CreateBranch \<Rightarrow> cb_branchName (px_createBranchStmt c) \<noteq> [] \<and> cb_parentBranchName (px_createBranchStmt c) \<noteq> []
      | Op_Branch \<Rightarrow> True
      | Op_Copy \<Rightarrow> wf_table (cp_relation (px_copyStmt c)) \<and> cp_filePath (px_copyStmt c) \<noteq> []
          \<and> cp_format (px_copyStmt c) \<in> {''csv'', ''tbl''})"

lemma final_complete: "stateIsFinal c \<Longrightarrow> wf_state c \<Longrightarrow> complete c"
  by (auto simp: stateIsFinal_def finalStates_def wf_state_def complete_def wf_table_def)

lemma update_last_nonempty [simp]: "update_last f xs = [] \<longleftrightarrow> xs = []"
  by (cases xs) (auto simp: update_last_def)

lemma update_last_snoc [simp]: "update_last f (xs @ [x]) = xs @ [f x]"
  by (cases xs) (auto simp: update_last_def)

lemma update_last_all: "list_all P xs \<Longrightarrow> (\<And>x. P x \<Longrightarrow> P (f x)) \<Longrightarrow> list_all P (update_last f xs)"
  by (cases xs rule: rev_cases) (auto simp: update_last_snoc, simp add: update_last_def)

lemmas res_simps = expected_def unexpected_token_def goto_def bind_res_eq_Inr

lemma wf_init: "parse_init tok c = Inr c' \<Longrightarrow> wf_state c'"
  by (auto simp: parse_init_def res_simps wf_state_def ParsingContext_ctor_def split: if_splits)

lemma wf_copy:
  "parse_copy st tok c = Inr c' \<Longrightarrow> wf_state c \<Longrightarrow> px_state c = In_Copy st \<Longrightarrow> tok_value tok \<noteq> [] \<Longrightarrow> wf_state c'"
  by (cases st) (auto simp: parse_copy_def Let_def res_simps wf_state_def wf_table_def split: if_splits)

lemma wf_create:
  "parse_create st tok c = Inr c' \<Longrightarrow> wf_state c \<Longrightarrow> px_state c = In_Create st \<Longrightarrow> tok_value tok \<noteq> [] \<Longrightarrow> wf_state c'"
  by (cases st) (auto simp: parse_create_def Let_def res_simps wf_state_def ParsingContext_ctor_def split: if_splits)

lemma wf_create_table:
  "parse_create_table st tok c = Inr c' \<Longrightarrow> wf_state c \<Longrightarrow> px_state c = In_CreateTable st \<Longrightarrow>
     tok_value tok \<noteq> [] \<Longrightarrow> wf_state c'"
  by (cases st) (auto simp: parse_create_table_def Let_def res_simps wf_state_def split: if_splits
      intro!: update_last_all)

lemma wf_delete:
  "parse_delete st tz tok c = Inr c' \<Longrightarrow> wf_state c \<Longrightarrow> px_state c = In_Delete st \<Longrightarrow> tok_value tok \<noteq> [] \<Longrightarrow> wf_state c'"
  by (cases st) (auto simp: parse_delete_def Let_def res_simps wf_state_def wf_table_def split: if_splits)

lemma wf_update:
  "parse_update st tz tok c = Inr c' \<Longrightarrow> wf_state c \<Longrightarrow> px_state c = In_Update st \<Longrightarrow> tok_value tok \<noteq> [] \<Longrightarrow> wf_state c'"
  by (cases st) (auto simp: parse_update_def Let_def res_simps wf_state_def wf_table_def split: if_splits)

lemma wf_insert:
  "parse_insert st tok c = Inr c' \<Longrightarrow> wf_state c \<Longrightarrow> px_state c = In_Insert st \<Longrightarrow> tok_value tok \<noteq> [] \<Longrightarrow> wf_state c'"
  by (cases st) (auto simp: parse_insert_def Let_def res_simps wf_state_def wf_table_def split: if_splits)

lemma wf_select:
  "parse_select st tz tok c = Inr c' \<Longrightarrow> wf_state c \<Longrightarrow> px_state c = In_Select st \<Longrightarrow> tok_value tok \<noteq> [] \<Longrightarrow> wf_state c'"
  by (cases st) (auto simp: parse_select_def Let_def res_simps wf_state_def wf_table_def PTable_init_def
      split: if_splits intro!: update_last_all)

lemma wf_transition:
  assumes "transition tz tok c = Inr c'" "wf_state c" "tok_value tok \<noteq> []"
  shows "wf_state c'"
  using assms
  by (auto simp: transition_def unexpected_token_def split: State.splits
      intro: wf_init wf_copy wf_create wf_create_table wf_delete wf_update wf_insert wf_select)

lemma next_loop_nonempty: "length ss = i \<Longrightarrow> fst (next_loop inp ss i) \<noteq> []"
  by (induction inp ss i rule: next_loop.induct) auto

lemma classify_nonempty: "v \<noteq> [] \<Longrightarrow> tok_value (classify v) \<noteq> []"
  by (auto simp: classify_def Let_def is_delimiter_def is_controlSymbol_def is_keyword_def is_op_def
      is_identifier_def unescape_def is_escaped_def split: prod.splits if_splits)

lemma next_value_nonempty: "tok_value (fst (Tokenizer_next tz)) \<noteq> []"
  using next_loop_nonempty [of "[]" 0 "tz_in tz"]
  by (auto simp: Tokenizer_next_def Let_def classify_nonempty split: prod.splits)

lemma complete_done: "complete (c\<lparr>px_state := s\<rparr>) = complete c"
  by (cases c) (simp add: complete_def cong: OpType.case_cong)

lemma wf_not_done: "wf_state c \<Longrightarrow> px_state c \<noteq> St_Done"
  by (auto simp: wf_state_def)

lemma parseToken_wf:
  assumes "parseToken tz c = Inr (tz', c')" "wf_state c" "px_state c \<noteq> St_Done"
  shows "if px_state c' = St_Done then complete c' else wf_state c'"
proof -
  obtain tok tz1 where tok: "Tokenizer_next tz = (tok, tz1)" by fastforce
  show ?thesis
  proof (cases "tok_type tok = Ty_delimiter")
    case True
    with assms tok have "stateIsFinal c" "c' = c\<lparr>px_state := St_Done\<rparr>"
      by (auto simp: parseToken_def split: if_splits)
    with final_complete assms(2) show ?thesis by (simp add: complete_done)
  next
    case False
    with assms(1) tok have tr: "transition tz1 tok c = Inr c'"
      by (auto simp: parseToken_def bind_res_eq_Inr)
    moreover have "tok_value tok \<noteq> []" using next_value_nonempty [of tz] tok by simp
    ultimately have "wf_state c'" using wf_transition assms(2) by blast
    then show ?thesis using wf_not_done by auto
  qed
qed

lemma parse_loop_complete_aux:
  assumes "parse_loop tz c = Some r"
  shows "if px_state c = St_Done then r = Inr c
         else wf_state c \<longrightarrow> (\<forall>c'. r = Inr c' \<longrightarrow> complete c')"
proof (rule parse_loop.raw_induct [OF _ assms, of "\<lambda>tz c r. if px_state c = St_Done then r = Inr c
    else wf_state c \<longrightarrow> (\<forall>c'. r = Inr c' \<longrightarrow> complete c')"])
  fix pl tz c r
  assume IH: "\<And>tz c r. pl tz c = Some r \<Longrightarrow> if px_state c = St_Done then r = Inr c
      else wf_state c \<longrightarrow> (\<forall>c'. r = Inr c' \<longrightarrow> complete c')"
    and run: "(if px_state c = St_Done then Some (Inr c)
      else case parseToken tz c of Inl e \<Rightarrow> Some (Inl e) | Inr p \<Rightarrow> pl (fst p) (snd p)) = Some r"
  show "if px_state c = St_Done then r = Inr c else wf_state c \<longrightarrow> (\<forall>c'. r = Inr c' \<longrightarrow> complete c')"
  proof (cases "px_state c = St_Done")
    case True
    with run show ?thesis by simp
  next
    case live: False
    have "complete c'" if wf: "wf_state c" and r: "r = Inr c'" for c'
    proof -
      from run live r obtain p where p: "parseToken tz c = Inr p" "pl (fst p) (snd p) = Some (Inr c')"
        by (auto split: sum.splits)
      have "parseToken tz c = Inr (fst p, snd p)" using p(1) by simp
      from parseToken_wf [OF this wf live]
      have next_ok: "if px_state (snd p) = St_Done then complete (snd p) else wf_state (snd p)" .
      from IH [OF p(2)] next_ok show "complete c'"
        by (auto split: if_splits)
    qed
    with live show ?thesis by simp
  qed
qed

end
