(* ===== verification/SqlRoundTrip.thy ===== *)
theory SqlRoundTrip
  imports SqlParser
begin

text \<open>
  The parser as a function of the tokens: a statement written as words with a space after each is
  tokenized into exactly these words, and the loop of \<open>parseStatement\<close> feeds them to the state machine
  one by one. On top of that, printed statements are read back: the parser recovers the statement
  record from the text.
\<close>

section \<open>Words and their tokens\<close>

definition plain_char :: "char \<Rightarrow> bool" where
  "plain_char c = (\<not> is_space c \<and> c \<noteq> CHR '';'' \<and> [c] \<notin> set controlSymbolSet)"

definition word :: "string \<Rightarrow> bool" where
  "word w \<longleftrightarrow> w \<noteq> [] \<and> list_all plain_char w"

definition token_word :: "string \<Rightarrow> bool" where
  "token_word w \<longleftrightarrow> word w \<or> w \<in> set controlSymbolSet"

definition render :: "string list \<Rightarrow> string" where
  "render ws = concat (map (\<lambda>w. w @ '' '') ws)"

lemma render_simps [simp]: "render [] = []" "render (w # ws) = w @ '' '' @ render ws"
  by (simp_all add: render_def)

lemma space_char [simp]: "is_space (CHR '' '')"
  by code_simp

lemma next_loop_spaces [simp]: "next_loop (replicate k (CHR '' '') @ inp) ss 0 = next_loop inp ss 0"
  by (induction k) auto

lemma next_loop_word:
  "list_all plain_char w \<Longrightarrow> i + length w > 0 \<Longrightarrow> next_loop (w @ '' '' @ rest) ss i = (ss @ w, rest)"
  by (induction w arbitrary: ss i) (auto simp: plain_char_def)

lemma control_not_space: "[c] \<in> set controlSymbolSet \<Longrightarrow> \<not> is_space c"
  by (auto simp: controlSymbolSet_def is_space_def)

lemma next_word:
  assumes "token_word w"
  obtains k' where "next_loop (replicate k (CHR '' '') @ w @ '' '' @ rest) [] 0 = (w, replicate k' (CHR '' '') @ rest)"
proof (cases "word w")
  case True
  then have "next_loop (w @ '' '' @ rest) [] 0 = (w, rest)"
    using next_loop_word [of w 0 rest "[]"] by (simp add: word_def)
  then show ?thesis using that [of 0] by simp
next
  case False
  with assms have w: "w \<in> set controlSymbolSet" by (simp add: token_word_def)
  then obtain c where c: "w = [c]" by (auto simp: controlSymbolSet_def)
  with w have "next_loop (w @ '' '' @ rest) [] 0 = (w, '' '' @ rest)"
    by (simp add: control_not_space)
  then show ?thesis using that [of 1] by simp
qed

lemma if_token:
  "(b \<Longrightarrow> tok_type (snd x) \<noteq> d) \<Longrightarrow> (\<not> b \<Longrightarrow> tok_type (snd y) \<noteq> d) \<Longrightarrow> tok_type (snd (if b then x else y)) \<noteq> d"
  by (cases b) simp_all

lemma is_controlSymbol_keeps: "tok_type t \<noteq> Ty_delimiter \<Longrightarrow> tok_type (snd (is_controlSymbol t)) \<noteq> Ty_delimiter"
  unfolding is_controlSymbol_def Let_def by (intro if_token) simp_all

lemma is_keyword_keeps: "tok_type t \<noteq> Ty_delimiter \<Longrightarrow> tok_type (snd (is_keyword t)) \<noteq> Ty_delimiter"
  unfolding is_keyword_def Let_def by (intro if_token) simp_all

lemma is_op_keeps: "tok_type t \<noteq> Ty_delimiter \<Longrightarrow> tok_type (snd (is_op t)) \<noteq> Ty_delimiter"
  unfolding is_op_def Let_def by (intro if_token) simp_all

lemma is_identifier_keeps: "tok_type t \<noteq> Ty_delimiter \<Longrightarrow> tok_type (snd (is_identifier t)) \<noteq> Ty_delimiter"
  unfolding is_identifier_def Let_def by (intro if_token) simp_all

lemmas tests_keep_type = is_controlSymbol_keeps is_keyword_keeps is_op_keeps is_identifier_keeps

lemma word_not_delimiter:
  assumes "token_word w"
  shows "tok_type (classify w) \<noteq> Ty_delimiter"
proof -
  from assms have "w \<noteq> '';''" by (auto simp: token_word_def word_def plain_char_def controlSymbolSet_def)
  then have "is_delimiter \<lparr>tok_type = Ty_literal, tok_value = w\<rparr> = (False, \<lparr>tok_type = Ty_literal, tok_value = w\<rparr>)"
    by (simp add: is_delimiter_def)
  moreover obtain c t2 where 2: "is_controlSymbol \<lparr>tok_type = Ty_literal, tok_value = w\<rparr> = (c, t2)" by fastforce
  moreover obtain k t3 where 3: "is_keyword t2 = (k, t3)" by fastforce
  moreover obtain p t4 where 4: "is_op t3 = (p, t4)" by fastforce
  moreover obtain i t5 where 5: "is_identifier t4 = (i, t5)" by fastforce
  moreover have "tok_type t2 \<noteq> Ty_delimiter" "tok_type t3 \<noteq> Ty_delimiter" "tok_type t4 \<noteq> Ty_delimiter"
    "tok_type t5 \<noteq> Ty_delimiter"
    using tests_keep_type(1) [of "\<lparr>tok_type = Ty_literal, tok_value = w\<rparr>"] tests_keep_type(2) [of t2]
      tests_keep_type(3) [of t3] tests_keep_type(4) [of t4] 2 3 4 5 by simp_all
  ultimately show ?thesis
    by (simp add: classify_def)
qed

section \<open>Feeding tokens\<close>

fun feed :: "Token list \<Rightarrow> Token list \<Rightarrow> ParsingContext \<Rightarrow> ParsingContext result" where
  \<comment> \<open>the tokens read before, the tokens to come\<close>
  "feed ts [] c = Inr c"
| "feed ts (t # rest) c =
     bind_res (transition \<lparr>tz_in = [], tz_tokens = ts @ [t]\<rparr> t c) (feed (ts @ [t]) rest)"

lemma feed_append: "feed ts (xs @ ys) c = bind_res (feed ts xs c) (feed (ts @ xs) ys)"
  by (induction xs arbitrary: ts c) (auto simp: bind_res_def split: sum.splits)

lemma prev_input [simp]: "Tokenizer_prev (tz\<lparr>tz_in := x\<rparr>) i = Tokenizer_prev tz i"
  by (simp add: Tokenizer_prev_def)

lemma condition_input [simp]: "condition (tz\<lparr>tz_in := x\<rparr>) tok = condition tz tok"
  by (simp add: condition_def)

lemma transition_input: "transition (tz\<lparr>tz_in := x\<rparr>) t c = transition tz t c"
  by (simp add: transition_def parse_delete_def parse_update_def parse_select_def Let_def
      cong: State.case_cong delete_state.case_cong update_state.case_cong select_state.case_cong)

lemma transition_input': "transition \<lparr>tz_in = x, tz_tokens = ts\<rparr> t c = transition \<lparr>tz_in = [], tz_tokens = ts\<rparr> t c"
  using transition_input [of "[]" "\<lparr>tz_in = x, tz_tokens = ts\<rparr>" t c] by simp

lemma not_done_copy: "parse_copy st tok c = Inr c' \<Longrightarrow> px_state c \<noteq> St_Done \<Longrightarrow> px_state c' \<noteq> St_Done"
  by (cases st) (auto simp: parse_copy_def Let_def res_simps split: if_splits)
lemma not_done_create: "parse_create st tok c = Inr c' \<Longrightarrow> px_state c \<noteq> St_Done \<Longrightarrow> px_state c' \<noteq> St_Done"
  by (cases st) (auto simp: parse_create_def Let_def res_simps split: if_splits)
lemma not_done_table: "parse_create_table st tok c = Inr c' \<Longrightarrow> px_state c \<noteq> St_Done \<Longrightarrow> px_state c' \<noteq> St_Done"
  by (cases st) (auto simp: parse_create_table_def Let_def res_simps split: if_splits)
lemma not_done_delete: "parse_delete st tz tok c = Inr c' \<Longrightarrow> px_state c \<noteq> St_Done \<Longrightarrow> px_state c' \<noteq> St_Done"
  by (cases st) (auto simp: parse_delete_def Let_def res_simps split: if_splits)
lemma not_done_update: "parse_update st tz tok c = Inr c' \<Longrightarrow> px_state c \<noteq> St_Done \<Longrightarrow> px_state c' \<noteq> St_Done"
  by (cases st) (auto simp: parse_update_def Let_def res_simps split: if_splits)
lemma not_done_insert: "parse_insert st tok c = Inr c' \<Longrightarrow> px_state c \<noteq> St_Done \<Longrightarrow> px_state c' \<noteq> St_Done"
  by (cases st) (auto simp: parse_insert_def Let_def res_simps split: if_splits)
lemma not_done_select: "parse_select st tz tok c = Inr c' \<Longrightarrow> px_state c \<noteq> St_Done \<Longrightarrow> px_state c' \<noteq> St_Done"
  by (cases st) (auto simp: parse_select_def Let_def res_simps split: if_splits)
lemma not_done_init: "parse_init tok c = Inr c' \<Longrightarrow> px_state c' \<noteq> St_Done"
  by (auto simp: parse_init_def res_simps split: if_splits)

lemmas not_done_parts = not_done_copy not_done_create not_done_table not_done_delete not_done_update
  not_done_insert not_done_select not_done_init

lemma transition_not_done:
  "transition tz tok c = Inr c' \<Longrightarrow> px_state c \<noteq> St_Done \<Longrightarrow> px_state c' \<noteq> St_Done"
  by (auto simp: transition_def unexpected_token_def split: State.splits dest: not_done_parts)

definition finish :: "ParsingContext \<Rightarrow> ParsingContext result" where
  "finish c = (if \<not> stateIsFinal c then Inl (SyntacticalError ''unexpected end of input'')
               else Inr (c\<lparr>px_state := St_Done\<rparr>))"

lemma parse_loop_words:
  assumes "list_all token_word ws" "px_state c \<noteq> St_Done"
  shows "parse_loop \<lparr>tz_in = replicate k (CHR '' '') @ render ws @ '';'', tz_tokens = ts\<rparr> c =
     Some (bind_res (feed ts (map classify ws) c) finish)"
  using assms
proof (induction ws arbitrary: c k ts)
  case Nil
  have "\<not> is_space (CHR '';'')" by code_simp
  then have "Tokenizer_next \<lparr>tz_in = replicate k (CHR '' '') @ '';'', tz_tokens = ts\<rparr> =
      (\<lparr>tok_type = Ty_delimiter, tok_value = '';''\<rparr>,
       \<lparr>tz_in = [], tz_tokens = ts @ [\<lparr>tok_type = Ty_delimiter, tok_value = '';''\<rparr>]\<rparr>)"
    by (simp add: Tokenizer_next_def classify_semicolon Let_def)
  with Nil show ?case
    by (simp add: parse_loop_step parseToken_def finish_def bind_res_def parse_loop_done)
next
  case (Cons w ws)
  have w: "token_word w" using Cons.prems by simp
  obtain k' where k': "next_loop (replicate k (CHR '' '') @ w @ '' '' @ render ws @ '';'') [] 0
      = (w, replicate k' (CHR '' '') @ render ws @ '';'')"
    using next_word [OF w] by blast
  let ?tz = "\<lparr>tz_in = replicate k' (CHR '' '') @ render ws @ '';'', tz_tokens = ts @ [classify w]\<rparr>"
  have "Tokenizer_next \<lparr>tz_in = replicate k (CHR '' '') @ render (w # ws) @ '';'', tz_tokens = ts\<rparr> =
      (classify w, ?tz)"
    using k' by (simp add: Tokenizer_next_def Let_def)
  then have step: "parseToken \<lparr>tz_in = replicate k (CHR '' '') @ render (w # ws) @ '';'', tz_tokens = ts\<rparr> c =
      bind_res (transition \<lparr>tz_in = [], tz_tokens = ts @ [classify w]\<rparr> (classify w) c) (\<lambda>c'. Inr (?tz, c'))"
    using word_not_delimiter [OF w] by (simp add: parseToken_def transition_input' [where x = "replicate k' (CHR '' '') @ render ws @ '';''"] del: render_simps)
  show ?case
  proof (cases "transition \<lparr>tz_in = [], tz_tokens = ts @ [classify w]\<rparr> (classify w) c")
    case (Inl e)
    with step have "parseToken \<lparr>tz_in = replicate k (CHR '' '') @ render (w # ws) @ '';'', tz_tokens = ts\<rparr> c = Inl e"
      by (simp add: bind_res_def del: render_simps)
    with Inl Cons.prems(2) show ?thesis
      by (simp add: parse_loop_step [of c "\<lparr>tz_in = replicate k (CHR '' '') @ render (w # ws) @ '';'', tz_tokens = ts\<rparr>"]
          bind_res_def del: render_simps)
  next
    case (Inr c')
    then have live: "px_state c' \<noteq> St_Done" using transition_not_done Cons.prems(2) by blast
    from step Inr
    have "parseToken \<lparr>tz_in = replicate k (CHR '' '') @ render (w # ws) @ '';'', tz_tokens = ts\<rparr> c = Inr (?tz, c')"
      by (simp add: bind_res_def del: render_simps)
    then have "parse_loop \<lparr>tz_in = replicate k (CHR '' '') @ render (w # ws) @ '';'', tz_tokens = ts\<rparr> c = parse_loop ?tz c'"
      using Cons.prems(2) by (subst parse_loop_step) (simp_all del: render_simps)
    with Cons.IH [OF _ live, of k' "ts @ [classify w]"] Cons.prems(1) Inr show ?thesis
      by (simp add: bind_res_def del: render_simps)
  qed
qed

lemma parseStatement_words:
  assumes "list_all token_word ws"
  shows "parseStatement c (render ws @ '';'') =
     Some (bind_res (feed [] (map classify ws) (c\<lparr>px_state := St_Init\<rparr>)) finish)"
  using parse_loop_words [OF assms, of "c\<lparr>px_state := St_Init\<rparr>" 0 "[]"]
  by (simp add: parseStatement_def)


section \<open>Identifiers, constants, separators\<close>

definition ident :: "string \<Rightarrow> bool" where
  "ident w \<longleftrightarrow> w \<noteq> [] \<and> \<not> is_digit_char (first_char w) \<and> first_char w \<noteq> CHR ''.'' \<and> first_char w \<noteq> CHR ''_''
     \<and> list_all (\<lambda>c. to_lower c \<in> set identifier_chars) w \<and> map to_lower w \<notin> set keywordset"

definition const_word :: "string \<Rightarrow> bool" where
  "const_word v \<longleftrightarrow> word v"

definition quote_word :: "string \<Rightarrow> string" where
  "quote_word v = CHR 0x27 # v @ [CHR 0x27]"

lemma space_cases: "is_space c \<Longrightarrow> c \<in> {CHR 0x09, CHR 0x0A, CHR 0x0B, CHR 0x0C, CHR 0x0D, CHR '' ''}"
proof -
  assume "is_space c"
  then have "(of_char c :: nat) \<in> {9, 10, 11, 12, 13, 32}" by (simp add: is_space_def)
  then have "char_of (of_char c :: nat) \<in> (char_of ` {9, 10, 11, 12, 13, 32 :: nat})" by blast
  moreover have "char_of ` {9, 10, 11, 12, 13, 32 :: nat} =
      {CHR 0x09, CHR 0x0A, CHR 0x0B, CHR 0x0C, CHR 0x0D, CHR '' ''}"
    by (simp add: char_of_def bit_0)
  ultimately show ?thesis by (simp only: char_of_char)
qed

lemma identifier_plain: "to_lower c \<in> set identifier_chars \<Longrightarrow> plain_char c"
proof (rule ccontr)
  assume lower: "to_lower c \<in> set identifier_chars" and "\<not> plain_char c"
  then have "c \<in> {CHR 0x09, CHR 0x0A, CHR 0x0B, CHR 0x0C, CHR 0x0D, CHR '' '', CHR '';'', CHR '','', CHR ''('',
      CHR '')'', CHR ''*''}"
    using space_cases [of c] unfolding plain_char_def controlSymbolSet_def by auto
  moreover have "list_all (\<lambda>c. to_lower c \<notin> set identifier_chars) [CHR 0x09, CHR 0x0A, CHR 0x0B, CHR 0x0C,
      CHR 0x0D, CHR '' '', CHR '';'', CHR '','', CHR ''('', CHR '')'', CHR ''*'']"
    by code_simp
  ultimately show False using lower by auto
qed

lemma ident_word: "ident w \<Longrightarrow> word w"
  unfolding ident_def word_def by (auto simp: list_all_iff identifier_plain)

lemma ident_token_word: "ident w \<Longrightarrow> token_word w"
  by (simp add: token_word_def ident_word)

lemma word_not_special: "word w \<Longrightarrow> w \<notin> set controlSymbolSet \<and> w \<noteq> '';''"
  unfolding word_def by (cases w) (auto simp: plain_char_def controlSymbolSet_def)

lemma equals_not_identifier: "\<not> list_all (\<lambda>c. to_lower c \<in> set identifier_chars) ''=''"
  by code_simp

lemma classify_ident:
  assumes "ident w" shows "classify w = \<lparr>tok_type = Ty_identifier, tok_value = w\<rparr>"
proof -
  have "w \<noteq> ''=''" using assms equals_not_identifier unfolding ident_def by blast
  with word_not_special [OF ident_word [OF assms]] assms show ?thesis
    unfolding ident_def
    by (simp add: classify_def is_delimiter_def is_controlSymbol_def is_keyword_def is_op_def is_identifier_def
        Let_def list_all_iff)
qed

lemma quote_not_keyword: "map to_lower (quote_word v) \<notin> set keywordset"
proof -
  have "list_all (\<lambda>k. hd k \<noteq> to_lower (CHR 0x27)) keywordset" by code_simp
  then show ?thesis by (auto simp: list_all_iff quote_word_def)
qed

lemma quote_token_word:
  assumes "const_word v" shows "token_word (quote_word v)"
proof -
  have "plain_char (CHR 0x27)" by code_simp
  with assms show ?thesis by (simp add: token_word_def word_def const_word_def quote_word_def)
qed

lemma classify_quote:
  assumes "const_word v" shows "classify (quote_word v) = \<lparr>tok_type = Ty_literal, tok_value = v\<rparr>"
proof -
  have word: "word (quote_word v)" "v \<noteq> []"
    using assms \<comment> \<open>the quotes are plain\<close>
    unfolding const_word_def quote_word_def word_def by (simp_all add: plain_char_def is_space_def controlSymbolSet_def)
  have "to_lower (CHR 0x27) \<notin> set identifier_chars" by code_simp
  then have "\<not> list_all (\<lambda>c. to_lower c \<in> set identifier_chars) (quote_word v)"
    by (simp add: quote_word_def)
  moreover have "quote_word v \<noteq> ''=''" by (simp add: quote_word_def)
  moreover have "unescape (quote_word v) = v"
    using word(2) by (cases v) (auto simp: unescape_def is_escaped_def quote_word_def)
  ultimately show ?thesis
    using word_not_special [OF word(1)] quote_not_keyword [of v]
    by (simp add: classify_def is_delimiter_def is_controlSymbol_def is_keyword_def is_op_def is_identifier_def
        Let_def list_all_iff)
qed

fun sep :: "string \<Rightarrow> string list list \<Rightarrow> string list" where
  "sep s [] = []"
| "sep s [x] = x"
| "sep s (x # y # xs) = x @ s # sep s (y # xs)"

lemma sep_all: "(\<And>x. x \<in> set xs \<Longrightarrow> list_all P x) \<Longrightarrow> P s \<Longrightarrow> list_all P (sep s xs)"
  by (induction s xs rule: sep.induct) auto

text \<open>
  A separated list of items read by a part of the state machine: from a state of \<open>B\<close> an item leads to a
  state of \<open>E\<close> and adds to the statement, and the separator leads back to \<open>B\<close>. The contexts are
  \<open>C s st\<close> for a statement \<open>s\<close> and a state \<open>st\<close>.
\<close>

lemma feed_sep:
  assumes item: "\<And>x ts s b. x \<in> set xs \<Longrightarrow> b \<in> B \<Longrightarrow>
      \<exists>e\<in>E. feed ts (map classify (w x)) (C s b) = Inr (C (f x s) e)"
    and sept: "\<And>ts s e. e \<in> E \<Longrightarrow> \<exists>b\<in>B. feed ts [classify sp] (C s e) = Inr (C s b)"
    and "xs \<noteq> []" "b \<in> B"
  shows "\<exists>e\<in>E. feed ts (map classify (sep sp (map w xs))) (C s b) = Inr (C (fold f xs s) e)"
  using assms(3,4) item
proof (induction xs arbitrary: s b ts)
  case Nil
  then show ?case by simp
next
  case (Cons x xs)
  obtain e where e: "e \<in> E" "feed ts (map classify (w x)) (C s b) = Inr (C (f x s) e)"
    using Cons.prems by (meson list.set_intros(1))
  show ?case
  proof (cases xs)
    case Nil
    with e show ?thesis by auto
  next
    case (Cons y ys)
    let ?ts = "ts @ map classify (w x)"
    obtain b' where b': "b' \<in> B" "feed ?ts [classify sp] (C (f x s) e) = Inr (C (f x s) b')"
      using sept e(1) by blast
    have "\<exists>e\<in>E. feed (?ts @ [classify sp]) (map classify (sep sp (map w xs))) (C (f x s) b') = Inr (C (fold f xs (f x s)) e)"
      using Cons.IH [OF _ b'(1)] Cons.prems(3) \<open>xs = y # ys\<close> by simp
    moreover have "map classify (sep sp (map w (x # xs))) =
        map classify (w x) @ [classify sp] @ map classify (sep sp (map w xs))"
      using \<open>xs = y # ys\<close> by simp
    ultimately show ?thesis
      using e(2) b'(2) by (simp only: feed_append bind_res_def sum.case fold_simps)
  qed
qed

section \<open>SELECT\<close>

definition column_word :: "PColumn \<Rightarrow> string" where
  "column_word col = (if pc_table col = [] then pc_name col else pc_table col @ ''.'' @ pc_name col)"

definition col_ok :: "PColumn \<Rightarrow> bool" where
  "col_ok col \<longleftrightarrow> ident (column_word col)
     \<and> CHR ''.'' \<notin> set (if pc_table col = [] then pc_name col else pc_table col)"

lemma takeWhile_dot: "CHR ''.'' \<notin> set a \<Longrightarrow> takeWhile (\<lambda>c. c \<noteq> CHR ''.'') (a @ CHR ''.'' # b) = a"
  by (induction a) auto

lemma takeWhile_no_dot: "CHR ''.'' \<notin> set a \<Longrightarrow> takeWhile (\<lambda>c. c \<noteq> CHR ''.'') a = a"
  by (induction a) auto

lemma column_of_word: "col_ok col \<Longrightarrow> column_of (column_word col) = col"
  by (cases col) (auto simp: column_of_def parse_binding_attribute_def col_ok_def column_word_def PColumn_init_def
      Let_def takeWhile_dot takeWhile_no_dot split: if_splits)

definition show_relation :: "PTable \<Rightarrow> string list" where
  "show_relation r = [pt_name r, ''version'', pt_version r] @ (if pt_alias r = [] then [] else [pt_alias r])"

definition relation_ok :: "PTable \<Rightarrow> bool" where
  "relation_ok r \<longleftrightarrow> ident (pt_name r) \<and> ident (pt_version r) \<and> (pt_alias r = [] \<or> ident (pt_alias r))"

fun show_condition :: "(PColumn \<times> PColumn) + (PColumn \<times> string) \<Rightarrow> string list" where
  "show_condition (Inl (l, r)) = [column_word l, ''='', column_word r]"
| "show_condition (Inr (l, v)) = [column_word l, ''='', quote_word v]"

fun condition_ok :: "(PColumn \<times> PColumn) + (PColumn \<times> string) \<Rightarrow> bool" where
  "condition_ok (Inl (l, r)) = (col_ok l \<and> col_ok r)"
| "condition_ok (Inr (l, v)) = (col_ok l \<and> const_word v)"

definition conditions :: "SelectStatement \<Rightarrow> ((PColumn \<times> PColumn) + (PColumn \<times> string)) list" where
  "conditions s = map Inl (sel_joinConditions s) @ map Inr (sel_selections s)"

definition show_select :: "SelectStatement \<Rightarrow> string list" where
  "show_select s = ''select'' #
     (if sel_projections s = [] then [''*''] else sep '','' (map (\<lambda>c. [column_word c]) (sel_projections s))) @
     ''from'' # sep '','' (map show_relation (sel_relations s)) @
     (if conditions s = [] then [] else ''where'' # sep ''and'' (map show_condition (conditions s)))"

definition select_ok :: "SelectStatement \<Rightarrow> bool" where
  "select_ok s \<longleftrightarrow> list_all col_ok (sel_projections s) \<and> sel_relations s \<noteq> []
     \<and> list_all relation_ok (sel_relations s) \<and> list_all condition_ok (conditions s)"


text \<open>The context while a SELECT is read.\<close>

definition sel_ctx :: "ParsingContext \<Rightarrow> SelectStatement \<Rightarrow> select_state \<Rightarrow> ParsingContext" where
  "sel_ctx base s st = base\<lparr>px_opType := Op_Select, px_selectStmt := s, px_state := In_Select st\<rparr>"

lemma transition_select:
  "transition tz t (sel_ctx base s st) = parse_select st tz t (sel_ctx base s st)"
  by (simp add: transition_def sel_ctx_def)

lemma sel_ctx_simps [simp]:
  "px_selectStmt (sel_ctx base s st) = s"
  "goto (In_Select st') (sel_ctx base s st) = Inr (sel_ctx base s st')"
  "(sel_ctx base s st)\<lparr>px_selectStmt := s', px_state := In_Select st'\<rparr> = sel_ctx base s' st'"
  by (simp_all add: sel_ctx_def goto_def)

lemma classify_tokens [simp]:
  "classify ''select'' = \<lparr>tok_type = Ty_keyword, tok_value = ''select''\<rparr>"
  "classify ''from'' = \<lparr>tok_type = Ty_keyword, tok_value = ''from''\<rparr>"
  "classify ''where'' = \<lparr>tok_type = Ty_keyword, tok_value = ''where''\<rparr>"
  "classify ''and'' = \<lparr>tok_type = Ty_keyword, tok_value = ''and''\<rparr>"
  "classify ''version'' = \<lparr>tok_type = Ty_keyword, tok_value = ''version''\<rparr>"
  "classify ''insert'' = \<lparr>tok_type = Ty_keyword, tok_value = ''insert''\<rparr>"
  "classify ''into'' = \<lparr>tok_type = Ty_keyword, tok_value = ''into''\<rparr>"
  "classify ''values'' = \<lparr>tok_type = Ty_keyword, tok_value = ''values''\<rparr>"
  "classify ''update'' = \<lparr>tok_type = Ty_keyword, tok_value = ''update''\<rparr>"
  "classify ''set'' = \<lparr>tok_type = Ty_keyword, tok_value = ''set''\<rparr>"
  "classify ''delete'' = \<lparr>tok_type = Ty_keyword, tok_value = ''delete''\<rparr>"
  "classify ''='' = \<lparr>tok_type = Ty_op, tok_value = ''=''\<rparr>"
  "classify ''*'' = \<lparr>tok_type = Ty_controlSymbol, tok_value = ''*''\<rparr>"
  "classify '','' = \<lparr>tok_type = Ty_controlSymbol, tok_value = '',''\<rparr>"
  "classify ''('' = \<lparr>tok_type = Ty_controlSymbol, tok_value = ''(''\<rparr>"
  "classify '')'' = \<lparr>tok_type = Ty_controlSymbol, tok_value = '')''\<rparr>"
  by code_simp+

lemma prev_2: "Tokenizer_prev \<lparr>tz_in = x, tz_tokens = ts @ [a, b, c]\<rparr> 2 = Inr a"
  by (simp add: Tokenizer_prev_def nth_append)

lemma feed_projection:
  assumes "col_ok c" "b \<in> {St_Select, St_SelectProjectionAttrSeparator}"
  shows "feed ts (map classify [column_word c]) (sel_ctx base s b) =
    Inr (sel_ctx base (s\<lparr>sel_projections := sel_projections s @ [c]\<rparr>) St_SelectProjectionAttrName)"
  using assms classify_ident [of "column_word c"] column_of_word [OF assms(1)]
  by (auto simp: transition_select parse_select_def Let_def equalsControlSymbol_def col_ok_def bind_res_def)

lemma feed_relation:
  assumes "relation_ok r" "b \<in> {St_SelectFrom, St_SelectFromSeparator}"
  shows "\<exists>e\<in>{St_SelectFromTag, St_SelectFromBindingName}.
    feed ts (map classify (show_relation r)) (sel_ctx base s b) =
    Inr (sel_ctx base (s\<lparr>sel_relations := sel_relations s @ [r]\<rparr>) e)"
  using assms
  by (cases r; cases "pt_alias r = []")
    (auto simp: transition_select parse_select_def Let_def equalsControlSymbol_def equalsKeyword_def relation_ok_def
      bind_res_def show_relation_def classify_ident PTable_init_def)

lemma feed_condition:
  assumes "condition_ok x" "b \<in> {St_SelectWhere, St_SelectWhereAnd}"
  shows "feed ts (map classify (show_condition x)) (sel_ctx base s b) =
    Inr (sel_ctx base (case x of Inl j \<Rightarrow> s\<lparr>sel_joinConditions := sel_joinConditions s @ [j]\<rparr>
                               | Inr v \<Rightarrow> s\<lparr>sel_selections := sel_selections s @ [v]\<rparr>) St_SelectWhereExprRhs)"
  using assms column_of_word
  by (cases x rule: show_condition.cases)
    (auto simp: transition_select parse_select_def Let_def equalsControlSymbol_def equalsKeyword_def col_ok_def
      bind_res_def classify_ident classify_quote prev_2)


lemma fold_projections:
  "fold (\<lambda>c s. s\<lparr>sel_projections := sel_projections s @ [c]\<rparr>) cs s = s\<lparr>sel_projections := sel_projections s @ cs\<rparr>"
  by (induction cs arbitrary: s) simp_all

lemma fold_relations:
  "fold (\<lambda>c s. s\<lparr>sel_relations := sel_relations s @ [c]\<rparr>) cs s = s\<lparr>sel_relations := sel_relations s @ cs\<rparr>"
  by (induction cs arbitrary: s) simp_all

definition add_condition :: "(PColumn \<times> PColumn) + (PColumn \<times> string) \<Rightarrow> SelectStatement \<Rightarrow> SelectStatement" where
  "add_condition x s = (case x of Inl j \<Rightarrow> s\<lparr>sel_joinConditions := sel_joinConditions s @ [j]\<rparr>
     | Inr v \<Rightarrow> s\<lparr>sel_selections := sel_selections s @ [v]\<rparr>)"

lemma fold_joins: "fold add_condition (map Inl js) s = s\<lparr>sel_joinConditions := sel_joinConditions s @ js\<rparr>"
  by (induction js arbitrary: s) (simp_all add: add_condition_def)

lemma fold_selections: "fold add_condition (map Inr js) s = s\<lparr>sel_selections := sel_selections s @ js\<rparr>"
  by (induction js arbitrary: s) (simp_all add: add_condition_def)

lemma feed_projections:
  assumes "cs \<noteq> []" "list_all col_ok cs"
  shows "feed ts (map classify (sep '','' (map (\<lambda>c. [column_word c]) cs))) (sel_ctx base s St_Select) =
    Inr (sel_ctx base (s\<lparr>sel_projections := sel_projections s @ cs\<rparr>) St_SelectProjectionAttrName)"
proof -
  have "\<exists>e\<in>{St_SelectProjectionAttrName}.
      feed ts (map classify (sep '','' (map (\<lambda>c. [column_word c]) cs))) (sel_ctx base s St_Select) =
      Inr (sel_ctx base (fold (\<lambda>c s. s\<lparr>sel_projections := sel_projections s @ [c]\<rparr>) cs s) e)"
  proof (rule feed_sep [where B = "{St_Select, St_SelectProjectionAttrSeparator}"])
    show "\<exists>e\<in>{St_SelectProjectionAttrName}. feed ts (map classify [column_word x]) (sel_ctx base s b) =
        Inr (sel_ctx base (s\<lparr>sel_projections := sel_projections s @ [x]\<rparr>) e)"
      if "x \<in> set cs" "b \<in> {St_Select, St_SelectProjectionAttrSeparator}" for x ts s b
      using feed_projection [OF _ that(2)] that(1) assms by (simp only: list_all_iff bex_simps) blast
    show "\<exists>b\<in>{St_Select, St_SelectProjectionAttrSeparator}.
        feed ts [classify '',''] (sel_ctx base s e) = Inr (sel_ctx base s b)"
      if "e \<in> {St_SelectProjectionAttrName}" for ts s e
      using that by (auto simp: transition_select parse_select_def Let_def equalsControlSymbol_def
          equalsKeyword_def bind_res_def)
  qed (use assms in auto)
  then show ?thesis by (simp add: fold_projections)
qed

lemma feed_relations:
  assumes "rs \<noteq> []" "list_all relation_ok rs"
  shows "\<exists>e\<in>{St_SelectFromTag, St_SelectFromBindingName}.
    feed ts (map classify (sep '','' (map show_relation rs))) (sel_ctx base s St_SelectFrom) =
    Inr (sel_ctx base (s\<lparr>sel_relations := sel_relations s @ rs\<rparr>) e)"
proof -
  have "\<exists>e\<in>{St_SelectFromTag, St_SelectFromBindingName}.
      feed ts (map classify (sep '','' (map show_relation rs))) (sel_ctx base s St_SelectFrom) =
      Inr (sel_ctx base (fold (\<lambda>c s. s\<lparr>sel_relations := sel_relations s @ [c]\<rparr>) rs s) e)"
  proof (rule feed_sep [where B = "{St_SelectFrom, St_SelectFromSeparator}"])
    show "\<exists>e\<in>{St_SelectFromTag, St_SelectFromBindingName}.
        feed ts (map classify (show_relation r)) (sel_ctx base s b) =
        Inr (sel_ctx base (s\<lparr>sel_relations := sel_relations s @ [r]\<rparr>) e)"
      if "r \<in> set rs" "b \<in> {St_SelectFrom, St_SelectFromSeparator}" for r ts s b
      using feed_relation that assms by (simp add: list_all_iff)
    show "\<exists>b\<in>{St_SelectFrom, St_SelectFromSeparator}.
        feed ts [classify '',''] (sel_ctx base s e) = Inr (sel_ctx base s b)"
      if "e \<in> {St_SelectFromTag, St_SelectFromBindingName}" for ts s e
      using that by (auto simp: transition_select parse_select_def Let_def equalsControlSymbol_def
          equalsKeyword_def bind_res_def)
  qed (use assms in auto)
  then show ?thesis by (simp add: fold_relations)
qed

lemma feed_conditions:
  assumes "xs \<noteq> []" "list_all condition_ok xs"
  shows "feed ts (map classify (sep ''and'' (map show_condition xs))) (sel_ctx base s St_SelectWhere) =
    Inr (sel_ctx base (fold add_condition xs s) St_SelectWhereExprRhs)"
proof -
  have "\<exists>e\<in>{St_SelectWhereExprRhs}.
      feed ts (map classify (sep ''and'' (map show_condition xs))) (sel_ctx base s St_SelectWhere) =
      Inr (sel_ctx base (fold add_condition xs s) e)"
  proof (rule feed_sep [where B = "{St_SelectWhere, St_SelectWhereAnd}"])
    show "\<exists>e\<in>{St_SelectWhereExprRhs}. feed ts (map classify (show_condition x)) (sel_ctx base s b) =
        Inr (sel_ctx base (add_condition x s) e)"
      if "x \<in> set xs" "b \<in> {St_SelectWhere, St_SelectWhereAnd}" for x ts s b
      using feed_condition that assms by (simp add: list_all_iff add_condition_def)
    show "\<exists>b\<in>{St_SelectWhere, St_SelectWhereAnd}.
        feed ts [classify ''and''] (sel_ctx base s e) = Inr (sel_ctx base s b)"
      if "e \<in> {St_SelectWhereExprRhs}" for ts s e
      using that by (auto simp: transition_select parse_select_def Let_def equalsControlSymbol_def
          equalsKeyword_def bind_res_def)
  qed (use assms in auto)
  then show ?thesis by simp
qed

lemma keyword_words [simp]:
  "token_word ''select''" "token_word ''from''" "token_word ''where''" "token_word ''and''"
  "token_word ''version''" "token_word ''insert''" "token_word ''into''" "token_word ''values''"
  "token_word ''update''" "token_word ''set''" "token_word ''delete''" "token_word ''=''"
  "token_word ''*''" "token_word '',''" "token_word ''(''" "token_word '')''"
  by code_simp+

lemma select_words:
  assumes "select_ok s" shows "list_all token_word (show_select s)"
proof -
  have cond: "list_all token_word (show_condition x)" if "condition_ok x" for x
    using that by (cases x rule: show_condition.cases) (auto simp: col_ok_def ident_token_word quote_token_word)
  have rel: "list_all token_word (show_relation r)" if "relation_ok r" for r
    using that by (auto simp: show_relation_def relation_ok_def ident_token_word)
  have "list_all token_word (sep '','' (map (\<lambda>c. [column_word c]) (sel_projections s)))"
    using assms by (intro sep_all) (auto simp: select_ok_def list_all_iff col_ok_def ident_token_word)
  moreover have "list_all token_word (sep '','' (map show_relation (sel_relations s)))"
    using assms rel by (intro sep_all) (auto simp: select_ok_def list_all_iff)
  moreover have "list_all token_word (sep ''and'' (map show_condition (conditions s)))"
    using assms cond by (intro sep_all) (auto simp: select_ok_def list_all_iff)
  ultimately show ?thesis by (simp add: show_select_def)
qed

lemma fold_conditions:
  "fold add_condition (conditions s) r = r\<lparr>sel_joinConditions := sel_joinConditions r @ sel_joinConditions s,
     sel_selections := sel_selections r @ sel_selections s\<rparr>"
  by (simp add: conditions_def fold_joins fold_selections)

lemma feed_select:
  assumes "select_ok s"
  shows "\<exists>e\<in>{St_SelectFromTag, St_SelectFromBindingName, St_SelectWhereExprRhs}.
    feed [] (map classify (show_select s)) (c\<lparr>px_state := St_Init\<rparr>) = Inr (sel_ctx c s e)"
proof -
  let ?empty = "px_selectStmt ParsingContext_ctor"
  define proj where "proj = (if sel_projections s = [] then [''*''] else sep '','' (map (\<lambda>c. [column_word c]) (sel_projections s)))"
  define rels where "rels = sep '','' (map show_relation (sel_relations s))"
  define conds where "conds = (if conditions s = [] then [] else ''where'' # sep ''and'' (map show_condition (conditions s)))"
  let ?s1 = "?empty\<lparr>sel_projections := sel_projections s\<rparr>"
  let ?s2 = "?s1\<lparr>sel_relations := sel_relations s\<rparr>"
  have words: "show_select s = [''select''] @ proj @ [''from''] @ rels @ conds"
    by (simp add: show_select_def proj_def rels_def conds_def)
  have start: "feed ts [classify ''select''] (c\<lparr>px_state := St_Init\<rparr>) = Inr (sel_ctx c ?empty St_Select)" for ts
    by (simp add: transition_def parse_init_def equalsKeyword_def bind_res_def sel_ctx_def)
  have p: "\<exists>e\<in>{St_SelectProjectionStar, St_SelectProjectionAttrName}.
      feed ts (map classify proj) (sel_ctx c ?empty St_Select) = Inr (sel_ctx c ?s1 e)" for ts
  proof (cases "sel_projections s = []")
    case True
    then show ?thesis
      by (simp add: proj_def transition_select parse_select_def Let_def equalsControlSymbol_def bind_res_def
          ParsingContext_ctor_def)
  next
    case False
    with assms show ?thesis
      using feed_projections [of "sel_projections s" ts c ?empty]
      by (simp add: proj_def select_ok_def ParsingContext_ctor_def)
  qed
  have f: "feed ts [classify ''from''] (sel_ctx c ?s1 e) = Inr (sel_ctx c ?s1 St_SelectFrom)"
    if "e \<in> {St_SelectProjectionStar, St_SelectProjectionAttrName}" for e ts
    using that by (auto simp: transition_select parse_select_def Let_def equalsKeyword_def bind_res_def)
  have r: "\<exists>e\<in>{St_SelectFromTag, St_SelectFromBindingName}.
      feed ts (map classify rels) (sel_ctx c ?s1 St_SelectFrom) = Inr (sel_ctx c ?s2 e)" for ts
    using feed_relations [of "sel_relations s" ts c ?s1] assms
    by (simp add: rels_def select_ok_def ParsingContext_ctor_def)
  have w: "\<exists>e'\<in>{St_SelectFromTag, St_SelectFromBindingName, St_SelectWhereExprRhs}.
      feed ts (map classify conds) (sel_ctx c ?s2 e) = Inr (sel_ctx c s e')"
    if e: "e \<in> {St_SelectFromTag, St_SelectFromBindingName}" for e ts
  proof (cases "conditions s = []")
    case True
    then have "?s2 = s" by (cases s) (simp add: conditions_def ParsingContext_ctor_def)
    with True e show ?thesis by (auto simp: conds_def)
  next
    case False
    have "fold add_condition (conditions s) ?s2 = s"
      by (cases s) (simp add: fold_conditions ParsingContext_ctor_def)
    moreover have "feed ts [classify ''where''] (sel_ctx c ?s2 e) = Inr (sel_ctx c ?s2 St_SelectWhere)"
      using e by (auto simp: transition_select parse_select_def Let_def equalsKeyword_def equalsControlSymbol_def bind_res_def)
    ultimately have "feed ts ([classify ''where''] @ map classify (sep ''and'' (map show_condition (conditions s))))
        (sel_ctx c ?s2 e) = Inr (sel_ctx c s St_SelectWhereExprRhs)"
      using feed_conditions [OF False, of "ts @ [classify ''where'']" c ?s2] assms
      by (simp only: feed_append) (simp add: bind_res_def select_ok_def)
    with False show ?thesis by (simp add: conds_def)
  qed
  obtain e1 where e1: "e1 \<in> {St_SelectProjectionStar, St_SelectProjectionAttrName}"
    "feed ([] @ [classify ''select'']) (map classify proj) (sel_ctx c ?empty St_Select) = Inr (sel_ctx c ?s1 e1)"
    using p by blast
  let ?ts = "([] @ [classify ''select'']) @ map classify proj"
  obtain e2 where e2: "e2 \<in> {St_SelectFromTag, St_SelectFromBindingName}"
    "feed (?ts @ [classify ''from'']) (map classify rels) (sel_ctx c ?s1 St_SelectFrom) = Inr (sel_ctx c ?s2 e2)"
    using r by blast
  show ?thesis
    using w [OF e2(1), of "(?ts @ [classify ''from'']) @ map classify rels"] start f [OF e1(1)] e1(2) e2(2)
    by (simp only: words map_append list.map feed_append bind_res_def sum.case)
qed

text \<open>
  C7: printing a SELECT statement and parsing the text gives the statement back -- every projection,
  relation with its version and binding, join condition and selection, in their order. The statement's
  names must be identifiers for the tokenizer (a column with a binding is printed with a dot) and the
  constants must hold no blank, bracket, comma, star or semicolon: the tokenizer splits quoted constants
  at these.
\<close>

theorem select_round_trip:
  assumes "select_ok s"
  shows "parseStatement c (render (show_select s) @ '';'') =
    Some (Inr (c\<lparr>px_opType := Op_Select, px_selectStmt := s, px_state := St_Done\<rparr>))"
proof -
  obtain e where e: "e \<in> {St_SelectFromTag, St_SelectFromBindingName, St_SelectWhereExprRhs}"
    "feed [] (map classify (show_select s)) (c\<lparr>px_state := St_Init\<rparr>) = Inr (sel_ctx c s e)"
    using feed_select [OF assms] by blast
  have "finish (sel_ctx c s e) = Inr (c\<lparr>px_opType := Op_Select, px_selectStmt := s, px_state := St_Done\<rparr>)"
    using e(1) by (auto simp: finish_def stateIsFinal_def finalStates_def sel_ctx_def)
  with e(2) show ?thesis
    by (simp add: parseStatement_words [OF select_words [OF assms]] bind_res_def)
qed

text \<open>\<^verbatim>\<open>select a , r.b from t version master r , u version dev where r.b = a and a = '7' ;\<close>\<close>

definition select_example :: SelectStatement where
  "select_example = \<lparr>sel_projections = [\<lparr>pc_name = ''a'', pc_table = []\<rparr>, \<lparr>pc_name = ''b'', pc_table = ''r''\<rparr>],
     sel_relations = [\<lparr>pt_name = ''t'', pt_alias = ''r'', pt_version = ''master''\<rparr>,
       \<lparr>pt_name = ''u'', pt_alias = [], pt_version = ''dev''\<rparr>],
     sel_joinConditions = [(\<lparr>pc_name = ''b'', pc_table = ''r''\<rparr>, \<lparr>pc_name = ''a'', pc_table = []\<rparr>)],
     sel_selections = [(\<lparr>pc_name = ''a'', pc_table = []\<rparr>, ''7'')]\<rparr>"

theorem select_round_trip_witness:
  "parseStatement ParsingContext_ctor (render (show_select select_example) @ '';'') =
    Some (Inr (ParsingContext_ctor\<lparr>px_opType := Op_Select, px_selectStmt := select_example, px_state := St_Done\<rparr>))"
  by (rule select_round_trip) code_simp

text \<open>
  C8: Which parts of a statement are there when the parser accepts it. Whatever the token stream, when
  \<^term>\<open>parseStatement\<close> returns a context without an exception, the kind of the statement is set, and a
  SELECT has at least one relation, each with a name and a branch; an INSERT has a relation with a branch,
  at least one value, and a name for each column it lists; an UPDATE has a relation with a branch and at
  least one assignment; a DELETE has a relation with a branch; a CREATE TABLE has a table name and a name
  for each column; a CREATE BRANCH names the new branch and its parent; a COPY has a relation with a branch,
  a path and one of the two formats. This is not all the analysers read: the parser does not compare the
  number of values of an INSERT with the number of its columns, and it accepts a CREATE TABLE without
  columns.
\<close>

theorem accepted_statements_complete:
  assumes "parseStatement c s = Some (Inr c')"
  shows "complete c'"
  using parse_loop_complete_aux [OF assms [unfolded parseStatement_def]]
  by (simp add: wf_state_def)

theorem accepted_statements_complete_witness:
  "complete (ParsingContext_ctor\<lparr>px_opType := Op_Delete, px_state := St_Done,
     px_deleteStmt := \<lparr>del_relation = \<lparr>pt_name = ''t'', pt_alias = [], pt_version = ''master''\<rparr>, del_selections = []\<rparr>\<rparr>)"
proof (rule accepted_statements_complete)
  show "parseStatement ParsingContext_ctor (render [''delete'', ''from'', ''t''] @ '';'') =
    Some (Inr (ParsingContext_ctor\<lparr>px_opType := Op_Delete, px_state := St_Done,
     px_deleteStmt := \<lparr>del_relation = \<lparr>pt_name = ''t'', pt_alias = [], pt_version = ''master''\<rparr>, del_selections = []\<rparr>\<rparr>))"
    by (subst parseStatement_words) code_simp+
qed

section \<open>Statements without an end\<close>

text \<open>
  In text without a semicolon and an opening bracket the tokenizer finds neither, so the parser stays in
  the state it is in after the name of a table that is to be created.
\<close>

definition unbracketed :: "string \<Rightarrow> bool" where
  "unbracketed s \<longleftrightarrow> CHR '';'' \<notin> set s \<and> CHR ''('' \<notin> set s"

lemma next_loop_unbracketed:
  "unbracketed inp \<Longrightarrow> unbracketed ss \<Longrightarrow>
     unbracketed (fst (next_loop inp ss i)) \<and> unbracketed (snd (next_loop inp ss i))"
  by (induction inp ss i rule: next_loop.induct) (auto simp: unbracketed_def eof_char_def)

lemma classify_unbracketed:
  assumes "unbracketed v"
  shows "tok_type (classify v) \<noteq> Ty_delimiter" "\<not> equalsControlSymbol (classify v) ''(''"
  using assms
  by (auto simp: unbracketed_def classify_def Let_def is_delimiter_def is_controlSymbol_def is_keyword_def
      is_op_def is_identifier_def equalsControlSymbol_def split: prod.splits if_splits)

lemma next_unbracketed:
  assumes "unbracketed (tz_in tz)"
  shows "tok_type (fst (Tokenizer_next tz)) \<noteq> Ty_delimiter" "\<not> equalsControlSymbol (fst (Tokenizer_next tz)) ''(''"
    "unbracketed (tz_in (snd (Tokenizer_next tz)))"
  using next_loop_unbracketed [OF assms, of "[]" 0] classify_unbracketed
  by (auto simp: Tokenizer_next_def Let_def unbracketed_def split: prod.splits)

lemma parse_loop_stuck:
  assumes "parse_loop tz c = Some r"
  shows "\<not> (unbracketed (tz_in tz) \<and> px_state c = In_CreateTable St_CreateTableRelationName)"
proof (rule parse_loop.raw_induct [OF _ assms])
  fix pl tz c r
  assume IH: "\<And>tz c r. pl tz c = Some r \<Longrightarrow>
      \<not> (unbracketed (tz_in tz) \<and> px_state c = In_CreateTable St_CreateTableRelationName)"
    and run: "(if px_state c = St_Done then Some (Inr c)
      else case parseToken tz c of Inl e \<Rightarrow> Some (Inl e) | Inr p \<Rightarrow> pl (fst p) (snd p)) = Some r"
  show "\<not> (unbracketed (tz_in tz) \<and> px_state c = In_CreateTable St_CreateTableRelationName)"
  proof
    assume stuck: "unbracketed (tz_in tz) \<and> px_state c = In_CreateTable St_CreateTableRelationName"
    note next_tok = next_unbracketed [of tz, OF conjunct1 [OF stuck]]
    then have "parseToken tz c = Inr (snd (Tokenizer_next tz), c)"
      using stuck by (simp add: parseToken_def split_beta transition_def parse_create_table_def Let_def)
    with run stuck have "pl (snd (Tokenizer_next tz)) c = Some r" by simp
    then have "\<not> (unbracketed (tz_in (snd (Tokenizer_next tz)))
        \<and> px_state c = In_CreateTable St_CreateTableRelationName)"
      by (rule IH)
    then show False using stuck next_tok(3) by simp
  qed
qed

lemma parse_loop_word:
  assumes "word w" "px_state c \<noteq> St_Done" "transition \<lparr>tz_in = [], tz_tokens = ts @ [classify w]\<rparr> (classify w) c = Inr c'"
  shows "parse_loop \<lparr>tz_in = w @ '' '' @ rest, tz_tokens = ts\<rparr> c =
    parse_loop \<lparr>tz_in = rest, tz_tokens = ts @ [classify w]\<rparr> c'"
proof -
  have "next_loop (w @ '' '' @ rest) [] 0 = (w, rest)"
    using next_loop_word [of w 0 rest "[]"] assms(1) by (simp add: word_def)
  then have "Tokenizer_next \<lparr>tz_in = w @ '' '' @ rest, tz_tokens = ts\<rparr> =
      (classify w, \<lparr>tz_in = rest, tz_tokens = ts @ [classify w]\<rparr>)"
    by (simp add: Tokenizer_next_def Let_def)
  moreover have "tok_type (classify w) \<noteq> Ty_delimiter"
    using word_not_delimiter assms(1) by (simp add: token_word_def)
  ultimately have "parseToken \<lparr>tz_in = w @ '' '' @ rest, tz_tokens = ts\<rparr> c =
      Inr (\<lparr>tz_in = rest, tz_tokens = ts @ [classify w]\<rparr>, c')"
    using assms(3) by (simp add: parseToken_def transition_input' [where x = rest])
  with assms(2) show ?thesis by (simp add: parse_loop_step)
qed

text \<open>
  C10: a \<^verbatim>\<open>create table\<close> without an end is parsed forever. For every table name and whatever text follows
  it, as long as the text has neither an opening bracket nor a semicolon: after the table name every
  token other than an opening bracket is skipped, and past the end of the input the tokenizer hands out
  literals without end, since the delimiter that the code puts back there is never read.
\<close>

theorem unterminated_create_table_diverges:
  assumes "ident n" "CHR '';'' \<notin> set rest" "CHR ''('' \<notin> set rest"
  shows "parseStatement c (''create table '' @ n @ '' '' @ rest) = None"
proof -
  define c1 where "c1 = c\<lparr>px_state := In_Create St_Create\<rparr>"
  define c2 where "c2 = c1\<lparr>px_opType := Op_CreateTable,
      px_createTableStmt := px_createTableStmt ParsingContext_ctor, px_state := In_CreateTable St_CreateTable\<rparr>"
  define c3 where "c3 = c2\<lparr>px_createTableStmt := (px_createTableStmt c2)\<lparr>ct_tableName := n\<rparr>,
      px_state := In_CreateTable St_CreateTableRelationName\<rparr>"
  have w: "word ''create''" "word ''table''" by code_simp+
  have k: "classify ''create'' = \<lparr>tok_type = Ty_keyword, tok_value = ''create''\<rparr>"
    "classify ''table'' = \<lparr>tok_type = Ty_keyword, tok_value = ''table''\<rparr>" by code_simp+
  let ?ts = "[classify ''create'', classify ''table'', classify n]"
  have "parseStatement c (''create table '' @ n @ '' '' @ rest) =
      parse_loop \<lparr>tz_in = ''create'' @ '' '' @ ''table'' @ '' '' @ n @ '' '' @ rest, tz_tokens = []\<rparr> (c\<lparr>px_state := St_Init\<rparr>)"
    by (simp add: parseStatement_def)
  also have "\<dots> = parse_loop \<lparr>tz_in = ''table'' @ '' '' @ n @ '' '' @ rest, tz_tokens = [classify ''create'']\<rparr> c1"
    by (subst parse_loop_word [OF w(1), where c' = c1])
      (simp_all add: k transition_def parse_init_def equalsKeyword_def goto_def c1_def)
  also have "\<dots> = parse_loop \<lparr>tz_in = n @ '' '' @ rest, tz_tokens = [classify ''create'', classify ''table'']\<rparr> c2"
    by (subst parse_loop_word [OF w(2), where c' = c2])
      (simp_all add: k transition_def parse_create_def equalsKeyword_def Let_def c1_def c2_def)
  also have "\<dots> = parse_loop \<lparr>tz_in = rest, tz_tokens = ?ts\<rparr> c3"
    by (subst parse_loop_word [OF ident_word [OF assms(1)], where c' = c3])
      (simp_all add: classify_ident [OF assms(1)] transition_def parse_create_table_def Let_def c2_def c3_def)
  finally have "parseStatement c (''create table '' @ n @ '' '' @ rest) = parse_loop \<lparr>tz_in = rest, tz_tokens = ?ts\<rparr> c3" .
  moreover have "parse_loop \<lparr>tz_in = rest, tz_tokens = ?ts\<rparr> c3 \<noteq> Some r" for r :: "exn + ParsingContext"
    using parse_loop_stuck [of "\<lparr>tz_in = rest, tz_tokens = ?ts\<rparr>" c3 r] assms(2,3) by (auto simp: c3_def unbracketed_def)
  ultimately have "parseStatement c (''create table '' @ n @ '' '' @ rest) \<noteq> Some r" for r by metis
  then show ?thesis by (meson not_None_eq)
qed

theorem unterminated_create_table_diverges_witness:
  "parseStatement ParsingContext_ctor (''create table '' @ ''items'' @ '' '' @ ''id integer not null'') = None"
  by (rule unterminated_create_table_diverges) code_simp+

end
