(* ===== verification/LegacyCasts.thy ===== *)
theory LegacyCasts
  imports Tardis_Prelude "HOL-Library.Signed_Division"
begin

text \<open>
  Text to values and back, foundations/LegacyTypes.cpp: the casts of integers, decimals, dates and
  timestamps, and the functions that print them.

  The characters between the two pointers \<^verbatim>\<open>iter\<close> and \<^verbatim>\<open>limit\<close> are a list. Unsigned values are
  words; \<^verbatim>\<open>int64_t\<close> results are words too, read with \<open>sint\<close>, and the \<^verbatim>\<open>long\<close> arithmetic of
  \<^verbatim>\<open>printNumeric\<close> is on integers with the wrap-around written out. The thrown string literals are
  \<open>ThrownString\<close> values.
\<close>

section \<open>Integers\<close>

definition trim_ws :: "string \<Rightarrow> string" where
  "trim_ws str = rev (dropWhile (\<lambda>c. c = CHR '' '') (rev (dropWhile (\<lambda>c. c = CHR '' '') str)))"

definition take_sign :: "string \<Rightarrow> bool \<times> string" where
  "take_sign s =
     (case s of
        [] \<Rightarrow> (False, [])
      | c # cs \<Rightarrow> if c = CHR ''-'' then (True, cs) else if c = CHR ''+'' then (False, cs) else (False, s))"

fun integer_loop :: "string \<Rightarrow> u64 \<Rightarrow> nat \<Rightarrow> (u64 \<times> nat) result" where
  \<comment> \<open>the characters that are left, \<^verbatim>\<open>result\<close>, \<^verbatim>\<open>digitsSeen\<close>\<close>
  "integer_loop [] result digitsSeen = Inr (result, digitsSeen)"
| "integer_loop (c # cs) result digitsSeen =
     (if is_digit_char c then integer_loop cs (result * 10 + of_nat (digit_value c)) (digitsSeen + 1)
      else if c = CHR ''.'' then Inr (result, digitsSeen)
      else Inl (ThrownString ''invalid number format: invalid character in integer string''))"

definition castStringToUnsignedLongIntegerValue :: "string \<Rightarrow> u64 result" where
  "castStringToUnsignedLongIntegerValue str =
     (let (neg, s) = take_sign (trim_ws str)
      in if s = [] then Inl (ThrownString ''invalid number format: found non-integer characters'')
         else bind_res (integer_loop s 0 0) (\<lambda>(result, digitsSeen).
           if digitsSeen > 10
           then Inl (ThrownString ''invalid number format: too many characters (32bit integers can at most consist of 10 numeric characters)'')
           else Inr result))"

definition castStringToIntegerValue :: "string \<Rightarrow> u32 result" where
  "castStringToIntegerValue str =
     (let (neg, s) = take_sign (trim_ws str)
      in if s = [] then Inl (ThrownString ''invalid number format: found non-integer characters'')
         else bind_res (integer_loop s 0 0) (\<lambda>(result, digitsSeen).
           if digitsSeen > 10
           then Inl (ThrownString ''invalid number format: too many characters (32bit integers can at most consist of 10 numeric characters)'')
           else Inr (ucast (if neg then - result else result))))"

section \<open>Decimals\<close>

definition strip_zeros :: "string \<Rightarrow> string" where
  \<comment> \<open>\<^verbatim>\<open>limit\<close> moves back over the zeros at the end; the dot in front of the rest stops it\<close>
  "strip_zeros s = rev (dropWhile (\<lambda>c. c = CHR ''0'') (rev s))"

lemma strip_zeros_length [termination_simp]: "length (strip_zeros s) \<le> length s"
  unfolding strip_zeros_def by (metis length_dropWhile_le length_rev)

lemma strip_zeros_less [termination_simp]: "length (strip_zeros s) < Suc (length s)"
  using strip_zeros_length [of s] by simp

fun numeric_loop :: "string \<Rightarrow> u64 \<Rightarrow> bool \<Rightarrow> nat \<Rightarrow> nat \<Rightarrow> (u64 \<times> nat \<times> nat) result" where
  \<comment> \<open>the characters that are left, \<^verbatim>\<open>result\<close>, \<^verbatim>\<open>fraction\<close>, \<^verbatim>\<open>digitsSeen\<close>, \<^verbatim>\<open>digitsSeenFraction\<close>\<close>
  "numeric_loop [] result fraction digitsSeen digitsSeenFraction = Inr (result, digitsSeen, digitsSeenFraction)"
| "numeric_loop (c # cs) result fraction digitsSeen digitsSeenFraction =
     (if is_digit_char c
      then numeric_loop cs (result * 10 + of_nat (digit_value c)) fraction
             (if fraction then digitsSeen else digitsSeen + 1)
             (if fraction then digitsSeenFraction + 1 else digitsSeenFraction)
      else if c = CHR ''.''
      then if fraction then Inl (ThrownString ''invalid number format: already in fraction'')
           else numeric_loop (strip_zeros cs) result True digitsSeen digitsSeenFraction
      else Inl (ThrownString ''invalid number format: invalid character in numeric string''))"

definition numericShifts :: "u64 list" where
  "numericShifts = map (\<lambda>k. 10 ^ k) [0 ..< 19]"

definition castStringToNumericValue :: "string \<Rightarrow> nat \<Rightarrow> nat \<Rightarrow> u64 result" where
  "castStringToNumericValue str len precision =
     (let (neg, s) = take_sign (trim_ws str)
      in if s = [] then Inl (ThrownString ''invalid number format: found non-numeric characters'')
         else bind_res (numeric_loop s 0 False 0 0) (\<lambda>(result, digitsSeen, digitsSeenFraction).
           if digitsSeen > 18 \<or> digitsSeenFraction > precision
           then Inl (ThrownString ''invalid number format: loosing precision'')
           else if precision - digitsSeenFraction \<ge> length numericShifts then Inl MemFault
           else let r = result * numericShifts ! (precision - digitsSeenFraction)
                in Inr (if neg then - r else r)))"

definition wrap64 :: "int \<Rightarrow> int" where
  "wrap64 i = signed_take_bit 63 i"

partial_function (option) leading_zeros :: "int \<Rightarrow> int \<Rightarrow> string \<Rightarrow> string option" where
  \<comment> \<open>the loop in front of the last \<^verbatim>\<open>printf\<close>; the third argument is what has been printed\<close>
  "leading_zeros sep v out =
     (if sep > wrap64 (10 * v) then leading_zeros (sep sdiv 10) v (out @ ''0'') else Some out)"

declare leading_zeros.simps [code]

definition printNumeric :: "nat \<Rightarrow> nat \<Rightarrow> int \<Rightarrow> string comp" where
  "printNumeric len precision raw =
     (let (out, v) = (if raw < 0 then (''-'', wrap64 (- raw)) else ([], raw))
      in if precision = 0 then Some (Inr (out @ show_int v))
         else let sep = ((\<lambda>sep. wrap64 (sep * 10)) ^^ (precision - 1)) 10
              in if sep = 0 then Some (Inl DivideByZero)
                 else let out = out @ show_int (v sdiv sep) @ ''.''; v = v smod sep
                      in if v = 0 then Some (Inr (out @ replicate precision (CHR ''0'')))
                         else map_option (\<lambda>out. Inr (out @ show_int v)) (leading_zeros sep v out))"

section \<open>Dates and timestamps\<close>

definition msPerDay :: u64 where
  "msPerDay = 24*60*60*1000"

definition mergeTime :: "u32 \<Rightarrow> u32 \<Rightarrow> u32 \<Rightarrow> u32 \<Rightarrow> u32" where
  "mergeTime hour minute second ms = ms + (1000*second) + (60*1000*minute) + (60*60*1000*hour)"

definition mergeJulianDay :: "u32 \<Rightarrow> u32 \<Rightarrow> u32 \<Rightarrow> u32" where
  "mergeJulianDay year month day =
     (let a = (14 - month) div 12;
          y = year + 4800 - a;
          m = month + (12*a) - 3
      in day + ((153*m+2) div 5) + (365*y) + (y div 4) - (y div 100) + (y div 400) - 32045)"

definition splitJulianDay :: "u32 \<Rightarrow> u32 \<times> u32 \<times> u32" where
  "splitJulianDay jd =
     (let a = jd + 32044;
          b = (4*a+3) div 146097;
          c = a - ((146097*b) div 4);
          d = (4*c+3) div 1461;
          e = c - ((1461*d) div 4);
          m = (5*e+2) div 153
      in ((100*b) + d - 4800 + (m div 10),
          m + 3 - (12*(m div 10)),
          e - ((153*m+2) div 5) + 1))"

definition show_padded :: "nat \<Rightarrow> u32 \<Rightarrow> string" where
  \<comment> \<open>\<^verbatim>\<open>%0ku\<close>\<close>
  "show_padded k n = (let s = show_nat (unat n) in replicate (k - length s) (CHR ''0'') @ s)"

definition printDate :: "u32 \<Rightarrow> string" where
  "printDate raw =
     (let (year, month, day) = splitJulianDay raw
      in show_padded 4 year @ ''-'' @ show_padded 2 month @ ''-'' @ show_padded 2 day)"

fun read_until :: "exn \<Rightarrow> char \<Rightarrow> u32 \<Rightarrow> string \<Rightarrow> (u32 \<times> string) result" where
  \<comment> \<open>a number that a separator must follow\<close>
  "read_until e stop n [] = Inl e"
| "read_until e stop n (c # cs) =
     (if c = stop then Inr (n, cs)
      else if is_digit_char c then read_until e stop (10 * n + of_nat (digit_value c)) cs
      else Inl e)"

fun read_last :: "exn \<Rightarrow> char option \<Rightarrow> u32 \<Rightarrow> string \<Rightarrow> (u32 \<times> string) result" where
  \<comment> \<open>a number that the end of the text or a separator ends\<close>
  "read_last e stop n [] = Inr (n, [])"
| "read_last e stop n (c # cs) =
     (if Some c = stop then Inr (n, cs)
      else if is_digit_char c then read_last e stop (10 * n + of_nat (digit_value c)) cs
      else Inl e)"

definition castStringToDateValue :: "string \<Rightarrow> u32 result" where
  "castStringToDateValue str =
     (let e = ThrownString ''invalid date format''
      in bind_res (read_until e (CHR ''-'') 0 (trim_ws str)) (\<lambda>(year, s).
         bind_res (read_until e (CHR ''-'') 0 s) (\<lambda>(month, s).
         bind_res (read_last e None 0 s) (\<lambda>(day, s).
           if year > 9999 \<or> month < 1 \<or> month > 12 \<or> day < 1 \<or> day > 31 then Inl e
           else Inr (mergeJulianDay year month day)))))"

definition castStringToTimestampValue :: "string \<Rightarrow> u64 result" where
  "castStringToTimestampValue str =
     (let e = ThrownString ''invalid timestamp format''
      in bind_res (read_until e (CHR ''-'') 0 (trim_ws str)) (\<lambda>(year, s).
         bind_res (read_until e (CHR ''-'') 0 s) (\<lambda>(month, s).
         bind_res (read_last e (Some (CHR '' '')) 0 s) (\<lambda>(day, s).
           if year > 9999 \<or> month < 1 \<or> month > 12 \<or> day < 1 \<or> day > 31 then Inl e
           else let date = ucast (mergeJulianDay year month day) :: u64
                in bind_res (read_until e (CHR '':'') 0 s) (\<lambda>(hour, s).
                   bind_res (read_until e (CHR '':'') 0 s) (\<lambda>(minute, s).
                   bind_res (read_last e (Some (CHR ''.'')) 0 s) (\<lambda>(second, s).
                   bind_res (read_last e None 0 s) (\<lambda>(ms, s).
                     if hour \<ge> 24 \<or> minute \<ge> 60 \<or> second \<ge> 60 \<or> ms \<ge> 1000 then Inl e
                     else Inr (date * msPerDay + ucast (mergeTime hour minute second ms))))))))))"

definition splitTime :: "u32 \<Rightarrow> u32 \<times> u32 \<times> u32 \<times> u32" where
  \<comment> \<open>hour, minute, second, ms\<close>
  "splitTime value =
     (let ms = value mod 1000; value = value div 1000;
          second = value mod 60; value = value div 60;
          minute = value mod 60; value = value div 60
      in (value mod 24, minute, second, ms))"

definition printTimestamp :: "u64 \<Rightarrow> string" where
  "printTimestamp raw =
     (let (year, month, day) = splitJulianDay (ucast (raw div msPerDay));
          (hour, minute, second, ms) = splitTime (ucast (raw mod msPerDay));
          s = show_padded 4 year @ ''-'' @ show_padded 2 month @ ''-'' @ show_padded 2 day @ '' '' @
              show_padded 0 hour @ '':'' @ show_padded 2 minute @ '':'' @ show_padded 2 second
      in if ms \<noteq> 0 then s @ ''.'' @ show_padded 3 ms else s)"

section \<open>The calendar\<close>

definition leap :: "nat \<Rightarrow> bool" where
  "leap y \<longleftrightarrow> y mod 4 = 0 \<and> (y mod 100 \<noteq> 0 \<or> y mod 400 = 0)"

definition days_in_month :: "nat \<Rightarrow> nat \<Rightarrow> nat" where
  "days_in_month y m = (if m = 2 then if leap y then 29 else 28 else if m \<in> {4, 6, 9, 11} then 30 else 31)"

definition valid_date :: "nat \<Rightarrow> nat \<Rightarrow> nat \<Rightarrow> bool" where
  "valid_date y m d \<longleftrightarrow> y \<le> 9999 \<and> 1 \<le> m \<and> m \<le> 12 \<and> 1 \<le> d \<and> d \<le> days_in_month y m"

text \<open>
  The two conversions over the natural numbers. A year that begins in March is \<open>100 * B + D\<close>, with
  \<open>B = 4 * q + r\<close> and \<open>D = 4 * s + t\<close>; \<open>n\<close> is the day of that year.
\<close>

lemma julian_day_number:
  fixes n q r s t :: nat
  assumes "r < 4" "t < 4" "s < 25" "n \<le> 365" "n = 365 \<longrightarrow> t = 3 \<and> (s = 24 \<longrightarrow> r = 3)"
    and "y = 100 * (4 * q + r) + (4 * s + t)" "a = n + 365 * y + y div 4 - y div 100 + y div 400"
    and b_def: "b = (4 * a + 3) div 146097" and c_def: "c = a - (146097 * b) div 4"
    and d_def: "d = (4 * c + 3) div 1461"
  shows "b = 4 * q + r" "d = 4 * s + t" "c - (1461 * d) div 4 = n" "146097 * b div 4 \<le> a" "1461 * d div 4 \<le> c"
    "a = n + 146097 * q + 36524 * r + 1461 * s + 365 * t"
proof -
  have y: "y div 4 = 100 * q + 25 * r + s" "y div 100 = 4 * q + r" "y div 400 = q"
    using assms(1-3,6) by simp_all
  show a: "a = n + 146097 * q + 36524 * r + 1461 * s + 365 * t"
    unfolding assms(7) y using assms(6) by simp
  have max: "4 * n + 5844 * s + 1460 * t + 3 < 146097 + r" "4 * n + 3 < 1461 + t"
  proof -
    show "4 * n + 5844 * s + 1460 * t + 3 < 146097 + r"
      by (cases "n = 365"; cases "s = 24") (use assms(1-5) in linarith)+
    show "4 * n + 3 < 1461 + t"
      by (cases "n = 365") (use assms(4,5) in linarith)+
  qed
  have "146097 * (4 * q + r) \<le> 4 * a + 3" unfolding a distrib_left using assms(1) by simp
  moreover have "4 * a + 3 < 146097 * (4 * q + r + 1)" unfolding a distrib_left using max(1) by simp
  ultimately show b: "b = 4 * q + r" unfolding b_def by (intro div_nat_eqI) (simp_all add: algebra_simps)
  have b4: "146097 * b div 4 = 146097 * q + 36524 * r"
    unfolding b using assms(1) by simp
  then show "146097 * b div 4 \<le> a" by (simp add: a)
  have c: "c = n + 1461 * s + 365 * t" unfolding c_def b4 a by simp
  have "1461 * (4 * s + t) \<le> 4 * c + 3" unfolding c distrib_left using assms(2) by simp
  moreover have "4 * c + 3 < 1461 * (4 * s + t + 1)" unfolding c distrib_left using max(2) by simp
  ultimately show d: "d = 4 * s + t" unfolding d_def by (intro div_nat_eqI) (simp_all add: algebra_simps)
  have "1461 * d div 4 = 1461 * s + 365 * t" unfolding d using assms(2) by simp
  then show "c - (1461 * d) div 4 = n" "1461 * d div 4 \<le> c" by (simp_all add: c)
qed


definition julian :: "nat \<Rightarrow> nat \<Rightarrow> nat \<Rightarrow> nat" where
  \<comment> \<open>the number plus 32044, for the year \<open>y\<close> that began in March, its month \<open>m\<close> from 0 and the day\<close>
  "julian y m d = (d - 1) + (153 * m + 2) div 5 + 365 * y + y div 4 - y div 100 + y div 400"

definition march_year :: "nat \<Rightarrow> nat \<Rightarrow> nat" where
  "march_year y m = (if m \<le> 2 then y + 4799 else y + 4800)"

definition march_month :: "nat \<Rightarrow> nat" where
  "march_month m = (if m \<le> 2 then m + 9 else m - 3)"

lemma nat_cases_12: "1 \<le> m \<Longrightarrow> m \<le> 12 \<Longrightarrow> m \<in> {1, 2, 3, 4, 5, 6, 7, 8, 9, 10, 11, 12 :: nat}"
  by simp arith

lemma month_of_day:
  assumes "valid_date y m d" "n = (d - 1) + (153 * march_month m + 2) div 5"
  shows "(5 * n + 2) div 153 = march_month m" "n \<le> 365" "n = 365 \<longrightarrow> m = 2 \<and> leap y"
    "n - (153 * march_month m + 2) div 5 + 1 = d" "(153 * march_month m + 2) div 5 \<le> n"
proof -
  from assms(1) have m: "m \<in> {1, 2, 3, 4, 5, 6, 7, 8, 9, 10, 11, 12}" and d: "1 \<le> d" "d \<le> days_in_month y m"
    using nat_cases_12 [of m] by (simp_all add: valid_date_def)
  have "(5 * n + 2) div 153 = march_month m \<and> n \<le> 365 \<and> (n = 365 \<longrightarrow> m = 2 \<and> leap y)"
    using m d assms(2) by (elim insertE emptyE)
      (simp_all add: march_month_def days_in_month_def div_nat_eqI split: if_splits, linarith?)
  then show "(5 * n + 2) div 153 = march_month m" "n \<le> 365" "n = 365 \<longrightarrow> m = 2 \<and> leap y" by auto
  show "n - (153 * march_month m + 2) div 5 + 1 = d" "(153 * march_month m + 2) div 5 \<le> n"
    using d(1) assms(2) by simp_all
qed

lemma leap_march:
  assumes leap: "leap y" and y: "march_year y 2 = 100 * (4 * q + r) + (4 * s + t)" and "r < 4" "t < 4" "s < 25"
  shows "t = 3 \<and> (s = 24 \<longrightarrow> r = (3 :: nat))"
proof -
  have Y: "y + 4800 = 4 * (25 * (4 * q + r) + s) + (t + 1)" using y by (simp add: march_year_def)
  have "(y + 4800) mod 4 = 0" using leap by (simp add: leap_def mod_add_eq [symmetric])
  then have "(t + 1) mod 4 = 0" unfolding Y by (simp only: mod_mult_self4)
  with assms(4) have t: "t = 3" by presburger
  have "r = 3" if "s = 24"
  proof -
    from that Y t have Y': "y + 4800 = 100 * (4 * q + r + 1)" by simp
    have "y mod 100 = (y + 48 * 100) mod 100" by (simp only: mod_mult_self1)
    also have "\<dots> = (100 * (4 * q + r + 1)) mod 100" using Y' by (simp only: numeral_times_numeral semiring_norm)
    also have "\<dots> = 0" by (simp only: mod_mult_self1_is_0)
    finally have "y mod 400 = 0" using leap by (simp add: leap_def)
    moreover have "y mod 400 = (y + 12 * 400) mod 400" by (simp only: mod_mult_self1)
    ultimately have "(100 * (4 * q + r + 1)) mod (100 * 4) = 0" using Y' by simp
    then have "100 * ((4 * q + r + 1) mod 4) = 0" by (simp only: mult_mod_right)
    then have "(r + 1 + q * 4) mod 4 = 0" by (simp add: ac_simps)
    then have "(r + 1) mod 4 = 0" by (simp only: mod_mult_self1)
    with assms(3) show "r = 3" by presburger
  qed
  with t show ?thesis by blast
qed

lemma split_julian:
  assumes v: "valid_date y m d" and a: "a = julian (march_year y m) (march_month m) d"
    and b: "b = (4 * a + 3) div 146097" and c: "c = a - (146097 * b) div 4"
    and D: "D = (4 * c + 3) div 1461" and e: "e = c - (1461 * D) div 4" and M: "M = (5 * e + 2) div 153"
  shows "100 * b + D + M div 10 = y + 4800" "M + 3 - 12 * (M div 10) = m" "12 * (M div 10) \<le> M + 3"
    "e - (153 * M + 2) div 5 + 1 = d" "(153 * M + 2) div 5 \<le> e" "146097 * b div 4 \<le> a" "1461 * D div 4 \<le> c"
    "a < 6000000"
proof -
  define Y q r s t where "Y = march_year y m" and "q = Y div 400" and "r = Y div 100 mod 4"
    and "s = Y mod 100 div 4" and "t = Y mod 100 mod 4"
  define n where "n = (d - 1) + (153 * march_month m + 2) div 5"
  note month = month_of_day [OF v n_def]
  have "Y div 100 = 4 * (Y div 100 div 4) + r" by (simp add: r_def)
  then have q4: "Y div 100 = 4 * q + r" by (simp add: q_def div_mult2_eq [symmetric])
  have "Y = 100 * (Y div 100) + (4 * s + t)" by (simp add: s_def t_def)
  then have Y: "Y = 100 * (4 * q + r) + (4 * s + t)" by (simp only: q4)
  have small: "r < 4" "t < 4" "s < 25" by (auto simp: r_def s_def t_def less_mult_imp_div_less)
  have n365: "n = 365 \<longrightarrow> t = 3 \<and> (s = 24 \<longrightarrow> r = 3)"
  proof
    assume "n = 365"
    with month(3) have "m = 2" "leap y" by auto
    with leap_march [of y q r s t] Y small show "t = 3 \<and> (s = 24 \<longrightarrow> r = 3)" by (simp add: Y_def)
  qed
  have "a = n + 365 * Y + Y div 4 - Y div 100 + Y div 400"
    by (simp add: a julian_def Y_def n_def)
  note parts = julian_day_number [OF small month(2) n365 Y this b c D]
  have en: "e = n" using parts(3) e by simp
  have MM: "M = march_month m" using month(1) M en by simp
  have year: "100 * b + D = Y" using parts(1,2) Y by simp
  have m12: "1 \<le> m" "m \<le> 12" using v by (auto simp: valid_date_def)
  show "100 * b + D + M div 10 = y + 4800"
    unfolding year using m12 by (auto simp: Y_def MM march_year_def march_month_def)
  have "12 * (M div 10) = (if m \<le> 2 then 12 else 0)"
    using m12 by (auto simp: MM march_month_def)
  with m12 show "M + 3 - 12 * (M div 10) = m" "12 * (M div 10) \<le> M + 3"
    by (auto simp: MM march_month_def)
  show "e - (153 * M + 2) div 5 + 1 = d" "(153 * M + 2) div 5 \<le> e"
    using month(4,5) by (simp_all add: en MM)
  show "146097 * b div 4 \<le> a" "1461 * D div 4 \<le> c" by (rule parts(4,5))+
  have "Y \<le> 14799" using v by (auto simp: Y_def march_year_def valid_date_def)
  then have "q < 37" by (simp add: q_def)
  with parts(6) small month(2) show "a < 6000000" by linarith
qed

lemma div_of_nat_word:
  "x < 2 ^ 32 \<Longrightarrow> k < 2 ^ 32 \<Longrightarrow> (of_nat x :: u32) div of_nat k = of_nat (x div k)"
  by (simp add: word_unat_eq_iff unat_div unat_of_nat take_bit_nat_eq_self
      div_le_dividend [THEN le_less_trans])

lemma merge_julian:
  assumes v: "valid_date y m d"
  shows "mergeJulianDay (of_nat y) (of_nat m) (of_nat d) + 32044 =
    of_nat (julian (march_year y m) (march_month m) d)"
proof -
  have m: "1 \<le> m" "m \<le> 12" and y: "y \<le> 9999" and d: "1 \<le> d" using v by (auto simp: valid_date_def)
  let ?Y = "march_year y m" and ?M = "march_month m" and ?a = "(14 - m) div 12"
  have a: "(14 - of_nat m :: u32) div 12 = of_nat ?a"
    using div_of_nat_word [of "14 - m" 12] m by (simp add: of_nat_diff)
  have "?a = (if m \<le> 2 then 1 else 0)" using m by auto
  then have Y: "(of_nat y + 4800 - of_nat ?a :: u32) = of_nat ?Y"
    and M: "(of_nat m + 12 * of_nat ?a - 3 :: u32) = of_nat ?M"
    using m by (auto simp: march_year_def march_month_def of_nat_diff)
  have small: "?Y \<le> 14799" "?M \<le> 11" using y m by (auto simp: march_year_def march_month_def)
  have divs: "(153 * of_nat ?M + 2) div 5 = (of_nat ((153 * ?M + 2) div 5) :: u32)"
    "of_nat ?Y div 4 = (of_nat (?Y div 4) :: u32)" "of_nat ?Y div 100 = (of_nat (?Y div 100) :: u32)"
    "of_nat ?Y div 400 = (of_nat (?Y div 400) :: u32)"
    using div_of_nat_word [of "153 * ?M + 2" 5] div_of_nat_word [of ?Y 4] div_of_nat_word [of ?Y 100]
      div_of_nat_word [of ?Y 400] small by (simp_all del: add_2_eq_Suc')
  have "julian ?Y ?M d + ?Y div 100 + 1 = d + (153 * ?M + 2) div 5 + 365 * ?Y + ?Y div 4 + ?Y div 400"
  proof -
    have "?Y div 100 \<le> ?Y" by simp
    then show ?thesis using d unfolding julian_def by linarith
  qed
  then have "(of_nat (julian ?Y ?M d + ?Y div 100 + 1) :: u32) =
      of_nat (d + (153 * ?M + 2) div 5 + 365 * ?Y + ?Y div 4 + ?Y div 400)" by (simp only:)
  then have "(of_nat (julian ?Y ?M d) :: u32) = of_nat d + of_nat ((153 * ?M + 2) div 5) + 365 * of_nat ?Y
      + of_nat (?Y div 4) + of_nat (?Y div 400) - of_nat (?Y div 100) - 1"
    by (simp add: eq_diff_eq algebra_simps)
  then show ?thesis
    unfolding mergeJulianDay_def Let_def a Y M divs by (simp del: add_2_eq_Suc')
qed

lemma split_of_nat:
  assumes jd: "jd + 32044 = (of_nat a :: u32)" and small: "a < 6000000"
    and b: "b = (4 * a + 3) div 146097" and c: "c = a - (146097 * b) div 4"
    and D: "D = (4 * c + 3) div 1461" and e: "e = c - (1461 * D) div 4" and M: "M = (5 * e + 2) div 153"
    and le: "12 * (M div 10) \<le> M + 3" "(153 * M + 2) div 5 \<le> e" "146097 * b div 4 \<le> a" "1461 * D div 4 \<le> c"
      "4800 \<le> 100 * b + D + M div 10"
  shows "splitJulianDay jd = (of_nat (100 * b + D + M div 10 - 4800), of_nat (M + 3 - 12 * (M div 10)),
    of_nat (e - (153 * M + 2) div 5 + 1))"
proof -
  have bound: "b < 6000000" "c < 6000000" "D < 6000000" "e < 6000000" "M < 6000000" "146097 * b < 4000000000"
    "1461 * D < 4000000000"
    using small b c D e M by linarith+
  have wb: "(4 * of_nat a + 3) div 146097 = (of_nat b :: u32)"
    using div_of_nat_word [of "4 * a + 3" 146097] small by (simp add: b)
  have wc: "of_nat a - (146097 * of_nat b) div 4 = (of_nat c :: u32)"
    using div_of_nat_word [of "146097 * b" 4] bound le(3) by (simp add: c of_nat_diff)
  have wD: "(4 * of_nat c + 3) div 1461 = (of_nat D :: u32)"
    using div_of_nat_word [of "4 * c + 3" 1461] bound by (simp add: D)
  have we: "of_nat c - (1461 * of_nat D) div 4 = (of_nat e :: u32)"
    using div_of_nat_word [of "1461 * D" 4] bound le(4) by (simp add: e of_nat_diff)
  have wM: "(5 * of_nat e + 2) div 153 = (of_nat M :: u32)"
    using div_of_nat_word [of "5 * e + 2" 153] bound by (simp add: M del: add_2_eq_Suc')
  have wM10: "of_nat M div 10 = (of_nat (M div 10) :: u32)"
    using div_of_nat_word [of M 10] bound by simp
  have wd: "(153 * of_nat M + 2) div 5 = (of_nat ((153 * M + 2) div 5) :: u32)"
    using div_of_nat_word [of "153 * M + 2" 5] bound by (simp del: add_2_eq_Suc')
  have "(100 * of_nat b + of_nat D - 4800 + of_nat (M div 10) :: u32) = of_nat (100 * b + D + M div 10 - 4800)"
    using le(5) by (simp add: of_nat_diff)
  moreover have "(of_nat M + 3 - 12 * of_nat (M div 10) :: u32) = of_nat (M + 3 - 12 * (M div 10))"
    using le(1) by (simp add: of_nat_diff)
  moreover have "(of_nat e - of_nat ((153 * M + 2) div 5) + 1 :: u32) = of_nat (e - (153 * M + 2) div 5 + 1)"
    using le(2) by (simp add: of_nat_diff)
  ultimately show ?thesis
    unfolding splitJulianDay_def Let_def jd wb wc wD we wM wM10 wd by (simp only: prod.inject simp_thms)
qed

lemma split_merge_date:
  assumes "valid_date y m d"
  shows "splitJulianDay (mergeJulianDay (of_nat y) (of_nat m) (of_nat d)) = (of_nat y, of_nat m, of_nat d)"
proof -
  define a where "a = julian (march_year y m) (march_month m) d"
  define b where "b = (4 * a + 3) div 146097"
  define c where "c = a - (146097 * b) div 4"
  define D where "D = (4 * c + 3) div 1461"
  define e where "e = c - (1461 * D) div 4"
  define M where "M = (5 * e + 2) div 153"
  note parts = split_julian [OF assms a_def b_def c_def D_def e_def M_def]
  show ?thesis
    using split_of_nat [OF merge_julian [OF assms, folded a_def] parts(8) b_def c_def D_def e_def M_def
        parts(3,5,6,7)] parts(1,2,4)
    by (simp del: add_2_eq_Suc' of_nat_Suc of_nat_add)
qed

end
