(* ===== verification/NativeValues.thy ===== *)
theory NativeValues
  imports LegacyCasts SqlTypes
begin

text \<open>
  The values the storage keeps, native/sql/SqlValues.hpp, SqlValues.cpp and SqlTuple.cpp, with the
  string pool of foundations/StringPool.cpp and the hash functions of utils/hashing.hpp and hashing.cpp.

  A value that refers to characters -- a text of more than fifteen bytes, a varchar -- holds addresses,
  so the operations work on a \<open>heap\<close>: the bytes of the memory and the next address the allocator
  hands out. Numbers are stored in little-endian order. The branches that are compiled out
  (\<^verbatim>\<open>#if 0\<close>, the internal null indicator) are not modelled, and \<^verbatim>\<open>clone\<close> is the identity.
\<close>

section \<open>Memory\<close>

type_synonym memory = "u64 \<Rightarrow> u8"

record heap =
  hp_mem :: memory
  hp_brk :: u64

definition read_bytes :: "memory \<Rightarrow> u64 \<Rightarrow> nat \<Rightarrow> u8 list" where
  "read_bytes m p n = map (\<lambda>i. m (p + of_nat i)) [0 ..< n]"

definition write_bytes :: "memory \<Rightarrow> u64 \<Rightarrow> u8 list \<Rightarrow> memory" where
  "write_bytes m p bs = (\<lambda>q. if unat (q - p) < length bs then bs ! unat (q - p) else m q)"

fun word_of_bytes :: "u8 list \<Rightarrow> 'a::len word" where
  "word_of_bytes [] = 0"
| "word_of_bytes (b # bs) = ucast b OR push_bit 8 (word_of_bytes bs)"

definition bytes_of_word :: "nat \<Rightarrow> 'a::len word \<Rightarrow> u8 list" where
  "bytes_of_word n w = map (\<lambda>i. ucast (drop_bit (8 * i) w)) [0 ..< n]"

definition chars_of_bytes :: "u8 list \<Rightarrow> string" where
  "chars_of_bytes = map (char_of \<circ> unat)"

definition bytes_of_chars :: "string \<Rightarrow> u8 list" where
  "bytes_of_chars = map (\<lambda>c. of_nat (of_char c))"

section \<open>Values\<close>

datatype NValue =
    NUnknown
  | NInteger u32
  | NNumeric SqlType u64
  | NBool bool
  | NDate u32
  | NTimestamp u64
  | NText u64 u64 \<comment> \<open>the two words of \<^verbatim>\<open>value\<close>\<close>
  | NVarchar SqlType u64 u8 \<comment> \<open>\<^verbatim>\<open>type\<close>, the pointer \<^verbatim>\<open>value\<close> and \<^verbatim>\<open>len\<close>\<close>
  | NNullable NValue bool

fun nv_type :: "NValue \<Rightarrow> SqlType" where
  "nv_type NUnknown = getUnknownTy"
| "nv_type (NInteger v) = getIntegerTy False"
| "nv_type (NNumeric t v) = t"
| "nv_type (NBool v) = getBoolTy False"
| "nv_type (NDate v) = getDateTy False"
| "nv_type (NTimestamp v) = getTimestampTy False"
| "nv_type (NText a b) = getTextTy False"
| "nv_type (NVarchar t p len) = t"
| "nv_type (NNullable v n) = toNullableTy (nv_type v)"

section \<open>What every class shares\<close>

definition isNullable :: "NValue \<Rightarrow> bool" where
  "isNullable v = (case v of NNullable _ _ \<Rightarrow> True | _ \<Rightarrow> False)"

definition same_type :: "NValue \<Rightarrow> NValue \<Rightarrow> bool" where
  "same_type v w = SqlType_equals (nv_type v) (nv_type w) WithoutNullable"

definition bad_cast :: "bool result" where
  \<comment> \<open>what a failed \<^verbatim>\<open>dynamic_cast\<close> of a reference throws\<close>
  "bad_cast = Inl (RuntimeError ''std::bad_cast'')"

text \<open>
  The \<^verbatim>\<open>equals\<close> of a class lets a nullable value compare itself: \<open>nullable_equals\<close> is that value's
  \<^verbatim>\<open>equals\<close>. Values that are nullable do not nest, so the classes tie this knot at the end.
\<close>

type_synonym equals_method = "NValue \<Rightarrow> NValue \<Rightarrow> bool result"

type_synonym hash_t = u64

definition hash_combine :: "hash_t \<Rightarrow> hash_t \<Rightarrow> hash_t" where
  "hash_combine h k =
     (let m = 0xc6a4a7935bd1e995; r = 47;
          k = k * m; k = k XOR drop_bit r k; k = k * m;
          h = h XOR k; h = h * m
      in h + 0xe6546b64)"

definition hashInteger :: "hash_t \<Rightarrow> hash_t" where
  \<comment> \<open>of the value converted to \<^verbatim>\<open>hash_t\<close>\<close>
  "hashInteger x =
     (let r = 88172645463325252;
          r = r XOR x;
          r = r XOR push_bit 13 r;
          r = r XOR drop_bit 7 r
      in r XOR push_bit 17 r)"

fun hash_loop :: "u8 list \<Rightarrow> hash_t \<Rightarrow> hash_t" where
  "hash_loop [] h = h"
| "hash_loop (b # bs) h = hash_loop bs ((push_bit 5 h OR drop_bit 27 h) XOR ucast b)"

definition hashByteArray :: "u8 list \<Rightarrow> hash_t" where
  "hashByteArray bytes = hash_loop bytes 0"

section \<open>Integer\<close>

definition Integer_castString :: "string \<Rightarrow> NValue result" where
  "Integer_castString str = bind_res (castStringToIntegerValue str) (\<lambda>value. Inr (NInteger value))"

definition Integer_load :: "memory \<Rightarrow> u64 \<Rightarrow> NValue" where
  "Integer_load m ptr = NInteger (word_of_bytes (read_bytes m ptr 4))"

definition Integer_store :: "u32 \<Rightarrow> u64 \<Rightarrow> memory \<Rightarrow> memory" where
  "Integer_store value ptr m = write_bytes m ptr (bytes_of_word 4 value)"

definition Integer_hash :: "u32 \<Rightarrow> hash_t" where
  "Integer_hash value = hashInteger (scast value)"

definition Integer_equals :: "equals_method \<Rightarrow> u32 \<Rightarrow> NValue \<Rightarrow> bool result" where
  "Integer_equals nullable_equals value other =
     (if \<not> same_type (NInteger value) other then Inr False
      else if isNullable other then nullable_equals other (NInteger value)
      else case other of NInteger v \<Rightarrow> Inr (value = v) | _ \<Rightarrow> bad_cast)"

section \<open>Numeric\<close>

definition Numeric_castString :: "string \<Rightarrow> SqlType \<Rightarrow> NValue result" where
  "Numeric_castString str type =
     bind_res (castStringToNumericValue str (unat (numericLayout_length type)) (unat (numericLayout_precision type)))
       (\<lambda>value. Inr (NNumeric type value))"

definition Numeric_load :: "memory \<Rightarrow> u64 \<Rightarrow> SqlType \<Rightarrow> NValue" where
  "Numeric_load m ptr type = NNumeric type (word_of_bytes (read_bytes m ptr 8))"

definition Numeric_store :: "u64 \<Rightarrow> u64 \<Rightarrow> memory \<Rightarrow> memory" where
  "Numeric_store value ptr m = write_bytes m ptr (bytes_of_word 8 value)"

definition Numeric_hash :: "u64 \<Rightarrow> hash_t" where
  "Numeric_hash value = hashInteger value"

definition Numeric_equals :: "equals_method \<Rightarrow> SqlType \<Rightarrow> u64 \<Rightarrow> NValue \<Rightarrow> bool result" where
  "Numeric_equals nullable_equals type value other =
     (if \<not> same_type (NNumeric type value) other then Inr False
      else if isNullable other then nullable_equals other (NNumeric type value)
      else case other of NNumeric _ v \<Rightarrow> Inr (value = v) | _ \<Rightarrow> bad_cast)"

section \<open>Bool\<close>

definition Bool_castString :: "string \<Rightarrow> NValue result" where
  "Bool_castString str =
     (if str = ''true'' then Inr (NBool True)
      else if str = ''false'' then Inr (NBool False)
      else Inl (InvalidOperation ''invalid string representation of a boolean value''))"

definition Bool_load :: "memory \<Rightarrow> u64 \<Rightarrow> NValue" where
  "Bool_load m ptr = NBool (m ptr \<noteq> 0)"

definition Bool_store :: "bool \<Rightarrow> u64 \<Rightarrow> memory \<Rightarrow> memory" where
  "Bool_store value ptr m = write_bytes m ptr [if value then 1 else 0]"

definition Bool_hash :: "bool \<Rightarrow> hash_t" where
  "Bool_hash value = hashInteger (if value then 1 else 0)"

definition Bool_equals :: "equals_method \<Rightarrow> bool \<Rightarrow> NValue \<Rightarrow> bool result" where
  "Bool_equals nullable_equals value other =
     (if \<not> same_type (NBool value) other then Inr False
      else if isNullable other then nullable_equals other (NBool value)
      else case other of NBool v \<Rightarrow> Inr (value = v) | _ \<Rightarrow> bad_cast)"

section \<open>Date and Timestamp\<close>

definition Date_castString :: "string \<Rightarrow> NValue result" where
  "Date_castString str = bind_res (castStringToDateValue str) (\<lambda>value. Inr (NDate value))"

definition Date_load :: "memory \<Rightarrow> u64 \<Rightarrow> NValue" where
  "Date_load m ptr = NDate (word_of_bytes (read_bytes m ptr 4))"

definition Date_store :: "u32 \<Rightarrow> u64 \<Rightarrow> memory \<Rightarrow> memory" where
  "Date_store value ptr m = write_bytes m ptr (bytes_of_word 4 value)"

definition Date_hash :: "u32 \<Rightarrow> hash_t" where
  "Date_hash value = hashInteger (ucast value)"

definition Date_equals :: "equals_method \<Rightarrow> u32 \<Rightarrow> NValue \<Rightarrow> bool result" where
  "Date_equals nullable_equals value other =
     (if \<not> same_type (NDate value) other then Inr False
      else if isNullable other then nullable_equals other (NDate value)
      else case other of NDate v \<Rightarrow> Inr (value = v) | _ \<Rightarrow> bad_cast)"

definition Timestamp_castString :: "string \<Rightarrow> NValue result" where
  "Timestamp_castString str = bind_res (castStringToTimestampValue str) (\<lambda>value. Inr (NTimestamp value))"

definition Timestamp_load :: "memory \<Rightarrow> u64 \<Rightarrow> NValue" where
  "Timestamp_load m ptr = NTimestamp (word_of_bytes (read_bytes m ptr 8))"

definition Timestamp_store :: "u64 \<Rightarrow> u64 \<Rightarrow> memory \<Rightarrow> memory" where
  "Timestamp_store value ptr m = write_bytes m ptr (bytes_of_word 8 value)"

definition Timestamp_hash :: "u64 \<Rightarrow> hash_t" where
  "Timestamp_hash value = hashInteger value"

definition Timestamp_equals :: "equals_method \<Rightarrow> u64 \<Rightarrow> NValue \<Rightarrow> bool result" where
  "Timestamp_equals nullable_equals value other =
     (if \<not> same_type (NTimestamp value) other then Inr False
      else if isNullable other then nullable_equals other (NTimestamp value)
      else case other of NTimestamp v \<Rightarrow> Inr (value = v) | _ \<Rightarrow> bad_cast)"

section \<open>Text\<close>

definition Text_isInplace :: "u64 \<Rightarrow> bool" where
  "Text_isInplace value0 = (drop_bit (8 * 8 - 1) value0 = 0)"

definition Text_data :: "u64 \<Rightarrow> u64 \<Rightarrow> u8 list" where
  \<comment> \<open>the sixteen bytes of \<^verbatim>\<open>value\<close>\<close>
  "Text_data value0 value1 = bytes_of_word 8 value0 @ bytes_of_word 8 value1"

definition Text_beginPtr :: "u64 \<Rightarrow> u64" where
  \<comment> \<open>the second branch of \<^verbatim>\<open>begin\<close>: the tag removed\<close>
  "Text_beginPtr value0 = value0 XOR push_bit (8 * 8 - 1) 1"

definition Text_length :: "u64 \<Rightarrow> u64 \<Rightarrow> u64" where
  "Text_length value0 value1 =
     (if Text_isInplace value0 then ucast (Text_data value0 value1 ! 0) else value1 - Text_beginPtr value0)"

definition Text_bytes :: "memory \<Rightarrow> u64 \<Rightarrow> u64 \<Rightarrow> u8 list" where
  \<comment> \<open>the bytes \<^verbatim>\<open>getView\<close> covers; in place they are those after the length, and what follows the object beyond\<close>
  "Text_bytes m value0 value1 =
     (let len = unat (Text_length value0 value1)
      in if Text_isInplace value0 then take len (drop 1 (Text_data value0 value1))
         else read_bytes m (Text_beginPtr value0) len)"

definition Text_getView :: "memory \<Rightarrow> u64 \<Rightarrow> u64 \<Rightarrow> string" where
  "Text_getView m value0 value1 = chars_of_bytes (Text_bytes m value0 value1)"

definition Text_inplace :: "string \<Rightarrow> NValue" where
  \<comment> \<open>the constructor for up to fifteen bytes: the length and the bytes in the sixteen bytes of \<^verbatim>\<open>value\<close>\<close>
  "Text_inplace str =
     (let data = of_nat (length str) # bytes_of_chars str @ replicate (15 - length str) 0
      in NText (word_of_bytes (take 8 data)) (word_of_bytes (drop 8 data)))"

definition Text_pointers :: "u64 \<Rightarrow> u64 \<Rightarrow> NValue" where
  "Text_pointers beginPtr endPtr = NText (beginPtr XOR push_bit (8 * 8 - 1) 1) endPtr"

definition StringPool_put :: "string \<Rightarrow> heap \<Rightarrow> u64 \<times> heap" where
  \<comment> \<open>the allocation, the copy, and the address the pool keeps\<close>
  "StringPool_put str h =
     (hp_brk h, h\<lparr>hp_mem := write_bytes (hp_mem h) (hp_brk h) (bytes_of_chars str),
                   hp_brk := hp_brk h + of_nat (length str)\<rparr>)"

definition Text_castString :: "string \<Rightarrow> heap \<Rightarrow> NValue \<times> heap" where
  "Text_castString str h =
     (if length str > 15
      then let (beginPtr, h') = StringPool_put str h in (Text_pointers beginPtr (beginPtr + of_nat (length str)), h')
      else (Text_inplace str, h))"

definition Text_load :: "memory \<Rightarrow> u64 \<Rightarrow> NValue" where
  "Text_load m ptr = NText (word_of_bytes (read_bytes m ptr 8)) (word_of_bytes (read_bytes m (ptr + 8) 8))"

definition Text_store :: "u64 \<Rightarrow> u64 \<Rightarrow> u64 \<Rightarrow> memory \<Rightarrow> memory" where
  "Text_store value0 value1 ptr m =
     (let m' = write_bytes m ptr (bytes_of_word 8 value0) in write_bytes m' (ptr + 8) (bytes_of_word 8 value1))"

definition Text_hash :: "memory \<Rightarrow> u64 \<Rightarrow> u64 \<Rightarrow> hash_t" where
  "Text_hash m value0 value1 = hashByteArray (Text_bytes m value0 value1)"

definition Text_same :: "memory \<Rightarrow> u64 \<times> u64 \<Rightarrow> u64 \<times> u64 \<Rightarrow> bool" where
  \<comment> \<open>the comparison of two texts, at the end of \<^verbatim>\<open>equals\<close>\<close>
  "Text_same m t1 t2 =
     (let len = Text_length (fst t1) (snd t1)
      in if len \<noteq> Text_length (fst t2) (snd t2) then False
         else if Text_isInplace (fst t1) then t1 = t2
         else read_bytes m (Text_beginPtr (fst t1)) (unat len) =
              (if Text_isInplace (fst t2) then take (unat len) (drop 1 (Text_data (fst t2) (snd t2)))
               else read_bytes m (Text_beginPtr (fst t2)) (unat len)))"

definition Text_equals :: "memory \<Rightarrow> equals_method \<Rightarrow> u64 \<Rightarrow> u64 \<Rightarrow> NValue \<Rightarrow> bool result" where
  "Text_equals m nullable_equals value0 value1 other =
     (if \<not> same_type (NText value0 value1) other then Inr False
      else if isNullable other then nullable_equals other (NText value0 value1)
      else case other of NText v0 v1 \<Rightarrow> Inr (Text_same m (value0, value1) (v0, v1)) | _ \<Rightarrow> bad_cast)"

section \<open>Varchar\<close>

definition Varchar_castString :: "u64 \<Rightarrow> string \<Rightarrow> SqlType \<Rightarrow> NValue" where
  \<comment> \<open>\<^verbatim>\<open>c_str\<close> is the address of the characters of the string that is cast\<close>
  "Varchar_castString c_str str type = NVarchar type c_str (of_nat (length str))"

definition Varchar_load :: "memory \<Rightarrow> u64 \<Rightarrow> SqlType \<Rightarrow> NValue" where
  "Varchar_load m ptr type = NVarchar type (ptr + 1) (m ptr)"

definition Varchar_store :: "u64 \<Rightarrow> u8 \<Rightarrow> u64 \<Rightarrow> memory \<Rightarrow> memory" where
  "Varchar_store value len ptr m =
     (let m' = write_bytes m ptr [len] in write_bytes m' (ptr + 1) (read_bytes m' value (unat len)))"

definition Varchar_hash :: "memory \<Rightarrow> u64 \<Rightarrow> u8 \<Rightarrow> hash_t" where
  "Varchar_hash m value len = hashByteArray (read_bytes m value (unat len))"

definition Varchar_equals :: "memory \<Rightarrow> equals_method \<Rightarrow> SqlType \<Rightarrow> u64 \<Rightarrow> u8 \<Rightarrow> NValue \<Rightarrow> bool result" where
  "Varchar_equals m nullable_equals type value len other =
     (if \<not> same_type (NVarchar type value len) other then Inr False
      else if isNullable other then nullable_equals other (NVarchar type value len)
      else case other of
             NVarchar _ value' len' \<Rightarrow>
               Inr (len = len' \<and> read_bytes m value (unat len) = read_bytes m value' (unat len))
           | _ \<Rightarrow> bad_cast)"

section \<open>Nullable values\<close>

definition UnknownValue_hash :: hash_t where
  "UnknownValue_hash = 0x2c8e4eecfc696c50"

definition NullableValue_create :: "NValue \<Rightarrow> bool \<Rightarrow> NValue result" where
  \<comment> \<open>the constructor with its asserts\<close>
  "NullableValue_create v nullIndicator =
     (if ty_nullable (nv_type v) \<or> ty_typeID (nv_type v) = UnknownID \<or> isNullable v then Inl AssertFailed
      else Inr (NNullable v nullIndicator))"

definition NullableValue_getNull :: "SqlType \<Rightarrow> NValue result" where
  "NullableValue_getNull type =
     (case ty_typeID type of
        BoolID \<Rightarrow> bind_res (Integer_castString ''false'') (\<lambda>v. NullableValue_create v True)
      | IntegerID \<Rightarrow> bind_res (Integer_castString ''0'') (\<lambda>v. NullableValue_create v True)
      | NumericID \<Rightarrow> bind_res (Numeric_castString ''0'' (toNotNullableTy type)) (\<lambda>v. NullableValue_create v True)
      | DateID \<Rightarrow> Inl (NotImplemented [])
      | TimestampID \<Rightarrow> Inl (NotImplemented [])
      | _ \<Rightarrow> Inl MemFault)"

definition NullableValue_hash :: "hash_t \<Rightarrow> bool \<Rightarrow> hash_t" where
  \<comment> \<open>from the hash of the value inside\<close>
  "NullableValue_hash value_hash isNull = (if \<not> isNull then value_hash else 0x4d1138f9dd82ae2f)"

definition NullableValue_equals :: "equals_method \<Rightarrow> NValue \<Rightarrow> bool \<Rightarrow> NValue \<Rightarrow> bool result" where
  "NullableValue_equals value_equals v isNull other =
     (if \<not> same_type (NNullable v isNull) other then Inr False
      else if isNull then Inr False
      else value_equals v other)"

section \<open>Value\<close>

definition Value_castString :: "u64 \<Rightarrow> string \<Rightarrow> SqlType \<Rightarrow> heap \<Rightarrow> (NValue \<times> heap) result" where
  \<comment> \<open>only a text of the pool changes the heap\<close>
  "Value_castString c_str str type h =
     (let pure = (\<lambda>r. bind_res r (\<lambda>v. Inr (v, h)))
      in if ty_nullable type then Inl AssertFailed
         else case ty_typeID type of
                UnknownID \<Rightarrow> Inr (NUnknown, h)
              | BoolID \<Rightarrow> pure (Bool_castString str)
              | IntegerID \<Rightarrow> pure (Integer_castString str)
              | VarcharID \<Rightarrow> Inr (Varchar_castString c_str str type, h)
              | NumericID \<Rightarrow> pure (Numeric_castString str type)
              | DateID \<Rightarrow> pure (Date_castString str)
              | TimestampID \<Rightarrow> pure (Timestamp_castString str)
              | TextID \<Rightarrow> Inr (Text_castString str h)
              | _ \<Rightarrow> Inl MemFault)"

definition Value_load :: "memory \<Rightarrow> u64 \<Rightarrow> SqlType \<Rightarrow> NValue result" where
  "Value_load m ptr type =
     (if ty_nullable type then Inl (NotImplemented [])
      else case ty_typeID type of
             UnknownID \<Rightarrow> Inr NUnknown
           | BoolID \<Rightarrow> Inr (Bool_load m ptr)
           | IntegerID \<Rightarrow> Inr (Integer_load m ptr)
           | VarcharID \<Rightarrow> Inr (Varchar_load m ptr type)
           | CharID \<Rightarrow> Inr (Text_load m ptr)
           | NumericID \<Rightarrow> Inr (Numeric_load m ptr type)
           | DateID \<Rightarrow> Inr (Date_load m ptr)
           | TimestampID \<Rightarrow> Inr (Timestamp_load m ptr)
           | TextID \<Rightarrow> Inr (Text_load m ptr)
           | _ \<Rightarrow> Inl (InvalidOperation ''unknown type''))"

text \<open>The virtual functions.\<close>

definition Value_store :: "NValue \<Rightarrow> u64 \<Rightarrow> memory \<Rightarrow> memory result" where
  "Value_store v ptr m =
     (case v of
        NUnknown \<Rightarrow> Inr m
      | NInteger value \<Rightarrow> Inr (Integer_store value ptr m)
      | NNumeric _ value \<Rightarrow> Inr (Numeric_store value ptr m)
      | NBool value \<Rightarrow> Inr (Bool_store value ptr m)
      | NDate value \<Rightarrow> Inr (Date_store value ptr m)
      | NTimestamp value \<Rightarrow> Inr (Timestamp_store value ptr m)
      | NText value0 value1 \<Rightarrow> Inr (Text_store value0 value1 ptr m)
      | NVarchar _ value len \<Rightarrow> Inr (Varchar_store value len ptr m)
      | NNullable _ _ \<Rightarrow> Inl (NotImplemented []))"

fun Value_hash :: "memory \<Rightarrow> NValue \<Rightarrow> hash_t" where
  "Value_hash m NUnknown = UnknownValue_hash"
| "Value_hash m (NInteger value) = Integer_hash value"
| "Value_hash m (NNumeric _ value) = Numeric_hash value"
| "Value_hash m (NBool value) = Bool_hash value"
| "Value_hash m (NDate value) = Date_hash value"
| "Value_hash m (NTimestamp value) = Timestamp_hash value"
| "Value_hash m (NText value0 value1) = Text_hash m value0 value1"
| "Value_hash m (NVarchar _ value len) = Varchar_hash m value len"
| "Value_hash m (NNullable v isNull) = NullableValue_hash (Value_hash m v) isNull"

definition equals_with :: "memory \<Rightarrow> equals_method \<Rightarrow> equals_method" where
  \<comment> \<open>the \<^verbatim>\<open>equals\<close> of a value that is not nullable\<close>
  "equals_with m nullable_equals v other =
     (case v of
        NInteger value \<Rightarrow> Integer_equals nullable_equals value other
      | NNumeric type value \<Rightarrow> Numeric_equals nullable_equals type value other
      | NBool value \<Rightarrow> Bool_equals nullable_equals value other
      | NDate value \<Rightarrow> Date_equals nullable_equals value other
      | NTimestamp value \<Rightarrow> Timestamp_equals nullable_equals value other
      | NText value0 value1 \<Rightarrow> Text_equals m nullable_equals value0 value1 other
      | NVarchar type value len \<Rightarrow> Varchar_equals m nullable_equals type value len other
      | _ \<Rightarrow> Inr False)"

definition nullable_with :: "equals_method \<Rightarrow> equals_method" where
  "nullable_with value_equals v other =
     (case v of NNullable w isNull \<Rightarrow> NullableValue_equals value_equals w isNull other | _ \<Rightarrow> value_equals v other)"

definition Value_equals :: "memory \<Rightarrow> equals_method" where
  \<comment> \<open>a nullable value asks its own value, which may ask a nullable one back, which asks its own\<close>
  "Value_equals m =
     nullable_with (equals_with m (nullable_with (equals_with m (\<lambda>_ _. Inr False))))"

section \<open>Printing\<close>

fun numeric_sep :: "nat \<Rightarrow> int \<Rightarrow> int" where
  "numeric_sep 0 sep = sep"
| "numeric_sep (Suc n) sep = numeric_sep n (wrap64 (sep * 10))"

fun numeric_zeros :: "nat \<Rightarrow> int \<Rightarrow> int \<Rightarrow> string" where
  \<comment> \<open>the loop over \<^verbatim>\<open>index\<close>: as many rounds as are left\<close>
  "numeric_zeros 0 sep v = []"
| "numeric_zeros (Suc n) sep v = (if sep > wrap64 (10 * v) then CHR ''0'' # numeric_zeros n (sep sdiv 10) v else [])"

definition Numeric_toString :: "nat \<Rightarrow> int \<Rightarrow> string result" where
  "Numeric_toString precision value =
     (let (ret, v) = (if value < 0 then (''-'', wrap64 (- value)) else ([], value));
          sep = numeric_sep precision 1
      in if sep = 0 then Inl DivideByZero
         else let ret = ret @ show_int (v sdiv sep)
              in if precision = 0 then Inr ret
                 else let v = v smod sep
                      in Inr (ret @ ''.'' @ numeric_zeros (precision - 1) sep v @ show_int v))"

definition Value_toString :: "memory \<Rightarrow> NValue \<Rightarrow> string result" where
  "Value_toString m v =
     (case v of
        NNullable _ _ \<Rightarrow> Inl (NotImplemented [])
      | NUnknown \<Rightarrow> Inr ''null''
      | NBool b \<Rightarrow> Inr (if b then ''1'' else ''0'')
      | NInteger i \<Rightarrow> Inr (show_int (sint i))
      | NNumeric t i \<Rightarrow> Numeric_toString (unat (numericLayout_precision t)) (sint i)
      | NText a b \<Rightarrow> Inr (Text_getView m a b)
      | _ \<Rightarrow> Inl (NotImplemented []))"

section \<open>Tuples\<close>

fun comma_separated :: "string list \<Rightarrow> string" where
  "comma_separated [] = []"
| "comma_separated [s] = s"
| "comma_separated (s # ss) = s @ '', '' @ comma_separated ss"

definition constructTypeName :: "SqlType list \<Rightarrow> string" where
  "constructTypeName types = ''SqlTuple<'' @ comma_separated (map getName types) @ ''>''"

definition SqlTuple_hash :: "memory \<Rightarrow> NValue list \<Rightarrow> hash_t result" where
  "SqlTuple_hash m values =
     (case values of
        [] \<Rightarrow> Inl AssertFailed
      | v # vs \<Rightarrow> Inr (foldl (\<lambda>seed sqlValue. hash_combine seed (Value_hash m sqlValue)) (Value_hash m v) vs))"

definition SqlTuple_toString :: "memory \<Rightarrow> NValue list \<Rightarrow> string result" where
  "SqlTuple_toString m values =
     bind_res (mapM_res (Value_toString m) values) (\<lambda>ss. Inr (''('' @ comma_separated ss @ '')''))"

fun store_members :: "(nat \<Rightarrow> u64) \<Rightarrow> NValue list \<Rightarrow> nat \<Rightarrow> u64 \<Rightarrow> memory \<Rightarrow> memory result" where
  "store_members getElementOffset [] i ptr m = Inr m"
| "store_members getElementOffset (v # vs) i ptr m =
     bind_res (Value_store v (ptr + getElementOffset i) m) (store_members getElementOffset vs (i + 1) ptr)"

definition native_tuple_store :: "(nat \<Rightarrow> u64) \<Rightarrow> NValue list \<Rightarrow> u64 \<Rightarrow> memory \<Rightarrow> memory result" where
  \<comment> \<open>\<^verbatim>\<open>SqlTuple::store\<close>; the offsets of the members are LLVM's\<close>
  "native_tuple_store getElementOffset values ptr m = store_members getElementOffset values 0 ptr m"

fun load_members :: "(nat \<Rightarrow> u64) \<Rightarrow> SqlType list \<Rightarrow> nat \<Rightarrow> u64 \<Rightarrow> memory \<Rightarrow> NValue list result" where
  "load_members getElementOffset [] i ptr m = Inr []"
| "load_members getElementOffset (t # ts) i ptr m =
     bind_res (Value_load m (ptr + getElementOffset i) t) (\<lambda>v.
       bind_res (load_members getElementOffset ts (i + 1) ptr m) (\<lambda>vs. Inr (v # vs)))"

definition native_tuple_load :: "(nat \<Rightarrow> u64) \<Rightarrow> SqlType list \<Rightarrow> u64 \<Rightarrow> memory \<Rightarrow> NValue list result" where
  \<comment> \<open>\<^verbatim>\<open>SqlTuple::load\<close>\<close>
  "native_tuple_load getElementOffset types ptr m = load_members getElementOffset types 0 ptr m"

section \<open>Utilities\<close>

definition getAssociatedValue :: "NValue \<Rightarrow> NValue" where
  "getAssociatedValue v = (case v of NNullable w _ \<Rightarrow> w | _ \<Rightarrow> v)"

definition mayBeNull :: "NValue \<Rightarrow> bool" where
  "mayBeNull v = (ty_typeID (nv_type v) = UnknownID \<or> isNullable v)"

definition isUnknown :: "NValue \<Rightarrow> bool" where
  "isUnknown v = (ty_typeID (nv_type v) = UnknownID)"

definition isNumerical :: "NValue \<Rightarrow> bool" where
  "isNumerical v = (ty_typeID (nv_type v) \<in> {UnknownID, IntegerID, NumericID})"

end
