(* ===== verification/CastRoundTrips.thy ===== *)
theory CastRoundTrips
  imports LegacyCasts
begin

text \<open>
  Reading back what foundations/LegacyTypes.cpp printed: decimal text of integers and decimals, dates
  and timestamps.
\<close>

section \<open>Reading what was printed\<close>

lemma trim_ws_id: "s = [] \<or> hd s \<noteq> CHR '' '' \<and> last s \<noteq> CHR '' '' \<Longrightarrow> trim_ws s = s"
proof -
  assume *: "s = [] \<or> hd s \<noteq> CHR '' '' \<and> last s \<noteq> CHR '' ''"
  then have "dropWhile (\<lambda>c. c = CHR '' '') s = s" by (subst dropWhile_eq_self_iff) blast
  moreover have "dropWhile (\<lambda>c. c = CHR '' '') (rev s) = rev s"
    using * by (subst dropWhile_eq_self_iff) (auto simp: hd_rev)
  ultimately show ?thesis by (simp add: trim_ws_def)
qed

lemma digit_not: "is_digit_char c \<Longrightarrow> c \<notin> {CHR '' '', CHR ''-'', CHR ''+'', CHR ''.'', CHR '':''}"
  by (auto simp: is_digit_char_def)

lemma show_nat_hd_last: "is_digit_char (hd (show_nat n))" "is_digit_char (last (show_nat n))"
  using show_nat_digits [of n] by simp_all

lemma show_nat_length: "n < 10 ^ k \<Longrightarrow> 0 < k \<Longrightarrow> length (show_nat n) \<le> k"
proof (induction n arbitrary: k rule: show_nat.induct)
  case (1 n)
  show ?case
  proof (cases "n < 10")
    case False
    have "k \<noteq> 1" using False "1.prems" by auto
    with "1.prems" obtain j where j: "k = Suc j" "0 < j" by (cases k) auto
    with "1.prems" have "n div 10 < 10 ^ j" by (simp add: less_mult_imp_div_less mult.commute)
    with "1.IH" [OF False _ j(2)] j show ?thesis using False by (simp add: show_nat.simps [of n])
  qed (use "1.prems" in \<open>simp add: show_nat.simps [of n]\<close>)
qed

lemma show_nat_length_ge: "10 ^ k \<le> n \<Longrightarrow> k < length (show_nat n)"
proof (induction n arbitrary: k rule: show_nat.induct)
  case (1 n)
  show ?case
  proof (cases "n < 10")
    case True
    have "k = 0"
    proof (rule ccontr)
      assume "k \<noteq> 0"
      then have "10 ^ 1 \<le> (10 :: nat) ^ k" by (intro power_increasing) auto
      with "1.prems" True show False by simp
    qed
    then show ?thesis by simp
  next
    case False
    show ?thesis
    proof (cases k)
      case (Suc j)
      with "1.prems" have "10 ^ j \<le> n div 10" by (simp add: less_eq_div_iff_mult_less_eq mult.commute)
      from "1.IH" [OF False this] Suc False show ?thesis by (simp add: show_nat.simps [of n])
    qed simp
  qed
qed

lemma integer_loop_digits:
  "list_all is_digit_char s \<Longrightarrow> integer_loop s (of_nat a) k = Inr (of_nat (read_digits a s), k + length s)"
proof (induction s arbitrary: a k)
  case (Cons c s)
  from Cons.IH [of "a * 10 + digit_value c" "Suc k"] Cons.prems show ?case by simp
qed simp

lemma show_int_sign:
  "take_sign (trim_ws (show_int i)) = (i < 0, show_nat (nat \<bar>i\<bar>))"
proof -
  have hl: "hd (show_nat n) \<notin> {CHR '' '', CHR ''-'', CHR ''+''}" "last (show_nat n) \<noteq> CHR '' ''" for n
    using show_nat_hd_last [of n] digit_not by blast+
  then have "trim_ws (show_int i) = show_int i"
    by (intro trim_ws_id) (auto simp: show_int_def)
  moreover have "take_sign (show_nat n) = (False, show_nat n)" for n
    using hl(1) [of n] by (cases "show_nat n") (auto simp: take_sign_def)
  ultimately show ?thesis by (auto simp: show_int_def take_sign_def)
qed

lemma ucast_of_int_u32: "(ucast (of_int i :: u64) :: u32) = of_int i"
  by (rule ucast_down_wi) (simp add: is_down)

lemma cast_show_int:
  "castStringToIntegerValue (show_int i) =
     (if \<bar>i\<bar> < 10 ^ 10 then Inr (of_int i)
      else Inl (ThrownString ''invalid number format: too many characters (32bit integers can at most consist of 10 numeric characters)''))"
proof -
  let ?n = "nat \<bar>i\<bar>"
  have loop: "integer_loop (show_nat ?n) 0 0 = Inr (of_nat ?n, length (show_nat ?n))"
    using integer_loop_digits [of "show_nat ?n" 0 0] show_nat_digits [of ?n] by (simp add: list_all_iff)
  have "(if i < 0 then - of_nat ?n else of_nat ?n :: u64) = of_int i" by simp
  then have val: "ucast (if i < 0 then - of_nat ?n else of_nat ?n :: u64) = (of_int i :: u32)"
    by (simp only: ucast_of_int_u32)
  have "(length (show_nat ?n) > 10) = (\<not> \<bar>i\<bar> < 10 ^ 10)"
  proof (cases "?n < 10 ^ 10")
    case True
    with show_nat_length [of ?n 10] show ?thesis by (simp add: nat_less_iff)
  next
    case False
    with show_nat_length_ge [of 10 ?n] show ?thesis by (simp add: nat_less_iff not_less)
  qed
  with loop val show ?thesis
    by (simp add: castStringToIntegerValue_def show_int_sign ucast_of_int_u32)
qed


text \<open>
  C21: the cast of text to a 32-bit integer, on the decimal text of any integer: up to ten digits the
  result is the number modulo \<open>2 ^ 32\<close> -- so every \<^verbatim>\<open>int32_t\<close> that is printed is read back, and a number
  that does not fit wraps without an error -- and eleven digits or more are an exception.
\<close>

theorem cast_integer_text:
  "castStringToIntegerValue (show_int i) =
     (if \<bar>i\<bar> < 10 ^ 10 then Inr (of_int i)
      else Inl (ThrownString ''invalid number format: too many characters (32bit integers can at most consist of 10 numeric characters)''))"
  by (rule cast_show_int)

lemma read_until_digits:
  "list_all is_digit_char s \<Longrightarrow> \<not> is_digit_char stop \<Longrightarrow>
   read_until e stop (of_nat a) (s @ stop # rest) = Inr (of_nat (read_digits a s), rest)"
proof (induction s arbitrary: a)
  case (Cons c s)
  moreover from Cons.prems have "c \<noteq> stop" by auto
  moreover have "10 * of_nat a + of_nat (digit_value c) = (of_nat (a * 10 + digit_value c) :: u32)" by simp
  ultimately show ?case by (simp del: of_nat_add of_nat_mult)
qed simp

lemma read_last_digits:
  "list_all is_digit_char s \<Longrightarrow> (\<And>c. stop = Some c \<Longrightarrow> \<not> is_digit_char c) \<Longrightarrow>
   t = [] \<or> (\<exists>c. stop = Some c \<and> t = c # rest) \<Longrightarrow> t = [] \<longrightarrow> rest = [] \<Longrightarrow>
   read_last e stop (of_nat a) (s @ t) = Inr (of_nat (read_digits a s), rest)"
proof (induction s arbitrary: a)
  case (Cons c s)
  moreover from Cons.prems have "Some c \<noteq> stop" by auto
  moreover have "10 * of_nat a + of_nat (digit_value c) = (of_nat (a * 10 + digit_value c) :: u32)" by simp
  ultimately show ?case by (simp del: of_nat_add of_nat_mult)
qed auto

lemma read_digits_zeros: "read_digits 0 (replicate k (CHR ''0'') @ s) = read_digits 0 s"
  by (induction k) (simp_all add: digit_value_def)

lemma show_padded_digits: "list_all is_digit_char (show_padded k n)"
  using show_nat_digits [of "unat n"] by (auto simp: show_padded_def Let_def list_all_iff is_digit_char_def)

lemma show_padded_nonempty [simp]: "show_padded k n \<noteq> []"
  by (simp add: show_padded_def Let_def)

lemma read_show_padded [simp]: "read_digits 0 (show_padded k n) = unat n"
  by (simp add: show_padded_def Let_def read_digits_zeros)

lemma read_until_padded [simp]:
  "\<not> is_digit_char stop \<Longrightarrow> read_until e stop 0 (show_padded k n @ stop # rest) = Inr (n, rest)"
  using read_until_digits [OF show_padded_digits, of stop e 0] by simp

lemma read_last_padded [simp]:
  "read_last e None 0 (show_padded k n) = Inr (n, [])"
  "\<not> is_digit_char c \<Longrightarrow> read_last e (Some c) 0 (show_padded k n @ c # rest) = Inr (n, rest)"
  "\<not> is_digit_char c \<Longrightarrow> read_last e (Some c) 0 (show_padded k n) = Inr (n, [])"
  using read_last_digits [OF show_padded_digits, where stop = None and t = "[]" and rest = "[]" and a = 0]
    read_last_digits [OF show_padded_digits, where stop = "Some c" and t = "c # rest" and rest = rest and a = 0]
    read_last_digits [OF show_padded_digits, where stop = "Some c" and t = "[]" and rest = "[]" and a = 0]
  by simp_all

lemma separators [simp]: "\<not> is_digit_char (CHR ''-'')" "\<not> is_digit_char (CHR '':'')"
  "\<not> is_digit_char (CHR '' '')" "\<not> is_digit_char (CHR ''.'')"
  by (simp_all add: is_digit_char_def)

lemma show_padded_hd_last: "hd (show_padded k n @ s) \<noteq> CHR '' ''" "last (s @ show_padded k n) \<noteq> CHR '' ''"
proof -
  have "is_digit_char (hd (show_padded k n))" "is_digit_char (last (show_padded k n))"
    using show_padded_digits [of k n] by (simp_all add: list_all_iff)
  then show "hd (show_padded k n @ s) \<noteq> CHR '' ''" "last (s @ show_padded k n) \<noteq> CHR '' ''"
    by (auto simp: is_digit_char_def)
qed

lemma trim_padded [simp]:
  "trim_ws (show_padded k m @ CHR ''-'' # s @ show_padded j n) = show_padded k m @ CHR ''-'' # s @ show_padded j n"
  using show_padded_hd_last(1) [of k m] show_padded_hd_last(2) [of _ j n]
  by (intro trim_ws_id) (metis append_assoc append_Cons)

lemma valid_date_words:
  assumes "valid_date y m d"
  shows "\<not> (of_nat y > (9999 :: u32) \<or> of_nat m < (1 :: u32) \<or> of_nat m > (12 :: u32)
          \<or> of_nat d < (1 :: u32) \<or> of_nat d > (31 :: u32))"
proof -
  from assms have "y \<le> 9999" "1 \<le> m" "m \<le> 12" "1 \<le> d" "d \<le> 31"
    by (auto simp: valid_date_def days_in_month_def split: if_splits)
  then show ?thesis by (simp add: word_less_nat_alt unat_of_nat take_bit_nat_eq_self)
qed

text \<open>
  C18: every date of the calendar survives being printed and read back: the text of the Julian day of
  year, month and day is read as that Julian day, and the Julian day is split into the year, the month
  and the day it was made of.
\<close>

theorem date_round_trip:
  assumes "valid_date y m d" and "jd = mergeJulianDay (of_nat y) (of_nat m) (of_nat d)"
  shows "splitJulianDay jd = (of_nat y, of_nat m, of_nat d) \<and> castStringToDateValue (printDate jd) = Inr jd"
proof -
  have split: "splitJulianDay jd = (of_nat y, of_nat m, of_nat d)"
    using split_merge_date [OF assms(1)] assms(2) by simp
  then have printed: "printDate jd = show_padded 4 (of_nat y) @ ''-'' @ show_padded 2 (of_nat m) @ ''-'' @ show_padded 2 (of_nat d)"
    by (simp add: printDate_def)
  moreover have "trim_ws (printDate jd) = printDate jd"
    using trim_padded [of 4 "of_nat y" "show_padded 2 (of_nat m) @ ''-''" 2 "of_nat d"] by (simp add: printed)
  ultimately have "castStringToDateValue (printDate jd) = Inr jd"
    using valid_date_words [OF assms(1)] by (simp add: castStringToDateValue_def assms(2) Let_def)
  with split show ?thesis by simp
qed

lemma date_round_trip_witness:
  "\<exists>jd. splitJulianDay jd = (of_nat 2000, of_nat 2, of_nat 29) \<and> castStringToDateValue (printDate jd) = Inr jd"
  using date_round_trip [of 2000 2 29, OF _ refl] by (auto simp: valid_date_def days_in_month_def leap_def)

lemma digit_of_base: "(a :: nat) < b \<Longrightarrow> (a + b * c) mod b = a" "(a :: nat) < b \<Longrightarrow> (a + b * c) div b = c"
  by (simp_all only: mod_mult_self2 div_mult_self2 mod_less div_less)

lemma unat_mergeTime:
  assumes "h < 24" "mi < 60" "s < 60" "ms < 1000"
  shows "unat (mergeTime h mi s ms) = unat ms + 1000 * (unat s + 60 * (unat mi + 60 * unat h))"
    and "unat (mergeTime h mi s ms) < 86400000"
proof -
  have *: "unat h < 24" "unat mi < 60" "unat s < 60" "unat ms < 1000"
    using assms by (simp_all add: word_less_nat_alt)
  define N where "N = unat ms + 1000 * unat s + 60000 * unat mi + 3600000 * unat h"
  have "mergeTime h mi s ms = of_nat N" by (simp add: mergeTime_def N_def)
  moreover from * have N: "N < 86400000" by (simp add: N_def)
  ultimately have "unat (mergeTime h mi s ms) = N" by (simp add: unat_of_nat take_bit_nat_eq_self)
  with N show "unat (mergeTime h mi s ms) = unat ms + 1000 * (unat s + 60 * (unat mi + 60 * unat h))"
    "unat (mergeTime h mi s ms) < 86400000" by (simp_all add: N_def)
qed

lemma split_merge_time:
  assumes "h < 24" "mi < 60" "s < 60" "ms < 1000"
  shows "splitTime (mergeTime h mi s ms) = (h, mi, s, ms)"
proof -
  have *: "unat h < 24" "unat mi < 60" "unat s < 60" "unat ms < 1000"
    using assms by (simp_all add: word_less_nat_alt)
  let ?t = "mergeTime h mi s ms"
  note t = unat_mergeTime(1) [OF assms]
  have "unat ?t mod 1000 = unat ms" "unat ?t div 1000 = unat s + 60 * (unat mi + 60 * unat h)"
    unfolding t by (rule digit_of_base [OF *(4)])+
  moreover have "(unat s + 60 * (unat mi + 60 * unat h)) mod 60 = unat s"
    "(unat s + 60 * (unat mi + 60 * unat h)) div 60 = unat mi + 60 * unat h"
    "(unat mi + 60 * unat h) mod 60 = unat mi" "(unat mi + 60 * unat h) div 60 = unat h"
    by (rule digit_of_base [OF *(3)] digit_of_base [OF *(2)])+
  ultimately show ?thesis
    using *(1) by (simp add: splitTime_def Let_def word_unat_eq_iff unat_div unat_mod)
qed

lemma split_timestamp:
  fixes jd t :: u32
  assumes "unat t < 86400000"
  defines "raw \<equiv> ucast jd * msPerDay + ucast t :: u64"
  shows "ucast (raw div msPerDay) = jd" "ucast (raw mod msPerDay) = t"
proof -
  have "unat jd < 2 ^ 32" using unsigned_less [where 'a = nat, of jd] by simp
  then have N: "unat jd * 86400000 + unat t < 2 ^ 64" using assms(1) by simp
  have "raw = of_nat (unat jd * 86400000 + unat t)" by (simp add: raw_def msPerDay_def)
  then have raw: "unat raw = unat jd * 86400000 + unat t"
    using N unat_of_nat [of "unat jd * 86400000 + unat t", where 'a = 64] by (simp only: take_bit_nat_eq_self len_num1 len_bit0) simp
  have "unat (raw div msPerDay) = unat jd" "unat (raw mod msPerDay) = unat t"
    using assms(1) by (simp_all add: unat_div unat_mod raw msPerDay_def)
  then have "raw div msPerDay = ucast jd" "raw mod msPerDay = ucast t"
    by (metis of_nat_unat ucast_id)+
  then show "ucast (raw div msPerDay) = jd" "ucast (raw mod msPerDay) = t"
    by (simp_all add: ucast_up_ucast_id is_up)
qed

text \<open>
  C19: every point of time survives being printed and read back: the text of the timestamp of a date of
  the calendar and a time of the day, with milliseconds or without, is read as that timestamp.
\<close>

theorem timestamp_round_trip:
  assumes "valid_date y m d" and "h < 24" "mi < 60" "s < 60" "ms < 1000"
    and "raw = ucast (mergeJulianDay (of_nat y) (of_nat m) (of_nat d)) * msPerDay + ucast (mergeTime h mi s ms)"
  shows "castStringToTimestampValue (printTimestamp raw) = Inr raw"
proof -
  let ?date = "show_padded 4 (of_nat y) @ ''-'' @ show_padded 2 (of_nat m) @ ''-'' @ show_padded 2 (of_nat d) @ '' ''"
  let ?time = "show_padded 0 h @ '':'' @ show_padded 2 mi @ '':'' @ show_padded 2 s"
  have "printTimestamp raw = ?date @ ?time @ (if ms \<noteq> 0 then ''.'' @ show_padded 3 ms else [])"
    using split_timestamp [OF unat_mergeTime(2) [OF assms(2-5)]] split_merge_date [OF assms(1)]
      split_merge_time [OF assms(2-5)]
    by (simp add: printTimestamp_def assms(6))
  moreover from this have "trim_ws (printTimestamp raw) = printTimestamp raw"
    using trim_padded [of 4 "of_nat y" "show_padded 2 (of_nat m) @ ''-'' @ show_padded 2 (of_nat d) @ '' '' @ show_padded 0 h
        @ '':'' @ show_padded 2 mi @ '':''" 2 s]
      trim_padded [of 4 "of_nat y" "show_padded 2 (of_nat m) @ ''-'' @ show_padded 2 (of_nat d) @ '' '' @ ?time @ ''.''" 3 ms]
    by simp
  moreover have "\<not> (h \<ge> 24 \<or> mi \<ge> 60 \<or> s \<ge> 60 \<or> ms \<ge> 1000)" using assms(2-5) by (simp add: not_le)
  ultimately show ?thesis
    using valid_date_words [OF assms(1)] by (simp add: castStringToTimestampValue_def assms(6) Let_def)
qed

lemma timestamp_round_trip_witness:
  "\<exists>raw. castStringToTimestampValue (printTimestamp raw) = Inr raw"
  using timestamp_round_trip [of 2024 12 31 23 59 59 7, OF _ _ _ _ _ refl]
  by (auto simp: valid_date_def days_in_month_def)

text \<open>
  The date cast knows only the numbers 1 to 31 for a day: the 31st of February is accepted, and what
  is stored is the day that follows the 29th of February by two.
\<close>

theorem date_cast_accepts_february_31:
  "castStringToDateValue ''2001-02-31'' = Inr (mergeJulianDay 2001 3 3)"
  by (simp add: castStringToDateValue_def trim_ws_def is_digit_char_def digit_value_def mergeJulianDay_def)


section \<open>Decimals\<close>

lemma wrap64_id: "- (2 ^ 63) \<le> i \<Longrightarrow> i < 2 ^ 63 \<Longrightarrow> wrap64 i = i"
  by (simp add: wrap64_def signed_take_bit_int_eq_self)

lemma separator_power: "n \<le> 17 \<Longrightarrow> ((\<lambda>sep. wrap64 (sep * 10)) ^^ n) 10 = 10 ^ Suc n"
proof (induction n)
  case (Suc n)
  have "(10 :: int) ^ Suc n \<le> 10 ^ 17" using Suc.prems by (intro power_increasing) auto
  moreover have "wrap64 (x * 10) = x * 10" if "0 \<le> x" "x \<le> 10 ^ 17" for x
    using that by (intro wrap64_id) simp_all
  ultimately have "wrap64 (10 ^ Suc n * 10) = 10 ^ Suc (Suc n)" by (metis power_Suc2 zero_le_numeral zero_le_power)
  with Suc show ?case by (simp del: power_Suc)
qed simp

lemma leading_zeros_text:
  assumes "0 < n" "n < 10 ^ k" "10 * int n < 2 ^ 63"
  shows "leading_zeros (10 ^ k) (int n) out = Some (out @ replicate (k - length (show_nat n)) (CHR ''0''))"
  using assms(2)
proof (induction k arbitrary: out)
  case (Suc j)
  have wrap: "wrap64 (10 * int n) = 10 * int n" using assms(3) by (intro wrap64_id) auto
  show ?case
  proof (cases "n < 10 ^ j")
    case True
    then have "j \<noteq> 0" using assms(1) by (cases j) auto
    with True have "length (show_nat n) \<le> j" by (intro show_nat_length) auto
    moreover have "10 * int n < 10 ^ Suc j" "(10 :: int) ^ Suc j sdiv 10 = 10 ^ j"
      using True by (simp_all add: signed_divide_int_def sgn_if)
    ultimately show ?thesis
      using Suc.IH [OF True, of "out @ ''0''"]
      by (subst leading_zeros.simps) (simp add: wrap Suc_diff_le replicate_app_Cons_same)
  next
    case False
    then have "\<not> 10 * int n < 10 ^ Suc j" "Suc j - length (show_nat n) = 0"
      using show_nat_length_ge [of j n] by simp_all
    then show ?thesis by (subst leading_zeros.simps) (simp add: wrap)
  qed
qed (use assms(1) in simp)

definition fraction_text :: "nat \<Rightarrow> nat \<Rightarrow> string" where
  \<comment> \<open>the digits of a fraction, as many as the precision\<close>
  "fraction_text k n = (if n = 0 then replicate k (CHR ''0'')
                        else replicate (k - length (show_nat n)) (CHR ''0'') @ show_nat n)"

lemma fraction_text_facts:
  assumes "n < 10 ^ k" "0 < k"
  shows "length (fraction_text k n) = k" "list_all is_digit_char (fraction_text k n)"
    "read_digits 0 (fraction_text k n) = n"
  using assms show_nat_length [of n k] show_nat_digits [of n] read_digits_zeros [of k "[]"]
  by (auto simp: fraction_text_def list_all_iff read_digits_zeros is_digit_char_def)

lemma numeric_text:
  assumes "\<bar>raw\<bar> < 10 ^ 18" "0 < p" "p \<le> 17"
  shows "printNumeric len p raw =
    Some (Inr ((if raw < 0 then ''-'' else []) @ show_nat (nat \<bar>raw\<bar> div 10 ^ p) @ ''.'' @ fraction_text p (nat \<bar>raw\<bar> mod 10 ^ p)))"
proof -
  define n where "n = nat \<bar>raw\<bar>"
  have v: "(if raw < 0 then (''-'', wrap64 (- raw)) else ([], raw)) = (if raw < 0 then ''-'' else [], int n)"
    using assms(1) by (auto simp: n_def wrap64_id)
  have sep: "((\<lambda>sep. wrap64 (sep * 10)) ^^ (p - 1)) 10 = 10 ^ p"
    using separator_power [of "p - 1"] assms(2,3) by simp
  have dm: "int n sdiv 10 ^ p = int (n div 10 ^ p)" "int n smod 10 ^ p = int (n mod 10 ^ p)"
    by (simp_all add: signed_divide_int_def signed_modulo_int_def sgn_if zdiv_int minus_div_mult_eq_mod zmod_int)
  have small: "10 * int (n mod 10 ^ p) < 2 ^ 63"
  proof -
    have "n mod 10 ^ p < 10 ^ p" by simp
    also have "(10 :: nat) ^ p \<le> 10 ^ 17" using assms(3) by (intro power_increasing) auto
    finally show ?thesis by simp
  qed
  show ?thesis
    unfolding n_def [symmetric] printNumeric_def v prod.case Let_def sep dm
    using assms(2) small leading_zeros_text [of "n mod 10 ^ p" p]
    by (cases "n mod 10 ^ p = 0") (simp_all add: fraction_text_def show_int_def)
qed

lemma numeric_loop_digits:
  "list_all is_digit_char s \<Longrightarrow>
   numeric_loop (s @ t) (of_nat a) fr k j =
     numeric_loop t (of_nat (read_digits a s)) fr (if fr then k else k + length s) (if fr then j + length s else j)"
proof (induction s arbitrary: a k j)
  case (Cons c s)
  have "of_nat a * 10 + of_nat (digit_value c) = (of_nat (a * 10 + digit_value c) :: u64)" by simp
  with Cons.IH [of "a * 10 + digit_value c"] Cons.prems show ?case
    by (simp del: of_nat_add of_nat_mult)
qed simp

lemma strip_zeros_split: "\<exists>z. s = strip_zeros s @ replicate z (CHR ''0'')"
proof -
  have "rev s = takeWhile (\<lambda>c. c = CHR ''0'') (rev s) @ rev (strip_zeros s)" by (simp add: strip_zeros_def)
  then have "s = strip_zeros s @ rev (takeWhile (\<lambda>c. c = CHR ''0'') (rev s))" by (metis rev_append rev_rev_ident)
  moreover have "takeWhile (\<lambda>c. c = CHR ''0'') (rev s) = replicate (length (takeWhile (\<lambda>c. c = CHR ''0'') (rev s))) (CHR ''0'')"
    by (rule replicate_length_same [symmetric]) (auto dest: set_takeWhileD)
  ultimately show ?thesis by (metis rev_replicate)
qed

lemma read_digits_shift: "read_digits a s = a * 10 ^ length s + read_digits 0 s"
proof (induction s arbitrary: a)
  case (Cons c s)
  have "read_digits (digit_value c) s = digit_value c * 10 ^ length s + read_digits 0 s" by (rule Cons.IH)
  with Cons.IH [of "a * 10 + digit_value c"] show ?case by (simp add: algebra_simps)
qed simp

lemma read_digits_trailing: "read_digits a (s @ replicate z (CHR ''0'')) = read_digits a s * 10 ^ z"
proof (induction z arbitrary: s)
  case (Suc z)
  have "s @ replicate (Suc z) (CHR ''0'') = (s @ ''0'') @ replicate z (CHR ''0'')" by simp
  then show ?case using Suc.IH [of "s @ ''0''"] by (simp add: read_digits_append digit_value_def)
qed simp

lemma numericShifts_nth: "k < 19 \<Longrightarrow> numericShifts ! k = of_nat (10 ^ k)" "length numericShifts = 19"
  by (simp_all add: numericShifts_def)

lemma read_numeric_text:
  assumes "n < 10 ^ 18" "0 < p" "p \<le> 17"
  shows "castStringToNumericValue
           ((if neg then ''-'' else []) @ show_nat (n div 10 ^ p) @ ''.'' @ fraction_text p (n mod 10 ^ p)) len p =
         Inr (if neg then - of_nat n else of_nat n)" (is "castStringToNumericValue (?sign @ ?int @ ''.'' @ ?fr) len p = _")
proof -
  note fr = fraction_text_facts [of "n mod 10 ^ p" p, OF _ assms(2)]
  have hd: "hd ?int \<notin> {CHR '' '', CHR ''-'', CHR ''+''}" using digit_not [OF show_nat_hd_last(1)] by blast
  have "is_digit_char (last ?fr)"
    using fr assms(2) by (metis last_in_set length_greater_0_conv list_all_iff mod_less_divisor zero_less_numeral zero_less_power)
  then have last: "last ?fr \<noteq> CHR '' ''" "?fr \<noteq> []" using digit_not fr(1) assms(2) by force+
  have "trim_ws (?sign @ ?int @ ''.'' @ ?fr) = ?sign @ ?int @ ''.'' @ ?fr"
    using hd last by (intro trim_ws_id) auto
  moreover have "take_sign (?sign @ ?int @ ''.'' @ ?fr) = (neg, ?int @ ''.'' @ ?fr)"
    using hd by (cases ?int) (auto simp: take_sign_def)
  moreover obtain z where z: "?fr = strip_zeros ?fr @ replicate z (CHR ''0'')" using strip_zeros_split by blast
  define f where "f = strip_zeros ?fr"
  have f: "list_all is_digit_char f" "length f + z = p" "read_digits 0 f * 10 ^ z = n mod 10 ^ p"
    using fr z read_digits_trailing [of 0 f z] unfolding f_def [symmetric]
    by (metis list_all_append mod_less_divisor zero_less_numeral zero_less_power length_append length_replicate)+
  have "numeric_loop (?int @ ''.'' @ ?fr) 0 False 0 0
      = Inr (of_nat (read_digits (n div 10 ^ p) f), length ?int, length f)"
    using numeric_loop_digits [of ?int "''.'' @ ?fr" 0] numeric_loop_digits [of f "[]"] f(1) show_nat_digits [of "n div 10 ^ p"]
    by (simp add: list_all_iff f_def is_digit_char_def)
  moreover have "length ?int \<le> 18"
    using assms(1) by (intro show_nat_length) (auto intro: le_less_trans [OF div_le_dividend])
  moreover have "read_digits (n div 10 ^ p) f * 10 ^ z = n"
    by (simp add: read_digits_shift [of "n div 10 ^ p"] add_mult_distrib f(3) mult.assoc power_add [symmetric] f(2) div_mult_mod_eq)
  then have "of_nat (read_digits (n div 10 ^ p) f) * of_nat (10 ^ z) = (of_nat n :: u64)"
    by (metis of_nat_mult)
  ultimately show ?thesis
    using f(2) assms(3) numericShifts_nth(1) [of z]
    by (auto simp: castStringToNumericValue_def numericShifts_nth(2) Let_def)
qed

lemma of_int_sign: "(if raw < 0 then - of_nat (nat \<bar>raw\<bar>) else of_nat (nat \<bar>raw\<bar>)) = (of_int raw :: u64)"
  by simp

lemma read_numeric_integer:
  assumes "\<bar>raw\<bar> < 10 ^ 18"
  shows "castStringToNumericValue (show_int raw) len 0 = Inr (of_int raw)"
proof -
  have "length (show_nat (nat \<bar>raw\<bar>)) \<le> 18" using assms by (intro show_nat_length) (simp_all add: nat_less_iff)
  moreover have "numeric_loop (show_nat (nat \<bar>raw\<bar>)) 0 False 0 0 = Inr (of_nat (nat \<bar>raw\<bar>), length (show_nat (nat \<bar>raw\<bar>)), 0)"
    using numeric_loop_digits [of "show_nat (nat \<bar>raw\<bar>)" "[]" 0] show_nat_digits [of "nat \<bar>raw\<bar>"] by (simp add: list_all_iff)
  ultimately show ?thesis
    using numericShifts_nth(1) [of 0] numericShifts_nth(2) by (simp add: castStringToNumericValue_def show_int_sign Let_def)
qed

text \<open>
  C20: every decimal of at most eighteen digits survives being printed and read back, for every precision
  up to seventeen: \<^verbatim>\<open>printNumeric\<close> returns a text, and the cast of this text with the same precision is the
  value that was printed.
\<close>

theorem numeric_round_trip:
  assumes "\<bar>raw\<bar> < 10 ^ 18" and "precision \<le> 17"
  shows "\<exists>s. printNumeric len precision raw = Some (Inr s) \<and> castStringToNumericValue s len' precision = Inr (of_int raw)"
proof (cases "precision = 0")
  case False
  with numeric_text [OF assms(1) _ assms(2)] read_numeric_text [of "nat \<bar>raw\<bar>" precision "raw < 0" len'] assms
  show ?thesis by (simp only: of_int_sign nat_less_iff) simp
next
  case True
  have "printNumeric len 0 raw = Some (Inr (show_int raw))"
    using assms(1) by (auto simp: printNumeric_def show_int_def wrap64_id)
  with read_numeric_integer [OF assms(1)] show ?thesis using True by simp
qed

lemma numeric_round_trip_witness:
  "\<exists>s. printNumeric 6 2 (- 1205) = Some (Inr s) \<and> castStringToNumericValue s 6 2 = Inr (of_int (- 1205))"
  by (rule numeric_round_trip) simp_all

lemma leading_zeros_diverges:
  assumes "leading_zeros sep v out = Some r"
  shows "\<not> (0 \<le> sep \<and> wrap64 (10 * v) < 0)"
proof (rule leading_zeros.raw_induct [OF _ assms])
  fix f sep v out r
  assume IH: "\<And>sep v out r. f sep v out = Some r \<Longrightarrow> \<not> (0 \<le> sep \<and> wrap64 (10 * v) < 0)"
    and run: "(if sep > wrap64 (10 * v) then f (sep sdiv 10) v (out @ ''0'') else Some out) = Some r"
  have "0 \<le> sep \<Longrightarrow> 0 \<le> sep sdiv 10" by (simp add: signed_divide_int_def sgn_if)
  with run IH show "\<not> (0 \<le> sep \<and> wrap64 (10 * v) < 0)" by (fastforce split: if_splits)
qed

text \<open>
  With a precision of eighteen the loop that prints the zeros of the fraction need not end: ten times
  the fraction exceeds an \<^verbatim>\<open>int64_t\<close>. The overflow is undefined in C++; with the two's complement of the
  supported compilers the product is negative and \<^verbatim>\<open>printNumeric\<close> prints zeros forever.
\<close>

theorem printNumeric_precision_18_diverges:
  "printNumeric len 18 999999999999999999 = None"
proof -
  have "wrap64 (10 * 999999999999999999) < 0" by (simp add: wrap64_def)
  then have "leading_zeros (10 ^ 18) 999999999999999999 out = None" for out
    using leading_zeros_diverges [of "10 ^ 18" 999999999999999999 out] by (cases "leading_zeros (10 ^ 18) 999999999999999999 out") auto
  then show ?thesis
    using separator_power [of 17]
    by (simp add: printNumeric_def Let_def signed_divide_int_def signed_modulo_int_def)
qed

end
