(* ===== verification/NativeValueProperties.thy ===== *)
theory NativeValueProperties
  imports NativeValues CastRoundTrips
begin

text \<open>
  What the values of native/sql promise: storing and loading, texts in place and in the pool, equality
  against hashing, and the text of a value read back.
\<close>

section \<open>Bytes\<close>

lemma read_bytes_length [simp]: "length (read_bytes m p n) = n"
  by (simp add: read_bytes_def)

lemma bytes_of_word_length [simp]: "length (bytes_of_word n w) = n"
  by (simp add: bytes_of_word_def)

lemma unat_of_nat_64: "n < 2 ^ 64 \<Longrightarrow> unat (of_nat n :: u64) = n"
  using unat_of_nat [of n, where 'a = 64] by (simp add: take_bit_nat_eq_self)

lemma read_write_bytes:
  assumes "length bs < 2 ^ 64"
  shows "read_bytes (write_bytes m p bs) p (length bs) = bs"
  using assms by (intro nth_equalityI) (simp_all add: read_bytes_def write_bytes_def unat_of_nat_64)

lemma bit_word_of_bytes:
  "bit (word_of_bytes bs :: 'a::len word) k \<longleftrightarrow>
     k < LENGTH('a) \<and> k div 8 < length bs \<and> bit (bs ! (k div 8)) (k mod 8)"
proof (induction bs arbitrary: k)
  case (Cons b bs)
  show ?case
  proof (cases "k < 8")
    case True
    then show ?thesis by (auto simp: bit_simps)
  next
    case False
    then have k: "k div 8 = Suc ((k - 8) div 8)" "(k - 8) mod 8 = k mod 8" by (simp_all add: le_div_geq le_mod_geq)
    then have "k - 8 < k" "\<not> bit b k" using False by auto
    with False Cons [of "k - 8"] show ?thesis by (auto simp: bit_simps k)
  qed
qed simp

lemma word_of_bytes_of_word:
  assumes "LENGTH('a) \<le> 8 * n"
  shows "word_of_bytes (bytes_of_word n (w :: 'a::len word)) = w"
proof (rule bit_word_eqI)
  fix k assume k: "k < LENGTH('a)"
  then have "k div 8 < n" using assms by linarith
  then show "bit (word_of_bytes (bytes_of_word n w) :: 'a word) k = bit w k"
    using k by (simp add: bit_word_of_bytes bytes_of_word_def bit_simps)
qed

lemma bytes_of_word_of_bytes:
  assumes "8 * length bs \<le> LENGTH('a)"
  shows "bytes_of_word (length bs) (word_of_bytes bs :: 'a::len word) = bs"
proof (rule nth_equalityI)
  fix i assume "i < length (bytes_of_word (length bs) (word_of_bytes bs :: 'a word))"
  then have i: "i < length bs" by simp
  show "bytes_of_word (length bs) (word_of_bytes bs :: 'a word) ! i = bs ! i"
  proof (rule bit_word_eqI)
    fix k assume "k < LENGTH(8)"
    then show "bit (bytes_of_word (length bs) (word_of_bytes bs :: 'a word) ! i) k = bit (bs ! i) k"
      using i assms by (simp add: bytes_of_word_def bit_simps bit_word_of_bytes)
  qed
qed simp

lemma read_write_word:
  assumes "LENGTH('a) = 8 * n" "n < 9"
  shows "word_of_bytes (read_bytes (write_bytes m p (bytes_of_word n (w :: 'a::len word))) p n) = w"
  using read_write_bytes [of "bytes_of_word n w" m p] word_of_bytes_of_word [of n w] assms by simp

lemma unat_below:
  assumes "0 < n" "n \<le> 2 ^ 64"
  shows "unat (- of_nat n :: u64) = 2 ^ 64 - n"
proof -
  have "(of_nat (2 ^ 64 - n) :: u64) = - of_nat n" using assms(2) by (subst of_nat_diff) simp_all
  then show ?thesis using assms unat_of_nat_64 [of "2 ^ 64 - n"] by simp
qed

lemma write_elsewhere:
  assumes "n \<le> d" "d + length bs < 2 ^ 64"
  shows "read_bytes (write_bytes m (p + of_nat d) bs) p n = read_bytes m p n"
proof (rule nth_equalityI)
  fix i assume "i < length (read_bytes (write_bytes m (p + of_nat d) bs) p n)"
  then have i: "i < n" by simp
  have "p + of_nat i - (p + of_nat d) = - of_nat (d - i)" using i assms(1) by (simp add: of_nat_diff)
  moreover have "unat (- of_nat (d - i) :: u64) = 2 ^ 64 - (d - i)" using i assms by (intro unat_below) simp_all
  moreover have "\<not> 2 ^ 64 - (d - i) < length bs" using assms by simp
  ultimately show "read_bytes (write_bytes m (p + of_nat d) bs) p n ! i = read_bytes m p n ! i"
    using i by (simp add: read_bytes_def write_bytes_def del: power_numeral)
qed simp

lemma write_bytes_append:
  assumes "length xs + length ys < 2 ^ 64"
  shows "write_bytes (write_bytes m p xs) (p + of_nat (length xs)) ys = write_bytes m p (xs @ ys)"
proof (rule ext)
  fix q :: u64
  define u where "u = unat (q - p)"
  have q: "q - p = of_nat u" "u < 2 ^ 64"
    using unsigned_less [where 'a = nat, of "q - p"] by (simp_all add: u_def)
  show "write_bytes (write_bytes m p xs) (p + of_nat (length xs)) ys q = write_bytes m p (xs @ ys) q"
  proof (cases "u < length xs")
    case True
    have "q - (p + of_nat (length xs)) = - of_nat (length xs - u)"
      using True q(1) by (simp add: of_nat_diff diff_diff_eq [symmetric])
    moreover have "unat (- of_nat (length xs - u) :: u64) = 2 ^ 64 - (length xs - u)"
      using True assms by (intro unat_below) simp_all
    moreover have "\<not> 2 ^ 64 - (length xs - u) < length ys" using assms by simp
    ultimately have "\<not> unat (q - (p + of_nat (length xs))) < length ys" by (simp only: not_False_eq_True)
    with True show ?thesis by (simp add: write_bytes_def nth_append u_def)
  next
    case False
    then have "q - (p + of_nat (length xs)) = of_nat (u - length xs)"
      using q(1) by (simp add: of_nat_diff diff_diff_eq [symmetric])
    then have "unat (q - (p + of_nat (length xs))) = u - length xs"
      using q(2) by (simp only: unat_of_nat_64)
    with False show ?thesis by (auto simp: write_bytes_def nth_append u_def)
  qed
qed

lemma read_bytes_add: "read_bytes m p (a + b) = read_bytes m p a @ read_bytes m (p + of_nat a) b"
  by (rule nth_equalityI) (auto simp: read_bytes_def nth_append of_nat_diff)

section \<open>Storing and loading\<close>

definition storable :: "NValue \<Rightarrow> bool" where
  \<comment> \<open>the values a column keeps as they are; a varchar is loaded as a pointer into the column\<close>
  "storable v = (case v of
       NInteger _ \<Rightarrow> True | NBool _ \<Rightarrow> True | NDate _ \<Rightarrow> True | NTimestamp _ \<Rightarrow> True | NText _ _ \<Rightarrow> True
     | NNumeric t _ \<Rightarrow> ty_typeID t = NumericID \<and> \<not> ty_nullable t
     | _ \<Rightarrow> False)"

definition nv_bytes :: "NValue \<Rightarrow> u8 list" where
  "nv_bytes v = (case v of
       NInteger i \<Rightarrow> bytes_of_word 4 i | NDate i \<Rightarrow> bytes_of_word 4 i
     | NNumeric _ i \<Rightarrow> bytes_of_word 8 i | NTimestamp i \<Rightarrow> bytes_of_word 8 i
     | NBool b \<Rightarrow> [if b then 1 else 0]
     | NText a b \<Rightarrow> bytes_of_word 8 a @ bytes_of_word 8 b
     | _ \<Rightarrow> [])"

lemmas class_store = Value_store_def Integer_store_def Numeric_store_def Bool_store_def Date_store_def
  Timestamp_store_def Text_store_def

lemmas class_load = Value_load_def Integer_load_def Numeric_load_def Bool_load_def Date_load_def
  Timestamp_load_def Text_load_def

lemmas class_cast = Value_castString_def Integer_castString_def Numeric_castString_def Bool_castString_def

lemma nv_bytes_length: "length (nv_bytes v) \<le> 16"
  by (cases v) (simp_all add: nv_bytes_def)

lemma store_nv_bytes: "storable v \<Longrightarrow> Value_store v p m = Inr (write_bytes m p (nv_bytes v))"
proof (cases v)
  case (NText a b)
  then show ?thesis
    using write_bytes_append [of "bytes_of_word 8 a" "bytes_of_word 8 b" m p] by (simp add: nv_bytes_def class_store)
qed (auto simp: storable_def nv_bytes_def class_store)

lemmas typeIDs = getIntegerTy_def getBoolTy_def getDateTy_def getTimestampTy_def getTextTy_def getUnknownTy_def
  SqlType_ctor_def

lemma load_nv_bytes:
  assumes "storable v" "read_bytes m p (length (nv_bytes v)) = nv_bytes v"
  shows "Value_load m p (nv_type v) = Inr v"
proof (cases v)
  case (NText a b)
  with assms(2) have "read_bytes m p (8 + 8) = bytes_of_word 8 a @ bytes_of_word 8 b" by (simp add: nv_bytes_def)
  then have "read_bytes m p 8 = bytes_of_word 8 a" "read_bytes m (p + 8) 8 = bytes_of_word 8 b"
    unfolding read_bytes_add by simp_all
  with NText show ?thesis by (simp add: class_load typeIDs word_of_bytes_of_word)
next
  case (NBool b)
  with assms(2) have "m p = (if b then 1 else 0)" by (simp add: nv_bytes_def read_bytes_def)
  with NBool show ?thesis by (simp add: class_load typeIDs)
qed (use assms in \<open>auto simp: storable_def nv_bytes_def class_load typeIDs word_of_bytes_of_word\<close>)

text \<open>
  A column keeps what is stored in it: an integer, numeric, boolean, date, timestamp or text that is
  stored at an address is loaded from there as the same value.
\<close>

theorem value_store_load:
  assumes "storable v"
  shows "\<exists>m'. Value_store v p m = Inr m' \<and> Value_load m' p (nv_type v) = Inr v"
proof -
  have "read_bytes (write_bytes m p (nv_bytes v)) p (length (nv_bytes v)) = nv_bytes v"
    using nv_bytes_length [of v] by (intro read_write_bytes) simp
  with store_nv_bytes [OF assms] load_nv_bytes [OF assms] show ?thesis by blast
qed

lemma value_store_load_witness:
  "\<exists>m'. Value_store (NText 5 7) 1000 (\<lambda>_. 0) = Inr m' \<and> Value_load m' 1000 (nv_type (NText 5 7)) = Inr (NText 5 7)"
  by (rule value_store_load) (simp add: storable_def)

definition layout_ok :: "(nat \<Rightarrow> u64) \<Rightarrow> NValue list \<Rightarrow> bool" where
  \<comment> \<open>the members of the struct follow each other without overlap\<close>
  "layout_ok offset vs \<longleftrightarrow>
     (\<forall>j < length vs. unat (offset j) < 2 ^ 63 \<and> (\<forall>i < j. unat (offset i) + length (nv_bytes (vs ! i)) \<le> unat (offset j)))"

lemma members_store_load:
  assumes "\<forall>v \<in> set vs. storable v" "layout_ok (\<lambda>j. offset (i + j)) vs"
  shows "\<exists>m'. store_members offset vs i ptr m = Inr m' \<and> load_members offset (map nv_type vs) i ptr m' = Inr vs
    \<and> (\<forall>k n. (\<forall>j < length vs. k + n \<le> unat (offset (i + j))) \<longrightarrow>
          read_bytes m' (ptr + of_nat k) n = read_bytes m (ptr + of_nat k) n)"
  using assms
proof (induction vs arbitrary: i m)
  case (Cons v vs)
  define q where "q = ptr + offset i"
  define m1 where "m1 = write_bytes m q (nv_bytes v)"
  have v: "storable v" "unat (offset i) < 2 ^ 63" using Cons.prems by (auto simp: layout_ok_def)
  have later: "unat (offset i) + length (nv_bytes v) \<le> unat (offset (Suc i + j))" if "j < length vs" for j
    using Cons.prems(2) that by (force simp: layout_ok_def dest: spec [of _ "Suc j"])
  have "layout_ok (\<lambda>j. offset (Suc i + j)) vs"
    using Cons.prems(2) unfolding layout_ok_def by (metis Suc_less_eq add_Suc add_Suc_right length_Cons nth_Cons_Suc)
  from Cons.IH [OF _ this, of m1] Cons.prems(1) obtain m' where m':
    "store_members offset vs (Suc i) ptr m1 = Inr m'" "load_members offset (map nv_type vs) (Suc i) ptr m' = Inr vs"
    "\<And>k n. (\<forall>j < length vs. k + n \<le> unat (offset (Suc i + j))) \<Longrightarrow>
          read_bytes m' (ptr + of_nat k) n = read_bytes m1 (ptr + of_nat k) n" by auto
  have "read_bytes m' q (length (nv_bytes v)) = read_bytes m1 q (length (nv_bytes v))"
    using m'(3) [of "unat (offset i)" "length (nv_bytes v)"] later by (simp add: q_def)
  also have "\<dots> = nv_bytes v"
    unfolding m1_def using nv_bytes_length [of v] by (intro read_write_bytes) simp
  finally have "Value_load m' q (nv_type v) = Inr v" by (rule load_nv_bytes [OF v(1)])
  moreover have "read_bytes m1 (ptr + of_nat k) n = read_bytes m (ptr + of_nat k) n" if "k + n \<le> unat (offset i)" for k n
  proof -
    have "q = ptr + of_nat k + of_nat (unat (offset i) - k)" using that by (simp add: q_def of_nat_diff)
    then show ?thesis
      unfolding m1_def using that v(2) nv_bytes_length [of v] by (simp only:) (rule write_elsewhere; simp)
  qed
  moreover have "read_bytes m' (ptr + of_nat k) n = read_bytes m1 (ptr + of_nat k) n \<and> k + n \<le> unat (offset i)"
    if "\<forall>j < length (v # vs). k + n \<le> unat (offset (i + j))" for k n
    using that [rule_format, of 0] that [rule_format, of "Suc j" for j] m'(3) [of k n] by simp
  ultimately show ?case
    using m'(1,2) v(1) by (simp add: store_nv_bytes q_def m1_def)
qed simp

text \<open>
  C22: a tuple keeps its values: storing its members at the offsets of a struct whose members do not
  overlap, and loading members of the same types from there, gives the values back. The values are those
  that are \<open>storable\<close>: a varchar, which is loaded as a pointer into the column, and a nullable value, whose store
  throws, are not.
\<close>

theorem tuple_store_load:
  assumes "\<forall>v \<in> set vs. storable v" and "layout_ok offset vs"
  shows "\<exists>m'. native_tuple_store offset vs ptr m = Inr m' \<and> native_tuple_load offset (map nv_type vs) ptr m' = Inr vs"
  using members_store_load [of vs offset 0 ptr m] assms by (auto simp: native_tuple_store_def native_tuple_load_def)

lemma tuple_store_load_witness:
  "\<exists>m'. native_tuple_store (\<lambda>i. of_nat (16 * i)) [NInteger 5, NText 1 2] 64 (\<lambda>_. 0) = Inr m' \<and>
     native_tuple_load (\<lambda>i. of_nat (16 * i)) (map nv_type [NInteger 5, NText 1 2]) 64 m' = Inr [NInteger 5, NText 1 2]"
  by (rule tuple_store_load) (auto simp: storable_def layout_ok_def nv_bytes_def less_Suc_eq)


section \<open>Texts\<close>

lemma bytes_chars [simp]: "chars_of_bytes (bytes_of_chars s) = s" "length (bytes_of_chars s) = length s"
proof -
  have "unat (of_nat (of_char c) :: u8) = of_char c" for c :: char
    by (simp add: unat_of_nat take_bit_nat_eq_self of_char_def)
  then show "chars_of_bytes (bytes_of_chars s) = s"
    by (simp add: chars_of_bytes_def bytes_of_chars_def o_def)
qed (simp add: bytes_of_chars_def)

lemma inplace_data:
  assumes "length str \<le> 15" "Text_inplace str = NText a b"
  shows "Text_data a b = of_nat (length str) # bytes_of_chars str @ replicate (15 - length str) 0"
proof -
  define data :: "u8 list" where "data = of_nat (length str) # bytes_of_chars str @ replicate (15 - length str) 0"
  have "length data = 16" using assms(1) by (simp add: data_def)
  then have "length (take 8 data) = 8" "length (drop 8 data) = 8" by simp_all
  with bytes_of_word_of_bytes [of "take 8 data", where 'a = 64] bytes_of_word_of_bytes [of "drop 8 data", where 'a = 64]
  have "Text_data (word_of_bytes (take 8 data)) (word_of_bytes (drop 8 data)) = take 8 data @ drop 8 data"
    unfolding Text_data_def by (simp only:) simp
  moreover have "a = word_of_bytes (take 8 data)" "b = word_of_bytes (drop 8 data)"
    using assms(2) unfolding Text_inplace_def Let_def data_def [symmetric] by (simp_all only: NValue.inject)
  ultimately show ?thesis unfolding data_def [symmetric] by (simp only: append_take_drop_id)
qed

lemma isInplace_bit: "Text_isInplace a \<longleftrightarrow> \<not> bit a 63"
proof
  assume "Text_isInplace a"
  then have "\<not> bit (drop_bit 63 a) 0" by (simp add: Text_isInplace_def)
  then show "\<not> bit a 63" by (simp add: bit_simps)
next
  assume "\<not> bit a 63"
  then have "\<not> bit a (63 + n)" for n using bit_imp_le_length [of a "63 + n"] by (cases n) auto
  then have "drop_bit 63 a = 0" by (intro bit_word_eqI) (simp add: bit_simps)
  then show "Text_isInplace a" by (simp add: Text_isInplace_def)
qed

lemma bit_7: "(n :: nat) < 256 \<Longrightarrow> bit n 7 \<longleftrightarrow> \<not> n < 128"
proof -
  assume n: "n < 256"
  have "n div 128 = (if n < 128 then 0 else 1)"
    using n by (auto intro!: div_nat_eqI)
  then show ?thesis by (simp add: bit_iff_odd)
qed

lemma inplace_seventh:
  assumes "length str \<le> 15" "Text_inplace str = NText a b"
  shows "Text_isInplace a \<longleftrightarrow> (6 < length str \<longrightarrow> (of_char (str ! 6) :: nat) < 128)"
proof -
  have "bytes_of_word 8 a ! 7 = Text_data a b ! 7" by (simp add: Text_data_def nth_append)
  also have "\<dots> = (if 6 < length str then of_nat (of_char (str ! 6)) else 0)"
    unfolding inplace_data [OF assms] using assms(1) by (simp add: nth_append bytes_of_chars_def)
  finally have *: "bytes_of_word 8 a ! 7 = (if 6 < length str then of_nat (of_char (str ! 6)) else 0 :: u8)" .
  have "bit a 63 \<longleftrightarrow> bit (bytes_of_word 8 a ! 7) 7" by (simp add: bytes_of_word_def bit_simps)
  also have "\<dots> \<longleftrightarrow> 6 < length str \<and> bit (of_char (str ! 6) :: nat) 7"
    unfolding * by (simp add: bit_simps)
  also have "bit (of_char (str ! 6) :: nat) 7 \<longleftrightarrow> \<not> of_char (str ! 6) < (128 :: nat)"
    using mod_less_divisor [of 256 "of_char (str ! 6)"] by (intro bit_7) simp
  finally show ?thesis by (auto simp: isInplace_bit)
qed

text \<open>
  C24: a text of at most fifteen bytes is kept inside the value, and read back from it exactly when its
  seventh byte is below 128 (or there is none): the length and the bytes are laid out as they are, but the
  test that tells texts in place from pointers looks at the top bit of the first word, which is the seventh
  byte of the text. Otherwise the view starts at an address made of the text's own bytes.
\<close>

theorem short_text_view:
  assumes "length str \<le> 15" and "Text_castString str h = (NText a b, h')"
  shows "h' = h \<and> (if 6 < length str \<and> 128 \<le> (of_char (str ! 6) :: nat) then \<not> Text_isInplace a
                   else Text_getView m a b = str)"
proof -
  from assms have parts: "Text_inplace str = NText a b" "h' = h" by (simp_all add: Text_castString_def)
  have "Text_getView m a b = str" if "Text_isInplace a"
  proof -
    have "Text_length a b = of_nat (length str)"
      using that inplace_data [OF assms(1) parts(1)] assms(1)
      by (simp add: Text_length_def word_unat_eq_iff unat_of_nat unsigned_ucast_eq take_bit_nat_eq_self)
    then have "unat (Text_length a b) = length str" using assms(1) by (simp add: unat_of_nat_64)
    with that show ?thesis
      by (simp add: Text_getView_def Text_bytes_def inplace_data [OF assms(1) parts(1)])
  qed
  with inplace_seventh [OF assms(1) parts(1)] parts(2) show ?thesis by (auto simp: not_less)
qed

lemma short_text_view_witness:
  "\<exists>a b. Text_castString ''Tardis'' \<lparr>hp_mem = (\<lambda>_. 0), hp_brk = 64\<rparr> = (NText a b, \<lparr>hp_mem = (\<lambda>_. 0), hp_brk = 64\<rparr>)
     \<and> Text_getView (\<lambda>_. 0) a b = ''Tardis''"
proof -
  obtain a b where ab: "Text_castString ''Tardis'' \<lparr>hp_mem = (\<lambda>_. 0), hp_brk = 64\<rparr> = (NText a b, \<lparr>hp_mem = (\<lambda>_. 0), hp_brk = 64\<rparr>)"
    by (simp add: Text_castString_def Text_inplace_def Let_def)
  from short_text_view [OF _ this] ab show ?thesis by auto
qed

text \<open>
  C25: a longer text is copied to the string pool and read back from there: its view in the new heap is
  the text, as long as the pool's addresses leave the top bit free, which marks a pointer.
\<close>

theorem pooled_text_view:
  assumes "15 < length str" and "unat (hp_brk h) + length str < 2 ^ 63"
    and "Text_castString str h = (NText a b, h')"
  shows "Text_getView (hp_mem h') a b = str \<and> unat (hp_brk h') = unat (hp_brk h) + length str"
proof -
  let ?p = "hp_brk h"
  from assms have parts: "a = ?p XOR push_bit 63 1" "b = ?p + of_nat (length str)"
    "hp_mem h' = write_bytes (hp_mem h) ?p (bytes_of_chars str)" "hp_brk h' = ?p + of_nat (length str)"
    by (auto simp: Text_castString_def StringPool_put_def Text_pointers_def simp del: push_bit_of_1 push_bit_numeral)
  have "\<not> bit ?p 63"
  proof -
    have "unat ?p div 2 ^ 63 = 0" using assms(2) by simp
    then have "\<not> bit (unat ?p) 63" by (simp add: bit_iff_odd)
    then show ?thesis by (simp add: bit_simps)
  qed
  then have "\<not> Text_isInplace a"
    unfolding isInplace_bit parts by (simp add: bit_simps del: push_bit_of_1 push_bit_numeral)
  moreover have "Text_beginPtr a = ?p" by (simp add: Text_beginPtr_def parts xor.assoc)
  moreover have "unat (of_nat (length str) :: u64) = length str" using assms(2) by (intro unat_of_nat_64) simp
  ultimately have "Text_getView (hp_mem h') a b = str"
    using assms(2) read_write_bytes [of "bytes_of_chars str" "hp_mem h" ?p]
    by (simp add: Text_getView_def Text_bytes_def Text_length_def parts)
  moreover have "unat (hp_brk h') = unat ?p + length str"
  proof -
    have "?p + of_nat (length str) = of_nat (unat ?p + length str)" by simp
    then show ?thesis using assms(2) unat_of_nat_64 [of "unat ?p + length str"] by (simp add: parts)
  qed
  ultimately show ?thesis by simp
qed

lemma pooled_text_view_witness:
  "\<exists>a b h'. Text_castString ''branch and version'' \<lparr>hp_mem = (\<lambda>_. 0), hp_brk = 64\<rparr> = (NText a b, h')
     \<and> Text_getView (hp_mem h') a b = ''branch and version''"
proof -
  obtain a b h' where ab: "Text_castString ''branch and version'' \<lparr>hp_mem = (\<lambda>_. 0), hp_brk = 64\<rparr> = (NText a b, h')"
    by (simp add: Text_castString_def StringPool_put_def Text_pointers_def Let_def)
  from pooled_text_view [OF _ _ this] ab show ?thesis by auto
qed


section \<open>Hashing\<close>

lemma xor_push_inj:
  fixes x y :: "'a::len word"
  assumes "x XOR push_bit n x = y XOR push_bit n y" "0 < n"
  shows "x = y"
proof (rule bit_word_eqI)
  fix i assume "i < LENGTH('a)"
  then show "bit x i = bit y i"
  proof (induction i rule: less_induct)
    case (less i)
    have "bit (x XOR push_bit n x) i = bit (y XOR push_bit n y) i" by (simp only: assms(1))
    moreover have "n \<le> i \<Longrightarrow> bit x (i - n) = bit y (i - n)" using less assms(2) by simp
    ultimately show ?case using less.prems by (auto simp: bit_simps)
  qed
qed

lemma xor_drop_inj:
  fixes x y :: "'a::len word"
  assumes "x XOR drop_bit n x = y XOR drop_bit n y" "0 < n"
  shows "x = y"
proof (rule bit_word_eqI)
  fix i assume "i < LENGTH('a)"
  then show "bit x i = bit y i"
  proof (induction "LENGTH('a) - i" arbitrary: i rule: less_induct)
    case less
    have "bit (x XOR drop_bit n x) i = bit (y XOR drop_bit n y) i" by (simp only: assms(1))
    moreover have "bit x (n + i) = bit y (n + i)"
    proof (cases "n + i < LENGTH('a)")
      case True
      with less.hyps [of "n + i"] assms(2) show ?thesis by simp
    qed (use bit_imp_le_length [of x "n + i"] bit_imp_le_length [of y "n + i"] in auto)
    ultimately show ?case by (auto simp: bit_simps)
  qed
qed

text \<open>
  The hash of a number is a bijection of the 64-bit numbers: different numbers never collide.
\<close>

theorem hashInteger_injective:
  "hashInteger x = hashInteger y \<longleftrightarrow> x = y"
proof
  assume eq: "hashInteger x = hashInteger y"
  define c :: u64 where "c = 88172645463325252"
  define a where "a z = c XOR z" for z
  define b where "b z = a z XOR push_bit 13 (a z)" for z
  define d where "d z = b z XOR drop_bit 7 (b z)" for z
  have "d x XOR push_bit 17 (d x) = d y XOR push_bit 17 (d y)"
    using eq unfolding hashInteger_def Let_def d_def b_def a_def c_def by (simp only:)
  from xor_push_inj [OF this] have "b x XOR drop_bit 7 (b x) = b y XOR drop_bit 7 (b y)" by (simp add: d_def)
  from xor_drop_inj [OF this] have "a x XOR push_bit 13 (a x) = a y XOR push_bit 13 (a y)" by (simp add: b_def)
  from xor_push_inj [OF this] have "c XOR (c XOR x) = c XOR (c XOR y)" by (simp add: a_def)
  then show "x = y" by (simp add: xor.assoc [symmetric])
qed simp

lemma Text_same_bytes: "Text_same m (a, a') (b, b') \<Longrightarrow> Text_bytes m a a' = Text_bytes m b b'"
  by (auto simp: Text_same_def Text_bytes_def Let_def split: if_splits)

definition hash_respecting :: "memory \<Rightarrow> equals_method \<Rightarrow> bool" where
  "hash_respecting m eq \<longleftrightarrow> (\<forall>v w. eq v w = Inr True \<longrightarrow> Value_hash m v = Value_hash m w)"

lemmas class_equals = Integer_equals_def Numeric_equals_def Bool_equals_def Date_equals_def Timestamp_equals_def
  Text_equals_def Varchar_equals_def

lemmas class_hash = Integer_hash_def Numeric_hash_def Bool_hash_def Date_hash_def Timestamp_hash_def
  Text_hash_def Varchar_hash_def NullableValue_hash_def

lemma equals_with_hash: "hash_respecting m ne \<Longrightarrow> hash_respecting m (equals_with m ne)"
  unfolding hash_respecting_def
proof (intro allI impI)
  fix v w
  assume ne: "\<forall>v w. ne v w = Inr True \<longrightarrow> Value_hash m v = Value_hash m w" and eq: "equals_with m ne v w = Inr True"
  show "Value_hash m v = Value_hash m w"
    by (cases v; cases w)
      (use ne eq in \<open>force simp: equals_with_def class_equals class_hash bad_cast_def isNullable_def
        dest: Text_same_bytes split: if_splits\<close>)+
qed

lemma nullable_with_hash: "hash_respecting m eq \<Longrightarrow> hash_respecting m (nullable_with eq)"
  unfolding hash_respecting_def
proof (intro allI impI)
  fix v w
  assume eq: "\<forall>v w. eq v w = Inr True \<longrightarrow> Value_hash m v = Value_hash m w" and run: "nullable_with eq v w = Inr True"
  show "Value_hash m v = Value_hash m w"
  proof (cases "\<exists>u isNull. v = NNullable u isNull")
    case True
    with eq run show ?thesis
      by (auto simp: nullable_with_def NullableValue_equals_def NullableValue_hash_def split: if_splits)
  next
    case False
    then have "nullable_with eq v w = eq v w" by (auto simp: nullable_with_def split: NValue.splits)
    with eq run show ?thesis by simp
  qed
qed

text \<open>
  C23: values that compare equal have equal hashes, also when one of them is nullable or a text is kept in
  place and the other in the pool; without this the hash join and the grouping would miss matches.
\<close>

theorem equal_values_hash_equal:
  assumes "Value_equals m v w = Inr True"
  shows "Value_hash m v = Value_hash m w"
proof -
  have "hash_respecting m (Value_equals m)"
    unfolding Value_equals_def
    by (intro nullable_with_hash equals_with_hash) (simp add: hash_respecting_def)
  with assms show ?thesis by (simp add: hash_respecting_def)
qed

lemma equal_values_hash_equal_witness:
  "Value_hash (\<lambda>_. 0) (NNullable (NInteger 7) False) = Value_hash (\<lambda>_. 0) (NInteger 7)"
  by (rule equal_values_hash_equal) code_simp

section \<open>Printing and reading\<close>

lemma numeric_sep_power: "k + n \<le> 18 \<Longrightarrow> numeric_sep n (10 ^ k) = 10 ^ (k + n)"
proof (induction n arbitrary: k)
  case (Suc n)
  have "(10 :: int) ^ Suc k \<le> 10 ^ 18" using Suc.prems by (intro power_increasing) auto
  moreover have "wrap64 x = x" if "0 \<le> x" "x \<le> 10 ^ 18" for x
    using that by (intro wrap64_id) simp_all
  ultimately have "wrap64 (10 ^ Suc k) = 10 ^ Suc k" by (metis zero_le_numeral zero_le_power)
  with Suc.IH [of "Suc k"] Suc.prems show ?case by (simp add: mult.commute)
qed simp

lemma digit_char_0: "digit_char 0 = CHR ''0''"
  by code_simp

lemma numeric_zeros_text:
  assumes "n < 10 ^ Suc k" "k \<le> 16"
  shows "numeric_zeros k (10 ^ Suc k) (int n) @ show_nat n = fraction_text (Suc k) n"
  using assms
proof (induction k)
  case 0
  then show ?case by (auto simp: fraction_text_def show_nat.simps [of n] digit_char_0)
next
  case (Suc k)
  have "(10 :: nat) ^ Suc (Suc k) \<le> 10 ^ 17" using Suc.prems by (intro power_increasing) auto
  with Suc.prems(1) have "n < 10 ^ 17" by (rule less_le_trans)
  have int_n: "int n < 10 ^ Suc k \<longleftrightarrow> n < 10 ^ Suc k" by (metis of_nat_less_iff of_nat_numeral of_nat_power)
  from \<open>n < 10 ^ 17\<close> have wrap: "wrap64 (10 * int n) = 10 * int n" by (intro wrap64_id) simp_all
  show ?case
  proof (cases "n < 10 ^ Suc k")
    case True
    have "fraction_text (Suc (Suc k)) n = CHR ''0'' # fraction_text (Suc k) n"
      using show_nat_length [OF True] by (simp add: fraction_text_def Suc_diff_le)
    moreover have "10 * int n < 10 ^ Suc (Suc k)" "(10 :: int) ^ Suc (Suc k) sdiv 10 = 10 ^ Suc k"
      using int_n True by (simp_all add: signed_divide_int_def sgn_if)
    ultimately show ?thesis using Suc.IH [OF True] Suc.prems(2) by (simp add: wrap)
  next
    case False
    then have "\<not> 10 * int n < 10 ^ Suc (Suc k)" "n \<noteq> 0" "Suc (Suc k) \<le> length (show_nat n)"
      using int_n show_nat_length_ge [of "Suc k" n] by (simp_all, cases n) simp_all
    then show ?thesis by (simp add: wrap fraction_text_def)
  qed
qed

lemma Numeric_toString_text:
  assumes "\<bar>raw\<bar> < 10 ^ 18" "p \<le> 17"
  shows "Numeric_toString p raw = Inr (if p = 0 then show_int raw
    else (if raw < 0 then ''-'' else []) @ show_nat (nat \<bar>raw\<bar> div 10 ^ p) @ ''.'' @ fraction_text p (nat \<bar>raw\<bar> mod 10 ^ p))"
proof -
  define n where "n = nat \<bar>raw\<bar>"
  have v: "(if raw < 0 then (''-'', wrap64 (- raw)) else ([], raw)) = (if raw < 0 then ''-'' else [], int n)"
    using assms(1) by (auto simp: n_def wrap64_id)
  have sep: "numeric_sep p 1 = 10 ^ p" using numeric_sep_power [of 0 p] assms(2) by simp
  have dm: "int n sdiv 10 ^ p = int (n div 10 ^ p)" "int n smod 10 ^ p = int (n mod 10 ^ p)"
    by (simp_all add: signed_divide_int_def signed_modulo_int_def sgn_if zdiv_int minus_div_mult_eq_mod zmod_int)
  show ?thesis
  proof (cases p)
    case 0
    then show ?thesis
      using sep dm by (auto simp: Numeric_toString_def v show_int_def n_def)
  next
    case (Suc k)
    then have "numeric_zeros k (10 ^ p) (int (n mod 10 ^ p)) @ show_nat (n mod 10 ^ p) = fraction_text p (n mod 10 ^ p)"
      using numeric_zeros_text [of "n mod 10 ^ p" k] assms(2) by simp
    then show ?thesis
      unfolding n_def [symmetric] Numeric_toString_def v prod.case Let_def sep dm
      using Suc by (simp add: show_int_def)
  qed
qed

text \<open>
  C26: what COPY writes for an integer or a numeric is what COPY reads: the text of the value is cast to the
  same value, for every 32-bit integer and every numeric of up to eighteen digits and precision seventeen.
\<close>

theorem dumped_numbers_reload:
  assumes "case v of NInteger i \<Rightarrow> True
    | NNumeric t raw \<Rightarrow> ty_typeID t = NumericID \<and> \<not> ty_nullable t \<and> unat (numericLayout_precision t) \<le> 17
        \<and> \<bar>sint raw\<bar> < 10 ^ 18
    | _ \<Rightarrow> False"
  shows "\<exists>s. Value_toString m v = Inr s \<and> Value_castString c_str s (nv_type v) h = Inr (v, h)"
proof (cases v)
  case (NInteger i)
  have "- (2 ^ 31) \<le> sint i" "sint i < 2 ^ 31"
    using sint_greater_eq [of i] sint_lt [of i] by simp_all
  then have "\<bar>sint i\<bar> < 10 ^ 10" by simp
  with cast_show_int [of "sint i"] NInteger show ?thesis
    by (simp add: Value_toString_def class_cast typeIDs)
next
  case (NNumeric t raw)
  let ?p = "unat (numericLayout_precision t)" and ?n = "nat \<bar>sint raw\<bar>"
  from assms NNumeric have t: "ty_typeID t = NumericID" "\<not> ty_nullable t" "?p \<le> 17" "\<bar>sint raw\<bar> < 10 ^ 18" by auto
  have "castStringToNumericValue (if ?p = 0 then show_int (sint raw) else (if sint raw < 0 then ''-'' else []) @
      show_nat (?n div 10 ^ ?p) @ ''.'' @ fraction_text ?p (?n mod 10 ^ ?p)) len ?p = Inr (of_int (sint raw))" for len
  proof (cases "?p = 0")
    case False
    with read_numeric_text [of ?n ?p "sint raw < 0" len] t show ?thesis
      by (simp only: of_int_sign nat_less_iff) simp
  qed (use read_numeric_integer [OF t(4), of len] in simp)
  with t NNumeric Numeric_toString_text [OF t(4,3)] show ?thesis
    by (simp add: Value_toString_def class_cast)
qed (use assms in auto)

lemma dumped_numbers_reload_witness:
  "\<exists>s. Value_toString (\<lambda>_. 0) (NNumeric (getNumericTy 6 2 False) (- 1205)) = Inr s \<and>
     Value_castString 0 s (nv_type (NNumeric (getNumericTy 6 2 False) (- 1205))) \<lparr>hp_mem = (\<lambda>_. 0), hp_brk = 64\<rparr>
       = Inr (NNumeric (getNumericTy 6 2 False) (- 1205), \<lparr>hp_mem = (\<lambda>_. 0), hp_brk = 64\<rparr>)"
  by (rule dumped_numbers_reload) code_simp

text \<open>
  A boolean does not survive COPY: it is written as 1 or 0, and both are rejected when they are read.
\<close>

theorem dumped_booleans_do_not_reload:
  "\<exists>s. Value_toString m (NBool b) = Inr s \<and> Value_castString c_str s (getBoolTy False) h =
     Inl (InvalidOperation ''invalid string representation of a boolean value'')"
  by (simp add: Value_toString_def class_cast typeIDs)

end
