(* ===== verification/LogicalExpressions.thy ===== *)
theory LogicalExpressions
  imports TableStore
begin

text \<open>
  The expressions of the logical algebra: information units and their factory
  (foundations/InformationUnit.hpp, foundations/IUFactory.cpp), the classes of
  algebra/logical/expressions.hpp with the checks of their constructors, the inference of result
  types (sql/SqlOperators.cpp), the collection of the units an expression needs
  (algebra/logical/operators.cpp), and the translation to physical expressions
  (algebra/translation.cpp, algebra/physical/expressions.hpp).

  A pointer to an information unit is the index of the unit in the factory's vector, or \<open>None\<close> for a
  null pointer. \<^verbatim>\<open>Not\<close> is not a constructor: the class has no \<^verbatim>\<open>getType\<close> and cannot be
  instantiated.
\<close>

section \<open>Information units\<close>

datatype IUType = ColumnRef | ValueRef

record InformationUnit =
  iu_iuType :: IUType
  iu_sqlType :: SqlType
  iu_columnInformation :: "ColumnInformation option"
  iu_scanUID :: "u32 option"

type_synonym iu_p = "nat option"

record IUFactory =
  fa_operatorUID :: u32
  fa_iu_vec :: "InformationUnit list"

definition IUFactory_ctor :: IUFactory where
  "IUFactory_ctor = \<lparr>fa_operatorUID = 0, fa_iu_vec = []\<rparr>"

definition getUID :: "IUFactory \<Rightarrow> u32 \<times> IUFactory" where
  "getUID f = (fa_operatorUID f, f\<lparr>fa_operatorUID := fa_operatorUID f + 1\<rparr>)"

definition createIU_value :: "SqlType \<Rightarrow> IUFactory \<Rightarrow> iu_p \<times> IUFactory" where
  \<comment> \<open>the members that are not assigned have no value\<close>
  "createIU_value type f =
     (Some (length (fa_iu_vec f)),
      f\<lparr>fa_iu_vec := fa_iu_vec f @ [\<lparr>iu_iuType = ValueRef, iu_sqlType = type,
          iu_columnInformation = None, iu_scanUID = None\<rparr>]\<rparr>)"

definition createIU_column :: "u32 \<Rightarrow> ColumnInformation \<Rightarrow> IUFactory \<Rightarrow> iu_p \<times> IUFactory" where
  "createIU_column operatorUID ci f =
     (Some (length (fa_iu_vec f)),
      f\<lparr>fa_iu_vec := fa_iu_vec f @ [\<lparr>iu_iuType = ColumnRef, iu_sqlType = ci_type ci,
          iu_columnInformation = Some ci, iu_scanUID = Some operatorUID\<rparr>]\<rparr>)"

definition deref_iu :: "InformationUnit list \<Rightarrow> iu_p \<Rightarrow> InformationUnit result" where
  "deref_iu ius p = (case p of None \<Rightarrow> Inl MemFault
     | Some i \<Rightarrow> if i < length ius then Inr (ius ! i) else Inl MemFault)"

definition iu_getType :: "InformationUnit list \<Rightarrow> iu_p \<Rightarrow> SqlType result" where
  "iu_getType ius p = bind_res (deref_iu ius p) (\<lambda>iu. Inr (iu_sqlType iu))"

definition getColumnInformation :: "InformationUnit list \<Rightarrow> iu_p \<Rightarrow> ColumnInformation result" where
  "getColumnInformation ius p = bind_res (deref_iu ius p) (\<lambda>iu.
     if iu_iuType iu \<noteq> ColumnRef then Inl AssertFailed
     else case iu_columnInformation iu of None \<Rightarrow> Inl MemFault | Some ci \<Rightarrow> Inr ci)"

definition iu_isValid :: "iu_p \<Rightarrow> bool" where
  "iu_isValid p = (p \<noteq> None)"

section \<open>Types of results\<close>

datatype ComparisonMode = less | leq | eq | geq | gtr

definition SqlType_default :: SqlType where
  "SqlType_default = SqlType_ctor UnknownID True"

definition numeric_or_integer :: "SqlType \<Rightarrow> SqlType \<Rightarrow> SqlType option \<Rightarrow> SqlType option" where
  \<comment> \<open>the cascade that the inference functions share; the last argument is the type of the result of
     two decimals\<close>
  "numeric_or_integer lhs rhs numeric =
     map_option (\<lambda>r. r\<lparr>ty_nullable := ty_nullable lhs \<or> ty_nullable rhs\<rparr>)
       (if ty_typeID lhs = IntegerID \<and> ty_typeID rhs = IntegerID then Some lhs
        else if ty_typeID lhs = IntegerID \<and> ty_typeID rhs = NumericID then Some rhs
        else if ty_typeID lhs = NumericID \<and> ty_typeID rhs = IntegerID then Some lhs
        else if ty_typeID lhs = NumericID \<and> ty_typeID rhs = NumericID then numeric
        else None)"

definition greater_precision :: "SqlType \<Rightarrow> SqlType \<Rightarrow> SqlType" where
  "greater_precision lhs rhs =
     (if numericLayout_precision lhs > numericLayout_precision rhs then lhs else rhs)"

definition inferAddTy :: "SqlType \<Rightarrow> SqlType \<Rightarrow> SqlType option" where
  "inferAddTy lhs rhs =
     (if ty_typeID lhs = UnknownID \<and> ty_typeID rhs = UnknownID then Some lhs
      else let lhs' = (if ty_typeID lhs = UnknownID then rhs\<lparr>ty_nullable := True\<rparr> else lhs);
               rhs' = (if ty_typeID lhs \<noteq> UnknownID \<and> ty_typeID rhs = UnknownID
                       then lhs\<lparr>ty_nullable := True\<rparr> else rhs)
           in numeric_or_integer lhs' rhs' (Some (greater_precision lhs' rhs')))"

definition inferSubTy :: "SqlType \<Rightarrow> SqlType \<Rightarrow> SqlType option" where
  "inferSubTy lhs rhs = inferAddTy lhs rhs"

definition inferMulTy :: "SqlType \<Rightarrow> SqlType \<Rightarrow> SqlType option" where
  "inferMulTy lhs rhs =
     (let lp = numericLayout_precision lhs; rp = numericLayout_precision rhs;
          ll = numericLayout_length lhs; rl = numericLayout_length rhs;
          precision = lp + rp;
          len = (if ll > rl then ll + (precision - lp)
                 else if ll < rl then rl + (precision - rp)
                 else ll + rl)
      in numeric_or_integer lhs rhs (Some (getNumericTy len precision False)))"

definition inferDivTy :: "SqlType \<Rightarrow> SqlType \<Rightarrow> SqlType option" where
  "inferDivTy lhs rhs = numeric_or_integer lhs rhs (Some (greater_precision lhs rhs))"

definition inferCompareTy :: "SqlType \<Rightarrow> SqlType \<Rightarrow> SqlType option" where
  "inferCompareTy lhs rhs =
     (if \<not> SqlType_equals lhs rhs WithoutNullable then None
      else Some (getBoolTy (ty_nullable lhs \<or> ty_nullable rhs)))"

section \<open>Expressions\<close>

datatype expression =
    Cast expression SqlType
  | And expression expression SqlType
  | Or expression expression SqlType
  | Addition expression expression SqlType
  | Subtraction expression expression SqlType
  | Multiplication expression expression SqlType
  | Division expression expression SqlType
  | Comparison ComparisonMode expression expression SqlType
  | Identifier iu_p
  | Constant string SqlType
  | NullConstant

fun getType :: "InformationUnit list \<Rightarrow> expression \<Rightarrow> SqlType result" where
  "getType ius (Cast child destType) = Inr destType"
| "getType ius (And left right type) = Inr type"
| "getType ius (Or left right type) = Inr type"
| "getType ius (Addition left right type) = Inr type"
| "getType ius (Subtraction left right type) = Inr type"
| "getType ius (Multiplication left right type) = Inr type"
| "getType ius (Division left right type) = Inr type"
| "getType ius (Comparison mode left right type) = Inr type"
| "getType ius (Identifier iu) = iu_getType ius iu"
| "getType ius (Constant val type) = Inr type"
| "getType ius NullConstant = Inr getUnknownTy"

definition require_bools :: "InformationUnit list \<Rightarrow> string \<Rightarrow> expression \<Rightarrow> expression \<Rightarrow> unit result" where
  \<comment> \<open>the check of the constructors of And and Or\<close>
  "require_bools ius message left right =
     bind_res (getType ius left) (\<lambda>tl.
       if ty_typeID tl \<noteq> BoolID then Inl (ArithmeticException message)
       else bind_res (getType ius right) (\<lambda>tr.
         if ty_typeID tr \<noteq> BoolID then Inl (ArithmeticException message) else Inr ()))"

definition And_ctor :: "InformationUnit list \<Rightarrow> expression \<Rightarrow> expression \<Rightarrow> expression result" where
  \<comment> \<open>\<^verbatim>\<open>_type\<close> is not assigned: it keeps the value of the default constructor\<close>
  "And_ctor ius left right =
     bind_res (require_bools ius (CHR 0x27 # ''and'' @ CHR 0x27 # '' requires boolean arguments'') left right)
       (\<lambda>_. Inr (And left right SqlType_default))"

definition Or_ctor :: "InformationUnit list \<Rightarrow> expression \<Rightarrow> expression \<Rightarrow> expression result" where
  "Or_ctor ius left right =
     bind_res (require_bools ius (CHR 0x27 # ''or'' @ CHR 0x27 # '' requires boolean arguments'') left right)
       (\<lambda>_. Inr (Or left right SqlType_default))"

definition arithmetic_ctor :: "(SqlType \<Rightarrow> SqlType \<Rightarrow> SqlType option) \<Rightarrow> string \<Rightarrow>
    (expression \<Rightarrow> expression \<Rightarrow> SqlType \<Rightarrow> expression) \<Rightarrow>
    InformationUnit list \<Rightarrow> expression \<Rightarrow> expression \<Rightarrow> expression result" where
  \<comment> \<open>the body the four arithmetic constructors have in common\<close>
  "arithmetic_ctor infer operator con ius left right =
     bind_res (getType ius left) (\<lambda>tl. bind_res (getType ius right) (\<lambda>tr.
       case infer tl tr of
         None \<Rightarrow> Inl (ArithmeticException (CHR 0x27 # operator @ CHR 0x27 # '' requires numerical arguments''))
       | Some type \<Rightarrow>
           if \<not> sameTypeID type tl
           then (let newLeft = Cast left tr
                 in case infer tr tr of
                      None \<Rightarrow> Inl AssertFailed
                    | Some type' \<Rightarrow> Inr (con newLeft right type'))
           else if \<not> sameTypeID type tr
           then (let newRight = Cast right tl
                 in case infer tl tl of
                      None \<Rightarrow> Inl AssertFailed
                    | Some type' \<Rightarrow> Inr (con left newRight type'))
           else Inr (con left right type)))"

definition Addition_ctor :: "InformationUnit list \<Rightarrow> expression \<Rightarrow> expression \<Rightarrow> expression result" where
  "Addition_ctor = arithmetic_ctor inferAddTy ''+'' Addition"

definition Subtraction_ctor :: "InformationUnit list \<Rightarrow> expression \<Rightarrow> expression \<Rightarrow> expression result" where
  "Subtraction_ctor = arithmetic_ctor inferSubTy ''-'' Subtraction"

definition Multiplication_ctor :: "InformationUnit list \<Rightarrow> expression \<Rightarrow> expression \<Rightarrow> expression result" where
  "Multiplication_ctor = arithmetic_ctor inferMulTy ''*'' Multiplication"

definition Division_ctor :: "InformationUnit list \<Rightarrow> expression \<Rightarrow> expression \<Rightarrow> expression result" where
  "Division_ctor = arithmetic_ctor inferDivTy ''/'' Division"

definition Comparison_ctor :: "ComparisonMode \<Rightarrow> InformationUnit list \<Rightarrow> expression \<Rightarrow> expression \<Rightarrow>
    expression result" where
  "Comparison_ctor mode ius left right =
     bind_res (getType ius left) (\<lambda>tl. bind_res (getType ius right) (\<lambda>tr.
       case inferCompareTy tl tr of
         None \<Rightarrow> Inl (ArithmeticException (''cannot compare '' @ CHR 0x27 # getName tl @ CHR 0x27 # '' and ''
                   @ CHR 0x27 # getName tr @ CHR 0x27 # ''.''))
       | Some type \<Rightarrow> Inr (Comparison mode left right type)))"

fun collectRequired :: "expression \<Rightarrow> iu_p set result" where
  \<comment> \<open>the visitor has no case for And and Or: their accept calls the visit of the base class\<close>
  "collectRequired (Cast child destType) = collectRequired child"
| "collectRequired (And left right type) = Inl Unreachable"
| "collectRequired (Or left right type) = Inl Unreachable"
| "collectRequired (Addition left right type) =
     bind_res (collectRequired left) (\<lambda>l. bind_res (collectRequired right) (\<lambda>r. Inr (l \<union> r)))"
| "collectRequired (Subtraction left right type) =
     bind_res (collectRequired left) (\<lambda>l. bind_res (collectRequired right) (\<lambda>r. Inr (l \<union> r)))"
| "collectRequired (Multiplication left right type) =
     bind_res (collectRequired left) (\<lambda>l. bind_res (collectRequired right) (\<lambda>r. Inr (l \<union> r)))"
| "collectRequired (Division left right type) =
     bind_res (collectRequired left) (\<lambda>l. bind_res (collectRequired right) (\<lambda>r. Inr (l \<union> r)))"
| "collectRequired (Comparison mode left right type) =
     bind_res (collectRequired left) (\<lambda>l. bind_res (collectRequired right) (\<lambda>r. Inr (l \<union> r)))"
| "collectRequired (Identifier iu) = Inr {iu}"
| "collectRequired (Constant val type) = Inr {}"
| "collectRequired NullConstant = Inr {}"

end
