(* ===== verification/LogicalOperators.thy ===== *)
theory LogicalOperators
  imports LogicalExpressions
begin

text \<open>
  The operators of the logical algebra, algebra/logical/operators.cpp and operators.hpp: the tree of
  a statement, the information units each operator produces, and the units it requires from its
  children. A table is referred to by its name; \<open>'t\<close> is the type of the tuples an insert carries.

  The code keeps the sets in the operators and fills them by two traversals from the root. The
  produced units are created by a factory the first time they are asked for, so the tree stores
  them where they are created (in a scan and in an aggregator), and the produced set of every other
  operator is computed from there. The required sets depend on the parent and are a tree of their
  own, of the shape of the operators. \<^verbatim>\<open>Map\<close> is not a constructor: the class defines none of its
  virtual functions and cannot be instantiated.
\<close>

section \<open>Operators\<close>

record LogicalScan =
  sc_uid :: u32
  sc_table :: string
  sc_branchId :: branch_id_t
  sc_produced :: "iu_p set"

datatype aggregation = Keep iu_p | Sum expression | Avg expression | CountAll | Min expression

record Aggregator =
  ag_fun :: aggregation
  ag_produced :: "iu_p option"

datatype 't operator =
    TableScan LogicalScan
  | Select "'t operator" expression
  | Join "'t operator" "'t operator" "expression list"
  | GroupBy "'t operator" "Aggregator list"
  | Delete "'t operator" iu_p string branch_id_t
  | Insert string "'t list" branch_id_t
  | Update "'t operator" "(iu_p \<times> string) list" string branch_id_t
  | Result "'t operator" "iu_p list"

fun arity :: "'t operator \<Rightarrow> nat" where
  "arity (TableScan s) = 0"
| "arity (Insert table tuples branchId) = 0"
| "arity (Join l r exprs) = 2"
| "arity _ = 1"

definition TableScan_new :: "string \<Rightarrow> branch_id_t \<Rightarrow> IUFactory \<Rightarrow> LogicalScan \<times> IUFactory" where
  "TableScan_new table branchId f =
     (let (uid, f') = getUID f
      in (\<lparr>sc_uid = uid, sc_table = table, sc_branchId = branchId, sc_produced = {}\<rparr>, f'))"

definition Avg_ctor :: "InformationUnit list \<Rightarrow> expression \<Rightarrow> aggregation result" where
  "Avg_ctor ius e =
     bind_res (getType ius e) (\<lambda>type.
       if ty_typeID type = NumericID then Inr (Avg e)
       else Inr (Avg (Cast e (getNumericFullLengthTy 4 False))))"

section \<open>Produced units\<close>

definition tid_columnInformation :: ColumnInformation where
  \<comment> \<open>the column that the constructor of every table makes for the tid\<close>
  "tid_columnInformation =
     \<lparr>ci_columnName = ''tid'', ci_type = getLongIntegerTy False, ci_nullColumnIndex = None\<rparr>"

fun create_scan_ius :: "u32 \<Rightarrow> ColumnInformation list \<Rightarrow> IUFactory \<Rightarrow> iu_p list \<times> IUFactory" where
  "create_scan_ius uid [] f = ([], f)"
| "create_scan_ius uid (ci # cis) f =
     (let (iu, f') = createIU_column uid ci f; (ius, f'') = create_scan_ius uid cis f' in (iu # ius, f''))"

definition TableScan_computeProduced :: "'v Table \<Rightarrow> LogicalScan \<Rightarrow> IUFactory \<Rightarrow>
    (LogicalScan \<times> IUFactory) result" where
  "TableScan_computeProduced t s f =
     (if sc_produced s \<noteq> {} then Inr (s, f)
      else bind_res (mapM_res (Table_getCI t) (Table_getColumnNames t)) (\<lambda>cis.
        let (ius, f') = create_scan_ius (sc_uid s) (cis @ [tid_columnInformation]) f
        in Inr (s\<lparr>sc_produced := set ius\<rparr>, f')))"

definition getResultType :: "InformationUnit list \<Rightarrow> aggregation \<Rightarrow> SqlType result" where
  "getResultType ius a = (case a of
       Keep iu \<Rightarrow> iu_getType ius iu
     | Sum e \<Rightarrow> getType ius e
     | Avg e \<Rightarrow> getType ius e
     | CountAll \<Rightarrow> Inr (getIntegerTy False)
     | Min e \<Rightarrow> getType ius e)"

definition Aggregator_getProduced :: "Aggregator \<Rightarrow> IUFactory \<Rightarrow> (Aggregator \<times> IUFactory) result" where
  "Aggregator_getProduced a f =
     (case ag_produced a of
        Some _ \<Rightarrow> Inr (a, f)
      | None \<Rightarrow> bind_res (getResultType (fa_iu_vec f) (ag_fun a)) (\<lambda>type.
          let (iu, f') = createIU_value type f in Inr (a\<lparr>ag_produced := Some iu\<rparr>, f')))"

fun aggregators_getProduced :: "Aggregator list \<Rightarrow> IUFactory \<Rightarrow> (Aggregator list \<times> IUFactory) result" where
  "aggregators_getProduced [] f = Inr ([], f)"
| "aggregators_getProduced (a # as) f =
     bind_res (Aggregator_getProduced a f) (\<lambda>(a', f').
       bind_res (aggregators_getProduced as f') (\<lambda>(as', f''). Inr (a' # as', f'')))"

fun updateProducedSetsTraverser :: "(string \<Rightarrow> 'v Table option) \<Rightarrow> 't operator \<Rightarrow> IUFactory \<Rightarrow>
    ('t operator \<times> IUFactory) result" where
  "updateProducedSetsTraverser tables (TableScan s) f =
     (case tables (sc_table s) of
        None \<Rightarrow> Inl MemFault
      | Some t \<Rightarrow> bind_res (TableScan_computeProduced t s f) (\<lambda>(s', f'). Inr (TableScan s', f')))"
| "updateProducedSetsTraverser tables (Insert table tuples branchId) f = Inr (Insert table tuples branchId, f)"
| "updateProducedSetsTraverser tables (Select child e) f =
     bind_res (updateProducedSetsTraverser tables child f) (\<lambda>(child', f'). Inr (Select child' e, f'))"
| "updateProducedSetsTraverser tables (Join l r exprs) f =
     bind_res (updateProducedSetsTraverser tables l f) (\<lambda>(l', f').
       bind_res (updateProducedSetsTraverser tables r f') (\<lambda>(r', f''). Inr (Join l' r' exprs, f'')))"
| "updateProducedSetsTraverser tables (GroupBy child aggs) f =
     bind_res (updateProducedSetsTraverser tables child f) (\<lambda>(child', f').
       bind_res (aggregators_getProduced aggs f') (\<lambda>(aggs', f''). Inr (GroupBy child' aggs', f'')))"
| "updateProducedSetsTraverser tables (Delete child tidIU table branchId) f =
     bind_res (updateProducedSetsTraverser tables child f) (\<lambda>(child', f'). Inr (Delete child' tidIU table branchId, f'))"
| "updateProducedSetsTraverser tables (Update child pairs table branchId) f =
     bind_res (updateProducedSetsTraverser tables child f) (\<lambda>(child', f'). Inr (Update child' pairs table branchId, f'))"
| "updateProducedSetsTraverser tables (Result child selection) f =
     bind_res (updateProducedSetsTraverser tables child f) (\<lambda>(child', f'). Inr (Result child' selection, f'))"

fun produced :: "'t operator \<Rightarrow> iu_p set" where
  \<comment> \<open>the sets after the traversal\<close>
  "produced (TableScan s) = sc_produced s"
| "produced (Select child e) = produced child"
| "produced (Join l r exprs) = produced l \<union> produced r"
| "produced (GroupBy child aggs) = {iu. Some iu \<in> ag_produced ` set aggs}"
| "produced (Delete child tidIU table branchId) = {}"
| "produced (Insert table tuples branchId) = {}"
| "produced (Update child pairs table branchId) = {}"
| "produced (Result child selection) = {}"

section \<open>Required units\<close>

definition computeExpected :: "(iu_p set \<times> nat) option \<Rightarrow> iu_p set \<Rightarrow> iu_p set" where
  \<comment> \<open>from the required set and the arity of the parent, and the produced set of the child\<close>
  "computeExpected parent child_produced =
     (case parent of
        None \<Rightarrow> {}
      | Some (parentRequired, n) \<Rightarrow> if n > 1 then parentRequired \<inter> child_produced else parentRequired)"

definition collectAll :: "expression list \<Rightarrow> iu_p set result" where
  "collectAll exprs = bind_res (mapM_res collectRequired exprs) (\<lambda>sets. Inr (\<Union> (set sets)))"

definition Aggregator_getRequired :: "Aggregator \<Rightarrow> iu_p set result" where
  "Aggregator_getRequired a = (case ag_fun a of
       Keep iu \<Rightarrow> Inr {iu}
     | Sum e \<Rightarrow> collectRequired e
     | Avg e \<Rightarrow> collectRequired e
     | CountAll \<Rightarrow> Inr {}
     | Min e \<Rightarrow> collectRequired e)"

definition computeRequired :: "(iu_p set \<times> nat) option \<Rightarrow> 't operator \<Rightarrow> iu_p set result" where
  "computeRequired parent node = (case node of
       TableScan s \<Rightarrow> Inr (computeExpected parent (produced node))
     | Select child e \<Rightarrow>
         bind_res (collectRequired e) (\<lambda>expRequired. Inr (computeExpected parent (produced node) \<union> expRequired))
     | Join l r exprs \<Rightarrow>
         bind_res (collectAll exprs) (\<lambda>exprRequired. Inr (computeExpected parent (produced node) \<union> exprRequired))
     | GroupBy child aggs \<Rightarrow>
         bind_res (mapM_res Aggregator_getRequired aggs) (\<lambda>sets. Inr (\<Union> (set sets)))
     | Delete child tidIU table branchId \<Rightarrow> Inr {tidIU}
     | Insert table tuples branchId \<Rightarrow> Inr {}
     | Update child pairs table branchId \<Rightarrow> Inr (fst ` set pairs)
     | Result child selection \<Rightarrow> Inr (set selection))"

datatype req_tree = Req (rq_required: "iu_p set") (rq_left: "iu_p set") (rq_right: "iu_p set")
    (rq_children: "req_tree list")

definition unaryRequired :: "iu_p set result \<Rightarrow> (iu_p set \<Rightarrow> req_tree result) \<Rightarrow> req_tree result" where
  \<comment> \<open>UnaryOperator::updateRequiredSetsTraverser\<close>
  "unaryRequired own below =
     bind_res own (\<lambda>r. bind_res (below r) (\<lambda>c. Inr (Req r {} {} [c])))"

fun updateRequiredSetsTraverser :: "(iu_p set \<times> nat) option \<Rightarrow> 't operator \<Rightarrow> req_tree result" where
  "updateRequiredSetsTraverser parent (TableScan s) =
     bind_res (computeRequired parent (TableScan s :: 't operator)) (\<lambda>r. Inr (Req r {} {} []))"
| "updateRequiredSetsTraverser parent (Insert table tuples branchId) =
     bind_res (computeRequired parent (Insert table tuples branchId)) (\<lambda>r. Inr (Req r {} {} []))"
| "updateRequiredSetsTraverser parent (Join l r exprs) =
     bind_res (computeRequired parent (Join l r exprs)) (\<lambda>q.
       bind_res (updateRequiredSetsTraverser (Some (q, 2)) l) (\<lambda>L.
         bind_res (updateRequiredSetsTraverser (Some (q, 2)) r) (\<lambda>R.
           Inr (Req q (q \<inter> rq_required L) (q \<inter> rq_required R) [L, R]))))"
| "updateRequiredSetsTraverser parent (Select child e) =
     unaryRequired (computeRequired parent (Select child e)) (\<lambda>r. updateRequiredSetsTraverser (Some (r, 1)) child)"
| "updateRequiredSetsTraverser parent (GroupBy child aggs) =
     unaryRequired (computeRequired parent (GroupBy child aggs)) (\<lambda>r. updateRequiredSetsTraverser (Some (r, 1)) child)"
| "updateRequiredSetsTraverser parent (Delete child tidIU table branchId) =
     unaryRequired (computeRequired parent (Delete child tidIU table branchId))
       (\<lambda>r. updateRequiredSetsTraverser (Some (r, 1)) child)"
| "updateRequiredSetsTraverser parent (Update child pairs table branchId) =
     unaryRequired (computeRequired parent (Update child pairs table branchId))
       (\<lambda>r. updateRequiredSetsTraverser (Some (r, 1)) child)"
| "updateRequiredSetsTraverser parent (Result child selection) =
     unaryRequired (computeRequired parent (Result child selection))
       (\<lambda>r. updateRequiredSetsTraverser (Some (r, 1)) child)"

definition getRequired :: "'t operator \<Rightarrow> req_tree result" where
  \<comment> \<open>the sets of a whole tree, from its root\<close>
  "getRequired root = updateRequiredSetsTraverser None root"

fun verify_node :: "'t operator \<Rightarrow> req_tree \<Rightarrow> bool" where
  \<comment> \<open>the visitor Verifier\<close>
  "verify_node (TableScan s) rt = True"
| "verify_node (Insert table tuples branchId) rt = True"
| "verify_node (Join l r exprs) rt =
     (rq_required rt \<subseteq> produced l \<and> rq_required rt \<subseteq> produced r
      \<and> verify_node l (rq_children rt ! 0) \<and> verify_node r (rq_children rt ! 1))"
| "verify_node (Select child e) rt = (rq_required rt \<subseteq> produced child \<and> verify_node child (rq_children rt ! 0))"
| "verify_node (GroupBy child aggs) rt = (rq_required rt \<subseteq> produced child \<and> verify_node child (rq_children rt ! 0))"
| "verify_node (Delete child tidIU table branchId) rt =
     (rq_required rt \<subseteq> produced child \<and> verify_node child (rq_children rt ! 0))"
| "verify_node (Update child pairs table branchId) rt =
     (rq_required rt \<subseteq> produced child \<and> verify_node child (rq_children rt ! 0))"
| "verify_node (Result child selection) rt =
     (rq_required rt \<subseteq> produced child \<and> verify_node child (rq_children rt ! 0))"

definition verifyDependencies :: "'t operator \<Rightarrow> bool result" where
  "verifyDependencies root = bind_res (getRequired root) (\<lambda>rt. Inr (verify_node root rt))"

end
