(* ===== verification/AlgebraProperties.thy ===== *)
theory AlgebraProperties
  imports LogicalOperators
begin

text \<open>
  Properties of the logical algebra: the constructors of expressions keep the types that the
  physical operators assert, the traversal of a well-formed tree gives every operator the units it
  needs, and where the code falls short of that.
\<close>

section \<open>The units of a tree\<close>

text \<open>
  A tree is well formed when every operator uses units that its children produce. The two sides of a
  join must pass on the units they receive: a scan, a selection or another join.
\<close>

definition units_within :: "iu_p set result \<Rightarrow> iu_p set \<Rightarrow> bool" where
  "units_within used available = (case used of Inl _ \<Rightarrow> False | Inr s \<Rightarrow> s \<subseteq> available)"

lemma units_within_Inr: "units_within used available \<longleftrightarrow> (\<exists>s. used = Inr s \<and> s \<subseteq> available)"
  by (auto simp: units_within_def split: sum.splits)

fun passes_on :: "'t operator \<Rightarrow> bool" where
  "passes_on (TableScan s) = True"
| "passes_on (Select child e) = True"
| "passes_on (Join l r exprs) = True"
| "passes_on _ = False"

fun tree_ok :: "'t operator \<Rightarrow> bool" where
  "tree_ok (TableScan s) = True"
| "tree_ok (Insert table tuples branchId) = True"
| "tree_ok (Select child e) = (tree_ok child \<and> units_within (collectRequired e) (produced child))"
| "tree_ok (Join l r exprs) = (tree_ok l \<and> tree_ok r \<and> passes_on l \<and> passes_on r
     \<and> units_within (collectAll exprs) (produced l \<union> produced r))"
| "tree_ok (GroupBy child aggs) = (tree_ok child
     \<and> units_within (bind_res (mapM_res Aggregator_getRequired aggs) (\<lambda>sets. Inr (\<Union> (set sets)))) (produced child))"
| "tree_ok (Delete child tidIU table branchId) = (tree_ok child \<and> tidIU \<in> produced child)"
| "tree_ok (Update child pairs table branchId) = (tree_ok child \<and> fst ` set pairs \<subseteq> produced child)"
| "tree_ok (Result child selection) = (tree_ok child \<and> set selection \<subseteq> produced child)"

fun supplied :: "'t operator \<Rightarrow> req_tree \<Rightarrow> bool" where
  \<comment> \<open>every operator receives the units it requires, and a join splits them by the side they come from\<close>
  "supplied (TableScan s) rt = (rq_required rt \<subseteq> sc_produced s)"
| "supplied (Insert table tuples branchId) rt = (rq_required rt = {})"
| "supplied (Join l r exprs) rt =
     (rq_required rt \<subseteq> produced l \<union> produced r
      \<and> rq_left rt = rq_required rt \<inter> produced l \<and> rq_right rt = rq_required rt \<inter> produced r
      \<and> (\<exists>L R. rq_children rt = [L, R] \<and> supplied l L \<and> supplied r R))"
| "supplied (Select child e) rt =
     (rq_required rt \<subseteq> produced child \<and> (\<exists>c. rq_children rt = [c] \<and> supplied child c))"
| "supplied (GroupBy child aggs) rt =
     (rq_required rt \<subseteq> produced child \<and> (\<exists>c. rq_children rt = [c] \<and> supplied child c))"
| "supplied (Delete child tidIU table branchId) rt =
     (rq_required rt \<subseteq> produced child \<and> (\<exists>c. rq_children rt = [c] \<and> supplied child c))"
| "supplied (Update child pairs table branchId) rt =
     (rq_required rt \<subseteq> produced child \<and> (\<exists>c. rq_children rt = [c] \<and> supplied child c))"
| "supplied (Result child selection) rt =
     (rq_required rt \<subseteq> produced child \<and> (\<exists>c. rq_children rt = [c] \<and> supplied child c))"

definition demand_ok :: "(iu_p set \<times> nat) option \<Rightarrow> 't operator \<Rightarrow> bool" where
  \<comment> \<open>what the parent asks of an operator that passes units on\<close>
  "demand_ok parent node = (case parent of None \<Rightarrow> True
     | Some (q, n) \<Rightarrow> passes_on node \<longrightarrow> n > 1 \<or> q \<subseteq> produced node)"

lemma computeExpected_within:
  assumes "demand_ok parent node" "passes_on node"
  shows "computeExpected parent (produced node) \<subseteq> produced node"
  using assms by (auto simp: demand_ok_def computeExpected_def split: option.splits prod.splits)

lemma computeExpected_meets: "q \<inter> computeExpected (Some (q, n)) P \<supseteq> q \<inter> P"
  by (auto simp: computeExpected_def)

definition serves :: "(iu_p set \<times> nat) option \<Rightarrow> 't operator \<Rightarrow> req_tree \<Rightarrow> bool" where
  "serves parent node rt \<longleftrightarrow> supplied node rt
     \<and> (passes_on node \<longrightarrow> rq_required rt \<subseteq> produced node
          \<and> (\<forall>q n. parent = Some (q, n) \<longrightarrow> q \<inter> produced node \<subseteq> rq_required rt))"

lemma unaryRequired_Inr:
  assumes "own = Inr q" "\<exists>c. below q = Inr c \<and> P c"
  shows "\<exists>c. unaryRequired own below = Inr (Req q {} {} [c]) \<and> P c"
  using assms by (auto simp: unaryRequired_def)

lemma traversal_serves:
  assumes "tree_ok node" "demand_ok parent node"
  shows "\<exists>rt. updateRequiredSetsTraverser parent node = Inr rt \<and> serves parent node rt"
  using assms
proof (induction node arbitrary: parent)
  case (TableScan s)
  then show ?case
    using computeExpected_within [OF TableScan.prems(2)]
    by (auto simp: computeRequired_def serves_def computeExpected_def)
next
  case (Insert table tuples branchId)
  then show ?case by (simp add: computeRequired_def serves_def)
next
  case (Select child e)
  then obtain s where s: "collectRequired e = Inr s" "s \<subseteq> produced child"
    by (auto simp: units_within_Inr)
  define q where "q = computeExpected parent (produced child) \<union> s"
  have sub: "q \<subseteq> produced child"
    using computeExpected_within [OF Select.prems(2)] s(2) by (simp add: q_def)
  then have "demand_ok (Some (q, 1)) child" by (simp add: demand_ok_def)
  from Select.IH [OF _ this] Select.prems(1) obtain c where
    c: "updateRequiredSetsTraverser (Some (q, 1)) child = Inr c" "serves (Some (q, 1)) child c" by auto
  have "updateRequiredSetsTraverser parent (Select child e) = Inr (Req q {} {} [c])"
    using s(1) c(1) by (simp add: unaryRequired_def computeRequired_def q_def)
  moreover have "\<forall>q' n. parent = Some (q', n) \<longrightarrow> q' \<inter> produced child \<subseteq> q"
    by (auto simp: q_def computeExpected_def)
  ultimately show ?case using c(2) sub by (simp add: serves_def)
next
  case (Join l r exprs)
  then obtain s where s: "collectAll exprs = Inr s" "s \<subseteq> produced l \<union> produced r"
    by (auto simp: units_within_Inr)
  define q where "q = computeExpected parent (produced l \<union> produced r) \<union> s"
  have sub: "q \<subseteq> produced l \<union> produced r"
    using computeExpected_within [OF Join.prems(2)] s(2) by (simp add: q_def)
  have "demand_ok (Some (q, 2)) l" "demand_ok (Some (q, 2)) r" by (simp_all add: demand_ok_def)
  with Join.IH Join.prems(1) obtain L R where
    L: "updateRequiredSetsTraverser (Some (q, 2)) l = Inr L" "serves (Some (q, 2)) l L" and
    R: "updateRequiredSetsTraverser (Some (q, 2)) r = Inr R" "serves (Some (q, 2)) r R" by (metis tree_ok.simps(4))
  have "updateRequiredSetsTraverser parent (Join l r exprs) = Inr (Req q (q \<inter> rq_required L) (q \<inter> rq_required R) [L, R])"
    using s(1) L(1) R(1) by (simp add: computeRequired_def q_def)
  moreover have "\<forall>q' n. parent = Some (q', n) \<longrightarrow> q' \<inter> (produced l \<union> produced r) \<subseteq> q"
    by (auto simp: q_def computeExpected_def)
  moreover have "q \<inter> rq_required L = q \<inter> produced l" "q \<inter> rq_required R = q \<inter> produced r"
    using L(2) R(2) Join.prems(1) by (auto simp: serves_def)
  ultimately show ?case using L(2) R(2) sub by (simp add: serves_def)
next
  case (GroupBy child aggs)
  then obtain q where q: "computeRequired parent (GroupBy child aggs) = Inr q" "q \<subseteq> produced child"
    by (auto simp: units_within_Inr computeRequired_def)
  then have "demand_ok (Some (q, 1)) child" by (simp add: demand_ok_def)
  from GroupBy.IH [OF _ this] GroupBy.prems(1) obtain c where
    "updateRequiredSetsTraverser (Some (q, 1)) child = Inr c" "serves (Some (q, 1)) child c" by auto
  then show ?case using q by (simp add: unaryRequired_def serves_def)
next
  case (Delete child tidIU table branchId)
  then have "demand_ok (Some ({tidIU}, 1)) child" by (simp add: demand_ok_def)
  from Delete.IH [OF _ this] Delete.prems(1) obtain c where
    "updateRequiredSetsTraverser (Some ({tidIU}, 1)) child = Inr c" "serves (Some ({tidIU}, 1)) child c" by auto
  then show ?case using Delete.prems(1) by (simp add: unaryRequired_def serves_def computeRequired_def)
next
  case (Update child pairs table branchId)
  then have "demand_ok (Some (fst ` set pairs, 1)) child" by (simp add: demand_ok_def)
  from Update.IH [OF _ this] Update.prems(1) obtain c where
    "updateRequiredSetsTraverser (Some (fst ` set pairs, 1)) child = Inr c"
    "serves (Some (fst ` set pairs, 1)) child c" by auto
  then show ?case using Update.prems(1) by (simp add: unaryRequired_def serves_def computeRequired_def)
next
  case (Result child selection)
  then have "demand_ok (Some (set selection, 1)) child" by (simp add: demand_ok_def)
  from Result.IH [OF _ this] Result.prems(1) obtain c where
    "updateRequiredSetsTraverser (Some (set selection, 1)) child = Inr c"
    "serves (Some (set selection, 1)) child c" by auto
  then show ?case using Result.prems(1) by (simp add: unaryRequired_def serves_def computeRequired_def)
qed

text \<open>C38: a tree whose operators only use units that their children produce, and in which both sides of
  every join are scans, selections or joins (\<open>tree_ok\<close>), is supplied completely: the traversal of the required sets succeeds, no operator requires a unit it does not receive, no
  scan is asked for a unit of another relation, and a join divides what it requires exactly between
  its two sides.\<close>

theorem required_units_supplied:
  assumes "tree_ok root"
  shows "\<exists>rt. getRequired root = Inr rt \<and> supplied root rt"
  using traversal_serves [OF assms, of None] by (auto simp: getRequired_def serves_def demand_ok_def)

text \<open>A join of two tables and a selection, with the units of the two scans.\<close>

definition ex_scan :: "string \<Rightarrow> nat set \<Rightarrow> 't operator" where
  "ex_scan table units = TableScan \<lparr>sc_uid = 0, sc_table = table, sc_branchId = 0, sc_produced = Some ` units\<rparr>"

definition ex_equal :: "nat \<Rightarrow> nat \<Rightarrow> expression" where
  "ex_equal a b = Comparison eq (Identifier (Some a)) (Identifier (Some b)) (getBoolTy False)"

definition ex_join :: "unit operator" where
  "ex_join = Result (Join (Select (ex_scan ''t'' {0, 1}) (Comparison eq (Identifier (Some 1))
       (Constant ''7'' (getIntegerTy False)) (getBoolTy False))) (ex_scan ''s'' {2, 3}) [ex_equal 0 2]) [Some 3]"

lemma required_units_supplied_witness:
  "\<exists>rt. getRequired ex_join = Inr rt \<and> supplied ex_join rt"
proof (rule required_units_supplied)
  show "tree_ok ex_join"
    by (simp add: ex_join_def ex_scan_def ex_equal_def units_within_def collectAll_def)
qed

lemma join_over_grouping_loses_units:
  \<comment> \<open>the split of a join uses the units its child requires, not those it produces\<close>
  "\<exists>L R. getRequired (Result (Join (GroupBy (ex_scan ''t'' {0}) [\<lparr>ag_fun = Keep (Some 0), ag_produced = Some (Some 1)\<rparr>])
       (ex_scan ''s'' {2}) [ex_equal 1 2]) [Some (1::nat)]) = Inr (Req {Some 1} {} {} [Req {Some 1, Some 2} {} {Some 2} [L, R]])"
  by (simp add: ex_scan_def ex_equal_def getRequired_def unaryRequired_def computeRequired_def
      computeExpected_def collectAll_def Aggregator_getRequired_def insert_commute Int_insert_left)

section \<open>The verification of a tree\<close>

fun subtrees :: "'t operator \<Rightarrow> 't operator set" where
  "subtrees (TableScan s) = {TableScan s}"
| "subtrees (Insert table tuples branchId) = {Insert table tuples branchId}"
| "subtrees (Select child e) = insert (Select child e) (subtrees child)"
| "subtrees (Join l r exprs) = insert (Join l r exprs) (subtrees l \<union> subtrees r)"
| "subtrees (GroupBy child aggs) = insert (GroupBy child aggs) (subtrees child)"
| "subtrees (Delete child tidIU table branchId) = insert (Delete child tidIU table branchId) (subtrees child)"
| "subtrees (Update child pairs table branchId) = insert (Update child pairs table branchId) (subtrees child)"
| "subtrees (Result child selection) = insert (Result child selection) (subtrees child)"

lemma unaryRequired_eq_Inr:
  "unaryRequired own below = Inr rt \<longleftrightarrow> (\<exists>q c. own = Inr q \<and> below q = Inr c \<and> rt = Req q {} {} [c])"
  by (auto simp: unaryRequired_def bind_res_eq_Inr)

lemma verify_node_join:
  assumes "updateRequiredSetsTraverser parent node = Inr rt" "verify_node node rt"
    and "Join l r exprs \<in> subtrees node" "collectAll exprs = Inr s" "produced l \<inter> produced r = {}"
  shows "s = {}"
  using assms
proof (induction node arbitrary: parent rt)
  case (Join l' r' exprs')
  from Join.prems(1) obtain q L R where
    q: "computeRequired parent (Join l' r' exprs') = Inr q"
    "updateRequiredSetsTraverser (Some (q, 2)) l' = Inr L"
    "updateRequiredSetsTraverser (Some (q, 2)) r' = Inr R"
    and rt: "rt = Req q (q \<inter> rq_required L) (q \<inter> rq_required R) [L, R]"
    by (auto simp: bind_res_eq_Inr)
  with Join.prems(2) have v: "q \<subseteq> produced l'" "q \<subseteq> produced r'" "verify_node l' L" "verify_node r' R" by auto
  from Join.prems(3) consider "l' = l \<and> r' = r \<and> exprs' = exprs"
    | "Join l r exprs \<in> subtrees l'" | "Join l r exprs \<in> subtrees r'" by auto
  then show ?case
  proof cases
    case 1
    with q(1) Join.prems(4) have "s \<subseteq> q" by (auto simp: computeRequired_def bind_res_eq_Inr)
    with v(1,2) 1 Join.prems(5) show ?thesis by blast
  next
    case 2
    from Join.IH(1) [OF q(2) v(3) 2 Join.prems(4,5)] show ?thesis .
  next
    case 3
    from Join.IH(2) [OF q(3) v(4) 3 Join.prems(4,5)] show ?thesis .
  qed
qed (auto simp: unaryRequired_eq_Inr bind_res_eq_Inr)

text \<open>C40: verifyDependencies accepts no tree with a join: the two sides of a join produce different
  units, its condition needs some of them, and the verifier asks that each side alone produces all
  the units the join requires.\<close>

theorem verify_dependencies_rejects_joins:
  assumes "Join l r exprs \<in> subtrees root" "produced l \<inter> produced r = {}"
    and "collectAll exprs = Inr s" "s \<noteq> {}"
  shows "verifyDependencies root \<noteq> Inr True"
  using verify_node_join [OF _ _ assms(1,3,2)] assms(4)
  by (auto simp: verifyDependencies_def getRequired_def bind_res_eq_Inr)

lemma verify_dependencies_rejects_joins_witness: "verifyDependencies ex_join \<noteq> Inr True"
  by (rule verify_dependencies_rejects_joins
        [where l = "Select (ex_scan ''t'' {0, 1}) (Comparison eq (Identifier (Some 1))
            (Constant ''7'' (getIntegerTy False)) (getBoolTy False))"
          and r = "ex_scan ''s'' {2, 3}" and exprs = "[ex_equal 0 2]" and s = "{Some 0, Some 2}"])
     (auto simp: ex_join_def ex_scan_def ex_equal_def collectAll_def)

section \<open>Types of expressions\<close>

text \<open>The expressions the constructors build from units of a factory and constants.\<close>

inductive built :: "InformationUnit list \<Rightarrow> expression \<Rightarrow> bool" for ius where
  Identifier: "i < length ius \<Longrightarrow> built ius (Identifier (Some i))"
| Constant: "built ius (Constant val type)"
| Null: "built ius NullConstant"
| Cast: "built ius e \<Longrightarrow> built ius (Cast e type)"
| Addition: "built ius l \<Longrightarrow> built ius r \<Longrightarrow> Addition_ctor ius l r = Inr e \<Longrightarrow> built ius e"
| Subtraction: "built ius l \<Longrightarrow> built ius r \<Longrightarrow> Subtraction_ctor ius l r = Inr e \<Longrightarrow> built ius e"
| Multiplication: "built ius l \<Longrightarrow> built ius r \<Longrightarrow> Multiplication_ctor ius l r = Inr e \<Longrightarrow> built ius e"
| Division: "built ius l \<Longrightarrow> built ius r \<Longrightarrow> Division_ctor ius l r = Inr e \<Longrightarrow> built ius e"
| Comparison: "built ius l \<Longrightarrow> built ius r \<Longrightarrow> Comparison_ctor mode ius l r = Inr e \<Longrightarrow> built ius e"
| And: "built ius l \<Longrightarrow> built ius r \<Longrightarrow> And_ctor ius l r = Inr e \<Longrightarrow> built ius e"
| Or: "built ius l \<Longrightarrow> built ius r \<Longrightarrow> Or_ctor ius l r = Inr e \<Longrightarrow> built ius e"

definition same_kind :: "InformationUnit list \<Rightarrow> (SqlType \<Rightarrow> SqlType \<Rightarrow> SqlType option) \<Rightarrow>
    expression \<Rightarrow> expression \<Rightarrow> SqlType \<Rightarrow> bool" where
  \<comment> \<open>what the physical operator asserts, and the type it computes for its result\<close>
  "same_kind ius infer l r type \<longleftrightarrow> (\<exists>tl tr. getType ius l = Inr tl \<and> getType ius r = Inr tr
     \<and> ty_typeID tl = ty_typeID type \<and> ty_typeID tr = ty_typeID type \<and> infer tl tr = Some type)"

fun well_typed :: "InformationUnit list \<Rightarrow> expression \<Rightarrow> bool" where
  "well_typed ius (Cast e type) = well_typed ius e"
| "well_typed ius (And l r type) = (well_typed ius l \<and> well_typed ius r)"
| "well_typed ius (Or l r type) = (well_typed ius l \<and> well_typed ius r)"
| "well_typed ius (Addition l r type) = (well_typed ius l \<and> well_typed ius r \<and> same_kind ius inferAddTy l r type)"
| "well_typed ius (Subtraction l r type) = (well_typed ius l \<and> well_typed ius r \<and> same_kind ius inferSubTy l r type)"
| "well_typed ius (Multiplication l r type) = (well_typed ius l \<and> well_typed ius r \<and> same_kind ius inferMulTy l r type)"
| "well_typed ius (Division l r type) = (well_typed ius l \<and> well_typed ius r \<and> same_kind ius inferDivTy l r type)"
| "well_typed ius (Comparison mode l r type) = (well_typed ius l \<and> well_typed ius r
     \<and> (\<exists>tl tr. getType ius l = Inr tl \<and> getType ius r = Inr tr
          \<and> SqlType_equals tl tr WithoutNullable \<and> type = getBoolTy (ty_nullable tl \<or> ty_nullable tr)))"
| "well_typed ius (Identifier iu) = (\<exists>type. iu_getType ius iu = Inr type)"
| "well_typed ius (Constant val type) = True"
| "well_typed ius NullConstant = True"

definition good_inference :: "(SqlType \<Rightarrow> SqlType \<Rightarrow> SqlType option) \<Rightarrow> bool" where
  \<comment> \<open>the kind of the result is that of one side\<close>
  "good_inference infer \<longleftrightarrow> (\<forall>tl tr type. infer tl tr = Some type \<longrightarrow>
     ty_typeID type = ty_typeID tl \<or> ty_typeID type = ty_typeID tr)"

lemma good_inferenceD:
  "good_inference infer \<Longrightarrow> infer t t = Some type \<Longrightarrow> ty_typeID type = ty_typeID t"
  unfolding good_inference_def by blast

lemma typeID_of_result [simp]:
  "ty_typeID (getNumericTy l p n) = NumericID"
  "ty_typeID (greater_precision a b) = (if numericLayout_precision a > numericLayout_precision b
     then ty_typeID a else ty_typeID b)"
  by (simp_all add: getNumericTy_def Let_def SqlType_ctor_def greater_precision_def)

lemma good_inferences:
  "good_inference inferAddTy" "good_inference inferSubTy" "good_inference inferMulTy" "good_inference inferDivTy"
  by (auto simp: good_inference_def inferAddTy_def inferSubTy_def inferMulTy_def inferDivTy_def
      numeric_or_integer_def Let_def split: if_splits)

lemma arithmetic_ctor_same_kind:
  assumes "good_inference infer" "arithmetic_ctor infer operator con ius l r = Inr e"
    and typed: "well_typed ius l" "well_typed ius r"
  shows "\<exists>l' r' type. e = con l' r' type \<and> same_kind ius infer l' r' type \<and> well_typed ius l' \<and> well_typed ius r'"
proof -
  from assms(2) obtain tl tr type where
    t: "getType ius l = Inr tl" "getType ius r = Inr tr" "infer tl tr = Some type"
    by (auto simp: arithmetic_ctor_def bind_res_eq_Inr split: option.splits)
  consider "\<not> sameTypeID type tl" | "sameTypeID type tl" "\<not> sameTypeID type tr"
    | "sameTypeID type tl" "sameTypeID type tr" by blast
  then show ?thesis
  proof cases
    case 1
    with t assms(2) obtain type' where "infer tr tr = Some type'" "e = con (Cast l tr) r type'"
      by (auto simp: arithmetic_ctor_def Let_def split: option.splits)
    with good_inferenceD [OF assms(1)] t(2) have "same_kind ius infer (Cast l tr) r type'"
      by (simp add: same_kind_def)
    with typed \<open>e = con (Cast l tr) r type'\<close> show ?thesis
      by (intro exI [of _ "Cast l tr"] exI [of _ r] exI [of _ type']) simp
  next
    case 2
    with t assms(2) obtain type' where "infer tl tl = Some type'" "e = con l (Cast r tl) type'"
      by (auto simp: arithmetic_ctor_def Let_def split: option.splits)
    with good_inferenceD [OF assms(1)] t(1) have "same_kind ius infer l (Cast r tl) type'"
      by (simp add: same_kind_def)
    with typed \<open>e = con l (Cast r tl) type'\<close> show ?thesis
      by (intro exI [of _ l] exI [of _ "Cast r tl"] exI [of _ type']) simp
  next
    case 3
    with t assms(2) have "e = con l r type" by (auto simp: arithmetic_ctor_def)
    moreover have "same_kind ius infer l r type" using 3 t by (auto simp: same_kind_def sameTypeID_def)
    ultimately show ?thesis using typed by (intro exI [of _ l] exI [of _ r] exI [of _ type]) simp
  qed
qed

text \<open>C39: an expression built by the constructors is well typed: the two sides of an arithmetic
  operator have the kind of its type, after the casts the constructor has inserted, and that type is the
  one the operator computes at run time, and a comparison has two sides of the same type.\<close>

theorem constructed_expressions_typed:
  assumes "built ius e"
  shows "well_typed ius e \<and> (\<exists>type. getType ius e = Inr type)"
  using assms
proof (induction rule: built.induct)
  case (Identifier i)
  then show ?case by (simp add: iu_getType_def deref_iu_def)
next
  case (Addition l r e)
  with arithmetic_ctor_same_kind [OF good_inferences(1), of "''+''" expression.Addition ius l r e] show ?case
    by (auto simp: Addition_ctor_def)
next
  case (Subtraction l r e)
  with arithmetic_ctor_same_kind [OF good_inferences(2), of "''-''" expression.Subtraction ius l r e] show ?case
    by (auto simp: Subtraction_ctor_def)
next
  case (Multiplication l r e)
  with arithmetic_ctor_same_kind [OF good_inferences(3), of "''*''" expression.Multiplication ius l r e] show ?case
    by (auto simp: Multiplication_ctor_def)
next
  case (Division l r e)
  with arithmetic_ctor_same_kind [OF good_inferences(4), of "''/''" expression.Division ius l r e] show ?case
    by (auto simp: Division_ctor_def)
next
  case (Comparison l r mode e)
  then show ?case
    by (auto simp: Comparison_ctor_def inferCompareTy_def bind_res_eq_Inr split: option.splits if_splits)
next
  case (And l r e)
  then show ?case by (auto simp: And_ctor_def bind_res_eq_Inr)
next
  case (Or l r e)
  then show ?case by (auto simp: Or_ctor_def bind_res_eq_Inr)
qed simp_all

definition ex_iu :: "SqlType \<Rightarrow> InformationUnit" where
  "ex_iu type = \<lparr>iu_iuType = ValueRef, iu_sqlType = type, iu_columnInformation = None, iu_scanUID = None\<rparr>"

definition ex_sum :: expression where
  "ex_sum = Addition (Cast (Identifier (Some 0)) (getNumericTy 12 2 False)) (Identifier (Some 1)) (getNumericTy 12 2 False)"

lemma ex_sum_built: "built [ex_iu (getIntegerTy False), ex_iu (getNumericTy 12 2 False)] ex_sum"
  by (rule built.Addition [OF built.Identifier [of 0] built.Identifier [of 1]])
     (simp_all add: Addition_ctor_def arithmetic_ctor_def iu_getType_def deref_iu_def ex_iu_def inferAddTy_def
       numeric_or_integer_def greater_precision_def sameTypeID_def Let_def ex_sum_def getNumericTy_def
       getIntegerTy_def SqlType_ctor_def numericLayout_precision_def)

lemma constructed_expressions_typed_witness:
  "well_typed [ex_iu (getIntegerTy False), ex_iu (getNumericTy 12 2 False)] ex_sum"
  using constructed_expressions_typed [OF ex_sum_built] by simp

text \<open>No conjunction can be used: the constructor of And leaves its type unknown, so a conjunction of
  a conjunction is rejected with the message for arguments that are not boolean, and the visitor that
  collects the units of an expression has no case for it.\<close>

theorem conjunctions_unusable:
  assumes "And_ctor ius left right = Inr e"
  shows "getType ius e = Inr SqlType_default
    \<and> And_ctor ius e other = Inl (ArithmeticException (CHR 0x27 # ''and'' @ CHR 0x27 # '' requires boolean arguments''))
    \<and> collectRequired e = Inl Unreachable"
proof -
  from assms have e: "e = And left right SqlType_default" by (auto simp: And_ctor_def bind_res_eq_Inr)
  have "ty_typeID SqlType_default = UnknownID" by (simp add: SqlType_default_def SqlType_ctor_def)
  then show ?thesis by (simp add: e And_ctor_def require_bools_def)
qed

lemma conjunctions_unusable_witness:
  "\<exists>e. And_ctor [] (Constant ''true'' (getBoolTy False)) (Constant ''true'' (getBoolTy False)) = Inr e
     \<and> collectRequired e = Inl Unreachable"
proof -
  have *: "And_ctor [] (Constant ''true'' (getBoolTy False)) (Constant ''true'' (getBoolTy False))
      = Inr (And (Constant ''true'' (getBoolTy False)) (Constant ''true'' (getBoolTy False)) SqlType_default)"
    by (simp add: And_ctor_def require_bools_def getBoolTy_def SqlType_ctor_def)
  from conjunctions_unusable [OF this] * show ?thesis by blast
qed

end
