(* ===== verification/SemanticVerification.thy ===== *)
theory SemanticVerification
  imports SqlParser TableStore "HOL-Library.Char_ord" "HOL-Library.List_Lexorder"
begin

text \<open>
  The checks of a statement against the database, the method \<^verbatim>\<open>verify\<close> of the analysers in
  tools/semanticalAnalyser. A check succeeds or throws a \<^verbatim>\<open>semantic_sql_error\<close>. The statement is
  \<open>None\<close> when the pointer is null. A \<^verbatim>\<open>std::set\<close> of strings is the sorted list of its elements, in the
  order of \<^verbatim>\<open>std::string\<close>, which compares characters as unsigned bytes.
\<close>

definition quoted :: "string \<Rightarrow> string" where
  "quoted s = CHR 0x27 # s @ [CHR 0x27]"

definition semantic_error :: "string \<Rightarrow> 'a result" where
  "semantic_error message = Inl (SemanticSqlError message)"

definition with_statement :: "'s option \<Rightarrow> ('s \<Rightarrow> 'a result) \<Rightarrow> 'a result" where
  "with_statement stmt f = (case stmt of None \<Rightarrow> semantic_error ''unknown statement type'' | Some s \<Rightarrow> f s)"

fun check_all :: "('a \<Rightarrow> unit result) \<Rightarrow> 'a list \<Rightarrow> unit result" where
  \<comment> \<open>the loops that only check\<close>
  "check_all f [] = Inr ()"
| "check_all f (x # xs) = bind_res (f x) (\<lambda>_. check_all f xs)"

definition require :: "bool \<Rightarrow> string \<Rightarrow> unit result" where
  "require b message = (if b then Inr () else semantic_error message)"

definition getTable :: "'v Database \<Rightarrow> string \<Rightarrow> 'v Table result" where
  \<comment> \<open>a use of the pointer that getTable returns\<close>
  "getTable db name = (case Database_getTable db name of None \<Rightarrow> Inl MemFault | Some t \<Rightarrow> Inr t)"

section \<open>Select\<close>

fun set_intersection :: "string list \<Rightarrow> string list \<Rightarrow> string list" where
  \<comment> \<open>the merge of \<^verbatim>\<open>std::set_intersection\<close>; the columns of a table are not sorted\<close>
  "set_intersection [] ys = []"
| "set_intersection (x # xs) [] = []"
| "set_intersection (x # xs) (y # ys) =
     (if x < y then set_intersection xs (y # ys)
      else if \<not> y < x then x # set_intersection xs ys
      else set_intersection (x # xs) ys)"

definition set_insert :: "string list \<Rightarrow> string list \<Rightarrow> string list" where
  \<comment> \<open>insertion of a range into a \<^verbatim>\<open>std::set\<close>\<close>
  "set_insert names s = foldl (\<lambda>s name. insort_insert name s) s names"

record select_scope =
  sv_unbindedColumns :: "string list"
  sv_relations :: "string list"
  sv_bindedColumns :: "string \<rightharpoonup> string list"

definition verify_relation :: "'v Database \<Rightarrow> PTable \<Rightarrow> select_scope \<Rightarrow> select_scope result" where
  "verify_relation db relation s =
     (if \<not> Database_hasTable db (pt_name relation)
      then semantic_error (''table '' @ quoted (pt_name relation) @ '' does not exist'')
      else if db_branchMapping db (pt_version relation) = None
      then semantic_error (''version '' @ quoted (pt_version relation) @ '' does not exist'')
      else if pt_alias relation = [] \<and> pt_name relation \<in> set (sv_relations s)
      then semantic_error (''relation '' @ quoted (pt_name relation) @ '' is already specified - use bindings!'')
      else let s1 = s\<lparr>sv_relations := insort_insert (pt_name relation) (sv_relations s)\<rparr>
           in bind_res (getTable db (pt_name relation)) (\<lambda>table.
             let columnNames = Table_getColumnNames table
             in if set_intersection (sv_unbindedColumns s1) columnNames \<noteq> []
                then semantic_error ''columns are ambiguous - use bindings!''
                else if pt_alias relation = []
                then Inr (s1\<lparr>sv_unbindedColumns := set_insert columnNames (sv_unbindedColumns s1)\<rparr>)
                else if sv_bindedColumns s1 (pt_alias relation) \<noteq> None
                then semantic_error (''binding '' @ quoted (pt_alias relation) @ '' is already specified - use bindings!'')
                else Inr (s1\<lparr>sv_bindedColumns := (sv_bindedColumns s1)(pt_alias relation \<mapsto> columnNames)\<rparr>)))"

definition verify_column :: "select_scope \<Rightarrow> PColumn \<Rightarrow> unit result" where
  "verify_column s column =
     (let unspecified = semantic_error (''column '' @ quoted (pc_name column) @ '' is not specified'')
      in if pc_table column = []
         then (if pc_name column \<notin> set (sv_unbindedColumns s) then unspecified else Inr ())
         else case sv_bindedColumns s (pc_table column) of
                None \<Rightarrow> semantic_error (''binding '' @ quoted (pc_table column) @ '' is not specified'')
              | Some columnNames \<Rightarrow> if pc_name column \<notin> set columnNames then unspecified else Inr ())"

definition SelectAnalyser_verify :: "'v Database \<Rightarrow> SelectStatement option \<Rightarrow> unit result" where
  "SelectAnalyser_verify db statement = with_statement statement (\<lambda>stmt.
     bind_res (foldM_res (verify_relation db) (sel_relations stmt)
         \<lparr>sv_unbindedColumns = [], sv_relations = [], sv_bindedColumns = Map.empty\<rparr>) (\<lambda>scope.
       bind_res (check_all (\<lambda>(column, _). verify_column scope column) (sel_selections stmt)) (\<lambda>_.
         bind_res (check_all (verify_column scope) (sel_projections stmt)) (\<lambda>_.
           check_all (\<lambda>(v, u). bind_res (verify_column scope v) (\<lambda>_. verify_column scope u))
             (sel_joinConditions stmt)))))"

section \<open>Insert, update, delete\<close>

definition verify_target :: "'v Database \<Rightarrow> PTable \<Rightarrow> 'v Table result" where
  \<comment> \<open>the checks the three analysers begin with, and the table\<close>
  "verify_target db relation =
     (if \<not> Database_hasTable db (pt_name relation)
      then semantic_error (''table '' @ quoted (pt_name relation) @ '' does not exist'')
      else if db_branchMapping db (pt_version relation) = None
      then semantic_error (''version '' @ quoted (pt_version relation) @ '' does not exist'')
      else getTable db (pt_name relation))"

definition verify_name :: "string list \<Rightarrow> PColumn \<Rightarrow> unit result" where
  "verify_name columnNames column =
     require (pc_name column \<in> set columnNames) (''column '' @ quoted (pc_name column) @ '' does not exist'')"

definition InsertAnalyser_verify :: "'v Database \<Rightarrow> InsertStatement option \<Rightarrow> unit result" where
  "InsertAnalyser_verify db statement = with_statement statement (\<lambda>stmt.
     bind_res (verify_target db (ins_relation stmt)) (\<lambda>table.
       let columnNames = Table_getColumnNames table
       in if ins_columns stmt = [] \<and> length (ins_values stmt) \<noteq> length columnNames
          then semantic_error (''values for columns of table '' @ quoted (pt_name (ins_relation stmt)) @ '' must be specified'')
          else check_all (verify_name columnNames) (ins_columns stmt)))"

definition UpdateAnalyser_verify :: "'v Database \<Rightarrow> UpdateStatement option \<Rightarrow> unit result" where
  "UpdateAnalyser_verify db statement = with_statement statement (\<lambda>stmt.
     bind_res (verify_target db (upd_relation stmt)) (\<lambda>table.
       let columnNames = Table_getColumnNames table
       in bind_res (check_all (verify_name columnNames \<circ> fst) (upd_updates stmt)) (\<lambda>_.
            check_all (verify_name columnNames \<circ> fst) (upd_selections stmt))))"

definition DeleteAnalyser_verify :: "'v Database \<Rightarrow> DeleteStatement option \<Rightarrow> unit result" where
  "DeleteAnalyser_verify db statement = with_statement statement (\<lambda>stmt.
     bind_res (verify_target db (del_relation stmt)) (\<lambda>table.
       check_all (verify_name (Table_getColumnNames table) \<circ> fst) (del_selections stmt)))"

section \<open>Create table, create branch, copy\<close>

definition typeNames :: "string list" where
  "typeNames = [''bool'', ''date'', ''integer'', ''int'', ''longinteger'', ''numeric'', ''char'', ''varchar'',
     ''timestamp'', ''text'']"

fun verify_specs :: "string list \<Rightarrow> ColumnSpec list \<Rightarrow> unit result" where
  "verify_specs definedColumnNames [] = Inr ()"
| "verify_specs definedColumnNames (column # columns) =
     (if cs_nullable column
      then semantic_error (''not supported nullable option for column '' @ quoted (cs_name column))
      else if cs_name column \<in> set definedColumnNames
      then semantic_error (''column '' @ quoted (cs_name column) @ '' already exists'')
      else if cs_type column \<notin> set typeNames
      then semantic_error (''type '' @ quoted (cs_type column) @ '' does not exist'')
      else verify_specs (definedColumnNames @ [cs_name column]) columns)"

definition CreateTableAnalyser_verify :: "'v Database \<Rightarrow> CreateTableStatement option \<Rightarrow> unit result" where
  "CreateTableAnalyser_verify db statement = with_statement statement (\<lambda>stmt.
     if Database_hasTable db (ct_tableName stmt)
     then semantic_error (''table '' @ quoted (ct_tableName stmt) @ '' already exists'')
     else verify_specs [] (ct_columns stmt))"

definition CreateBranchAnalyser_verify :: "'v Database \<Rightarrow> CreateBranchStatement option \<Rightarrow> unit result" where
  "CreateBranchAnalyser_verify db statement = with_statement statement (\<lambda>stmt.
     if db_branchMapping db (cb_branchName stmt) \<noteq> None
     then semantic_error (''branch '' @ quoted (cb_branchName stmt) @ '' already exists'')
     else if db_branchMapping db (cb_parentBranchName stmt) = None
     then semantic_error (''parent branch '' @ quoted (cb_parentBranchName stmt) @ '' does not exist'')
     else Inr ())"

definition BranchAnalyser_verify :: "unit result" where
  "BranchAnalyser_verify = Inr ()"

definition CopyTableAnalyser_verify :: "'v Database \<Rightarrow> CopyStatement option \<Rightarrow> unit result" where
  "CopyTableAnalyser_verify db statement = with_statement statement (\<lambda>stmt.
     if \<not> Database_hasTable db (pt_name (cp_relation stmt))
     then semantic_error (''table '' @ quoted (pt_name (cp_relation stmt)) @ '' does not exist'')
     else if cp_format stmt \<notin> {''csv'', ''tbl''}
     then semantic_error (''format type '' @ quoted (cp_format stmt) @ '' does not exist'')
     else if \<not> cp_directionFrom stmt \<and> db_branchMapping db (pt_version (cp_relation stmt)) = None
     then semantic_error (''version '' @ quoted (pt_version (cp_relation stmt)) @ '' does not exist'')
     else Inr ())"

section \<open>Facts\<close>

lemma with_statement_Some [simp]: "with_statement (Some s) f = f s"
  by (simp add: with_statement_def)

lemma semantic_error_simps [simp]: "semantic_error m \<noteq> Inr x"
  by (simp add: semantic_error_def)

lemma require_Inr [simp]: "require b m = Inr u \<longleftrightarrow> b"
  by (simp add: require_def)

lemma check_all_Inr [simp]: "check_all f xs = Inr u \<longleftrightarrow> (\<forall>x \<in> set xs. f x = Inr ())"
  by (induction xs) (auto simp: bind_res_eq_Inr)

lemma verify_name_Inr [simp]: "verify_name names c = Inr u \<longleftrightarrow> pc_name c \<in> set names"
  by (simp add: verify_name_def)

lemma getTable_Inr: "getTable db name = Inr t \<longleftrightarrow> Database_getTable db name = Some t"
  by (auto simp: getTable_def split: option.splits)

lemma verify_target_Inr:
  "verify_target db r = Inr t \<longleftrightarrow>
     Database_getTable db (pt_name r) = Some t \<and> db_branchMapping db (pt_version r) \<noteq> None"
  by (auto simp: verify_target_def getTable_def Database_hasTable_def split: option.splits)

lemma set_set_insert [simp]: "set (set_insert names s) = set names \<union> set s"
  by (induction names arbitrary: s) (auto simp: set_insert_def set_insort_insert)

lemma verify_specs_Inr:
  "verify_specs names cols = Inr u \<longleftrightarrow> distinct (map cs_name cols) \<and> set names \<inter> cs_name ` set cols = {}
     \<and> (\<forall>c \<in> set cols. \<not> cs_nullable c \<and> cs_type c \<in> set typeNames)"
  by (induction cols arbitrary: names) auto

end
