(* ===== verification/TreeConstruction.thy ===== *)
theory TreeConstruction
  imports SemanticVerification LogicalOperators NativeValues "HOL-Library.AList"
begin

text \<open>
  The construction of operator trees, the method \<^verbatim>\<open>constructTree\<close> of the analysers in
  tools/semanticalAnalyser, over the context of include/tardisdb/semanticAnalyser/AnalyzingContext.hpp
  and the graph of JoinGraph.hpp.

  A \<^verbatim>\<open>std::unordered_map\<close> is the list of its pairs in the order of insertion; it is iterated in an
  order the standard leaves open, which the environment gives as a function of the keys. A
  \<^verbatim>\<open>std::set\<close> of pointers is iterated in the order of the addresses, also given by the environment.
  The environment further has the address of the characters of a string, which a varchar keeps, and
  the lines of the files. A moved-from unique pointer is null, a moved-from string is empty.
\<close>

section \<open>Environment and context\<close>

record environment =
  en_keys :: "string list \<Rightarrow> string list"
  en_addresses :: "iu_p set \<Rightarrow> iu_p list"
  en_c_str :: "string \<Rightarrow> u64"
  en_files :: "string \<rightharpoonup> string list"

definition env_ok :: "environment \<Rightarrow> bool" where
  \<comment> \<open>an iteration visits every element once\<close>
  "env_ok en \<longleftrightarrow> (\<forall>ks. distinct ks \<longrightarrow> distinct (en_keys en ks) \<and> set (en_keys en ks) = set ks)
     \<and> (\<forall>s. finite s \<longrightarrow> distinct (en_addresses en s) \<and> set (en_addresses en s) = s)"

type_synonym tree = "NValue list operator"
type_synonym 'a umap = "(string \<times> 'a) list"

definition iterate :: "environment \<Rightarrow> 'a umap \<Rightarrow> 'a umap" where
  "iterate en m = map (\<lambda>k. (k, the (map_of m k))) (en_keys en (map fst m))"

definition insert_new :: "string \<Rightarrow> 'a \<Rightarrow> 'a umap \<Rightarrow> 'a umap" where
  \<comment> \<open>\<^verbatim>\<open>insert\<close> does not replace\<close>
  "insert_new k v m = (if map_of m k = None then m @ [(k, v)] else m)"

record JoinVertex =
  jv_production :: "tree option"
  jv_visited :: bool

record JoinEdge =
  je_vID :: string
  je_uID :: string
  je_expressions :: "expression list"

record JoinGraph =
  jg_vertices :: "JoinVertex umap"
  jg_edges :: "JoinEdge list"

datatype callback = DumpCSV | DumpTBL

record AnalyzingContext =
  ac_db :: "NValue Database"
  ac_heap :: heap
  ac_iuFactory :: IUFactory
  ac_graph :: JoinGraph
  ac_branchIds :: "branch_id_t set"
  ac_ius :: "iu_p umap umap"
  ac_dangling :: "string \<rightharpoonup> tree option"
  ac_joinedTree :: "tree option"
  ac_callback :: "callback option"

definition AnalyzingContext_ctor :: "NValue Database \<Rightarrow> heap \<Rightarrow> AnalyzingContext" where
  "AnalyzingContext_ctor db h = \<lparr>ac_db = db, ac_heap = h, ac_iuFactory = IUFactory_ctor,
     ac_graph = \<lparr>jg_vertices = [], jg_edges = []\<rparr>, ac_branchIds = {}, ac_ius = [], ac_dangling = Map.empty,
     ac_joinedTree = None, ac_callback = None\<rparr>"

definition next_uid :: "AnalyzingContext \<Rightarrow> AnalyzingContext" where
  \<comment> \<open>the constructor of every operator takes a number from the factory\<close>
  "next_uid c = c\<lparr>ac_iuFactory := snd (getUID (ac_iuFactory c))\<rparr>"

definition inner_map :: "string \<Rightarrow> 'a umap umap \<Rightarrow> 'a umap" where
  "inner_map production m = (case map_of m production of None \<Rightarrow> [] | Some inner \<Rightarrow> inner)"

definition ius_at :: "string \<Rightarrow> string \<Rightarrow> AnalyzingContext \<Rightarrow> iu_p \<times> AnalyzingContext" where
  \<comment> \<open>\<^verbatim>\<open>context.ius[production][column]\<close>, which creates the entries that are missing\<close>
  "ius_at production column c =
     (let inner = inner_map production (ac_ius c);
          inner' = insert_new column None inner
      in (the (map_of inner' column), c\<lparr>ac_ius := AList.update production inner' (ac_ius c)\<rparr>))"

definition ius_of :: "string \<Rightarrow> AnalyzingContext \<Rightarrow> iu_p umap \<times> AnalyzingContext" where
  \<comment> \<open>\<^verbatim>\<open>context.ius[production]\<close>\<close>
  "ius_of production c =
     (inner_map production (ac_ius c), c\<lparr>ac_ius := insert_new production [] (ac_ius c)\<rparr>)"

definition column_hits :: "environment \<Rightarrow> string \<Rightarrow> AnalyzingContext \<Rightarrow> (string \<times> iu_p) list" where
  \<comment> \<open>the units of a column name, in the order in which the two loops over \<^verbatim>\<open>ius\<close> meet them\<close>
  "column_hits en column c =
     concat (map (\<lambda>(production, inner). map (\<lambda>(key, iu). (production, iu))
       (filter (\<lambda>(key, iu). key = column) (iterate en inner))) (iterate en (ac_ius c)))"

definition getUniqueColumnIU :: "environment \<Rightarrow> string \<Rightarrow> AnalyzingContext \<Rightarrow> iu_p" where
  "getUniqueColumnIU en column c = (case column_hits en column c of [] \<Rightarrow> None | hit # _ \<Rightarrow> snd hit)"

definition take_production :: "string \<Rightarrow> AnalyzingContext \<Rightarrow> tree result \<times> AnalyzingContext" where
  \<comment> \<open>\<^verbatim>\<open>std::move(context.dangling_productions[name])\<close> as the input of an operator, which follows the pointer\<close>
  "take_production name c =
     (case ac_dangling c name of
        Some (Some tree) \<Rightarrow> (Inr tree, c\<lparr>ac_dangling := (ac_dangling c)(name \<mapsto> None)\<rparr>)
      | _ \<Rightarrow> (Inl MemFault, c\<lparr>ac_dangling := (ac_dangling c)(name \<mapsto> None)\<rparr>))"

section \<open>Scans and selections\<close>

definition branch_lookup :: "string \<Rightarrow> 'v Database \<Rightarrow> branch_id_t \<times> 'v Database" where
  \<comment> \<open>\<^verbatim>\<open>_branchMapping[branchName]\<close> creates an entry when there is none\<close>
  "branch_lookup branchName db =
     (if branchName \<noteq> ''master''
      then (case db_branchMapping db branchName of
              Some branchId \<Rightarrow> (branchId, db)
            | None \<Rightarrow> (0, db\<lparr>db_branchMapping := (db_branchMapping db)(branchName \<mapsto> 0)\<rparr>))
      else (master_branch_id, db))"

fun store_ius :: "string \<Rightarrow> iu_p list \<Rightarrow> AnalyzingContext \<Rightarrow> AnalyzingContext result" where
  "store_ius alias [] c = Inr c"
| "store_ius alias (iu # ius) c =
     bind_res (deref_iu (fa_iu_vec (ac_iuFactory c)) iu) (\<lambda>unit.
       case iu_columnInformation unit of
         None \<Rightarrow> Inl MemFault
       | Some ci \<Rightarrow> store_ius alias ius
           (c\<lparr>ac_ius := AList.update alias (AList.update (ci_columnName ci) iu (inner_map alias (ac_ius c))) (ac_ius c)\<rparr>))"

definition construct_scan :: "environment \<Rightarrow> PTable \<Rightarrow> AnalyzingContext \<Rightarrow> (PTable \<times> AnalyzingContext) result" where
  \<comment> \<open>one round of the loop over the relations\<close>
  "construct_scan en relation c =
     (let relation' = (if pt_alias relation = [] then relation\<lparr>pt_alias := pt_name relation\<rparr> else relation);
          (branchId, db') = branch_lookup (pt_version relation') (ac_db c);
          c1 = c\<lparr>ac_db := db', ac_branchIds := insert branchId (ac_branchIds c)\<rparr>
      in bind_res (getTable db' (pt_name relation')) (\<lambda>table.
        let (scan, f1) = TableScan_new (pt_name relation') branchId (ac_iuFactory c1)
        in bind_res (TableScan_computeProduced table scan f1) (\<lambda>(scan', f2).
          bind_res (store_ius (pt_alias relation') (en_addresses en (sc_produced scan')) (c1\<lparr>ac_iuFactory := f2\<rparr>)) (\<lambda>c2.
            Inr (relation', c2\<lparr>ac_dangling :=
              (if ac_dangling c2 (pt_alias relation') = None
               then (ac_dangling c2)(pt_alias relation' \<mapsto> Some (TableScan scan')) else ac_dangling c2)\<rparr>)))))"

fun construct_scans :: "environment \<Rightarrow> PTable list \<Rightarrow> AnalyzingContext \<Rightarrow> (PTable list \<times> AnalyzingContext) result" where
  "construct_scans en [] c = Inr ([], c)"
| "construct_scans en (relation # relations) c =
     bind_res (construct_scan en relation c) (\<lambda>(relation', c').
       bind_res (construct_scans en relations c') (\<lambda>(relations', c''). Inr (relation' # relations', c'')))"

definition construct_select :: "environment \<Rightarrow> PColumn \<times> string \<Rightarrow> AnalyzingContext \<Rightarrow> AnalyzingContext result" where
  \<comment> \<open>the last unit found is taken for a column without a binding; the pointer has no value when there is none\<close>
  "construct_select en selection c =
     (let (column, valueString) = selection;
          hits = column_hits en (pc_name column) c;
          (table, iu, c1) =
            (if pc_table column = []
             then (if hits = [] then ([], None, c) else (fst (last hits), snd (last hits), c))
             else (let (iu, c1) = ius_at (pc_table column) (pc_name column) c in (pc_table column, iu, c1)));
          ius = fa_iu_vec (ac_iuFactory c1)
      in bind_res (deref_iu ius iu) (\<lambda>unit.
           case iu_columnInformation unit of
             None \<Rightarrow> Inl MemFault
           | Some ci \<Rightarrow>
               bind_res (Comparison_ctor eq ius (Identifier iu) (Constant valueString (ci_type ci))) (\<lambda>exp.
                 let (input, c2) = take_production table c1
                 in bind_res input (\<lambda>tree.
                   Inr (next_uid (c2\<lparr>ac_dangling := (ac_dangling c2)(table \<mapsto> Some (Select tree exp))\<rparr>))))))"

definition construct_selects :: "environment \<Rightarrow> (PColumn \<times> string) list \<Rightarrow> AnalyzingContext \<Rightarrow> AnalyzingContext result" where
  "construct_selects en selections c = foldM_res (construct_select en) selections c"

section \<open>The join graph\<close>

definition same_edge :: "string \<Rightarrow> string \<Rightarrow> JoinEdge \<Rightarrow> bool" where
  "same_edge v u e = (je_vID e = v \<and> je_uID e = u \<or> je_vID e = u \<and> je_uID e = v)"

definition hasEdge :: "string \<Rightarrow> string \<Rightarrow> JoinGraph \<Rightarrow> bool" where
  "hasEdge v u g = (\<exists>e \<in> set (jg_edges g). same_edge v u e)"

definition addEdge :: "JoinEdge \<Rightarrow> JoinGraph \<Rightarrow> JoinGraph" where
  "addEdge e g = g\<lparr>jg_edges := jg_edges g @ [e]\<rparr>"

definition addVertex :: "string \<Rightarrow> JoinVertex \<Rightarrow> JoinGraph \<Rightarrow> JoinGraph" where
  "addVertex alias v g = g\<lparr>jg_vertices := insert_new alias v (jg_vertices g)\<rparr>"

fun push_expression :: "string \<Rightarrow> string \<Rightarrow> expression \<Rightarrow> JoinEdge list \<Rightarrow> JoinEdge list" where
  \<comment> \<open>\<^verbatim>\<open>getEdge(v, u)->expressions.push_back\<close>: the first edge that matches\<close>
  "push_expression v u exp [] = []"
| "push_expression v u exp (e # es) =
     (if same_edge v u e then e\<lparr>je_expressions := je_expressions e @ [exp]\<rparr> # es else e # push_expression v u exp es)"

definition getVertex :: "string \<Rightarrow> JoinGraph \<Rightarrow> JoinVertex result" where
  "getVertex v g = (case map_of (jg_vertices g) v of None \<Rightarrow> Inl (OutOfRange v) | Some vertex \<Rightarrow> Inr vertex)"

definition set_vertex :: "string \<Rightarrow> JoinVertex \<Rightarrow> JoinGraph \<Rightarrow> JoinGraph" where
  "set_vertex v vertex g = g\<lparr>jg_vertices := AList.update v vertex (jg_vertices g)\<rparr>"

definition getConnectedEdges :: "string \<Rightarrow> JoinGraph \<Rightarrow> nat list" where
  "getConnectedEdges v g =
     filter (\<lambda>i. je_vID (jg_edges g ! i) = v \<or> je_uID (jg_edges g ! i) = v) [0 ..< length (jg_edges g)]"

definition add_vertex :: "PTable \<Rightarrow> AnalyzingContext \<Rightarrow> PTable \<times> AnalyzingContext" where
  \<comment> \<open>the alias is moved into the graph, so the relation has none afterwards\<close>
  "add_vertex rel c =
     (let tableAlias = (if pt_alias rel = [] then pt_name rel else pt_alias rel);
          production = (case ac_dangling c tableAlias of Some p \<Rightarrow> p | None \<Rightarrow> None)
      in (rel\<lparr>pt_alias := []\<rparr>,
          c\<lparr>ac_dangling := (ac_dangling c)(tableAlias \<mapsto> None),
            ac_graph := addVertex tableAlias \<lparr>jv_production = production, jv_visited = False\<rparr> (ac_graph c)\<rparr>))"

fun add_vertices :: "PTable list \<Rightarrow> AnalyzingContext \<Rightarrow> PTable list \<times> AnalyzingContext" where
  "add_vertices [] c = ([], c)"
| "add_vertices (rel # rels) c =
     (let (rel', c') = add_vertex rel c; (rels', c'') = add_vertices rels c' in (rel' # rels', c''))"

definition resolve_table :: "environment \<Rightarrow> PColumn \<Rightarrow> AnalyzingContext \<Rightarrow> string" where
  "resolve_table en column c =
     (if pc_table column \<noteq> [] then pc_table column
      else case column_hits en (pc_name column) c of [] \<Rightarrow> [] | hits \<Rightarrow> fst (last hits))"

definition add_condition :: "environment \<Rightarrow> PColumn \<times> PColumn \<Rightarrow> AnalyzingContext \<Rightarrow> AnalyzingContext result" where
  "add_condition en nodes c =
     (let (vNode, uNode) = nodes;
          v = resolve_table en vNode c;
          u = resolve_table en uNode c;
          g = (if hasEdge v u (ac_graph c) then ac_graph c
               else addEdge \<lparr>je_vID = v, je_uID = u, je_expressions = []\<rparr> (ac_graph c));
          (iuV, c1) = ius_at v (pc_name vNode) (c\<lparr>ac_graph := g\<rparr>);
          (iuU, c2) = ius_at u (pc_name uNode) c1
      in bind_res (Comparison_ctor eq (fa_iu_vec (ac_iuFactory c2)) (Identifier iuV) (Identifier iuU)) (\<lambda>exp.
           Inr (c2\<lparr>ac_graph := (ac_graph c2)\<lparr>jg_edges := push_expression v u exp (jg_edges (ac_graph c2))\<rparr>\<rparr>)))"

definition construct_join_graph :: "environment \<Rightarrow> SelectStatement \<Rightarrow> AnalyzingContext \<Rightarrow>
    (SelectStatement \<times> AnalyzingContext) result" where
  "construct_join_graph en stmt c =
     (let (relations, c1) = add_vertices (sel_relations stmt) c
      in bind_res (foldM_res (add_condition en) (sel_joinConditions stmt) c1) (\<lambda>c2.
           Inr (stmt\<lparr>sel_relations := relations\<rparr>, c2)))"

section \<open>Joins\<close>

text \<open>
  A \<^verbatim>\<open>std::string &\<close> that names a vertex: a variable of its own, or the member \<^verbatim>\<open>uID\<close> of an edge. The
  loop assigns to \<^verbatim>\<open>neighboringVertexName\<close>, which is a reference to \<^verbatim>\<open>edge->uID\<close>, and passes it to
  the recursive call, so the name of the vertex there changes with the edge.
\<close>

datatype name_ref = LocalName string | EdgeU nat

definition deref_name :: "JoinGraph \<Rightarrow> name_ref \<Rightarrow> string" where
  "deref_name g r = (case r of LocalName s \<Rightarrow> s | EdgeU i \<Rightarrow> je_uID (jg_edges g ! i))"

definition join_edge :: "(name_ref \<Rightarrow> AnalyzingContext \<Rightarrow> AnalyzingContext comp) \<Rightarrow> name_ref \<Rightarrow> nat \<Rightarrow>
    AnalyzingContext \<Rightarrow> AnalyzingContext comp" where
  \<comment> \<open>one round of the loop over the edges of a vertex\<close>
  "join_edge recurse r i c =
     (let g = ac_graph c;
          vID = je_vID (jg_edges g ! i);
          g1 = (if deref_name g r \<noteq> vID
                then g\<lparr>jg_edges := (jg_edges g)[i := (jg_edges g ! i)\<lparr>je_uID := vID\<rparr>]\<rparr> else g);
          neighboringVertexName = je_uID (jg_edges g1 ! i)
      in case getVertex neighboringVertexName g1 of
           Inl e \<Rightarrow> Some (Inl e)
         | Inr neighboringVertex \<Rightarrow>
             if jv_visited neighboringVertex then Some (Inr (c\<lparr>ac_graph := g1\<rparr>))
             else case (ac_joinedTree c, jv_production neighboringVertex) of
                    (Some joined, Some production) \<Rightarrow>
                      let expressions = je_expressions (jg_edges g1 ! i);
                          g2 = set_vertex neighboringVertexName (neighboringVertex\<lparr>jv_production := None\<rparr>)
                                 (g1\<lparr>jg_edges := (jg_edges g1)[i := (jg_edges g1 ! i)\<lparr>je_expressions := []\<rparr>]\<rparr>);
                          joined' = (if deref_name g1 r \<noteq> vID then Join production joined expressions
                                     else Join joined production expressions)
                      in recurse (EdgeU i) (next_uid (c\<lparr>ac_graph := g2, ac_joinedTree := Some joined'\<rparr>))
                  | _ \<Rightarrow> Some (Inl MemFault))"

fun construct_join_from :: "nat \<Rightarrow> name_ref \<Rightarrow> AnalyzingContext \<Rightarrow> AnalyzingContext comp" where
  \<comment> \<open>the first argument bounds the depth of the recursion\<close>
  "construct_join_from 0 r c = None"
| "construct_join_from (Suc n) r c =
     (let vertexName = deref_name (ac_graph c) r
      in case getVertex vertexName (ac_graph c) of
           Inl e \<Rightarrow> Some (Inl e)
         | Inr vertex \<Rightarrow>
             let edges = getConnectedEdges vertexName (ac_graph c);
                 first = (ac_joinedTree c = None);
                 c1 = c\<lparr>ac_graph := set_vertex vertexName (vertex\<lparr>jv_visited := True,
                          jv_production := if first then None else jv_production vertex\<rparr>) (ac_graph c),
                        ac_joinedTree := if first then jv_production vertex else ac_joinedTree c\<rparr>
             in foldM_comp (join_edge (construct_join_from n) r) edges c1)"

definition construct_joins :: "environment \<Rightarrow> SelectStatement \<Rightarrow> AnalyzingContext \<Rightarrow>
    (SelectStatement \<times> AnalyzingContext) comp" where
  \<comment> \<open>every call visits a vertex that was not visited, so the number of vertices bounds the depth\<close>
  "construct_joins en stmt c =
     bind_comp (Some (construct_join_graph en stmt c)) (\<lambda>(stmt', c1).
       case iterate en (jg_vertices (ac_graph c1)) of
         [] \<Rightarrow> Some (Inl MemFault)
       | (firstVertexName, _) # _ \<Rightarrow>
           bind_comp (construct_join_from (length (jg_vertices (ac_graph c1))) (LocalName firstVertexName) c1) (\<lambda>c2.
             if ac_joinedTree c2 = None
             then Some (semantic_error ''no or more than one root found: Table joining has failed'')
             else Some (Inr (stmt', c2))))"

section \<open>The trees of the statements\<close>

definition no_tid :: "AnalyzingContext \<Rightarrow> iu_p umap \<Rightarrow> iu_p list result" where
  \<comment> \<open>the units of a production but the one of the column \<^verbatim>\<open>tid\<close>\<close>
  "no_tid c entries =
     bind_res (mapM_res (\<lambda>(key, iu). bind_res (deref_iu (fa_iu_vec (ac_iuFactory c)) iu) (\<lambda>unit.
         case iu_columnInformation unit of None \<Rightarrow> Inl MemFault | Some ci \<Rightarrow> Inr (ci_columnName ci, iu))) entries)
       (\<lambda>named. Inr (map snd (filter (\<lambda>(name, iu). name \<noteq> ''tid'') named)))"

fun star_units :: "environment \<Rightarrow> PTable list \<Rightarrow> AnalyzingContext \<Rightarrow> (iu_p list \<times> AnalyzingContext) result" where
  "star_units en [] c = Inr ([], c)"
| "star_units en (relation # relations) c =
     (let productionName = (if pt_alias relation = [] then pt_name relation else pt_alias relation);
          (entries, c1) = ius_of productionName c
      in bind_res (no_tid c1 (iterate en entries)) (\<lambda>ius.
           bind_res (star_units en relations c1) (\<lambda>(ius', c2). Inr (ius @ ius', c2))))"

fun projected_units :: "environment \<Rightarrow> PColumn list \<Rightarrow> AnalyzingContext \<Rightarrow> iu_p list \<times> AnalyzingContext" where
  "projected_units en [] c = ([], c)"
| "projected_units en (column # columns) c =
     (let (iu, c1) = (if pc_table column = [] then (getUniqueColumnIU en (pc_name column) c, c)
                      else ius_at (pc_table column) (pc_name column) c);
          (ius, c2) = projected_units en columns c1
      in (iu # ius, c2))"

definition set_root :: "tree \<Rightarrow> AnalyzingContext \<Rightarrow> AnalyzingContext" where
  "set_root root c = next_uid (c\<lparr>ac_joinedTree := Some root\<rparr>)"

definition SelectAnalyser_constructTree :: "environment \<Rightarrow> SelectStatement \<Rightarrow> AnalyzingContext \<Rightarrow> AnalyzingContext comp" where
  "SelectAnalyser_constructTree en stmt c =
     bind_comp (Some (construct_scans en (sel_relations stmt) c)) (\<lambda>(relations, c1).
       bind_comp (Some (construct_selects en (sel_selections stmt) c1)) (\<lambda>c2.
         bind_comp (construct_joins en (stmt\<lparr>sel_relations := relations\<rparr>) c2) (\<lambda>(stmt', c3).
           let (named, c4) = projected_units en (sel_projections stmt') c3
           in bind_comp (Some (if sel_projections stmt' = [] then star_units en (sel_relations stmt') c4
                               else Inr (named, c4))) (\<lambda>(projectedIUs, c5).
                case ac_joinedTree c5 of
                  None \<Rightarrow> Some (Inl MemFault)
                | Some tree \<Rightarrow> Some (Inr (set_root (Result tree projectedIUs) c5))))))"

fun cast_values :: "environment \<Rightarrow> 'v Table \<Rightarrow> PColumn list \<Rightarrow> string list \<Rightarrow> heap \<Rightarrow> (NValue list \<times> heap) result" where
  \<comment> \<open>\<^verbatim>\<open>values[i]\<close> is the value of the i-th column named; there is no check of the bounds\<close>
  "cast_values en table [] vals h = Inr ([], h)"
| "cast_values en table (column # columns) vals h =
     bind_res (Table_getCI table (pc_name column)) (\<lambda>ci.
       case vals of
         [] \<Rightarrow> Inl MemFault
       | val # vals' \<Rightarrow>
           bind_res (Value_castString (en_c_str en val) val (ci_type ci) h) (\<lambda>(sqlvalue, h').
             bind_res (cast_values en table columns vals' h') (\<lambda>(sqlvalues, h''). Inr (sqlvalue # sqlvalues, h''))))"

definition InsertAnalyser_constructTree :: "environment \<Rightarrow> InsertStatement \<Rightarrow> AnalyzingContext \<Rightarrow> AnalyzingContext result" where
  "InsertAnalyser_constructTree en stmt c =
     bind_res (getTable (ac_db c) (pt_name (ins_relation stmt))) (\<lambda>table.
       let (branchId, db') = branch_lookup (pt_version (ins_relation stmt)) (ac_db c);
           columns = (if ins_columns stmt = []
                      then map (\<lambda>column. \<lparr>pc_name = column, pc_table = []\<rparr>) (Table_getColumnNames table)
                      else ins_columns stmt)
       in bind_res (cast_values en table columns (ins_values stmt) (ac_heap c)) (\<lambda>(sqlvalues, h).
            Inr (set_root (Insert (pt_name (ins_relation stmt)) [sqlvalues] branchId) (c\<lparr>ac_db := db', ac_heap := h\<rparr>))))"

definition update_value :: "(PColumn \<times> string) list \<Rightarrow> string \<Rightarrow> string" where
  \<comment> \<open>the first assignment to the column, or the empty string\<close>
  "update_value updates key =
     (case find (\<lambda>(column, val). key = pc_name column) updates of None \<Rightarrow> [] | Some (_, val) \<Rightarrow> val)"

definition UpdateAnalyser_constructTree :: "environment \<Rightarrow> UpdateStatement \<Rightarrow> AnalyzingContext \<Rightarrow> AnalyzingContext result" where
  "UpdateAnalyser_constructTree en stmt c =
     bind_res (construct_scan en (upd_relation stmt) c) (\<lambda>(_, c1).
       bind_res (construct_selects en (upd_selections stmt) c1) (\<lambda>c2.
         bind_res (getTable (ac_db c2) (pt_name (upd_relation stmt))) (\<lambda>table.
           let relation = upd_relation stmt;
               alias = (if pt_alias relation = [] then pt_name relation else pt_alias relation);
               (branchId, db') = branch_lookup (pt_version relation) (ac_db c2);
               (entries, c3) = ius_of alias (c2\<lparr>ac_db := db'\<rparr>);
               updateIUs = map (\<lambda>(key, iu). (iu, update_value (upd_updates stmt) key)) (iterate en entries);
               (production, c4) = take_production alias c3
           in bind_res production (\<lambda>tree.
                Inr (set_root (Update tree updateIUs (pt_name relation) branchId) c4)))))"

definition DeleteAnalyser_constructTree :: "environment \<Rightarrow> DeleteStatement \<Rightarrow> AnalyzingContext \<Rightarrow> AnalyzingContext result" where
  "DeleteAnalyser_constructTree en stmt c =
     bind_res (construct_scan en (del_relation stmt) c) (\<lambda>(_, c1).
       bind_res (construct_selects en (del_selections stmt) c1) (\<lambda>c2.
         let relation = del_relation stmt;
             alias = (if pt_alias relation = [] then pt_name relation else pt_alias relation);
             (branchId, db') = branch_lookup (pt_version relation) (ac_db c2)
         in bind_res (getTable db' (pt_name relation)) (\<lambda>table.
              let tidIU = getUniqueColumnIU en ''tid'' c2;
                  (production, c3) = take_production alias (c2\<lparr>ac_db := db'\<rparr>)
              in bind_res production (\<lambda>tree. Inr (set_root (Delete tree tidIU (pt_name relation) branchId) c3)))))"

definition column_type :: "ColumnSpec \<Rightarrow> SqlType" where
  \<comment> \<open>the lengths are passed as \<^verbatim>\<open>size_t\<close> to parameters of 8 and 32 bits\<close>
  "column_type spec =
     (let type = cs_type spec; nullable = cs_nullable spec
      in if type = ''bool'' then getBoolTy nullable
         else if type = ''date'' then getDateTy nullable
         else if type = ''integer'' then getIntegerTy nullable
         else if type = ''int'' then getIntegerTy nullable
         else if type = ''longinteger'' then getLongIntegerTy nullable
         else if type = ''numeric'' then getNumericTy (of_nat (cs_length spec)) (of_nat (cs_precision spec)) nullable
         else if type = ''char'' then getCharTy (of_nat (cs_length spec)) nullable
         else if type = ''varchar'' then getVarcharTy (of_nat (cs_length spec)) nullable
         else if type = ''timestamp'' then getTimestampTy nullable
         else if type = ''text'' then getTextTy nullable
         else SqlType_default)"

definition CreateTableAnalyser_constructTree :: "(SqlType \<Rightarrow> nat) \<Rightarrow> CreateTableStatement \<Rightarrow> 'v Database \<Rightarrow>
    exn option \<times> 'v Database" where
  \<comment> \<open>an exception leaves the table with the columns added so far\<close>
  "CreateTableAnalyser_constructTree valueSize stmt db =
     (case Database_createTable (ct_tableName stmt) db of
        (Some e, db1) \<Rightarrow> (Some e, db1)
      | (None, db1) \<Rightarrow>
          (case Database_getTable db1 (ct_tableName stmt) of
             None \<Rightarrow> (Some MemFault, db1)
           | Some createdTable \<Rightarrow>
               let (r, table) = foldE (\<lambda>spec. Table_addColumn valueSize (cs_name spec) (column_type spec))
                     (ct_columns stmt) createdTable
               in (r, put_table (ct_tableName stmt) table db1)))"

definition CreateBranchAnalyser_constructTree :: "CreateBranchStatement \<Rightarrow> 'v Database \<Rightarrow>
    branch_id_t result \<times> 'v Database" where
  "CreateBranchAnalyser_constructTree stmt db =
     (let (parentBranchId, db') = branch_lookup (cb_parentBranchName stmt) db
      in Database_createBranch (cb_branchName stmt) parentBranchId db')"

end
