(* ===== verification/ScopeResolution.thy ===== *)
theory ScopeResolution
  imports TreeConstruction "HOL-Library.Multiset"
begin

text \<open>
  What the checks of a statement guarantee for the construction of its tree: the scans of the relations
  provide a valid information unit for every column that the checks accept.
\<close>

section \<open>The units of a context\<close>

definition unit_ok :: "AnalyzingContext \<Rightarrow> iu_p \<Rightarrow> bool" where
  \<comment> \<open>a unit of a column\<close>
  "unit_ok c iu \<longleftrightarrow> (\<exists>i ci. iu = Some i \<and> i < length (fa_iu_vec (ac_iuFactory c))
     \<and> iu_columnInformation (fa_iu_vec (ac_iuFactory c) ! i) = Some ci
     \<and> iu_sqlType (fa_iu_vec (ac_iuFactory c) ! i) = ci_type ci)"

definition unit_at :: "AnalyzingContext \<Rightarrow> string \<Rightarrow> string \<Rightarrow> iu_p option" where
  "unit_at c production column = map_of (inner_map production (ac_ius c)) column"

definition umap_ok :: "'a umap \<Rightarrow> bool" where
  "umap_ok m \<longleftrightarrow> distinct (map fst m)"

definition ius_ok :: "AnalyzingContext \<Rightarrow> bool" where
  "ius_ok c \<longleftrightarrow> umap_ok (ac_ius c) \<and> (\<forall>p. umap_ok (inner_map p (ac_ius c)))
     \<and> (\<forall>p column iu. unit_at c p column = Some iu \<longrightarrow> unit_ok c iu)"

lemma umap_ok_update [simp]: "umap_ok m \<Longrightarrow> umap_ok (AList.update k v m)"
  by (simp add: umap_ok_def distinct_update)

lemma umap_ok_Nil [simp]: "umap_ok []"
  by (simp add: umap_ok_def)

lemma umap_ok_inner: "umap_ok (inner_map p []) "
  by (simp add: inner_map_def)

lemma inner_map_update [simp]:
  "inner_map p (AList.update q m ms) = (if p = q then m else inner_map p ms)"
  by (simp add: inner_map_def update_conv')

lemma umap_ok_insert_new [simp]: "umap_ok m \<Longrightarrow> umap_ok (insert_new k v m)"
  by (auto simp: insert_new_def umap_ok_def map_of_eq_None_iff)

lemma map_of_insert_new [simp]:
  "map_of (insert_new k v m) = (if map_of m k = None then (map_of m)(k \<mapsto> v) else map_of m)"
  by (auto simp: insert_new_def map_add_def fun_eq_iff split: option.splits)

lemma set_iterate:
  assumes "env_ok en" "umap_ok m"
  shows "set (iterate en m) = set m"
proof -
  have mem: "(k, v) \<in> set m \<longleftrightarrow> map_of m k = Some v" for k v
    using assms(2) by (simp add: umap_ok_def)
  have dom: "k \<in> fst ` set m \<longleftrightarrow> map_of m k \<noteq> None" for k
    by (simp add: map_of_eq_None_iff)
  have keys: "set (en_keys en (map fst m)) = fst ` set m"
    using assms by (simp add: env_ok_def umap_ok_def)
  have "(k, v) \<in> set (iterate en m) \<longleftrightarrow> k \<in> fst ` set m \<and> v = the (map_of m k)" for k v
    unfolding iterate_def set_map keys by blast
  then have "(k, v) \<in> set (iterate en m) \<longleftrightarrow> (k, v) \<in> set m" for k v
    unfolding mem dom by auto
  then show ?thesis by (simp add: set_eq_iff split_paired_all)
qed

lemma iterate_eq_Nil: "env_ok en \<Longrightarrow> umap_ok m \<Longrightarrow> iterate en m = [] \<longleftrightarrow> m = []"
  using set_iterate [of en m] by (metis set_empty)

lemma umap_mem: "umap_ok m \<Longrightarrow> (k, v) \<in> set m \<longleftrightarrow> map_of m k = Some v"
  by (simp add: umap_ok_def)

lemma column_hits_iff:
  assumes "env_ok en" "ius_ok c"
  shows "(p, iu) \<in> set (column_hits en column c) \<longleftrightarrow> unit_at c p column = Some iu"
proof -
  have ok: "umap_ok (ac_ius c)" "\<And>p inner. map_of (ac_ius c) p = Some inner \<Longrightarrow> umap_ok inner"
    using assms(2) unfolding ius_ok_def inner_map_def by (simp, metis option.simps(5))
  have "(p, iu) \<in> set (column_hits en column c) \<longleftrightarrow>
      (\<exists>inner. (p, inner) \<in> set (ac_ius c) \<and> (column, iu) \<in> set (iterate en inner))"
    by (auto simp: column_hits_def set_iterate [OF assms(1) ok(1)] image_iff)
  also have "\<dots> \<longleftrightarrow> (\<exists>inner. map_of (ac_ius c) p = Some inner \<and> map_of inner column = Some iu)"
    using ok set_iterate [OF assms(1)] umap_mem by (metis (no_types, lifting))
  also have "\<dots> \<longleftrightarrow> unit_at c p column = Some iu"
    by (auto simp: unit_at_def inner_map_def split: option.splits)
  finally show ?thesis .
qed

section \<open>Scans\<close>

lemma create_scan_ius_spec:
  "create_scan_ius uid cis f = (map Some [length (fa_iu_vec f) ..< length (fa_iu_vec f) + length cis],
     f\<lparr>fa_iu_vec := fa_iu_vec f @ map (\<lambda>ci. \<lparr>iu_iuType = ColumnRef, iu_sqlType = ci_type ci,
        iu_columnInformation = Some ci, iu_scanUID = Some uid\<rparr>) cis\<rparr>)"
proof (induction cis arbitrary: f)
  case (Cons ci cis)
  have "[n ..< n + Suc k] = n # [Suc n ..< Suc (n + k)]" for n k
    by (simp add: upt_conv_Cons del: upt_Suc)
  then show ?case using Cons by (simp add: createIU_column_def del: upt_Suc)
qed simp

lemma Table_getCI_names:
  assumes "tb_ok t"
  shows "mapM_res (Table_getCI t) (Table_getColumnNames t)
    = Inr (map (\<lambda>n. fst (tb_columns t ! the (map_of (tb_columnsByName t) n))) (Table_getColumnNames t))"
proof (rule mapM_res_Inr)
  fix n assume "n \<in> set (Table_getColumnNames t)"
  then have "n \<in> fst ` set (tb_columnsByName t)"
    by (auto simp: Table_getColumnNames_def)
  then obtain i where i: "map_of (tb_columnsByName t) n = Some i"
    by (metis map_of_eq_None_iff not_Some_eq)
  then have "(n, i) \<in> set (tb_columnsByName t)" by (rule map_of_SomeD)
  then have "i < length (tb_columns t)" using assms by (auto simp: tb_ok_def set_zip)
  with i show "Table_getCI t n = Inr (fst (tb_columns t ! the (map_of (tb_columnsByName t) n)))"
    by (simp add: Table_getCI_def)
qed

definition has_unit :: "AnalyzingContext \<Rightarrow> string \<Rightarrow> string \<Rightarrow> bool" where
  "has_unit c p column \<longleftrightarrow> unit_at c p column \<noteq> None"

lemma unit_ok_cong:
  "fa_iu_vec (ac_iuFactory c') = fa_iu_vec (ac_iuFactory c) \<Longrightarrow> unit_ok c' = unit_ok c"
  by (simp add: unit_ok_def fun_eq_iff)

lemma unit_ok_extend:
  "unit_ok c iu \<Longrightarrow> fa_iu_vec (ac_iuFactory c') = fa_iu_vec (ac_iuFactory c) @ us \<Longrightarrow> unit_ok c' iu"
  by (auto simp: unit_ok_def nth_append)

definition column_of :: "AnalyzingContext \<Rightarrow> iu_p \<Rightarrow> string" where
  "column_of c iu = ci_columnName (the (iu_columnInformation (fa_iu_vec (ac_iuFactory c) ! the iu)))"

lemma store_ius_step:
  assumes "unit_ok c iu"
  shows "store_ius alias (iu # ius) c = store_ius alias ius (c\<lparr>ac_ius :=
     AList.update alias (AList.update (column_of c iu) iu (inner_map alias (ac_ius c))) (ac_ius c)\<rparr>)"
  using assms by (auto simp: unit_ok_def deref_iu_def column_of_def)

lemma store_one:
  assumes "ius_ok c" "unit_ok c iu"
    and c': "c' = c\<lparr>ac_ius := AList.update alias (AList.update (column_of c iu) iu (inner_map alias (ac_ius c))) (ac_ius c)\<rparr>"
  shows "ius_ok c'" "unit_at c' p column = (if p = alias \<and> column = column_of c iu then Some iu else unit_at c p column)"
proof -
  show at: "unit_at c' p column = (if p = alias \<and> column = column_of c iu then Some iu else unit_at c p column)"
    for p column by (simp add: unit_at_def c' update_conv')
  have "unit_ok c' = unit_ok c" by (rule unit_ok_cong) (simp add: c')
  with assms(1,2) show "ius_ok c'"
    unfolding ius_ok_def at by (auto simp: c')
qed

lemma store_ius_ok:
  assumes "ius_ok c" "\<forall>iu \<in> set ius. unit_ok c iu"
  shows "\<exists>m. store_ius alias ius c = Inr (c\<lparr>ac_ius := m\<rparr>) \<and> ius_ok (c\<lparr>ac_ius := m\<rparr>)
    \<and> (\<forall>p column iu. unit_at (c\<lparr>ac_ius := m\<rparr>) p column = Some iu \<longrightarrow>
          unit_at c p column = Some iu \<or> p = alias \<and> iu \<in> set ius)
    \<and> (\<forall>p column. has_unit c p column \<longrightarrow> has_unit (c\<lparr>ac_ius := m\<rparr>) p column)
    \<and> (\<forall>iu \<in> set ius. has_unit (c\<lparr>ac_ius := m\<rparr>) alias (column_of c iu))"
  using assms
proof (induction ius arbitrary: c)
  case Nil
  have "c\<lparr>ac_ius := ac_ius c\<rparr> = c" by simp
  with Nil show ?case by (intro exI [of _ "ac_ius c"]) simp
next
  case (Cons iu ius)
  define c' where "c' = c\<lparr>ac_ius := AList.update alias (AList.update (column_of c iu) iu (inner_map alias (ac_ius c))) (ac_ius c)\<rparr>"
  have iu: "unit_ok c iu" using Cons.prems(2) by simp
  have one: "ius_ok c'"
    "\<And>p column. unit_at c' p column = (if p = alias \<and> column = column_of c iu then Some iu else unit_at c p column)"
    using store_one [OF Cons.prems(1) iu c'_def] by auto
  have same: "unit_ok c' = unit_ok c" "column_of c' = column_of c"
    by (auto simp: unit_ok_def column_of_def c'_def fun_eq_iff)
  from Cons.IH [OF one(1)] Cons.prems(2) same(1) obtain m where m:
    "store_ius alias ius c' = Inr (c'\<lparr>ac_ius := m\<rparr>)" "ius_ok (c'\<lparr>ac_ius := m\<rparr>)"
    "\<forall>p column iu. unit_at (c'\<lparr>ac_ius := m\<rparr>) p column = Some iu \<longrightarrow>
          unit_at c' p column = Some iu \<or> p = alias \<and> iu \<in> set ius"
    "\<forall>p column. has_unit c' p column \<longrightarrow> has_unit (c'\<lparr>ac_ius := m\<rparr>) p column"
    "\<forall>iu \<in> set ius. has_unit (c'\<lparr>ac_ius := m\<rparr>) alias (column_of c' iu)"
    by auto
  have upd: "c'\<lparr>ac_ius := m\<rparr> = c\<lparr>ac_ius := m\<rparr>" by (simp add: c'_def)
  have "store_ius alias (iu # ius) c = Inr (c\<lparr>ac_ius := m\<rparr>)"
    using m(1) store_ius_step [OF iu] by (simp add: c'_def)
  moreover have "has_unit c' p column" if "has_unit c p column" for p column
    using that one(2) by (simp add: has_unit_def)
  moreover have "has_unit c' alias (column_of c iu)" using one(2) by (simp add: has_unit_def)
  ultimately show ?case
    using m(2-5) one(2) same(2) unfolding upd by (intro exI [of _ m]) (auto split: if_splits)
qed

section \<open>The context after the scans\<close>

definition effective_alias :: "PTable \<Rightarrow> string" where
  "effective_alias r = (if pt_alias r = [] then pt_name r else pt_alias r)"

definition scanned :: "AnalyzingContext \<Rightarrow> bool" where
  \<comment> \<open>every production that has units has a tree\<close>
  "scanned c \<longleftrightarrow> ius_ok c \<and> (\<forall>p column. has_unit c p column \<longrightarrow> (\<exists>tree. ac_dangling c p = Some (Some tree)))
     \<and> (\<forall>p. ac_dangling c p \<noteq> Some None)"

definition sourced :: "AnalyzingContext \<Rightarrow> bool" where
  \<comment> \<open>the units of a production are produced by its tree\<close>
  "sourced c \<longleftrightarrow> (\<forall>p column iu. unit_at c p column = Some iu \<longrightarrow>
     (\<exists>tree. ac_dangling c p = Some (Some tree) \<and> iu \<in> produced tree))"

fun scans :: "'t operator \<Rightarrow> LogicalScan multiset" where
  "scans (TableScan s) = {#s#}"
| "scans (Insert table tuples branchId) = {#}"
| "scans (Select child e) = scans child"
| "scans (Join l r exprs) = scans l + scans r"
| "scans (GroupBy child aggs) = scans child"
| "scans (Delete child tidIU table branchId) = scans child"
| "scans (Update child pairs table branchId) = scans child"
| "scans (Result child selection) = scans child"

definition tables_ok :: "'v Database \<Rightarrow> bool" where
  "tables_ok db \<longleftrightarrow> (\<forall>name t. Database_getTable db name = Some t \<longrightarrow> tb_ok t)"

definition relation_ok :: "'v Database \<Rightarrow> PTable \<Rightarrow> bool" where
  "relation_ok db r \<longleftrightarrow> (\<exists>t. Database_getTable db (pt_name r) = Some t \<and> tb_ok t)
     \<and> db_branchMapping db (pt_version r) \<noteq> None"

definition columns_of :: "'v Database \<Rightarrow> PTable \<Rightarrow> string set" where
  "columns_of db r = (case Database_getTable db (pt_name r) of None \<Rightarrow> {} | Some t \<Rightarrow> set (Table_getColumnNames t))"

definition branch_of :: "'v Database \<Rightarrow> PTable \<Rightarrow> branch_id_t" where
  "branch_of db r = fst (branch_lookup (pt_version r) db)"

definition scans_relations :: "NValue Database \<Rightarrow> PTable list \<Rightarrow> AnalyzingContext \<Rightarrow> bool" where
  \<comment> \<open>the tree of a production scans the table and the branch of a relation with that alias\<close>
  "scans_relations db rels c \<longleftrightarrow> (\<forall>p tree. ac_dangling c p = Some (Some tree) \<longrightarrow>
     (\<exists>r \<in> set rels. effective_alias r = p
        \<and> (\<exists>s. scans tree = {#s#} \<and> sc_table s = pt_name r \<and> sc_branchId s = branch_of db r)))"

lemma branch_lookup_known:
  assumes "db_branchMapping db v \<noteq> None"
  shows "branch_lookup v db = (fst (branch_lookup v db), db)"
  using assms by (auto simp: branch_lookup_def)

definition scan_columns :: "'v Table \<Rightarrow> ColumnInformation list" where
  \<comment> \<open>the columns a scan creates units for\<close>
  "scan_columns t = map (\<lambda>n. fst (tb_columns t ! the (map_of (tb_columnsByName t) n))) (Table_getColumnNames t)
     @ [tid_columnInformation]"

lemma scan_columns_names:
  assumes "tb_ok t"
  shows "map ci_columnName (scan_columns t) = Table_getColumnNames t @ [''tid'']"
proof -
  have "ci_columnName (fst (tb_columns t ! the (map_of (tb_columnsByName t) n))) = n"
    if n: "n \<in> set (Table_getColumnNames t)" for n
  proof -
    from n have "n \<in> fst ` set (tb_columnsByName t)" by (auto simp: Table_getColumnNames_def)
    then obtain i where i: "map_of (tb_columnsByName t) n = Some i"
      by (metis map_of_eq_None_iff not_Some_eq)
    then have "(n, i) \<in> set (tb_columnsByName t)" by (rule map_of_SomeD)
    with assms i show ?thesis by (auto simp: tb_ok_def set_zip)
  qed
  then show ?thesis by (simp add: scan_columns_def tid_columnInformation_def map_idI)
qed

definition scan_factory :: "u32 \<Rightarrow> ColumnInformation list \<Rightarrow> IUFactory \<Rightarrow> IUFactory" where
  "scan_factory uid cis f = f\<lparr>fa_operatorUID := fa_operatorUID f + 1,
     fa_iu_vec := fa_iu_vec f @ map (\<lambda>ci. \<lparr>iu_iuType = ColumnRef, iu_sqlType = ci_type ci,
        iu_columnInformation = Some ci, iu_scanUID = Some uid\<rparr>) cis\<rparr>"

definition scan_units :: "IUFactory \<Rightarrow> ColumnInformation list \<Rightarrow> iu_p set" where
  "scan_units f cis = Some ` {length (fa_iu_vec f) ..< length (fa_iu_vec f) + length cis}"

lemma scan_created:
  assumes "tb_ok t"
  shows "(case TableScan_new name b f of (scan, f1) \<Rightarrow> bind_res (TableScan_computeProduced t scan f1) g) =
    g (\<lparr>sc_uid = fa_operatorUID f, sc_table = name, sc_branchId = b, sc_produced = scan_units f (scan_columns t)\<rparr>,
       scan_factory (fa_operatorUID f) (scan_columns t) f)"
proof -
  have "set (map Some [n ..< m]) = Some ` {n ..< m}" for n m :: nat by simp
  then show ?thesis
    by (simp add: TableScan_new_def getUID_def TableScan_computeProduced_def Table_getCI_names [OF assms]
        create_scan_ius_spec scan_columns_def scan_units_def scan_factory_def del: upt_Suc)
qed

lemma scan_unit_ok:
  assumes "iu \<in> scan_units f cis" "fa_iu_vec (ac_iuFactory c) = fa_iu_vec (scan_factory uid cis f)"
  shows "unit_ok c iu"
proof -
  from assms(1) obtain k where k: "k < length cis" "iu = Some (length (fa_iu_vec f) + k)"
    by (auto simp: scan_units_def) (metis le_Suc_ex nat_add_left_cancel_less)
  have "fa_iu_vec (ac_iuFactory c) ! (length (fa_iu_vec f) + k) = \<lparr>iu_iuType = ColumnRef, iu_sqlType = ci_type (cis ! k),
      iu_columnInformation = Some (cis ! k), iu_scanUID = Some uid\<rparr>"
    "length (fa_iu_vec f) + k < length (fa_iu_vec (ac_iuFactory c))"
    unfolding assms(2) using k(1) by (simp_all add: scan_factory_def nth_append)
  with k(2) show ?thesis by (simp add: unit_ok_def)
qed

lemma scan_unit_column:
  assumes "ci \<in> set cis" "fa_iu_vec (ac_iuFactory c) = fa_iu_vec (scan_factory uid cis f)"
  shows "\<exists>iu \<in> scan_units f cis. column_of c iu = ci_columnName ci"
proof -
  from assms(1) obtain k where k: "k < length cis" "cis ! k = ci" by (auto simp: in_set_conv_nth)
  have "fa_iu_vec (ac_iuFactory c) ! (length (fa_iu_vec f) + k) = \<lparr>iu_iuType = ColumnRef, iu_sqlType = ci_type ci,
      iu_columnInformation = Some ci, iu_scanUID = Some uid\<rparr>"
    using k by (simp add: assms(2) scan_factory_def nth_append)
  then have "column_of c (Some (length (fa_iu_vec f) + k)) = ci_columnName ci" by (simp add: column_of_def)
  moreover have "Some (length (fa_iu_vec f) + k) \<in> scan_units f cis" using k by (simp add: scan_units_def)
  ultimately show ?thesis by blast
qed

lemma construct_scan_ok:
  assumes en: "env_ok en" and c: "scanned c" and r: "relation_ok (ac_db c) r"
  shows "\<exists>c' s. construct_scan en r c = Inr (r\<lparr>pt_alias := effective_alias r\<rparr>, c')
    \<and> scanned c' \<and> (sourced c \<and> ac_dangling c (effective_alias r) = None \<longrightarrow> sourced c')
    \<and> ac_db c' = ac_db c \<and> ac_graph c' = ac_graph c \<and> ac_joinedTree c' = ac_joinedTree c
    \<and> (\<forall>p column. has_unit c p column \<longrightarrow> has_unit c' p column)
    \<and> (\<forall>column \<in> insert ''tid'' (columns_of (ac_db c) r). has_unit c' (effective_alias r) column)
    \<and> sc_table s = pt_name r \<and> sc_branchId s = branch_of (ac_db c) r
    \<and> ac_dangling c' = (if ac_dangling c (effective_alias r) = None
         then (ac_dangling c)(effective_alias r \<mapsto> Some (TableScan s)) else ac_dangling c)"
proof -
  let ?name = "effective_alias r" and ?b = "branch_of (ac_db c) r"
  from r obtain t where t: "Database_getTable (ac_db c) (pt_name r) = Some t" "tb_ok t"
    and v: "db_branchMapping (ac_db c) (pt_version r) \<noteq> None"
    by (auto simp: relation_ok_def)
  define cis where "cis = scan_columns t"
  define f where "f = ac_iuFactory c"
  define s where "s = \<lparr>sc_uid = fa_operatorUID f, sc_table = pt_name r, sc_branchId = ?b, sc_produced = scan_units f cis\<rparr>"
  define c1 where "c1 = c\<lparr>ac_branchIds := insert ?b (ac_branchIds c), ac_iuFactory := scan_factory (fa_operatorUID f) cis f\<rparr>"
  have vec: "fa_iu_vec (ac_iuFactory c1) = fa_iu_vec (scan_factory (fa_operatorUID f) cis f)"
    "fa_iu_vec (ac_iuFactory c1) = fa_iu_vec (ac_iuFactory c) @ drop (length (fa_iu_vec f)) (fa_iu_vec (ac_iuFactory c1))"
    by (simp_all add: c1_def scan_factory_def f_def)
  have at: "unit_at c1 = unit_at c" "has_unit c1 = has_unit c" by (simp_all add: c1_def unit_at_def has_unit_def fun_eq_iff)
  have ok1: "ius_ok c1"
    using c unit_ok_extend [OF _ vec(2)] unfolding scanned_def ius_ok_def at by (auto simp: c1_def)
  have fin: "finite (scan_units f cis)" by (simp add: scan_units_def)
  with en have units: "set (en_addresses en (scan_units f cis)) = scan_units f cis" by (simp add: env_ok_def)
  then have "\<forall>iu \<in> set (en_addresses en (scan_units f cis)). unit_ok c1 iu" using scan_unit_ok [OF _ vec(1)] by blast
  from store_ius_ok [OF ok1 this, of ?name] obtain m where m:
    "store_ius ?name (en_addresses en (scan_units f cis)) c1 = Inr (c1\<lparr>ac_ius := m\<rparr>)" "ius_ok (c1\<lparr>ac_ius := m\<rparr>)"
    "\<forall>p column iu. unit_at (c1\<lparr>ac_ius := m\<rparr>) p column = Some iu \<longrightarrow>
        unit_at c1 p column = Some iu \<or> p = ?name \<and> iu \<in> scan_units f cis"
    "\<forall>p column. has_unit c1 p column \<longrightarrow> has_unit (c1\<lparr>ac_ius := m\<rparr>) p column"
    "\<forall>iu \<in> scan_units f cis. has_unit (c1\<lparr>ac_ius := m\<rparr>) ?name (column_of c1 iu)"
    unfolding units by auto
  define d where "d = (if ac_dangling c ?name = None then (ac_dangling c)(?name \<mapsto> Some (TableScan s)) else ac_dangling c)"
  define c' where "c' = c1\<lparr>ac_ius := m, ac_dangling := d\<rparr>"
  have at': "unit_at c' = unit_at (c1\<lparr>ac_ius := m\<rparr>)" "has_unit c' = has_unit (c1\<lparr>ac_ius := m\<rparr>)"
    by (simp_all add: c'_def unit_at_def has_unit_def fun_eq_iff)
  have "unit_ok c' = unit_ok (c1\<lparr>ac_ius := m\<rparr>)" by (rule unit_ok_cong) (simp add: c'_def)
  with m(2) have ok': "ius_ok c'" unfolding ius_ok_def at' by (simp add: c'_def)
  have run: "construct_scan en r c = Inr (r\<lparr>pt_alias := ?name\<rparr>, c')"
  proof -
    have rel: "(if pt_alias r = [] then r\<lparr>pt_alias := pt_name r\<rparr> else r) = r\<lparr>pt_alias := ?name\<rparr>"
      by (simp add: effective_alias_def)
    have "construct_scan en r c = bind_res (store_ius ?name (en_addresses en (sc_produced s)) c1) (\<lambda>c2.
        Inr (r\<lparr>pt_alias := ?name\<rparr>, c2\<lparr>ac_dangling := if ac_dangling c2 ?name = None
          then (ac_dangling c2)(?name \<mapsto> Some (TableScan s)) else ac_dangling c2\<rparr>))"
      using t(1) branch_lookup_known [OF v] unfolding construct_scan_def rel
      by (simp add: getTable_def branch_of_def [symmetric] scan_created [OF t(2)] Let_def s_def c1_def f_def cis_def
          cong: if_cong)
    with m(1) show ?thesis by (simp add: s_def c'_def d_def c1_def)
  qed
  have new: "d p \<noteq> None" if "p = ?name" for p using that by (simp add: d_def)
  have units_of: "unit_at c p column = Some iu \<or> p = ?name \<and> iu \<in> scan_units f cis"
    if "unit_at c' p column = Some iu" for p column iu using m(3) that unfolding at' at by blast
  have scanned_c': "scanned c'"
    unfolding scanned_def
  proof (intro conjI allI impI)
    show "ius_ok c'" by (rule ok')
    show some: "ac_dangling c' p \<noteq> Some None" for p using c by (simp add: c'_def d_def scanned_def)
    fix p column assume "has_unit c' p column"
    then obtain iu where "unit_at c' p column = Some iu" by (auto simp: has_unit_def)
    then consider "has_unit c p column" | "p = ?name" using units_of by (auto simp: has_unit_def)
    then show "\<exists>tree. ac_dangling c' p = Some (Some tree)"
    proof cases
      case 1
      with c obtain tree where "ac_dangling c p = Some (Some tree)" by (auto simp: scanned_def)
      then show ?thesis by (auto simp: c'_def d_def)
    next
      case 2
      with new some [of p] show ?thesis by (simp add: c'_def) (metis not_None_eq)
    qed
  qed
  have sourced_c': "sourced c \<and> ac_dangling c ?name = None \<longrightarrow> sourced c'"
    unfolding sourced_def [of c']
  proof (intro allI impI)
    fix p column iu assume src': "sourced c \<and> ac_dangling c ?name = None" and "unit_at c' p column = Some iu"
    from src' have src: "sourced c" "ac_dangling c ?name = None" by auto
    from \<open>unit_at c' p column = Some iu\<close>
    consider "unit_at c p column = Some iu" | "p = ?name" "iu \<in> scan_units f cis" using units_of by blast
    then show "\<exists>tree. ac_dangling c' p = Some (Some tree) \<and> iu \<in> produced tree"
    proof cases
      case 1
      with src(1) obtain tree where "ac_dangling c p = Some (Some tree)" "iu \<in> produced tree"
        unfolding sourced_def by blast
      with src(2) show ?thesis by (auto simp: c'_def d_def)
    next
      case 2
      with src(2) show ?thesis by (simp add: c'_def d_def s_def)
    qed
  qed
  have units_c': "\<forall>column \<in> insert ''tid'' (columns_of (ac_db c) r). has_unit c' ?name column"
  proof
    fix column assume "column \<in> insert ''tid'' (columns_of (ac_db c) r)"
    with t(1) have "column \<in> set (Table_getColumnNames t @ [''tid''])" by (auto simp: columns_of_def)
    then obtain ci where "ci \<in> set cis" "ci_columnName ci = column"
      unfolding scan_columns_names [OF t(2), symmetric] cis_def by auto
    with scan_unit_column [OF _ vec(1)] m(5) show "has_unit c' ?name column" unfolding at' by metis
  qed
  have keeps: "\<forall>p column. has_unit c p column \<longrightarrow> has_unit c' p column" using m(4) unfolding at' at .
  have frame: "ac_db c' = ac_db c" "ac_graph c' = ac_graph c" "ac_joinedTree c' = ac_joinedTree c"
    "sc_table s = pt_name r" "sc_branchId s = ?b"
    "ac_dangling c' = (if ac_dangling c ?name = None then (ac_dangling c)(?name \<mapsto> Some (TableScan s)) else ac_dangling c)"
    by (simp_all add: c'_def c1_def s_def d_def)
  show ?thesis
    by (intro exI [of _ c'] exI [of _ s] conjI run scanned_c' sourced_c' keeps units_c' frame)
qed

end
