(* ===== verification/SelectConstruction.thy ===== *)
theory SelectConstruction
  imports ScopeResolution
begin

text \<open>
  The construction of the tree of a query that has passed the checks: the scans, the selections, the
  join graph and the traversal of the graph succeed, and only a comparison of columns of different types
  can be rejected.
\<close>

section \<open>All scans\<close>

lemma construct_scans_ok:
  assumes en: "env_ok en" and "scanned c" "\<forall>r \<in> set rels. relation_ok (ac_db c) r"
  shows "\<exists>c'. construct_scans en rels c = Inr (map (\<lambda>r. r\<lparr>pt_alias := effective_alias r\<rparr>) rels, c')
    \<and> scanned c' \<and> ac_db c' = ac_db c \<and> ac_graph c' = ac_graph c \<and> ac_joinedTree c' = ac_joinedTree c
    \<and> (\<forall>p column. has_unit c p column \<longrightarrow> has_unit c' p column)
    \<and> (\<forall>r \<in> set rels. \<forall>column \<in> columns_of (ac_db c) r. has_unit c' (effective_alias r) column)
    \<and> dom (ac_dangling c') = dom (ac_dangling c) \<union> effective_alias ` set rels
    \<and> (\<forall>before. scans_relations (ac_db c) before c \<longrightarrow> scans_relations (ac_db c) (before @ rels) c')"
  using assms(2,3)
proof (induction rels arbitrary: c)
  case (Cons r rels)
  from construct_scan_ok [OF en Cons.prems(1), of r] Cons.prems(2) obtain c1 s where
    1: "construct_scan en r c = Inr (r\<lparr>pt_alias := effective_alias r\<rparr>, c1)"
      "scanned c1" "ac_db c1 = ac_db c" "ac_graph c1 = ac_graph c" "ac_joinedTree c1 = ac_joinedTree c"
      "\<forall>p column. has_unit c p column \<longrightarrow> has_unit c1 p column"
      "\<forall>column \<in> insert ''tid'' (columns_of (ac_db c) r). has_unit c1 (effective_alias r) column"
      "ac_dangling c1 = (if ac_dangling c (effective_alias r) = None
         then (ac_dangling c)(effective_alias r \<mapsto> Some (TableScan s)) else ac_dangling c)"
      "sc_table s = pt_name r" "sc_branchId s = branch_of (ac_db c) r"
    by auto
  from Cons.IH [OF 1(2)] Cons.prems(2) 1(3) obtain c2 where
    2: "construct_scans en rels c1 = Inr (map (\<lambda>r. r\<lparr>pt_alias := effective_alias r\<rparr>) rels, c2)"
      "scanned c2" "ac_db c2 = ac_db c1" "ac_graph c2 = ac_graph c1" "ac_joinedTree c2 = ac_joinedTree c1"
      "\<forall>p column. has_unit c1 p column \<longrightarrow> has_unit c2 p column"
      "\<forall>r \<in> set rels. \<forall>column \<in> columns_of (ac_db c) r. has_unit c2 (effective_alias r) column"
      "dom (ac_dangling c2) = dom (ac_dangling c1) \<union> effective_alias ` set rels"
      "\<And>before. scans_relations (ac_db c) before c1 \<Longrightarrow> scans_relations (ac_db c) (before @ rels) c2"
    by auto
  have "dom (ac_dangling c1) = insert (effective_alias r) (dom (ac_dangling c))" using 1(8) by auto
  moreover have "scans_relations (ac_db c) (before @ [r]) c1" if "scans_relations (ac_db c) before c" for before
    using that 1(8-10) unfolding scans_relations_def by auto
  then have "scans_relations (ac_db c) (before @ r # rels) c2" if "scans_relations (ac_db c) before c" for before
    using that 2(9) [of "before @ [r]"] by simp
  ultimately show ?case using 1(1-7) 2(1-8) by (intro exI [of _ c2]) auto
qed (simp add: exI [of _ c])

section \<open>What the checks know\<close>

definition in_scope :: "'v Database \<Rightarrow> PTable list \<Rightarrow> PColumn \<Rightarrow> bool" where
  \<comment> \<open>a column of a relation without a binding, or of the relation with the given binding\<close>
  "in_scope db rels column \<longleftrightarrow> (\<exists>r \<in> set rels. pt_alias r = pc_table column \<and> pc_name column \<in> columns_of db r)"

lemma verify_relation_Inr:
  assumes "verify_relation db r s = Inr s'"
  shows "\<exists>t. Database_getTable db (pt_name r) = Some t" "db_branchMapping db (pt_version r) \<noteq> None"
    "set (sv_unbindedColumns s') = set (sv_unbindedColumns s) \<union> (if pt_alias r = [] then columns_of db r else {})"
    "sv_bindedColumns s' a = Some names \<Longrightarrow> sv_bindedColumns s a = Some names
       \<or> pt_alias r = a \<and> a \<noteq> [] \<and> set names = columns_of db r"
  using assms unfolding verify_relation_def
  by (auto simp: bind_res_eq_Inr getTable_Inr columns_of_def Let_def split: if_splits)

lemma verify_relations_Inr:
  assumes "foldM_res (verify_relation db) rels s = Inr s'"
  shows "(\<forall>r \<in> set rels. (\<exists>t. Database_getTable db (pt_name r) = Some t) \<and> db_branchMapping db (pt_version r) \<noteq> None)
    \<and> (\<forall>n \<in> set (sv_unbindedColumns s'). n \<in> set (sv_unbindedColumns s) \<or> in_scope db rels \<lparr>pc_name = n, pc_table = []\<rparr>)
    \<and> (\<forall>a names. sv_bindedColumns s' a = Some names \<longrightarrow> sv_bindedColumns s a = Some names
         \<or> (\<forall>n \<in> set names. in_scope db rels \<lparr>pc_name = n, pc_table = a\<rparr>))"
  using assms
proof (induction rels arbitrary: s)
  case (Cons r rels)
  then obtain s1 where s1: "verify_relation db r s = Inr s1" "foldM_res (verify_relation db) rels s1 = Inr s'"
    by (auto simp: bind_res_eq_Inr)
  note v = verify_relation_Inr [OF s1(1)] and IH = Cons.IH [OF s1(2)]
  have mono: "in_scope db rels c \<Longrightarrow> in_scope db (r # rels) c" for c by (auto simp: in_scope_def)
  have here: "in_scope db (r # rels) \<lparr>pc_name = n, pc_table = pt_alias r\<rparr>" if "n \<in> columns_of db r" for n
    using that by (auto simp: in_scope_def)
  show ?case
  proof (intro conjI)
    show "\<forall>x \<in> set (r # rels). (\<exists>t. Database_getTable db (pt_name x) = Some t) \<and> db_branchMapping db (pt_version x) \<noteq> None"
      using v(1,2) IH by auto
    show "\<forall>n \<in> set (sv_unbindedColumns s'). n \<in> set (sv_unbindedColumns s) \<or> in_scope db (r # rels) \<lparr>pc_name = n, pc_table = []\<rparr>"
      using v(3) IH mono here by (auto split: if_splits)
    show "\<forall>a names. sv_bindedColumns s' a = Some names \<longrightarrow> sv_bindedColumns s a = Some names
         \<or> (\<forall>n \<in> set names. in_scope db (r # rels) \<lparr>pc_name = n, pc_table = a\<rparr>)"
      using v(4) IH mono here by metis
  qed
qed simp

lemma verify_column_Inr:
  "verify_column s column = Inr u \<longleftrightarrow>
     (if pc_table column = [] then pc_name column \<in> set (sv_unbindedColumns s)
      else \<exists>names. sv_bindedColumns s (pc_table column) = Some names \<and> pc_name column \<in> set names)"
  by (auto simp: verify_column_def Let_def split: option.splits)

lemma verified_select:
  assumes "SelectAnalyser_verify db (Some stmt) = Inr u"
  shows "\<forall>r \<in> set (sel_relations stmt). (\<exists>t. Database_getTable db (pt_name r) = Some t) \<and> db_branchMapping db (pt_version r) \<noteq> None"
    "\<forall>(column, v) \<in> set (sel_selections stmt). in_scope db (sel_relations stmt) column"
    "\<forall>column \<in> set (sel_projections stmt). in_scope db (sel_relations stmt) column"
    "\<forall>(v, u) \<in> set (sel_joinConditions stmt). in_scope db (sel_relations stmt) v \<and> in_scope db (sel_relations stmt) u"
proof -
  from assms obtain s where
    s: "foldM_res (verify_relation db) (sel_relations stmt)
          \<lparr>sv_unbindedColumns = [], sv_relations = [], sv_bindedColumns = Map.empty\<rparr> = Inr s"
      "\<forall>(column, v) \<in> set (sel_selections stmt). verify_column s column = Inr ()"
      "\<forall>column \<in> set (sel_projections stmt). verify_column s column = Inr ()"
      "\<forall>(v, u) \<in> set (sel_joinConditions stmt). verify_column s v = Inr () \<and> verify_column s u = Inr ()"
    by (auto simp: SelectAnalyser_verify_def bind_res_eq_Inr split: prod.splits)
  note rels = verify_relations_Inr [OF s(1), simplified]
  have scope: "in_scope db (sel_relations stmt) column" if "verify_column s column = Inr ()" for column
  proof -
    have "column = \<lparr>pc_name = pc_name column, pc_table = pc_table column\<rparr>" by simp
    with that rels show ?thesis unfolding verify_column_Inr by (metis (mono_tags))
  qed
  show "\<forall>r \<in> set (sel_relations stmt). (\<exists>t. Database_getTable db (pt_name r) = Some t) \<and> db_branchMapping db (pt_version r) \<noteq> None"
    using rels by blast
  show "\<forall>(column, v) \<in> set (sel_selections stmt). in_scope db (sel_relations stmt) column"
    "\<forall>column \<in> set (sel_projections stmt). in_scope db (sel_relations stmt) column"
    "\<forall>(v, u) \<in> set (sel_joinConditions stmt). in_scope db (sel_relations stmt) v \<and> in_scope db (sel_relations stmt) u"
    using s(2-4) scope by auto
qed

section \<open>Selections\<close>

definition resolvable :: "AnalyzingContext \<Rightarrow> PColumn \<Rightarrow> bool" where
  "resolvable c column \<longleftrightarrow> (if pc_table column = [] then \<exists>p. has_unit c p (pc_name column)
     else has_unit c (pc_table column) (pc_name column))"

lemma ius_at_has:
  assumes "unit_at c p column = Some iu"
  shows "\<exists>m. ius_at p column c = (iu, c\<lparr>ac_ius := m\<rparr>) \<and> unit_at (c\<lparr>ac_ius := m\<rparr>) = unit_at c
    \<and> (ius_ok c \<longrightarrow> ius_ok (c\<lparr>ac_ius := m\<rparr>))"
proof -
  define m where "m = AList.update p (inner_map p (ac_ius c)) (ac_ius c)"
  have run: "ius_at p column c = (iu, c\<lparr>ac_ius := m\<rparr>)"
    using assms by (simp add: ius_at_def unit_at_def insert_new_def m_def)
  have at: "unit_at (c\<lparr>ac_ius := m\<rparr>) = unit_at c" by (simp add: unit_at_def m_def fun_eq_iff)
  have "unit_ok (c\<lparr>ac_ius := m\<rparr>) = unit_ok c" by (rule unit_ok_cong) simp
  then have "ius_ok c \<longrightarrow> ius_ok (c\<lparr>ac_ius := m\<rparr>)" unfolding ius_ok_def at by (simp add: m_def)
  with run at show ?thesis by blast
qed

lemma Comparison_with_constant:
  assumes "iu_getType ius iu = Inr type"
  shows "Comparison_ctor eq ius (Identifier iu) (Constant val type)
    = Inr (Comparison eq (Identifier iu) (Constant val type) (getBoolTy (ty_nullable type)))"
  using assms by (simp add: Comparison_ctor_def inferCompareTy_def SqlType_equals_def)

lemma unit_ok_deref:
  assumes "unit_ok c iu"
  shows "\<exists>unit ci. deref_iu (fa_iu_vec (ac_iuFactory c)) iu = Inr unit \<and> iu_columnInformation unit = Some ci
    \<and> iu_getType (fa_iu_vec (ac_iuFactory c)) iu = Inr (ci_type ci)"
  using assms by (auto simp: unit_ok_def deref_iu_def iu_getType_def)

definition selection_unit :: "environment \<Rightarrow> PColumn \<Rightarrow> AnalyzingContext \<Rightarrow> string \<times> iu_p" where
  \<comment> \<open>the production and the unit a resolvable column stands for\<close>
  "selection_unit en column c =
     (if pc_table column = [] then last (column_hits en (pc_name column) c)
      else (pc_table column, the (unit_at c (pc_table column) (pc_name column))))"

lemma selection_unit_at:
  assumes "env_ok en" "ius_ok c" "resolvable c column" "selection_unit en column c = (p, iu)"
  shows "unit_at c p (pc_name column) = Some iu"
proof (cases "pc_table column = []")
  case True
  with assms(3) obtain q iu' where "unit_at c q (pc_name column) = Some iu'" by (auto simp: resolvable_def has_unit_def)
  then have "column_hits en (pc_name column) c \<noteq> []"
    using column_hits_iff [OF assms(1,2)] by (metis empty_iff empty_set)
  with assms(4) True have "(p, iu) \<in> set (column_hits en (pc_name column) c)"
    by (metis selection_unit_def last_in_set)
  with column_hits_iff [OF assms(1,2)] show ?thesis by blast
next
  case False
  with assms(3,4) show ?thesis by (auto simp: resolvable_def has_unit_def selection_unit_def)
qed

lemma construct_select_run:
  assumes en: "env_ok en" and c: "scanned c" and res: "resolvable c column"
    and unit: "selection_unit en column c = (p, iu)"
  shows "\<exists>m tree exp. ac_dangling c p = Some (Some tree)
    \<and> construct_select en (column, val) c = Inr (next_uid (c\<lparr>ac_ius := m, ac_dangling := (ac_dangling c)(p \<mapsto> Some (Select tree exp))\<rparr>))
    \<and> unit_at (c\<lparr>ac_ius := m\<rparr>) = unit_at c \<and> ius_ok (c\<lparr>ac_ius := m\<rparr>)
    \<and> (\<exists>type. iu_getType (fa_iu_vec (ac_iuFactory c)) iu = Inr type
          \<and> exp = Comparison eq (Identifier iu) (Constant val type) (getBoolTy (ty_nullable type)))"
proof -
  have ok: "ius_ok c" using c by (simp add: scanned_def)
  have at: "unit_at c p (pc_name column) = Some iu" by (rule selection_unit_at [OF en ok res unit])
  with ok have "unit_ok c iu" unfolding ius_ok_def by blast
  from at c obtain tree where tree: "ac_dangling c p = Some (Some tree)"
    unfolding scanned_def has_unit_def by blast
  define m where "m = (if pc_table column = [] then ac_ius c else ac_ius (snd (ius_at p (pc_name column) c)))"
  have m: "unit_at (c\<lparr>ac_ius := m\<rparr>) = unit_at c" "ius_ok (c\<lparr>ac_ius := m\<rparr>)"
    using ius_at_has [OF at] ok by (auto simp: m_def)
  have chosen: "(if pc_table column = []
       then (if column_hits en (pc_name column) c = [] then ([], None, c)
             else (fst (last (column_hits en (pc_name column) c)), snd (last (column_hits en (pc_name column) c)), c))
       else (case ius_at (pc_table column) (pc_name column) c of (iu, c1) \<Rightarrow> (pc_table column, iu, c1)))
     = (p, iu, c\<lparr>ac_ius := m\<rparr>)"
  proof (cases "pc_table column = []")
    case True
    with at column_hits_iff [OF en ok] have "column_hits en (pc_name column) c \<noteq> []" by (metis empty_iff empty_set)
    with True unit show ?thesis by (simp add: selection_unit_def m_def)
  next
    case False
    with unit have "p = pc_table column" by (simp add: selection_unit_def)
    with False ius_at_has [OF at] show ?thesis by (auto simp: m_def)
  qed
  from unit_ok_deref [OF \<open>unit_ok c iu\<close>] obtain u ci where
    u: "deref_iu (fa_iu_vec (ac_iuFactory c)) iu = Inr u" "iu_columnInformation u = Some ci"
      "iu_getType (fa_iu_vec (ac_iuFactory c)) iu = Inr (ci_type ci)" by blast
  define exp where "exp = Comparison eq (Identifier iu) (Constant val (ci_type ci)) (getBoolTy (ty_nullable (ci_type ci)))"
  have "construct_select en (column, val) c
      = Inr (next_uid (c\<lparr>ac_ius := m, ac_dangling := (ac_dangling c)(p \<mapsto> Some (Select tree exp))\<rparr>))"
    unfolding construct_select_def Let_def prod.case chosen
    using u(1,2) Comparison_with_constant [OF u(3)] tree
    by (simp add: take_production_def exp_def)
  with tree m u(3) show ?thesis unfolding exp_def by blast
qed

definition same_base :: "AnalyzingContext \<Rightarrow> AnalyzingContext \<Rightarrow> bool" where
  \<comment> \<open>the parts of a context the construction keeps after the scans\<close>
  "same_base c c' \<longleftrightarrow> ac_db c' = ac_db c \<and> fa_iu_vec (ac_iuFactory c') = fa_iu_vec (ac_iuFactory c)
     \<and> unit_at c' = unit_at c"

lemma same_base_refl [simp]: "same_base c c"
  by (simp add: same_base_def)

lemma same_base_trans: "same_base c c' \<Longrightarrow> same_base c' c'' \<Longrightarrow> same_base c c''"
  by (simp add: same_base_def)

lemma same_base_units:
  assumes "same_base c c'"
  shows "has_unit c' = has_unit c" "resolvable c' = resolvable c" "unit_ok c' = unit_ok c"
  using assms by (auto simp: same_base_def has_unit_def resolvable_def unit_ok_def fun_eq_iff)

lemma next_uid_parts [simp]:
  "ac_db (next_uid c) = ac_db c" "ac_ius (next_uid c) = ac_ius c" "ac_dangling (next_uid c) = ac_dangling c"
  "ac_graph (next_uid c) = ac_graph c" "ac_joinedTree (next_uid c) = ac_joinedTree c"
  "fa_iu_vec (ac_iuFactory (next_uid c)) = fa_iu_vec (ac_iuFactory c)"
  by (simp_all add: next_uid_def getUID_def)

lemma construct_select_ok:
  assumes en: "env_ok en" and c: "scanned c" and res: "resolvable c column"
  shows "\<exists>c'. construct_select en (column, val) c = Inr c' \<and> scanned c' \<and> same_base c c'
    \<and> (sourced c \<longrightarrow> sourced c') \<and> dom (ac_dangling c') = dom (ac_dangling c)
    \<and> (\<forall>db rels. scans_relations db rels c \<longrightarrow> scans_relations db rels c')
    \<and> ac_graph c' = ac_graph c \<and> ac_joinedTree c' = ac_joinedTree c"
proof -
  obtain p iu where "selection_unit en column c = (p, iu)" by force
  from construct_select_run [OF en c res this, of val] obtain m tree exp where
    tree: "ac_dangling c p = Some (Some tree)" and
    run: "construct_select en (column, val) c
       = Inr (next_uid (c\<lparr>ac_ius := m, ac_dangling := (ac_dangling c)(p \<mapsto> Some (Select tree exp))\<rparr>))" and
    m: "unit_at (c\<lparr>ac_ius := m\<rparr>) = unit_at c" "ius_ok (c\<lparr>ac_ius := m\<rparr>)" by blast
  define c' where "c' = next_uid (c\<lparr>ac_ius := m, ac_dangling := (ac_dangling c)(p \<mapsto> Some (Select tree exp))\<rparr>)"
  have at: "unit_at c' = unit_at c" using m(1) by (simp add: c'_def unit_at_def fun_eq_iff)
  have base: "same_base c c'" using at by (simp add: same_base_def c'_def)
  have "ius_ok c'"
    using m c unfolding ius_ok_def at scanned_def same_base_units(3) [OF base] by (simp add: c'_def)
  then have "scanned c'"
    using c tree unfolding scanned_def same_base_units(1) [OF base] by (auto simp: c'_def)
  moreover have "sourced c'" if "sourced c"
    using that tree unfolding sourced_def at by (auto simp: c'_def) (metis option.inject)
  moreover have "dom (ac_dangling c') = dom (ac_dangling c)" using tree by (auto simp: c'_def)
  moreover have "scans_relations db rels c'" if "scans_relations db rels c" for db rels
    using that tree unfolding scans_relations_def by (auto simp: c'_def)
  ultimately show ?thesis using run base unfolding c'_def [symmetric] by (auto simp: c'_def)
qed

lemma construct_selects_ok:
  assumes "env_ok en" "scanned c" "\<forall>(column, v) \<in> set sels. resolvable c column"
  shows "\<exists>c'. construct_selects en sels c = Inr c' \<and> scanned c' \<and> same_base c c'
    \<and> (sourced c \<longrightarrow> sourced c') \<and> dom (ac_dangling c') = dom (ac_dangling c)
    \<and> (\<forall>db rels. scans_relations db rels c \<longrightarrow> scans_relations db rels c')
    \<and> ac_graph c' = ac_graph c \<and> ac_joinedTree c' = ac_joinedTree c"
  using assms(2,3) unfolding construct_selects_def
proof (induction sels arbitrary: c)
  case (Cons sel sels)
  obtain column v where sel: "sel = (column, v)" by force
  from construct_select_ok [OF assms(1) Cons.prems(1), of column v] Cons.prems(2) sel obtain c1 where
    1: "construct_select en sel c = Inr c1" "scanned c1" "same_base c c1" "sourced c \<longrightarrow> sourced c1"
      "\<forall>db rels. scans_relations db rels c \<longrightarrow> scans_relations db rels c1"
      "dom (ac_dangling c1) = dom (ac_dangling c)" "ac_graph c1 = ac_graph c" "ac_joinedTree c1 = ac_joinedTree c"
    by auto
  have "\<forall>(column, v) \<in> set sels. resolvable c1 column"
    using Cons.prems(2) unfolding same_base_units(2) [OF 1(3)] by simp
  from Cons.IH [OF 1(2) this] obtain c2 where
    2: "foldM_res (construct_select en) sels c1 = Inr c2" "scanned c2" "same_base c1 c2" "sourced c1 \<longrightarrow> sourced c2"
      "\<forall>db rels. scans_relations db rels c1 \<longrightarrow> scans_relations db rels c2"
      "dom (ac_dangling c2) = dom (ac_dangling c1)" "ac_graph c2 = ac_graph c1" "ac_joinedTree c2 = ac_joinedTree c1"
    by blast
  then show ?case using 1 same_base_trans [OF 1(3) 2(3)] by (intro exI [of _ c2]) simp
qed (simp add: exI [of _ c])

section \<open>The join graph\<close>

definition graph_names :: "JoinGraph \<Rightarrow> string set" where
  "graph_names g = dom (map_of (jg_vertices g))"

definition edges_within :: "JoinGraph \<Rightarrow> bool" where
  "edges_within g \<longleftrightarrow> (\<forall>e \<in> set (jg_edges g). je_vID e \<in> graph_names g \<and> je_uID e \<in> graph_names g)"

definition unvisited :: "JoinGraph \<Rightarrow> string set" where
  "unvisited g = {v. \<exists>vertex. map_of (jg_vertices g) v = Some vertex \<and> \<not> jv_visited vertex}"

definition has_production :: "JoinGraph \<Rightarrow> string \<Rightarrow> bool" where
  "has_production g v \<longleftrightarrow> (\<exists>vertex tree. map_of (jg_vertices g) v = Some vertex \<and> jv_production vertex = Some tree)"

lemma finite_graph_names [simp]: "finite (graph_names g)" "finite (unvisited g)"
proof -
  show "finite (graph_names g)" by (simp add: graph_names_def finite_dom_map_of)
  then show "finite (unvisited g)" by (rule rev_finite_subset) (auto simp: unvisited_def graph_names_def)
qed

definition production_of :: "JoinGraph \<Rightarrow> string \<Rightarrow> tree option" where
  "production_of g v = (case map_of (jg_vertices g) v of None \<Rightarrow> None | Some vertex \<Rightarrow> jv_production vertex)"

definition fresh_graph :: "JoinGraph \<Rightarrow> bool" where
  \<comment> \<open>no vertex has been visited, and every vertex has its production\<close>
  "fresh_graph g \<longleftrightarrow> umap_ok (jg_vertices g) \<and> unvisited g = graph_names g \<and> (\<forall>v \<in> graph_names g. has_production g v)"

lemma has_production_iff: "has_production g v \<longleftrightarrow> (\<exists>tree. production_of g v = Some tree)"
  by (cases "map_of (jg_vertices g) v") (simp_all add: has_production_def production_of_def)

lemma production_of_addVertex:
  "production_of (addVertex a vertex g) v
    = (if v = a \<and> a \<notin> graph_names g then jv_production vertex else production_of g v)"
  by (auto simp: production_of_def addVertex_def graph_names_def)

lemma add_vertices_ok:
  assumes "\<forall>r \<in> set rels. \<exists>tree. ac_dangling c (effective_alias r) = Some tree"
    and "\<forall>r \<in> set rels. effective_alias r \<notin> graph_names (ac_graph c) \<longrightarrow> (\<exists>tree. ac_dangling c (effective_alias r) = Some (Some tree))"
    and "fresh_graph (ac_graph c)" "jg_edges (ac_graph c) = []"
  shows "\<exists>rels' c'. add_vertices rels c = (rels', c') \<and> c' = c\<lparr>ac_dangling := ac_dangling c', ac_graph := ac_graph c'\<rparr>
    \<and> fresh_graph (ac_graph c') \<and> jg_edges (ac_graph c') = []
    \<and> graph_names (ac_graph c') = graph_names (ac_graph c) \<union> effective_alias ` set rels
    \<and> rels' = map (\<lambda>r. r\<lparr>pt_alias := []\<rparr>) rels
    \<and> (\<forall>v tree. production_of (ac_graph c') v = Some tree \<longrightarrow>
         production_of (ac_graph c) v = Some tree \<or> ac_dangling c v = Some (Some tree))"
  using assms
proof (induction rels arbitrary: c)
  case (Cons r rels)
  let ?a = "effective_alias r"
  define p where "p = (case ac_dangling c ?a of Some p \<Rightarrow> p | None \<Rightarrow> None)"
  define c1 where "c1 = c\<lparr>ac_dangling := (ac_dangling c)(?a \<mapsto> None),
      ac_graph := addVertex ?a \<lparr>jv_production = p, jv_visited = False\<rparr> (ac_graph c)\<rparr>"
  have step: "add_vertex r c = (r\<lparr>pt_alias := []\<rparr>, c1)"
    by (simp add: add_vertex_def effective_alias_def [symmetric] p_def c1_def Let_def)
  have names: "graph_names (ac_graph c1) = insert ?a (graph_names (ac_graph c))"
    by (auto simp: c1_def graph_names_def addVertex_def)
  have fresh1: "fresh_graph (ac_graph c1)"
  proof (cases "?a \<in> graph_names (ac_graph c)")
    case True
    then have "ac_graph c1 = ac_graph c" by (auto simp: c1_def addVertex_def insert_new_def graph_names_def)
    with Cons.prems(3) show ?thesis by simp
  next
    case False
    with Cons.prems(2) obtain tree where "p = Some tree" by (auto simp: p_def)
    moreover have "map_of (jg_vertices (ac_graph c1)) = (map_of (jg_vertices (ac_graph c)))(?a \<mapsto> \<lparr>jv_production = p, jv_visited = False\<rparr>)"
      using False by (auto simp: c1_def addVertex_def graph_names_def)
    moreover have "umap_ok (jg_vertices (ac_graph c1))"
      using Cons.prems(3) by (simp add: c1_def addVertex_def fresh_graph_def)
    ultimately show ?thesis
      using Cons.prems(3) unfolding fresh_graph_def names by (auto simp: unvisited_def has_production_def)
  qed
  have edges1: "jg_edges (ac_graph c1) = []" using Cons.prems(4) by (simp add: c1_def addVertex_def)
  have some1: "\<forall>x \<in> set rels. \<exists>tree. ac_dangling c1 (effective_alias x) = Some tree"
    using Cons.prems(1) by (simp add: c1_def)
  have tree1: "\<forall>x \<in> set rels. effective_alias x \<notin> graph_names (ac_graph c1) \<longrightarrow>
      (\<exists>tree. ac_dangling c1 (effective_alias x) = Some (Some tree))"
    using Cons.prems(2) unfolding names by (auto simp: c1_def)
  from Cons.IH [OF some1 tree1 fresh1 edges1] obtain rels' c' where c': "add_vertices rels c1 = (rels', c')"
    "c' = c1\<lparr>ac_dangling := ac_dangling c', ac_graph := ac_graph c'\<rparr>" "fresh_graph (ac_graph c')" "jg_edges (ac_graph c') = []"
    "graph_names (ac_graph c') = graph_names (ac_graph c1) \<union> effective_alias ` set rels" "rels' = map (\<lambda>r. r\<lparr>pt_alias := []\<rparr>) rels"
    "\<forall>v tree. production_of (ac_graph c') v = Some tree \<longrightarrow>
         production_of (ac_graph c1) v = Some tree \<or> ac_dangling c1 v = Some (Some tree)"
    by blast
  have "production_of (ac_graph c) v = Some tree \<or> ac_dangling c v = Some (Some tree)"
    if "production_of (ac_graph c1) v = Some tree \<or> ac_dangling c1 v = Some (Some tree)" for v tree
  proof (cases "v = ?a")
    case True
    with that have "production_of (ac_graph c) v = Some tree \<or> p = Some tree"
      by (auto simp: c1_def production_of_addVertex split: if_splits)
    with True show ?thesis by (cases "ac_dangling c ?a") (auto simp: p_def)
  qed (use that in \<open>simp add: c1_def production_of_addVertex\<close>)
  with c'(7) have "\<forall>v tree. production_of (ac_graph c') v = Some tree \<longrightarrow>
         production_of (ac_graph c) v = Some tree \<or> ac_dangling c v = Some (Some tree)" by blast
  moreover
  have "c' = c\<lparr>ac_dangling := ac_dangling c', ac_graph := ac_graph c'\<rparr>" by (subst c'(2)) (simp add: c1_def)
  ultimately show ?case using step c'(1,3-6) names by simp
qed simp

definition endpoints :: "JoinEdge \<Rightarrow> string \<times> string" where
  "endpoints e = (je_vID e, je_uID e)"

lemma edges_within_endpoints:
  "edges_within g \<longleftrightarrow> endpoints ` set (jg_edges g) \<subseteq> graph_names g \<times> graph_names g"
  by (auto simp: edges_within_def endpoints_def)

lemma push_expression_endpoints [simp]:
  "map endpoints (push_expression v u exp es) = map endpoints es"
  by (induction es) (auto simp: endpoints_def)

lemma Comparison_of_units:
  assumes "unit_ok c iuV" "unit_ok c iuU"
  shows "(\<exists>e. Comparison_ctor eq (fa_iu_vec (ac_iuFactory c)) (Identifier iuV) (Identifier iuU) = Inr e)
    \<or> (\<exists>m. Comparison_ctor eq (fa_iu_vec (ac_iuFactory c)) (Identifier iuV) (Identifier iuU) = Inl (ArithmeticException m))"
proof -
  from unit_ok_deref [OF assms(1)] unit_ok_deref [OF assms(2)] obtain tv tu where
    "iu_getType (fa_iu_vec (ac_iuFactory c)) iuV = Inr tv" "iu_getType (fa_iu_vec (ac_iuFactory c)) iuU = Inr tu" by blast
  then show ?thesis by (auto simp: Comparison_ctor_def split: option.split)
qed

lemma resolve_table_unit:
  assumes "env_ok en" "ius_ok c" "resolvable c column"
  shows "\<exists>iu. selection_unit en column c = (resolve_table en column c, iu)
    \<and> unit_at c (resolve_table en column c) (pc_name column) = Some iu"
proof -
  obtain p iu where u: "selection_unit en column c = (p, iu)" by force
  note at = selection_unit_at [OF assms u]
  have "p = resolve_table en column c"
  proof (cases "pc_table column = []")
    case True
    with at column_hits_iff [OF assms(1,2)] have "column_hits en (pc_name column) c \<noteq> []" by (metis empty_iff empty_set)
    with True u show ?thesis by (auto simp: selection_unit_def resolve_table_def split: list.split)
  qed (use u in \<open>simp add: selection_unit_def resolve_table_def\<close>)
  with u at show ?thesis by simp
qed

lemma add_condition_ok:
  assumes en: "env_ok en" and ok: "ius_ok c" and res: "resolvable c v" "resolvable c u"
    and names: "\<forall>p column. has_unit c p column \<longrightarrow> p \<in> graph_names (ac_graph c)" and g: "edges_within (ac_graph c)"
  shows "(\<exists>c'. add_condition en (v, u) c = Inr c' \<and> ius_ok c' \<and> same_base c c'
      \<and> jg_vertices (ac_graph c') = jg_vertices (ac_graph c) \<and> edges_within (ac_graph c') \<and> ac_joinedTree c' = ac_joinedTree c)
    \<or> (\<exists>m. add_condition en (v, u) c = Inl (ArithmeticException m))"
proof -
  let ?v = "resolve_table en v c" and ?u = "resolve_table en u c"
  from resolve_table_unit [OF en ok res(1)] obtain iuV where V: "unit_at c ?v (pc_name v) = Some iuV" by blast
  from resolve_table_unit [OF en ok res(2)] obtain iuU where U: "unit_at c ?u (pc_name u) = Some iuU" by blast
  define g1 where "g1 = (if hasEdge ?v ?u (ac_graph c) then ac_graph c
      else addEdge \<lparr>je_vID = ?v, je_uID = ?u, je_expressions = []\<rparr> (ac_graph c))"
  define c1 where "c1 = c\<lparr>ac_graph := g1\<rparr>"
  have at1: "unit_at c1 = unit_at c" by (simp add: c1_def unit_at_def fun_eq_iff)
  have base1: "same_base c c1" by (simp add: same_base_def at1, simp add: c1_def)
  have "ius_ok c1" using ok unfolding ius_ok_def at1 same_base_units(3) [OF base1] by (simp add: c1_def)
  with V ius_at_has [of c1 ?v "pc_name v" iuV] obtain m2 where
    m2: "ius_at ?v (pc_name v) c1 = (iuV, c1\<lparr>ac_ius := m2\<rparr>)" "unit_at (c1\<lparr>ac_ius := m2\<rparr>) = unit_at c1"
      "ius_ok (c1\<lparr>ac_ius := m2\<rparr>)" unfolding at1 by blast
  define c2 where "c2 = c1\<lparr>ac_ius := m2\<rparr>"
  have "unit_at c2 ?u (pc_name u) = Some iuU" using U m2(2) at1 by (simp add: c2_def)
  from ius_at_has [OF this] m2(3) obtain m3 where
    m3: "ius_at ?u (pc_name u) c2 = (iuU, c2\<lparr>ac_ius := m3\<rparr>)" "unit_at (c2\<lparr>ac_ius := m3\<rparr>) = unit_at c2"
      "ius_ok (c2\<lparr>ac_ius := m3\<rparr>)" unfolding c2_def by blast
  define c3 where "c3 = c2\<lparr>ac_ius := m3\<rparr>"
  have at3: "unit_at c3 = unit_at c" using m3(2) m2(2) at1 by (simp add: c3_def c2_def)
  have base3: "same_base c c3" by (simp add: same_base_def at3, simp add: c3_def c2_def c1_def)
  have run: "add_condition en (v, u) c = bind_res (Comparison_ctor eq (fa_iu_vec (ac_iuFactory c3)) (Identifier iuV) (Identifier iuU))
      (\<lambda>exp. Inr (c3\<lparr>ac_graph := (ac_graph c3)\<lparr>jg_edges := push_expression ?v ?u exp (jg_edges (ac_graph c3))\<rparr>\<rparr>))"
    using m2(1) m3(1) by (simp add: add_condition_def Let_def g1_def [symmetric] c1_def [symmetric] c2_def c3_def)
  have "unit_ok c3 iuV" "unit_ok c3 iuU"
    using V U ok unfolding same_base_units(3) [OF base3] ius_ok_def by blast+
  from Comparison_of_units [OF this] show ?thesis
  proof
    assume "\<exists>e. Comparison_ctor eq (fa_iu_vec (ac_iuFactory c3)) (Identifier iuV) (Identifier iuU) = Inr e"
    then obtain e where e: "Comparison_ctor eq (fa_iu_vec (ac_iuFactory c3)) (Identifier iuV) (Identifier iuU) = Inr e" ..
    define c4 where "c4 = c3\<lparr>ac_graph := (ac_graph c3)\<lparr>jg_edges := push_expression ?v ?u e (jg_edges (ac_graph c3))\<rparr>\<rparr>"
    have at4: "unit_at c4 = unit_at c" using at3 by (simp add: c4_def unit_at_def fun_eq_iff)
    have base4: "same_base c c4" using base3 by (simp add: same_base_def at4) (simp add: c4_def)
    have "ius_ok c4" using m3(3) ok unfolding ius_ok_def at4 same_base_units(3) [OF base4] by (simp add: c4_def c3_def)
    moreover have "jg_vertices (ac_graph c4) = jg_vertices (ac_graph c)"
      by (simp add: c4_def c3_def c2_def c1_def g1_def addEdge_def)
    moreover have "edges_within (ac_graph c4)"
    proof -
      have n: "graph_names (ac_graph c4) = graph_names (ac_graph c)"
        using \<open>jg_vertices (ac_graph c4) = _\<close> by (simp add: graph_names_def)
      have "map endpoints (jg_edges (ac_graph c4)) = map endpoints (jg_edges g1)"
        by (simp add: c4_def c3_def c2_def c1_def)
      then have "endpoints ` set (jg_edges (ac_graph c4)) = endpoints ` set (jg_edges g1)" by (metis set_map)
      moreover have "?v \<in> graph_names (ac_graph c)" "?u \<in> graph_names (ac_graph c)"
        using names V U by (auto simp: has_unit_def)
      ultimately show ?thesis
        using g unfolding edges_within_endpoints n by (auto simp: g1_def addEdge_def endpoints_def)
    qed
    moreover have "ac_joinedTree c4 = ac_joinedTree c" by (simp add: c4_def c3_def c2_def c1_def)
    ultimately show ?thesis using run e base4 by (auto simp: c4_def)
  qed (use run in auto)
qed

lemma add_conditions_ok:
  assumes "env_ok en" "ius_ok c" "\<forall>(v, u) \<in> set conds. resolvable c v \<and> resolvable c u"
    and "\<forall>p column. has_unit c p column \<longrightarrow> p \<in> graph_names (ac_graph c)" "edges_within (ac_graph c)"
  shows "(\<exists>c'. foldM_res (add_condition en) conds c = Inr c' \<and> ius_ok c' \<and> same_base c c'
      \<and> jg_vertices (ac_graph c') = jg_vertices (ac_graph c) \<and> edges_within (ac_graph c') \<and> ac_joinedTree c' = ac_joinedTree c)
    \<or> (\<exists>m. foldM_res (add_condition en) conds c = Inl (ArithmeticException m))"
  using assms(2-)
proof (induction conds arbitrary: c)
  case (Cons cond conds)
  obtain v u where cond: "cond = (v, u)" by force
  have "resolvable c v" "resolvable c u" using Cons.prems(2) cond by auto
  from add_condition_ok [OF assms(1) Cons.prems(1) this Cons.prems(3,4)] show ?case
  proof
    assume "\<exists>c'. add_condition en (v, u) c = Inr c' \<and> ius_ok c' \<and> same_base c c'
      \<and> jg_vertices (ac_graph c') = jg_vertices (ac_graph c) \<and> edges_within (ac_graph c') \<and> ac_joinedTree c' = ac_joinedTree c"
    then obtain c1 where c1: "add_condition en (v, u) c = Inr c1" "ius_ok c1" "same_base c c1"
      "jg_vertices (ac_graph c1) = jg_vertices (ac_graph c)" "edges_within (ac_graph c1)" "ac_joinedTree c1 = ac_joinedTree c" by blast
    have "\<forall>(v, u) \<in> set conds. resolvable c1 v \<and> resolvable c1 u"
      using Cons.prems(2) unfolding same_base_units [OF c1(3)] by auto
    moreover have "\<forall>p column. has_unit c1 p column \<longrightarrow> p \<in> graph_names (ac_graph c1)"
      using Cons.prems(3) unfolding same_base_units [OF c1(3)] by (simp add: graph_names_def c1(4))
    ultimately show ?thesis
      using Cons.IH [OF c1(2) _ _ c1(5)] c1 same_base_trans [OF c1(3)] unfolding cond by auto
  qed (auto simp: cond)
qed simp

end
