(* ===== verification/JoinConstruction.thy ===== *)
theory JoinConstruction
  imports SelectConstruction
begin

text \<open>
  The traversal of the join graph. Whatever the order of the edges and of the iteration, the traversal
  ends without following a null pointer, and the tree holds the relations of the vertices it has
  visited, each of them once; which vertices those are depends on the edges, because the traversal
  changes the edges while it follows them.
\<close>

definition visited :: "JoinGraph \<Rightarrow> string set" where
  "visited g = graph_names g - unvisited g"

definition ref_ok :: "name_ref \<Rightarrow> JoinGraph \<Rightarrow> bool" where
  "ref_ok r g \<longleftrightarrow> (case r of LocalName s \<Rightarrow> True | EdgeU i \<Rightarrow> i < length (jg_edges g))"

definition holds :: "(string \<Rightarrow> tree) \<Rightarrow> string set \<Rightarrow> tree option \<Rightarrow> bool" where
  \<comment> \<open>the tree holds the scans of the given vertices, each once\<close>
  "holds prods vs t \<longleftrightarrow> vs \<noteq> {} \<and> (\<exists>tree. t = Some tree \<and> scans tree = (\<Sum>v\<in>vs. scans (prods v)))"

definition join_state :: "(string \<Rightarrow> tree) \<Rightarrow> string set \<Rightarrow> JoinGraph \<Rightarrow> bool" where
  \<comment> \<open>the vertices that are not visited have their productions, but for those of a given set\<close>
  "join_state prods moved g \<longleftrightarrow> edges_within g \<and> (\<forall>v \<in> unvisited g - moved. production_of g v = Some (prods v))"

definition join_pre :: "(string \<Rightarrow> tree) \<Rightarrow> nat \<Rightarrow> name_ref \<Rightarrow> AnalyzingContext \<Rightarrow> bool" where
  "join_pre prods n r c \<longleftrightarrow> (let g = ac_graph c; w = deref_name g r in
     ref_ok r g \<and> w \<in> unvisited g \<and> card (unvisited g) \<le> n
     \<and> (if ac_joinedTree c = None then join_state prods {} g \<and> visited g = {}
        else join_state prods {w} g \<and> holds prods (insert w (visited g)) (ac_joinedTree c)))"

definition join_post :: "(string \<Rightarrow> tree) \<Rightarrow> AnalyzingContext \<Rightarrow> AnalyzingContext \<Rightarrow> bool" where
  "join_post prods c c' \<longleftrightarrow> join_state prods {} (ac_graph c') \<and> holds prods (visited (ac_graph c')) (ac_joinedTree c')
     \<and> graph_names (ac_graph c') = graph_names (ac_graph c) \<and> unvisited (ac_graph c') \<subseteq> unvisited (ac_graph c)
     \<and> length (jg_edges (ac_graph c')) = length (jg_edges (ac_graph c))
     \<and> same_base c c' \<and> ac_ius c' = ac_ius c"

lemma join_post_trans: "join_post prods c c1 \<Longrightarrow> join_post prods c1 c2 \<Longrightarrow> join_post prods c c2"
  unfolding join_post_def using same_base_trans by fastforce

lemma getVertex_name:
  "v \<in> graph_names g \<longleftrightarrow> (\<exists>vertex. getVertex v g = Inr vertex)"
  by (auto simp: getVertex_def graph_names_def split: option.splits)

lemma getVertex_facts:
  assumes "getVertex v g = Inr vertex"
  shows "production_of g v = jv_production vertex" "v \<in> unvisited g \<longleftrightarrow> \<not> jv_visited vertex" "v \<in> graph_names g"
  using assms by (auto simp: getVertex_def production_of_def unvisited_def graph_names_def split: option.splits)

lemma set_vertex_facts:
  "jg_edges (set_vertex v vertex g) = jg_edges g"
  "graph_names (set_vertex v vertex g) = insert v (graph_names g)"
  "unvisited (set_vertex v vertex g) = (if jv_visited vertex then unvisited g - {v} else insert v (unvisited g))"
  "production_of (set_vertex v vertex g) u = (if u = v then jv_production vertex else production_of g u)"
  by (auto simp: set_vertex_def graph_names_def unvisited_def production_of_def update_conv' split: if_splits)

lemma edge_update_facts [simp]:
  "graph_names (g\<lparr>jg_edges := es\<rparr>) = graph_names g" "unvisited (g\<lparr>jg_edges := es\<rparr>) = unvisited g"
  "production_of (g\<lparr>jg_edges := es\<rparr>) = production_of g" "visited (g\<lparr>jg_edges := es\<rparr>) = visited g"
  by (simp_all add: graph_names_def unvisited_def production_of_def visited_def fun_eq_iff)

lemma edges_within_nth:
  "edges_within g \<Longrightarrow> i < length (jg_edges g) \<Longrightarrow> je_vID (jg_edges g ! i) \<in> graph_names g \<and> je_uID (jg_edges g ! i) \<in> graph_names g"
  by (simp add: edges_within_def)

lemma edges_within_update:
  assumes "edges_within g" "je_vID e \<in> graph_names g" "je_uID e \<in> graph_names g"
  shows "edges_within (g\<lparr>jg_edges := (jg_edges g)[i := e]\<rparr>)"
  using assms by (auto simp: edges_within_def dest!: subsetD [OF set_update_subset_insert])

lemma edges_within_set_vertex:
  "edges_within g \<Longrightarrow> v \<in> graph_names g \<Longrightarrow> edges_within (set_vertex v vertex g)"
  by (simp add: edges_within_def set_vertex_facts insert_absorb)

text \<open>One edge: the neighbor has been visited, or it is joined and the traversal goes on there.\<close>

lemma join_edge_ok:
  assumes rec: "\<And>r c. join_pre prods n r c \<Longrightarrow> \<exists>c'. rec r c = Some (Inr c') \<and> join_post prods c c'"
    and inv: "join_state prods {} (ac_graph c)" "holds prods (visited (ac_graph c)) (ac_joinedTree c)"
    and card: "card (unvisited (ac_graph c)) \<le> n" and i: "i < length (jg_edges (ac_graph c))"
  shows "\<exists>c'. join_edge rec r i c = Some (Inr c') \<and> join_post prods c c'"
proof -
  define g where "g = ac_graph c"
  define vID where "vID = je_vID (jg_edges g ! i)"
  define g1 where "g1 = (if deref_name g r \<noteq> vID
      then g\<lparr>jg_edges := (jg_edges g)[i := (jg_edges g ! i)\<lparr>je_uID := vID\<rparr>]\<rparr> else g)"
  define nb where "nb = je_uID (jg_edges g1 ! i)"
  have within: "edges_within g" using inv(1) by (simp add: join_state_def g_def)
  have i': "i < length (jg_edges g)" using i by (simp add: g_def)
  have g1: "edges_within g1" "length (jg_edges g1) = length (jg_edges g)" "graph_names g1 = graph_names g"
    "unvisited g1 = unvisited g" "production_of g1 = production_of g" "visited g1 = visited g" "jg_vertices g1 = jg_vertices g"
    using within edges_within_update [OF within] edges_within_nth [OF within i'] by (simp_all add: g1_def vID_def)
  have nb: "nb \<in> graph_names g1" using edges_within_nth [OF g1(1)] i' g1(2) by (simp add: nb_def)
  then obtain vertex where vertex: "getVertex nb g1 = Inr vertex" by (auto simp: getVertex_name)
  note vf = getVertex_facts [OF vertex]
  show ?thesis
  proof (cases "jv_visited vertex")
    case True
    have "join_post prods c (c\<lparr>ac_graph := g1\<rparr>)"
      using inv g1 by (simp add: join_post_def join_state_def same_base_def unit_at_def fun_eq_iff g_def)
    moreover have "join_edge rec r i c = Some (Inr (c\<lparr>ac_graph := g1\<rparr>))"
      unfolding join_edge_def Let_def g_def [symmetric] vID_def [symmetric] g1_def [symmetric] nb_def [symmetric]
      using True vertex by simp
    ultimately show ?thesis by blast
  next
    case False
    obtain joined where joined: "ac_joinedTree c = Some joined"
      "scans joined = (\<Sum>v\<in>visited g. scans (prods v))" using inv(2) by (auto simp: holds_def g_def)
    have un: "nb \<in> unvisited g" using False vf(2) g1(4) by simp
    then have prod: "jv_production vertex = Some (prods nb)"
      using inv(1) vf(1) g1(5) by (simp add: join_state_def g_def)
    define exprs where "exprs = je_expressions (jg_edges g1 ! i)"
    define g2 where "g2 = set_vertex nb (vertex\<lparr>jv_production := None\<rparr>)
        (g1\<lparr>jg_edges := (jg_edges g1)[i := (jg_edges g1 ! i)\<lparr>je_expressions := []\<rparr>]\<rparr>)"
    define tree where "tree = (if deref_name g1 r \<noteq> vID then Join (prods nb) joined exprs else Join joined (prods nb) exprs)"
    define c2 where "c2 = next_uid (c\<lparr>ac_graph := g2, ac_joinedTree := Some tree\<rparr>)"
    have run: "join_edge rec r i c = rec (EdgeU i) c2"
      unfolding join_edge_def Let_def g_def [symmetric] vID_def [symmetric] g1_def [symmetric] nb_def [symmetric]
      using False vertex prod joined(1) by (simp add: c2_def tree_def g2_def exprs_def)
    have i1: "i < length (jg_edges g1)" using i' g1(2) by simp
    have g2: "graph_names g2 = graph_names g" "unvisited g2 = unvisited g" "visited g2 = visited g"
      "length (jg_edges g2) = length (jg_edges g)" "deref_name g2 (EdgeU i) = nb" "edges_within g2"
      "\<forall>v. v \<noteq> nb \<longrightarrow> production_of g2 v = production_of g v"
    proof -
      show names: "graph_names g2 = graph_names g" using nb g1(3) by (simp add: g2_def set_vertex_facts insert_absorb)
      show unv: "unvisited g2 = unvisited g" using False un g1(4) by (simp add: g2_def set_vertex_facts insert_absorb)
      show "visited g2 = visited g" by (simp add: visited_def names unv)
      show "length (jg_edges g2) = length (jg_edges g)" using g1(2) by (simp add: g2_def set_vertex_facts)
      show "deref_name g2 (EdgeU i) = nb" using i1 by (simp add: g2_def set_vertex_facts deref_name_def nb_def)
      show "edges_within g2"
        unfolding g2_def
        by (rule edges_within_set_vertex, rule edges_within_update [OF g1(1)])
           (use edges_within_nth [OF g1(1) i1] nb in auto)
      show "\<forall>v. v \<noteq> nb \<longrightarrow> production_of g2 v = production_of g v" by (simp add: g2_def set_vertex_facts g1(5))
    qed
    have fin: "finite (visited g)" "nb \<notin> visited g" using un by (auto simp: visited_def)
    have "join_pre prods n (EdgeU i) c2"
      unfolding join_pre_def Let_def
    proof (intro conjI)
      show "ref_ok (EdgeU i) (ac_graph c2)" using i' g2(4) by (simp add: c2_def ref_ok_def)
      show "deref_name (ac_graph c2) (EdgeU i) \<in> unvisited (ac_graph c2)" using un g2(2,5) by (simp add: c2_def)
      show "card (unvisited (ac_graph c2)) \<le> n" using card g2(2) by (simp add: c2_def g_def)
      have "join_state prods {nb} g2" using inv(1) g2(2,6,7) by (simp add: join_state_def g_def)
      moreover have "holds prods (insert nb (visited g2)) (Some tree)"
        using joined(2) fin g2(3) by (simp add: holds_def tree_def add.commute)
      ultimately show "if ac_joinedTree c2 = None then join_state prods {} (ac_graph c2) \<and> visited (ac_graph c2) = {}
        else join_state prods {deref_name (ac_graph c2) (EdgeU i)} (ac_graph c2)
          \<and> holds prods (insert (deref_name (ac_graph c2) (EdgeU i)) (visited (ac_graph c2))) (ac_joinedTree c2)"
        using g2(5) by (simp add: c2_def)
    qed
    from rec [OF this] obtain c' where c': "rec (EdgeU i) c2 = Some (Inr c')" "join_post prods c2 c'" by blast
    have "join_post prods c c'"
      using c'(2) g2(1,2,4) by (auto simp: join_post_def c2_def same_base_def unit_at_def g_def fun_eq_iff)
    with run c'(1) show ?thesis by simp
  qed
qed

lemma join_edges_ok:
  assumes rec: "\<And>r c. join_pre prods n r c \<Longrightarrow> \<exists>c'. rec r c = Some (Inr c') \<and> join_post prods c c'"
    and "join_state prods {} (ac_graph c)" "holds prods (visited (ac_graph c)) (ac_joinedTree c)"
    and "card (unvisited (ac_graph c)) \<le> n" "\<forall>i \<in> set ixs. i < length (jg_edges (ac_graph c))"
  shows "\<exists>c'. foldM_comp (join_edge rec r) ixs c = Some (Inr c') \<and> join_post prods c c'"
  using assms(2-)
proof (induction ixs arbitrary: c)
  case Nil
  then show ?case by (simp add: join_post_def)
next
  case (Cons i ixs)
  have "i < length (jg_edges (ac_graph c))" using Cons.prems(4) by simp
  from join_edge_ok [where rec = rec and prods = prods and n = n and r = r, OF rec Cons.prems(1-3) this] obtain c1 where
    1: "join_edge rec r i c = Some (Inr c1)" "join_post prods c c1" by blast
  have "card (unvisited (ac_graph c1)) \<le> card (unvisited (ac_graph c))"
    using 1(2) by (intro card_mono) (simp_all add: join_post_def)
  with Cons.IH [of c1] Cons.prems 1(2) obtain c2 where
    2: "foldM_comp (join_edge rec r) ixs c1 = Some (Inr c2)" "join_post prods c1 c2" by (auto simp: join_post_def)
  show ?case using 1 2 join_post_trans [OF 1(2) 2(2)] by simp
qed

lemma construct_join_ok:
  "join_pre prods n r c \<Longrightarrow> \<exists>c'. construct_join_from n r c = Some (Inr c') \<and> join_post prods c c'"
proof (induction n arbitrary: r c)
  case 0
  then have "card (unvisited (ac_graph c)) = 0" "deref_name (ac_graph c) r \<in> unvisited (ac_graph c)"
    by (auto simp: join_pre_def Let_def)
  then show ?case by simp
next
  case (Suc n)
  define g where "g = ac_graph c"
  define w where "w = deref_name g r"
  have w: "w \<in> unvisited g" "card (unvisited g) \<le> Suc n"
    and cases: "if ac_joinedTree c = None then join_state prods {} g \<and> visited g = {}
        else join_state prods {w} g \<and> holds prods (insert w (visited g)) (ac_joinedTree c)"
    using Suc.prems by (auto simp: join_pre_def Let_def g_def w_def)
  from w(1) have "w \<in> graph_names g" by (auto simp: unvisited_def graph_names_def)
  then obtain vertex where vertex: "getVertex w g = Inr vertex" by (auto simp: getVertex_name)
  note vf = getVertex_facts [OF vertex]
  define first where "first = (ac_joinedTree c = None)"
  define g1 where "g1 = set_vertex w (vertex\<lparr>jv_visited := True, jv_production := if first then None else jv_production vertex\<rparr>) g"
  define tree where "tree = (if first then jv_production vertex else ac_joinedTree c)"
  define c1 where "c1 = c\<lparr>ac_graph := g1, ac_joinedTree := tree\<rparr>"
  have run: "construct_join_from (Suc n) r c = foldM_comp (join_edge (construct_join_from n) r) (getConnectedEdges w g) c1"
    unfolding construct_join_from.simps Let_def g_def [symmetric] w_def [symmetric]
    using vertex by (simp add: first_def tree_def g1_def c1_def)
  have g1: "graph_names g1 = graph_names g" "unvisited g1 = unvisited g - {w}" "jg_edges g1 = jg_edges g"
    "\<forall>v. v \<noteq> w \<longrightarrow> production_of g1 v = production_of g v"
    using vf(3) by (simp_all add: g1_def set_vertex_facts insert_absorb)
  have vis: "visited g1 = insert w (visited g)" using g1(1,2) vf(3) by (auto simp: visited_def)
  have "join_state prods {} g1"
    using cases g1 by (auto simp: join_state_def edges_within_def split: if_splits)
  moreover have "holds prods (visited g1) tree"
  proof (cases first)
    case True
    with cases w(1) vf(1) have "jv_production vertex = Some (prods w)" "visited g = {}"
      by (auto simp: first_def join_state_def)
    with True vis show ?thesis by (simp add: holds_def tree_def)
  next
    case False
    with cases vis show ?thesis by (auto simp: first_def tree_def)
  qed
  moreover have "card (unvisited g1) \<le> n" using w by (simp add: g1(2))
  moreover have "\<forall>i \<in> set (getConnectedEdges w g). i < length (jg_edges g1)"
    by (simp add: getConnectedEdges_def g1(3))
  ultimately obtain c' where c': "foldM_comp (join_edge (construct_join_from n) r) (getConnectedEdges w g) c1 = Some (Inr c')"
    "join_post prods c1 c'"
    using join_edges_ok [where rec = "construct_join_from n" and prods = prods and n = n and c = c1 and r = r
        and ixs = "getConnectedEdges w g", OF Suc.IH] by (auto simp: c1_def)
  have "join_post prods c c'"
    using c'(2) g1 by (auto simp: join_post_def c1_def same_base_def unit_at_def g_def fun_eq_iff)
  with run c'(1) show ?case by auto
qed

text \<open>The traversal from any vertex of a graph that has not been visited.\<close>

lemma join_graph_traversed:
  assumes "fresh_graph (ac_graph c)" "edges_within (ac_graph c)" "v \<in> graph_names (ac_graph c)"
    and "ac_joinedTree c = None" "card (graph_names (ac_graph c)) \<le> n"
  shows "\<exists>c' tree. construct_join_from n (LocalName v) c = Some (Inr c') \<and> same_base c c' \<and> ac_ius c' = ac_ius c
    \<and> ac_joinedTree c' = Some tree \<and> visited (ac_graph c') \<subseteq> graph_names (ac_graph c) \<and> visited (ac_graph c') \<noteq> {}
    \<and> scans tree = (\<Sum>v \<in> visited (ac_graph c'). scans (the (production_of (ac_graph c) v)))"
proof -
  define prods where "prods = (\<lambda>v. the (production_of (ac_graph c) v))"
  have "production_of (ac_graph c) u = Some (prods u)" if "u \<in> graph_names (ac_graph c)" for u
    using assms(1) that by (auto simp: fresh_graph_def has_production_def production_of_def prods_def)
  then have "join_pre prods n (LocalName v) c"
    using assms by (simp add: join_pre_def Let_def ref_ok_def deref_name_def fresh_graph_def join_state_def visited_def)
  from construct_join_ok [OF this] obtain c' where
    "construct_join_from n (LocalName v) c = Some (Inr c')" "join_post prods c c'" by blast
  then show ?thesis by (auto simp: join_post_def holds_def prods_def visited_def)
qed

section \<open>The join of a verified query\<close>

definition scans_once :: "NValue Database \<Rightarrow> PTable list \<Rightarrow> tree \<Rightarrow> bool" where
  \<comment> \<open>the tree scans each of a set of relations once, in the table and the branch the statement names\<close>
  "scans_once db rels tree \<longleftrightarrow> (\<exists>bindings scan. bindings \<noteq> {} \<and> finite bindings
     \<and> scans tree = (\<Sum>v\<in>bindings. {#scan v#})
     \<and> (\<forall>v \<in> bindings. \<exists>r \<in> set rels. effective_alias r = v
          \<and> sc_table (scan v) = pt_name r \<and> sc_branchId (scan v) = branch_of db r))"

lemma card_graph_names: "card (graph_names g) \<le> length (jg_vertices g)"
proof -
  have "graph_names g = set (map fst (jg_vertices g))" by (simp add: graph_names_def dom_map_of_conv_image_fst)
  then show ?thesis using card_length [of "map fst (jg_vertices g)"] by simp
qed

lemma scans_once_sum:
  assumes "finite vs" "vs \<noteq> {}" "scans tree = (\<Sum>v\<in>vs. scans (the (P v)))"
    and "\<And>v. v \<in> vs \<Longrightarrow> \<exists>t. P v = Some t \<and> (\<exists>r \<in> set rels. effective_alias r = v
        \<and> (\<exists>s. scans t = {#s#} \<and> sc_table s = pt_name r \<and> sc_branchId s = branch_of db r))"
  shows "scans_once db rels tree"
proof -
  have "\<exists>s. scans (the (P v)) = {#s#} \<and> (\<exists>r \<in> set rels. effective_alias r = v
      \<and> sc_table s = pt_name r \<and> sc_branchId s = branch_of db r)" if "v \<in> vs" for v
    using assms(4) [OF that] by auto
  then obtain scan where scan: "\<And>v. v \<in> vs \<Longrightarrow> scans (the (P v)) = {#scan v#} \<and> (\<exists>r \<in> set rels. effective_alias r = v
      \<and> sc_table (scan v) = pt_name r \<and> sc_branchId (scan v) = branch_of db r)" by metis
  then have "scans tree = (\<Sum>v\<in>vs. {#scan v#})" using assms(3) by simp
  with assms(1,2) scan show ?thesis unfolding scans_once_def by blast
qed

lemma effective_alias_again [simp]: "effective_alias (r\<lparr>pt_alias := effective_alias r\<rparr>) = effective_alias r"
  by (auto simp: effective_alias_def)

lemma construct_joins_ok:
  assumes en: "env_ok en" and c: "scanned c" "scans_relations db rels c"
    and rels: "sel_relations stmt \<noteq> []" "dom (ac_dangling c) = effective_alias ` set (sel_relations stmt)"
    and conds: "\<forall>(v, u) \<in> set (sel_joinConditions stmt). resolvable c v \<and> resolvable c u"
    and empty: "jg_vertices (ac_graph c) = []" "jg_edges (ac_graph c) = []" "ac_joinedTree c = None"
  shows "(\<exists>c' tree. construct_joins en stmt c
        = Some (Inr (stmt\<lparr>sel_relations := map (\<lambda>r. r\<lparr>pt_alias := []\<rparr>) (sel_relations stmt)\<rparr>, c'))
      \<and> same_base c c' \<and> ius_ok c' \<and> ac_joinedTree c' = Some tree \<and> scans_once db rels tree)
    \<or> (\<exists>m. construct_joins en stmt c = Some (Inl (ArithmeticException m)))"
proof -
  have "graph_names (ac_graph c) = {}" "unvisited (ac_graph c) = {}"
    using empty(1) by (simp_all add: graph_names_def unvisited_def)
  then have fresh: "fresh_graph (ac_graph c)" using empty(1) by (simp add: fresh_graph_def)
  have "\<forall>r \<in> set (sel_relations stmt). \<exists>tree. ac_dangling c (effective_alias r) = Some (Some tree)"
    using rels(2) c(1) unfolding scanned_def by (metis domD imageI not_None_eq)
  moreover from this have "\<forall>r \<in> set (sel_relations stmt). \<exists>tree. ac_dangling c (effective_alias r) = Some tree" by blast
  moreover have "production_of (ac_graph c) v = None" for v using empty(1) by (simp add: production_of_def)
  ultimately obtain c1 where
    c1: "add_vertices (sel_relations stmt) c = (map (\<lambda>r. r\<lparr>pt_alias := []\<rparr>) (sel_relations stmt), c1)"
      "c1 = c\<lparr>ac_dangling := ac_dangling c1, ac_graph := ac_graph c1\<rparr>" "fresh_graph (ac_graph c1)" "jg_edges (ac_graph c1) = []"
      "graph_names (ac_graph c1) = effective_alias ` set (sel_relations stmt)"
      "\<forall>v tree. production_of (ac_graph c1) v = Some tree \<longrightarrow> ac_dangling c v = Some (Some tree)"
    using add_vertices_ok [of "sel_relations stmt" c] fresh empty(2) \<open>graph_names (ac_graph c) = {}\<close> by auto
  have at1: "unit_at c1 = unit_at c" by (subst c1(2)) (simp add: unit_at_def fun_eq_iff)
  have base1: "same_base c c1" unfolding same_base_def at1 by (subst (1 2) c1(2)) simp
  have ius: "ac_ius c1 = ac_ius c" by (subst c1(2)) simp
  have "ius_ok c1" using c(1) unfolding scanned_def ius_ok_def at1 same_base_units(3) [OF base1] ius by blast
  moreover have "\<forall>(v, u) \<in> set (sel_joinConditions stmt). resolvable c1 v \<and> resolvable c1 u"
    using conds unfolding same_base_units(2) [OF base1] .
  moreover have "\<forall>p column. has_unit c1 p column \<longrightarrow> p \<in> graph_names (ac_graph c1)"
    using c(1) unfolding same_base_units(1) [OF base1] scanned_def c1(5) rels(2) [symmetric] by blast
  moreover have "edges_within (ac_graph c1)" using c1(4) by (simp add: edges_within_def)
  ultimately consider
    c2 where "foldM_res (add_condition en) (sel_joinConditions stmt) c1 = Inr c2" "ius_ok c2" "same_base c1 c2"
      "jg_vertices (ac_graph c2) = jg_vertices (ac_graph c1)" "edges_within (ac_graph c2)" "ac_joinedTree c2 = ac_joinedTree c1"
    | m where "foldM_res (add_condition en) (sel_joinConditions stmt) c1 = Inl (ArithmeticException m)"
    using add_conditions_ok [OF en] by metis
  then show ?thesis
  proof cases
    case 1
    have names: "graph_names (ac_graph c2) = graph_names (ac_graph c1)" "production_of (ac_graph c2) = production_of (ac_graph c1)"
      by (simp_all add: graph_names_def production_of_def 1(4) fun_eq_iff)
    have "fresh_graph (ac_graph c2)"
      using c1(3) by (simp add: fresh_graph_def unvisited_def has_production_def names 1(4))
    then have um: "umap_ok (jg_vertices (ac_graph c2))" by (simp add: fresh_graph_def)
    have "jg_vertices (ac_graph c2) \<noteq> []"
      using c1(5) rels(1) unfolding names(1) [symmetric] by (auto simp: graph_names_def)
    then obtain v vertex rest where first: "iterate en (jg_vertices (ac_graph c2)) = (v, vertex) # rest"
      using iterate_eq_Nil [OF en um] by (metis list.exhaust surj_pair)
    then have "(v, vertex) \<in> set (jg_vertices (ac_graph c2))" using set_iterate [OF en um] by auto
    then have v: "v \<in> graph_names (ac_graph c2)"
      by (auto simp: graph_names_def dom_map_of_conv_image_fst intro: rev_image_eqI)
    have "ac_joinedTree c2 = None" using 1(6) empty(3) c1(2) by (metis (no_types, lifting) AnalyzingContext.simps(8) AnalyzingContext.update_convs(4,7) AnalyzingContext.select_convs(8) AnalyzingContext.surjective)
    from join_graph_traversed [OF \<open>fresh_graph (ac_graph c2)\<close> 1(5) v this card_graph_names] obtain c3 tree where
      c3: "construct_join_from (length (jg_vertices (ac_graph c2))) (LocalName v) c2 = Some (Inr c3)" "same_base c2 c3"
        "ac_ius c3 = ac_ius c2" "ac_joinedTree c3 = Some tree" "visited (ac_graph c3) \<subseteq> graph_names (ac_graph c2)"
        "visited (ac_graph c3) \<noteq> {}"
        "scans tree = (\<Sum>v \<in> visited (ac_graph c3). scans (the (production_of (ac_graph c2) v)))" by blast
    have "scans_once db rels tree"
    proof (rule scans_once_sum [OF _ c3(6,7)])
      show "finite (visited (ac_graph c3))" by (simp add: visited_def)
      fix v assume "v \<in> visited (ac_graph c3)"
      with c3(5) c1(3) obtain t where "production_of (ac_graph c2) v = Some t"
        unfolding names fresh_graph_def has_production_iff by blast
      with c1(6) c(2) show "\<exists>t. production_of (ac_graph c2) v = Some t \<and> (\<exists>r \<in> set rels. effective_alias r = v
        \<and> (\<exists>s. scans t = {#s#} \<and> sc_table s = pt_name r \<and> sc_branchId s = branch_of db r))"
        unfolding scans_relations_def names by blast
    qed
    moreover have base: "same_base c c3" by (rule same_base_trans [OF same_base_trans [OF base1 1(3)] c3(2)])
    moreover have "ius_ok c3"
    proof -
      have "unit_at c3 = unit_at c2" "unit_ok c3 = unit_ok c2"
        using c3(2) same_base_units(3) [OF c3(2)] by (simp_all add: same_base_def)
      with 1(2) show ?thesis unfolding ius_ok_def c3(3) by simp
    qed
    ultimately show ?thesis
      using c1(1) 1(1) first c3(1,4) by (simp add: construct_joins_def construct_join_graph_def)
  next
    case 2
    then show ?thesis using c1(1) by (simp add: construct_joins_def construct_join_graph_def)
  qed
qed

end
