(* ===== verification/AnalysisExamples.thy ===== *)
theory AnalysisExamples
  imports ScopeResolution DatabaseRuns
begin

text \<open>
  A catalogue with two tables, reached by statements of a run, an environment that iterates in the order
  of insertion and of the addresses, and a query over the two tables: the concrete inputs at which the
  properties of the analysers are applied. The tables of every run are the well-formed ones the
  analysers rely on.
\<close>

definition ex_env :: environment where
  "ex_env = \<lparr>en_keys = id, en_addresses = (\<lambda>s. (if None \<in> s then [None] else []) @ map Some (sorted_list_of_set (the ` (s - {None})))),
     en_c_str = (\<lambda>_. 0), en_files = Map.empty\<rparr>"

lemma ex_env_ok: "env_ok ex_env"
proof -
  have "distinct (en_addresses ex_env s) \<and> set (en_addresses ex_env s) = s" if "finite s" for s
  proof -
    have "inj_on the (s - {None})" by (rule inj_onI) auto
    have "finite (the ` (s - {None}))" using that by simp
    then have "set (en_addresses ex_env s) = (if None \<in> s then {None} else {}) \<union> Some ` the ` (s - {None})"
      by (simp add: ex_env_def)
    also have "Some ` the ` (s - {None}) = s - {None}" by force
    finally show ?thesis by (auto simp: ex_env_def distinct_map)
  qed
  then show ?thesis by (simp add: env_ok_def) (simp add: ex_env_def)
qed

definition ex_int :: SqlType where "ex_int = getIntegerTy False"

definition ex_s0 :: "NValue Database" where
  "ex_s0 = snd (Database_createTable ''s'' Database_ctor)"

definition ex_s1 :: "NValue Database" where
  "ex_s1 = put_table ''s'' (snd (add_columns ex_size [(''a'', ex_int), (''b'', ex_int)] (the (Database_getTable ex_s0 ''s'')))) ex_s0"

definition ex_s2 :: "NValue Database" where
  "ex_s2 = snd (Database_createTable ''t'' ex_s1)"

definition ex_catalogue :: "NValue Database" where
  "ex_catalogue = put_table ''t'' (snd (add_columns ex_size [(''c'', ex_int)] (the (Database_getTable ex_s2 ''t'')))) ex_s2"

lemma ex_catalogue_facts:
  "fst (Database_createTable ''s'' (Database_ctor :: NValue Database)) = None"
  "case Database_getTable ex_s0 ''s'' of Some t \<Rightarrow> True | None \<Rightarrow> False"
  "fst (add_columns ex_size [(''a'', ex_int), (''b'', ex_int)] (the (Database_getTable ex_s0 ''s''))) = None"
  "fst (Database_createTable ''t'' ex_s1) = None"
  "case Database_getTable ex_s2 ''t'' of Some t \<Rightarrow> True | None \<Rightarrow> False"
  "fst (add_columns ex_size [(''c'', ex_int)] (the (Database_getTable ex_s2 ''t''))) = None"
  by code_simp+

lemma ex_catalogue_run: "db_run ex_size ex_catalogue (\<lambda>_ _ _. None)"
proof -
  have "db_run ex_size ex_s1 (\<lambda>_ _ _. None)"
    unfolding ex_s1_def
    by (rule db_create_table [OF db_start _ ex_lookup [OF ex_catalogue_facts(2)], where cols = "[(''a'', ex_int), (''b'', ex_int)]"])
      (use ex_catalogue_facts(1,3) in \<open>simp_all add: ex_s0_def prod_eq_iff ex_int_def getIntegerTy_def SqlType_ctor_def\<close>)
  then show ?thesis
    unfolding ex_catalogue_def
    by (rule db_create_table [OF _ _ ex_lookup [OF ex_catalogue_facts(5)], where cols = "[(''c'', ex_int)]"])
      (use ex_catalogue_facts(4,6) in \<open>simp_all add: ex_s2_def prod_eq_iff ex_int_def getIntegerTy_def SqlType_ctor_def\<close>)
qed

definition ex_heap :: heap where
  "ex_heap = \<lparr>hp_mem = (\<lambda>_. 0), hp_brk = 4096\<rparr>"

lemma run_tables_ok:
  assumes "db_run valueSize db S"
  shows "tables_ok db"
  unfolding tables_ok_def
proof (intro allI impI)
  fix name t assume "Database_getTable db name = Some t"
  from db_inv_table(2) [OF db_run_inv [OF assms] this] show "tb_ok t" by (simp add: vt_ok_def)
qed

definition ex_query :: SelectStatement where
  "ex_query = \<lparr>sel_projections = [\<lparr>pc_name = ''b'', pc_table = []\<rparr>],
     sel_relations = [\<lparr>pt_name = ''s'', pt_alias = [], pt_version = ''master''\<rparr>,
        \<lparr>pt_name = ''t'', pt_alias = [], pt_version = ''master''\<rparr>],
     sel_joinConditions = [(\<lparr>pc_name = ''a'', pc_table = []\<rparr>, \<lparr>pc_name = ''c'', pc_table = []\<rparr>)],
     sel_selections = [(\<lparr>pc_name = ''c'', pc_table = []\<rparr>, ''7'')]\<rparr>"

lemma ex_query_verified: "SelectAnalyser_verify ex_catalogue (Some ex_query) = Inr ()"
  by code_simp

end
