(* ===== verification/SelectProperties.thy ===== *)
theory SelectProperties
  imports JoinConstruction AnalysisExamples
begin

text \<open>
  Verified queries: the tree of a query that has passed the checks is constructed, what the tree scans,
  and what the traversal of the join graph leaves out.
\<close>

section \<open>Projections\<close>

lemma getUniqueColumnIU_at:
  assumes "env_ok en" "ius_ok c" "\<exists>p. has_unit c p column"
  shows "\<exists>p. unit_at c p column = Some (getUniqueColumnIU en column c)"
proof -
  from assms(3) obtain p iu where "unit_at c p column = Some iu" by (auto simp: has_unit_def)
  then have "column_hits en column c \<noteq> []"
    using column_hits_iff [OF assms(1,2)] by (metis empty_iff empty_set)
  then obtain hit hits where "column_hits en column c = hit # hits" by (metis list.exhaust)
  then have "(fst hit, getUniqueColumnIU en column c) \<in> set (column_hits en column c)"
    by (simp add: getUniqueColumnIU_def)
  with column_hits_iff [OF assms(1,2)] show ?thesis by blast
qed

lemma projected_units_ok:
  assumes "env_ok en" "ius_ok c" "\<forall>column \<in> set columns. resolvable c column"
  shows "\<exists>ius m. projected_units en columns c = (ius, c\<lparr>ac_ius := m\<rparr>) \<and> unit_at (c\<lparr>ac_ius := m\<rparr>) = unit_at c
    \<and> ius_ok (c\<lparr>ac_ius := m\<rparr>)
    \<and> list_all2 (\<lambda>iu column. \<exists>p. unit_at c p (pc_name column) = Some iu \<and> (pc_table column = [] \<or> pc_table column = p)) ius columns"
  using assms(2,3)
proof (induction columns arbitrary: c)
  case Nil
  have "c\<lparr>ac_ius := ac_ius c\<rparr> = c" by simp
  with Nil show ?case by (intro exI [of _ "[]"] exI [of _ "ac_ius c"]) simp
next
  case (Cons column columns)
  have "\<exists>iu m p. (if pc_table column = [] then (getUniqueColumnIU en (pc_name column) c, c)
        else ius_at (pc_table column) (pc_name column) c) = (iu, c\<lparr>ac_ius := m\<rparr>)
      \<and> unit_at (c\<lparr>ac_ius := m\<rparr>) = unit_at c \<and> ius_ok (c\<lparr>ac_ius := m\<rparr>)
      \<and> unit_at c p (pc_name column) = Some iu \<and> (pc_table column = [] \<or> pc_table column = p)"
  proof (cases "pc_table column = []")
    case True
    with Cons.prems(2) have "\<exists>p. has_unit c p (pc_name column)" by (simp add: resolvable_def)
    from getUniqueColumnIU_at [OF assms(1) Cons.prems(1) this] True Cons.prems(1) show ?thesis
      by (intro exI [of _ "getUniqueColumnIU en (pc_name column) c"] exI [of _ "ac_ius c"]) simp
  next
    case False
    with Cons.prems(2) obtain iu where iu: "unit_at c (pc_table column) (pc_name column) = Some iu"
      by (auto simp: resolvable_def has_unit_def)
    from ius_at_has [OF this] Cons.prems(1) False iu show ?thesis by auto
  qed
  then obtain iu m p where 1: "(if pc_table column = [] then (getUniqueColumnIU en (pc_name column) c, c)
        else ius_at (pc_table column) (pc_name column) c) = (iu, c\<lparr>ac_ius := m\<rparr>)"
      "unit_at (c\<lparr>ac_ius := m\<rparr>) = unit_at c" "ius_ok (c\<lparr>ac_ius := m\<rparr>)"
      "unit_at c p (pc_name column) = Some iu" "pc_table column = [] \<or> pc_table column = p" by blast
  have "resolvable (c\<lparr>ac_ius := m\<rparr>) = resolvable c"
    by (rule ext) (simp add: resolvable_def has_unit_def 1(2))
  with Cons.prems(2) have "\<forall>column \<in> set columns. resolvable (c\<lparr>ac_ius := m\<rparr>) column" by simp
  from Cons.IH [OF 1(3) this] obtain ius m' where 2: "projected_units en columns (c\<lparr>ac_ius := m\<rparr>) = (ius, c\<lparr>ac_ius := m'\<rparr>)"
      "unit_at (c\<lparr>ac_ius := m'\<rparr>) = unit_at c" "ius_ok (c\<lparr>ac_ius := m'\<rparr>)"
      "list_all2 (\<lambda>iu column. \<exists>p. unit_at c p (pc_name column) = Some iu \<and> (pc_table column = [] \<or> pc_table column = p)) ius columns"
    unfolding 1(2) by auto
  have "projected_units en (column # columns) c = (iu # ius, c\<lparr>ac_ius := m'\<rparr>)"
    using 1(1) 2(1) by simp
  with 1(4,5) 2(2-4) show ?case by (intro exI [of _ "iu # ius"] exI [of _ m']) auto
qed

lemma no_tid_ok:
  assumes "\<forall>(key, iu) \<in> set entries. unit_ok c iu"
  shows "\<exists>ius. no_tid c entries = Inr ius \<and> set ius \<subseteq> snd ` set entries"
proof -
  have "mapM_res (\<lambda>(key, iu). bind_res (deref_iu (fa_iu_vec (ac_iuFactory c)) iu) (\<lambda>unit.
         case iu_columnInformation unit of None \<Rightarrow> Inl MemFault | Some ci \<Rightarrow> Inr (ci_columnName ci, iu))) entries
      = Inr (map (\<lambda>(key, iu). (column_of c iu, iu)) entries)"
  proof (rule mapM_res_Inr)
    fix x assume "x \<in> set entries"
    with assms show "(\<lambda>(key, iu). bind_res (deref_iu (fa_iu_vec (ac_iuFactory c)) iu) (\<lambda>unit.
         case iu_columnInformation unit of None \<Rightarrow> Inl MemFault | Some ci \<Rightarrow> Inr (ci_columnName ci, iu))) x
      = Inr ((\<lambda>(key, iu). (column_of c iu, iu)) x)"
      by (auto simp: unit_ok_def deref_iu_def column_of_def split: prod.split)
  qed
  then show ?thesis by (force simp: no_tid_def)
qed

lemma ius_of_ok:
  assumes "ius_ok c"
  shows "\<exists>m. ius_of p c = (inner_map p (ac_ius c), c\<lparr>ac_ius := m\<rparr>)
    \<and> unit_at (c\<lparr>ac_ius := m\<rparr>) = unit_at c \<and> ius_ok (c\<lparr>ac_ius := m\<rparr>)"
proof -
  define m where "m = insert_new p [] (ac_ius c)"
  have inner: "inner_map q m = inner_map q (ac_ius c)" for q
    by (auto simp: inner_map_def m_def split: option.splits)
  then have at: "unit_at (c\<lparr>ac_ius := m\<rparr>) = unit_at c" by (simp add: unit_at_def fun_eq_iff)
  have "unit_ok (c\<lparr>ac_ius := m\<rparr>) = unit_ok c" by (rule unit_ok_cong) simp
  with assms have "ius_ok (c\<lparr>ac_ius := m\<rparr>)" unfolding ius_ok_def at by (simp add: inner) (simp add: m_def)
  moreover have "ius_of p c = (inner_map p (ac_ius c), c\<lparr>ac_ius := m\<rparr>)" by (simp add: ius_of_def m_def)
  ultimately show ?thesis using at by (intro exI [of _ m]) simp
qed

lemma entries_units:
  assumes "env_ok en" "ius_ok c" "(key, iu) \<in> set (iterate en (inner_map p (ac_ius c)))"
  shows "unit_at c p key = Some iu"
  using assms set_iterate [OF assms(1), of "inner_map p (ac_ius c)"] umap_mem
  unfolding ius_ok_def unit_at_def by metis

lemma star_units_ok:
  assumes "env_ok en" "ius_ok c"
  shows "\<exists>ius m. star_units en rels c = Inr (ius, c\<lparr>ac_ius := m\<rparr>) \<and> unit_at (c\<lparr>ac_ius := m\<rparr>) = unit_at c
    \<and> (\<forall>iu \<in> set ius. \<exists>r \<in> set rels. \<exists>key. unit_at c (effective_alias r) key = Some iu)"
  using assms(2)
proof (induction rels arbitrary: c)
  case Nil
  have "c\<lparr>ac_ius := ac_ius c\<rparr> = c" by simp
  then show ?case by (intro exI [of _ "[]"] exI [of _ "ac_ius c"]) simp
next
  case (Cons r rels)
  let ?p = "effective_alias r" and ?entries = "inner_map (effective_alias r) (ac_ius c)"
  from ius_of_ok [OF Cons.prems, of ?p] obtain m where m: "ius_of ?p c = (?entries, c\<lparr>ac_ius := m\<rparr>)"
    "unit_at (c\<lparr>ac_ius := m\<rparr>) = unit_at c" "ius_ok (c\<lparr>ac_ius := m\<rparr>)" by blast
  have at: "unit_at c ?p key = Some iu" if "(key, iu) \<in> set (iterate en ?entries)" for key iu
    using entries_units [OF assms(1) Cons.prems that] .
  then have "\<forall>(key, iu) \<in> set (iterate en ?entries). unit_ok (c\<lparr>ac_ius := m\<rparr>) iu"
    using m(2,3) unfolding ius_ok_def by fastforce
  from no_tid_ok [OF this] obtain ius where
    ius: "no_tid (c\<lparr>ac_ius := m\<rparr>) (iterate en ?entries) = Inr ius" "set ius \<subseteq> snd ` set (iterate en ?entries)" by blast
  from Cons.IH [OF m(3)] obtain ius' m' where
    IH: "star_units en rels (c\<lparr>ac_ius := m\<rparr>) = Inr (ius', c\<lparr>ac_ius := m'\<rparr>)" "unit_at (c\<lparr>ac_ius := m'\<rparr>) = unit_at c"
      "\<forall>iu \<in> set ius'. \<exists>r \<in> set rels. \<exists>key. unit_at c (effective_alias r) key = Some iu" unfolding m(2) by auto
  have "star_units en (r # rels) c = Inr (ius @ ius', c\<lparr>ac_ius := m'\<rparr>)"
    using m(1) ius(1) IH(1) by (simp add: effective_alias_def [symmetric] Let_def)
  moreover have "\<exists>x \<in> set (r # rels). \<exists>key. unit_at c (effective_alias x) key = Some iu" if "iu \<in> set (ius @ ius')" for iu
  proof -
    from that consider "iu \<in> set ius" | "iu \<in> set ius'" by auto
    then show ?thesis
    proof cases
      case 1
      with ius(2) obtain key where "(key, iu) \<in> set (iterate en ?entries)" by auto
      from at [OF this] show ?thesis by auto
    qed (use IH(3) in auto)
  qed
  ultimately show ?case using IH(2) by (intro exI [of _ "ius @ ius'"] exI [of _ m']) simp
qed

section \<open>The tree of a query\<close>

lemma scanned_start: "scanned (AnalyzingContext_ctor db h)" "sourced (AnalyzingContext_ctor db h)"
  "scans_relations db rels (AnalyzingContext_ctor db h)"
  by (simp_all add: scanned_def sourced_def scans_relations_def ius_ok_def unit_at_def has_unit_def inner_map_def
      AnalyzingContext_ctor_def)

lemma in_scope_resolvable:
  assumes "in_scope db rels column"
    and "\<forall>r \<in> set rels. \<forall>n \<in> columns_of db r. has_unit c (effective_alias r) n"
  shows "resolvable c column"
  using assms by (force simp: in_scope_def resolvable_def effective_alias_def)

text \<open>Up to the joins.\<close>

lemma scans_and_selections:
  assumes en: "env_ok en" and v: "SelectAnalyser_verify db (Some stmt) = Inr u" and t: "tables_ok db"
  shows "\<exists>c1 c2. construct_scans en (sel_relations stmt) (AnalyzingContext_ctor db h)
        = Inr (map (\<lambda>r. r\<lparr>pt_alias := effective_alias r\<rparr>) (sel_relations stmt), c1)
    \<and> construct_selects en (sel_selections stmt) c1 = Inr c2
    \<and> scanned c2 \<and> scans_relations db (sel_relations stmt) c2 \<and> ac_db c2 = db
    \<and> dom (ac_dangling c2) = effective_alias ` set (sel_relations stmt)
    \<and> (\<forall>column. in_scope db (sel_relations stmt) column \<longrightarrow> resolvable c2 column)
    \<and> jg_vertices (ac_graph c2) = [] \<and> jg_edges (ac_graph c2) = [] \<and> ac_joinedTree c2 = None"
proof -
  let ?c0 = "AnalyzingContext_ctor db h" and ?rels = "sel_relations stmt"
  note verified = verified_select [OF v]
  have start: "ac_db ?c0 = db" "ac_graph ?c0 = \<lparr>jg_vertices = [], jg_edges = []\<rparr>" "ac_joinedTree ?c0 = None" "ac_dangling ?c0 = Map.empty"
    by (simp_all add: AnalyzingContext_ctor_def)
  have "\<forall>r \<in> set ?rels. relation_ok (ac_db ?c0) r"
    using verified(1) t unfolding relation_ok_def tables_ok_def start by blast
  from construct_scans_ok [OF en scanned_start(1) this] obtain c1 where
    c1: "construct_scans en ?rels ?c0 = Inr (map (\<lambda>r. r\<lparr>pt_alias := effective_alias r\<rparr>) ?rels, c1)"
      "scanned c1" "ac_db c1 = db" "ac_graph c1 = ac_graph ?c0" "ac_joinedTree c1 = None"
      "\<forall>r \<in> set ?rels. \<forall>column \<in> columns_of db r. has_unit c1 (effective_alias r) column"
      "dom (ac_dangling c1) = effective_alias ` set ?rels"
      "\<forall>rels. scans_relations db rels ?c0 \<longrightarrow> scans_relations db (rels @ ?rels) c1"
    unfolding start by auto
  from c1(8) scanned_start(3) [of db "[]" h] have scans: "scans_relations db ?rels c1" by (metis append_Nil)
  have "\<forall>(column, v) \<in> set (sel_selections stmt). resolvable c1 column"
    using verified(2) in_scope_resolvable [OF _ c1(6)] by blast
  from construct_selects_ok [OF en c1(2) this] obtain c2 where
    c2: "construct_selects en (sel_selections stmt) c1 = Inr c2" "scanned c2" "same_base c1 c2"
      "dom (ac_dangling c2) = dom (ac_dangling c1)" "scans_relations db ?rels c2"
      "ac_graph c2 = ac_graph c1" "ac_joinedTree c2 = ac_joinedTree c1"
    using scans by blast
  have "resolvable c2 column" if "in_scope db ?rels column" for column
    using in_scope_resolvable [OF that c1(6)] unfolding same_base_units(2) [OF c2(3)] .
  with c1 c2 start show ?thesis
    by (intro exI [of _ c1] exI [of _ c2]) (simp add: same_base_def)
qed

text \<open>C34: a query that has passed the checks never makes the construction of its tree follow a null pointer,
  look up a vertex that is not there or run for ever: the tree is a projection of units of columns over a
  tree that scans each relation at most once, in the table and the branch the statement names, and the
  database is unchanged; the only exception left is the one for comparing columns of different types.\<close>

theorem verified_select_constructs:
  assumes "env_ok en" "SelectAnalyser_verify db (Some stmt) = Inr u" "tables_ok db" "sel_relations stmt \<noteq> []"
  shows "(\<exists>c tree ius. SelectAnalyser_constructTree en stmt (AnalyzingContext_ctor db h) = Some (Inr c)
      \<and> ac_joinedTree c = Some (Result tree ius) \<and> scans_once db (sel_relations stmt) tree
      \<and> (\<forall>iu \<in> set ius. unit_ok c iu) \<and> ac_db c = db)
    \<or> (\<exists>m. SelectAnalyser_constructTree en stmt (AnalyzingContext_ctor db h) = Some (Inl (ArithmeticException m)))"
proof -
  let ?rels = "map (\<lambda>r. r\<lparr>pt_alias := effective_alias r\<rparr>) (sel_relations stmt)"
  from scans_and_selections [OF assms(1-3), of h] obtain c1 c2 where
    c: "construct_scans en (sel_relations stmt) (AnalyzingContext_ctor db h) = Inr (?rels, c1)"
      "construct_selects en (sel_selections stmt) c1 = Inr c2" "scanned c2" "scans_relations db (sel_relations stmt) c2"
      "ac_db c2 = db" "dom (ac_dangling c2) = effective_alias ` set (sel_relations stmt)"
      "\<forall>column. in_scope db (sel_relations stmt) column \<longrightarrow> resolvable c2 column"
      "jg_vertices (ac_graph c2) = []" "jg_edges (ac_graph c2) = []" "ac_joinedTree c2 = None" by blast
  note verified = verified_select [OF assms(2)]
  let ?stmt = "stmt\<lparr>sel_relations := ?rels\<rparr>"
  have "effective_alias ` set ?rels = effective_alias ` set (sel_relations stmt)" by (simp add: image_image)
  moreover have "\<forall>(v, u) \<in> set (sel_joinConditions ?stmt). resolvable c2 v \<and> resolvable c2 u"
    using verified(4) c(7) by auto
  ultimately consider c3 tree where
      "construct_joins en ?stmt c2 = Some (Inr (?stmt\<lparr>sel_relations := map (\<lambda>r. r\<lparr>pt_alias := []\<rparr>) ?rels\<rparr>, c3))"
      "same_base c2 c3" "ius_ok c3" "ac_joinedTree c3 = Some tree" "scans_once db (sel_relations stmt) tree"
    | m where "construct_joins en ?stmt c2 = Some (Inl (ArithmeticException m))"
    using construct_joins_ok [OF assms(1) c(3,4), of ?stmt] assms(4) c(6,8-10) by auto
  then show ?thesis
  proof cases
    case 1
    have "\<forall>column \<in> set (sel_projections stmt). resolvable c3 column"
      using verified(3) c(7) unfolding same_base_units(2) [OF 1(2)] by blast
    from projected_units_ok [OF assms(1) 1(3) this] obtain named m where
      named: "projected_units en (sel_projections stmt) c3 = (named, c3\<lparr>ac_ius := m\<rparr>)" "unit_at (c3\<lparr>ac_ius := m\<rparr>) = unit_at c3"
        "ius_ok (c3\<lparr>ac_ius := m\<rparr>)"
        "list_all2 (\<lambda>iu column. \<exists>p. unit_at c3 p (pc_name column) = Some iu \<and> (pc_table column = [] \<or> pc_table column = p))
           named (sel_projections stmt)" by blast
    have ok: "unit_ok c3 iu" if "unit_at c3 p column = Some iu" for p column iu using that 1(3) unfolding ius_ok_def by blast
    have "\<exists>ius m'. (if sel_projections stmt = [] then star_units en (map (\<lambda>r. r\<lparr>pt_alias := []\<rparr>) ?rels) (c3\<lparr>ac_ius := m\<rparr>)
          else Inr (named, c3\<lparr>ac_ius := m\<rparr>)) = Inr (ius, c3\<lparr>ac_ius := m'\<rparr>) \<and> (\<forall>iu \<in> set ius. unit_ok c3 iu)"
    proof (cases "sel_projections stmt = []")
      case True
      from star_units_ok [OF assms(1) named(3), of "map (\<lambda>r. r\<lparr>pt_alias := []\<rparr>) ?rels"] True ok show ?thesis
        unfolding named(2) by fastforce
    next
      case False
      have "unit_ok c3 iu" if "iu \<in> set named" for iu
        using that named(4) ok by (auto simp: list_all2_conv_all_nth in_set_conv_nth)
      with False show ?thesis by auto
    qed
    then obtain ius m' where ius: "(if sel_projections stmt = [] then star_units en (map (\<lambda>r. r\<lparr>pt_alias := []\<rparr>) ?rels) (c3\<lparr>ac_ius := m\<rparr>)
          else Inr (named, c3\<lparr>ac_ius := m\<rparr>)) = Inr (ius, c3\<lparr>ac_ius := m'\<rparr>)" "\<forall>iu \<in> set ius. unit_ok c3 iu" by blast
    define c5 where "c5 = set_root (Result tree ius) (c3\<lparr>ac_ius := m'\<rparr>)"
    have "SelectAnalyser_constructTree en stmt (AnalyzingContext_ctor db h) = Some (Inr c5)"
      using c(1,2) 1(1,4) named(1) ius(1)
      by (cases "sel_projections stmt = []") (simp_all add: SelectAnalyser_constructTree_def c5_def)
    moreover have "unit_ok c5 = unit_ok c3" by (rule unit_ok_cong) (simp add: c5_def set_root_def)
    moreover have "ac_db c5 = db" "ac_joinedTree c5 = Some (Result tree ius)"
      using 1(2) c(5) by (simp_all add: c5_def set_root_def same_base_def)
    ultimately show ?thesis using ius(2) 1(5) by auto
  next
    case 2
    then show ?thesis using c(1,2) by (simp add: SelectAnalyser_constructTree_def)
  qed
qed

lemma verified_select_constructs_witness:
  "(\<exists>c tree ius. SelectAnalyser_constructTree ex_env ex_query (AnalyzingContext_ctor ex_catalogue ex_heap) = Some (Inr c)
      \<and> ac_joinedTree c = Some (Result tree ius) \<and> scans_once ex_catalogue (sel_relations ex_query) tree
      \<and> (\<forall>iu \<in> set ius. unit_ok c iu) \<and> ac_db c = ex_catalogue)
    \<or> (\<exists>m. SelectAnalyser_constructTree ex_env ex_query (AnalyzingContext_ctor ex_catalogue ex_heap)
        = Some (Inl (ArithmeticException m)))"
  by (rule verified_select_constructs [OF ex_env_ok ex_query_verified run_tables_ok [OF ex_catalogue_run]])
    (simp add: ex_query_def)

end
