(* ===== verification/UpdateConstruction.thy ===== *)
theory UpdateConstruction
  imports SelectProperties
begin

text \<open>
  The trees of \<^verbatim>\<open>UPDATE\<close> and \<^verbatim>\<open>DELETE\<close>: both scan one relation, put the conditions of the statement over the scan
  and the operator that changes the table on top. The checks of the two statements look at the names of
  the columns and not at their bindings, so the construction of a tree can still fail on a binding.
\<close>

definition bound_to :: "PTable \<Rightarrow> PColumn \<Rightarrow> bool" where
  \<comment> \<open>the column has no binding, or that of the relation\<close>
  "bound_to r column \<longleftrightarrow> pc_table column = [] \<or> pc_table column = effective_alias r"

lemma verify_target_known:
  assumes "verify_target db r = Inr t" "tables_ok db"
  shows "relation_ok db r" "columns_of db r = set (Table_getColumnNames t)" "tb_ok t" "Database_getTable db (pt_name r) = Some t"
  using assms by (auto simp: verify_target_Inr relation_ok_def columns_of_def tables_ok_def)

lemma branch_lookup_same:
  assumes "relation_ok db r"
  shows "branch_lookup (pt_version r) db = (branch_of db r, db)"
proof -
  have "db_branchMapping db (pt_version r) \<noteq> None" using assms by (simp add: relation_ok_def)
  from branch_lookup_known [OF this] show ?thesis by (simp add: branch_of_def prod_eq_iff)
qed

text \<open>A condition with an unknown binding follows the null pointer of a new entry.\<close>

lemma construct_select_unbound:
  assumes "scanned c" "ac_dangling c (pc_table column) = None" "pc_table column \<noteq> []"
  shows "construct_select en (column, v) c = Inl MemFault"
proof -
  have none: "unit_at c (pc_table column) (pc_name column) = None"
    using assms(1,2) unfolding scanned_def has_unit_def by force
  have "the (map_of (insert_new (pc_name column) None (inner_map (pc_table column) (ac_ius c))) (pc_name column)) = None"
    using none by (simp add: unit_at_def insert_new_def map_add_def del: map_of_eq_None_iff)
  then have "fst (ius_at (pc_table column) (pc_name column) c) = None"
    by (simp add: ius_at_def Let_def)
  with assms(3) show ?thesis
    by (auto simp: construct_select_def deref_iu_def Let_def split: prod.split)
qed

lemma construct_selects_unbound:
  assumes "env_ok en" "scanned c" "dom (ac_dangling c) = {effective_alias r}"
    and "\<forall>(column, v) \<in> set sels. has_unit c (effective_alias r) (pc_name column)"
    and "\<exists>(column, v) \<in> set sels. \<not> bound_to r column"
  shows "construct_selects en sels c = Inl MemFault"
  using assms(2-5)
proof (induction sels arbitrary: c)
  case (Cons sel sels)
  obtain column v where sel: "sel = (column, v)" by force
  show ?case
  proof (cases "bound_to r column")
    case True
    with Cons.prems(3) sel have "resolvable c column" by (auto simp: resolvable_def bound_to_def)
    from construct_select_ok [OF assms(1) Cons.prems(1) this, of v] obtain c1 where
      c1: "construct_select en sel c = Inr c1" "scanned c1" "same_base c c1" "dom (ac_dangling c1) = dom (ac_dangling c)"
      using sel by blast
    have "has_unit c1 = has_unit c" by (rule same_base_units(1) [OF c1(3)])
    with Cons.prems(3) have "\<forall>(column, v) \<in> set sels. has_unit c1 (effective_alias r) (pc_name column)" by simp
    moreover have "\<exists>(column, v) \<in> set sels. \<not> bound_to r column" using Cons.prems(4) True sel by auto
    ultimately have "construct_selects en sels c1 = Inl MemFault"
      using Cons.IH [OF c1(2)] Cons.prems(2) c1(4) by simp
    with c1(1) show ?thesis by (simp add: construct_selects_def)
  next
    case False
    with Cons.prems(2) have "ac_dangling c (pc_table column) = None" "pc_table column \<noteq> []"
      by (auto simp: bound_to_def)
    from construct_select_unbound [OF Cons.prems(1) this] show ?thesis by (simp add: construct_selects_def sel)
  qed
qed simp

text \<open>The scan and the conditions of a statement on one relation.\<close>

definition selected :: "'v Database \<Rightarrow> PTable \<Rightarrow> tree \<Rightarrow> AnalyzingContext \<Rightarrow> bool" where
  \<comment> \<open>the production of the relation is a tree over one scan of its table in its branch\<close>
  "selected db r tree c \<longleftrightarrow> scanned c \<and> sourced c
     \<and> ac_dangling c (effective_alias r) = Some (Some tree) \<and> dom (ac_dangling c) = {effective_alias r}
     \<and> (\<exists>s. scans tree = {#s#} \<and> sc_table s = pt_name r \<and> sc_branchId s = branch_of db r)
     \<and> (\<forall>column \<in> insert ''tid'' (columns_of db r). has_unit c (effective_alias r) column)"

lemma scan_relation:
  assumes en: "env_ok en" and r: "relation_ok db r"
  shows "\<exists>c s. construct_scan en r (AnalyzingContext_ctor db h) = Inr (r\<lparr>pt_alias := effective_alias r\<rparr>, c)
    \<and> ac_db c = db \<and> selected db r (TableScan s) c \<and> scans_relations db [r] c"
proof -
  let ?c = "AnalyzingContext_ctor db h"
  have start: "ac_db ?c = db" "ac_dangling ?c = Map.empty" by (simp_all add: AnalyzingContext_ctor_def)
  from construct_scan_ok [OF en scanned_start(1), of db h r] r scanned_start(2) [of db h] obtain c s where
    c: "construct_scan en r ?c = Inr (r\<lparr>pt_alias := effective_alias r\<rparr>, c)" "scanned c" "sourced c" "ac_db c = db"
      "\<forall>column \<in> insert ''tid'' (columns_of db r). has_unit c (effective_alias r) column"
      "sc_table s = pt_name r" "sc_branchId s = branch_of db r"
      "ac_dangling c = [effective_alias r \<mapsto> Some (TableScan s)]"
    unfolding start by auto
  moreover have "selected db r (TableScan s) c" using c by (simp add: selected_def)
  moreover have "scans_relations db [r] c" using c(6-8) by (auto simp: scans_relations_def)
  ultimately show ?thesis by blast
qed

lemma bound_conditions:
  assumes en: "env_ok en" and c: "selected db r t c" "scans_relations db [r] c" "ac_db c = db"
    and cols: "\<forall>(column, v) \<in> set sels. pc_name column \<in> columns_of db r \<and> bound_to r column"
  shows "\<exists>c' tree. construct_selects en sels c = Inr c' \<and> ac_db c' = db \<and> selected db r tree c'"
proof -
  have scanned: "scanned c" and d: "dom (ac_dangling c) = {effective_alias r}"
    and units: "\<forall>column \<in> insert ''tid'' (columns_of db r). has_unit c (effective_alias r) column"
    using c(1) by (simp_all add: selected_def)
  have "resolvable c column" if "(column, v) \<in> set sels" for column v
  proof -
    from that cols have "pc_name column \<in> columns_of db r" "bound_to r column" by auto
    with units show ?thesis by (auto simp: resolvable_def bound_to_def)
  qed
  then have "\<forall>(column, v) \<in> set sels. resolvable c column" by blast
  from construct_selects_ok [OF en scanned this] obtain c' where
    c': "construct_selects en sels c = Inr c'" "scanned c'" "same_base c c'" "sourced c'"
      "dom (ac_dangling c') = dom (ac_dangling c)" "scans_relations db [r] c'"
    using c(1,2) by (auto simp: selected_def)
  from c'(2,5) d obtain tree where tree: "ac_dangling c' (effective_alias r) = Some (Some tree)"
    unfolding scanned_def by (metis domD insertI1 not_Some_eq)
  with c'(6) have "\<exists>s. scans tree = {#s#} \<and> sc_table s = pt_name r \<and> sc_branchId s = branch_of db r"
    by (auto simp: scans_relations_def)
  then have "selected db r tree c'"
    using c'(2,4,5) d tree units same_base_units(1) [OF c'(3)] by (simp add: selected_def)
  moreover have "ac_db c' = db" using c'(3) c(3) by (simp add: same_base_def)
  ultimately show ?thesis using c'(1) by blast
qed

lemma unbound_conditions:
  assumes "env_ok en" "selected db r t c" "\<forall>(column, v) \<in> set sels. pc_name column \<in> columns_of db r"
    and "\<exists>(column, v) \<in> set sels. \<not> bound_to r column"
  shows "construct_selects en sels c = Inl MemFault"
  by (rule construct_selects_unbound [OF assms(1) _ _ _ assms(4)])
    (use assms(2,3) in \<open>auto simp: selected_def\<close>)


lemma unique_unit:
  assumes "env_ok en" "selected db r tree c"
  shows "getUniqueColumnIU en ''tid'' c \<in> produced tree"
proof -
  have c: "ius_ok c" "has_unit c (effective_alias r) ''tid''"
    using assms(2) by (simp_all add: selected_def scanned_def)
  from getUniqueColumnIU_at [OF assms(1) c(1)] c(2) obtain p where
    p: "unit_at c p ''tid'' = Some (getUniqueColumnIU en ''tid'' c)" by blast
  have "sourced c" "dom (ac_dangling c) = {effective_alias r}" "ac_dangling c (effective_alias r) = Some (Some tree)"
    using assms(2) by (simp_all add: selected_def)
  moreover from this(1) p obtain t where "ac_dangling c p = Some (Some t)" "getUniqueColumnIU en ''tid'' c \<in> produced t"
    unfolding sourced_def by blast
  ultimately show ?thesis by (metis domI option.inject singletonD)
qed

text \<open>C35: a \<^verbatim>\<open>DELETE\<close> that has passed the checks has a tree exactly if every column of its condition has no
  binding or that of the relation: then the tree deletes, in the table and the branch of the statement,
  the rows of one scan of that table and branch by a unit the scan produces, and the database is
  unchanged; otherwise the construction follows a null pointer, which the checks did not exclude.\<close>

theorem verified_delete_constructs:
  assumes "env_ok en" "DeleteAnalyser_verify db (Some stmt) = Inr u" "tables_ok db" "r = del_relation stmt"
  shows "if \<forall>(column, v) \<in> set (del_selections stmt). bound_to r column
    then \<exists>c tree tid s. DeleteAnalyser_constructTree en stmt (AnalyzingContext_ctor db h) = Inr c
      \<and> ac_joinedTree c = Some (Delete tree tid (pt_name r) (branch_of db r)) \<and> tid \<in> produced tree
      \<and> scans tree = {#s#} \<and> sc_table s = pt_name r \<and> sc_branchId s = branch_of db r \<and> ac_db c = db
    else DeleteAnalyser_constructTree en stmt (AnalyzingContext_ctor db h) = Inl MemFault"
proof -
  from assms(2) obtain t where "verify_target db r = Inr t"
    "\<forall>(column, v) \<in> set (del_selections stmt). pc_name column \<in> set (Table_getColumnNames t)"
    by (auto simp: DeleteAnalyser_verify_def assms(4) bind_res_eq_Inr case_prod_unfold)
  with verify_target_known [OF _ assms(3)] have r: "relation_ok db r"
    and table: "Database_getTable db (pt_name r) = Some t"
    and cols: "\<forall>(column, v) \<in> set (del_selections stmt). pc_name column \<in> columns_of db r" by auto
  from scan_relation [OF assms(1) r, of h] obtain c1 s where
    c1: "construct_scan en r (AnalyzingContext_ctor db h) = Inr (r\<lparr>pt_alias := effective_alias r\<rparr>, c1)"
      "ac_db c1 = db" "selected db r (TableScan s) c1" "scans_relations db [r] c1" by blast
  show ?thesis
  proof (cases "\<forall>(column, v) \<in> set (del_selections stmt). bound_to r column")
    case True
    with cols have "\<forall>(column, v) \<in> set (del_selections stmt). pc_name column \<in> columns_of db r \<and> bound_to r column" by auto
    from bound_conditions [OF assms(1) c1(3,4,2) this] obtain c2 tree where
      c2: "construct_selects en (del_selections stmt) c1 = Inr c2" "ac_db c2 = db" "selected db r tree c2" by blast
    from c2(3) obtain s' where s': "scans tree = {#s'#}" "sc_table s' = pt_name r" "sc_branchId s' = branch_of db r"
      by (auto simp: selected_def)
    have dangling: "ac_dangling c2 (effective_alias r) = Some (Some tree)" using c2(3) by (simp add: selected_def)
    define c where "c = set_root (Delete tree (getUniqueColumnIU en ''tid'' c2) (pt_name r) (branch_of db r))
      (c2\<lparr>ac_db := db, ac_dangling := (ac_dangling c2)(effective_alias r \<mapsto> None)\<rparr>)"
    have "DeleteAnalyser_constructTree en stmt (AnalyzingContext_ctor db h) = Inr c"
      using c1(1) c2(1,2) dangling table
      by (simp add: DeleteAnalyser_constructTree_def assms(4) [symmetric] Let_def branch_lookup_same [OF r] getTable_def
          effective_alias_def [symmetric] take_production_def c_def)
    moreover have "ac_db c = db" "ac_joinedTree c = Some (Delete tree (getUniqueColumnIU en ''tid'' c2) (pt_name r) (branch_of db r))"
      by (simp_all add: c_def set_root_def)
    ultimately show ?thesis using True s' unique_unit [OF assms(1) c2(3)] by auto
  next
    case False
    then have "construct_selects en (del_selections stmt) c1 = Inl MemFault"
      using unbound_conditions [OF assms(1) c1(3) cols] by auto
    with c1(1) False show ?thesis by (auto simp: DeleteAnalyser_constructTree_def assms(4) [symmetric])
  qed
qed

definition ex_delete :: "string \<Rightarrow> DeleteStatement" where
  "ex_delete binding = \<lparr>del_relation = \<lparr>pt_name = ''s'', pt_alias = [], pt_version = ''master''\<rparr>,
     del_selections = [(\<lparr>pc_name = ''a'', pc_table = binding\<rparr>, ''7'')]\<rparr>"

lemma ex_delete_verified: "DeleteAnalyser_verify ex_catalogue (Some (ex_delete binding)) = Inr ()"
  by (simp add: DeleteAnalyser_verify_def ex_delete_def) code_simp

lemma verified_delete_constructs_witness:
  "DeleteAnalyser_constructTree ex_env (ex_delete ''x'') (AnalyzingContext_ctor ex_catalogue ex_heap) = Inl MemFault
    \<and> (\<exists>c tree tid s. DeleteAnalyser_constructTree ex_env (ex_delete []) (AnalyzingContext_ctor ex_catalogue ex_heap) = Inr c
      \<and> ac_joinedTree c = Some (Delete tree tid ''s'' (branch_of ex_catalogue (del_relation (ex_delete []))))
      \<and> tid \<in> produced tree \<and> scans tree = {#s#} \<and> sc_table s = ''s'')"
  using verified_delete_constructs [OF ex_env_ok ex_delete_verified [of "''x''"] run_tables_ok [OF ex_catalogue_run] refl, of ex_heap]
    verified_delete_constructs [OF ex_env_ok ex_delete_verified [of "[]"] run_tables_ok [OF ex_catalogue_run] refl, of ex_heap]
  by (auto simp: ex_delete_def bound_to_def effective_alias_def)


text \<open>C36: an \<^verbatim>\<open>UPDATE\<close> that has passed the checks has a tree exactly if every column of its condition has
  no binding or that of the relation: then the tree updates, in the table and the branch of the
  statement, the rows of one scan, every column of the table with the first value the statement assigns
  to it or the empty string for none, by units the scan produces; otherwise the construction follows a
  null pointer.\<close>

theorem verified_update_constructs:
  assumes "env_ok en" "UpdateAnalyser_verify db (Some stmt) = Inr u" "tables_ok db" "r = upd_relation stmt"
  shows "if \<forall>(column, v) \<in> set (upd_selections stmt). bound_to r column
    then \<exists>c tree ius s. UpdateAnalyser_constructTree en stmt (AnalyzingContext_ctor db h) = Inr c
      \<and> ac_joinedTree c = Some (Update tree ius (pt_name r) (branch_of db r)) \<and> fst ` set ius \<subseteq> produced tree
      \<and> (\<forall>n \<in> columns_of db r. \<exists>iu. unit_at c (effective_alias r) n = Some iu
            \<and> (iu, update_value (upd_updates stmt) n) \<in> set ius)
      \<and> scans tree = {#s#} \<and> sc_table s = pt_name r \<and> sc_branchId s = branch_of db r \<and> ac_db c = db
    else UpdateAnalyser_constructTree en stmt (AnalyzingContext_ctor db h) = Inl MemFault"
proof -
  from assms(2) obtain t where "verify_target db r = Inr t"
    "\<forall>(column, v) \<in> set (upd_selections stmt). pc_name column \<in> set (Table_getColumnNames t)"
    by (auto simp: UpdateAnalyser_verify_def assms(4) bind_res_eq_Inr case_prod_unfold Let_def)
  with verify_target_known [OF _ assms(3)] have r: "relation_ok db r"
    and table: "Database_getTable db (pt_name r) = Some t"
    and cols: "\<forall>(column, v) \<in> set (upd_selections stmt). pc_name column \<in> columns_of db r" by auto
  from scan_relation [OF assms(1) r, of h] obtain c1 s where
    c1: "construct_scan en r (AnalyzingContext_ctor db h) = Inr (r\<lparr>pt_alias := effective_alias r\<rparr>, c1)"
      "ac_db c1 = db" "selected db r (TableScan s) c1" "scans_relations db [r] c1" by blast
  show ?thesis
  proof (cases "\<forall>(column, v) \<in> set (upd_selections stmt). bound_to r column")
    case True
    with cols have "\<forall>(column, v) \<in> set (upd_selections stmt). pc_name column \<in> columns_of db r \<and> bound_to r column" by auto
    from bound_conditions [OF assms(1) c1(3,4,2) this] obtain c2 tree where
      c2: "construct_selects en (upd_selections stmt) c1 = Inr c2" "ac_db c2 = db" "selected db r tree c2" by blast
    from c2(3) obtain s' where s': "scans tree = {#s'#}" "sc_table s' = pt_name r" "sc_branchId s' = branch_of db r"
      by (auto simp: selected_def)
    have ok: "ius_ok c2" "sourced c2" and dangling: "ac_dangling c2 (effective_alias r) = Some (Some tree)"
      and units: "\<forall>n \<in> columns_of db r. has_unit c2 (effective_alias r) n"
      using c2(3) by (simp_all add: selected_def scanned_def)
    have c2_db: "c2\<lparr>ac_db := db\<rparr> = c2" using c2(2) by simp
    let ?entries = "inner_map (effective_alias r) (ac_ius c2)"
    from ius_of_ok [OF ok(1), of "effective_alias r"] obtain m where
      m: "ius_of (effective_alias r) c2 = (?entries, c2\<lparr>ac_ius := m\<rparr>)" "unit_at (c2\<lparr>ac_ius := m\<rparr>) = unit_at c2" by blast
    define ius where "ius = map (\<lambda>(key, iu). (iu, update_value (upd_updates stmt) key)) (iterate en ?entries)"
    define c where "c = set_root (Update tree ius (pt_name r) (branch_of db r))
      (c2\<lparr>ac_ius := m, ac_dangling := (ac_dangling c2)(effective_alias r \<mapsto> None)\<rparr>)"
    have "UpdateAnalyser_constructTree en stmt (AnalyzingContext_ctor db h) = Inr c"
      using c1(1) c2(1,2) dangling table m(1)
      by (simp add: UpdateAnalyser_constructTree_def assms(4) [symmetric] Let_def branch_lookup_same [OF r] getTable_def
          effective_alias_def [symmetric] take_production_def c_def c2_db ius_def)
    moreover have "ac_db c = db" "ac_joinedTree c = Some (Update tree ius (pt_name r) (branch_of db r))"
      using c2(2) by (simp_all add: c_def set_root_def)
    moreover have "fst ` set ius \<subseteq> produced tree"
    proof -
      have "iu \<in> produced tree" if "(key, iu) \<in> set (iterate en ?entries)" for key iu
        using ok(2) entries_units [OF assms(1) ok(1) that] dangling unfolding sourced_def by fastforce
      then show ?thesis by (auto simp: ius_def)
    qed
    moreover have "\<exists>iu. unit_at c (effective_alias r) n = Some iu \<and> (iu, update_value (upd_updates stmt) n) \<in> set ius"
      if n: "n \<in> columns_of db r" for n
    proof -
      from units n obtain iu where iu: "unit_at c2 (effective_alias r) n = Some iu" by (auto simp: has_unit_def)
      have "umap_ok ?entries" using ok(1) by (simp add: ius_ok_def)
      then have "(n, iu) \<in> set (iterate en ?entries)"
        using map_of_SomeD [OF iu [unfolded unit_at_def]] by (simp add: set_iterate [OF assms(1)])
      then have "(iu, update_value (upd_updates stmt) n) \<in> set ius" by (force simp: ius_def)
      moreover have "unit_at c (effective_alias r) n = Some iu"
        using iu m(2) by (simp add: c_def set_root_def unit_at_def fun_eq_iff)
      ultimately show ?thesis by blast
    qed
    ultimately have "\<exists>c tree ius s. UpdateAnalyser_constructTree en stmt (AnalyzingContext_ctor db h) = Inr c
      \<and> ac_joinedTree c = Some (Update tree ius (pt_name r) (branch_of db r)) \<and> fst ` set ius \<subseteq> produced tree
      \<and> (\<forall>n \<in> columns_of db r. \<exists>iu. unit_at c (effective_alias r) n = Some iu
            \<and> (iu, update_value (upd_updates stmt) n) \<in> set ius)
      \<and> scans tree = {#s#} \<and> sc_table s = pt_name r \<and> sc_branchId s = branch_of db r \<and> ac_db c = db"
      using s' by (intro exI [of _ c] exI [of _ tree] exI [of _ ius] exI [of _ s']) blast
    with True show ?thesis by simp
  next
    case False
    then have "construct_selects en (upd_selections stmt) c1 = Inl MemFault"
      using unbound_conditions [OF assms(1) c1(3) cols] by auto
    with c1(1) False show ?thesis by (auto simp: UpdateAnalyser_constructTree_def assms(4) [symmetric])
  qed
qed

definition ex_update :: UpdateStatement where
  "ex_update = \<lparr>upd_relation = \<lparr>pt_name = ''s'', pt_alias = ''x'', pt_version = ''master''\<rparr>,
     upd_updates = [(\<lparr>pc_name = ''a'', pc_table = []\<rparr>, ''7'')], upd_selections = [(\<lparr>pc_name = ''b'', pc_table = ''x''\<rparr>, ''1'')]\<rparr>"

lemma ex_update_verified: "UpdateAnalyser_verify ex_catalogue (Some ex_update) = Inr ()"
  by code_simp

lemma verified_update_constructs_witness:
  "\<exists>c tree ius s. UpdateAnalyser_constructTree ex_env ex_update (AnalyzingContext_ctor ex_catalogue ex_heap) = Inr c
      \<and> ac_joinedTree c = Some (Update tree ius ''s'' (branch_of ex_catalogue (upd_relation ex_update)))
      \<and> fst ` set ius \<subseteq> produced tree
      \<and> (\<forall>n \<in> columns_of ex_catalogue (upd_relation ex_update). \<exists>iu. unit_at c ''x'' n = Some iu
            \<and> (iu, update_value (upd_updates ex_update) n) \<in> set ius) \<and> scans tree = {#s#} \<and> sc_table s = ''s''"
  using verified_update_constructs [OF ex_env_ok ex_update_verified run_tables_ok [OF ex_catalogue_run] refl, of ex_heap]
  by (auto simp: ex_update_def bound_to_def effective_alias_def)

end
