(* ===== verification/JoinOrder.thy ===== *)
theory JoinOrder
  imports TreeConstruction
begin

text \<open>
  The order in which the traversal of the join graph meets the vertices is that of a hash map. For two
  relations the order does not matter; for a chain of three relations it does: started at an end, the
  traversal can leave out the relation at the other end, because the name of the vertex it works on is a
  reference into an edge that the traversal changes.
\<close>

definition fresh_vertex :: "tree \<Rightarrow> JoinVertex" where
  "fresh_vertex t = \<lparr>jv_production = Some t, jv_visited = False\<rparr>"

definition pair_context :: "string \<times> tree \<Rightarrow> string \<times> tree \<Rightarrow> expression list \<Rightarrow> AnalyzingContext \<Rightarrow> AnalyzingContext" where
  \<comment> \<open>the context when the traversal begins, with one edge between two relations\<close>
  "pair_context x y e c = c\<lparr>ac_joinedTree := None, ac_graph :=
     \<lparr>jg_vertices = map (\<lambda>(n, t). (n, fresh_vertex t)) [x, y],
      jg_edges = [\<lparr>je_vID = fst x, je_uID = fst y, je_expressions = e\<rparr>]\<rparr>\<rparr>"

definition chain_context :: "string \<times> tree \<Rightarrow> string \<times> tree \<Rightarrow> string \<times> tree \<Rightarrow> expression list \<Rightarrow> expression list \<Rightarrow>
    AnalyzingContext \<Rightarrow> AnalyzingContext" where
  \<comment> \<open>with the edges of a chain of three relations\<close>
  "chain_context x y z e f c = c\<lparr>ac_joinedTree := None, ac_graph :=
     \<lparr>jg_vertices = map (\<lambda>(n, t). (n, fresh_vertex t)) [x, y, z],
      jg_edges = [\<lparr>je_vID = fst x, je_uID = fst y, je_expressions = e\<rparr>,
        \<lparr>je_vID = fst y, je_uID = fst z, je_expressions = f\<rparr>]\<rparr>\<rparr>"

definition joined_from :: "string \<Rightarrow> AnalyzingContext \<Rightarrow> tree option" where
  "joined_from v c = (case construct_join_from (length (jg_vertices (ac_graph c))) (LocalName v) c of
     Some (Inr c') \<Rightarrow> ac_joinedTree c' | _ \<Rightarrow> None)"

lemmas traversal_simps = joined_from_def pair_context_def chain_context_def fresh_vertex_def getVertex_def
  set_vertex_def getConnectedEdges_def join_edge_def deref_name_def Let_def next_uid_def

lemma pair_joined:
  assumes "fst x \<noteq> fst y"
  shows "joined_from (fst x) (pair_context x y e c) = Some (Join (snd x) (snd y) e)"
    "joined_from (fst y) (pair_context x y e c) = Some (Join (snd x) (snd y) e)"
  using assms by (cases x; cases y; simp add: traversal_simps cong: if_cong)+


text \<open>C37: two relations are joined to the same tree whichever of them the traversal starts at, but the tree
  of a chain of three relations depends on the start: from the middle and from the last relation all
  three are joined, from the first relation the third is left out of the query.\<close>

theorem chain_join_loses_relation:
  assumes "distinct [fst x, fst y, fst z]"
  shows "joined_from (fst x) (pair_context x y e c) = Some (Join (snd x) (snd y) e)
    \<and> joined_from (fst y) (pair_context x y e c) = Some (Join (snd x) (snd y) e)
    \<and> joined_from (fst x) (chain_context x y z e f c) = Some (Join (snd x) (snd y) e)
    \<and> joined_from (fst y) (chain_context x y z e f c) = Some (Join (Join (snd x) (snd y) e) (snd z) f)
    \<and> joined_from (fst z) (chain_context x y z e f c) = Some (Join (snd x) (Join (snd y) (snd z) f) e)"
proof -
  have "joined_from (fst x) (chain_context x y z e f c) = Some (Join (snd x) (snd y) e)"
    using assms by (cases x; cases y; cases z; simp add: traversal_simps cong: if_cong; fastforce?)
  moreover have "joined_from (fst y) (chain_context x y z e f c) = Some (Join (Join (snd x) (snd y) e) (snd z) f)"
    using assms by (cases x; cases y; cases z; simp add: traversal_simps cong: if_cong; fastforce?)
  moreover have "joined_from (fst z) (chain_context x y z e f c) = Some (Join (snd x) (Join (snd y) (snd z) f) e)"
    using assms by (cases x; cases y; cases z; simp add: traversal_simps cong: if_cong; fastforce?)
  ultimately show ?thesis using pair_joined [of x y e c] assms by simp
qed


definition ex_relation :: "string \<Rightarrow> tree" where
  "ex_relation name = TableScan \<lparr>sc_uid = 0, sc_table = name, sc_branchId = master_branch_id, sc_produced = {}\<rparr>"

definition ex_chain :: AnalyzingContext where
  "ex_chain = chain_context (''r'', ex_relation ''r'') (''s'', ex_relation ''s'') (''t'', ex_relation ''t'') [] []
     (AnalyzingContext_ctor Database_ctor \<lparr>hp_mem = (\<lambda>_. 0), hp_brk = 4096\<rparr>)"

lemma chain_join_loses_relation_witness:
  "joined_from ''r'' ex_chain = Some (Join (ex_relation ''r'') (ex_relation ''s'') [])
    \<and> joined_from ''s'' ex_chain = Some (Join (Join (ex_relation ''r'') (ex_relation ''s'') []) (ex_relation ''t'') [])"
  using chain_join_loses_relation [of "(''r'', ex_relation ''r'')" "(''s'', ex_relation ''s'')" "(''t'', ex_relation ''t'')" "[]"
      "AnalyzingContext_ctor Database_ctor \<lparr>hp_mem = (\<lambda>_. 0), hp_brk = 4096\<rparr>" "[]"]
  by (simp add: ex_chain_def)

end
