(* ===== verification/GeneratedValues.thy ===== *)
theory GeneratedValues
  imports NativeValues LogicalExpressions
begin

text \<open>
  The values generated code computes with, sql/SqlValues.hpp and SqlValues.cpp. The classes emit LLVM
  instructions; a definition below is what the emitted instructions compute when they run, together with
  the exceptions the emission itself throws.

  A computation works on a \<open>machine\<close>: the memory, whether the function still runs, the overflow flag of
  sql/SqlOperators.hpp and what has been printed. Code in a branch that is not taken is still
  emitted, so its exceptions are thrown, but it has no effect: it runs with the status \<open>Skipped\<close>.
  Stack memory and constants take the next addresses of the heap, as the string pool does. The switch
  \<^verbatim>\<open>USE_INTERNAL_NULL_INDICATOR\<close> is off; \<^verbatim>\<open>clone\<close> is the identity and \<^verbatim>\<open>accept\<close> only dispatches.
\<close>

section \<open>Emitted code\<close>

datatype run_status =
    Running
  | Skipped \<comment> \<open>a branch that is not taken\<close>
  | Returned \<comment> \<open>the function has returned\<close>
  | Undefined \<comment> \<open>an access to memory that is not there, or a division LLVM leaves undefined\<close>

record machine =
  mc_heap :: heap
  mc_status :: run_status
  mc_overflow :: bool
  mc_out :: string

type_synonym 'a gen = "machine \<Rightarrow> ('a \<times> machine) result"

definition yield_gen :: "'a \<Rightarrow> 'a gen" where
  "yield_gen x s = Inr (x, s)"

definition throw_gen :: "exn \<Rightarrow> 'a gen" where
  "throw_gen e s = Inl e"

definition bind_gen :: "'a gen \<Rightarrow> ('a \<Rightarrow> 'b gen) \<Rightarrow> 'b gen" where
  "bind_gen m f s = bind_res (m s) (\<lambda>(x, s'). f x s')"

definition lift_gen :: "'a result \<Rightarrow> 'a gen" where
  \<comment> \<open>what the compiler itself computes\<close>
  "lift_gen r s = bind_res r (\<lambda>x. Inr (x, s))"

definition effect :: "(machine \<Rightarrow> machine) \<Rightarrow> unit gen" where
  "effect f s = Inr ((), if mc_status s = Running then f s else s)"

definition run_gen :: "'a result \<Rightarrow> 'a \<Rightarrow> 'a gen" where
  \<comment> \<open>a call that can throw while the code runs; the second argument stands for its value where it does not run\<close>
  "run_gen r x s = (if mc_status s = Running then bind_res r (\<lambda>y. Inr (y, s)) else Inr (x, s))"

definition read_gen :: "(memory \<Rightarrow> 'a) \<Rightarrow> 'a gen" where
  "read_gen f s = Inr (f (hp_mem (mc_heap s)), s)"

definition write_gen :: "u64 \<Rightarrow> u8 list \<Rightarrow> unit gen" where
  "write_gen p bs = effect (\<lambda>s. s\<lparr>mc_heap := (mc_heap s)\<lparr>hp_mem := write_bytes (hp_mem (mc_heap s)) p bs\<rparr>\<rparr>)"

definition undefined_if :: "bool \<Rightarrow> unit gen" where
  "undefined_if c = effect (\<lambda>s. if c then s\<lparr>mc_status := Undefined\<rparr> else s)"

definition alloca :: "nat \<Rightarrow> u64 gen" where
  "alloca n s = Inr (hp_brk (mc_heap s), s\<lparr>mc_heap := (mc_heap s)\<lparr>hp_brk := hp_brk (mc_heap s) + of_nat n\<rparr>\<rparr>)"

definition gen_if :: "bool \<Rightarrow> 'a gen \<Rightarrow> 'a \<Rightarrow> 'a gen" where
  \<comment> \<open>\<^verbatim>\<open>IfGen\<close> with a phi node whose initial value is the last argument\<close>
  "gen_if c body initial s =
     (if c then body s else bind_res (body (s\<lparr>mc_status := Skipped\<rparr>)) (\<lambda>_. Inr (initial, s)))"

section \<open>Values\<close>

datatype GValue =
    GUnknown
  | GInteger u32
  | GLongInteger u64
  | GNumeric SqlType u64
  | GBool bool
  | GChar1 SqlType u8 \<comment> \<open>a \<^verbatim>\<open>Char\<close> of length 1: the character itself\<close>
  | GString SqlType u64 u32 \<comment> \<open>the other \<^verbatim>\<open>Char\<close>s and \<^verbatim>\<open>Varchar\<close>: \<^verbatim>\<open>_llvmValue\<close> is a pointer, \<^verbatim>\<open>_length\<close>\<close>
  | GText u64 \<comment> \<open>a pointer to the sixteen bytes\<close>
  | GDate u32
  | GTimestamp u64
  | GNullable GValue bool

fun gv_type :: "GValue \<Rightarrow> SqlType" where
  "gv_type GUnknown = getUnknownTy"
| "gv_type (GInteger v) = getIntegerTy False"
| "gv_type (GLongInteger v) = getLongIntegerTy False"
| "gv_type (GNumeric t v) = t"
| "gv_type (GBool v) = getBoolTy False"
| "gv_type (GChar1 t v) = t"
| "gv_type (GString t p len) = t"
| "gv_type (GText p) = getTextTy False"
| "gv_type (GDate v) = getDateTy False"
| "gv_type (GTimestamp v) = getTimestampTy False"
| "gv_type (GNullable v n) = toNullableTy (gv_type v)"

definition isNullable_gen :: "GValue \<Rightarrow> bool" where
  "isNullable_gen v = (case v of GNullable _ _ \<Rightarrow> True | _ \<Rightarrow> False)"

definition getAssociatedValue_gen :: "GValue \<Rightarrow> GValue" where
  "getAssociatedValue_gen v = (case v of GNullable w _ \<Rightarrow> w | _ \<Rightarrow> v)"

definition isUnknown_gen :: "GValue \<Rightarrow> bool" where
  "isUnknown_gen v = (ty_typeID (gv_type v) = UnknownID)"

definition mayBeNull_gen :: "GValue \<Rightarrow> bool" where
  "mayBeNull_gen v = (ty_typeID (gv_type v) = UnknownID \<or> isNullable_gen v)"

definition isNumerical_gen :: "GValue \<Rightarrow> bool" where
  "isNumerical_gen v = (ty_typeID (gv_type v) \<in> {UnknownID, IntegerID, NumericID})"

definition same_type_gen :: "GValue \<Rightarrow> GValue \<Rightarrow> bool" where
  "same_type_gen v w = SqlType_equals (gv_type v) (gv_type w) WithoutNullable"

section \<open>Hashing\<close>

definition genIntHash :: "'a::len word \<Rightarrow> hash_t" where
  \<comment> \<open>the value is extended with zeros\<close>
  "genIntHash value =
     (let x = ucast value;
          r = 88172645463325252;
          r = r XOR x;
          r = r XOR push_bit 13 r;
          r = r XOR drop_bit 7 r
      in r XOR push_bit 17 r)"

function string_hash_loop :: "memory \<Rightarrow> u64 \<Rightarrow> nat \<Rightarrow> nat \<Rightarrow> hash_t \<Rightarrow> hash_t" where
  \<comment> \<open>the condition is tested after the body\<close>
  "string_hash_loop m str len index result =
     (let x = ucast (m (str + of_nat index));
          result' = (push_bit 5 result OR drop_bit 27 result) XOR x;
          nextIndex = index + 1
      in if nextIndex < len then string_hash_loop m str len nextIndex result' else result')"
  by pat_completeness auto
termination by (relation "measure (\<lambda>(m, str, len, index, result). len - index)") auto

declare string_hash_loop.simps [simp del]

definition bad_buffer :: "u64 \<Rightarrow> u64 \<Rightarrow> bool" where
  \<comment> \<open>bytes at an address with the top bit set, which no process has\<close>
  "bad_buffer p n = (n \<noteq> 0 \<and> drop_bit (8 * 8 - 1) p \<noteq> 0)"

definition genStringHash :: "u64 \<Rightarrow> u64 \<Rightarrow> hash_t gen" where
  "genStringHash str len =
     bind_gen (undefined_if (bad_buffer str (max 1 len))) (\<lambda>_.
       read_gen (\<lambda>m. string_hash_loop m str (unat len) 0 0))"

section \<open>Integers\<close>

definition Integer_castString_gen :: "string \<Rightarrow> GValue gen" where
  "Integer_castString_gen str = bind_gen (lift_gen (castStringToIntegerValue str)) (\<lambda>raw. yield_gen (GInteger raw))"

definition Integer_load_gen :: "u64 \<Rightarrow> GValue gen" where
  "Integer_load_gen ptr = read_gen (\<lambda>m. GInteger (word_of_bytes (read_bytes m ptr 4)))"

definition Integer_store_gen :: "u32 \<Rightarrow> u64 \<Rightarrow> unit gen" where
  "Integer_store_gen value ptr = write_gen ptr (bytes_of_word 4 value)"

definition Integer_hash_gen :: "u32 \<Rightarrow> hash_t" where
  "Integer_hash_gen value = genIntHash value"

definition LongInteger_castString_gen :: "string \<Rightarrow> GValue gen" where
  "LongInteger_castString_gen str =
     bind_gen (lift_gen (castStringToUnsignedLongIntegerValue str)) (\<lambda>raw. yield_gen (GLongInteger raw))"

definition LongInteger_load_gen :: "u64 \<Rightarrow> GValue gen" where
  "LongInteger_load_gen ptr = read_gen (\<lambda>m. GLongInteger (word_of_bytes (read_bytes m ptr 8)))"

definition LongInteger_store_gen :: "u64 \<Rightarrow> u64 \<Rightarrow> unit gen" where
  "LongInteger_store_gen value ptr = write_gen ptr (bytes_of_word 8 value)"

definition LongInteger_hash_gen :: "u64 \<Rightarrow> hash_t" where
  "LongInteger_hash_gen value = genIntHash value"

definition Numeric_castString_gen :: "string \<Rightarrow> SqlType \<Rightarrow> GValue gen" where
  "Numeric_castString_gen str type =
     bind_gen (lift_gen (castStringToNumericValue str (unat (numericLayout_length type)) (unat (numericLayout_precision type))))
       (\<lambda>raw. yield_gen (GNumeric type raw))"

definition Numeric_load_gen :: "u64 \<Rightarrow> SqlType \<Rightarrow> GValue gen" where
  "Numeric_load_gen ptr type = read_gen (\<lambda>m. GNumeric type (word_of_bytes (read_bytes m ptr 8)))"

definition Numeric_store_gen :: "u64 \<Rightarrow> u64 \<Rightarrow> unit gen" where
  "Numeric_store_gen value ptr = write_gen ptr (bytes_of_word 8 value)"

definition Numeric_hash_gen :: "u64 \<Rightarrow> hash_t" where
  "Numeric_hash_gen value = genIntHash value"

section \<open>Booleans\<close>

definition Bool_castString_gen :: "string \<Rightarrow> GValue gen" where
  "Bool_castString_gen str =
     (if str = ''true'' then yield_gen (GBool True)
      else if str = ''false'' then yield_gen (GBool False)
      else throw_gen (InvalidOperation ''invalid string representation of a boolean value''))"

definition Bool_load_gen :: "u64 \<Rightarrow> GValue gen" where
  \<comment> \<open>an \<^verbatim>\<open>i1\<close> is the lowest bit of its byte\<close>
  "Bool_load_gen ptr = read_gen (\<lambda>m. GBool (bit (m ptr) 0))"

definition Bool_store_gen :: "bool \<Rightarrow> u64 \<Rightarrow> unit gen" where
  "Bool_store_gen value ptr = write_gen ptr [if value then 1 else 0]"

definition Bool_hash_gen :: "bool \<Rightarrow> hash_t" where
  "Bool_hash_gen value = genIntHash (if value then 1 else 0 :: 1 word)"

section \<open>Strings\<close>

definition length_bytes :: "SqlType \<Rightarrow> nat" where
  \<comment> \<open>of the length in front of the characters; the array of characters follows without padding\<close>
  "length_bytes type = lengthIndicatorSize (ty_length type) div 8"

definition loadStringLength :: "u64 \<Rightarrow> SqlType \<Rightarrow> u32 gen" where
  "loadStringLength ptr type = read_gen (\<lambda>m. word_of_bytes (read_bytes m ptr (length_bytes type)))"

definition CreateGlobalString :: "string \<Rightarrow> u64 gen" where
  \<comment> \<open>a constant of the module: the characters and a zero\<close>
  "CreateGlobalString str s =
     (let h = mc_heap s
      in Inr (hp_brk h, s\<lparr>mc_heap := h\<lparr>hp_mem := write_bytes (hp_mem h) (hp_brk h) (bytes_of_chars str @ [0]),
           hp_brk := hp_brk h + of_nat (length str + 1)\<rparr>\<rparr>))"

definition equalBuffers :: "u64 \<Rightarrow> u32 \<Rightarrow> u64 \<Rightarrow> u32 \<Rightarrow> bool gen" where
  "equalBuffers p1 len1 p2 len2 =
     (let lenEQ = (len1 = len2)
      in gen_if lenEQ (read_gen (\<lambda>m. read_bytes m p1 (unat len1) = read_bytes m p2 (unat len1))) False)"

definition string_store :: "SqlType \<Rightarrow> u64 \<Rightarrow> u32 \<Rightarrow> u64 \<Rightarrow> unit gen" where
  \<comment> \<open>the length and the characters\<close>
  "string_store type value len ptr =
     bind_gen (write_gen ptr (bytes_of_word (length_bytes type) len)) (\<lambda>_.
       bind_gen (read_gen (\<lambda>m. read_bytes m value (unat len))) (\<lambda>bs.
         write_gen (ptr + of_nat (length_bytes type)) bs))"

definition Char_castString_gen :: "string \<Rightarrow> SqlType \<Rightarrow> GValue gen" where
  "Char_castString_gen str type =
     (if ty_length type = 1
      then if length str = 1 then yield_gen (GChar1 type (hd (bytes_of_chars str))) else throw_gen AssertFailed
      else let len = of_nat (length str) :: u32
           in if len > ty_length type then throw_gen (RuntimeError ''type mismatch'')
              else bind_gen (CreateGlobalString str) (\<lambda>p. yield_gen (GString type p len)))"

definition Char_load_gen :: "u64 \<Rightarrow> SqlType \<Rightarrow> GValue gen" where
  "Char_load_gen ptr type =
     (if ty_length type = 1 then read_gen (\<lambda>m. GChar1 type (m ptr))
      else bind_gen (loadStringLength ptr type) (\<lambda>len. yield_gen (GString type (ptr + of_nat (length_bytes type)) len)))"

definition Varchar_castString_gen :: "string \<Rightarrow> SqlType \<Rightarrow> GValue gen" where
  "Varchar_castString_gen str type =
     (let len = of_nat (length str) :: u32
      in if len > ty_length type then throw_gen (RuntimeError ''type mismatch'')
         else bind_gen (CreateGlobalString str) (\<lambda>p. yield_gen (GString type p len)))"

definition Varchar_load_gen :: "u64 \<Rightarrow> SqlType \<Rightarrow> GValue gen" where
  "Varchar_load_gen ptr type =
     bind_gen (loadStringLength ptr type) (\<lambda>len. yield_gen (GString type (ptr + of_nat (length_bytes type)) len))"

definition Varchar_hash_gen :: "u64 \<Rightarrow> u32 \<Rightarrow> hash_t gen" where
  "Varchar_hash_gen value len = genStringHash value (ucast len)"

section \<open>Texts\<close>

definition storeText :: "u64 \<Rightarrow> u64 \<Rightarrow> string \<Rightarrow> unit gen" where
  \<comment> \<open>a text of more than fifteen bytes is in the pool already; a shorter one is copied and its buffer freed\<close>
  "storeText dest beginPtr str =
     (let len = length str
      in if len > 15
         then let first_value = beginPtr XOR push_bit (8 * 8 - 1) 1; endPtr = beginPtr + of_nat len
              in write_gen dest (bytes_of_word 8 first_value @ bytes_of_word 8 endPtr)
         else write_gen dest (of_nat len # bytes_of_chars str))"

definition textBegin :: "memory \<Rightarrow> u64 \<Rightarrow> u64" where
  "textBegin m stringPtr =
     (let len = m stringPtr
      in if len > 15 then word_of_bytes (read_bytes m stringPtr 8) else stringPtr + 1)"

definition getLengthText :: "memory \<Rightarrow> u64 \<Rightarrow> u64" where
  \<comment> \<open>\<^verbatim>\<open>len\<close> is a byte, also when the difference of the pointers is assigned to it\<close>
  "getLengthText m stringPtr =
     (let len = m stringPtr;
          first_value = word_of_bytes (read_bytes m stringPtr 8) :: u64;
          second_value = word_of_bytes (read_bytes m (stringPtr + 8) 8)
      in ucast (if len > 15 then ucast (second_value - first_value) else len))"

definition Text_castString_gen :: "string \<Rightarrow> GValue gen" where
  "Text_castString_gen str =
     bind_gen (alloca 16) (\<lambda>arrayPtr.
       bind_gen (if length str > 15
                 then (\<lambda>s. let (p, h) = StringPool_put str (mc_heap s) in Inr (p, s\<lparr>mc_heap := h\<rparr>))
                 else yield_gen 0) (\<lambda>beginPtr.
         bind_gen (storeText arrayPtr beginPtr str) (\<lambda>_. yield_gen (GText arrayPtr))))"

definition Text_load_gen :: "u64 \<Rightarrow> GValue gen" where
  "Text_load_gen ptr =
     bind_gen (alloca 16) (\<lambda>arrayPtr.
       bind_gen (read_gen (\<lambda>m. read_bytes m ptr 16)) (\<lambda>bs.
         bind_gen (write_gen arrayPtr bs) (\<lambda>_. yield_gen (GText arrayPtr))))"

definition Text_store_gen :: "u64 \<Rightarrow> u64 \<Rightarrow> unit gen" where
  "Text_store_gen value ptr = bind_gen (read_gen (\<lambda>m. read_bytes m value 16)) (write_gen ptr)"

definition Text_hash_gen :: "u64 \<Rightarrow> hash_t gen" where
  "Text_hash_gen value =
     bind_gen (read_gen (\<lambda>m. (getLengthText m value, textBegin m value))) (\<lambda>(len, begin). genStringHash begin len)"

definition Text_same_gen :: "u64 \<Rightarrow> u64 \<Rightarrow> bool gen" where
  \<comment> \<open>the end of \<^verbatim>\<open>equals\<close>\<close>
  "Text_same_gen this other =
     bind_gen (read_gen (\<lambda>m. (getLengthText m other, getLengthText m this))) (\<lambda>(otherLength, thisLength).
       let isLengthEqual = (otherLength = thisLength)
       in bind_gen (gen_if isLengthEqual
            (bind_gen (read_gen (\<lambda>m. (textBegin m other, textBegin m this))) (\<lambda>(otherBegin, thisBegin).
               bind_gen (undefined_if (bad_buffer otherBegin thisLength \<or> bad_buffer thisBegin thisLength)) (\<lambda>_.
                 read_gen (\<lambda>m. read_bytes m otherBegin (unat thisLength) = read_bytes m thisBegin (unat thisLength))))) True)
            (\<lambda>result. yield_gen (isLengthEqual \<and> result)))"

section \<open>Dates\<close>

definition Date_castString_gen :: "string \<Rightarrow> GValue gen" where
  "Date_castString_gen str = bind_gen (lift_gen (castStringToDateValue str)) (\<lambda>raw. yield_gen (GDate raw))"

definition Date_load_gen :: "u64 \<Rightarrow> GValue gen" where
  "Date_load_gen ptr = read_gen (\<lambda>m. GDate (word_of_bytes (read_bytes m ptr 4)))"

definition Date_store_gen :: "u32 \<Rightarrow> u64 \<Rightarrow> unit gen" where
  "Date_store_gen value ptr = write_gen ptr (bytes_of_word 4 value)"

definition Date_hash_gen :: "u32 \<Rightarrow> hash_t" where
  "Date_hash_gen value = genIntHash value"

definition Timestamp_castString_gen :: "string \<Rightarrow> GValue gen" where
  "Timestamp_castString_gen str = bind_gen (lift_gen (castStringToTimestampValue str)) (\<lambda>raw. yield_gen (GTimestamp raw))"

definition Timestamp_load_gen :: "u64 \<Rightarrow> GValue gen" where
  "Timestamp_load_gen ptr = read_gen (\<lambda>m. GTimestamp (word_of_bytes (read_bytes m ptr 8)))"

definition Timestamp_store_gen :: "u64 \<Rightarrow> u64 \<Rightarrow> unit gen" where
  "Timestamp_store_gen value ptr = write_gen ptr (bytes_of_word 8 value)"

definition Timestamp_hash_gen :: "u64 \<Rightarrow> hash_t" where
  "Timestamp_hash_gen value = genIntHash value"

end
