(* ===== verification/ValueDispatch.thy ===== *)
theory ValueDispatch
  imports GeneratedValues
begin

text \<open>
  The virtual functions of the values of generated code, sql/SqlValues.cpp: equality and comparison, hashing,
  storing, and the functions of the class \<^verbatim>\<open>Value\<close> that choose the class by the type, with nullable and
  unknown values. A nullable value in memory is a struct; the offset of its indicator is LLVM's and a
  parameter, \<open>indicator\<close>.
\<close>

section \<open>Equality\<close>

text \<open>
  As in the native values, a class lets a nullable operand compare itself: the argument
  \<open>nullable_equals\<close> is that operand's \<^verbatim>\<open>equals\<close>. A cast of a reference to the wrong class does not happen
  once the types agree; it is \<open>MemFault\<close>.
\<close>

type_synonym equals_gen = "GValue \<Rightarrow> GValue \<Rightarrow> bool gen"

definition class_equals :: "equals_gen \<Rightarrow> (GValue \<Rightarrow> bool gen) \<Rightarrow> GValue \<Rightarrow> GValue \<Rightarrow> bool gen" where
  \<comment> \<open>the beginning of \<^verbatim>\<open>equals\<close> in every class; the second argument compares with a value of the class\<close>
  "class_equals nullable_equals same this other =
     (if \<not> same_type_gen this other then yield_gen False
      else if isNullable_gen other then nullable_equals other this
      else same other)"

definition Integer_equals_gen :: "equals_gen \<Rightarrow> u32 \<Rightarrow> GValue \<Rightarrow> bool gen" where
  "Integer_equals_gen nullable_equals value = class_equals nullable_equals
     (\<lambda>other. case other of GInteger v \<Rightarrow> yield_gen (value = v) | _ \<Rightarrow> throw_gen MemFault) (GInteger value)"

definition LongInteger_equals_gen :: "equals_gen \<Rightarrow> u64 \<Rightarrow> GValue \<Rightarrow> bool gen" where
  "LongInteger_equals_gen nullable_equals value = class_equals nullable_equals
     (\<lambda>other. case other of GLongInteger v \<Rightarrow> yield_gen (value = v) | _ \<Rightarrow> throw_gen MemFault) (GLongInteger value)"

definition Numeric_equals_gen :: "equals_gen \<Rightarrow> SqlType \<Rightarrow> u64 \<Rightarrow> GValue \<Rightarrow> bool gen" where
  "Numeric_equals_gen nullable_equals type value = class_equals nullable_equals
     (\<lambda>other. case other of GNumeric _ v \<Rightarrow> yield_gen (value = v) | _ \<Rightarrow> throw_gen MemFault) (GNumeric type value)"

definition Bool_equals_gen :: "equals_gen \<Rightarrow> bool \<Rightarrow> GValue \<Rightarrow> bool gen" where
  "Bool_equals_gen nullable_equals value = class_equals nullable_equals
     (\<lambda>other. case other of GBool v \<Rightarrow> yield_gen (value = v) | _ \<Rightarrow> throw_gen MemFault) (GBool value)"

definition Char1_equals_gen :: "equals_gen \<Rightarrow> SqlType \<Rightarrow> u8 \<Rightarrow> GValue \<Rightarrow> bool gen" where
  \<comment> \<open>\<^verbatim>\<open>Char::equals\<close> for the length 1\<close>
  "Char1_equals_gen nullable_equals type value = class_equals nullable_equals
     (\<lambda>other. case other of GChar1 _ v \<Rightarrow> yield_gen (value = v) | _ \<Rightarrow> throw_gen MemFault) (GChar1 type value)"

definition String_equals_gen :: "equals_gen \<Rightarrow> SqlType \<Rightarrow> u64 \<Rightarrow> u32 \<Rightarrow> GValue \<Rightarrow> bool gen" where
  \<comment> \<open>\<^verbatim>\<open>Varchar::equals\<close>, and \<^verbatim>\<open>Char::equals\<close> for the other lengths\<close>
  "String_equals_gen nullable_equals type value len = class_equals nullable_equals
     (\<lambda>other. case other of GString _ v l \<Rightarrow> equalBuffers value len v l | _ \<Rightarrow> throw_gen MemFault) (GString type value len)"

definition Text_equals_gen :: "equals_gen \<Rightarrow> u64 \<Rightarrow> GValue \<Rightarrow> bool gen" where
  "Text_equals_gen nullable_equals value = class_equals nullable_equals
     (\<lambda>other. case other of GText v \<Rightarrow> Text_same_gen value v | _ \<Rightarrow> throw_gen MemFault) (GText value)"

definition Date_equals_gen :: "equals_gen \<Rightarrow> u32 \<Rightarrow> GValue \<Rightarrow> bool gen" where
  "Date_equals_gen nullable_equals value = class_equals nullable_equals
     (\<lambda>other. case other of GDate v \<Rightarrow> yield_gen (value = v) | _ \<Rightarrow> throw_gen MemFault) (GDate value)"

definition Timestamp_equals_gen :: "equals_gen \<Rightarrow> u64 \<Rightarrow> GValue \<Rightarrow> bool gen" where
  "Timestamp_equals_gen nullable_equals value = class_equals nullable_equals
     (\<lambda>other. case other of GTimestamp v \<Rightarrow> yield_gen (value = v) | _ \<Rightarrow> throw_gen MemFault) (GTimestamp value)"

definition NullableValue_equals_gen :: "equals_gen \<Rightarrow> GValue \<Rightarrow> bool \<Rightarrow> GValue \<Rightarrow> bool gen" where
  "NullableValue_equals_gen value_equals v isNull other =
     (if \<not> same_type_gen (GNullable v isNull) other then yield_gen False
      else gen_if (\<not> isNull) (value_equals v other) False)"

definition equals_with_gen :: "equals_gen \<Rightarrow> equals_gen" where
  "equals_with_gen nullable_equals v other =
     (case v of
        GInteger value \<Rightarrow> Integer_equals_gen nullable_equals value other
      | GLongInteger value \<Rightarrow> LongInteger_equals_gen nullable_equals value other
      | GNumeric type value \<Rightarrow> Numeric_equals_gen nullable_equals type value other
      | GBool value \<Rightarrow> Bool_equals_gen nullable_equals value other
      | GChar1 type value \<Rightarrow> Char1_equals_gen nullable_equals type value other
      | GString type value len \<Rightarrow> String_equals_gen nullable_equals type value len other
      | GText value \<Rightarrow> Text_equals_gen nullable_equals value other
      | GDate value \<Rightarrow> Date_equals_gen nullable_equals value other
      | GTimestamp value \<Rightarrow> Timestamp_equals_gen nullable_equals value other
      | _ \<Rightarrow> yield_gen False)"

definition nullable_with_gen :: "equals_gen \<Rightarrow> equals_gen" where
  "nullable_with_gen value_equals v other =
     (case v of GNullable w isNull \<Rightarrow> NullableValue_equals_gen value_equals w isNull other | _ \<Rightarrow> value_equals v other)"

definition Value_equals_gen :: equals_gen where
  "Value_equals_gen =
     nullable_with_gen (equals_with_gen (nullable_with_gen (equals_with_gen (\<lambda>_ _. yield_gen False))))"

section \<open>Comparison\<close>

fun llvm_int :: "GValue \<Rightarrow> (nat \<times> int) option" where
  \<comment> \<open>\<^verbatim>\<open>getLLVMValue\<close> of the values that are an LLVM integer: its width, and its value as a signed number\<close>
  "llvm_int (GInteger v) = Some (32, sint v)"
| "llvm_int (GLongInteger v) = Some (64, sint v)"
| "llvm_int (GNumeric _ v) = Some (64, sint v)"
| "llvm_int (GBool b) = Some (1, if b then -1 else 0)"
| "llvm_int (GChar1 _ v) = Some (8, sint v)"
| "llvm_int (GDate v) = Some (32, sint v)"
| "llvm_int (GTimestamp v) = Some (64, sint v)"
| "llvm_int (GNullable v _) = llvm_int v"
| "llvm_int _ = None"

definition Value_icmp :: "ComparisonMode \<Rightarrow> int \<Rightarrow> int \<Rightarrow> bool" where
  "Value_icmp mode x y = (case mode of less \<Rightarrow> x < y | leq \<Rightarrow> x \<le> y | eq \<Rightarrow> x = y | geq \<Rightarrow> x \<ge> y | gtr \<Rightarrow> x > y)"

definition Value_compare_base :: "GValue \<Rightarrow> GValue \<Rightarrow> ComparisonMode \<Rightarrow> bool gen" where
  \<comment> \<open>\<^verbatim>\<open>Value::compare\<close>; LLVM asserts that the operands of a comparison have one type\<close>
  "Value_compare_base this other mode =
     (case (llvm_int this, llvm_int other) of
        (Some (n, x), Some (k, y)) \<Rightarrow> if n = k then yield_gen (Value_icmp mode x y) else throw_gen AssertFailed
      | _ \<Rightarrow> throw_gen AssertFailed)"

definition class_compare :: "GValue \<Rightarrow> GValue \<Rightarrow> ComparisonMode \<Rightarrow> bool gen" where
  \<comment> \<open>the overrides of the classes that are not nullable\<close>
  "class_compare this other mode =
     (case this of
        GUnknown \<Rightarrow> yield_gen False
      | GChar1 _ _ \<Rightarrow> throw_gen (NotImplemented ''Char::compare'')
      | GString type _ _ \<Rightarrow> throw_gen (NotImplemented (if ty_typeID type = CharID then ''Char::compare'' else ''Varchar::compare''))
      | GText _ \<Rightarrow> throw_gen (NotImplemented ''Text::compare'')
      | _ \<Rightarrow> Value_compare_base this other mode)"

definition Value_compare_gen :: "GValue \<Rightarrow> GValue \<Rightarrow> ComparisonMode \<Rightarrow> bool gen" where
  "Value_compare_gen this other mode =
     (case this of
        GNullable v isNull \<Rightarrow>
          if \<not> same_type_gen this other then yield_gen False
          else gen_if (\<not> isNull) (class_compare v other mode) False
      | _ \<Rightarrow> class_compare this other mode)"

section \<open>Hashing and storing\<close>

fun Value_hash_gen :: "GValue \<Rightarrow> hash_t gen" where
  "Value_hash_gen GUnknown = yield_gen 0x2c8e4eecfc696c50"
| "Value_hash_gen (GInteger value) = yield_gen (Integer_hash_gen value)"
| "Value_hash_gen (GLongInteger value) = yield_gen (LongInteger_hash_gen value)"
| "Value_hash_gen (GNumeric _ value) = yield_gen (Numeric_hash_gen value)"
| "Value_hash_gen (GBool value) = yield_gen (Bool_hash_gen value)"
| "Value_hash_gen (GChar1 _ value) = yield_gen (genIntHash value)"
| "Value_hash_gen (GString _ value len) = Varchar_hash_gen value len"
| "Value_hash_gen (GText value) = Text_hash_gen value"
| "Value_hash_gen (GDate value) = yield_gen (Date_hash_gen value)"
| "Value_hash_gen (GTimestamp value) = yield_gen (Timestamp_hash_gen value)"
| "Value_hash_gen (GNullable v isNull) = gen_if (\<not> isNull) (Value_hash_gen v) 0x4d1138f9dd82ae2f"

fun Value_store_gen :: "(SqlType \<Rightarrow> u64) \<Rightarrow> GValue \<Rightarrow> u64 \<Rightarrow> unit gen" where
  "Value_store_gen indicator GUnknown ptr = yield_gen ()"
| "Value_store_gen indicator (GInteger value) ptr = Integer_store_gen value ptr"
| "Value_store_gen indicator (GLongInteger value) ptr = LongInteger_store_gen value ptr"
| "Value_store_gen indicator (GNumeric _ value) ptr = Numeric_store_gen value ptr"
| "Value_store_gen indicator (GBool value) ptr = Bool_store_gen value ptr"
| "Value_store_gen indicator (GChar1 _ value) ptr = write_gen ptr [value]"
| "Value_store_gen indicator (GString type value len) ptr = string_store type value len ptr"
| "Value_store_gen indicator (GText value) ptr = Text_store_gen value ptr"
| "Value_store_gen indicator (GDate value) ptr = Date_store_gen value ptr"
| "Value_store_gen indicator (GTimestamp value) ptr = Timestamp_store_gen value ptr"
| "Value_store_gen indicator (GNullable v isNull) ptr =
     bind_gen (Value_store_gen indicator v ptr) (\<lambda>_.
       write_gen (ptr + indicator (toNullableTy (gv_type v))) [if isNull then 1 else 0])"

section \<open>Nullable values\<close>

definition NullableValue_create_gen :: "GValue \<Rightarrow> bool \<Rightarrow> GValue gen" where
  \<comment> \<open>the constructor with its asserts\<close>
  "NullableValue_create_gen v nullIndicator =
     (if ty_nullable (gv_type v) \<or> ty_typeID (gv_type v) = UnknownID \<or> isNullable_gen v then throw_gen AssertFailed
      else yield_gen (GNullable v nullIndicator))"

definition NullableValue_getNull_gen :: "SqlType \<Rightarrow> GValue gen" where
  "NullableValue_getNull_gen type =
     (let notNullableType = toNotNullableTy type;
          blanks = replicate (unat (ty_length type)) (CHR '' '')
      in case ty_typeID type of
           BoolID \<Rightarrow> bind_gen (Integer_castString_gen ''false'') (\<lambda>v. NullableValue_create_gen v True)
         | IntegerID \<Rightarrow> bind_gen (Integer_castString_gen ''0'') (\<lambda>v. NullableValue_create_gen v True)
         | NumericID \<Rightarrow> bind_gen (Numeric_castString_gen ''0'' notNullableType) (\<lambda>v. NullableValue_create_gen v True)
         | VarcharID \<Rightarrow> bind_gen (Varchar_castString_gen blanks notNullableType) (\<lambda>v. NullableValue_create_gen v True)
         | CharID \<Rightarrow> bind_gen (Char_castString_gen blanks notNullableType) (\<lambda>v. NullableValue_create_gen v True)
         | DateID \<Rightarrow> throw_gen (NotImplemented [])
         | TimestampID \<Rightarrow> throw_gen (NotImplemented [])
         | _ \<Rightarrow> throw_gen Unreachable)"

definition load_not_null :: "u64 \<Rightarrow> SqlType \<Rightarrow> GValue gen" where
  \<comment> \<open>the switch of \<^verbatim>\<open>Value::load\<close>\<close>
  "load_not_null ptr type =
     (case ty_typeID type of
        UnknownID \<Rightarrow> yield_gen GUnknown
      | BoolID \<Rightarrow> throw_gen (NotImplemented [])
      | IntegerID \<Rightarrow> Integer_load_gen ptr
      | LongIntegerID \<Rightarrow> LongInteger_load_gen ptr
      | VarcharID \<Rightarrow> Varchar_load_gen ptr type
      | CharID \<Rightarrow> Char_load_gen ptr type
      | NumericID \<Rightarrow> Numeric_load_gen ptr type
      | DateID \<Rightarrow> Date_load_gen ptr
      | TimestampID \<Rightarrow> Timestamp_load_gen ptr
      | TextID \<Rightarrow> Text_load_gen ptr)"

definition NullableValue_load_gen :: "(SqlType \<Rightarrow> u64) \<Rightarrow> u64 \<Rightarrow> SqlType \<Rightarrow> GValue gen" where
  "NullableValue_load_gen indicator ptr type =
     bind_gen (load_not_null ptr (toNotNullableTy type)) (\<lambda>sqlValue.
       bind_gen (read_gen (\<lambda>m. bit (m (ptr + indicator type)) 0)) (NullableValue_create_gen sqlValue))"

section \<open>Value\<close>

definition Value_load_gen :: "(SqlType \<Rightarrow> u64) \<Rightarrow> u64 \<Rightarrow> SqlType \<Rightarrow> GValue gen" where
  "Value_load_gen indicator ptr type =
     (if ty_nullable type then NullableValue_load_gen indicator ptr type else load_not_null ptr type)"

definition Value_castString_gen :: "string \<Rightarrow> SqlType \<Rightarrow> GValue gen" where
  "Value_castString_gen str type =
     (if ty_nullable type then throw_gen AssertFailed
      else case ty_typeID type of
             UnknownID \<Rightarrow> yield_gen GUnknown
           | BoolID \<Rightarrow> Bool_castString_gen str
           | IntegerID \<Rightarrow> Integer_castString_gen str
           | VarcharID \<Rightarrow> Varchar_castString_gen str type
           | CharID \<Rightarrow> Char_castString_gen str type
           | NumericID \<Rightarrow> Numeric_castString_gen str type
           | DateID \<Rightarrow> Date_castString_gen str
           | TimestampID \<Rightarrow> Timestamp_castString_gen str
           | TextID \<Rightarrow> Text_castString_gen str
           | LongIntegerID \<Rightarrow> throw_gen Unreachable)"

text \<open>
  The casts of characters that are in memory when the code runs. The casts of dates and numbers are called
  with the characters of that moment.
\<close>

definition read_string :: "u64 \<Rightarrow> u64 \<Rightarrow> string gen" where
  "read_string str len = read_gen (\<lambda>m. chars_of_bytes (read_bytes m str (unat len)))"

definition call_cast :: "u64 \<Rightarrow> u64 \<Rightarrow> (string \<Rightarrow> 'a::zero result) \<Rightarrow> ('a \<Rightarrow> GValue) \<Rightarrow> GValue gen" where
  "call_cast str len f ctor = bind_gen (read_string str len) (\<lambda>cs. bind_gen (run_gen (f cs) 0) (\<lambda>raw. yield_gen (ctor raw)))"

definition genCastStringToIntegerValueCall :: "u64 \<Rightarrow> u64 \<Rightarrow> GValue gen" where
  "genCastStringToIntegerValueCall str len = call_cast str len castStringToIntegerValue GInteger"

definition genCastStringToNumericValueCall :: "u64 \<Rightarrow> u64 \<Rightarrow> nat \<Rightarrow> nat \<Rightarrow> SqlType \<Rightarrow> GValue gen" where
  "genCastStringToNumericValueCall str strLen len precision type =
     call_cast str strLen (\<lambda>cs. castStringToNumericValue cs len precision) (GNumeric type)"

definition genCastStringToDateValueCall :: "u64 \<Rightarrow> u64 \<Rightarrow> GValue gen" where
  "genCastStringToDateValueCall str len = call_cast str (ucast (ucast len :: u32)) castStringToDateValue GDate"

definition genCastStringToTimestampValueCall :: "u64 \<Rightarrow> u64 \<Rightarrow> GValue gen" where
  "genCastStringToTimestampValueCall str len = call_cast str (ucast (ucast len :: u32)) castStringToTimestampValue GTimestamp"

definition Numeric_castBuffer_gen :: "u64 \<Rightarrow> u64 \<Rightarrow> SqlType \<Rightarrow> GValue gen" where
  \<comment> \<open>the precision is passed for the length, too\<close>
  "Numeric_castBuffer_gen str len type =
     (let precision = unat (numericLayout_precision type)
      in genCastStringToNumericValueCall str len precision precision type)"

definition String_castBuffer_gen :: "u64 \<Rightarrow> u64 \<Rightarrow> SqlType \<Rightarrow> GValue gen" where
  \<comment> \<open>\<^verbatim>\<open>Varchar\<close>: the length is cut off to the bits of the indicator\<close>
  "String_castBuffer_gen str len type =
     yield_gen (GString type str (take_bit (lengthIndicatorSize (ty_length type)) (ucast len)))"

definition Char_castBuffer_gen :: "u64 \<Rightarrow> u64 \<Rightarrow> SqlType \<Rightarrow> GValue gen" where
  "Char_castBuffer_gen str len type =
     (if ty_length type = 1 then read_gen (\<lambda>m. GChar1 type (m str)) else String_castBuffer_gen str len type)"

definition Text_castBuffer_gen :: "u64 \<Rightarrow> u64 \<Rightarrow> GValue gen" where
  \<comment> \<open>\<^verbatim>\<open>storeTextGen\<close> puts a long text into the pool when the code runs\<close>
  "Text_castBuffer_gen str len =
     bind_gen (alloca 16) (\<lambda>arrayPtr.
       bind_gen (read_string str len) (\<lambda>cs.
         bind_gen (\<lambda>s. if length cs > 15 \<and> mc_status s = Running
                       then let (p, h) = StringPool_put cs (mc_heap s) in Inr (p, s\<lparr>mc_heap := h\<rparr>)
                       else Inr (0, s)) (\<lambda>beginPtr.
           bind_gen (storeText arrayPtr beginPtr cs) (\<lambda>_. yield_gen (GText arrayPtr)))))"

definition Value_castBuffer_gen :: "u64 \<Rightarrow> u64 \<Rightarrow> SqlType \<Rightarrow> GValue gen" where
  \<comment> \<open>the runtime version of \<^verbatim>\<open>castString\<close>\<close>
  "Value_castBuffer_gen str len type =
     (if ty_nullable type then throw_gen AssertFailed
      else case ty_typeID type of
             UnknownID \<Rightarrow> yield_gen GUnknown
           | BoolID \<Rightarrow> throw_gen (NotImplemented [])
           | IntegerID \<Rightarrow> genCastStringToIntegerValueCall str len
           | VarcharID \<Rightarrow> String_castBuffer_gen str len type
           | CharID \<Rightarrow> Char_castBuffer_gen str len type
           | NumericID \<Rightarrow> Numeric_castBuffer_gen str len type
           | DateID \<Rightarrow> genCastStringToDateValueCall str len
           | TimestampID \<Rightarrow> genCastStringToTimestampValueCall str len
           | TextID \<Rightarrow> Text_castBuffer_gen str len
           | LongIntegerID \<Rightarrow> throw_gen Unreachable)"

text \<open>
  The values of both branches of a phi node are taken apart and put together again, which is the
  identity except for a type \<^verbatim>\<open>fromRawValues\<close> has no case for.
\<close>

fun fromRawValues_gen :: "GValue \<Rightarrow> GValue gen" where
  "fromRawValues_gen (GLongInteger v) = throw_gen Unreachable"
| "fromRawValues_gen (GNullable (GLongInteger v) n) = throw_gen Unreachable"
| "fromRawValues_gen v = yield_gen v"

definition phi_value :: "bool \<Rightarrow> GValue gen \<Rightarrow> GValue \<Rightarrow> GValue gen" where
  \<comment> \<open>\<^verbatim>\<open>PhiNode<Sql::Value>\<close> over an \<^verbatim>\<open>IfGen\<close>: \<^verbatim>\<open>addIncoming\<close> asserts that the types agree\<close>
  "phi_value c body initial =
     bind_gen (gen_if c (bind_gen body (\<lambda>v.
         if SqlType_equals (gv_type initial) (gv_type v) Full then yield_gen v else throw_gen AssertFailed)) initial)
       fromRawValues_gen"

end
