(* ===== verification/GeneratedValueProperties.thy ===== *)
theory GeneratedValueProperties
  imports ValueDispatch NativeValueProperties
begin

text \<open>
  What the values of generated code promise: equality against hashing, which the hash join relies on, and
  the agreement with the native values that store the columns.
\<close>

section \<open>Running emitted code\<close>

lemmas gen_run = yield_gen_def throw_gen_def bind_gen_def lift_gen_def effect_def run_gen_def read_gen_def
  write_gen_def undefined_if_def alloca_def gen_if_def

lemma bind_gen_eq_Inr: "bind_gen f g s = Inr (y, s'') \<longleftrightarrow> (\<exists>x s'. f s = Inr (x, s') \<and> g x s' = Inr (y, s''))"
  by (auto simp: bind_gen_def bind_res_eq_Inr)

lemma bind_gen_run: "f s = Inr (x, s') \<Longrightarrow> bind_gen f g s = g x s'"
  by (simp add: bind_gen_def)

lemma bind_gen_throws: "f s = Inl e \<Longrightarrow> bind_gen f g s = Inl e"
  by (simp add: bind_gen_def)

abbreviation mem_of :: "machine \<Rightarrow> memory" where
  "mem_of s \<equiv> hp_mem (mc_heap s)"

lemma undefined_if_run: "mc_status s = Running \<Longrightarrow> undefined_if c s = Inr ((), if c then s\<lparr>mc_status := Undefined\<rparr> else s)"
  by (simp add: undefined_if_def effect_def)

lemma undefined_if_still_running:
  assumes "undefined_if c s = Inr (u, s')" "mc_status s' = Running"
  shows "\<not> c \<and> s' = s"
  using assms by (auto simp: undefined_if_def effect_def split: if_splits)

section \<open>Equal values have equal hashes\<close>

lemma string_hash_loop_bytes:
  "index < len \<Longrightarrow> string_hash_loop m str len index result = hash_loop (drop index (read_bytes m str len)) result"
proof (induction m str len index result rule: string_hash_loop.induct)
  case (1 m str len index result)
  have "drop index (read_bytes m str len) = m (str + of_nat index) # drop (Suc index) (read_bytes m str len)"
    using "1.prems" Cons_nth_drop_Suc [of index "read_bytes m str len"] by (simp add: read_bytes_def)
  then show ?case
    using "1.prems" "1.IH" by (subst string_hash_loop.simps) (auto simp: Let_def)
qed

lemma genStringHash_run:
  assumes "mc_status s = Running" "\<not> bad_buffer str (max 1 len)" "len \<noteq> 0"
  shows "genStringHash str len s = Inr (hashByteArray (read_bytes (mem_of s) str (unat len)), s)"
proof -
  have "0 < unat len" using assms(3) by (simp add: unat_gt_0)
  with assms show ?thesis
    by (simp add: genStringHash_def bind_gen_def undefined_if_run read_gen_def string_hash_loop_bytes hashByteArray_def)
qed

lemma bad_buffer_nonempty: "n \<noteq> 0 \<Longrightarrow> bad_buffer p (max 1 n) = bad_buffer p n"
  by (simp add: bad_buffer_def max_def)

fun has_characters :: "memory \<Rightarrow> GValue \<Rightarrow> bool" where
  \<comment> \<open>a string is not empty\<close>
  "has_characters m (GString _ p len) = (len \<noteq> 0 \<and> \<not> bad_buffer p (ucast len))"
| "has_characters m (GText p) = (getLengthText m p \<noteq> 0)"
| "has_characters m (GNullable v _) = has_characters m v"
| "has_characters m _ = True"

lemma ucast_u32_nonzero: "(len :: u32) \<noteq> 0 \<Longrightarrow> (ucast len :: u64) \<noteq> 0" "unat (ucast len :: u64) = unat len"
proof -
  show unat: "unat (ucast len :: u64) = unat len" using unsigned_less [where 'a = nat, of len] by (simp add: unsigned_ucast_eq take_bit_nat_eq_self)
  show "(len :: u32) \<noteq> 0 \<Longrightarrow> (ucast len :: u64) \<noteq> 0" using unat by (metis unat_0 unsigned_eq_0_iff)
qed

lemma equals_with_hash_gen:
  assumes "equals_with_gen ne v w s = Inr (True, s')" "mc_status s' = Running" "mc_status s = Running"
    and "\<not> isNullable_gen w" "has_characters (mem_of s) v" "has_characters (mem_of s) w"
  shows "Value_hash_gen v s = Value_hash_gen w s \<and> s' = s"
proof (cases v)
  case (GString t p len)
  with assms obtain t' p' len' where w: "w = GString t' p' len'"
    by (cases w) (auto simp: equals_with_gen_def String_equals_gen_def class_equals_def gen_run isNullable_gen_def split: if_splits)
  with GString assms have "len = len'" "s' = s" "read_bytes (mem_of s) p (unat len) = read_bytes (mem_of s) p' (unat len)"
    by (auto simp: equals_with_gen_def String_equals_gen_def class_equals_def gen_run isNullable_gen_def equalBuffers_def split: if_splits)
  with GString w assms show ?thesis
    by (simp add: Varchar_hash_gen_def genStringHash_run ucast_u32_nonzero bad_buffer_nonempty)
next
  case (GText p)
  with assms obtain q where w: "w = GText q"
    by (cases w) (auto simp: equals_with_gen_def Text_equals_gen_def class_equals_def gen_run isNullable_gen_def split: if_splits)
  let ?m = "mem_of s" and ?n = "getLengthText (mem_of s) p"
  from GText w assms have same: "Text_same_gen p q s = Inr (True, s')"
    by (auto simp: equals_with_gen_def Text_equals_gen_def class_equals_def isNullable_gen_def yield_gen_def split: if_splits)
  then have len: "getLengthText ?m q = ?n"
    by (auto simp: Text_same_gen_def gen_run Let_def split: if_splits)
  with same assms(2,3) have eqs: "\<not> bad_buffer (textBegin ?m q) ?n" "\<not> bad_buffer (textBegin ?m p) ?n" "s' = s"
    "read_bytes ?m (textBegin ?m q) (unat ?n) = read_bytes ?m (textBegin ?m p) (unat ?n)"
    by (auto simp: Text_same_gen_def gen_run Let_def split: if_splits)
  with GText w assms len show ?thesis
    by (simp add: Text_hash_gen_def bind_gen_def read_gen_def genStringHash_run bad_buffer_nonempty)
qed (use assms in \<open>cases w; auto simp: equals_with_gen_def Integer_equals_gen_def LongInteger_equals_gen_def Numeric_equals_gen_def
       Bool_equals_gen_def Char1_equals_gen_def Date_equals_gen_def Timestamp_equals_gen_def class_equals_def
       gen_run isNullable_gen_def split: if_splits\<close>)+


lemma equals_with_nullable:
  assumes "equals_with_gen ne v w s = Inr (True, s')" "isNullable_gen w"
  shows "ne w v s = Inr (True, s')"
  using assms
  by (cases v) (auto simp: equals_with_gen_def Integer_equals_gen_def LongInteger_equals_gen_def Numeric_equals_gen_def
      Bool_equals_gen_def Char1_equals_gen_def String_equals_gen_def Text_equals_gen_def Date_equals_gen_def
      Timestamp_equals_gen_def class_equals_def yield_gen_def split: if_splits)

lemma nullable_equals_True:
  assumes "NullableValue_equals_gen ve v n w s = Inr (True, s')"
  shows "\<not> n \<and> ve v w s = Inr (True, s')"
  using assms by (cases n) (auto simp: NullableValue_equals_gen_def gen_run bind_res_eq_Inr split: if_splits)

lemma equals_with_hash_both:
  assumes "equals_with_gen (nullable_with_gen (equals_with_gen ne)) v w s = Inr (True, s')"
    and run: "mc_status s' = Running" "mc_status s = Running" and chars: "has_characters (mem_of s) v" "has_characters (mem_of s) w"
    and flat: "\<And>u n. w = GNullable u n \<Longrightarrow> \<not> isNullable_gen u"
  shows "Value_hash_gen v s = Value_hash_gen w s \<and> s' = s"
proof (cases "isNullable_gen w")
  case False
  with equals_with_hash_gen [OF assms(1) run] chars show ?thesis by blast
next
  case True
  then obtain u n where w: "w = GNullable u n" by (auto simp: isNullable_gen_def split: GValue.splits)
  from equals_with_nullable [OF assms(1) True] have "NullableValue_equals_gen (equals_with_gen ne) u n v s = Inr (True, s')"
    by (simp add: nullable_with_gen_def w)
  from nullable_equals_True [OF this] have u: "\<not> n" "equals_with_gen ne u v s = Inr (True, s')" by simp_all
  have "\<not> isNullable_gen v"
    using assms(1) by (auto simp: equals_with_gen_def isNullable_gen_def yield_gen_def split: GValue.splits)
  from equals_with_hash_gen [OF u(2) run this] chars w have "Value_hash_gen u s = Value_hash_gen v s \<and> s' = s" by simp
  with w u(1) show ?thesis by (simp add: gen_if_def)
qed

text \<open>C27: in generated code values that compare equal have equal hashes, unless they are empty strings: the
  comparison of two values without an empty string yields true only for values whose hash is the same,
  and neither changes anything.\<close>

theorem equal_generated_values_hash_equal:
  assumes "Value_equals_gen v w s = Inr (True, s')" "mc_status s = Running" "mc_status s' = Running"
    and "has_characters (mem_of s) v" "has_characters (mem_of s) w"
    and "\<And>u n. w = GNullable u n \<Longrightarrow> \<not> isNullable_gen u"
  shows "Value_hash_gen v s = Value_hash_gen w s \<and> s' = s"
proof (cases v)
  case (GNullable u n)
  with assms(1) have "NullableValue_equals_gen (equals_with_gen (nullable_with_gen (equals_with_gen (\<lambda>_ _. yield_gen False)))) u n w s
      = Inr (True, s')" by (simp add: Value_equals_gen_def nullable_with_gen_def)
  from nullable_equals_True [OF this] GNullable equals_with_hash_both [of "\<lambda>_ _. yield_gen False" u w s s'] assms(2-6)
  show ?thesis by (simp add: gen_if_def)
qed (use assms equals_with_hash_both [of "\<lambda>_ _. yield_gen False" v w s s'] in \<open>simp add: Value_equals_gen_def nullable_with_gen_def\<close>)+

definition ex_machine :: "(nat \<times> u8) list \<Rightarrow> machine" where
  \<comment> \<open>some bytes of the memory, the others zero\<close>
  "ex_machine bytes = \<lparr>mc_heap = \<lparr>hp_mem = (\<lambda>a. case map_of bytes (unat a) of Some b \<Rightarrow> b | None \<Rightarrow> 0), hp_brk = 4096\<rparr>,
     mc_status = Running, mc_overflow = False, mc_out = []\<rparr>"

lemma equal_generated_values_hash_equal_witness:
  "Value_hash_gen (GString (getVarcharTy 9 False) 100 2) (ex_machine [(100, 65), (200, 65)]) =
     Value_hash_gen (GNullable (GString (getVarcharTy 9 False) 200 2) False) (ex_machine [(100, 65), (200, 65)])"
  using equal_generated_values_hash_equal [of "GString (getVarcharTy 9 False) 100 2" "GNullable (GString (getVarcharTy 9 False) 200 2) False"
      "ex_machine [(100, 65), (200, 65)]" "ex_machine [(100, 65), (200, 65)]"]
  by (simp add: isNullable_gen_def) code_simp

text \<open>Two empty strings are equal, but the hash reads the byte behind them.\<close>

lemma empty_strings_hash_apart:
  fixes s defines "s \<equiv> ex_machine [(100, 65), (200, 66)]"
  shows "Value_equals_gen (GString (getVarcharTy 9 False) 100 0) (GString (getVarcharTy 9 False) 200 0) s = Inr (True, s)
    \<and> Value_hash_gen (GString (getVarcharTy 9 False) 100 0) s \<noteq> Value_hash_gen (GString (getVarcharTy 9 False) 200 0) s"
  unfolding s_def by code_simp

section \<open>Agreement with the stored values\<close>

primrec represents :: "memory \<Rightarrow> GValue \<Rightarrow> NValue \<Rightarrow> bool" where
  "represents m GUnknown v = (v = NUnknown)"
| "represents m (GInteger i) v = (v = NInteger i)"
| "represents m (GLongInteger i) v = False"
| "represents m (GNumeric t i) v = (v = NNumeric t i)"
| "represents m (GBool b) v = (v = NBool b)"
| "represents m (GChar1 t c) v = False"
| "represents m (GDate i) v = (v = NDate i)"
| "represents m (GTimestamp i) v = (v = NTimestamp i)"
| "represents m (GText p) v = (v = NText (word_of_bytes (read_bytes m p 8)) (word_of_bytes (read_bytes m (p + 8) 8)))"
| "represents m (GString t p len) v = (case v of NVarchar u q l \<Rightarrow> t = u \<and> p = q \<and> len = ucast l | _ \<Rightarrow> False)"
| "represents m (GNullable g n) v = (case v of NNullable w k \<Rightarrow> represents m g w \<and> n = k | _ \<Rightarrow> False)"

lemma represents_type: "represents m g v \<Longrightarrow> gv_type g = nv_type v"
  by (induction g arbitrary: v) (auto split: NValue.splits)

lemma represents_nullable: "represents m g v \<Longrightarrow> isNullable_gen g = isNullable v"
  by (cases g) (auto simp: isNullable_gen_def isNullable_def split: NValue.splits)

lemma read_back_16:
  assumes "length bs = 16"
  shows "word_of_bytes (read_bytes (write_bytes m p bs) p 8) = (word_of_bytes (take 8 bs) :: u64)"
    "word_of_bytes (read_bytes (write_bytes m p bs) (p + 8) 8) = (word_of_bytes (drop 8 bs) :: u64)"
proof -
  have "read_bytes (write_bytes m p bs) p (8 + 8) = bs" using read_write_bytes [of bs m p] assms by simp
  then have "read_bytes (write_bytes m p bs) p 8 @ read_bytes (write_bytes m p bs) (p + 8) 8 = bs"
    by (simp only: read_bytes_add of_nat_numeral)
  then show "word_of_bytes (read_bytes (write_bytes m p bs) p 8) = (word_of_bytes (take 8 bs) :: u64)"
    "word_of_bytes (read_bytes (write_bytes m p bs) (p + 8) 8) = (word_of_bytes (drop 8 bs) :: u64)"
    by (metis append_eq_conv_conj read_bytes_length)+
qed

lemma Text_load_gen_run:
  assumes "mc_status s = Running" "read_bytes (mem_of s) ptr 16 = bytes_of_word 8 a @ bytes_of_word 8 b"
  shows "\<exists>p s'. Text_load_gen ptr s = Inr (GText p, s') \<and> represents (mem_of s') (GText p) (NText a b)"
  using assms by (simp add: Text_load_gen_def gen_run read_back_16 word_of_bytes_of_word)

text \<open>C28: generated code reads what the native values have stored: after an integer, numeric, date, timestamp or text
  that is not nullable has been stored in a column, the code generated to load it from there yields the same value;
  for a boolean the generator throws. Varchars and nullable values are not among these (\<open>storable\<close>). Storing a
  nullable value throws; a varchar is stored with a length of one byte, while the code generated for a
  column of 256 characters or more reads a length of two or four bytes, so the two disagree there.\<close>

theorem stored_values_load:
  assumes "storable v" "Value_store v ptr m = Inr (mem_of s)" "mc_status s = Running"
  shows "if \<exists>b. v = NBool b then Value_load_gen indicator ptr (nv_type v) s = Inl (NotImplemented [])
    else \<exists>g s'. Value_load_gen indicator ptr (nv_type v) s = Inr (g, s') \<and> represents (mem_of s') g v"
proof -
  have m: "mem_of s = write_bytes m ptr (nv_bytes v)" using assms(1,2) by (simp add: store_nv_bytes)
  have bytes: "read_bytes (mem_of s) ptr (length (nv_bytes v)) = nv_bytes v"
    unfolding m using nv_bytes_length [of v] by (intro read_write_bytes) simp
  show ?thesis
  proof (cases v)
    case (NText a b)
    with bytes Text_load_gen_run [OF assms(3), of ptr a b] obtain p s' where
      "Text_load_gen ptr s = Inr (GText p, s')" "represents (mem_of s') (GText p) (NText a b)" by (auto simp: nv_bytes_def)
    with NText show ?thesis by (intro exI conjI | simp add: Value_load_gen_def load_not_null_def typeIDs)+
  qed (use assms(1) bytes in \<open>auto simp: storable_def nv_bytes_def Value_load_gen_def load_not_null_def typeIDs gen_run
         Integer_load_gen_def Numeric_load_gen_def Date_load_gen_def Timestamp_load_gen_def word_of_bytes_of_word\<close>)
qed

definition at_memory :: "memory \<Rightarrow> machine" where
  "at_memory m = \<lparr>mc_heap = \<lparr>hp_mem = m, hp_brk = 4096\<rparr>, mc_status = Running, mc_overflow = False, mc_out = []\<rparr>"

lemma stored_values_load_witness:
  "\<exists>m' g s'. Value_store (NDate 5) 1000 (\<lambda>_. 0) = Inr m' \<and>
     Value_load_gen (\<lambda>_. 0) 1000 (getDateTy False) (at_memory m') = Inr (g, s') \<and> represents (mem_of s') g (NDate 5)"
proof -
  obtain m' where m': "Value_store (NDate 5) 1000 (\<lambda>_. 0) = Inr m'" by (simp add: class_store)
  with stored_values_load [of "NDate 5" 1000 "\<lambda>_. 0" "at_memory m'" "\<lambda>_. 0"]
  have "\<exists>g s'. Value_load_gen (\<lambda>_. 0) 1000 (nv_type (NDate 5)) (at_memory m') = Inr (g, s') \<and> represents (mem_of s') g (NDate 5)"
    by (simp add: storable_def at_memory_def)
  with m' show ?thesis by auto
qed


definition plain :: "NValue \<Rightarrow> bool" where
  \<comment> \<open>not nullable, of the type of its class, and a text only if it is kept in place\<close>
  "plain v = (case v of
       NText a _ \<Rightarrow> Text_isInplace a \<and> (\<exists>str. length str \<le> 15 \<and> v = Text_inplace str)
     | NNumeric t _ \<Rightarrow> ty_typeID t = NumericID
     | NVarchar t _ _ \<Rightarrow> ty_typeID t = VarcharID
     | NNullable _ _ \<Rightarrow> False
     | _ \<Rightarrow> True)"

lemma text_bytes_at:
  assumes "represents m (GText p) (NText a b)"
  shows "read_bytes m p 16 = Text_data a b"
proof -
  have "bytes_of_word 8 (word_of_bytes (read_bytes m q 8) :: u64) = read_bytes m q 8" for q
    using bytes_of_word_of_bytes [of "read_bytes m q 8", where 'a = 64] by simp
  with assms have "Text_data a b = read_bytes m p 8 @ read_bytes m (p + 8) 8" by (simp add: Text_data_def)
  also have "\<dots> = read_bytes m p (8 + 8)" by (simp only: read_bytes_add of_nat_numeral)
  finally show ?thesis by simp
qed

lemma short_text_at:
  assumes "represents m (GText p) (Text_inplace str)" "length str \<le> 15"
  shows "getLengthText m p = of_nat (length str)" "textBegin m p = p + 1"
    "read_bytes m (p + 1) (length str) = bytes_of_chars str"
proof -
  obtain a b where ab: "Text_inplace str = NText a b" by (simp add: Text_inplace_def Let_def)
  have "read_bytes m p 16 = of_nat (length str) # bytes_of_chars str @ replicate (15 - length str) 0"
    using text_bytes_at [of m p a b] inplace_data [OF assms(2) ab] assms(1) ab by simp
  then have all: "read_bytes m p (1 + (length str + (15 - length str))) =
      [of_nat (length str)] @ bytes_of_chars str @ replicate (15 - length str) 0" using assms(2) by simp
  then have parts: "read_bytes m p 1 @ (read_bytes m (p + 1) (length str) @ read_bytes m (p + 1 + of_nat (length str)) (15 - length str)) =
      [of_nat (length str)] @ (bytes_of_chars str @ replicate (15 - length str) 0)"
    by (simp only: read_bytes_add of_nat_1)
  have chars: "read_bytes m (p + 1) (length str) = bytes_of_chars str"
    using parts by (subst (asm) append_eq_append_conv, simp) (simp add: append_eq_append_conv)
  have "read_bytes m p 1 = [of_nat (length str)]"
    using parts by (subst (asm) append_eq_append_conv, simp) simp
  then have first: "m p = of_nat (length str)" by (simp add: read_bytes_def)
  have "\<not> (of_nat (length str) :: u8) > 15" using assms(2) by (simp add: word_less_nat_alt unat_of_nat take_bit_nat_eq_self)
  moreover have "(ucast (of_nat (length str) :: u8) :: u64) = of_nat (length str)"
    using assms(2) by (intro word_unat_eq_iff [THEN iffD2]) (simp add: unsigned_ucast_eq unat_of_nat take_bit_nat_eq_self)
  ultimately show "getLengthText m p = of_nat (length str)" "textBegin m p = p + 1"
    by (simp_all add: getLengthText_def textBegin_def first Let_def)
  show "read_bytes m (p + 1) (length str) = bytes_of_chars str" by (rule chars)
qed


lemma Text_same_gen_run:
  fixes s defines "m \<equiv> mem_of s"
  assumes "mc_status s = Running"
  shows "Text_same_gen p q s =
    (if getLengthText m q \<noteq> getLengthText m p then Inr (False, s)
     else Inr (read_bytes m (textBegin m q) (unat (getLengthText m p)) = read_bytes m (textBegin m p) (unat (getLengthText m p)),
       if bad_buffer (textBegin m q) (getLengthText m p) \<or> bad_buffer (textBegin m p) (getLengthText m p)
       then s\<lparr>mc_status := Undefined\<rparr> else s))"
  using assms(2) by (simp add: Text_same_gen_def gen_run Let_def m_def)

lemma short_texts_same:
  assumes "represents (mem_of s) (GText p) (Text_inplace str1)" "length str1 \<le> 15"
    and "represents (mem_of s) (GText q) (Text_inplace str2)" "length str2 \<le> 15"
    and "\<not> bad_buffer (p + 1) 1" "\<not> bad_buffer (q + 1) 1" "mc_status s = Running"
  shows "Text_same_gen p q s = Inr (str1 = str2, s)"
proof -
  note p = short_text_at [OF assms(1,2)] and q = short_text_at [OF assms(3,4)]
  have n: "unat (of_nat (length str1) :: u64) = length str1" "unat (of_nat (length str2) :: u64) = length str2"
    using assms(2,4) by (auto intro: unat_of_nat_64)
  show ?thesis
  proof (cases "length str1 = length str2")
    case True
    have "\<not> bad_buffer (p + 1) k \<and> \<not> bad_buffer (q + 1) k" for k using assms(5,6) by (simp add: bad_buffer_def)
    moreover have "bytes_of_chars str2 = bytes_of_chars str1 \<longleftrightarrow> str1 = str2" by (metis bytes_chars(1))
    moreover have "read_bytes (mem_of s) (q + 1) (length str1) = bytes_of_chars str2" using q(3) True by simp
    ultimately show ?thesis
      unfolding Text_same_gen_run [OF assms(7)] p(1,2) q(1,2) n(1) p(3) by (simp add: True)
  next
    case False
    then have "(of_nat (length str2) :: u64) \<noteq> of_nat (length str1)" using n by metis
    with False show ?thesis unfolding Text_same_gen_run [OF assms(7)] p(1) q(1) by auto
  qed
qed

end
