(* ===== verification/GeneratedTexts.thy ===== *)
theory GeneratedTexts
  imports GeneratedValueProperties
begin

text \<open>
  Texts in generated code, against the native ones: short texts are compared by their characters, texts of
  the string pool are not.
\<close>

definition seen_length :: "u64 \<Rightarrow> nat \<Rightarrow> u8" where
  \<comment> \<open>the length generated code sees in a text of the pool: it takes the low byte of the address for a length in place\<close>
  "seen_length beginPtr len = (if (ucast beginPtr :: u8) = 0 then 0 else of_nat len)"

lemma ucast_u8_diff: "(ucast (x - y :: u64) :: u8) = ucast x - ucast y"
proof (transfer)
  fix x y :: int
  show "take_bit LENGTH(8) (take_bit LENGTH(64) (x - y)) = take_bit LENGTH(8) (take_bit LENGTH(64) x - take_bit LENGTH(64) y)"
    using take_bit_diff [of 8 x y] take_bit_diff [of 8 "take_bit 64 x" "take_bit 64 y"] by (simp add: min_def)
qed

definition pool_tag :: u64 where
  "pool_tag = push_bit 63 1"

lemma pool_tag_bit: "bit pool_tag n \<longleftrightarrow> n = 63"
  unfolding pool_tag_def by (subst bit_push_bit_iff) (auto simp: bit_1_iff)

lemma ucast_pool_tag: "(ucast pool_tag :: u8) = 0"
  by (rule bit_word_eqI) (simp add: bit_simps pool_tag_bit)

lemma pool_tag_add:
  assumes "\<not> bit (b :: u64) 63"
  shows "b XOR pool_tag = b + pool_tag"
proof -
  have "b AND pool_tag = 0" by (rule bit_word_eqI) (use assms in \<open>auto simp: bit_and_iff pool_tag_bit\<close>)
  from disjunctive_add_eq_xor [OF this] show ?thesis by (rule sym)
qed

lemma multiple_of_16: "k mod 16 = 0 \<Longrightarrow> (k :: nat) \<noteq> 0 \<longleftrightarrow> 15 < k"
  by (cases "k < 16") auto

lemma ucast_u8_inj: "(ucast x :: u64) = ucast y \<longleftrightarrow> x = (y :: u8)"
proof
  have u: "unat (ucast z :: u64) = unat z" for z :: u8
    using unsigned_less [where 'a = nat, of z] by (simp add: unsigned_ucast_eq take_bit_nat_eq_self)
  assume "(ucast x :: u64) = ucast y"
  then show "x = y" using u [of x] u [of y] by (simp add: word_unat_eq_iff)
qed simp

lemma ucast_of_nat_u8: "(ucast (of_nat n :: u64) :: u8) = of_nat n"
  by (intro word_unat_eq_iff [THEN iffD2]) (simp add: unsigned_ucast_eq unat_of_nat take_bit_nat_def mod_mod_cancel)

lemma pooled_length:
  assumes "represents m (GText p) (Text_pointers b (b + of_nat n))" "unat b mod 16 = 0" "\<not> bit b 63"
  shows "getLengthText m p = ucast (seen_length b n)" "(ucast b :: u8) \<noteq> 0 \<Longrightarrow> textBegin m p = b XOR pool_tag"
proof -
  define t where "t = b XOR pool_tag"
  have words: "word_of_bytes (read_bytes m p 8) = t" "word_of_bytes (read_bytes m (p + 8) 8) = b + of_nat n"
    using assms(1) by (simp_all add: Text_pointers_def t_def pool_tag_def)
  have "bytes_of_word 8 t = read_bytes m p 8"
    using bytes_of_word_of_bytes [of "read_bytes m p 8", where 'a = 64] words(1) by simp
  then have "bytes_of_word 8 t ! 0 = read_bytes m p 8 ! 0" by simp
  then have "m p = ucast t" by (simp add: read_bytes_def bytes_of_word_def)
  also have t: "t = b + pool_tag" unfolding t_def by (rule pool_tag_add) (rule assms(3))
  then have "ucast t = (ucast b :: u8)" using ucast_u8_diff [of t pool_tag] ucast_pool_tag by simp
  finally have first: "m p = ucast b" .
  have low: "unat (ucast b :: u8) = unat b mod 256" by (simp add: unsigned_ucast_eq take_bit_nat_def)
  have big: "(ucast b :: u8) \<noteq> 0 \<longleftrightarrow> (ucast b :: u8) > 15"
  proof -
    have "unat b mod 256 mod 16 = 0" using assms(2) by (simp add: mod_mod_cancel)
    from multiple_of_16 [OF this] have "unat b mod 256 \<noteq> 0 \<longleftrightarrow> 15 < unat b mod 256" .
    moreover have "(ucast b :: u8) = 0 \<longleftrightarrow> unat (ucast b :: u8) = 0" by (rule unat_eq_zero [symmetric])
    moreover have "(15 :: u8) < ucast b \<longleftrightarrow> 15 < unat (ucast b :: u8)" by (simp only: word_less_nat_alt) simp
    ultimately show ?thesis using low by simp
  qed
  have "(ucast (b + of_nat n - t) :: u8) = of_nat n"
  proof -
    have "b + of_nat n - t = of_nat n - pool_tag" by (simp add: t)
    then show ?thesis using ucast_u8_diff [of "of_nat n" pool_tag] ucast_pool_tag ucast_of_nat_u8 [of n] by (simp only: diff_zero)
  qed
  with big words first show "getLengthText m p = ucast (seen_length b n)"
    by (auto simp: getLengthText_def seen_length_def Let_def)
  show "(ucast b :: u8) \<noteq> 0 \<Longrightarrow> textBegin m p = b XOR pool_tag"
    using big words first by (simp add: textBegin_def t_def)
qed

text \<open>C30: generated code does not compare the characters of two texts of the pool: it takes the low byte of the
  address of a text, which is aligned, for its length, or else the low byte of the difference of the pointers. Two texts whose length is seen
  as zero are equal, texts whose lengths are seen as different are different, and otherwise the code reads
  through a pointer with the top bit set.\<close>

theorem long_texts_not_compared:
  assumes "represents (mem_of s) (GText p) (Text_pointers b1 (b1 + of_nat n1))" "unat b1 mod 16 = 0" "\<not> bit b1 63"
    and "represents (mem_of s) (GText q) (Text_pointers b2 (b2 + of_nat n2))" "unat b2 mod 16 = 0" "\<not> bit b2 63"
    and "mc_status s = Running"
  shows "\<exists>r. Value_equals_gen (GText p) (GText q) s =
    Inr (r, if seen_length b1 n1 = seen_length b2 n2 \<and> seen_length b1 n1 \<noteq> 0 then s\<lparr>mc_status := Undefined\<rparr> else s)
    \<and> (seen_length b1 n1 \<noteq> seen_length b2 n2 \<longrightarrow> \<not> r) \<and> (seen_length b1 n1 = 0 \<and> seen_length b2 n2 = 0 \<longrightarrow> r)"
proof -
  note len = pooled_length(1) [OF assms(1-3)] pooled_length(1) [OF assms(4-6)]
  have run: "Value_equals_gen (GText p) (GText q) s = Text_same_gen p q s"
    by (simp add: Value_equals_gen_def nullable_with_gen_def equals_with_gen_def Text_equals_gen_def class_equals_def
        same_type_gen_def SqlType_equals_def isNullable_gen_def typeIDs)
  have bad: "bad_buffer (textBegin (mem_of s) p) (ucast (seen_length b1 n1))" if "seen_length b1 n1 \<noteq> 0"
  proof -
    have "textBegin (mem_of s) p = b1 XOR pool_tag"
      using that by (intro pooled_length(2) [OF assms(1-3)]) (simp add: seen_length_def split: if_splits)
    moreover have "bit (drop_bit 63 (b1 XOR pool_tag)) 0"
      using assms(3) by (simp add: bit_drop_bit_eq bit_xor_iff pool_tag_bit)
    moreover have "(ucast (seen_length b1 n1) :: u64) \<noteq> 0"
      using that ucast_u8_inj [of "seen_length b1 n1" 0] by simp
    ultimately show ?thesis by (auto simp: bad_buffer_def)
  qed
  show ?thesis
  proof (cases "seen_length b1 n1 = seen_length b2 n2")
    case False
    then show ?thesis unfolding run Text_same_gen_run [OF assms(7)] len ucast_u8_inj by (intro exI [of _ False]) auto
  next
    case True
    note shape = run Text_same_gen_run [OF assms(7)] len ucast_u8_inj True
    show ?thesis
    proof (cases "seen_length b2 n2 = 0")
      case True
      show ?thesis unfolding shape True by (intro exI [of _ True]) (simp add: bad_buffer_def read_bytes_def)
    next
      case False
      with bad \<open>seen_length b1 n1 = seen_length b2 n2\<close>
      have "bad_buffer (textBegin (mem_of s) p) (ucast (seen_length b2 n2))" by simp
      with False show ?thesis unfolding shape by simp
    qed
  qed
qed

definition ex_texts :: machine where
  \<comment> \<open>a text of 16 bytes at 4096 and one of 20 bytes at 8192\<close>
  "ex_texts = at_memory (write_bytes (write_bytes (\<lambda>_. 65)
     100 (bytes_of_word 8 (4096 XOR push_bit 63 1 :: u64) @ bytes_of_word 8 (4112 :: u64)))
     200 (bytes_of_word 8 (8192 XOR push_bit 63 1 :: u64) @ bytes_of_word 8 (8212 :: u64)))"

lemma two_words:
  fixes a b :: u64
  defines "bs \<equiv> bytes_of_word 8 a @ bytes_of_word 8 b"
  shows "represents (write_bytes m p bs) (GText p) (NText a b)"
    "read_bytes m q 16 = bs \<Longrightarrow> represents m (GText q) (NText a b)"
proof -
  have rep: "represents m' (GText q) (NText a b)" if "read_bytes m' q 16 = bs" for m' q
  proof -
    have "read_bytes m' q 8 @ read_bytes m' (q + 8) 8 = read_bytes m' q (8 + 8)" by (simp only: read_bytes_add of_nat_numeral)
    also have "\<dots> = bytes_of_word 8 a @ bytes_of_word 8 b" using that by (simp add: bs_def)
    finally have "read_bytes m' q 8 = bytes_of_word 8 a" "read_bytes m' (q + 8) 8 = bytes_of_word 8 b" by simp_all
    then show ?thesis by (simp add: word_of_bytes_of_word)
  qed
  then show "read_bytes m q 16 = bs \<Longrightarrow> represents m (GText q) (NText a b)" .
  have "length bs = 16" by (simp add: bs_def)
  with read_write_bytes [of bs m p] show "represents (write_bytes m p bs) (GText p) (NText a b)" by (intro rep) simp
qed

lemma ex_texts_pooled:
  "represents (mem_of ex_texts) (GText 100) (Text_pointers 4096 (4096 + of_nat 16))"
  "represents (mem_of ex_texts) (GText 200) (Text_pointers 8192 (8192 + of_nat 20))"
proof -
  define bs1 where "bs1 = bytes_of_word 8 (4096 XOR push_bit 63 1 :: u64) @ bytes_of_word 8 (4112 :: u64)"
  define bs2 where "bs2 = bytes_of_word 8 (8192 XOR push_bit 63 1 :: u64) @ bytes_of_word 8 (8212 :: u64)"
  have mem: "mem_of ex_texts = write_bytes (write_bytes (\<lambda>_. 65) 100 bs1) 200 bs2"
    by (simp only: ex_texts_def at_memory_def machine.simps heap.simps bs1_def bs2_def)
  have "length bs1 = 16" "length bs2 = 16" by (simp_all only: bs1_def bs2_def length_append bytes_of_word_length)
  then have "read_bytes (write_bytes (write_bytes (\<lambda>_. 65) 100 bs1) (100 + of_nat 100) bs2) 100 16 = bs1"
    using read_write_bytes [of bs1 "\<lambda>_. 65" 100] by (subst write_elsewhere) simp_all
  then have "read_bytes (mem_of ex_texts) 100 16 = bs1" by (simp add: mem)
  from two_words(2) [OF this [unfolded bs1_def]] show "represents (mem_of ex_texts) (GText 100) (Text_pointers 4096 (4096 + of_nat 16))"
    by (simp only: Text_pointers_def) (simp only: of_nat_numeral, simp)
  have "represents (mem_of ex_texts) (GText 200) (NText (8192 XOR push_bit 63 1) 8212)"
    unfolding mem bs2_def by (rule two_words(1))
  then show "represents (mem_of ex_texts) (GText 200) (Text_pointers 8192 (8192 + of_nat 20))"
    by (simp only: Text_pointers_def) (simp only: of_nat_numeral, simp)
qed

lemma long_texts_not_compared_witness:
  "\<exists>s'. Value_equals_gen (GText 100) (GText 200) ex_texts = Inr (True, s')"
proof -
  have "\<exists>r. Value_equals_gen (GText 100) (GText 200) ex_texts =
    Inr (r, if seen_length 4096 16 = seen_length 8192 20 \<and> seen_length 4096 16 \<noteq> 0 then ex_texts\<lparr>mc_status := Undefined\<rparr> else ex_texts)
    \<and> (seen_length 4096 16 \<noteq> seen_length 8192 20 \<longrightarrow> \<not> r) \<and> (seen_length 4096 16 = 0 \<and> seen_length 8192 20 = 0 \<longrightarrow> r)"
    by (rule long_texts_not_compared [OF ex_texts_pooled(1) _ _ ex_texts_pooled(2)])
      (simp_all only: ex_texts_def at_memory_def machine.simps, simp_all)
  then show ?thesis by (auto simp: seen_length_def)
qed

section \<open>Equality agrees with the native values\<close>

definition short_addresses :: "memory \<Rightarrow> GValue \<Rightarrow> bool" where
  "short_addresses m g = (case g of GText p \<Rightarrow> \<not> bad_buffer (p + 1) 1 | _ \<Rightarrow> True)"

lemma Text_inplace_inj:
  assumes "Text_inplace str1 = Text_inplace str2" "length str1 \<le> 15" "length str2 \<le> 15"
  shows "str1 = str2"
proof -
  obtain a b where ab: "Text_inplace str1 = NText a b" by (simp add: Text_inplace_def Let_def)
  with assms(1) have ab2: "Text_inplace str2 = NText a b" by simp
  have eq: "(of_nat (length str1) :: u8) # bytes_of_chars str1 @ replicate (15 - length str1) 0 =
      of_nat (length str2) # bytes_of_chars str2 @ replicate (15 - length str2) 0"
    using inplace_data [OF assms(2) ab] inplace_data [OF assms(3) ab2] by simp
  then have "(of_nat (length str1) :: u8) = of_nat (length str2)" by simp
  then have "length str1 = length str2"
    using assms(2,3) by (simp add: word_unat_eq_iff unat_of_nat take_bit_nat_eq_self)
  with eq have "bytes_of_chars str1 = bytes_of_chars str2" by simp
  then show ?thesis by (metis bytes_chars(1))
qed


lemma ucast_u8_u32:
  fixes x y :: u8
  shows "unat (ucast x :: u32) = unat x" "(ucast x :: u32) = ucast y \<longleftrightarrow> x = y"
proof -
  have u: "unat (ucast z :: u32) = unat z" for z :: u8
    using unsigned_less [where 'a = nat, of z] by (simp add: unsigned_ucast_eq take_bit_nat_eq_self)
  then show "unat (ucast x :: u32) = unat x" .
  show "(ucast x :: u32) = ucast y \<longleftrightarrow> x = y" using u [of x] u [of y] by (auto simp: word_unat_eq_iff)
qed

lemmas gen_equals = Value_equals_gen_def nullable_with_gen_def equals_with_gen_def Integer_equals_gen_def LongInteger_equals_gen_def
  Numeric_equals_gen_def Bool_equals_gen_def Char1_equals_gen_def String_equals_gen_def Text_equals_gen_def
  Date_equals_gen_def Timestamp_equals_gen_def class_equals_def

lemmas native_equals = Value_equals_def nullable_with_def equals_with_def Integer_equals_def Numeric_equals_def
  Bool_equals_def Text_equals_def Varchar_equals_def Date_equals_def Timestamp_equals_def

text \<open>C29: generated code compares the values of the columns as the native values do: for representations of two values
  that are not texts, or are texts kept in place, the generated comparison yields what the native one
  yields, and changes nothing.\<close>

theorem generated_equality_agrees:
  assumes "represents (mem_of s) g v" "represents (mem_of s) h w" "plain v" "plain w" "mc_status s = Running"
    and "short_addresses (mem_of s) g" "short_addresses (mem_of s) h"
    and "Value_equals (mem_of s) v w = Inr b"
  shows "Value_equals_gen g h s = Inr (b, s)"
proof -
  have types: "same_type_gen g h = same_type v w"
    using represents_type [OF assms(1)] represents_type [OF assms(2)] by (simp add: same_type_gen_def same_type_def)
  have null: "\<not> isNullable_gen h" "\<not> isNullable w" "\<not> isNullable_gen g" "\<not> isNullable v"
    using assms(1-4) represents_nullable by (auto simp: plain_def isNullable_def split: NValue.splits)
  show ?thesis
  proof (cases "same_type v w")
    case False
    have "Value_equals (mem_of s) v w = Inr False"
      using False null by (cases v) (simp_all add: native_equals isNullable_def)
    moreover have "Value_equals_gen g h s = Inr (False, s)"
      using False types null by (cases g) (simp_all add: gen_equals isNullable_gen_def yield_gen_def)
    ultimately show ?thesis using assms(8) by simp
  next
    case True
    show ?thesis
    proof (cases g)
      case (GText p)
      with assms(1) obtain v0 v1 where v: "v = NText v0 v1" by auto
      with True null assms(2,4) obtain q w0 w1 where h: "h = GText q" "w = NText w0 w1"
        by (cases h) (auto simp: same_type_def SqlType_equals_def typeIDs isNullable_gen_def plain_def split: NValue.splits)
      from v assms(3) obtain str1 where str1: "length str1 \<le> 15" "v = Text_inplace str1" by (auto simp: plain_def)
      from h assms(4) obtain str2 where str2: "length str2 \<le> 15" "w = Text_inplace str2" by (auto simp: plain_def)
      have "Value_equals_gen g h s = Inr (str1 = str2, s)"
        using GText h True types null short_texts_same [of s p str1 q str2] assms(1,2,5-7) str1 str2
        by (simp add: gen_equals isNullable_gen_def short_addresses_def)
      moreover have "Text_same (mem_of s) (v0, v1) (w0, w1) \<longleftrightarrow> str1 = str2"
      proof
        assume "Text_same (mem_of s) (v0, v1) (w0, w1)"
        then have "(v0, v1) = (w0, w1)" using v assms(3) by (simp add: Text_same_def plain_def Let_def split: if_splits)
        with v h str1 str2 show "str1 = str2" by (intro Text_inplace_inj) simp_all
      next
        assume "str1 = str2"
        with v h str1 str2 have "v0 = w0" "v1 = w1" by simp_all
        then show "Text_same (mem_of s) (v0, v1) (w0, w1)" by (simp add: Text_same_def)
      qed
      then have "b = (str1 = str2)"
        using assms(8) v h True by (simp add: native_equals isNullable_def)
      ultimately show ?thesis by simp
    next
      case (GString t p len)
      with True null assms(1-4) types assms(8) show ?thesis
        by (cases h) (auto simp: gen_equals native_equals isNullable_gen_def isNullable_def same_type_def SqlType_equals_def typeIDs plain_def
            equalBuffers_def gen_run ucast_u8_u32 split: NValue.splits if_splits)
    qed (use True null assms(1-4) types assms(8) in \<open>cases h; auto simp: gen_equals native_equals isNullable_gen_def isNullable_def
          same_type_def SqlType_equals_def typeIDs plain_def yield_gen_def throw_gen_def bad_cast_def split: NValue.splits if_splits\<close>)+
  qed
qed

definition ex_short :: "NValue \<Rightarrow> machine" where
  \<comment> \<open>the memory with a text at 100\<close>
  "ex_short v = at_memory (case v of NText a b \<Rightarrow> write_bytes (\<lambda>_. 0) 100 (bytes_of_word 8 a @ bytes_of_word 8 b) | _ \<Rightarrow> (\<lambda>_. 0))"

lemma generated_equality_agrees_witness:
  "Value_equals_gen (GText 100) (GNumeric (getNumericTy 4 2 False) 5) (ex_short (Text_inplace ''hi''))
      = Inr (False, ex_short (Text_inplace ''hi''))
    \<and> Value_equals_gen (GText 100) (GText 100) (ex_short (Text_inplace ''hi'')) = Inr (True, ex_short (Text_inplace ''hi''))"
proof -
  obtain a b where ab: "Text_inplace ''hi'' = NText a b" by (simp add: Text_inplace_def Let_def)
  define s where "s = ex_short (NText a b)"
  have rep: "represents (mem_of s) (GText 100) (NText a b)"
    using two_words(1) [of "\<lambda>_. 0" 100 a b] by (simp add: s_def ex_short_def at_memory_def)
  have "Text_isInplace a" using inplace_seventh [OF _ ab] by simp
  then have plain: "plain (NText a b)"
    using ab unfolding plain_def by (auto intro!: exI [of _ "''hi''"])
  have num: "plain (NNumeric (getNumericTy 4 2 False) 5)" unfolding plain_def by (simp add: getNumericTy_def SqlType_ctor_def Let_def)
  have run: "mc_status s = Running" by (simp add: s_def ex_short_def at_memory_def)
  have addr: "short_addresses (mem_of s) (GText 100)" by (simp add: short_addresses_def bad_buffer_def)
  have "Value_equals_gen (GText 100) (GNumeric (getNumericTy 4 2 False) 5) s = Inr (False, s)"
    by (rule generated_equality_agrees [OF rep _ plain num run addr])
      (simp_all add: short_addresses_def native_equals isNullable_def same_type_def SqlType_equals_def typeIDs getNumericTy_def Let_def)
  moreover have "Value_equals_gen (GText 100) (GText 100) s = Inr (True, s)"
    by (rule generated_equality_agrees [OF rep rep plain plain run addr addr])
      (simp add: native_equals isNullable_def same_type_def SqlType_equals_def Text_same_def)
  ultimately show ?thesis by (simp add: ab s_def)
qed

end
