(* ===== verification/SqlOperators.thy ===== *)
theory SqlOperators
  imports ValueDispatch
begin

text \<open>
  The operators of generated code, sql/SqlOperators.cpp, with the handling of null values of
  sql/SqlUtils.cpp and SqlUtils.tcc (the branch without \<^verbatim>\<open>USE_LLVM_SELECT\<close>). The operators on numbers check
  for an overflow when they run: they set a flag and print a message, and go on with the wrapped result. A
  division by zero prints a message and returns from the function.
\<close>

section \<open>Null values\<close>

definition gnull :: "GValue \<Rightarrow> bool" where
  "gnull v = (case v of GNullable _ n \<Rightarrow> n | _ \<Rightarrow> False)"

definition createNullValue :: "GValue \<Rightarrow> GValue gen" where
  "createNullValue v = (if ty_nullable (gv_type v) then throw_gen AssertFailed else NullableValue_create_gen v False)"

definition nullHandlerExtended :: "(GValue \<Rightarrow> 'a gen) \<Rightarrow> 'a \<Rightarrow> GValue \<Rightarrow> 'a gen" where
  \<comment> \<open>the second argument is what the function for absent values returns\<close>
  "nullHandlerExtended present absent value =
     (if isUnknown_gen value then yield_gen absent
      else if \<not> isNullable_gen value then present value
      else gen_if (\<not> gnull value) (present (getAssociatedValue_gen value)) absent)"

definition nullHandler1 :: "(GValue \<Rightarrow> GValue gen) \<Rightarrow> GValue \<Rightarrow> SqlType \<Rightarrow> GValue gen" where
  "nullHandler1 action a resultTy =
     (if isUnknown_gen a then NullableValue_getNull_gen (gv_type a)
      else if \<not> isNullable_gen a then action a
      else bind_gen (NullableValue_getNull_gen resultTy)
             (phi_value (\<not> gnull a) (bind_gen (action (getAssociatedValue_gen a)) createNullValue)))"

definition nullHandler2 :: "(GValue \<Rightarrow> GValue \<Rightarrow> GValue gen) \<Rightarrow> GValue \<Rightarrow> GValue \<Rightarrow> SqlType \<Rightarrow> GValue gen" where
  "nullHandler2 action a b resultTy =
     (if isUnknown_gen a \<or> isUnknown_gen b then NullableValue_getNull_gen (gv_type a)
      else if \<not> isNullable_gen a \<and> \<not> isNullable_gen b then action a b
      else bind_gen (NullableValue_getNull_gen resultTy)
             (phi_value (\<not> (gnull a \<or> gnull b))
               (bind_gen (action (getAssociatedValue_gen a) (getAssociatedValue_gen b)) createNullValue)))"

definition bool_of :: "GValue \<Rightarrow> bool gen" where
  "bool_of v =
     (case v of GBool b \<Rightarrow> yield_gen b
      | _ \<Rightarrow> throw_gen (InvalidOperation ''attempt to compare incompatible types''))"

definition isTrue :: "GValue \<Rightarrow> bool gen" where
  "isTrue value = nullHandlerExtended bool_of False value"

definition isFalse :: "GValue \<Rightarrow> bool gen" where
  "isFalse value = nullHandlerExtended (\<lambda>v. bind_gen (bool_of v) (\<lambda>b. yield_gen (\<not> b))) False value"

definition isNull :: "GValue \<Rightarrow> bool" where
  "isNull value = (ty_typeID (gv_type value) = UnknownID \<or> (isNullable_gen value \<and> gnull value))"

section \<open>Numbers\<close>

definition printed :: "string \<Rightarrow> unit gen" where
  "printed message = effect (\<lambda>s. s\<lparr>mc_out := mc_out s @ message\<rparr>)"

definition genOverflowException :: "unit gen" where
  "genOverflowException = effect (\<lambda>s. s\<lparr>mc_overflow := True\<rparr>)"

definition CreateOverflowBinOp :: "(int \<Rightarrow> int \<Rightarrow> int) \<Rightarrow> 'a::len word \<Rightarrow> 'a word \<Rightarrow> 'a word gen" where
  \<comment> \<open>the intrinsic of LLVM computes the wrapped result and the overflow bit\<close>
  "CreateOverflowBinOp f lhs rhs =
     (let exact = f (sint lhs) (sint rhs);
          opResult = word_of_int exact;
          obit = (sint opResult \<noteq> exact)
      in bind_gen (gen_if obit (bind_gen genOverflowException (\<lambda>_. printed (''arithmetic overflow'' @ [CHR 0x0A]))) ())
           (\<lambda>_. yield_gen opResult))"

definition CreateSDiv :: "'a::len word \<Rightarrow> 'a word \<Rightarrow> 'a word gen" where
  \<comment> \<open>\<^verbatim>\<open>sdiv\<close> is undefined for a divisor of zero and for the one quotient that does not fit\<close>
  "CreateSDiv lhs rhs =
     (let exact = sint lhs sdiv sint rhs; opResult = word_of_int exact
      in bind_gen (undefined_if (rhs = 0 \<or> sint opResult \<noteq> exact)) (\<lambda>_. yield_gen opResult))"

definition numericShift :: "nat \<Rightarrow> u64 gen" where
  \<comment> \<open>an element of \<^verbatim>\<open>numericShifts\<close>\<close>
  "numericShift k = (if k < length numericShifts then yield_gen (numericShifts ! k) else throw_gen MemFault)"

definition precision_of :: "SqlType \<Rightarrow> int" where
  "precision_of type = uint (numericLayout_precision type)"

definition scaled_by :: "u64 \<Rightarrow> nat \<Rightarrow> u64 gen" where
  \<comment> \<open>the checked multiplication with a power of ten\<close>
  "scaled_by raw k = bind_gen (numericShift k) (CreateOverflowBinOp (*) raw)"

definition adjusted :: "SqlType \<Rightarrow> u64 \<Rightarrow> SqlType \<Rightarrow> u64 \<Rightarrow> (u64 \<times> u64) gen" where
  \<comment> \<open>both operands brought to the greater precision\<close>
  "adjusted lt lhsRaw rt rhsRaw =
     (let diff = precision_of lt - precision_of rt
      in if diff < 0 then bind_gen (scaled_by lhsRaw (nat \<bar>diff\<bar>)) (\<lambda>l. yield_gen (l, rhsRaw))
         else if diff > 0 then bind_gen (scaled_by rhsRaw (nat diff)) (\<lambda>r. yield_gen (lhsRaw, r))
         else yield_gen (lhsRaw, rhsRaw))"

definition incompatible :: "string \<Rightarrow> GValue gen" where
  "incompatible operation = throw_gen (InvalidOperation (''attempt to '' @ operation @ '' incompatible types''))"

definition with_result_type :: "SqlType option \<Rightarrow> (SqlType \<Rightarrow> GValue gen) \<Rightarrow> GValue gen" where
  \<comment> \<open>the assert after the inference of the type\<close>
  "with_result_type inferred f = (case inferred of None \<Rightarrow> throw_gen AssertFailed | Some resultType \<Rightarrow> f resultType)"

definition sqlAdd :: "GValue \<Rightarrow> GValue \<Rightarrow> GValue gen" where
  "sqlAdd outerLhs outerRhs = with_result_type (inferAddTy (gv_type outerLhs) (gv_type outerRhs)) (\<lambda>resultType.
     nullHandler2 (\<lambda>lhs rhs. case (lhs, rhs) of
         (GInteger l, GInteger r) \<Rightarrow> bind_gen (CreateOverflowBinOp (+) l r) (\<lambda>raw. yield_gen (GInteger raw))
       | (GNumeric lt l, GNumeric rt r) \<Rightarrow>
           bind_gen (adjusted lt l rt r) (\<lambda>(lhsRaw, rhsRaw).
             bind_gen (CreateOverflowBinOp (+) lhsRaw rhsRaw) (\<lambda>raw. yield_gen (GNumeric (toNotNullableTy resultType) raw)))
       | _ \<Rightarrow> incompatible ''add'') outerLhs outerRhs resultType)"

definition sqlSub :: "GValue \<Rightarrow> GValue \<Rightarrow> GValue gen" where
  "sqlSub outerLhs outerRhs = with_result_type (inferSubTy (gv_type outerLhs) (gv_type outerRhs)) (\<lambda>resultType.
     nullHandler2 (\<lambda>lhs rhs. case (lhs, rhs) of
         (GInteger l, GInteger r) \<Rightarrow> bind_gen (CreateOverflowBinOp (-) l r) (\<lambda>raw. yield_gen (GInteger raw))
       | (GNumeric lt l, GNumeric rt r) \<Rightarrow>
           bind_gen (adjusted lt l rt r) (\<lambda>(lhsRaw, rhsRaw).
             bind_gen (CreateOverflowBinOp (-) lhsRaw rhsRaw) (\<lambda>raw. yield_gen (GNumeric (toNotNullableTy resultType) raw)))
       | _ \<Rightarrow> incompatible ''subtract'') outerLhs outerRhs resultType)"

definition sqlMul :: "GValue \<Rightarrow> GValue \<Rightarrow> GValue gen" where
  "sqlMul outerLhs outerRhs = with_result_type (inferMulTy (gv_type outerLhs) (gv_type outerRhs)) (\<lambda>resultType.
     nullHandler2 (\<lambda>lhs rhs. case (lhs, rhs) of
         (GInteger l, GInteger r) \<Rightarrow> bind_gen (CreateOverflowBinOp (*) l r) (\<lambda>raw. yield_gen (GInteger raw))
       | (GNumeric lt l, GNumeric rt r) \<Rightarrow>
           bind_gen (CreateOverflowBinOp (*) l r) (\<lambda>raw. yield_gen (GNumeric (toNotNullableTy resultType) raw))
       | _ \<Rightarrow> incompatible ''multiply'') outerLhs outerRhs resultType)"

definition div_adjusted :: "SqlType \<Rightarrow> u64 \<Rightarrow> SqlType \<Rightarrow> u64 \<Rightarrow> (u64 \<times> u64) gen" where
  "div_adjusted lt lhsRaw rt rhsRaw =
     (let diff = precision_of lt - precision_of rt; rp = precision_of rt
      in if diff \<le> 0 then bind_gen (scaled_by lhsRaw (nat (\<bar>diff\<bar> + rp))) (\<lambda>l. yield_gen (l, rhsRaw))
         else if diff > rp then bind_gen (scaled_by rhsRaw (nat (diff - rp))) (\<lambda>r. yield_gen (lhsRaw, r))
         else if diff < rp then bind_gen (scaled_by lhsRaw (nat (rp - diff))) (\<lambda>l. yield_gen (l, rhsRaw))
         else yield_gen (lhsRaw, rhsRaw))"

definition zero_check :: "GValue \<Rightarrow> unit gen" where
  \<comment> \<open>a null pointer has no type to compare with\<close>
  "zero_check rhs =
     (case llvm_int rhs of
        None \<Rightarrow> throw_gen MemFault
      | Some (_, raw) \<Rightarrow> gen_if (raw = 0)
          (bind_gen (printed (''division by zero'' @ [CHR 0x0A])) (\<lambda>_. effect (\<lambda>s. s\<lparr>mc_status := Returned\<rparr>))) ())"

definition sqlDiv :: "GValue \<Rightarrow> GValue \<Rightarrow> GValue gen" where
  "sqlDiv outerLhs outerRhs = with_result_type (inferDivTy (gv_type outerLhs) (gv_type outerRhs)) (\<lambda>resultType.
     nullHandler2 (\<lambda>lhs rhs. bind_gen (zero_check rhs) (\<lambda>_. case (lhs, rhs) of
         (GInteger l, GInteger r) \<Rightarrow> bind_gen (CreateSDiv l r) (\<lambda>raw. yield_gen (GInteger raw))
       | (GNumeric lt l, GNumeric rt r) \<Rightarrow>
           bind_gen (div_adjusted lt l rt r) (\<lambda>(lhsRaw, rhsRaw).
             bind_gen (CreateSDiv lhsRaw rhsRaw) (\<lambda>raw. yield_gen (GNumeric (toNotNullableTy resultType) raw)))
       | _ \<Rightarrow> incompatible ''divide'')) outerLhs outerRhs resultType)"

section \<open>Comparisons\<close>

definition sqlCompare :: "GValue \<Rightarrow> GValue \<Rightarrow> ComparisonMode \<Rightarrow> GValue gen" where
  "sqlCompare outerLhs outerRhs mode =
     (if \<not> same_type_gen outerLhs outerRhs then throw_gen AssertFailed
      else with_result_type (inferCompareTy (gv_type outerLhs) (gv_type outerRhs)) (\<lambda>resultType.
        nullHandler2 (\<lambda>lhs rhs. bind_gen (Value_compare_gen lhs rhs mode) (\<lambda>result. yield_gen (GBool result)))
          outerLhs outerRhs resultType))"

definition sqlEquals :: "GValue \<Rightarrow> GValue \<Rightarrow> GValue gen" where
  "sqlEquals outerLhs outerRhs =
     (if \<not> same_type_gen outerLhs outerRhs then throw_gen AssertFailed
      else with_result_type (inferCompareTy (gv_type outerLhs) (gv_type outerRhs)) (\<lambda>resultType.
        nullHandler2 (\<lambda>lhs rhs. bind_gen (Value_equals_gen lhs rhs) (\<lambda>result. yield_gen (GBool result)))
          outerLhs outerRhs resultType))"

section \<open>Casts\<close>

definition castInteger :: "u32 \<Rightarrow> SqlType \<Rightarrow> GValue gen" where
  "castInteger value newType =
     (case ty_typeID newType of
        IntegerID \<Rightarrow> yield_gen (GInteger value)
      | NumericID \<Rightarrow> bind_gen (numericShift (unat (numericLayout_precision newType)))
          (\<lambda>shift. yield_gen (GNumeric newType (scast value * shift)))
      | _ \<Rightarrow> throw_gen (ArithmeticException ''no known conversion''))"

definition castNumeric :: "SqlType \<Rightarrow> u64 \<Rightarrow> SqlType \<Rightarrow> GValue gen" where
  \<comment> \<open>the power of ten of the cast to an integer is that of the new type\<close>
  "castNumeric type raw newType =
     (let precision = numericLayout_precision type; newPrecision = numericLayout_precision newType
      in case ty_typeID newType of
        IntegerID \<Rightarrow> bind_gen (numericShift (unat newPrecision)) (\<lambda>shift.
          bind_gen (CreateSDiv raw shift) (\<lambda>q. yield_gen (GInteger (ucast q))))
      | NumericID \<Rightarrow>
          (if precision > newPrecision
           then bind_gen (numericShift (unat (precision - newPrecision))) (\<lambda>shift.
             bind_gen (CreateSDiv raw shift) (\<lambda>q. yield_gen (GNumeric newType q)))
           else if precision < newPrecision
           then bind_gen (scaled_by raw (unat (newPrecision - precision))) (\<lambda>q. yield_gen (GNumeric newType q))
           else yield_gen (GNumeric type raw))
      | _ \<Rightarrow> throw_gen (ArithmeticException ''no known conversion''))"

definition sqlCast :: "GValue \<Rightarrow> SqlType \<Rightarrow> GValue gen" where
  "sqlCast outerValue newType =
     (if ty_nullable (gv_type outerValue) \<noteq> ty_nullable newType then throw_gen AssertFailed
      else if ty_typeID (gv_type outerValue) = UnknownID then throw_gen (NotImplemented ''sqlCast() cast unknown'')
      else let castType = toNotNullableTy newType
           in nullHandler1 (\<lambda>v. case v of
                  GInteger i \<Rightarrow> castInteger i castType
                | GNumeric t raw \<Rightarrow> castNumeric t raw castType
                | _ \<Rightarrow> throw_gen (ArithmeticException ''no known conversion'')) outerValue castType)"

section \<open>Logic\<close>

definition is_bool :: "GValue \<Rightarrow> bool" where
  "is_bool v = (ty_typeID (gv_type v) = BoolID)"

definition connective :: "(GValue \<Rightarrow> bool gen) \<Rightarrow> bool \<Rightarrow> (bool \<Rightarrow> bool \<Rightarrow> bool) \<Rightarrow> GValue \<Rightarrow> GValue \<Rightarrow> GValue gen" where
  \<comment> \<open>the part \<^verbatim>\<open>sqlAnd\<close> and \<^verbatim>\<open>sqlOr\<close> share: one side decides with the value of the second argument, else a null
     makes the result null; creating the null throws, so nothing after it is emitted\<close>
  "connective decides decided op lhs rhs =
     (if \<not> is_bool lhs \<or> \<not> is_bool rhs then throw_gen AssertFailed
      else if \<not> isNullable_gen lhs \<and> \<not> isNullable_gen rhs
      then bind_gen (bool_of lhs) (\<lambda>l. bind_gen (bool_of rhs) (\<lambda>r. yield_gen (GBool (op l r))))
      else bind_gen (NullableValue_create_gen (GBool (\<not> decided)) False) (\<lambda>resultNode.
        bind_gen (decides lhs) (\<lambda>l. bind_gen (decides rhs) (\<lambda>r.
          bind_gen (NullableValue_create_gen (GBool decided) False) (\<lambda>decidedValue.
            bind_gen (NullableValue_getNull_gen (getBoolTy True)) (\<lambda>nullValue.
              yield_gen (if l \<or> r then decidedValue else if isNull lhs \<or> isNull rhs then nullValue else resultNode)))))))"

definition sqlAnd :: "GValue \<Rightarrow> GValue \<Rightarrow> GValue gen" where
  "sqlAnd = connective isFalse False (\<and>)"

definition sqlOr :: "GValue \<Rightarrow> GValue \<Rightarrow> GValue gen" where
  "sqlOr = connective isTrue True (\<or>)"

definition sqlNot :: "GValue \<Rightarrow> GValue gen" where
  "sqlNot value =
     (if \<not> is_bool value then throw_gen AssertFailed
      else nullHandler1 (\<lambda>v. bind_gen (bool_of v) (\<lambda>b. yield_gen (GBool (\<not> b)))) value (gv_type value))"

end
