(* ===== verification/PhysicalExpressions.thy ===== *)
theory PhysicalExpressions
  imports SqlOperators
begin

text \<open>
  The expressions of the physical algebra, algebra/physical/expressions.hpp, and the translation of logical
  expressions, the class \<^verbatim>\<open>ExpressionTranslator\<close> of algebra/translation.cpp. The translation
  already emits the constants; \<^verbatim>\<open>evaluate\<close> emits the code of the expression over the values of a
  tuple, one for each information unit.

  \<^verbatim>\<open>Not\<close> is not a constructor: no logical expression is translated to it, since the logical class
  cannot be instantiated, and its constructor follows a pointer it has moved from.
\<close>

type_synonym iu_value_mapping = "iu_p \<Rightarrow> GValue option"

datatype physical_exp =
    PCast physical_exp SqlType
  | PAnd SqlType physical_exp physical_exp
  | POr SqlType physical_exp physical_exp
  | PAddition SqlType physical_exp physical_exp
  | PSubtraction SqlType physical_exp physical_exp
  | PMultiplication SqlType physical_exp physical_exp
  | PDivision SqlType physical_exp physical_exp
  | PComparison SqlType ComparisonMode physical_exp physical_exp
  | PIdentifier iu_p SqlType
  | PConstant GValue
  | PNullConstant

primrec pe_getType :: "physical_exp \<Rightarrow> SqlType" where
  "pe_getType (PCast child type) = type"
| "pe_getType (PAnd type left right) = type"
| "pe_getType (POr type left right) = type"
| "pe_getType (PAddition type left right) = type"
| "pe_getType (PSubtraction type left right) = type"
| "pe_getType (PMultiplication type left right) = type"
| "pe_getType (PDivision type left right) = type"
| "pe_getType (PComparison type mode left right) = type"
| "pe_getType (PIdentifier iu type) = type"
| "pe_getType (PConstant v) = gv_type v"
| "pe_getType PNullConstant = getUnknownTy"

section \<open>Constructors\<close>

definition PAnd_ctor :: "SqlType \<Rightarrow> physical_exp \<Rightarrow> physical_exp \<Rightarrow> physical_exp gen" where
  "PAnd_ctor type left right =
     (if ty_typeID type = BoolID then yield_gen (PAnd type left right) else throw_gen AssertFailed)"

definition POr_ctor :: "SqlType \<Rightarrow> physical_exp \<Rightarrow> physical_exp \<Rightarrow> physical_exp gen" where
  "POr_ctor type left right =
     (if ty_typeID type = BoolID then yield_gen (POr type left right) else throw_gen AssertFailed)"

definition checked_operands :: "(SqlType \<Rightarrow> physical_exp \<Rightarrow> physical_exp \<Rightarrow> physical_exp) \<Rightarrow> SqlType \<Rightarrow>
    physical_exp \<Rightarrow> physical_exp \<Rightarrow> physical_exp gen" where
  \<comment> \<open>the constructors of the four arithmetic classes\<close>
  "checked_operands ctor type left right =
     (if ty_typeID type = ty_typeID (pe_getType left) \<and> ty_typeID type = ty_typeID (pe_getType right)
      then yield_gen (ctor type left right) else throw_gen AssertFailed)"

definition PAddition_ctor :: "SqlType \<Rightarrow> physical_exp \<Rightarrow> physical_exp \<Rightarrow> physical_exp gen" where
  "PAddition_ctor = checked_operands PAddition"

definition PSubtraction_ctor :: "SqlType \<Rightarrow> physical_exp \<Rightarrow> physical_exp \<Rightarrow> physical_exp gen" where
  "PSubtraction_ctor = checked_operands PSubtraction"

definition PMultiplication_ctor :: "SqlType \<Rightarrow> physical_exp \<Rightarrow> physical_exp \<Rightarrow> physical_exp gen" where
  "PMultiplication_ctor = checked_operands PMultiplication"

definition PDivision_ctor :: "SqlType \<Rightarrow> physical_exp \<Rightarrow> physical_exp \<Rightarrow> physical_exp gen" where
  "PDivision_ctor = checked_operands PDivision"

section \<open>Translation\<close>

fun translate_exp :: "InformationUnit list \<Rightarrow> expression \<Rightarrow> physical_exp gen" where
  \<comment> \<open>\<^verbatim>\<open>ExpressionTranslator\<close>: the children are translated first, the left one before the right one\<close>
  "translate_exp ius (Cast child destType) =
     bind_gen (translate_exp ius child) (\<lambda>c. yield_gen (PCast c destType))"
| "translate_exp ius (And left right type) = throw_gen Unreachable"
    \<comment> \<open>\<^verbatim>\<open>ExpressionVisitor\<close> has no \<^verbatim>\<open>visit\<close> for \<^verbatim>\<open>And\<close> and \<^verbatim>\<open>Or\<close>, so their \<^verbatim>\<open>accept\<close> ends in
        \<^verbatim>\<open>visit(Expression &)\<close>, which is unreachable; those of the translator are never called\<close>
| "translate_exp ius (Or left right type) = throw_gen Unreachable"
| "translate_exp ius (Addition left right type) =
     bind_gen (translate_exp ius left) (\<lambda>l. bind_gen (translate_exp ius right) (\<lambda>r. PAddition_ctor type l r))"
| "translate_exp ius (Subtraction left right type) =
     bind_gen (translate_exp ius left) (\<lambda>l. bind_gen (translate_exp ius right) (\<lambda>r. PSubtraction_ctor type l r))"
| "translate_exp ius (Multiplication left right type) =
     bind_gen (translate_exp ius left) (\<lambda>l. bind_gen (translate_exp ius right) (\<lambda>r. PMultiplication_ctor type l r))"
| "translate_exp ius (Division left right type) =
     bind_gen (translate_exp ius left) (\<lambda>l. bind_gen (translate_exp ius right) (\<lambda>r. PDivision_ctor type l r))"
| "translate_exp ius (Comparison mode left right type) =
     bind_gen (translate_exp ius left) (\<lambda>l. bind_gen (translate_exp ius right) (\<lambda>r.
       yield_gen (PComparison type mode l r)))"
| "translate_exp ius (Identifier iu) =
     bind_gen (lift_gen (iu_getType ius iu)) (\<lambda>type. yield_gen (PIdentifier iu type))"
| "translate_exp ius (Constant val type) =
     bind_gen (Value_castString_gen val type) (\<lambda>sqlValue. yield_gen (PConstant sqlValue))"
| "translate_exp ius NullConstant = yield_gen PNullConstant"

section \<open>Evaluation\<close>

definition typed_result :: "SqlType \<Rightarrow> GValue gen \<Rightarrow> GValue gen" where
  \<comment> \<open>the assert at the end of \<^verbatim>\<open>evaluate\<close> of the binary operators\<close>
  "typed_result type m =
     bind_gen m (\<lambda>result. if SqlType_equals (gv_type result) type Full then yield_gen result else throw_gen AssertFailed)"

definition evaluate_both :: "GValue gen \<Rightarrow> GValue gen \<Rightarrow> SqlType \<Rightarrow> (GValue \<Rightarrow> GValue \<Rightarrow> GValue gen) \<Rightarrow> GValue gen" where
  "evaluate_both left right type f =
     bind_gen left (\<lambda>lhs. bind_gen right (\<lambda>rhs. typed_result type (f lhs rhs)))"

primrec evaluate :: "physical_exp \<Rightarrow> iu_value_mapping \<Rightarrow> GValue gen" where
  "evaluate (PCast child type) vals = bind_gen (evaluate child vals) (\<lambda>v. sqlCast v type)"
| "evaluate (PAnd type left right) vals = evaluate_both (evaluate left vals) (evaluate right vals) type sqlAnd"
| "evaluate (POr type left right) vals = evaluate_both (evaluate left vals) (evaluate right vals) type sqlOr"
| "evaluate (PAddition type left right) vals = evaluate_both (evaluate left vals) (evaluate right vals) type sqlAdd"
| "evaluate (PSubtraction type left right) vals = evaluate_both (evaluate left vals) (evaluate right vals) type sqlSub"
| "evaluate (PMultiplication type left right) vals = evaluate_both (evaluate left vals) (evaluate right vals) type sqlMul"
| "evaluate (PDivision type left right) vals = evaluate_both (evaluate left vals) (evaluate right vals) type sqlDiv"
| "evaluate (PComparison type mode left right) vals =
     evaluate_both (evaluate left vals) (evaluate right vals) type (\<lambda>lhs rhs. sqlCompare lhs rhs mode)"
| "evaluate (PIdentifier iu type) vals =
     (case vals iu of None \<Rightarrow> throw_gen (OutOfRange ''_Map_base::at'') | Some v \<Rightarrow> yield_gen v)"
| "evaluate (PConstant v) vals = yield_gen v"
| "evaluate PNullConstant vals = yield_gen GUnknown"

end
