(* ===== verification/SqlOperatorProperties.thy ===== *)
theory SqlOperatorProperties
  imports SqlOperators GeneratedValueProperties Complex_Main
begin

text \<open>
  What the operators of generated code compute: sums, differences and quotients of decimals as numbers, and
  which comparisons the generator supports.
\<close>

section \<open>Decimals\<close>

definition in_range :: "int \<Rightarrow> bool" where
  "in_range x \<longleftrightarrow> - (2 ^ 63) \<le> x \<and> x < 2 ^ 63"

lemma sint_in_range: "sint (word_of_int e :: u64) = e \<longleftrightarrow> in_range e"
  using signed_take_bit_int_eq_self_iff [of 63 e] by (simp add: in_range_def sint_sbintrunc')

lemma sint_word: "in_range e \<Longrightarrow> sint (word_of_int e :: u64) = e"
  by (simp add: sint_in_range)

definition overflowed :: "machine \<Rightarrow> machine" where
  "overflowed s = s\<lparr>mc_overflow := True, mc_out := mc_out s @ ''arithmetic overflow'' @ [CHR 0x0A]\<rparr>"

lemma overflow_op_run:
  assumes "mc_status s = Running"
  shows "CreateOverflowBinOp f (x :: u64) y s =
    Inr (word_of_int (f (sint x) (sint y)), if in_range (f (sint x) (sint y)) then s else overflowed s)"
  using assms
  by (simp add: CreateOverflowBinOp_def Let_def gen_run genOverflowException_def printed_def sint_in_range overflowed_def)

lemma overflowed_simps [simp]: "mc_status (overflowed s) = mc_status s" "mc_overflow (overflowed s)" "mc_heap (overflowed s) = mc_heap s"
  by (simp_all add: overflowed_def)

lemma numericShift_run: "k < 19 \<Longrightarrow> numericShift k = yield_gen (10 ^ k)"
  by (simp add: numericShift_def numericShifts_def nth_append del: upt_Suc)

lemma sint_power: "k < 19 \<Longrightarrow> sint (10 ^ k :: u64) = 10 ^ k"
proof -
  assume "k < 19"
  then have "(10::int) ^ k \<le> 10 ^ 18" by (intro power_increasing) simp_all
  moreover have "(0::int) \<le> 10 ^ k" by simp
  ultimately have "in_range (10 ^ k)" using order_trans [of "- (2 ^ 63)" 0 "(10::int) ^ k"] by (simp add: in_range_def)
  from sint_word [OF this] show ?thesis by simp
qed


definition prec :: "SqlType \<Rightarrow> nat" where
  "prec type = unat (numericLayout_precision type)"

lemma precision_of_prec: "precision_of type = int (prec type)"
  by (simp add: precision_of_def prec_def)

definition is_numeric :: "SqlType \<Rightarrow> bool" where
  "is_numeric type \<longleftrightarrow> ty_typeID type = NumericID \<and> \<not> ty_nullable type \<and> prec type \<le> 18"

definition numeric_value :: "GValue \<Rightarrow> real" where
  \<comment> \<open>the number a decimal stands for\<close>
  "numeric_value v = (case v of GNumeric t raw \<Rightarrow> of_int (sint raw) / 10 ^ prec t | _ \<Rightarrow> 0)"

lemma scaled_by_run:
  assumes "k < 19" "mc_status s = Running"
  shows "scaled_by raw k s =
    Inr (word_of_int (sint raw * 10 ^ k), if in_range (sint raw * 10 ^ k) then s else overflowed s)"
  using assms
  by (simp add: scaled_by_def numericShift_run bind_gen_def yield_gen_def overflow_op_run sint_power)

lemma adjusted_run:
  assumes "prec lt \<le> 18" "prec rt \<le> 18" "mc_status s = Running"
    and "p = max (prec lt) (prec rt)" "x = sint l * 10 ^ (p - prec lt)" "y = sint r * 10 ^ (p - prec rt)"
  shows "\<exists>s'. adjusted lt l rt r s = Inr ((word_of_int x, word_of_int y), s') \<and> mc_status s' = Running
    \<and> (if in_range x \<and> in_range y then s' = s else mc_overflow s')"
proof -
  have sint: "in_range (sint w)" for w :: u64
    using sint_in_range [of "sint w"] by simp
  consider "prec lt < prec rt" | "prec rt < prec lt" | "prec lt = prec rt" by linarith
  then show ?thesis
  proof cases
    case 1
    then have "nat \<bar>precision_of lt - precision_of rt\<bar> = p - prec lt" "p - prec rt = 0" using assms(4) by (simp_all add: precision_of_prec)
    then show ?thesis
      using 1 assms sint [of r] by (simp add: adjusted_def Let_def precision_of_prec bind_gen_def scaled_by_run yield_gen_def)
  next
    case 2
    then have "nat (precision_of lt - precision_of rt) = p - prec rt" "p - prec lt = 0" using assms(4) by (simp_all add: precision_of_prec)
    then show ?thesis
      using 2 assms sint [of l] by (simp add: adjusted_def Let_def precision_of_prec bind_gen_def scaled_by_run yield_gen_def)
  next
    case 3
    then show ?thesis using assms sint by (simp add: adjusted_def precision_of_prec yield_gen_def)
  qed
qed

lemma same_precision_value:
  assumes "p = max m n"
  shows "of_int (x * 10 ^ (p - m) + \<sigma> * (y * 10 ^ (p - n))) / (10 ^ p :: real) = of_int x / 10 ^ m + of_int \<sigma> * (of_int y / 10 ^ n)"
proof -
  have shift: "of_int z * 10 ^ (p - k) / (10 ^ p :: real) = of_int z / 10 ^ k" if "k \<le> p" for z k
  proof -
    from that have "(10 ^ p :: real) = 10 ^ (p - k) * 10 ^ k" by (simp flip: power_add)
    then show ?thesis by simp
  qed
  have "m \<le> p" "n \<le> p" using assms by simp_all
  from this [THEN shift] show ?thesis
    by (simp add: add_divide_distrib times_divide_eq_right [symmetric] del: times_divide_eq_right)
qed

lemma inferAddTy_numeric:
  assumes "is_numeric lt" "is_numeric rt"
  shows "inferAddTy lt rt = Some (greater_precision lt rt)" "is_numeric (greater_precision lt rt)"
    "prec (greater_precision lt rt) = max (prec lt) (prec rt)" "toNotNullableTy (greater_precision lt rt) = greater_precision lt rt"
  using assms
  by (auto simp: inferAddTy_def numeric_or_integer_def is_numeric_def greater_precision_def prec_def toNotNullableTy_def
      word_less_nat_alt Let_def)

lemma numeric_sum_run:
  assumes "is_numeric lt" "is_numeric rt" "mc_status s = Running" "(f, \<sigma>) \<in> {(sqlAdd, 1), (sqlSub, - 1)}"
    and "p = max (prec lt) (prec rt)" "x = sint l * 10 ^ (p - prec lt)" "y = sint r * 10 ^ (p - prec rt)"
  shows "\<exists>raw s'. f (GNumeric lt l) (GNumeric rt r) s = Inr (GNumeric (greater_precision lt rt) raw, s') \<and> mc_status s' = Running
    \<and> (if in_range x \<and> in_range y \<and> in_range (x + \<sigma> * y)
       then s' = s \<and> numeric_value (GNumeric (greater_precision lt rt) raw)
         = numeric_value (GNumeric lt l) + of_int \<sigma> * numeric_value (GNumeric rt r)
       else mc_overflow s')"
proof -
  from adjusted_run [OF _ _ assms(3,5,6,7)] assms(1,2) obtain s1 where
    s1: "adjusted lt l rt r s = Inr ((word_of_int x, word_of_int y), s1)" "mc_status s1 = Running"
      "if in_range x \<and> in_range y then s1 = s else mc_overflow s1" by (auto simp: is_numeric_def)
  note T = inferAddTy_numeric [OF assms(1,2)]
  let ?t = "greater_precision lt rt"
  have "f (GNumeric lt l) (GNumeric rt r) s =
      bind_gen (CreateOverflowBinOp (\<lambda>a b. a + \<sigma> * b) (word_of_int x) (word_of_int y :: u64)) (\<lambda>raw. yield_gen (GNumeric ?t raw)) s1"
    using assms(1,2,4) T s1(1)
    by (auto simp: sqlAdd_def sqlSub_def inferSubTy_def with_result_type_def nullHandler2_def isUnknown_gen_def
        isNullable_gen_def is_numeric_def bind_gen_def)
  then have run: "f (GNumeric lt l) (GNumeric rt r) s =
      (let e = sint (word_of_int x :: u64) + \<sigma> * sint (word_of_int y :: u64)
       in Inr (GNumeric ?t (word_of_int e), if in_range e then s1 else overflowed s1))"
    using s1(2) by (simp add: bind_gen_def yield_gen_def overflow_op_run Let_def)
  show ?thesis
  proof (cases "in_range x \<and> in_range y \<and> in_range (x + \<sigma> * y)")
    case True
    have "numeric_value (GNumeric ?t (word_of_int (x + \<sigma> * y))) =
        numeric_value (GNumeric lt l) + of_int \<sigma> * numeric_value (GNumeric rt r)"
    proof -
      have e: "sint (word_of_int (x + \<sigma> * y) :: u64) = x + \<sigma> * y" using True by (intro sint_word) simp
      show ?thesis
        using same_precision_value [OF assms(5), of "sint l" \<sigma> "sint r"]
        unfolding numeric_value_def GValue.case T(3) e unfolding assms(5-7) by simp
    qed
    with True run s1 show ?thesis by (simp add: sint_word Let_def)
  next
    case False
    then show ?thesis using run s1 by (auto simp: Let_def sint_word split: if_splits)
  qed
qed

text \<open>C31: the sum and the difference of two decimals are exact or flagged: they have the greater precision, and if both operands,
  brought to that precision, and the result fit into 64 bits, the result stands for the sum or the difference of the numbers and
  nothing else changes; otherwise the overflow flag is set.\<close>

theorem numeric_sums_exact:
  assumes "is_numeric lt" "is_numeric rt" "mc_status s = Running" "(f, \<sigma>) \<in> {(sqlAdd, 1), (sqlSub, - 1)}"
    and "p = max (prec lt) (prec rt)" "x = sint l * 10 ^ (p - prec lt)" "y = sint r * 10 ^ (p - prec rt)"
  shows "\<exists>t raw s'. f (GNumeric lt l) (GNumeric rt r) s = Inr (GNumeric t raw, s') \<and> prec t = p
    \<and> (if in_range x \<and> in_range y \<and> in_range (x + \<sigma> * y)
       then s' = s \<and> numeric_value (GNumeric t raw) = numeric_value (GNumeric lt l) + of_int \<sigma> * numeric_value (GNumeric rt r)
       else mc_overflow s')"
  using numeric_sum_run [OF assms] inferAddTy_numeric(3) [OF assms(1,2)] assms(5) by (metis (no_types, lifting))

lemma sdiv_truncates:
  assumes "b \<noteq> 0"
  shows "\<bar>real_of_int (a sdiv b) - of_int a / of_int b\<bar> < 1"
proof -
  define q where "q = \<bar>a\<bar> div \<bar>b\<bar>"
  have q: "of_int q \<le> real_of_int \<bar>a\<bar> / of_int \<bar>b\<bar>" "real_of_int \<bar>a\<bar> / of_int \<bar>b\<bar> < of_int q + 1"
    using assms floor_divide_of_int_eq [of "\<bar>a\<bar>" "\<bar>b\<bar>", where ?'a = real] by (simp_all add: q_def floor_eq_iff)
  have "real_of_int (a sdiv b) = of_int (sgn a * sgn b) * of_int q"
    by (simp add: signed_divide_int_def q_def)
  moreover have "real_of_int a / of_int b = of_int (sgn a * sgn b) * (of_int \<bar>a\<bar> / of_int \<bar>b\<bar>)"
    using assms by (simp add: sgn_if abs_if)
  ultimately have "real_of_int (a sdiv b) - of_int a / of_int b = of_int (sgn a * sgn b) * (of_int q - real_of_int \<bar>a\<bar> / of_int \<bar>b\<bar>)"
    by (simp only: right_diff_distrib)
  moreover have "\<bar>real_of_int (sgn a * sgn b)\<bar> \<le> 1" by (simp add: sgn_if)
  ultimately have "\<bar>real_of_int (a sdiv b) - of_int a / of_int b\<bar> \<le> 1 * \<bar>of_int q - real_of_int \<bar>a\<bar> / of_int \<bar>b\<bar>\<bar>"
    by (simp only: abs_mult mult_right_mono abs_ge_zero)
  moreover have "\<bar>of_int q - real_of_int \<bar>a\<bar> / of_int \<bar>b\<bar>\<bar> < 1" using q by (simp only: abs_less_iff) (intro conjI; simp)
  ultimately show ?thesis by simp
qed

lemma scale_difference:
  assumes "\<bar>a - b\<bar> < 1" "0 < (c :: real)"
  shows "\<bar>a / c - b / c\<bar> < 1 / c"
proof -
  have "\<bar>a / c - b / c\<bar> = \<bar>a - b\<bar> / c" using assms(2) by (simp add: diff_divide_distrib [symmetric])
  with assms show ?thesis by (simp add: divide_strict_right_mono)
qed

lemma in_range_sint: "in_range (sint (w :: u64))"
  using sint_in_range [of "sint w"] by simp

lemma div_adjusted_run:
  assumes "prec lt \<le> 18" "2 * prec rt - prec lt \<le> 18" "mc_status s = Running"
    and "x = sint l * 10 ^ (2 * prec rt - prec lt)" "y = sint r * 10 ^ (prec lt - 2 * prec rt)" "in_range x" "in_range y"
  shows "div_adjusted lt l rt r s = Inr ((word_of_int x, word_of_int y), s)"
proof -
  consider "prec lt \<le> prec rt" | "prec rt < prec lt" "2 * prec rt < prec lt"
    | "prec rt < prec lt" "prec lt < 2 * prec rt" | "prec rt < prec lt" "prec lt = 2 * prec rt" by linarith
  then show ?thesis
  proof cases
    case 1
    then have "nat (\<bar>precision_of lt - precision_of rt\<bar> + precision_of rt) = 2 * prec rt - prec lt" "prec lt - 2 * prec rt = 0"
      by (simp_all add: precision_of_prec)
    then show ?thesis using 1 assms in_range_sint [of l] in_range_sint [of r]
      by (simp add: div_adjusted_def Let_def bind_gen_def scaled_by_run yield_gen_def) (simp add: precision_of_prec)
  next
    case 2
    then have "nat (precision_of lt - precision_of rt - precision_of rt) = prec lt - 2 * prec rt" "2 * prec rt - prec lt = 0"
      by (simp_all add: precision_of_prec)
    then show ?thesis using 2 assms in_range_sint [of l] in_range_sint [of r]
      by (simp add: div_adjusted_def Let_def bind_gen_def scaled_by_run yield_gen_def) (simp add: precision_of_prec)
  next
    case 3
    then have "nat (precision_of rt - (precision_of lt - precision_of rt)) = 2 * prec rt - prec lt" "prec lt - 2 * prec rt = 0"
      by (simp_all add: precision_of_prec)
    then show ?thesis using 3 assms in_range_sint [of l] in_range_sint [of r]
      by (simp add: div_adjusted_def Let_def bind_gen_def scaled_by_run yield_gen_def precision_of_prec)
  next
    case 4
    then show ?thesis using assms
      by (simp add: div_adjusted_def Let_def yield_gen_def) (simp add: precision_of_prec)
  qed
qed

lemma inferDivTy_numeric:
  assumes "is_numeric lt" "is_numeric rt"
  shows "inferDivTy lt rt = Some (greater_precision lt rt)"
  using assms
  by (auto simp: inferDivTy_def numeric_or_integer_def is_numeric_def greater_precision_def Let_def)

text \<open>The quotient of two decimals is too small by a power of ten when the dividend has the greater precision: without an
  overflow the result has the greater precision and, multiplied with ten to the difference of the precisions if the dividend's is greater,
  is the quotient up to the precision of the divisor.\<close>

theorem numeric_division_misscaled:
  assumes "is_numeric lt" "is_numeric rt" "mc_status s = Running" "r \<noteq> 0" "2 * prec rt - prec lt \<le> 18"
    and "x = sint l * 10 ^ (2 * prec rt - prec lt)" "y = sint r * 10 ^ (prec lt - 2 * prec rt)"
    and "in_range x" "in_range y" "in_range (x sdiv y)"
  shows "\<exists>t raw. sqlDiv (GNumeric lt l) (GNumeric rt r) s = Inr (GNumeric t raw, s) \<and> prec t = max (prec lt) (prec rt)
    \<and> \<bar>10 ^ (prec lt - prec rt) * numeric_value (GNumeric t raw)
         - numeric_value (GNumeric lt l) / numeric_value (GNumeric rt r)\<bar> < 1 / 10 ^ prec rt"
proof -
  note T = inferDivTy_numeric [OF assms(1,2)] inferAddTy_numeric(2-4) [OF assms(1,2)]
  let ?t = "greater_precision lt rt"
  have r0: "sint r \<noteq> 0" using assms(4) by (metis signed_0 signed_word_eqI)
  then have y0: "y \<noteq> 0" using assms(7) by simp
  have y0': "(word_of_int y :: u64) \<noteq> 0" using sint_word [OF assms(9)] y0 by (metis signed_0)
  have "zero_check (GNumeric rt r) s = Inr ((), s)"
    using r0 assms(3) by (simp add: zero_check_def gen_run printed_def)
  moreover have "CreateSDiv (word_of_int x) (word_of_int y :: u64) s = Inr (word_of_int (x sdiv y), s)"
    using y0' assms(3) sint_word [OF assms(8)] sint_word [OF assms(9)] sint_word [OF assms(10)]
    by (simp add: CreateSDiv_def gen_run Let_def del: word_of_int_eq_0_iff)
  moreover have "div_adjusted lt l rt r s = Inr ((word_of_int x, word_of_int y), s)"
    using assms by (intro div_adjusted_run) (auto simp: is_numeric_def)
  ultimately have run: "sqlDiv (GNumeric lt l) (GNumeric rt r) s = Inr (GNumeric ?t (word_of_int (x sdiv y)), s)"
    using assms(1,2) T
    by (simp add: sqlDiv_def with_result_type_def nullHandler2_def isUnknown_gen_def isNullable_gen_def is_numeric_def
        bind_gen_def yield_gen_def)
  have q: "of_int (sint r) \<noteq> (0::real)" using r0 of_int_eq_0_iff by blast
  have ratio: "of_int x / of_int y = numeric_value (GNumeric lt l) / numeric_value (GNumeric rt r) * 10 ^ prec rt"
  proof (cases "prec lt \<le> 2 * prec rt")
    case True
    then have "(10 ^ (2 * prec rt - prec lt) :: real) = 10 ^ prec rt * 10 ^ prec rt / 10 ^ prec lt"
      by (simp add: power_diff power_add [symmetric] mult_2)
    with True q show ?thesis unfolding assms(6,7) numeric_value_def by simp
  next
    case False
    then have "(10 ^ (prec lt - 2 * prec rt) :: real) = 10 ^ prec lt / (10 ^ prec rt * 10 ^ prec rt)"
      by (simp add: power_diff power_add [symmetric] mult_2)
    with False q show ?thesis unfolding assms(6,7) numeric_value_def by (simp add: ac_simps)
  qed
  have "(10 ^ (prec lt - prec rt) / 10 ^ prec ?t :: real) = 1 / 10 ^ prec rt"
    by (cases "prec lt \<le> prec rt") (simp_all add: T(3) power_diff max_def)
  then have "10 ^ (prec lt - prec rt) * numeric_value (GNumeric ?t (word_of_int (x sdiv y))) = of_int (x sdiv y) / 10 ^ prec rt"
    unfolding numeric_value_def GValue.case sint_word [OF assms(10)] by (metis times_divide_eq_left times_divide_eq_right mult_1_right mult.commute)
  moreover have "\<bar>of_int (x sdiv y) / 10 ^ prec rt - of_int x / of_int y / 10 ^ prec rt\<bar> < (1 :: real) / 10 ^ prec rt"
    using sdiv_truncates [OF y0, of x] by (rule scale_difference) simp
  ultimately show ?thesis using run T(3) ratio by (intro exI conjI) (assumption, simp, simp)
qed


text \<open>The cast of a decimal to an integer divides by one.\<close>

lemma cast_keeps_scale:
  assumes "is_numeric t" "mc_status s = Running"
  shows "sqlCast (GNumeric t raw) (getIntegerTy False) s = Inr (GInteger (ucast raw), s)"
proof -
  have "sint (1 :: u64) = 1" by simp
  moreover have "sint raw sdiv 1 = sint raw" by (simp add: signed_divide_int_def sgn_mult_abs)
  ultimately have "CreateSDiv raw 1 s = Inr (raw, s)" using assms(2) by (simp add: CreateSDiv_def gen_run)
  moreover have "numericShift (unat (numericLayout_precision (getIntegerTy False))) s = Inr (1, s)"
    by (simp add: numericLayout_precision_def typeIDs numericShift_run yield_gen_def)
  ultimately show ?thesis using assms(1)
    by (simp add: sqlCast_def is_numeric_def nullHandler1_def isUnknown_gen_def isNullable_gen_def castNumeric_def
        toNotNullableTy_def typeIDs Let_def bind_gen_def yield_gen_def)
qed

section \<open>Comparisons\<close>

fun value_wf :: "GValue \<Rightarrow> bool" where
  \<comment> \<open>the type of a value is one its class has\<close>
  "value_wf (GNumeric t _) = (ty_typeID t = NumericID \<and> \<not> ty_nullable t)"
| "value_wf (GChar1 t _) = (ty_typeID t = CharID \<and> ty_length t = 1 \<and> \<not> ty_nullable t)"
| "value_wf (GString t _ _) = ((ty_typeID t = VarcharID \<or> ty_typeID t = CharID \<and> ty_length t \<noteq> 1) \<and> \<not> ty_nullable t)"
| "value_wf (GNullable v _) = (value_wf v \<and> \<not> isNullable_gen v \<and> v \<noteq> GUnknown)"
| "value_wf _ = True"

lemma getNull_bool: "NullableValue_getNull_gen (getBoolTy n) s = Inl (ThrownString ''invalid number format: invalid character in integer string'')"
proof -
  have "castStringToIntegerValue ''false'' = Inl (ThrownString ''invalid number format: invalid character in integer string'')" by code_simp
  then show ?thesis
    by (simp add: NullableValue_getNull_gen_def getBoolTy_def SqlType_ctor_def Integer_castString_gen_def bind_gen_def lift_gen_def)
qed

lemma inferCompareTy_same:
  "same_type_gen v w \<Longrightarrow> inferCompareTy (gv_type v) (gv_type w) = Some (getBoolTy (ty_nullable (gv_type v) \<or> ty_nullable (gv_type w)))"
  by (simp add: inferCompareTy_def same_type_gen_def)

definition null_boolean :: exn where
  \<comment> \<open>what creating a null boolean throws\<close>
  "null_boolean = ThrownString ''invalid number format: invalid character in integer string''"

text \<open>C32: the generator supports a comparison of two values of one type only if neither is nullable and they are not strings: a nullable
  operand makes it throw, because it casts the text \<^verbatim>\<open>false\<close> to an integer for the null result, and strings
  are not implemented; every other comparison is that of the signed numbers the values are.\<close>

theorem comparisons_supported:
  assumes "same_type_gen v w" "value_wf v" "value_wf w" "\<not> isUnknown_gen v" "\<not> isUnknown_gen w"
  shows "if isNullable_gen v \<or> isNullable_gen w
    then sqlCompare v w mode s = Inl null_boolean \<and> sqlEquals v w s = Inl null_boolean
    else if ty_typeID (gv_type v) \<in> {CharID, VarcharID, TextID} then \<exists>m. sqlCompare v w mode s = Inl (NotImplemented m)
    else \<exists>n x y. llvm_int v = Some (n, x) \<and> llvm_int w = Some (n, y) \<and> sqlCompare v w mode s = Inr (GBool (Value_icmp mode x y), s)"
proof (cases "isNullable_gen v \<or> isNullable_gen w")
  case True
  with assms show ?thesis
    by (auto simp: sqlCompare_def sqlEquals_def inferCompareTy_same with_result_type_def nullHandler2_def bind_gen_throws
        getNull_bool null_boolean_def)
next
  case False
  then have compare: "sqlCompare v w mode s = bind_gen (class_compare v w mode) (\<lambda>result. yield_gen (GBool result)) s"
    using assms by (simp add: sqlCompare_def inferCompareTy_same with_result_type_def nullHandler2_def Value_compare_gen_def
        isNullable_gen_def split: GValue.splits)
  show ?thesis
  proof (cases "ty_typeID (gv_type v) \<in> {CharID, VarcharID, TextID}")
    case True
    then have "\<exists>m. class_compare v w mode = throw_gen (NotImplemented m)"
      using False assms(2) by (cases v) (auto simp: class_compare_def typeIDs getLongIntegerTy_def isNullable_gen_def)
    with True False compare show ?thesis by (auto simp: gen_run)
  next
    case not_string: False
    then have "\<exists>n x y. llvm_int v = Some (n, x) \<and> llvm_int w = Some (n, y)"
      using False assms by (cases v; cases w)
        (auto simp: same_type_gen_def SqlType_equals_def typeIDs getLongIntegerTy_def isNullable_gen_def isUnknown_gen_def split: if_splits)
    moreover have "class_compare v w mode = Value_compare_base v w mode"
      using False not_string assms(2,4) by (cases v) (auto simp: class_compare_def typeIDs isNullable_gen_def isUnknown_gen_def)
    ultimately show ?thesis using False not_string by (auto simp: compare Value_compare_base_def gen_run)
  qed
qed

definition ex_numeric :: "u8 \<Rightarrow> int \<Rightarrow> GValue" where
  \<comment> \<open>a decimal of ten digits\<close>
  "ex_numeric precision raw = GNumeric (getNumericTy 10 precision False) (word_of_int raw)"

lemma ex_numeric_type:
  "is_numeric (getNumericTy 10 2 False)" "prec (getNumericTy 10 2 False) = 2"
  "is_numeric (getNumericTy 10 1 False)" "prec (getNumericTy 10 1 False) = 1"
  by code_simp+

lemma ex_sint: "sint (150 :: u64) = 150" "sint (5 :: u64) = 5" "sint (- 5 :: u64) = - 5"
  using sint_word [of 150] sint_word [of 5] sint_word [of "- 5"] by (simp_all add: in_range_def)

lemma comparisons_supported_witness:
  "(\<exists>m. sqlCompare (GText 5) (GText 6) eq (at_memory (\<lambda>_. 0)) = Inl (NotImplemented m))
    \<and> sqlCompare (GInteger 5) (GNullable (GInteger 6) False) less (at_memory (\<lambda>_. 0)) = Inl null_boolean"
  using comparisons_supported [of "GText 5" "GText 6" eq "at_memory (\<lambda>_. 0)"]
    comparisons_supported [of "GInteger 5" "GNullable (GInteger 6) False" less "at_memory (\<lambda>_. 0)"]
  by (simp add: same_type_gen_def SqlType_equals_def typeIDs isNullable_gen_def isUnknown_gen_def toNullableTy_def)

lemma ex_values:
  "ex_numeric 2 150 = GNumeric (getNumericTy 10 2 False) 150" "ex_numeric 1 (- 5) = GNumeric (getNumericTy 10 1 False) (- 5)"
  "ex_numeric 1 5 = GNumeric (getNumericTy 10 1 False) 5"
  "numeric_value (GNumeric (getNumericTy 10 2 False) 150) = 3 / 2" "numeric_value (GNumeric (getNumericTy 10 1 False) (- 5)) = - 1 / 2"
  "numeric_value (GNumeric (getNumericTy 10 1 False) 5) = 1 / 2" "mc_status (at_memory m) = Running"
  by (simp_all add: ex_numeric_def numeric_value_def ex_numeric_type ex_sint at_memory_def)

lemma numeric_sums_exact_witness:
  "\<exists>t raw. sqlAdd (ex_numeric 2 150) (ex_numeric 1 (- 5)) (at_memory (\<lambda>_. 0)) = Inr (GNumeric t raw, at_memory (\<lambda>_. 0))
    \<and> numeric_value (GNumeric t raw) = 1"
proof -
  have range: "in_range 150" "in_range (- 50)" "in_range (150 + 1 * - 50)" by (simp_all add: in_range_def)
  from numeric_sums_exact [OF ex_numeric_type(1,3), of "at_memory (\<lambda>_. 0)" sqlAdd 1 2 150 150 "- 50" "- 5"] range
  obtain t raw where "sqlAdd (ex_numeric 2 150) (ex_numeric 1 (- 5)) (at_memory (\<lambda>_. 0)) = Inr (GNumeric t raw, at_memory (\<lambda>_. 0))"
    "numeric_value (GNumeric t raw) = 3 / 2 + of_int 1 * (- 1 / 2)"
    unfolding ex_values by (auto simp: ex_numeric_type ex_sint ex_values(7))
  then show ?thesis by auto
qed

lemma numeric_division_misscaled_witness:
  "\<exists>t raw. sqlDiv (ex_numeric 2 150) (ex_numeric 1 5) (at_memory (\<lambda>_. 0)) = Inr (GNumeric t raw, at_memory (\<lambda>_. 0))
    \<and> \<bar>10 * numeric_value (GNumeric t raw) - 3\<bar> < 1 / 10"
proof -
  have range: "in_range 150" "in_range 5" "in_range (150 sdiv 5)" by (simp_all add: in_range_def)
  have prems: "(5 :: u64) \<noteq> 0" "2 * prec (getNumericTy 10 1 False) - prec (getNumericTy 10 2 False) \<le> 18"
    "150 = sint (150 :: u64) * 10 ^ (2 * prec (getNumericTy 10 1 False) - prec (getNumericTy 10 2 False))"
    "5 = sint (5 :: u64) * 10 ^ (prec (getNumericTy 10 2 False) - 2 * prec (getNumericTy 10 1 False))"
    by (simp_all add: ex_numeric_type ex_sint)
  from numeric_division_misscaled [OF ex_numeric_type(1,3) ex_values(7) prems range]
  obtain t raw where "sqlDiv (ex_numeric 2 150) (ex_numeric 1 5) (at_memory (\<lambda>_. 0)) = Inr (GNumeric t raw, at_memory (\<lambda>_. 0))"
    "\<bar>10 ^ (2 - 1) * numeric_value (GNumeric t raw) - 3 / 2 / (1 / 2)\<bar> < 1 / 10 ^ 1"
    unfolding ex_values ex_numeric_type by blast
  then show ?thesis by auto
qed

end
