(* ===== verification/ExpressionEvaluation.thy ===== *)
theory ExpressionEvaluation
  imports PhysicalExpressions SqlOperatorProperties AlgebraProperties
begin

text \<open>
  What translated expressions compute: arithmetic on integers and decimals is exact or flagged, and
  comparisons decide as the numbers do.
\<close>

section \<open>Numbers\<close>

definition number_type :: "SqlType \<Rightarrow> bool" where
  \<comment> \<open>integers, and decimals of at most nine digits behind the point: an integer scaled by ten to the ninth fits into 64 bits\<close>
  "number_type t \<longleftrightarrow> t = getIntegerTy False
     \<or> (is_numeric t \<and> prec t \<le> 9 \<and> prec t \<le> unat (numericLayout_length t) \<and> unat (numericLayout_length t) \<le> 18)"

definition value_number :: "GValue \<Rightarrow> real" where
  "value_number v = (case v of GInteger i \<Rightarrow> of_int (sint i) | _ \<Rightarrow> numeric_value v)"

definition number_of_type :: "SqlType \<Rightarrow> GValue \<Rightarrow> bool" where
  "number_of_type t v = (case v of GInteger i \<Rightarrow> t = getIntegerTy False | GNumeric u raw \<Rightarrow> t = u \<and> is_numeric t | _ \<Rightarrow> False)"

definition fits :: "SqlType \<Rightarrow> real \<Rightarrow> bool" where
  \<comment> \<open>the number, times ten to the precision, fits into the word of the type\<close>
  "fits t x = (if ty_typeID t = IntegerID then - (2 ^ 31) \<le> x \<and> x < 2 ^ 31
               else - (2 ^ 63) \<le> x * 10 ^ prec t \<and> x * 10 ^ prec t < 2 ^ 63)"

definition computes :: "GValue gen \<Rightarrow> SqlType \<Rightarrow> real \<Rightarrow> bool \<Rightarrow> bool" where
  \<comment> \<open>the code yields the number and changes nothing, or it does not fit and the overflow flag is set\<close>
  "computes m t x ok \<longleftrightarrow> (\<forall>s. mc_status s = Running \<longrightarrow>
     (\<exists>v s'. m s = Inr (v, s') \<and> number_of_type t v \<and> mc_status s' = Running
        \<and> (if ok then s' = s \<and> value_number v = x else mc_overflow s') \<and> (mc_overflow s \<longrightarrow> mc_overflow s')))"

definition operator_computes :: "(GValue \<Rightarrow> GValue \<Rightarrow> GValue gen) \<Rightarrow> (real \<Rightarrow> real \<Rightarrow> real) \<Rightarrow>
    (real \<Rightarrow> real \<Rightarrow> bool) \<Rightarrow> SqlType \<Rightarrow> SqlType \<Rightarrow> SqlType \<Rightarrow> bool" where
  "operator_computes f g ok t1 t2 t \<longleftrightarrow> (\<forall>v w. number_of_type t1 v \<longrightarrow> number_of_type t2 w \<longrightarrow>
     computes (f v w) t (g (value_number v) (value_number w)) (ok (value_number v) (value_number w)))"

lemma computes_both:
  assumes "computes l t1 x okl" "computes r t2 y okr" "operator_computes f g ok t1 t2 t"
  shows "computes (evaluate_both l r t f) t (g x y) (okl \<and> okr \<and> ok x y)"
  unfolding computes_def
proof (intro allI impI)
  fix s :: machine assume s: "mc_status s = Running"
  from assms(1) s obtain v s1 where v: "l s = Inr (v, s1)" "number_of_type t1 v" "mc_status s1 = Running"
    "if okl then s1 = s \<and> value_number v = x else mc_overflow s1" "mc_overflow s \<longrightarrow> mc_overflow s1" unfolding computes_def by blast
  from assms(2) v(3) obtain w s2 where w: "r s1 = Inr (w, s2)" "number_of_type t2 w" "mc_status s2 = Running"
    "if okr then s2 = s1 \<and> value_number w = y else mc_overflow s2" "mc_overflow s1 \<longrightarrow> mc_overflow s2" unfolding computes_def by blast
  from assms(3) v(2) w(2,3) obtain u s3 where u: "f v w s2 = Inr (u, s3)" "number_of_type t u" "mc_status s3 = Running"
    "if ok (value_number v) (value_number w) then s3 = s2 \<and> value_number u = g (value_number v) (value_number w) else mc_overflow s3"
    "mc_overflow s2 \<longrightarrow> mc_overflow s3"
    unfolding operator_computes_def computes_def by blast
  have "SqlType_equals (gv_type u) t Full"
    using u(2) by (auto simp: number_of_type_def SqlType_equals_def split: GValue.splits)
  then have "evaluate_both l r t f s = Inr (u, s3)"
    using v(1) w(1) u(1) by (simp add: evaluate_both_def typed_result_def bind_gen_def yield_gen_def)
  moreover have "if okl \<and> okr \<and> ok x y then s3 = s \<and> value_number u = g x y else mc_overflow s3"
    using v(4,5) w(4,5) u(4,5) by (auto split: if_splits)
  moreover have "mc_overflow s \<longrightarrow> mc_overflow s3" using v(5) w(5) u(5) by auto
  ultimately show "\<exists>v s'. evaluate_both l r t f s = Inr (v, s') \<and> number_of_type t v \<and> mc_status s' = Running \<and>
      (if okl \<and> okr \<and> ok x y then s' = s \<and> value_number v = g x y else mc_overflow s') \<and> (mc_overflow s \<longrightarrow> mc_overflow s')"
    using u(2,3) by blast
qed

section \<open>Operators\<close>

lemma overflow_op_number:
  assumes "mc_status s = Running"
  shows "\<exists>s'. CreateOverflowBinOp f (x :: 'a::len word) y s = Inr (word_of_int (f (sint x) (sint y)), s') \<and> mc_status s' = Running
    \<and> (if sint (word_of_int (f (sint x) (sint y)) :: 'a word) = f (sint x) (sint y) then s' = s else mc_overflow s')"
  using assms by (simp add: CreateOverflowBinOp_def Let_def gen_run genOverflowException_def printed_def)

definition sum_fits :: "(real \<Rightarrow> real \<Rightarrow> real) \<Rightarrow> SqlType \<Rightarrow> real \<Rightarrow> real \<Rightarrow> bool" where
  \<comment> \<open>the operands are brought to the precision of the result first\<close>
  "sum_fits g t x y \<longleftrightarrow> fits t x \<and> fits t y \<and> fits t (g x y)"

definition product_fits :: "SqlType \<Rightarrow> real \<Rightarrow> real \<Rightarrow> bool" where
  "product_fits t x y \<longleftrightarrow> fits t (x * y)"

lemma of_int_range: "- (2 ^ n) \<le> (of_int e :: real) \<longleftrightarrow> - (2 ^ n) \<le> e" "(of_int e :: real) < 2 ^ n \<longleftrightarrow> e < 2 ^ n"
proof -
  have "(- (2 ^ n) :: real) = of_int (- (2 ^ n))" "(2 ^ n :: real) = of_int (2 ^ n)" by simp_all
  then show "- (2 ^ n) \<le> (of_int e :: real) \<longleftrightarrow> - (2 ^ n) \<le> e" "(of_int e :: real) < 2 ^ n \<longleftrightarrow> e < 2 ^ n"
    by (simp_all only: of_int_le_iff of_int_less_iff)
qed

lemma fits_integer: "fits (getIntegerTy False) (of_int e) \<longleftrightarrow> sint (word_of_int e :: u32) = e"
  using signed_take_bit_int_eq_self_iff [of 31 e] of_int_range [where n = 31 and e = e] by (simp add: fits_def typeIDs sint_sbintrunc')

lemma fits_numeric:
  assumes "is_numeric t" "x * 10 ^ prec t = of_int e"
  shows "fits t x \<longleftrightarrow> in_range e"
  using assms of_int_range [where n = 63 and e = e] by (simp add: fits_def in_range_def is_numeric_def)

definition int_op :: "(GValue \<Rightarrow> GValue \<Rightarrow> GValue gen) \<Rightarrow> (int \<Rightarrow> int \<Rightarrow> int) \<Rightarrow> bool" where
  "int_op f h \<longleftrightarrow> (f, h) \<in> {(sqlAdd, (+)), (sqlSub, (-)), (sqlMul, (*))}"

lemma int_op_run:
  assumes "int_op f h"
  shows "f (GInteger i) (GInteger j) = bind_gen (CreateOverflowBinOp h i j) (\<lambda>raw. yield_gen (GInteger raw))"
  using assms
  by (auto simp: int_op_def sqlAdd_def sqlSub_def sqlMul_def with_result_type_def inferSubTy_def inferAddTy_def inferMulTy_def
      numeric_or_integer_def typeIDs Let_def nullHandler2_def isUnknown_gen_def isNullable_gen_def)

lemma value_number_range:
  assumes "number_of_type (getIntegerTy False) v"
  shows "fits (getIntegerTy False) (value_number v)"
proof -
  from assms obtain i where "v = GInteger i" by (auto simp: number_of_type_def is_numeric_def typeIDs split: GValue.splits)
  then have "value_number v = of_int (sint i)" by (simp only: value_number_def GValue.case)
  then show ?thesis by (simp only: fits_integer) simp
qed

lemma integers_compute:
  assumes "int_op f h" "\<And>x y. of_int (h x y) = (g (of_int x) (of_int y) :: real)"
    and "\<And>x y. fits (getIntegerTy False) x \<Longrightarrow> fits (getIntegerTy False) y \<Longrightarrow> ok x y \<longleftrightarrow> fits (getIntegerTy False) (g x y)"
  shows "operator_computes f g ok (getIntegerTy False) (getIntegerTy False) (getIntegerTy False)"
  unfolding operator_computes_def computes_def
proof (intro allI impI)
  fix v w and s :: machine assume v: "number_of_type (getIntegerTy False) v" and w: "number_of_type (getIntegerTy False) w" and s: "mc_status s = Running"
  from v w obtain i j where ij: "v = GInteger i" "w = GInteger j"
    by (auto simp: number_of_type_def is_numeric_def typeIDs split: GValue.splits)
  have g: "g (value_number v) (value_number w) = of_int (h (sint i) (sint j))" by (simp only: ij value_number_def GValue.case assms(2))
  have ok: "ok (value_number v) (value_number w) \<longleftrightarrow> sint (word_of_int (h (sint i) (sint j)) :: u32) = h (sint i) (sint j)"
    using assms(3) [OF value_number_range [OF v] value_number_range [OF w]] by (simp only: g fits_integer)
  from overflow_op_number [OF s, of h i j] obtain s' where
    "CreateOverflowBinOp h i j s = Inr (word_of_int (h (sint i) (sint j)), s')" "mc_status s' = Running"
    "if sint (word_of_int (h (sint i) (sint j)) :: u32) = h (sint i) (sint j) then s' = s else mc_overflow s'" by blast
  then show "\<exists>u s'. f v w s = Inr (u, s') \<and> number_of_type (getIntegerTy False) u \<and> mc_status s' = Running \<and>
      (if ok (value_number v) (value_number w)
       then s' = s \<and> value_number u = g (value_number v) (value_number w) else mc_overflow s') \<and> (mc_overflow s \<longrightarrow> mc_overflow s')"
    unfolding ok by (auto simp: assms(2) [symmetric] ij int_op_run [OF assms(1)] bind_gen_def yield_gen_def number_of_type_def value_number_def simp del: of_int_sint)
qed

lemma scaled_value:
  assumes "is_numeric u" "k \<le> prec u"
  shows "fits u (of_int e / 10 ^ k) \<longleftrightarrow> in_range (e * 10 ^ (prec u - k))"
proof (rule fits_numeric [OF assms(1)])
  from assms(2) have "(10 ^ prec u :: real) = 10 ^ (prec u - k) * 10 ^ k" by (simp flip: power_add)
  then show "of_int e / 10 ^ k * 10 ^ prec u = (of_int (e * 10 ^ (prec u - k)) :: real)" by simp
qed

lemma sums_compute:
  assumes "is_numeric t1" "is_numeric t2" "(f, g) \<in> {(sqlAdd, (+)), (sqlSub, (-))}" "t = greater_precision t1 t2"
  shows "operator_computes f g (sum_fits g t) t1 t2 t"
  unfolding operator_computes_def computes_def
proof (intro allI impI)
  fix v w and s :: machine assume v: "number_of_type t1 v" and w: "number_of_type t2 w" and s: "mc_status s = Running"
  from assms(1,2) v w obtain l r where lr: "v = GNumeric t1 l" "w = GNumeric t2 r"
    by (auto simp: number_of_type_def is_numeric_def typeIDs split: GValue.splits)
  from assms(3) obtain \<sigma> where \<sigma>: "(f, \<sigma>) \<in> {(sqlAdd, 1), (sqlSub, - 1)}" "\<And>x y. g x y = x + of_int \<sigma> * y" by fastforce
  note T = inferAddTy_numeric(2,3) [OF assms(1,2), folded assms(4)]
  let ?x = "sint l * 10 ^ (prec t - prec t1)" and ?y = "sint r * 10 ^ (prec t - prec t2)"
  have "of_int (?x + \<sigma> * ?y) / (10 ^ prec t :: real) = of_int (sint l) / 10 ^ prec t1 + of_int \<sigma> * (of_int (sint r) / 10 ^ prec t2)"
    by (rule same_precision_value [OF T(2)])
  then have "fits t (g (numeric_value v) (numeric_value w)) \<longleftrightarrow> in_range (?x + \<sigma> * ?y)"
    using scaled_value [OF T(1), of "prec t" "?x + \<sigma> * ?y"] by (simp add: lr numeric_value_def \<sigma>(2) del: of_int_sint)
  moreover have "fits t (numeric_value v) \<longleftrightarrow> in_range ?x" "fits t (numeric_value w) \<longleftrightarrow> in_range ?y"
    using scaled_value [OF T(1), of "prec t1" "sint l"] scaled_value [OF T(1), of "prec t2" "sint r"] T(2)
    by (simp_all add: lr numeric_value_def)
  ultimately have ok: "sum_fits g t (numeric_value v) (numeric_value w) \<longleftrightarrow> in_range ?x \<and> in_range ?y \<and> in_range (?x + \<sigma> * ?y)"
    by (simp add: sum_fits_def)
  from numeric_sum_run [OF assms(1,2) s \<sigma>(1) T(2) refl refl, of l r] obtain raw s' where
    s': "f v w s = Inr (GNumeric t raw, s')" "mc_status s' = Running"
      "if sum_fits g t (numeric_value v) (numeric_value w) then s' = s \<and> numeric_value (GNumeric t raw) = g (numeric_value v) (numeric_value w)
       else mc_overflow s'"
    unfolding ok \<sigma>(2) unfolding lr assms(4) by blast
  then show "\<exists>u s'. f v w s = Inr (u, s') \<and> number_of_type t u \<and> mc_status s' = Running \<and>
      (if sum_fits g t (value_number v) (value_number w) then s' = s \<and> value_number u = g (value_number v) (value_number w) else mc_overflow s')
      \<and> (mc_overflow s \<longrightarrow> mc_overflow s')"
    using T(1) by (auto simp: lr number_of_type_def value_number_def split: if_splits)
qed

lemma numeric_layout:
  "numericLayout_length (getNumericTy len precision n) = min len 18"
  "numericLayout_precision (getNumericTy len precision n) = min precision (min len 18)"
proof -
  have split: "(ucast ((ucast a :: u32) OR push_bit 8 (ucast b)) :: u8) = a"
    "(ucast (drop_bit 8 ((ucast a :: u32) OR push_bit 8 (ucast b))) :: u8) = b" for a b :: u8
    by (rule bit_word_eqI; auto simp: bit_simps)+
  show "numericLayout_length (getNumericTy len precision n) = min len 18"
    "numericLayout_precision (getNumericTy len precision n) = min precision (min len 18)"
    by (simp_all add: numericLayout_length_def numericLayout_precision_def getNumericTy_def numeric_maxDigits_def Let_def SqlType_ctor_def split split(2) [simplified])
qed

lemma unat_min: "unat (min a b :: 'a::len word) = min (unat a) (unat b)"
  by (simp add: min_def word_le_nat_alt)

lemma inferMulTy_numeric:
  assumes "is_numeric t1" "is_numeric t2" "prec t1 \<le> unat (numericLayout_length t1)" "prec t2 \<le> unat (numericLayout_length t2)"
    and "unat (numericLayout_length t1) \<le> 18" "unat (numericLayout_length t2) \<le> 18" "prec t1 + prec t2 \<le> 18"
  shows "\<exists>t. inferMulTy t1 t2 = Some t \<and> toNotNullableTy t = t \<and> is_numeric t \<and> prec t = prec t1 + prec t2
    \<and> prec t \<le> unat (numericLayout_length t) \<and> unat (numericLayout_length t) \<le> 18"
proof -
  define l1 l2 p1 p2 where w: "l1 = numericLayout_length t1" "l2 = numericLayout_length t2"
    "p1 = numericLayout_precision t1" "p2 = numericLayout_precision t2"
  define len where "len = (if l1 > l2 then l1 + ((p1 + p2) - p1) else if l1 < l2 then l2 + ((p1 + p2) - p2) else l1 + l2)"
  have n: "unat p1 \<le> unat l1" "unat p2 \<le> unat l2" "unat l1 \<le> 18" "unat l2 \<le> 18" "unat p1 + unat p2 \<le> 18"
    using assms(3-7) by (simp_all add: prec_def w)
  have add: "unat (a + b) = unat a + unat b" if "unat a \<le> 18" "unat b \<le> 18" for a b :: u8
    using that by (simp add: unat_word_ariths(1))
  have len: "len = (if l1 > l2 then l1 + p2 else if l1 < l2 then l2 + p1 else l1 + l2)" by (simp add: len_def)
  have "unat len = (if l1 > l2 then unat l1 + unat p2 else if l1 < l2 then unat l2 + unat p1 else unat l1 + unat l2)"
    using n add [of l1 l1] by (simp add: len add)
  then have ge: "unat p1 + unat p2 \<le> unat len" using n by (simp add: word_less_nat_alt split: if_splits)
  let ?t = "getNumericTy len (p1 + p2) False"
  have T: "numericLayout_length ?t = min len 18" "numericLayout_precision ?t = min (p1 + p2) (min len 18)" by (rule numeric_layout)+
  have p: "prec ?t = unat p1 + unat p2" "unat (numericLayout_length ?t) \<le> 18" "prec ?t \<le> unat (numericLayout_length ?t)"
    using n ge by (simp_all add: prec_def T unat_min add)
  have "ty_typeID ?t = NumericID" "\<not> ty_nullable ?t"
    by (simp_all add: getNumericTy_def Let_def SqlType_ctor_def)
  then have "is_numeric ?t" "toNotNullableTy ?t = ?t" using p n by (simp_all add: is_numeric_def toNotNullableTy_def)
  moreover have "inferMulTy t1 t2 = Some ?t"
    using assms(1,2) \<open>\<not> ty_nullable ?t\<close>
    by (simp add: inferMulTy_def numeric_or_integer_def is_numeric_def Let_def w [symmetric] len_def [symmetric])
  ultimately show ?thesis using p by (simp add: prec_def w)
qed

lemma products_compute:
  assumes "is_numeric t1" "is_numeric t2" "inferMulTy t1 t2 = Some t" "toNotNullableTy t = t" "is_numeric t" "prec t = prec t1 + prec t2"
  shows "operator_computes sqlMul (*) (product_fits t) t1 t2 t"
  unfolding operator_computes_def computes_def
proof (intro allI impI)
  fix v w and s :: machine assume v: "number_of_type t1 v" and w: "number_of_type t2 w" and s: "mc_status s = Running"
  from assms(1,2) v w obtain l r where lr: "v = GNumeric t1 l" "w = GNumeric t2 r"
    by (auto simp: number_of_type_def is_numeric_def typeIDs split: GValue.splits)
  have "of_int (sint l * sint r) / 10 ^ prec t = numeric_value v * numeric_value w"
    by (simp add: lr numeric_value_def assms(6) power_add)
  then have ok: "product_fits t (numeric_value v) (numeric_value w) \<longleftrightarrow> in_range (sint l * sint r)"
    using scaled_value [OF assms(5), of "prec t" "sint l * sint r"] by (simp add: product_fits_def del: of_int_sint of_int_mult)
  from overflow_op_number [OF s, of "(*)" l r] obtain s' where
    s': "CreateOverflowBinOp (*) l r s = Inr (word_of_int (sint l * sint r), s')" "mc_status s' = Running"
    "if in_range (sint l * sint r) then s' = s else mc_overflow s'" unfolding sint_in_range by blast
  have "sqlMul v w = bind_gen (CreateOverflowBinOp (*) l r) (\<lambda>raw. yield_gen (GNumeric t raw))"
    using assms by (simp add: lr sqlMul_def with_result_type_def nullHandler2_def isUnknown_gen_def isNullable_gen_def is_numeric_def)
  moreover have "in_range (sint l * sint r) \<Longrightarrow> numeric_value (GNumeric t (word_of_int (sint l * sint r))) = numeric_value v * numeric_value w"
    using sint_word [of "sint l * sint r"] by (simp add: lr numeric_value_def assms(6) power_add del: of_int_sint)
  ultimately show "\<exists>u s'. sqlMul v w s = Inr (u, s') \<and> number_of_type t u \<and> mc_status s' = Running \<and>
      (if product_fits t (value_number v) (value_number w) then s' = s \<and> value_number u = value_number v * value_number w else mc_overflow s')
      \<and> (mc_overflow s \<longrightarrow> mc_overflow s')"
    using s' ok by (auto simp: lr bind_gen_def yield_gen_def number_of_type_def value_number_def assms(5) split: if_splits)
qed

lemma cast_computes:
  assumes "computes m (getIntegerTy False) x ok" "is_numeric t" "prec t \<le> 9"
  shows "computes (bind_gen m (\<lambda>v. sqlCast v t)) t x ok"
  unfolding computes_def
proof (intro allI impI)
  fix s :: machine assume "mc_status s = Running"
  with assms(1) obtain v s' where v: "m s = Inr (v, s')" "number_of_type (getIntegerTy False) v" "mc_status s' = Running"
    "if ok then s' = s \<and> value_number v = x else mc_overflow s'" "mc_overflow s \<longrightarrow> mc_overflow s'" unfolding computes_def by blast
  then obtain i where i: "v = GInteger i" by (auto simp: number_of_type_def is_numeric_def typeIDs split: GValue.splits)
  have "toNotNullableTy t = t" using assms(2) by (cases t) (simp add: is_numeric_def toNotNullableTy_def)
  then have "sqlCast (GInteger i) t s' = Inr (GNumeric t (scast i * 10 ^ prec t), s')"
    using assms(2) by (simp add: sqlCast_def is_numeric_def typeIDs nullHandler1_def isUnknown_gen_def
        isNullable_gen_def castInteger_def numericShift_run [of "prec t", unfolded prec_def] prec_def bind_gen_def yield_gen_def Let_def)
  moreover have "sint (scast i * 10 ^ prec t :: u64) = sint i * 10 ^ prec t"
  proof -
    have "\<bar>sint i\<bar> \<le> 2 ^ 31" using sint_lt [of i] sint_ge [of i] by simp
    moreover have "(10::int) ^ prec t \<le> 10 ^ 9" using assms(3) by (rule power_increasing) simp
    ultimately have "\<bar>sint i\<bar> * 10 ^ prec t \<le> 2 ^ 31 * 10 ^ 9" by (intro mult_mono) simp_all
    then have "\<bar>sint i * 10 ^ prec t\<bar> < 2 ^ 63" by (simp add: abs_mult)
    then have "in_range (sint i * 10 ^ prec t)" by (auto simp: in_range_def abs_less_iff)
    from sint_word [OF this] show ?thesis by simp
  qed
  ultimately show "\<exists>v s'. bind_gen m (\<lambda>v. sqlCast v t) s = Inr (v, s') \<and> number_of_type t v \<and> mc_status s' = Running \<and>
      (if ok then s' = s \<and> value_number v = x else mc_overflow s') \<and> (mc_overflow s \<longrightarrow> mc_overflow s')"
    using v assms(2) i by (auto simp: bind_gen_def number_of_type_def value_number_def numeric_value_def simp del: of_int_sint split: if_splits)
qed


section \<open>Expressions\<close>

text \<open>
  \<open>denotes ius vals e t x ok\<close>: the expression is built by the constructors from units, constants and the operators
  \<open>+\<close>, \<open>-\<close> and \<open>*\<close>, with the types of numbers, and stands for the number \<open>x\<close>; \<open>ok\<close> says that every
  result on the way fits.
\<close>

inductive denotes :: "InformationUnit list \<Rightarrow> iu_value_mapping \<Rightarrow> expression \<Rightarrow> SqlType \<Rightarrow> real \<Rightarrow> bool \<Rightarrow> bool"
  for ius vals where
  unit: "iu_getType ius iu = Inr t \<Longrightarrow> number_type t \<Longrightarrow> vals iu = Some v \<Longrightarrow> number_of_type t v \<Longrightarrow>
    denotes ius vals (Identifier iu) t (value_number v) True"
| integer: "castStringToIntegerValue str = Inr raw \<Longrightarrow>
    denotes ius vals (Constant str (getIntegerTy False)) (getIntegerTy False) (of_int (sint raw)) True"
| decimal: "is_numeric t \<Longrightarrow> number_type t \<Longrightarrow> castStringToNumericValue str (unat (numericLayout_length t)) (prec t) = Inr raw \<Longrightarrow>
    denotes ius vals (Constant str t) t (of_int (sint raw) / 10 ^ prec t) True"
| plus: "denotes ius vals l t1 x okl \<Longrightarrow> denotes ius vals r t2 y okr \<Longrightarrow> Addition_ctor ius l r = Inr e \<Longrightarrow>
    getType ius e = Inr t \<Longrightarrow> number_type t \<Longrightarrow> denotes ius vals e t (x + y) (okl \<and> okr \<and> sum_fits (+) t x y)"
| minus: "denotes ius vals l t1 x okl \<Longrightarrow> denotes ius vals r t2 y okr \<Longrightarrow> Subtraction_ctor ius l r = Inr e \<Longrightarrow>
    getType ius e = Inr t \<Longrightarrow> number_type t \<Longrightarrow> denotes ius vals e t (x - y) (okl \<and> okr \<and> sum_fits (-) t x y)"
| times: "denotes ius vals l t1 x okl \<Longrightarrow> denotes ius vals r t2 y okr \<Longrightarrow> Multiplication_ctor ius l r = Inr e \<Longrightarrow>
    getType ius e = Inr t \<Longrightarrow> number_type t \<Longrightarrow> denotes ius vals e t (x * y) (okl \<and> okr \<and> product_fits t x y)"

definition infers :: "(SqlType \<Rightarrow> SqlType \<Rightarrow> SqlType option) \<Rightarrow> bool" where
  "infers infer \<longleftrightarrow> infer (getIntegerTy False) (getIntegerTy False) = Some (getIntegerTy False)
     \<and> (\<forall>t. is_numeric t \<longrightarrow> infer (getIntegerTy False) t = Some t \<and> infer t (getIntegerTy False) = Some t)
     \<and> (\<forall>t1 t2. is_numeric t1 \<longrightarrow> is_numeric t2 \<longrightarrow> (\<exists>t. infer t1 t2 = Some t \<and> ty_typeID t = NumericID))"

lemma infers_all: "infers inferAddTy" "infers inferSubTy" "infers inferMulTy"
  by (auto simp: infers_def inferAddTy_def inferSubTy_def inferMulTy_def numeric_or_integer_def typeIDs is_numeric_def Let_def
      greater_precision_def getNumericTy_def)

lemma arithmetic_ctor_cases:
  assumes "infers infer" "arithmetic_ctor infer operator con ius l r = Inr e" "getType ius l = Inr t1" "getType ius r = Inr t2"
    and "t1 = getIntegerTy False \<or> is_numeric t1" "t2 = getIntegerTy False \<or> is_numeric t2"
  shows "t1 = getIntegerTy False \<and> t2 = getIntegerTy False \<and> e = con l r (getIntegerTy False)
    \<or> is_numeric t1 \<and> is_numeric t2 \<and> (\<exists>t. infer t1 t2 = Some t \<and> e = con l r t)
    \<or> t1 = getIntegerTy False \<and> is_numeric t2 \<and> (\<exists>t. infer t2 t2 = Some t \<and> e = con (Cast l t2) r t)
    \<or> is_numeric t1 \<and> t2 = getIntegerTy False \<and> (\<exists>t. infer t1 t1 = Some t \<and> e = con l (Cast r t1) t)"
proof -
  note run = assms(2) [unfolded arithmetic_ctor_def assms(3,4) bind_res_simps]
  have ids: "ty_typeID (getIntegerTy False) = IntegerID" "is_numeric t \<Longrightarrow> ty_typeID t = NumericID" for t
    by (simp_all add: typeIDs is_numeric_def)
  consider "t1 = getIntegerTy False" "t2 = getIntegerTy False" | "is_numeric t1" "is_numeric t2"
    | "t1 = getIntegerTy False" "is_numeric t2" | "is_numeric t1" "t2 = getIntegerTy False" using assms(5,6) by blast
  then show ?thesis
  proof cases
    case 1
    then show ?thesis using run assms(1) by (simp add: infers_def sameTypeID_def)
  next
    case 2
    then obtain t where t: "infer t1 t2 = Some t" "ty_typeID t = NumericID" using assms(1) unfolding infers_def by blast
    then show ?thesis using run 2 by (simp add: sameTypeID_def ids)
  next
    case 3
    then obtain t where t: "infer t2 t2 = Some t" using assms(1) unfolding infers_def by blast
    then show ?thesis using run 3 assms(1) by (simp add: infers_def sameTypeID_def ids Let_def)
  next
    case 4
    then obtain t where t: "infer t1 t1 = Some t" using assms(1) unfolding infers_def by blast
    then show ?thesis using run 4 assms(1) by (simp add: infers_def sameTypeID_def ids Let_def)
  qed
qed

definition translates :: "InformationUnit list \<Rightarrow> iu_value_mapping \<Rightarrow> expression \<Rightarrow> SqlType \<Rightarrow> real \<Rightarrow> bool \<Rightarrow> bool" where
  "translates ius vals e t x ok \<longleftrightarrow> getType ius e = Inr t \<and>
     (\<exists>p. (\<forall>s. translate_exp ius e s = Inr (p, s)) \<and> pe_getType p = t \<and> computes (evaluate p vals) t x ok)"

lemma translates_cast:
  assumes "translates ius vals e (getIntegerTy False) x ok" "is_numeric t" "prec t \<le> 9"
  shows "translates ius vals (Cast e t) t x ok"
proof -
  from assms(1) obtain p where "\<forall>s. translate_exp ius e s = Inr (p, s)" "computes (evaluate p vals) (getIntegerTy False) x ok"
    unfolding translates_def by blast
  with cast_computes [OF this(2) assms(2,3)] show ?thesis
    unfolding translates_def by (auto simp: bind_gen_def yield_gen_def intro!: exI [of _ "PCast p t"])
qed

lemma translates_operator:
  assumes "translates ius vals l t1 x okl" "translates ius vals r t2 y okr" "operator_computes f g ok t1 t2 t"
    and "ty_typeID t = ty_typeID t1" "ty_typeID t = ty_typeID t2"
    and "(con, pcon, f) \<in> {(Addition, PAddition, sqlAdd), (Subtraction, PSubtraction, sqlSub), (Multiplication, PMultiplication, sqlMul)}"
  shows "translates ius vals (con l r t) t (g x y) (okl \<and> okr \<and> ok x y)"
proof -
  from assms(1) obtain p where p: "\<forall>s. translate_exp ius l s = Inr (p, s)" "pe_getType p = t1" "computes (evaluate p vals) t1 x okl"
    unfolding translates_def by blast
  from assms(2) obtain q where q: "\<forall>s. translate_exp ius r s = Inr (q, s)" "pe_getType q = t2" "computes (evaluate q vals) t2 y okr"
    unfolding translates_def by blast
  from computes_both [OF p(3) q(3) assms(3)] have "computes (evaluate (pcon t p q) vals) t (g x y) (okl \<and> okr \<and> ok x y)"
    using assms(6) by auto
  moreover have "translate_exp ius (con l r t) s = Inr (pcon t p q, s)" for s
    using assms(4-6) p q by (auto simp: bind_gen_def PAddition_ctor_def PSubtraction_ctor_def PMultiplication_ctor_def
        checked_operands_def yield_gen_def)
  moreover have "getType ius (con l r t) = Inr t" "pe_getType (pcon t p q) = t" using assms(6) by auto
  ultimately show ?thesis unfolding translates_def by blast
qed

definition sound_operator :: "(SqlType \<Rightarrow> SqlType \<Rightarrow> SqlType option) \<Rightarrow> (GValue \<Rightarrow> GValue \<Rightarrow> GValue gen) \<Rightarrow> (real \<Rightarrow> real \<Rightarrow> real) \<Rightarrow>
    (SqlType \<Rightarrow> real \<Rightarrow> real \<Rightarrow> bool) \<Rightarrow> bool" where
  "sound_operator infer f g ok \<longleftrightarrow> infers infer
     \<and> operator_computes f g (ok (getIntegerTy False)) (getIntegerTy False) (getIntegerTy False) (getIntegerTy False)
     \<and> (\<forall>a b t. is_numeric a \<longrightarrow> is_numeric b \<longrightarrow> number_type a \<longrightarrow> number_type b \<longrightarrow> infer a b = Some t \<longrightarrow> operator_computes f g (ok t) a b t)"

lemma sound_operators:
  "sound_operator inferAddTy sqlAdd (+) (sum_fits (+))" "sound_operator inferSubTy sqlSub (-) (sum_fits (-))" "sound_operator inferMulTy sqlMul (*) product_fits"
proof -
  have int: "\<not> is_numeric (getIntegerTy False)" by (simp add: is_numeric_def typeIDs)
  show "sound_operator inferAddTy sqlAdd (+) (sum_fits (+))" "sound_operator inferSubTy sqlSub (-) (sum_fits (-))"
    using integers_compute [of sqlAdd "(+)" "(+)" "sum_fits (+) (getIntegerTy False)"]
      integers_compute [of sqlSub "(-)" "(-)" "sum_fits (-) (getIntegerTy False)"] sums_compute inferAddTy_numeric(1)
    by (auto simp: sound_operator_def infers_all int_op_def inferSubTy_def sum_fits_def)
  have "operator_computes sqlMul (*) (product_fits t) a b t"
    if "is_numeric a" "is_numeric b" "number_type a" "number_type b" "inferMulTy a b = Some t" for a b t
  proof -
    from that int have n: "prec a \<le> 9" "prec b \<le> 9" "prec a \<le> unat (numericLayout_length a)" "prec b \<le> unat (numericLayout_length b)"
      "unat (numericLayout_length a) \<le> 18" "unat (numericLayout_length b) \<le> 18" by (auto simp: number_type_def)
    from inferMulTy_numeric [OF that(1,2) n(3-6)] n(1,2) that(5) products_compute [OF that(1,2,5)] show ?thesis by auto
  qed
  then show "sound_operator inferMulTy sqlMul (*) product_fits"
    using integers_compute [of sqlMul "(*)" "(*)" "product_fits (getIntegerTy False)"]
    by (auto simp: sound_operator_def infers_all int_op_def product_fits_def)
qed

lemma translates_constructor:
  assumes "translates ius vals l t1 x okl" "translates ius vals r t2 y okr" "number_type t1" "number_type t2"
    and "arithmetic_ctor infer operator con ius l r = Inr e" "getType ius e = Inr t" "sound_operator infer f g ok"
    and ops: "(con, pcon, f) \<in> {(Addition, PAddition, sqlAdd), (Subtraction, PSubtraction, sqlSub), (Multiplication, PMultiplication, sqlMul)}"
  shows "translates ius vals e t (g x y) (okl \<and> okr \<and> ok t x y)"
proof -
  have types: "t1 = getIntegerTy False \<or> is_numeric t1" "t2 = getIntegerTy False \<or> is_numeric t2"
    and small: "is_numeric t1 \<Longrightarrow> prec t1 \<le> 9" "is_numeric t2 \<Longrightarrow> prec t2 \<le> 9"
    using assms(3,4) by (auto simp: number_type_def is_numeric_def typeIDs)
  have ids: "ty_typeID (getIntegerTy False) = IntegerID" "is_numeric u \<Longrightarrow> ty_typeID u = NumericID" for u
    by (simp_all add: typeIDs is_numeric_def)
  from assms(7) have inf: "infers infer" and int: "operator_computes f g (ok (getIntegerTy False)) (getIntegerTy False) (getIntegerTy False) (getIntegerTy False)"
    and num: "\<And>a b u. is_numeric a \<Longrightarrow> is_numeric b \<Longrightarrow> number_type a \<Longrightarrow> number_type b \<Longrightarrow> infer a b = Some u \<Longrightarrow>
      operator_computes f g (ok u) a b u \<and> ty_typeID u = NumericID"
    unfolding sound_operator_def infers_def by (blast, blast, metis option.inject)
  from assms(1,2) have gets: "getType ius l = Inr t1" "getType ius r = Inr t2" by (simp_all add: translates_def)
  have typed: "getType ius (con a b u) = Inr u" for a b u using ops by auto
  note translate = translates_operator [OF _ _ _ _ _ ops]
  from arithmetic_ctor_cases [OF inf assms(5) gets types] consider
      (ints) "t1 = getIntegerTy False" "t2 = getIntegerTy False" "e = con l r (getIntegerTy False)"
    | (nums) u where "is_numeric t1" "is_numeric t2" "infer t1 t2 = Some u" "e = con l r u"
    | (left) u where "t1 = getIntegerTy False" "is_numeric t2" "infer t2 t2 = Some u" "e = con (Cast l t2) r u"
    | (right) u where "is_numeric t1" "t2 = getIntegerTy False" "infer t1 t1 = Some u" "e = con l (Cast r t1) u" by blast
  then show ?thesis
  proof cases
    case ints
    then show ?thesis using translate [of ius vals l t1 x okl r t2 y okr g "ok (getIntegerTy False)"] assms(1,2,6) int typed by simp
  next
    case (nums u)
    then show ?thesis
      using translate [OF assms(1,2), of g "ok u" u] num [of t1 t2 u] assms(3,4,6) typed by (simp add: ids)
  next
    case (left u)
    with translates_cast [of ius vals l x okl t2] assms(1) small have "translates ius vals (Cast l t2) t2 x okl" by simp
    from translate [OF this assms(2), of g "ok u" u] left num [of t2 t2 u] assms(4,6) typed show ?thesis by (simp add: ids)
  next
    case (right u)
    with translates_cast [of ius vals r y okr t1] assms(2) small have "translates ius vals (Cast r t1) t1 y okr" by simp
    from translate [OF assms(1) this, of g "ok u" u] right num [of t1 t1 u] assms(3,6) typed show ?thesis by (simp add: ids)
  qed
qed

lemma computes_value:
  assumes "number_of_type t v" "\<And>s. m s = Inr (v, s)"
  shows "computes m t (value_number v) True"
  using assms by (simp add: computes_def)

lemma denotes_translates: "denotes ius vals e t x ok \<Longrightarrow> number_type t \<and> translates ius vals e t x ok"
proof (induction rule: denotes.induct)
  case (unit iu t v)
  have "computes (evaluate (PIdentifier iu t) vals) t (value_number v) True"
    using unit by (intro computes_value) (simp_all add: yield_gen_def)
  with unit show ?case
    by (auto simp: translates_def bind_gen_def lift_gen_def yield_gen_def intro!: exI [of _ "PIdentifier iu t"])
next
  case (integer str raw)
  have "computes (evaluate (PConstant (GInteger raw)) vals) (getIntegerTy False) (value_number (GInteger raw)) True"
    by (intro computes_value) (simp_all add: number_of_type_def yield_gen_def)
  with integer show ?case
    by (auto simp: translates_def bind_gen_def lift_gen_def yield_gen_def Value_castString_gen_def Integer_castString_gen_def typeIDs
        number_type_def value_number_def intro!: exI [of _ "PConstant (GInteger raw)"])
next
  case (decimal t str raw)
  have "computes (evaluate (PConstant (GNumeric t raw)) vals) t (value_number (GNumeric t raw)) True"
    using decimal by (intro computes_value) (simp_all add: number_of_type_def yield_gen_def)
  with decimal show ?case
    by (auto simp: translates_def bind_gen_def lift_gen_def yield_gen_def Value_castString_gen_def Numeric_castString_gen_def
        is_numeric_def prec_def value_number_def numeric_value_def intro!: exI [of _ "PConstant (GNumeric t raw)"])
next
  case (plus l t1 x okl r t2 y okr e t)
  then show ?case
    using translates_constructor [OF _ _ _ _ _ _ sound_operators(1), of ius vals l t1 x okl r t2 y okr "''+''" Addition e t PAddition]
    by (simp add: Addition_ctor_def)
next
  case (minus l t1 x okl r t2 y okr e t)
  then show ?case
    using translates_constructor [OF _ _ _ _ _ _ sound_operators(2), of ius vals l t1 x okl r t2 y okr "''-''" Subtraction e t PSubtraction]
    by (simp add: Subtraction_ctor_def)
next
  case (times l t1 x okl r t2 y okr e t)
  then show ?case
    using translates_constructor [OF _ _ _ _ _ _ sound_operators(3), of ius vals l t1 x okl r t2 y okr "''*''" Multiplication e t PMultiplication]
    by (simp add: Multiplication_ctor_def)
qed

section \<open>Conditions\<close>

definition mode_holds :: "ComparisonMode \<Rightarrow> real \<Rightarrow> real \<Rightarrow> bool" where
  "mode_holds mode x y = (case mode of less \<Rightarrow> x < y | leq \<Rightarrow> x \<le> y | eq \<Rightarrow> x = y | geq \<Rightarrow> x \<ge> y | gtr \<Rightarrow> x > y)"

lemma sqlCompare_numbers:
  assumes "number_of_type t v" "number_of_type t w"
  shows "sqlCompare v w mode s = Inr (GBool (mode_holds mode (value_number v) (value_number w)), s)"
proof -
  have scaled: "mode_holds mode (of_int a / 10 ^ k) (of_int b / 10 ^ k) = Value_icmp mode a b" for a b k
    by (cases mode) (simp_all add: mode_holds_def Value_icmp_def divide_less_cancel divide_le_cancel)
  from assms consider i j where "v = GInteger i" "w = GInteger j" "t = getIntegerTy False"
    | a b where "v = GNumeric t a" "w = GNumeric t b" "is_numeric t"
    by (auto simp: number_of_type_def is_numeric_def typeIDs split: GValue.splits)
  then show ?thesis
  proof cases
    case (1 i j)
    then have "sqlCompare v w mode s = Inr (GBool (Value_icmp mode (sint i) (sint j)), s)"
      by (simp add: sqlCompare_def same_type_gen_def SqlType_equals_def typeIDs with_result_type_def inferCompareTy_def nullHandler2_def
          isUnknown_gen_def isNullable_gen_def Value_compare_gen_def class_compare_def Value_compare_base_def bind_gen_def yield_gen_def)
    with scaled [of "sint i" 0 "sint j"] 1 show ?thesis by (simp add: value_number_def)
  next
    case (2 a b)
    then have "sqlCompare v w mode s = Inr (GBool (Value_icmp mode (sint a) (sint b)), s)"
      by (simp add: sqlCompare_def same_type_gen_def SqlType_equals_def is_numeric_def with_result_type_def inferCompareTy_def nullHandler2_def
          isUnknown_gen_def isNullable_gen_def Value_compare_gen_def class_compare_def Value_compare_base_def bind_gen_def yield_gen_def)
    with scaled [of "sint a" "prec t" "sint b"] 2 show ?thesis by (simp add: value_number_def numeric_value_def)
  qed
qed

text \<open>C33: a condition compares numbers: if both sides are built from integers, decimals and constants with
  sums, differences and products (no quotients), every type on the way having a precision of at most nine, and stand
  for the numbers \<open>x\<close> and \<open>y\<close>, then the comparison is translated once and its code, run on the
  fields of a tuple, changes nothing and decides whether the numbers compare that way if every result on the way fits
  into its type, and sets the overflow flag if one does not. (With a greater precision the cast of an integer can wrap
  without the flag: \<open>castInteger\<close> multiplies unchecked.)\<close>

theorem conditions_decide:
  assumes "denotes ius vals l t x okl" "denotes ius vals r t y okr" "Comparison_ctor mode ius l r = Inr c" "mc_status s = Running"
  shows "\<exists>p b s'. (\<forall>s. translate_exp ius c s = Inr (p, s)) \<and> evaluate p vals s = Inr (GBool b, s') \<and> mc_status s' = Running
    \<and> (if okl \<and> okr then s' = s \<and> b = mode_holds mode x y else mc_overflow s')"
proof -
  from denotes_translates [OF assms(1)] obtain p where p: "getType ius l = Inr t" "\<forall>s. translate_exp ius l s = Inr (p, s)"
    "computes (evaluate p vals) t x okl" "number_type t" unfolding translates_def by blast
  from denotes_translates [OF assms(2)] obtain q where q: "getType ius r = Inr t" "\<forall>s. translate_exp ius r s = Inr (q, s)"
    "computes (evaluate q vals) t y okr" unfolding translates_def by blast
  from p(4) have t: "\<not> ty_nullable t" by (auto simp: number_type_def is_numeric_def typeIDs)
  with assms(3) p(1) q(1) have c: "c = Comparison mode l r (getBoolTy False)"
    by (auto simp: Comparison_ctor_def inferCompareTy_def split: if_splits)
  from p(3) assms(4) obtain v s1 where v: "evaluate p vals s = Inr (v, s1)" "number_of_type t v" "mc_status s1 = Running"
    "if okl then s1 = s \<and> value_number v = x else mc_overflow s1" unfolding computes_def by blast
  from q(3) v(3) obtain w s2 where w: "evaluate q vals s1 = Inr (w, s2)" "number_of_type t w" "mc_status s2 = Running"
    "if okr then s2 = s1 \<and> value_number w = y else mc_overflow s2" "mc_overflow s1 \<longrightarrow> mc_overflow s2" unfolding computes_def by blast
  let ?b = "mode_holds mode (value_number v) (value_number w)" and ?p = "PComparison (getBoolTy False) mode p q"
  have "evaluate ?p vals s = Inr (GBool ?b, s2)"
    using v(1) w(1) sqlCompare_numbers [OF v(2) w(2)]
    by (simp add: evaluate_both_def typed_result_def bind_gen_def yield_gen_def SqlType_equals_def typeIDs)
  moreover have "translate_exp ius c s = Inr (?p, s)" for s
    using p(2) q(2) by (simp add: c bind_gen_def yield_gen_def)
  moreover have "if okl \<and> okr then s2 = s \<and> ?b = mode_holds mode x y else mc_overflow s2" using v(4) w(4,5) by (auto split: if_splits)
  ultimately show ?thesis using w(3) by blast
qed

lemma conditions_decide_witness:
  "\<exists>c p. Comparison_ctor less [] (Constant ''2'' (getIntegerTy False)) (Constant ''7'' (getIntegerTy False)) = Inr c
    \<and> translate_exp [] c (ex_machine []) = Inr (p, ex_machine []) \<and> evaluate p Map.empty (ex_machine []) = Inr (GBool True, ex_machine [])"
proof -
  have casts: "castStringToIntegerValue ''2'' = Inr 2" "castStringToIntegerValue ''7'' = Inr 7" by code_simp+
  obtain c where c: "Comparison_ctor less [] (Constant ''2'' (getIntegerTy False)) (Constant ''7'' (getIntegerTy False)) = Inr c"
    by (simp add: Comparison_ctor_def inferCompareTy_def SqlType_equals_def)
  have run: "mc_status (ex_machine []) = Running" by (simp add: ex_machine_def)
  from conditions_decide [OF denotes.integer [OF casts(1)] denotes.integer [OF casts(2)] c run, of Map.empty]
  show ?thesis using c by (auto simp: mode_holds_def)
qed

end
