(* ===== verification/HashTables.thy ===== *)
theory HashTables
  imports NativeValueProperties
begin

unbundle bit_operations_syntax

text \<open>
  The memory pool and the two hash tables of the join and the grouping, foundations/MemoryPool.cpp,
  StaticHashtable.cpp and Hashtable.cpp. A node lies in the memory: the pointer to the next node, the
  hash code, and behind them the bytes of the user. The array of a table belongs to the table alone and is
  a list of pointers; a null pointer is \<open>0\<close>.

  \<^verbatim>\<open>calloc\<close> takes the next addresses of the heap and does not fail. The bucket count of a table is a power
  of two that the code computes in double precision, which is exact for every length that fits into a memory.
\<close>

section \<open>Memory pool\<close>

record MemBlock =
  mb_startAddr :: u64
  mb_currentAddr :: u64
  mb_size :: u64

record MemoryPool =
  mp_nextBlockSize :: u64
  mp_blocks :: "MemBlock list"

definition initialBlockSize :: u64 where
  "initialBlockSize = 4092"

definition calloc :: "u64 \<Rightarrow> heap \<Rightarrow> u64 \<times> heap" where
  "calloc n h = (hp_brk h, h\<lparr>hp_mem := write_bytes (hp_mem h) (hp_brk h) (replicate (unat n) 0), hp_brk := hp_brk h + n\<rparr>)"

definition createNewBlock :: "u64 \<Rightarrow> MemoryPool \<Rightarrow> heap \<Rightarrow> MemoryPool \<times> heap" where
  "createNewBlock minimum pool h =
     (let blockSize = max (mp_nextBlockSize pool) minimum;
          (mem, h') = calloc blockSize h
      in (pool\<lparr>mp_blocks := mp_blocks pool @ [\<lparr>mb_startAddr = mem, mb_currentAddr = mem, mb_size = blockSize\<rparr>],
               mp_nextBlockSize := push_bit 1 (mp_nextBlockSize pool)\<rparr>, h'))"

definition MemoryPool_ctor :: "u64 \<Rightarrow> heap \<Rightarrow> MemoryPool \<times> heap" where
  "MemoryPool_ctor sizeHint h =
     (let (pool, h') = createNewBlock 0 \<lparr>mp_nextBlockSize = 0, mp_blocks = []\<rparr> h
      in (pool\<lparr>mp_nextBlockSize := sizeHint\<rparr>, h'))"

definition MemoryPool_malloc :: "u64 \<Rightarrow> MemoryPool \<Rightarrow> heap \<Rightarrow> (u64 \<times> MemoryPool \<times> heap) result" where
  "MemoryPool_malloc sz pool h =
     (if sz = 0 then Inl AssertFailed
      else let currentBlock = last (mp_blocks pool);
               used = mb_currentAddr currentBlock - mb_startAddr currentBlock;
               remaining = mb_size currentBlock - used;
               (pool', h') = (if remaining < sz then createNewBlock sz pool h else (pool, h));
               currentBlock' = last (mp_blocks pool');
               addr = mb_currentAddr currentBlock'
           in Inr (addr, pool'\<lparr>mp_blocks := butlast (mp_blocks pool') @ [currentBlock'\<lparr>mb_currentAddr := addr + sz\<rparr>]\<rparr>, h'))"

definition memoryPoolCreate :: "heap \<Rightarrow> MemoryPool \<times> heap" where
  "memoryPoolCreate h = MemoryPool_ctor initialBlockSize h"

section \<open>Nodes\<close>

type_synonym node_ptr = u64

definition node_next :: "memory \<Rightarrow> node_ptr \<Rightarrow> node_ptr" where
  "node_next m p = word_of_bytes (read_bytes m p 8)"

definition node_hash :: "memory \<Rightarrow> node_ptr \<Rightarrow> hash_t" where
  "node_hash m p = word_of_bytes (read_bytes m (p + 8) 8)"

definition set_next :: "node_ptr \<Rightarrow> node_ptr \<Rightarrow> memory \<Rightarrow> memory" where
  "set_next p q m = write_bytes m p (bytes_of_word 8 q)"

definition set_hash :: "node_ptr \<Rightarrow> hash_t \<Rightarrow> memory \<Rightarrow> memory" where
  "set_hash p h m = write_bytes m (p + 8) (bytes_of_word 8 h)"

partial_function (option) find_hash :: "memory \<Rightarrow> hash_t \<Rightarrow> node_ptr \<Rightarrow> node_ptr option" where
  \<comment> \<open>the loop of the two \<^verbatim>\<open>lookup\<close>s and of \<^verbatim>\<open>StaticHashtable::next\<close>\<close>
  "find_hash m h node =
     (if node = 0 then Some 0
      else if node_hash m node = h then Some node
      else find_hash m h (node_next m node))"

section \<open>The table of the hash join\<close>

record StaticHashtable =
  st_table :: "node_ptr list"
  st_tableSize :: u64
  st_moduloMask :: u64

definition bucket_count :: "nat \<Rightarrow> nat" where
  \<comment> \<open>\<^verbatim>\<open>2^ceil(log2(len / 0.75))\<close>; the quotient is at least its integer part rounded up\<close>
  "bucket_count len = 2 ^ ceil_log2 ((4 * len + 2) div 3)"

definition StaticHashtable_hash :: "StaticHashtable \<Rightarrow> hash_t \<Rightarrow> nat" where
  "StaticHashtable_hash t h = unat (h AND st_moduloMask t)"

partial_function (option) build_loop :: "StaticHashtable \<Rightarrow> node_ptr \<Rightarrow> memory \<Rightarrow> (StaticHashtable \<times> memory) option" where
  "build_loop t current m =
     (if current = 0 then Some (t, m)
      else let i = StaticHashtable_hash t (node_hash m current);
               nextNode = node_next m current;
               m' = set_next current (st_table t ! i) m
           in build_loop (t\<lparr>st_table := (st_table t)[i := current]\<rparr>) nextNode m')"

definition StaticHashtable_ctor :: "node_ptr \<Rightarrow> u64 \<Rightarrow> memory \<Rightarrow> (StaticHashtable \<times> memory) option" where
  "StaticHashtable_ctor first len m =
     (let tableSize = of_nat (bucket_count (unat len))
      in build_loop \<lparr>st_table = replicate (unat tableSize) 0, st_tableSize = tableSize, st_moduloMask = tableSize - 1\<rparr> first m)"

definition StaticHashtable_lookup :: "StaticHashtable \<Rightarrow> hash_t \<Rightarrow> memory \<Rightarrow> node_ptr option" where
  "StaticHashtable_lookup t h m = find_hash m h (st_table t ! StaticHashtable_hash t h)"

definition StaticHashtable_next :: "hash_t \<Rightarrow> node_ptr \<Rightarrow> memory \<Rightarrow> node_ptr option" where
  "StaticHashtable_next h start m = find_hash m h start"

section \<open>The table of the grouping\<close>

record Hashtable =
  ht_table :: "node_ptr list"
  ht_tableSize :: u64
  ht_moduloMask :: u64
  ht_uniqueCount :: u64
  ht_uniqueCountThreshold :: u64
  ht_memoryPool :: MemoryPool

definition threshold :: "u64 \<Rightarrow> u64" where
  \<comment> \<open>\<^verbatim>\<open>static_cast<size_t>(0.75f * _tableSize)\<close>\<close>
  "threshold tableSize = of_nat (3 * unat tableSize div 4)"

definition Hashtable_ctor :: "nat \<Rightarrow> heap \<Rightarrow> Hashtable \<times> heap" where
  "Hashtable_ctor sizeHint h =
     (let tableSize = 2 ^ ceil_log2 sizeHint; (pool, h') = memoryPoolCreate h
      in (\<lparr>ht_table = replicate (unat tableSize) 0, ht_tableSize = tableSize, ht_moduloMask = tableSize - 1,
           ht_uniqueCount = 0, ht_uniqueCountThreshold = threshold tableSize, ht_memoryPool = pool\<rparr>, h'))"

definition defaultSize :: nat where
  "defaultSize = 16"

definition Hashtable_hash :: "Hashtable \<Rightarrow> hash_t \<Rightarrow> nat" where
  "Hashtable_hash t h = unat (h AND ht_moduloMask t)"

definition Hashtable_lookup :: "Hashtable \<Rightarrow> hash_t \<Rightarrow> memory \<Rightarrow> node_ptr option" where
  "Hashtable_lookup t h m = find_hash m h (ht_table t ! Hashtable_hash t h)"

definition first_from :: "Hashtable \<Rightarrow> nat \<Rightarrow> node_ptr" where
  \<comment> \<open>the loop over the buckets from the i-th on\<close>
  "first_from t i = (case find (\<lambda>node. node \<noteq> 0) (drop i (ht_table t)) of None \<Rightarrow> 0 | Some node \<Rightarrow> node)"

definition Hashtable_first :: "Hashtable \<Rightarrow> node_ptr" where
  "Hashtable_first t = first_from t 0"

definition Hashtable_next :: "node_ptr \<Rightarrow> Hashtable \<Rightarrow> memory \<Rightarrow> node_ptr" where
  "Hashtable_next current t m =
     (let nextNode = node_next m current
      in if nextNode \<noteq> 0 then nextNode else first_from t (Hashtable_hash t (node_hash m current) + 1))"

definition Hashtable_next_same :: "node_ptr \<Rightarrow> hash_t \<Rightarrow> memory \<Rightarrow> node_ptr result" where
  "Hashtable_next_same current h m =
     (if node_hash m current \<noteq> h then Inl AssertFailed
      else let nxt = node_next m current in Inr (if nxt \<noteq> 0 \<and> node_hash m nxt = h then nxt else 0))"

text \<open>Where a pointer to a node is stored: in the array or in a node.\<close>

datatype dest = Bucket nat | NextOf node_ptr

partial_function (option) insert_place :: "memory \<Rightarrow> hash_t \<Rightarrow> dest \<Rightarrow> node_ptr \<Rightarrow> (dest \<times> node_ptr) option" where
  "insert_place m nodeHash d current =
     (if current = 0 \<or> node_hash m current = nodeHash then Some (d, current)
      else insert_place m nodeHash (NextOf current) (node_next m current))"

definition store_dest :: "dest \<Rightarrow> node_ptr \<Rightarrow> Hashtable \<Rightarrow> memory \<Rightarrow> Hashtable \<times> memory" where
  "store_dest d node t m =
     (case d of Bucket i \<Rightarrow> (t\<lparr>ht_table := (ht_table t)[i := node]\<rparr>, m) | NextOf p \<Rightarrow> (t, set_next p node m))"

definition link_node :: "node_ptr \<Rightarrow> Hashtable \<Rightarrow> memory \<Rightarrow> (Hashtable \<times> memory) option" where
  \<comment> \<open>\<^verbatim>\<open>insert(Node *)\<close> up to the call of \<^verbatim>\<open>rehash\<close>\<close>
  "link_node node t m =
     (let nodeHash = node_hash m node;
          i = Hashtable_hash t nodeHash
      in case insert_place m nodeHash (Bucket i) (ht_table t ! i) of
           None \<Rightarrow> None
         | Some (d, current) \<Rightarrow>
             let uniqueCount = ht_uniqueCount t + 1 - (if current \<noteq> 0 then 1 else 0);
                 (t', m') = store_dest d node (t\<lparr>ht_uniqueCount := uniqueCount\<rparr>) m
             in Some (t', set_next node current m'))"

partial_function (option) reinsert_chain :: "(node_ptr \<Rightarrow> Hashtable \<Rightarrow> memory \<Rightarrow> (Hashtable \<times> memory) comp) \<Rightarrow>
    node_ptr \<Rightarrow> Hashtable \<Rightarrow> memory \<Rightarrow> (Hashtable \<times> memory) comp" where
  \<comment> \<open>the inner loop of \<^verbatim>\<open>rehash\<close> and the loop of \<^verbatim>\<open>build\<close>\<close>
  "reinsert_chain ins current t m =
     (if current = 0 then Some (Inr (t, m))
      else let next_node = node_next m current
           in case ins current t m of
                None \<Rightarrow> None
              | Some (Inl e) \<Rightarrow> Some (Inl e)
              | Some (Inr r) \<Rightarrow> reinsert_chain ins next_node (fst r) (snd r))"

fun reinsert_buckets :: "(node_ptr \<Rightarrow> Hashtable \<Rightarrow> memory \<Rightarrow> (Hashtable \<times> memory) comp) \<Rightarrow>
    node_ptr list \<Rightarrow> Hashtable \<Rightarrow> memory \<Rightarrow> (Hashtable \<times> memory) comp" where
  "reinsert_buckets ins [] t m = Some (Inr (t, m))"
| "reinsert_buckets ins (current # buckets) t m =
     bind_comp (reinsert_chain ins current t m) (\<lambda>(t', m'). reinsert_buckets ins buckets t' m')"

definition rehash_with :: "(node_ptr \<Rightarrow> Hashtable \<Rightarrow> memory \<Rightarrow> (Hashtable \<times> memory) comp) \<Rightarrow>
    Hashtable \<Rightarrow> memory \<Rightarrow> (Hashtable \<times> memory) comp" where
  "rehash_with ins t m =
     (let tableSize = push_bit 1 (ht_tableSize t)
      in reinsert_buckets ins (ht_table t)
           (t\<lparr>ht_tableSize := tableSize, ht_moduloMask := tableSize - 1, ht_uniqueCountThreshold := threshold tableSize,
              ht_table := replicate (unat tableSize) 0, ht_uniqueCount := 0\<rparr>) m)"

primrec insert_node :: "nat \<Rightarrow> node_ptr \<Rightarrow> Hashtable \<Rightarrow> memory \<Rightarrow> (Hashtable \<times> memory) comp" where
  \<comment> \<open>\<^verbatim>\<open>insert(Node *)\<close> and \<^verbatim>\<open>rehash\<close> call each other; the first argument bounds the depth\<close>
  "insert_node 0 node t m = None"
| "insert_node (Suc depth) node t m =
     (if node = 0 then Some (Inl AssertFailed)
      else case link_node node t m of
             None \<Rightarrow> None
           | Some (t', m') \<Rightarrow>
               if ht_uniqueCount t' \<ge> ht_uniqueCountThreshold t' then rehash_with (insert_node depth) t' m'
               else Some (Inr (t', m')))"

definition Hashtable_insert :: "nat \<Rightarrow> hash_t \<Rightarrow> u64 \<Rightarrow> Hashtable \<Rightarrow> heap \<Rightarrow> (node_ptr \<times> Hashtable \<times> heap) comp" where
  \<comment> \<open>a node takes sixteen bytes before those of the user\<close>
  "Hashtable_insert depth h sz t hp =
     bind_comp (Some (MemoryPool_malloc (16 + sz) (ht_memoryPool t) hp)) (\<lambda>(newNode, pool, hp').
       bind_comp (insert_node depth newNode (t\<lparr>ht_memoryPool := pool\<rparr>) (set_hash newNode h (hp_mem hp'))) (\<lambda>(t', m).
         Some (Inr (newNode, t', hp'\<lparr>hp_mem := m\<rparr>))))"

definition Hashtable_build :: "nat \<Rightarrow> node_ptr \<Rightarrow> Hashtable \<Rightarrow> memory \<Rightarrow> (Hashtable \<times> memory) comp" where
  "Hashtable_build depth first t m = reinsert_chain (insert_node depth) first t m"

definition Hashtable_ctor_list :: "nat \<Rightarrow> node_ptr \<Rightarrow> nat \<Rightarrow> heap \<Rightarrow> (Hashtable \<times> heap) comp" where
  "Hashtable_ctor_list depth first len h =
     (let tableSize = of_nat (bucket_count len);
          (pool, h') = memoryPoolCreate h;
          t = \<lparr>ht_table = replicate (unat tableSize) 0, ht_tableSize = tableSize, ht_moduloMask = tableSize - 1,
            ht_uniqueCount = 0, ht_uniqueCountThreshold = threshold tableSize, ht_memoryPool = pool\<rparr>
      in bind_comp (Hashtable_build depth first t (hp_mem h')) (\<lambda>(t', m). Some (Inr (t', h'\<lparr>hp_mem := m\<rparr>))))"

declare find_hash.simps [code] build_loop.simps [code] insert_place.simps [code] reinsert_chain.simps [code]

end
