(* ===== verification/EmittedOperators.thy ===== *)
theory EmittedOperators
  imports PhysicalExpressions HashTables TreeConstruction TableScan
begin

text \<open>
  What the operators of the physical algebra work on when their code runs: the machine of the generated
  values, the database and the execution context, the tuples handed to the callback, and the memory pools and
  hash tables the code has created. The offsets inside LLVM's structs and their sizes are parameters, the
  record \<open>data_layout\<close>.

  As for values, the code of a branch that is not taken is emitted, so what its emission throws is thrown, but
  it has no effect. What an operator remembers between the emission of two parts of its code is kept also from
  such a branch.
\<close>

section \<open>State\<close>

record data_layout =
  dl_indicator :: "SqlType \<Rightarrow> u64" \<comment> \<open>the null indicator in a nullable value\<close>
  dl_valueSize :: "SqlType \<Rightarrow> nat"
  dl_member :: "SqlType list \<Rightarrow> nat \<Rightarrow> u64" \<comment> \<open>a member of a \<^verbatim>\<open>SqlTuple\<close>\<close>
  dl_nodeTuple :: "SqlType list \<Rightarrow> u64" \<comment> \<open>the tuple in a \<^verbatim>\<open>ListNode\<close>\<close>
  dl_nodeSize :: "SqlType list \<Rightarrow> u64"
  dl_groupEntry :: "nat \<Rightarrow> u64" \<comment> \<open>an entry of a \<^verbatim>\<open>groupTy\<close>\<close>
  dl_groupSize :: u64
  dl_avgCount :: "SqlType \<Rightarrow> u64" \<comment> \<open>the counter in an \<^verbatim>\<open>avgEntryTy\<close>\<close>

record world =
  wo_machine :: machine
  wo_db :: "NValue Database"
  wo_ctx :: ExecutionContext
  wo_streamed :: "(memory \<times> NValue list) list" \<comment> \<open>the calls of \<^verbatim>\<open>callHandler\<close>: the memory and the tuple\<close>
  wo_pools :: "MemoryPool list"
  wo_joinTables :: "StaticHashtable list"
  wo_groupTables :: "Hashtable list"
  wo_storedTypes :: "SqlType list option list" \<comment> \<open>\<^verbatim>\<open>storedTypes\<close> and \<^verbatim>\<open>listNodeTy\<close> of the joins\<close>

type_synonym 'a exec = "world \<Rightarrow> ('a \<times> world) comp"

definition yield_exec :: "'a \<Rightarrow> 'a exec" where
  "yield_exec x w = Some (Inr (x, w))"

definition throw_exec :: "exn \<Rightarrow> 'a exec" where
  "throw_exec e w = Some (Inl e)"

definition bind_exec :: "'a exec \<Rightarrow> ('a \<Rightarrow> 'b exec) \<Rightarrow> 'b exec" where
  "bind_exec m f w = bind_comp (m w) (\<lambda>(x, w'). f x w')"

definition emit :: "'a gen \<Rightarrow> 'a exec" where
  "emit g w = bind_comp (Some (g (wo_machine w))) (\<lambda>(x, s). Some (Inr (x, w\<lparr>wo_machine := s\<rparr>)))"

definition running :: "world \<Rightarrow> bool" where
  "running w = (mc_status (wo_machine w) = Running)"

definition call_exec :: "(world \<Rightarrow> ('a \<times> world) comp) \<Rightarrow> 'a \<Rightarrow> 'a exec" where
  \<comment> \<open>a call made by the code when it runs; the second argument stands for its result where it does not\<close>
  "call_exec f x w = (if running w then f w else Some (Inr (x, w)))"

definition skip_exec :: "unit exec \<Rightarrow> unit exec" where
  \<comment> \<open>code that is emitted and not run\<close>
  "skip_exec body w =
     bind_comp (body (w\<lparr>wo_machine := (wo_machine w)\<lparr>mc_status := Skipped\<rparr>\<rparr>))
       (\<lambda>(_, w'). Some (Inr ((), w\<lparr>wo_storedTypes := wo_storedTypes w'\<rparr>)))"

definition exec_if :: "bool \<Rightarrow> unit exec \<Rightarrow> unit exec" where
  "exec_if c body w = (if c then body w else skip_exec body w)"

fun mapM_exec :: "('a \<Rightarrow> 'b exec) \<Rightarrow> 'a list \<Rightarrow> 'b list exec" where
  "mapM_exec f [] = yield_exec []"
| "mapM_exec f (x # xs) = bind_exec (f x) (\<lambda>y. bind_exec (mapM_exec f xs) (\<lambda>ys. yield_exec (y # ys)))"

fun mapM_gen :: "('a \<Rightarrow> 'b gen) \<Rightarrow> 'a list \<Rightarrow> 'b list gen" where
  "mapM_gen f [] = yield_gen []"
| "mapM_gen f (x # xs) = bind_gen (f x) (\<lambda>y. bind_gen (mapM_gen f xs) (\<lambda>ys. yield_gen (y # ys)))"

fun for_exec :: "('a \<Rightarrow> unit exec) \<Rightarrow> 'a list \<Rightarrow> unit exec" where
  "for_exec f [] = yield_exec ()"
| "for_exec f (x # xs) = bind_exec (f x) (\<lambda>_. for_exec f xs)"

definition value_at :: "iu_value_mapping \<Rightarrow> iu_p \<Rightarrow> GValue gen" where
  \<comment> \<open>\<^verbatim>\<open>values.at(iu)\<close>\<close>
  "value_at vals iu = (case vals iu of None \<Rightarrow> throw_gen (OutOfRange ''_Map_base::at'') | Some v \<Rightarrow> yield_gen v)"

section \<open>Tuples of generated values\<close>

text \<open>sql/SqlTuple.cpp\<close>

fun store_values_gen :: "data_layout \<Rightarrow> SqlType list \<Rightarrow> GValue list \<Rightarrow> nat \<Rightarrow> u64 \<Rightarrow> unit gen" where
  "store_values_gen dl types [] i ptr = yield_gen ()"
| "store_values_gen dl types (v # vs) i ptr =
     bind_gen (Value_store_gen (dl_indicator dl) v (ptr + dl_member dl types i)) (\<lambda>_.
       store_values_gen dl types vs (i + 1) ptr)"

definition SqlTuple_store_gen :: "data_layout \<Rightarrow> GValue list \<Rightarrow> u64 \<Rightarrow> unit gen" where
  "SqlTuple_store_gen dl vs ptr = store_values_gen dl (map gv_type vs) vs 0 ptr"

fun load_values_gen :: "data_layout \<Rightarrow> SqlType list \<Rightarrow> SqlType list \<Rightarrow> nat \<Rightarrow> u64 \<Rightarrow> GValue list gen" where
  "load_values_gen dl types [] i ptr = yield_gen []"
| "load_values_gen dl types (type # rest) i ptr =
     bind_gen (Value_load_gen (dl_indicator dl) (ptr + dl_member dl types i) type) (\<lambda>v.
       bind_gen (load_values_gen dl types rest (i + 1) ptr) (\<lambda>vs. yield_gen (v # vs)))"

definition SqlTuple_load_gen :: "data_layout \<Rightarrow> SqlType list \<Rightarrow> u64 \<Rightarrow> GValue list gen" where
  "SqlTuple_load_gen dl types ptr = load_values_gen dl types types 0 ptr"

definition genHashCombine :: "hash_t \<Rightarrow> hash_t \<Rightarrow> hash_t" where
  "genHashCombine h k =
     (let offset = 0xe6546b64; m = 0xc6a4a7935bd1e995;
          k = k * m; k = k XOR drop_bit 47 k; k = k * m;
          h = h XOR k; h = h * m
      in h + offset)"

fun combine_hashes :: "hash_t \<Rightarrow> GValue gen list \<Rightarrow> hash_t gen" where
  \<comment> \<open>the loop of \<^verbatim>\<open>SqlTuple::hash\<close>, of \<^verbatim>\<open>genJoinHash\<close> and of \<^verbatim>\<open>currentHash\<close>\<close>
  "combine_hashes seed [] = yield_gen seed"
| "combine_hashes seed (value # vs) =
     bind_gen value (\<lambda>v. bind_gen (Value_hash_gen v) (\<lambda>k. combine_hashes (genHashCombine seed k) vs))"

definition hash_all :: "GValue gen list \<Rightarrow> hash_t gen" where
  \<comment> \<open>the first hash is taken as it is\<close>
  "hash_all vs = (case vs of [] \<Rightarrow> yield_gen 0
     | value # rest \<Rightarrow> bind_gen value (\<lambda>v. bind_gen (Value_hash_gen v) (\<lambda>h. combine_hashes h rest)))"

definition SqlTuple_hash_gen :: "GValue list \<Rightarrow> hash_t gen" where
  "SqlTuple_hash_gen vs = (if vs = [] then throw_gen AssertFailed else hash_all (map yield_gen vs))"

section \<open>Printing\<close>

definition chars_until_zero :: "u8 list \<Rightarrow> string" where
  \<comment> \<open>\<^verbatim>\<open>%.*s\<close> stops at a zero byte\<close>
  "chars_until_zero bs = chars_of_bytes (takeWhile (\<lambda>b. b \<noteq> 0) bs)"

definition printText :: "memory \<Rightarrow> u64 \<Rightarrow> string" where
  \<comment> \<open>the precision of \<^verbatim>\<open>%.*s\<close> is an \<^verbatim>\<open>int\<close>\<close>
  "printText m raw =
     (let startPointer = word_of_bytes (read_bytes m raw 8) :: u64
      in if drop_bit (8 * 8 - 1) startPointer = 0
         then chars_until_zero (read_bytes m (raw + 1) (unat (m raw)))
         else let startPointer = startPointer XOR push_bit (8 * 8 - 1) 1;
                  endPointer = word_of_bytes (read_bytes m (raw + 8) 8);
                  len = ucast (endPointer - startPointer) :: u32
              in chars_until_zero (read_bytes m startPointer (unat len)))"

definition print_machine :: "(machine \<Rightarrow> string) \<Rightarrow> unit gen" where
  "print_machine f = effect (\<lambda>s. s\<lparr>mc_out := mc_out s @ f s\<rparr>)"

definition genPrintAvailableValue :: "GValue \<Rightarrow> unit exec" where
  \<comment> \<open>a boolean is passed to \<^verbatim>\<open>%d\<close> as one bit; \<^verbatim>\<open>printNumeric\<close> may not return\<close>
  "genPrintAvailableValue v =
     (case v of
        GUnknown \<Rightarrow> emit (printed ''null'')
      | GBool b \<Rightarrow> emit (printed (if b then ''1'' else ''0''))
      | GInteger i \<Rightarrow> emit (printed (show_int (sint i)))
      | GString t p len \<Rightarrow> emit (print_machine (\<lambda>s. chars_until_zero (read_bytes (hp_mem (mc_heap s)) p (unat len))))
      | GChar1 t c \<Rightarrow> emit (printed (chars_of_bytes [c]))
      | GNumeric t raw \<Rightarrow> call_exec (\<lambda>w.
          bind_comp (printNumeric (unat (numericLayout_length t)) (unat (numericLayout_precision t)) (sint raw))
            (\<lambda>out. emit (printed out) w)) ()
      | GDate d \<Rightarrow> emit (printed (printDate d))
      | GTimestamp x \<Rightarrow> emit (printed (printTimestamp x))
      | GLongInteger x \<Rightarrow> emit (printed (show_nat (unat x)))
      | GText p \<Rightarrow> emit (print_machine (\<lambda>s. printText (hp_mem (mc_heap s)) p))
      | GNullable _ _ \<Rightarrow> throw_exec Unreachable)"

definition genPrintValue :: "GValue \<Rightarrow> unit exec" where
  "genPrintValue v =
     (case v of
        GNullable u n \<Rightarrow> bind_exec (exec_if n (emit (printed ''null'')))
          (\<lambda>_. exec_if (\<not> n) (genPrintAvailableValue u))
      | _ \<Rightarrow> genPrintAvailableValue v)"

definition genPrintSqlTuple :: "GValue list \<Rightarrow> unit exec" where
  "genPrintSqlTuple vs =
     bind_exec (emit (printed ''('')) (\<lambda>_.
       bind_exec (for_exec (\<lambda>(i, v). bind_exec (if i = 0 then yield_exec () else emit (printed '', '')) (\<lambda>_. genPrintValue v))
           (enumerate 0 vs)) (\<lambda>_.
         emit (printed ('')'' @ [CHR 0x0A]))))"

definition genSelect :: "bool \<Rightarrow> GValue \<Rightarrow> GValue \<Rightarrow> GValue gen" where
  "genSelect cond trueValue falseValue =
     (if SqlType_equals (gv_type trueValue) (gv_type falseValue) Full
      then fromRawValues_gen (if cond then trueValue else falseValue) else throw_gen AssertFailed)"

section \<open>Native values from generated ones\<close>

text \<open>
  sql/ValueTranslator.cpp: a native value is created when the code is emitted, and the emitted code fills it. The
  result is what the filled value is, \<open>None\<close> for a null pointer. A nullable value writes its indicator behind
  the member it fills; a nullable varchar is taken for a \<^verbatim>\<open>Varchar\<close>, whose length it does not have.
\<close>

primrec sqlValueToNativeSqlValue :: "memory \<Rightarrow> GValue \<Rightarrow> NValue option result" where
  "sqlValueToNativeSqlValue m GUnknown = Inr None"
| "sqlValueToNativeSqlValue m (GBool b) = Inr (Some (NBool b))"
| "sqlValueToNativeSqlValue m (GInteger i) = Inr (Some (NInteger i))"
| "sqlValueToNativeSqlValue m (GLongInteger i) = Inr None"
| "sqlValueToNativeSqlValue m (GChar1 t c) = Inr None"
| "sqlValueToNativeSqlValue m (GString t p len) =
     Inr (if ty_typeID t = VarcharID then Some (NVarchar t p (ucast len)) else None)"
| "sqlValueToNativeSqlValue m (GNumeric t raw) = Inr (Some (NNumeric t raw))"
| "sqlValueToNativeSqlValue m (GDate d) = Inr (Some (NDate d))"
| "sqlValueToNativeSqlValue m (GTimestamp x) = Inr (Some (NTimestamp x))"
| "sqlValueToNativeSqlValue m (GText p) =
     Inr (Some (NText (word_of_bytes (read_bytes m p 8)) (word_of_bytes (read_bytes m (p + 8) 8))))"
| "sqlValueToNativeSqlValue m (GNullable v n) =
     (case v of GString t p len \<Rightarrow> if ty_typeID t = VarcharID then Inl MemFault else Inr None
      | _ \<Rightarrow> sqlValueToNativeSqlValue m v)"

end
