(* ===== verification/PhysicalOperators.thy ===== *)
theory PhysicalOperators
  imports EmittedOperators
begin

text \<open>
  The operators of the physical algebra, algebra/physical, but for the grouping. An operator emits its code in
  \<^verbatim>\<open>produce\<close> and, for the tuples of a child, in \<^verbatim>\<open>consume\<close>; a definition is what the emitted code
  does. The \<^verbatim>\<open>consume\<close> of the parent is the argument \<open>parent\<close>, from the values of a tuple.

  A loop of the emitted code that is not entered still has its body emitted. The pointers the code keeps to
  the table, its columns and its bitmap are those of the table in the database.
\<close>

section \<open>Table scan\<close>

definition with_table :: "string \<Rightarrow> (NValue Table \<Rightarrow> 'a exec) \<Rightarrow> 'a exec" where
  "with_table name f w = (case Database_getTable (wo_db w) name of None \<Rightarrow> Some (Inl MemFault) | Some t \<Rightarrow> f t w)"

definition cell_gen :: "data_layout \<Rightarrow> SqlType \<Rightarrow> NValue option \<Rightarrow> u64 gen" where
  \<comment> \<open>\<^verbatim>\<open>elemPtr\<close>: an address with the bytes of the element; a native value has written them\<close>
  "cell_gen dl type cell =
     bind_gen (alloca (dl_valueSize dl type)) (\<lambda>ptr.
       case cell of
         None \<Rightarrow> yield_gen ptr
       | Some v \<Rightarrow> (\<lambda>s. bind_res (Value_store v ptr (hp_mem (mc_heap s)))
           (\<lambda>m. Inr (ptr, s\<lparr>mc_heap := (mc_heap s)\<lparr>hp_mem := m\<rparr>\<rparr>))))"

definition field_value :: "data_layout \<Rightarrow> SqlType \<Rightarrow> NValue field \<Rightarrow> GValue gen" where
  "field_value dl type field =
     (case field of
        TidField tid \<Rightarrow> yield_gen (GLongInteger tid)
      | ValueField cell \<Rightarrow> bind_gen (cell_gen dl type cell) (\<lambda>elemPtr. Value_load_gen (dl_indicator dl) elemPtr type)
      | NullableField nullIndicator cell \<Rightarrow>
          bind_gen (cell_gen dl type cell) (\<lambda>elemPtr.
            bind_gen (Value_load_gen (dl_indicator dl) elemPtr (toNotNullableTy type)) (\<lambda>loadedValue.
              NullableValue_create_gen loadedValue nullIndicator)))"

definition scan_fields :: "string \<Rightarrow> TableScan \<Rightarrow> branch_id_t \<Rightarrow> nat \<Rightarrow> NValue field list exec" where
  \<comment> \<open>a row that is not visible is not read\<close>
  "scan_fields name scan branchId tid = with_table name (\<lambda>table w.
     if running w
     then (let (r, ctx') = TableScan_produce_tuple table scan branchId (of_nat tid) (wo_ctx w)
           in bind_comp r (\<lambda>fields. Some (Inr (fields, w\<lparr>wo_ctx := ctx'\<rparr>))))
     else bind_comp (Some (produce_fields table (of_nat tid) (\<lambda>_. Inr None) (ts_required scan) (ts_columns scan)))
            (\<lambda>fields. Some (Inr (fields, w))))"

definition isVisible :: "string \<Rightarrow> nat \<Rightarrow> branch_id_t \<Rightarrow> bool exec" where
  "isVisible name tid branchId = with_table name (\<lambda>table.
     call_exec (\<lambda>w. bind_comp (Some (isVisibleInBranch (tb_branchBitmap table) tid branchId)) (\<lambda>b. Some (Inr (b, w)))) False)"

definition scan_row :: "data_layout \<Rightarrow> string \<Rightarrow> branch_id_t \<Rightarrow> (iu_p \<times> SqlType) list \<Rightarrow> TableScan \<Rightarrow>
    (iu_value_mapping \<Rightarrow> unit exec) \<Rightarrow> nat \<Rightarrow> unit exec" where
  "scan_row dl name branchId required scan parent tid =
     bind_exec (isVisible name tid branchId) (\<lambda>visible. exec_if visible
       (bind_exec (scan_fields name scan branchId tid) (\<lambda>fields.
         bind_exec (emit (mapM_gen (\<lambda>((iu, type), field). field_value dl type field) (zip required fields))) (\<lambda>vals.
           parent (map_of (zip (map fst required) vals))))))"

definition PTableScan_produce :: "data_layout \<Rightarrow> string \<Rightarrow> branch_id_t \<Rightarrow> (iu_p \<times> SqlType) list \<Rightarrow> TableScan \<Rightarrow>
    (iu_value_mapping \<Rightarrow> unit exec) \<Rightarrow> unit exec" where
  "PTableScan_produce dl name branchId required scan parent = with_table name (\<lambda>table.
     let tableSize = Table_size table
     in if tableSize < 1 then yield_exec ()
        else for_exec (scan_row dl name branchId required scan parent) [0 ..< tableSize])"

section \<open>Selection\<close>

definition PSelect_consume :: "physical_exp \<Rightarrow> (iu_value_mapping \<Rightarrow> unit exec) \<Rightarrow> iu_value_mapping \<Rightarrow> unit exec" where
  "PSelect_consume e parent vals =
     bind_exec (emit (evaluate e vals)) (\<lambda>match.
       if ty_typeID (gv_type match) \<noteq> BoolID then throw_exec AssertFailed
       else bind_exec (emit (isTrue match)) (\<lambda>result. exec_if result (parent vals)))"

section \<open>Results\<close>

definition counter :: "u64 gen" where
  \<comment> \<open>\<^verbatim>\<open>tupleCountPtr\<close>\<close>
  "counter = bind_gen (alloca 8) (\<lambda>p. bind_gen (write_gen p (bytes_of_word 8 (0 :: u64))) (\<lambda>_. yield_gen p))"

definition load_u64 :: "u64 \<Rightarrow> u64 gen" where
  "load_u64 p = read_gen (\<lambda>m. word_of_bytes (read_bytes m p 8))"

definition store_u64 :: "u64 \<Rightarrow> u64 \<Rightarrow> unit gen" where
  "store_u64 v p = write_gen p (bytes_of_word 8 v)"

definition increment :: "u64 \<Rightarrow> unit gen" where
  "increment tupleCountPtr = bind_gen (load_u64 tupleCountPtr) (\<lambda>prevCnt. store_u64 (prevCnt + 1) tupleCountPtr)"

definition newline :: string where
  "newline = [CHR 0x0A]"

definition PPrint_consume :: "iu_p list \<Rightarrow> u64 \<Rightarrow> iu_value_mapping \<Rightarrow> unit exec" where
  "PPrint_consume selection tupleCountPtr vals =
     bind_exec (for_exec (\<lambda>(i, iu).
         bind_exec (if i = 0 then yield_exec () else emit (printed [CHR 0x09])) (\<lambda>_.
           bind_exec (emit (value_at vals iu)) genPrintValue)) (enumerate 0 selection)) (\<lambda>_.
       bind_exec (emit (printed newline)) (\<lambda>_. emit (increment tupleCountPtr)))"

definition PPrint_produce :: "iu_p list \<Rightarrow> ((iu_value_mapping \<Rightarrow> unit exec) \<Rightarrow> unit exec) \<Rightarrow> unit exec" where
  "PPrint_produce selection child =
     bind_exec (emit counter) (\<lambda>tupleCountPtr.
       bind_exec (child (PPrint_consume selection tupleCountPtr)) (\<lambda>_.
         bind_exec (emit (load_u64 tupleCountPtr)) (\<lambda>tupleCnt.
           bind_exec (exec_if (tupleCnt = 0) (emit (printed (''Empty result set'' @ newline)))) (\<lambda>_.
             exec_if (tupleCnt \<noteq> 0) (emit (printed (''Produced '' @ show_nat (unat tupleCnt) @ '' tuples'' @ newline)))))))"

definition native_tuple :: "GValue list \<Rightarrow> NValue list gen" where
  \<comment> \<open>the values \<^verbatim>\<open>ValueTranslator\<close> makes; the constructor of the tuple follows their pointers\<close>
  "native_tuple vs s =
     bind_res (mapM_res (sqlValueToNativeSqlValue (hp_mem (mc_heap s))) vs) (\<lambda>natives.
       if None \<in> set natives then Inl MemFault else Inr (map the natives, s))"

definition callHandler :: "NValue list \<Rightarrow> unit exec" where
  "callHandler nativetuple = call_exec (\<lambda>w. Some (Inr ((), w\<lparr>wo_streamed := wo_streamed w @ [(hp_mem (mc_heap (wo_machine w)), nativetuple)]\<rparr>))) ()"

definition PTupleStream_consume :: "iu_p list \<Rightarrow> u64 \<Rightarrow> iu_value_mapping \<Rightarrow> unit exec" where
  "PTupleStream_consume columns tupleCountPtr vals =
     bind_exec (emit (mapM_gen (value_at vals) columns)) (\<lambda>tupleValues.
       bind_exec (emit (native_tuple tupleValues)) (\<lambda>nativetuple.
         bind_exec (callHandler nativetuple) (\<lambda>_. emit (increment tupleCountPtr))))"

definition PTupleStream_produce :: "iu_p list \<Rightarrow> ((iu_value_mapping \<Rightarrow> unit exec) \<Rightarrow> unit exec) \<Rightarrow> unit exec" where
  "PTupleStream_produce columns child =
     bind_exec (emit counter) (\<lambda>tupleCountPtr. child (PTupleStream_consume columns tupleCountPtr))"

section \<open>Insert, update, delete\<close>

definition update_table :: "string \<Rightarrow> NValue Table \<Rightarrow> ExecutionContext \<Rightarrow> world \<Rightarrow> world" where
  "update_table name t ctx w = w\<lparr>wo_db := put_table name t (wo_db w), wo_ctx := ctx\<rparr>"

definition genInsertCall :: "string \<Rightarrow> branch_id_t \<Rightarrow> NValue list \<Rightarrow> unit exec" where
  "genInsertCall name branchId tuple = call_exec (with_table name (\<lambda>table w.
     let ((r, table'), ctx') = insert_tuple_with_branchId tuple (wo_db w) table (wo_ctx w) branchId
     in bind_comp (Some r) (\<lambda>_. Some (Inr ((), update_table name table' ctx' w))))) ()"

definition PInsert_produce :: "string \<Rightarrow> NValue list list \<Rightarrow> branch_id_t \<Rightarrow> unit exec" where
  "PInsert_produce name tuples branchId = for_exec (genInsertCall name branchId) tuples"

definition named_tid :: "InformationUnit list \<Rightarrow> iu_p \<Rightarrow> bool result" where
  "named_tid ius iu = bind_res (deref_iu ius iu) (\<lambda>u. case iu_columnInformation u of
     None \<Rightarrow> Inl MemFault | Some ci \<Rightarrow> Inr (ci_columnName ci = ''tid''))"

fun tid_of :: "InformationUnit list \<Rightarrow> iu_p list \<Rightarrow> iu_value_mapping \<Rightarrow> u64 gen" where
  \<comment> \<open>without a unit of that name the variable has no value\<close>
  "tid_of ius [] vals = throw_gen MemFault"
| "tid_of ius (iu # rest) vals =
     bind_gen (lift_gen (named_tid ius iu)) (\<lambda>named.
       if named then bind_gen (value_at vals iu) (\<lambda>v. case v of GLongInteger tid \<Rightarrow> yield_gen tid | _ \<Rightarrow> throw_gen AssertFailed)
       else tid_of ius rest vals)"

record update_column =
  uc_name :: string
  uc_index :: nat
  uc_value :: "GValue option"

fun update_columns :: "InformationUnit list \<Rightarrow> NValue Table \<Rightarrow> (iu_p \<times> string) list \<Rightarrow> update_column list gen" where
  \<comment> \<open>the constructor; an empty text means that the column is not updated\<close>
  "update_columns ius table [] = yield_gen []"
| "update_columns ius table ((iu, text) # rest) =
     bind_gen (lift_gen (getColumnInformation ius iu)) (\<lambda>ci.
       if ci_columnName ci = ''tid'' then update_columns ius table rest
       else let storedSqlType = (if ty_nullable (ci_type ci) then toNotNullableTy (ci_type ci) else ci_type ci)
            in bind_gen (if text \<noteq> [] then bind_gen (Value_castString_gen text storedSqlType) (\<lambda>v. yield_gen (Some v)) else yield_gen None)
                 (\<lambda>sqlValue. bind_gen (update_columns ius table rest) (\<lambda>columns.
                    yield_gen (\<lparr>uc_name = ci_columnName ci, uc_index = column_index table (ci_columnName ci), uc_value = sqlValue\<rparr> # columns))))"

fun updated_value :: "InformationUnit list \<Rightarrow> (iu_p \<times> string) list \<Rightarrow> iu_value_mapping \<Rightarrow> update_column \<Rightarrow> GValue list gen" where
  \<comment> \<open>the inner loop of \<^verbatim>\<open>consume\<close>: the value of one column\<close>
  "updated_value ius [] vals column = yield_gen []"
| "updated_value ius ((iu, text) # rest) vals column =
     bind_gen (lift_gen (bind_res (deref_iu ius iu) (\<lambda>u. case iu_columnInformation u of None \<Rightarrow> Inl MemFault | Some ci \<Rightarrow> Inr ci))) (\<lambda>ci.
       if ci_columnName ci = uc_name column
       then (case uc_value column of Some v \<Rightarrow> yield_gen [v] | None \<Rightarrow> bind_gen (value_at vals iu) (\<lambda>v. yield_gen [v]))
       else updated_value ius rest vals column)"

definition genUpdateCall :: "string \<Rightarrow> branch_id_t \<Rightarrow> u64 \<Rightarrow> NValue list \<Rightarrow> unit exec" where
  "genUpdateCall name branchId tid nativetuple = call_exec (with_table name (\<lambda>table w.
     case update_tuple_with_branchId tid branchId nativetuple (wo_db w) table (wo_ctx w) of
       (None, ctx') \<Rightarrow> None
     | (Some (Some e, table'), ctx') \<Rightarrow> Some (Inl e)
     | (Some (None, table'), ctx') \<Rightarrow> Some (Inr ((), update_table name table' ctx' w)))) ()"

definition PUpdate_consume :: "InformationUnit list \<Rightarrow> string \<Rightarrow> (iu_p \<times> string) list \<Rightarrow> branch_id_t \<Rightarrow> update_column list \<Rightarrow>
    u64 \<Rightarrow> iu_value_mapping \<Rightarrow> unit exec" where
  "PUpdate_consume ius name updateIUs branchId columns tupleCountPtr vals =
     bind_exec (emit (tid_of ius (map fst updateIUs) vals)) (\<lambda>tid.
       bind_exec (emit (mapM_gen (updated_value ius updateIUs vals) (sort_key uc_index columns))) (\<lambda>tupleValues.
         bind_exec (emit (native_tuple (concat tupleValues))) (\<lambda>nativetuple.
           bind_exec (genUpdateCall name branchId tid nativetuple) (\<lambda>_. emit (increment tupleCountPtr)))))"

definition PUpdate_produce :: "InformationUnit list \<Rightarrow> string \<Rightarrow> (iu_p \<times> string) list \<Rightarrow> branch_id_t \<Rightarrow> update_column list \<Rightarrow>
    ((iu_value_mapping \<Rightarrow> unit exec) \<Rightarrow> unit exec) \<Rightarrow> unit exec" where
  "PUpdate_produce ius name updateIUs branchId columns child =
     bind_exec (emit counter) (\<lambda>tupleCountPtr.
       bind_exec (child (PUpdate_consume ius name updateIUs branchId columns tupleCountPtr)) (\<lambda>_.
         bind_exec (emit (load_u64 tupleCountPtr)) (\<lambda>tupleCnt. yield_exec ())))"

definition genDeleteCall :: "string \<Rightarrow> branch_id_t \<Rightarrow> u64 \<Rightarrow> unit exec" where
  "genDeleteCall name branchId tid = call_exec (with_table name (\<lambda>table w.
     let (r, ctx') = delete_tuple_with_branchId tid branchId table (wo_ctx w)
     in bind_comp (Some r) (\<lambda>table'. Some (Inr ((), update_table name table' ctx' w))))) ()"

definition PDelete_consume :: "InformationUnit list \<Rightarrow> iu_p list \<Rightarrow> string \<Rightarrow> branch_id_t \<Rightarrow> u64 \<Rightarrow> iu_value_mapping \<Rightarrow> unit exec" where
  "PDelete_consume ius required name branchId tupleCountPtr vals =
     bind_exec (emit (tid_of ius required vals)) (\<lambda>tid.
       bind_exec (genDeleteCall name branchId tid) (\<lambda>_. emit (increment tupleCountPtr)))"

definition PDelete_produce :: "InformationUnit list \<Rightarrow> iu_p list \<Rightarrow> string \<Rightarrow> branch_id_t \<Rightarrow>
    ((iu_value_mapping \<Rightarrow> unit exec) \<Rightarrow> unit exec) \<Rightarrow> unit exec" where
  "PDelete_produce ius required name branchId child =
     bind_exec (emit counter) (\<lambda>tupleCountPtr.
       bind_exec (child (PDelete_consume ius required name branchId tupleCountPtr)) (\<lambda>_.
         bind_exec (emit (load_u64 tupleCountPtr)) (\<lambda>tupleCnt.
           emit (printed (''Deleted '' @ show_nat (unat tupleCnt) @ '' tuples'' @ newline)))))"

end
