(* ===== verification/HashOperators.thy ===== *)
theory HashOperators
  imports PhysicalOperators
begin

text \<open>
  The hash join and the grouping, algebra/physical/HashJoin.cpp and GroupBy.cpp, with the code that
  foundations/StaticHashtable.cpp and Hashtable.cpp emit to iterate over a table. A memory pool or a table is
  referred to by its position in the world. A call of a code that does not run returns a null pointer.
\<close>

section \<open>Calls\<close>

definition genMemoryPoolCreateCall :: "nat exec" where
  "genMemoryPoolCreateCall = call_exec (\<lambda>w.
     let (pool, h) = memoryPoolCreate (mc_heap (wo_machine w))
     in Some (Inr (length (wo_pools w), w\<lparr>wo_pools := wo_pools w @ [pool], wo_machine := (wo_machine w)\<lparr>mc_heap := h\<rparr>\<rparr>))) 0"

definition genMemoryPoolMallocCall :: "nat \<Rightarrow> u64 \<Rightarrow> u64 exec" where
  "genMemoryPoolMallocCall pool n = call_exec (\<lambda>w.
     bind_comp (Some (MemoryPool_malloc n (wo_pools w ! pool) (mc_heap (wo_machine w)))) (\<lambda>(addr, pool', h).
       Some (Inr (addr, w\<lparr>wo_pools := (wo_pools w)[pool := pool'], wo_machine := (wo_machine w)\<lparr>mc_heap := h\<rparr>\<rparr>)))) 0"

definition genStaticHashtableCreateCall :: "node_ptr \<Rightarrow> u64 \<Rightarrow> nat exec" where
  \<comment> \<open>for the length 0 the code casts the logarithm of 0, minus infinity, to an integer\<close>
  "genStaticHashtableCreateCall first len =
     bind_exec (emit (undefined_if (len = 0))) (\<lambda>_. call_exec (\<lambda>w.
       case StaticHashtable_ctor first len (hp_mem (mc_heap (wo_machine w))) of
         None \<Rightarrow> None
       | Some (t, m) \<Rightarrow> Some (Inr (length (wo_joinTables w), w\<lparr>wo_joinTables := wo_joinTables w @ [t],
           wo_machine := (wo_machine w)\<lparr>mc_heap := (mc_heap (wo_machine w))\<lparr>hp_mem := m\<rparr>\<rparr>\<rparr>))) 0)"

definition genStaticHashtableLookupCall :: "nat \<Rightarrow> hash_t \<Rightarrow> node_ptr exec" where
  "genStaticHashtableLookupCall hashtable h = call_exec (\<lambda>w.
     case StaticHashtable_lookup (wo_joinTables w ! hashtable) h (hp_mem (mc_heap (wo_machine w))) of
       None \<Rightarrow> None | Some node \<Rightarrow> Some (Inr (node, w))) 0"

section \<open>Iteration\<close>

definition node_next_gen :: "node_ptr \<Rightarrow> node_ptr gen" where
  "node_next_gen p = read_gen (\<lambda>m. node_next m p)"

definition node_hash_gen :: "node_ptr \<Rightarrow> hash_t gen" where
  "node_hash_gen p = read_gen (\<lambda>m. node_hash m p)"

definition bucket_body :: "hash_t option \<Rightarrow> (node_ptr \<Rightarrow> unit exec) \<Rightarrow> node_ptr \<Rightarrow> unit exec" where
  \<comment> \<open>with a hash code, the handler is for the nodes that have it\<close>
  "bucket_body h elementHandler current =
     (case h of None \<Rightarrow> elementHandler current
      | Some h \<Rightarrow> bind_exec (emit (node_hash_gen current)) (\<lambda>currentHash. exec_if (h = currentHash) (elementHandler current)))"

partial_function (option) bucket_loop :: "(node_ptr \<Rightarrow> unit exec) \<Rightarrow> node_ptr \<Rightarrow> world \<Rightarrow> (unit \<times> world) comp" where
  "bucket_loop body current w =
     (case body current w of
        None \<Rightarrow> None
      | Some (Inl e) \<Rightarrow> Some (Inl e)
      | Some (Inr r) \<Rightarrow>
          let w' = snd r; nxt = node_next (hp_mem (mc_heap (wo_machine w'))) current
          in if running w' \<and> nxt \<noteq> 0 then bucket_loop body nxt w' else Some (Inr ((), w')))"

declare bucket_loop.simps [code]

definition iterate_bucket :: "(node_ptr \<Rightarrow> unit exec) \<Rightarrow> node_ptr \<Rightarrow> unit exec" where
  "iterate_bucket body first w = (if running w \<and> first \<noteq> 0 then bucket_loop body first w else skip_exec (body first) w)"

definition genStaticHashtableIter :: "nat \<Rightarrow> hash_t \<Rightarrow> (node_ptr \<Rightarrow> unit exec) \<Rightarrow> unit exec" where
  "genStaticHashtableIter hashtable h elementHandler =
     bind_exec (genStaticHashtableLookupCall hashtable h) (iterate_bucket (bucket_body (Some h) elementHandler))"

section \<open>Hash join\<close>

text \<open>The list of the tuples of the build side: a header with the first node, the last one and the length.\<close>

definition genCreateListHeader :: "nat \<Rightarrow> u64 exec" where
  "genCreateListHeader memoryPool =
     bind_exec (genMemoryPoolMallocCall memoryPool 24) (\<lambda>headerPtr.
       bind_exec (emit (store_u64 headerPtr (headerPtr + 8))) (\<lambda>_. yield_exec headerPtr))"

definition genAppendEntryToList :: "data_layout \<Rightarrow> nat \<Rightarrow> u64 \<Rightarrow> hash_t \<Rightarrow> GValue list \<Rightarrow> unit exec" where
  "genAppendEntryToList dl memoryPool headerPtr hash tuple =
     bind_exec (genMemoryPoolMallocCall memoryPool (dl_nodeSize dl (map gv_type tuple))) (\<lambda>node.
       bind_exec (emit (load_u64 (headerPtr + 8))) (\<lambda>headerLastPtr.
         bind_exec (emit (increment (headerPtr + 16))) (\<lambda>_.
           bind_exec (emit (store_u64 node headerLastPtr)) (\<lambda>_.
             bind_exec (emit (store_u64 node (headerPtr + 8))) (\<lambda>_.
               bind_exec (emit (store_u64 hash (node + 8))) (\<lambda>_.
                 emit (SqlTuple_store_gen dl tuple (node + dl_nodeTuple dl (map gv_type tuple)))))))))"

definition genListGetHeaderData :: "u64 \<Rightarrow> (node_ptr \<times> u64) gen" where
  "genListGetHeaderData headerPtr =
     bind_gen (load_u64 headerPtr) (\<lambda>first. bind_gen (load_u64 (headerPtr + 16)) (\<lambda>len. yield_gen (first, len)))"

definition genJoinHash :: "physical_exp list \<Rightarrow> iu_value_mapping \<Rightarrow> hash_t gen" where
  "genJoinHash exps vals = hash_all (map (\<lambda>e. evaluate e vals) exps)"

definition set_storedTypes :: "nat \<Rightarrow> SqlType list \<Rightarrow> unit exec" where
  "set_storedTypes join types w = Some (Inr ((), w\<lparr>wo_storedTypes := (wo_storedTypes w)[join := Some types]\<rparr>))"

definition consumeLeft :: "data_layout \<Rightarrow> nat \<Rightarrow> nat \<Rightarrow> u64 \<Rightarrow> (physical_exp \<times> physical_exp) list \<Rightarrow> iu_p list \<Rightarrow>
    iu_value_mapping \<Rightarrow> unit exec" where
  "consumeLeft dl join memoryPool listHeaderPtr joinPairs buildSet vals =
     bind_exec (emit (mapM_gen (value_at vals) buildSet)) (\<lambda>leftTupleValues.
       bind_exec (set_storedTypes join (map gv_type leftTupleValues)) (\<lambda>_.
         bind_exec (emit (genJoinHash (map fst joinPairs) vals)) (\<lambda>h.
           genAppendEntryToList dl memoryPool listHeaderPtr h leftTupleValues)))"

fun match_pairs :: "(physical_exp \<times> physical_exp) list \<Rightarrow> iu_value_mapping \<Rightarrow> iu_value_mapping \<Rightarrow> bool \<Rightarrow> bool gen" where
  "match_pairs [] vals rightIncoming match = yield_gen match"
| "match_pairs ((l, r) # joinPairs) vals rightIncoming match =
     bind_gen (evaluate l vals) (\<lambda>leftExprValue. bind_gen (evaluate r rightIncoming) (\<lambda>rightExprValue.
       bind_gen (Value_equals_gen leftExprValue rightExprValue) (\<lambda>equal.
         match_pairs joinPairs vals rightIncoming (match \<and> equal))))"

definition probeCandidate :: "data_layout \<Rightarrow> nat \<Rightarrow> (physical_exp \<times> physical_exp) list \<Rightarrow> iu_p list \<Rightarrow> iu_p list \<Rightarrow>
    (iu_value_mapping \<Rightarrow> unit exec) \<Rightarrow> iu_value_mapping \<Rightarrow> node_ptr \<Rightarrow> unit exec" where
  "probeCandidate dl join joinPairs buildSet probeSet parent rightIncoming rawNodePtr w =
     (case wo_storedTypes w ! join of
        None \<Rightarrow> Some (Inl AssertFailed)
      | Some storedTypes \<Rightarrow>
          bind_exec (emit (SqlTuple_load_gen dl storedTypes (rawNodePtr + dl_nodeTuple dl storedTypes))) (\<lambda>tuple.
            let vals = map_of (zip buildSet tuple)
            in bind_exec (emit (match_pairs joinPairs vals rightIncoming True)) (\<lambda>match. exec_if match
                 (bind_exec (emit (mapM_gen (value_at rightIncoming) probeSet)) (\<lambda>probeValues.
                   parent (vals ++ map_of (zip probeSet probeValues)))))) w)"

definition consumeRight :: "data_layout \<Rightarrow> nat \<Rightarrow> nat \<Rightarrow> (physical_exp \<times> physical_exp) list \<Rightarrow> iu_p list \<Rightarrow> iu_p list \<Rightarrow>
    (iu_value_mapping \<Rightarrow> unit exec) \<Rightarrow> iu_value_mapping \<Rightarrow> unit exec" where
  "consumeRight dl join joinTable joinPairs buildSet probeSet parent vals =
     bind_exec (emit (genJoinHash (map snd joinPairs) vals)) (\<lambda>h.
       genStaticHashtableIter joinTable h (probeCandidate dl join joinPairs buildSet probeSet parent vals))"

definition new_join :: "nat exec" where
  "new_join w = Some (Inr (length (wo_storedTypes w), w\<lparr>wo_storedTypes := wo_storedTypes w @ [None]\<rparr>))"

definition HashJoin_produce :: "data_layout \<Rightarrow> (physical_exp \<times> physical_exp) list \<Rightarrow> iu_p list \<Rightarrow> iu_p list \<Rightarrow>
    ((iu_value_mapping \<Rightarrow> unit exec) \<Rightarrow> unit exec) \<Rightarrow> ((iu_value_mapping \<Rightarrow> unit exec) \<Rightarrow> unit exec) \<Rightarrow>
    (iu_value_mapping \<Rightarrow> unit exec) \<Rightarrow> unit exec" where
  \<comment> \<open>the table and the pool are freed at the end; nothing uses them afterwards\<close>
  "HashJoin_produce dl joinPairs buildSet probeSet leftChild rightChild parent =
     bind_exec new_join (\<lambda>join.
       bind_exec genMemoryPoolCreateCall (\<lambda>memoryPool.
         bind_exec (genCreateListHeader memoryPool) (\<lambda>listHeaderPtr.
           bind_exec (leftChild (consumeLeft dl join memoryPool listHeaderPtr joinPairs buildSet)) (\<lambda>_.
             bind_exec (emit (genListGetHeaderData listHeaderPtr)) (\<lambda>(first, len).
               bind_exec (genStaticHashtableCreateCall first len) (\<lambda>joinTable.
                 rightChild (consumeRight dl join joinTable joinPairs buildSet probeSet parent)))))))"

section \<open>Grouping\<close>

datatype physical_aggregator =
    PKeep iu_p iu_p SqlType \<comment> \<open>the unit it produces, the unit it keeps and its type\<close>
  | PSum iu_p physical_exp
  | PAvg iu_p physical_exp
  | PCountAll iu_p
  | PMin iu_p physical_exp

primrec ag_getProduced :: "physical_aggregator \<Rightarrow> iu_p" where
  "ag_getProduced (PKeep iu keep type) = iu"
| "ag_getProduced (PSum iu e) = iu"
| "ag_getProduced (PAvg iu e) = iu"
| "ag_getProduced (PCountAll iu) = iu"
| "ag_getProduced (PMin iu e) = iu"

primrec ag_getResultType :: "physical_aggregator \<Rightarrow> SqlType" where
  "ag_getResultType (PKeep iu keep type) = type"
| "ag_getResultType (PSum iu e) = pe_getType e"
| "ag_getResultType (PAvg iu e) = pe_getType e"
| "ag_getResultType (PCountAll iu) = getIntegerTy False"
| "ag_getResultType (PMin iu e) = pe_getType e"

definition store_and_load :: "data_layout \<Rightarrow> GValue \<Rightarrow> u64 \<Rightarrow> unit gen" where
  \<comment> \<open>\<^verbatim>\<open>consumeFirst\<close> of \<^verbatim>\<open>Sum\<close> and \<^verbatim>\<open>Min\<close> load the value again and do not use it\<close>
  "store_and_load dl v entryPtr =
     bind_gen (Value_store_gen (dl_indicator dl) v entryPtr) (\<lambda>_.
       bind_gen (Value_load_gen (dl_indicator dl) entryPtr (gv_type v)) (\<lambda>_. yield_gen ()))"

definition one_of :: "SqlType \<Rightarrow> GValue gen" where
  \<comment> \<open>the decimal 1 of a type\<close>
  "one_of type = bind_gen (numericShift (unat (numericLayout_precision type))) (\<lambda>raw. yield_gen (GNumeric type raw))"

definition ag_consumeFirst :: "data_layout \<Rightarrow> physical_aggregator \<Rightarrow> iu_value_mapping \<Rightarrow> u64 \<Rightarrow> unit gen" where
  "ag_consumeFirst dl a vals entryPtr =
     (case a of
        PKeep iu keep type \<Rightarrow> bind_gen (value_at vals keep) (\<lambda>v. Value_store_gen (dl_indicator dl) v entryPtr)
      | PSum iu e \<Rightarrow> bind_gen (evaluate e vals) (\<lambda>v. store_and_load dl v entryPtr)
      | PAvg iu e \<Rightarrow> bind_gen (evaluate e vals) (\<lambda>first.
          bind_gen (Value_store_gen (dl_indicator dl) first entryPtr) (\<lambda>_.
            bind_gen (one_of (pe_getType e)) (\<lambda>one.
              Value_store_gen (dl_indicator dl) one (entryPtr + dl_avgCount dl (pe_getType e)))))
      | PCountAll iu \<Rightarrow> Value_store_gen (dl_indicator dl) (GInteger 1) entryPtr
      | PMin iu e \<Rightarrow> bind_gen (evaluate e vals) (\<lambda>v. store_and_load dl v entryPtr))"

definition smaller :: "GValue \<Rightarrow> GValue \<Rightarrow> GValue gen" where
  "smaller lhs rhs = bind_gen (Value_compare_gen lhs rhs less) (\<lambda>result. phi_value result (yield_gen lhs) rhs)"

definition ag_consumeNext :: "data_layout \<Rightarrow> physical_aggregator \<Rightarrow> iu_value_mapping \<Rightarrow> u64 \<Rightarrow> unit gen" where
  "ag_consumeNext dl a vals entryPtr =
     (case a of
        PKeep iu keep type \<Rightarrow> yield_gen ()
      | PSum iu e \<Rightarrow> bind_gen (Value_load_gen (dl_indicator dl) entryPtr (pe_getType e)) (\<lambda>a.
          bind_gen (evaluate e vals) (\<lambda>b. bind_gen (sqlAdd a b) (\<lambda>acc. Value_store_gen (dl_indicator dl) acc entryPtr)))
      | PAvg iu e \<Rightarrow> let type = pe_getType e; countPtr = entryPtr + dl_avgCount dl type in
          bind_gen (Value_load_gen (dl_indicator dl) entryPtr type) (\<lambda>acc.
            bind_gen (evaluate e vals) (\<lambda>current. bind_gen (sqlAdd acc current) (\<lambda>newAcc.
              bind_gen (Value_store_gen (dl_indicator dl) newAcc entryPtr) (\<lambda>_.
                bind_gen (one_of type) (\<lambda>one. bind_gen (Value_load_gen (dl_indicator dl) countPtr type) (\<lambda>count.
                  bind_gen (sqlAdd one count) (\<lambda>newCount. Value_store_gen (dl_indicator dl) newCount countPtr)))))))
      | PCountAll iu \<Rightarrow> bind_gen (Value_load_gen (dl_indicator dl) entryPtr (getIntegerTy False)) (\<lambda>count.
          bind_gen (sqlAdd (GInteger 1) count) (\<lambda>newCount. Value_store_gen (dl_indicator dl) newCount entryPtr))
      | PMin iu e \<Rightarrow> bind_gen (evaluate e vals) (\<lambda>b.
          bind_gen (Value_load_gen (dl_indicator dl) entryPtr (pe_getType e)) (\<lambda>a.
            bind_gen (nullHandler2 smaller a b (pe_getType e)) (\<lambda>min. Value_store_gen (dl_indicator dl) min entryPtr))))"

definition ag_getResult :: "data_layout \<Rightarrow> physical_aggregator \<Rightarrow> u64 \<Rightarrow> GValue gen" where
  "ag_getResult dl a entryPtr =
     (case a of
        PAvg iu e \<Rightarrow> let type = pe_getType e in
          bind_gen (Value_load_gen (dl_indicator dl) entryPtr type) (\<lambda>acc.
            bind_gen (Value_load_gen (dl_indicator dl) (entryPtr + dl_avgCount dl type) type) (\<lambda>count. sqlDiv acc count))
      | _ \<Rightarrow> Value_load_gen (dl_indicator dl) entryPtr (ag_getResultType a))"

text \<open>The operator.\<close>

definition keepSet :: "physical_aggregator list \<Rightarrow> iu_p set" where
  "keepSet aggregations = set (concat (map (\<lambda>a. case a of PKeep iu keep type \<Rightarrow> [keep] | _ \<Rightarrow> []) aggregations))"

fun for_entries :: "data_layout \<Rightarrow> (physical_aggregator \<Rightarrow> u64 \<Rightarrow> 'a gen) \<Rightarrow> physical_aggregator list \<Rightarrow> nat \<Rightarrow> u64 \<Rightarrow> 'a list gen" where
  "for_entries dl f [] i grp = yield_gen []"
| "for_entries dl f (a # as) i grp =
     bind_gen (f a (grp + dl_groupEntry dl i)) (\<lambda>x. bind_gen (for_entries dl f as (i + 1) grp) (\<lambda>xs. yield_gen (x # xs)))"

definition initializeGroup :: "data_layout \<Rightarrow> physical_aggregator list \<Rightarrow> u64 \<Rightarrow> iu_value_mapping \<Rightarrow> unit exec" where
  "initializeGroup dl aggregations grp vals =
     bind_exec (emit (for_entries dl (\<lambda>a. ag_consumeFirst dl a vals) aggregations 0 grp)) (\<lambda>_. yield_exec ())"

definition aggregateInto :: "data_layout \<Rightarrow> physical_aggregator list \<Rightarrow> u64 \<Rightarrow> iu_value_mapping \<Rightarrow> unit exec" where
  "aggregateInto dl aggregations grp vals =
     bind_exec (emit (for_entries dl (\<lambda>a. ag_consumeNext dl a vals) aggregations 0 grp)) (\<lambda>_. yield_exec ())"

definition group_result :: "data_layout \<Rightarrow> physical_aggregator list \<Rightarrow> u64 \<Rightarrow> iu_value_mapping gen" where
  \<comment> \<open>\<^verbatim>\<open>insert\<close> into the mapping does not replace\<close>
  "group_result dl aggregations grp =
     bind_gen (for_entries dl (ag_getResult dl) aggregations 0 grp) (\<lambda>results.
       yield_gen (map_of (zip (map ag_getProduced aggregations) results)))"

definition currentHash :: "iu_p list \<Rightarrow> iu_value_mapping \<Rightarrow> hash_t gen" where
  "currentHash keeps vals = (if keeps = [] then throw_gen AssertFailed else hash_all (map (value_at vals) keeps))"

definition genHashtableCreateCall :: "nat exec" where
  "genHashtableCreateCall = call_exec (\<lambda>w.
     let (t, h) = Hashtable_ctor defaultSize (mc_heap (wo_machine w))
     in Some (Inr (length (wo_groupTables w), w\<lparr>wo_groupTables := wo_groupTables w @ [t],
          wo_machine := (wo_machine w)\<lparr>mc_heap := h\<rparr>\<rparr>))) 0"

definition genHashtableLookupCall :: "nat \<Rightarrow> hash_t \<Rightarrow> node_ptr exec" where
  "genHashtableLookupCall hashtable h = call_exec (\<lambda>w.
     case Hashtable_lookup (wo_groupTables w ! hashtable) h (hp_mem (mc_heap (wo_machine w))) of
       None \<Rightarrow> None | Some node \<Rightarrow> Some (Inr (node, w))) 0"

definition genHashtableInsertCall :: "nat \<Rightarrow> hash_t \<Rightarrow> u64 \<Rightarrow> node_ptr exec" where
  \<comment> \<open>a table that grows is rebuilt once, so the depth 2 is enough\<close>
  "genHashtableInsertCall hashtable h groupSize = call_exec (\<lambda>w.
     bind_comp (Hashtable_insert 2 h groupSize (wo_groupTables w ! hashtable) (mc_heap (wo_machine w))) (\<lambda>(node, t, hp).
       Some (Inr (node, w\<lparr>wo_groupTables := (wo_groupTables w)[hashtable := t], wo_machine := (wo_machine w)\<lparr>mc_heap := hp\<rparr>\<rparr>)))) 0"

definition genHashtableGetUserDataPtr :: "node_ptr \<Rightarrow> u64" where
  "genHashtableGetUserDataPtr nodePtr = nodePtr + 16"

definition genHashtableIter :: "nat \<Rightarrow> (node_ptr \<Rightarrow> unit exec) \<Rightarrow> unit exec" where
  \<comment> \<open>over the buckets, and over the nodes of those that are not empty; in code that does not run the table has no address\<close>
  "genHashtableIter hashtable elementHandler w =
     (let bucket = (\<lambda>i w. let node = (if running w then ht_table (wo_groupTables w ! hashtable) ! i else 0)
                          in exec_if (node \<noteq> 0) (iterate_bucket (bucket_body None elementHandler) node) w)
      in if running w then for_exec bucket [0 ..< unat (ht_tableSize (wo_groupTables w ! hashtable))] w
         else skip_exec (bucket 0) w)"

definition GroupBy_consume :: "data_layout \<Rightarrow> physical_aggregator list \<Rightarrow> iu_p list \<Rightarrow> nat \<Rightarrow> iu_value_mapping \<Rightarrow> unit exec" where
  \<comment> \<open>with \<^verbatim>\<open>_keepMode\<close>: a group is found by the hash of the units that are kept\<close>
  "GroupBy_consume dl aggregations keeps hashTable vals =
     bind_exec (emit (currentHash keeps vals)) (\<lambda>hash.
       bind_exec (genHashtableLookupCall hashTable hash) (\<lambda>node.
         bind_exec (exec_if (node = 0)
           (bind_exec (genHashtableInsertCall hashTable hash (dl_groupSize dl)) (\<lambda>newNode.
              initializeGroup dl aggregations (genHashtableGetUserDataPtr newNode) vals))) (\<lambda>_.
           exec_if (node \<noteq> 0) (aggregateInto dl aggregations (genHashtableGetUserDataPtr node) vals))))"

definition single_consume :: "data_layout \<Rightarrow> physical_aggregator list \<Rightarrow> u64 \<Rightarrow> u64 \<Rightarrow> iu_value_mapping \<Rightarrow> unit exec" where
  \<comment> \<open>without: there is one group\<close>
  "single_consume dl aggregations emptyStackVar singleGroup vals =
     bind_exec (emit (read_gen (\<lambda>m. bit (m emptyStackVar) 0))) (\<lambda>isEmpty.
       bind_exec (exec_if isEmpty (bind_exec (emit (write_gen emptyStackVar [0])) (\<lambda>_.
           initializeGroup dl aggregations singleGroup vals))) (\<lambda>_.
         exec_if (\<not> isEmpty) (aggregateInto dl aggregations singleGroup vals)))"

definition GroupBy_produce :: "data_layout \<Rightarrow> physical_aggregator list \<Rightarrow> iu_p list \<Rightarrow>
    ((iu_value_mapping \<Rightarrow> unit exec) \<Rightarrow> unit exec) \<Rightarrow> (iu_value_mapping \<Rightarrow> unit exec) \<Rightarrow> unit exec" where
  \<comment> \<open>the second argument are the units that are kept, in the order of the set\<close>
  "GroupBy_produce dl aggregations keeps child parent =
     (if keeps \<noteq> []
      then bind_exec genHashtableCreateCall (\<lambda>hashTable.
        bind_exec (child (GroupBy_consume dl aggregations keeps hashTable)) (\<lambda>_.
          genHashtableIter hashTable (\<lambda>nodePtr.
            bind_exec (emit (group_result dl aggregations (genHashtableGetUserDataPtr nodePtr))) parent)))
      else bind_exec (emit (alloca 1)) (\<lambda>emptyStackVar.
        bind_exec (emit (write_gen emptyStackVar [1])) (\<lambda>_.
          bind_exec (emit (alloca (unat (dl_groupSize dl)))) (\<lambda>singleGroup.
            bind_exec (child (single_consume dl aggregations emptyStackVar singleGroup)) (\<lambda>_.
              bind_exec (emit (read_gen (\<lambda>m. bit (m emptyStackVar) 0))) (\<lambda>isEmpty.
                exec_if (\<not> isEmpty) (bind_exec (emit (group_result dl aggregations singleGroup)) parent)))))))"

end
