(* ===== verification/PhysicalTrees.thy ===== *)
theory PhysicalTrees
  imports HashOperators
begin

text \<open>
  The trees of physical operators: their translation from logical ones, the class \<^verbatim>\<open>TreeTranslator\<close> of
  algebra/translation.cpp with the constructors of the operators, and \<^verbatim>\<open>produce\<close>, which every operator
  calls for its children and whose tuples it hands to its parent.

  The translation works on a \<^verbatim>\<open>tree\<close> and the required units of its operators, a \<^verbatim>\<open>req_tree\<close>.
  A set of units is iterated in the order of the environment.
\<close>

section \<open>Operators\<close>

datatype physical_operator =
    PTableScan string branch_id_t "(iu_p \<times> SqlType) list" TableScan
  | PSelect physical_operator physical_exp
  | PHashJoin physical_operator physical_operator "(physical_exp \<times> physical_exp) list" "iu_p list" "iu_p list"
  | PGroupBy physical_operator "physical_aggregator list" "iu_p list"
  | PTupleStream physical_operator "iu_p list"
  | PPrint physical_operator "iu_p list"
  | PInsert string "NValue list list" branch_id_t
  | PUpdate physical_operator string "(iu_p \<times> string) list" branch_id_t "update_column list"
  | PDelete physical_operator "iu_p list" string branch_id_t

record translation_context =
  tc_ius :: "InformationUnit list"
  tc_db :: "NValue Database"
  tc_addresses :: "iu_p set \<Rightarrow> iu_p list"
  tc_stream :: bool \<comment> \<open>\<^verbatim>\<open>TUPLE_STREAM_REQUIRED\<close>, which decides the kind of every result\<close>

section \<open>Constructors\<close>

definition find_table :: "translation_context \<Rightarrow> string \<Rightarrow> NValue Table gen" where
  "find_table tc name = (case Database_getTable (tc_db tc) name of None \<Rightarrow> throw_gen MemFault | Some t \<Rightarrow> yield_gen t)"

definition required_column :: "translation_context \<Rightarrow> iu_p \<Rightarrow> (iu_p \<times> string \<times> SqlType) gen" where
  "required_column tc iu = bind_gen (lift_gen (getColumnInformation (tc_ius tc) iu)) (\<lambda>ci.
     yield_gen (iu, ci_columnName ci, ci_type ci))"

definition PTableScan_ctor :: "translation_context \<Rightarrow> string \<Rightarrow> branch_id_t \<Rightarrow> iu_p set \<Rightarrow> physical_operator gen" where
  "PTableScan_ctor tc name branchId required =
     bind_gen (find_table tc name) (\<lambda>table.
       bind_gen (mapM_gen (required_column tc) (tc_addresses tc required)) (\<lambda>units.
         yield_gen (PTableScan name branchId (map (\<lambda>(iu, column, type). (iu, type)) units)
           (TableScan_ctor table (map (\<lambda>(iu, column, type). column) units)))))"

definition PTupleStream_ctor :: "translation_context \<Rightarrow> physical_operator \<Rightarrow> iu_p set \<Rightarrow> physical_operator gen" where
  "PTupleStream_ctor tc child required =
     bind_gen (mapM_gen (required_column tc) (tc_addresses tc required)) (\<lambda>units.
       yield_gen (PTupleStream child (map fst (filter (\<lambda>(iu, column, type). column \<noteq> ''tid'') units))))"

definition PUpdate_ctor :: "translation_context \<Rightarrow> physical_operator \<Rightarrow> string \<Rightarrow> (iu_p \<times> string) list \<Rightarrow> branch_id_t \<Rightarrow>
    physical_operator gen" where
  "PUpdate_ctor tc child name updateIUs branchId =
     bind_gen (find_table tc name) (\<lambda>table.
       bind_gen (update_columns (tc_ius tc) table updateIUs) (\<lambda>columns.
         yield_gen (PUpdate child name updateIUs branchId columns)))"

definition PGroupBy_ctor :: "translation_context \<Rightarrow> physical_operator \<Rightarrow> physical_aggregator list \<Rightarrow> physical_operator" where
  "PGroupBy_ctor tc child aggregations = PGroupBy child aggregations (tc_addresses tc (keepSet aggregations))"

section \<open>Translation\<close>

definition produced_unit :: "Aggregator \<Rightarrow> iu_p" where
  \<comment> \<open>the unit the traversals have created\<close>
  "produced_unit a = (case ag_produced a of None \<Rightarrow> None | Some iu \<Rightarrow> iu)"

definition translateAggregator :: "translation_context \<Rightarrow> Aggregator \<Rightarrow> physical_aggregator gen" where
  "translateAggregator tc a =
     (let exp = (\<lambda>ctor e. bind_gen (translate_exp (tc_ius tc) e) (\<lambda>physicalExpression.
            yield_gen (ctor (produced_unit a) physicalExpression)))
      in case ag_fun a of
           Keep iu \<Rightarrow> bind_gen (lift_gen (Aggregator_getRequired a)) (\<lambda>required.
             if card required \<noteq> 1 then throw_gen (InvalidOperation (CHR 0x27 # ''keep'' @ CHR 0x27 # '' should only require one iu''))
             else bind_gen (lift_gen (iu_getType (tc_ius tc) iu)) (\<lambda>type. yield_gen (PKeep (produced_unit a) iu type)))
         | Sum e \<Rightarrow> exp PSum e
         | Avg e \<Rightarrow> exp PAvg e
         | CountAll \<Rightarrow> yield_gen (PCountAll (produced_unit a))
         | Min e \<Rightarrow> exp PMin e)"

definition translate_pair :: "translation_context \<Rightarrow> expression \<Rightarrow> (physical_exp \<times> physical_exp) gen" where
  "translate_pair tc joinExpr =
     (case joinExpr of
        Comparison mode left right type \<Rightarrow>
          if mode \<noteq> eq then throw_gen (NotImplemented [])
          else bind_gen (translate_exp (tc_ius tc) left) (\<lambda>leftExpr.
                 bind_gen (translate_exp (tc_ius tc) right) (\<lambda>rightExpr. yield_gen (leftExpr, rightExpr)))
      | _ \<Rightarrow> throw_gen (NotImplemented []))"

fun translate_tree :: "translation_context \<Rightarrow> tree \<Rightarrow> req_tree \<Rightarrow> physical_operator gen" where
  \<comment> \<open>in post order\<close>
  "translate_tree tc (TableScan s) rt = PTableScan_ctor tc (sc_table s) (sc_branchId s) (rq_required rt)"
| "translate_tree tc (Insert table tuples branchId) rt = yield_gen (PInsert table tuples branchId)"
| "translate_tree tc (Join l r exprs) rt =
     bind_gen (translate_tree tc l (rq_children rt ! 0)) (\<lambda>leftChild.
       bind_gen (translate_tree tc r (rq_children rt ! 1)) (\<lambda>rightChild.
         bind_gen (mapM_gen (translate_pair tc) exprs) (\<lambda>joinPairs.
           yield_gen (PHashJoin leftChild rightChild joinPairs
             (tc_addresses tc (rq_left rt)) (tc_addresses tc (rq_right rt))))))"
| "translate_tree tc (Select child e) rt =
     bind_gen (translate_tree tc child (rq_children rt ! 0)) (\<lambda>input.
       bind_gen (translate_exp (tc_ius tc) e) (\<lambda>exp. yield_gen (PSelect input exp)))"
| "translate_tree tc (GroupBy child aggs) rt =
     bind_gen (translate_tree tc child (rq_children rt ! 0)) (\<lambda>input.
       bind_gen (mapM_gen (translateAggregator tc) aggs) (\<lambda>aggregations. yield_gen (PGroupBy_ctor tc input aggregations)))"
| "translate_tree tc (Delete child tidIU table branchId) rt =
     bind_gen (translate_tree tc child (rq_children rt ! 0)) (\<lambda>input.
       yield_gen (PDelete input (tc_addresses tc (rq_required rt)) table branchId))"
| "translate_tree tc (Update child pairs table branchId) rt =
     bind_gen (translate_tree tc child (rq_children rt ! 0)) (\<lambda>input. PUpdate_ctor tc input table pairs branchId)"
| "translate_tree tc (Result child selection) rt =
     bind_gen (translate_tree tc child (rq_children rt ! 0)) (\<lambda>input.
       if tc_stream tc then PTupleStream_ctor tc input (rq_required rt) else yield_gen (PPrint input (tc_addresses tc (rq_required rt))))"

definition translateToPhysicalTree :: "translation_context \<Rightarrow> tree \<Rightarrow> physical_operator gen" where
  "translateToPhysicalTree tc root = bind_gen (lift_gen (getRequired root)) (translate_tree tc root)"

section \<open>Produce\<close>

primrec Operator_produce :: "data_layout \<Rightarrow> InformationUnit list \<Rightarrow> physical_operator \<Rightarrow> (iu_value_mapping \<Rightarrow> unit exec) \<Rightarrow> unit exec" where
  "Operator_produce dl ius (PTableScan name branchId required scan) parent = PTableScan_produce dl name branchId required scan parent"
| "Operator_produce dl ius (PSelect child e) parent = Operator_produce dl ius child (PSelect_consume e parent)"
| "Operator_produce dl ius (PHashJoin left right joinPairs buildSet probeSet) parent =
     HashJoin_produce dl joinPairs buildSet probeSet (Operator_produce dl ius left) (Operator_produce dl ius right) parent"
| "Operator_produce dl ius (PGroupBy child aggregations keeps) parent = GroupBy_produce dl aggregations keeps (Operator_produce dl ius child) parent"
| "Operator_produce dl ius (PTupleStream child columns) parent = PTupleStream_produce columns (Operator_produce dl ius child)"
| "Operator_produce dl ius (PPrint child selection) parent = PPrint_produce selection (Operator_produce dl ius child)"
| "Operator_produce dl ius (PInsert name tuples branchId) parent = PInsert_produce name tuples branchId"
| "Operator_produce dl ius (PUpdate child name updateIUs branchId columns) parent =
     PUpdate_produce ius name updateIUs branchId columns (Operator_produce dl ius child)"
| "Operator_produce dl ius (PDelete child required name branchId) parent =
     PDelete_produce ius required name branchId (Operator_produce dl ius child)"

definition no_parent :: "iu_value_mapping \<Rightarrow> unit exec" where
  \<comment> \<open>the root has no parent; it does not consume for one\<close>
  "no_parent vals = throw_exec MemFault"

end
