(* ===== verification/StatementExecution.thy ===== *)
theory StatementExecution
  imports PhysicalTrees
begin

text \<open>
  The execution of a statement: tools/queryCompiler/queryCompiler.cpp, which parses, verifies and constructs,
  translates the tree and runs the code; the statements that have no file of their own before, COPY and BRANCH
  (CopyTableAnalyser.cpp, BranchAnalyser.cpp); and what the callbacks write for a tuple.
\<close>

section \<open>Files\<close>

fun split_from :: "string \<Rightarrow> string \<Rightarrow> char \<Rightarrow> string list" where
  \<comment> \<open>\<^verbatim>\<open>getline\<close> with a delimiter; at the end of the input it fails unless it has read a character\<close>
  "split_from part [] delim = (if part = [] then [] else [part])"
| "split_from part (c # str) delim = (if c = delim then part # split_from [] str delim else split_from (part @ [c]) str delim)"

definition split :: "string \<Rightarrow> char \<Rightarrow> string list" where
  "split str delim = split_from [] str delim"

definition delimiter_of :: "string \<Rightarrow> char" where
  "delimiter_of format = (if format = ''tbl'' then CHR ''|'' else CHR '';'')"

fun delimited :: "char \<Rightarrow> string list \<Rightarrow> string" where
  "delimited delim [] = []"
| "delimited delim [s] = s"
| "delimited delim (s # ss) = s @ delim # delimited delim ss"

definition dump_line :: "char \<Rightarrow> memory \<Rightarrow> NValue list \<Rightarrow> string result" where
  \<comment> \<open>what \<^verbatim>\<open>dumpCallbackCSV\<close> and \<^verbatim>\<open>dumpCallbackTBL\<close> append to the file, without the end of the line\<close>
  "dump_line delim m tuple =
     (if tuple = [] then Inl MemFault
      else bind_res (mapM_res (Value_toString m) tuple) (\<lambda>texts. Inr (delimited delim texts)))"

fun cast_items :: "environment \<Rightarrow> 'v Table \<Rightarrow> string list \<Rightarrow> string list \<Rightarrow> heap \<Rightarrow> (NValue list \<times> heap) result" where
  \<comment> \<open>one item for every column of the table; \<^verbatim>\<open>items[i]\<close> is not checked\<close>
  "cast_items en table [] items h = Inr ([], h)"
| "cast_items en table (column # columns) items h =
     bind_res (Table_getCI table column) (\<lambda>ci.
       case items of
         [] \<Rightarrow> Inl MemFault
       | item # items' \<Rightarrow>
           bind_res (Value_castString (en_c_str en item) item (ci_type ci) h) (\<lambda>(val, h').
             bind_res (cast_items en table columns items' h') (\<lambda>(vals, h''). Inr (val # vals, h''))))"

fun cast_rows :: "environment \<Rightarrow> 'v Table \<Rightarrow> char \<Rightarrow> string list \<Rightarrow> heap \<Rightarrow> (NValue list list \<times> heap) result" where
  "cast_rows en table delim [] h = Inr ([], h)"
| "cast_rows en table delim (rowStr # rows) h =
     bind_res (cast_items en table (Table_getColumnNames table) (split rowStr delim) h) (\<lambda>(tuple, h').
       bind_res (cast_rows en table delim rows h') (\<lambda>(tuples, h''). Inr (tuple # tuples, h'')))"

definition CopyTableAnalyser_constructTree :: "environment \<Rightarrow> CopyStatement \<Rightarrow> AnalyzingContext \<Rightarrow> AnalyzingContext result" where
  "CopyTableAnalyser_constructTree en stmt c =
     (let relation = cp_relation stmt in
      if cp_directionFrom stmt
      then (case en_files en (cp_filePath stmt) of
              None \<Rightarrow> Inl (RuntimeError ''file not found'')
            | Some rows \<Rightarrow>
                bind_res (getTable (ac_db c) (pt_name relation)) (\<lambda>table.
                  let (branchId, db') = branch_lookup (pt_version relation) (ac_db c)
                  in bind_res (cast_rows en table (delimiter_of (cp_format stmt)) rows (ac_heap c)) (\<lambda>(tuples, h).
                       Inr (set_root (Insert (pt_name relation) tuples branchId) (c\<lparr>ac_db := db', ac_heap := h\<rparr>)))))
      else bind_res (construct_scan en relation
               (c\<lparr>ac_callback := Some (if cp_format stmt = ''tbl'' then DumpTBL else DumpCSV)\<rparr>)) (\<lambda>(_, c1).
             let productionName = (if pt_alias relation = [] then pt_name relation else pt_alias relation);
                 (entries, c2) = ius_of productionName c1
             in bind_res (no_tid c2 (iterate en entries)) (\<lambda>projectedIUs.
                  let (production, c3) = take_production (pt_name relation) c2
                  in bind_res production (\<lambda>tree. Inr (set_root (Result tree projectedIUs) c3)))))"

section \<open>Branches\<close>

fun derivations :: "(branch_id_t \<times> Branch) list \<Rightarrow> branch_id_t list \<Rightarrow> (string \<times> string) list result" where
  \<comment> \<open>\<^verbatim>\<open>_branches[id]\<close> is a null pointer for an unknown branch\<close>
  "derivations branches [] = Inr []"
| "derivations branches (i # ids) =
     (case map_of branches i of
        None \<Rightarrow> Inl MemFault
      | Some branch \<Rightarrow>
          if br_id branch = 0 then derivations branches ids
          else (case map_of branches (br_parent_id branch) of
                  None \<Rightarrow> Inl MemFault
                | Some parentBranch \<Rightarrow>
                    bind_res (derivations branches ids) (\<lambda>ds. Inr ((br_name branch, br_name parentBranch) # ds))))"

definition in_quotes :: "string \<Rightarrow> string" where
  "in_quotes s = CHR 0x22 # s @ [CHR 0x22]"

definition show_derivation :: "string \<times> string \<Rightarrow> string" where
  "show_derivation d = ''['' @ in_quotes (fst d) @ '','' @ in_quotes (snd d) @ '']''"

definition BranchAnalyser_constructTree :: "(branch_id_t list \<Rightarrow> branch_id_t list) \<Rightarrow> 'v Database \<Rightarrow> string result" where
  \<comment> \<open>what it prints; the first argument is the order in which the map of the branches is iterated\<close>
  "BranchAnalyser_constructTree order db =
     bind_res (derivations (db_branches db) (order (map fst (db_branches db)))) (\<lambda>ds.
       Inr (''{'' @ delimited (CHR '','') (map show_derivation ds) @ ''}'' @ newline))"

fun json_parts :: "(branch_id_t \<times> Branch) list \<Rightarrow> nat list \<Rightarrow> (string list \<times> string list) result" where
  "json_parts branches [] = Inr ([], [])"
| "json_parts branches (i # is) =
     (case map_of branches (of_nat i) of
        None \<Rightarrow> Inl MemFault
      | Some branch \<Rightarrow> bind_res (json_parts branches is) (\<lambda>(nodes, links). Inr
          ((''{'' @ in_quotes ''name'' @ '': '' @ in_quotes (br_name branch) @ '', '' @ in_quotes ''id'' @ '':''
             @ show_nat (unat (br_id branch)) @ '', '' @ in_quotes ''tuples'' @ '': 10}'') # nodes,
           (if br_id branch = 0 then [] else [''{'' @ in_quotes ''source'' @ '':'' @ show_nat (unat (br_parent_id branch))
             @ '', '' @ in_quotes ''target'' @ '':'' @ show_nat (unat (br_id branch)) @ '', '' @ in_quotes ''weight'' @ '': 1}'']) @ links)))"

fun comma_list :: "string list \<Rightarrow> string" where
  "comma_list [] = []"
| "comma_list [s] = s"
| "comma_list (s # ss) = s @ '', '' @ comma_list ss"

definition returnJSON :: "'v Database \<Rightarrow> string result" where
  "returnJSON db =
     bind_res (json_parts (db_branches db) [0 ..< unat (db_next_branch_id db)]) (\<lambda>(nodes, links).
       Inr (''{'' @ in_quotes ''nodes'' @ '': ['' @ comma_list nodes @ ''],'' @ in_quotes ''links'' @ '': ['' @ comma_list links @ '']}''))"

section \<open>Statements\<close>

record setting =
  se_environment :: environment
  se_layout :: data_layout
  se_valueSize :: "SqlType \<Rightarrow> nat"
  se_branchOrder :: "branch_id_t list \<Rightarrow> branch_id_t list"

definition verify_statement :: "'v Database \<Rightarrow> ParsingContext \<Rightarrow> unit result" where
  \<comment> \<open>the analyser \<^verbatim>\<open>getSemanticAnalyser\<close> returns, a null pointer for an unknown statement\<close>
  "verify_statement db px =
     (case px_opType px of
        Op_Unkown \<Rightarrow> Inl MemFault
      | Op_Select \<Rightarrow> SelectAnalyser_verify db (Some (px_selectStmt px))
      | Op_Insert \<Rightarrow> InsertAnalyser_verify db (Some (px_insertStmt px))
      | Op_Update \<Rightarrow> UpdateAnalyser_verify db (Some (px_updateStmt px))
      | Op_Delete \<Rightarrow> DeleteAnalyser_verify db (Some (px_deleteStmt px))
      | Op_CreateTable \<Rightarrow> CreateTableAnalyser_verify db (Some (px_createTableStmt px))
      | Op_CreateBranch \<Rightarrow> CreateBranchAnalyser_verify db (Some (px_createBranchStmt px))
      | Op_Branch \<Rightarrow> BranchAnalyser_verify
      | Op_Copy \<Rightarrow> CopyTableAnalyser_verify db (Some (px_copyStmt px)))"

definition construct_statement :: "setting \<Rightarrow> ParsingContext \<Rightarrow> AnalyzingContext \<Rightarrow> (AnalyzingContext \<times> string) comp" where
  \<comment> \<open>with what is printed; the statements without a tree run here\<close>
  "construct_statement se px c =
     (let en = se_environment se; silent = (\<lambda>r. bind_comp r (\<lambda>c'. Some (Inr (c', [])))) in
      case px_opType px of
        Op_Unkown \<Rightarrow> Some (Inl MemFault)
      | Op_Select \<Rightarrow> silent (SelectAnalyser_constructTree en (px_selectStmt px) c)
      | Op_Insert \<Rightarrow> silent (Some (InsertAnalyser_constructTree en (px_insertStmt px) c))
      | Op_Update \<Rightarrow> silent (Some (UpdateAnalyser_constructTree en (px_updateStmt px) c))
      | Op_Delete \<Rightarrow> silent (Some (DeleteAnalyser_constructTree en (px_deleteStmt px) c))
      | Op_Copy \<Rightarrow> silent (Some (CopyTableAnalyser_constructTree en (px_copyStmt px) c))
      | Op_CreateTable \<Rightarrow>
          (case CreateTableAnalyser_constructTree (se_valueSize se) (px_createTableStmt px) (ac_db c) of
             (Some e, db') \<Rightarrow> Some (Inl e)
           | (None, db') \<Rightarrow> Some (Inr (c\<lparr>ac_db := db'\<rparr>, [])))
      | Op_CreateBranch \<Rightarrow>
          (let (r, db') = CreateBranchAnalyser_constructTree (px_createBranchStmt px) (ac_db c)
           in bind_comp (Some r) (\<lambda>branchid.
                Some (Inr (c\<lparr>ac_db := db'\<rparr>, ''Created Branch '' @ show_nat (unat branchid) @ newline))))
      | Op_Branch \<Rightarrow> bind_comp (Some (BranchAnalyser_constructTree (se_branchOrder se) (ac_db c))) (\<lambda>out. Some (Inr (c, out))))"

definition query_world :: "AnalyzingContext \<Rightarrow> machine \<Rightarrow> ExecutionContext \<Rightarrow> world" where
  "query_world c s ctx = \<lparr>wo_machine = s, wo_db = ac_db c, wo_ctx = ctx, wo_streamed = [], wo_pools = [],
     wo_joinTables = [], wo_groupTables = [], wo_storedTypes = []\<rparr>"

definition run_tree :: "setting \<Rightarrow> AnalyzingContext \<Rightarrow> tree \<Rightarrow> string \<Rightarrow> world comp" where
  \<comment> \<open>\<^verbatim>\<open>compileQuery\<close> and the run of its function; the lineages are built between the two, from the set of the branches\<close>
  "run_tree se c root out =
     (let ius = fa_iu_vec (ac_iuFactory c);
          tc = \<lparr>tc_ius = ius, tc_db = ac_db c, tc_addresses = en_addresses (se_environment se), tc_stream = True\<rparr>;
          s = \<lparr>mc_heap = ac_heap c, mc_status = Running, mc_overflow = False, mc_out = out\<rparr>
      in bind_comp (Some (translateToPhysicalTree tc root s)) (\<lambda>(physicalTree, s').
           bind_comp (constructBranchLineages (sorted_list_of_set (ac_branchIds c)) (ac_db c) ExecutionContext_ctor) (\<lambda>ctx.
             bind_comp (Operator_produce (se_layout se) ius physicalTree no_parent (query_world c s' ctx)) (\<lambda>(_, w). Some (Inr w)))))"

definition compileAndExecute :: "setting \<Rightarrow> string \<Rightarrow> NValue Database \<Rightarrow> heap \<Rightarrow> (callback option \<times> world) comp" where
  \<comment> \<open>the callback the context has for the tuples, and the world at the end\<close>
  "compileAndExecute se query db h =
     bind_comp (parseStatement ParsingContext_ctor query) (\<lambda>px.
       bind_comp (Some (verify_statement db px)) (\<lambda>_.
         bind_comp (construct_statement se px (AnalyzingContext_ctor db h)) (\<lambda>(c, out).
           case ac_joinedTree c of
             None \<Rightarrow> Some (Inr (ac_callback c, query_world c
               \<lparr>mc_heap = ac_heap c, mc_status = Running, mc_overflow = False, mc_out = out\<rparr> ExecutionContext_ctor))
           | Some root \<Rightarrow> bind_comp (run_tree se c root out) (\<lambda>w. Some (Inr (ac_callback c, w))))))"

end
