(* ===== verification/OperatorRuns.thy ===== *)
theory OperatorRuns
  imports StatementExecution DatabaseRuns GeneratedValueProperties
begin

text \<open>
  How the code of the operators runs: the steps of the emitted code, code that is emitted and not run, and the
  values a scan hands to its parent. The columns are those of \<open>scalar\<close> types, whose values generated code
  keeps in registers: integers, decimals, dates and timestamps that are not nullable.
\<close>

section \<open>Steps\<close>

lemma bind_exec_run: "m w = Some (Inr (x, w')) \<Longrightarrow> bind_exec m f w = f x w'"
  by (simp add: bind_exec_def)

lemma emit_run: "g (wo_machine w) = Inr (x, s) \<Longrightarrow> emit g w = Some (Inr (x, w\<lparr>wo_machine := s\<rparr>))"
  by (simp add: emit_def)

lemma yield_exec_run: "yield_exec x w = Some (Inr (x, w))"
  by (simp add: yield_exec_def)

definition quiet :: "machine \<Rightarrow> machine \<Rightarrow> bool" where
  \<comment> \<open>only the heap has changed\<close>
  "quiet s s' \<longleftrightarrow> (\<exists>h. s' = s\<lparr>mc_heap := h\<rparr>)"

lemma quiet_refl [simp]: "quiet s s"
  unfolding quiet_def by (metis machine.surjective machine.update_convs(1))

lemma quiet_heap [simp]: "quiet s (s\<lparr>mc_heap := h\<rparr>)"
  by (auto simp: quiet_def)

lemma quiet_trans: "quiet s s' \<Longrightarrow> quiet s' s'' \<Longrightarrow> quiet s s''"
  by (auto simp: quiet_def)

lemma quiet_status: "quiet s s' \<Longrightarrow> mc_status s' = mc_status s"
  by (auto simp: quiet_def)

definition set_machine :: "world \<Rightarrow> machine \<Rightarrow> world" where
  "set_machine w s = w\<lparr>wo_machine := s\<rparr>"

lemma set_machine_simps [simp]:
  "wo_machine (set_machine w s) = s" "set_machine (set_machine w s) s' = set_machine w s'"
  "wo_db (set_machine w s) = wo_db w" "wo_ctx (set_machine w s) = wo_ctx w" "wo_streamed (set_machine w s) = wo_streamed w"
  "wo_storedTypes (set_machine w s) = wo_storedTypes w" "running (set_machine w s) = (mc_status s = Running)"
  "set_machine w (wo_machine w) = w"
  by (simp_all add: set_machine_def running_def)

lemma emit_machine: "g (wo_machine w) = Inr (x, s) \<Longrightarrow> emit g w = Some (Inr (x, set_machine w s))"
  by (simp add: emit_run set_machine_def)

text \<open>Code that is not run: it ends without an exception and changes nothing but the heap of its machine.\<close>

definition skips :: "'a exec \<Rightarrow> bool" where
  "skips k \<longleftrightarrow> (\<forall>w. mc_status (wo_machine w) = Skipped \<longrightarrow>
     (\<exists>x s. k w = Some (Inr (x, set_machine w s)) \<and> quiet (wo_machine w) s))"

definition skips_as :: "'a exec \<Rightarrow> ('a \<Rightarrow> bool) \<Rightarrow> bool" where
  \<comment> \<open>with what is known of the result\<close>
  "skips_as k P \<longleftrightarrow> (\<forall>w. mc_status (wo_machine w) = Skipped \<longrightarrow>
     (\<exists>x s. k w = Some (Inr (x, set_machine w s)) \<and> quiet (wo_machine w) s \<and> P x))"

lemma skips_as_skips: "skips_as k P \<Longrightarrow> skips k"
  unfolding skips_def skips_as_def by blast

lemma skips_bind_as:
  assumes "skips_as k P" "\<And>x. P x \<Longrightarrow> skips_as (f x) Q"
  shows "skips_as (bind_exec k f) Q"
  unfolding skips_as_def
proof (intro allI impI)
  fix w :: world assume w: "mc_status (wo_machine w) = Skipped"
  with assms(1) obtain x s where x: "k w = Some (Inr (x, set_machine w s))" "quiet (wo_machine w) s" "P x"
    unfolding skips_as_def by blast
  then have "mc_status (wo_machine (set_machine w s)) = Skipped" using w quiet_status by simp
  with assms(2) [OF x(3)] obtain y s' where y: "f x (set_machine w s) = Some (Inr (y, set_machine w s'))" "quiet s s'" "Q y"
    unfolding skips_as_def by fastforce
  then show "\<exists>y s'. bind_exec k f w = Some (Inr (y, set_machine w s')) \<and> quiet (wo_machine w) s' \<and> Q y"
    using x quiet_trans by (auto simp: bind_exec_def)
qed

lemma skips_bind:
  assumes "skips_as k P" "\<And>x. P x \<Longrightarrow> skips (f x)"
  shows "skips (bind_exec k f)"
  using skips_bind_as [OF assms(1), of f "\<lambda>_. True"] assms(2) by (auto simp: skips_def skips_as_def)

lemma skips_yield [simp]: "skips (yield_exec x)" "P x \<Longrightarrow> skips_as (yield_exec x) P"
proof -
  have "yield_exec x w = Some (Inr (x, set_machine w (wo_machine w)))" for w :: world by (simp add: yield_exec_def)
  then show "skips (yield_exec x)" "P x \<Longrightarrow> skips_as (yield_exec x) P" unfolding skips_def skips_as_def by fastforce+
qed

lemma skips_call [simp]: "skips (call_exec f x)" "P x \<Longrightarrow> skips_as (call_exec f x) P"
proof -
  have "call_exec f x w = Some (Inr (x, set_machine w (wo_machine w)))" if "mc_status (wo_machine w) = Skipped" for w
    using that by (simp add: call_exec_def running_def)
  then show "skips (call_exec f x)" "P x \<Longrightarrow> skips_as (call_exec f x) P" unfolding skips_def skips_as_def by fastforce+
qed

lemma skips_emit:
  assumes "\<And>s. mc_status s = Skipped \<Longrightarrow> \<exists>x s'. g s = Inr (x, s') \<and> quiet s s' \<and> P x"
  shows "skips_as (emit g) P"
  unfolding skips_as_def using assms emit_machine by metis

definition skipped_world :: "world \<Rightarrow> world" where
  "skipped_world w = set_machine w ((wo_machine w)\<lparr>mc_status := Skipped\<rparr>)"

lemma skip_exec_at: "k (skipped_world w) = Some (Inr (x, set_machine w s)) \<Longrightarrow> skip_exec k w = Some (Inr ((), w))"
  by (simp add: skip_exec_def skipped_world_def set_machine_def)

lemma skips_at:
  assumes "skips k"
  shows "\<exists>x s. k (skipped_world w) = Some (Inr (x, set_machine w s))"
proof -
  have "mc_status (wo_machine (skipped_world w)) = Skipped" by (simp add: skipped_world_def)
  with assms obtain x s where "k (skipped_world w) = Some (Inr (x, set_machine (skipped_world w) s))"
    unfolding skips_def by blast
  then show ?thesis by (auto simp: skipped_world_def)
qed

lemma skip_exec_run: "skips k \<Longrightarrow> skip_exec k w = Some (Inr ((), w))"
  using skips_at [of k w] skip_exec_at by blast

lemma exec_if_run: "skips k \<Longrightarrow> exec_if c k w = (if c then k w else Some (Inr ((), w)))"
  by (simp add: exec_if_def skip_exec_run)

lemma skips_if:
  assumes "skips k"
  shows "skips (exec_if c k)"
proof -
  have "skips (exec_if c k)" if "\<not> c"
    unfolding skips_def
  proof (intro allI impI exI conjI)
    show "exec_if c k w = Some (Inr ((), set_machine w (wo_machine w)))" "quiet (wo_machine w) (wo_machine w)" for w
      using that assms by (simp_all add: exec_if_run)
  qed
  moreover have "skips (exec_if c k)" if c using that assms by (simp add: skips_def exec_if_def)
  ultimately show ?thesis by blast
qed

lemma skips_for: "(\<And>x. x \<in> set xs \<Longrightarrow> skips (f x)) \<Longrightarrow> skips (for_exec f xs)"
proof (induction xs)
  case (Cons x xs)
  then have "skips_as (f x) (\<lambda>_. True)" "skips (for_exec f xs)" by (auto simp: skips_def skips_as_def)
  then show ?case by (simp add: skips_bind)
qed simp

lemma skips_mapM:
  assumes "\<And>x. x \<in> set xs \<Longrightarrow> skips_as (f x) (P x)"
  shows "skips_as (mapM_exec f xs) (\<lambda>ys. list_all2 P xs ys)"
  using assms
proof (induction xs)
  case (Cons x xs)
  then have 1: "skips_as (f x) (P x)" "skips_as (mapM_exec f xs) (list_all2 P xs)" by auto
  show ?case
    unfolding mapM_exec.simps
    by (rule skips_bind_as [OF 1(1)], rule skips_bind_as [OF 1(2)]) simp
qed simp

text \<open>Computations that yield a known value whatever the machine.\<close>

definition gives :: "'a gen \<Rightarrow> 'a \<Rightarrow> bool" where
  "gives g x \<longleftrightarrow> (\<forall>s. \<exists>s'. g s = Inr (x, s') \<and> quiet s s')"

definition gives_some :: "'a gen \<Rightarrow> ('a \<Rightarrow> bool) \<Rightarrow> bool" where
  "gives_some g P \<longleftrightarrow> (\<forall>s. \<exists>x s'. g s = Inr (x, s') \<and> quiet s s' \<and> P x)"

lemma gives_gives_some: "gives g x \<longleftrightarrow> gives_some g (\<lambda>y. y = x)"
  by (auto simp: gives_def gives_some_def)

lemma gives_as: "gives g x \<Longrightarrow> P x \<Longrightarrow> gives_some g P"
  unfolding gives_def gives_some_def by blast

lemma gives_yield [simp]: "gives (yield_gen x) x" "P x \<Longrightarrow> gives_some (yield_gen x) P"
  by (force simp: gives_def gives_some_def yield_gen_def)+

lemma gives_bind_some:
  assumes "gives_some g P" "\<And>x. P x \<Longrightarrow> gives_some (f x) Q"
  shows "gives_some (bind_gen g f) Q"
  unfolding gives_some_def
proof
  fix s
  from assms(1) obtain x s' where x: "g s = Inr (x, s')" "quiet s s'" "P x" unfolding gives_some_def by blast
  with assms(2) obtain y s'' where "f x s' = Inr (y, s'')" "quiet s' s''" "Q y" unfolding gives_some_def by blast
  with x show "\<exists>y s''. bind_gen g f s = Inr (y, s'') \<and> quiet s s'' \<and> Q y" using quiet_trans by (auto simp: bind_gen_def)
qed

lemma gives_bind: "gives g x \<Longrightarrow> gives (f x) y \<Longrightarrow> gives (bind_gen g f) y"
  unfolding gives_gives_some by (rule gives_bind_some [of g "\<lambda>z. z = x"]) auto

lemma gives_mapM_some:
  assumes "\<And>x. x \<in> set xs \<Longrightarrow> gives_some (f x) (P x)"
  shows "gives_some (mapM_gen f xs) (list_all2 P xs)"
  using assms
proof (induction xs)
  case (Cons x xs)
  then have 1: "gives_some (f x) (P x)" "gives_some (mapM_gen f xs) (list_all2 P xs)" by auto
  show ?case
    unfolding mapM_gen.simps
    by (rule gives_bind_some [OF 1(1)], rule gives_bind_some [OF 1(2)]) simp
qed simp

lemma gives_mapM:
  assumes "\<And>x. x \<in> set xs \<Longrightarrow> gives (f x) (g x)"
  shows "gives (mapM_gen f xs) (map g xs)"
proof -
  have "gives_some (mapM_gen f xs) (list_all2 (\<lambda>x y. y = g x) xs)"
    using assms by (intro gives_mapM_some) (simp add: gives_gives_some)
  moreover have "list_all2 (\<lambda>x y. y = g x) xs ys \<longleftrightarrow> ys = map g xs" for ys
    by (auto simp: list_all2_conv_all_nth list_eq_iff_nth_eq)
  ultimately show ?thesis by (simp add: gives_gives_some gives_some_def)
qed

lemma gives_emit:
  assumes "gives g x"
  shows "\<exists>s. emit g w = Some (Inr (x, set_machine w s)) \<and> quiet (wo_machine w) s"
  using assms emit_machine unfolding gives_def by metis

lemma gives_skips: "gives_some g P \<Longrightarrow> skips_as (emit g) P"
  by (rule skips_emit) (auto simp: gives_some_def)

section \<open>Scalar values\<close>

definition scalar_type :: "SqlType \<Rightarrow> bool" where
  "scalar_type t \<longleftrightarrow> t \<in> {getIntegerTy False, getDateTy False, getTimestampTy False}
     \<or> (ty_typeID t = NumericID \<and> \<not> ty_nullable t)"

fun generated :: "NValue \<Rightarrow> GValue" where
  "generated (NInteger i) = GInteger i"
| "generated (NNumeric t i) = GNumeric t i"
| "generated (NDate d) = GDate d"
| "generated (NTimestamp d) = GTimestamp d"
| "generated v = GUnknown"

definition scalar_of :: "SqlType \<Rightarrow> NValue \<Rightarrow> bool" where
  "scalar_of type v \<longleftrightarrow> scalar_type type \<and> nv_type v = type
     \<and> (case v of NInteger _ \<Rightarrow> True | NNumeric t _ \<Rightarrow> ty_typeID t = NumericID | NDate _ \<Rightarrow> True | NTimestamp _ \<Rightarrow> True | _ \<Rightarrow> False)"

lemma scalar_ofE:
  assumes "scalar_of type v"
  obtains i where "v = NInteger i" "type = getIntegerTy False"
    | i where "v = NNumeric type i" "ty_typeID type = NumericID" "\<not> ty_nullable type"
    | i where "v = NDate i" "type = getDateTy False"
    | i where "v = NTimestamp i" "type = getTimestampTy False"
  using assms by (auto simp: scalar_of_def scalar_type_def typeIDs split: NValue.splits)

lemma scalar_values:
  assumes "scalar_of type v"
  shows "storable v" "gv_type (generated v) = type" "\<not> ty_nullable type"
    "sqlValueToNativeSqlValue m (generated v) = Inr (Some v)"
  using assms by (auto elim!: scalar_ofE simp: storable_def typeIDs)

lemma generated_inj: "scalar_of type v \<Longrightarrow> scalar_of type w \<Longrightarrow> generated v = generated w \<longleftrightarrow> v = w"
  by (auto elim!: scalar_ofE simp: typeIDs)

lemma scalar_load:
  assumes "scalar_type type"
  shows "gives_some (Value_load_gen ind ptr type) (\<lambda>g. \<exists>v. scalar_of type v \<and> g = generated v)"
proof -
  have "\<exists>v. Value_load_gen ind ptr type s = Inr (generated v, s) \<and> scalar_of type v" for s
  proof -
    from assms consider "type = getIntegerTy False" | "type = getDateTy False" | "type = getTimestampTy False"
      | "ty_typeID type = NumericID" "\<not> ty_nullable type" by (auto simp: scalar_type_def)
    then show ?thesis
    proof cases
      case 1
      then show ?thesis
        by (intro exI [of _ "NInteger (word_of_bytes (read_bytes (mem_of s) ptr 4))"])
          (simp add: scalar_of_def scalar_type_def Value_load_gen_def load_not_null_def typeIDs Integer_load_gen_def gen_run)
    next
      case 2
      then show ?thesis
        by (intro exI [of _ "NDate (word_of_bytes (read_bytes (mem_of s) ptr 4))"])
          (simp add: scalar_of_def scalar_type_def Value_load_gen_def load_not_null_def typeIDs Date_load_gen_def gen_run)
    next
      case 3
      then show ?thesis
        by (intro exI [of _ "NTimestamp (word_of_bytes (read_bytes (mem_of s) ptr 8))"])
          (simp add: scalar_of_def scalar_type_def Value_load_gen_def load_not_null_def typeIDs Timestamp_load_gen_def gen_run)
    next
      case 4
      then show ?thesis
        by (intro exI [of _ "NNumeric type (word_of_bytes (read_bytes (mem_of s) ptr 8))"])
          (simp add: scalar_of_def scalar_type_def Value_load_gen_def load_not_null_def Numeric_load_gen_def gen_run)
    qed
  qed
  then show ?thesis unfolding gives_some_def by (metis quiet_refl)
qed

lemma scalar_stored:
  assumes "scalar_of type v" "read_bytes (mem_of s) ptr (length (nv_bytes v)) = nv_bytes v"
  shows "Value_load_gen ind ptr type s = Inr (generated v, s)"
  using assms
  by (auto elim!: scalar_ofE simp: Value_load_gen_def load_not_null_def typeIDs gen_run nv_bytes_def
      Integer_load_gen_def Numeric_load_gen_def Date_load_gen_def Timestamp_load_gen_def word_of_bytes_of_word)

text \<open>The fields of a row.\<close>

lemma field_present:
  assumes "scalar_of type v"
  shows "gives (field_value dl type (ValueField (Some v))) (generated v)"
  unfolding gives_def
proof
  fix s :: machine
  let ?p = "hp_brk (mc_heap s)" and ?n = "nv_bytes v"
  let ?m = "write_bytes (mem_of s) ?p ?n"
  let ?s = "s\<lparr>mc_heap := (mc_heap s)\<lparr>hp_brk := ?p + of_nat (dl_valueSize dl type), hp_mem := ?m\<rparr>\<rparr>"
  have "read_bytes (mem_of ?s) ?p (length ?n) = ?n"
    using read_write_bytes [of ?n "mem_of s" ?p] nv_bytes_length [of v] by simp
  from scalar_stored [OF assms this]
  have "field_value dl type (ValueField (Some v)) s = Inr (generated v, ?s)"
    using scalar_values(1) [OF assms]
    by (simp add: field_value_def cell_gen_def bind_gen_def alloca_def store_nv_bytes)
  then show "\<exists>s'. field_value dl type (ValueField (Some v)) s = Inr (generated v, s') \<and> quiet s s'" by auto
qed

lemma field_absent:
  assumes "scalar_type type"
  shows "gives_some (field_value dl type (ValueField None)) (\<lambda>g. \<exists>v. scalar_of type v \<and> g = generated v)"
proof -
  have "gives_some (cell_gen dl type None) (\<lambda>_. True)"
    by (auto simp: gives_some_def cell_gen_def bind_gen_def alloca_def yield_gen_def)
  from gives_bind_some [OF this scalar_load [OF assms]] show ?thesis
    by (simp add: field_value_def)
qed

lemma field_tid: "gives (field_value dl type (TidField tid)) (GLongInteger tid)"
  by (simp add: field_value_def)

end
