(* ===== verification/ScanRuns.thy ===== *)
theory ScanRuns
  imports OperatorRuns
begin

text \<open>
  The emitted scan of a table: for every row of the snapshot of its branch it runs the code of its parent with the
  values of the row, for the other rows that code is emitted and not run. The required units are given with
  the names and types of their columns.
\<close>

type_synonym units = "(iu_p \<times> string \<times> SqlType) list"

definition typed_units :: "units \<Rightarrow> (iu_p \<times> SqlType) list" where
  "typed_units units = map (\<lambda>(iu, c, type). (iu, type)) units"

definition unit_names :: "units \<Rightarrow> string list" where
  "unit_names units = map (\<lambda>(iu, c, type). c) units"

definition units_ok :: "NValue Table \<Rightarrow> units \<Rightarrow> bool" where
  "units_ok t units \<longleftrightarrow> distinct (map fst units) \<and> (\<forall>(iu, c, type) \<in> set units. c \<noteq> ''tid'' \<longrightarrow>
     scalar_type type \<and> (\<exists>ci \<in> fst ` set (tb_columns t). ci_columnName ci = c \<and> ci_type ci = type))"

definition unit_value :: "NValue Table \<Rightarrow> nat \<Rightarrow> NValue row \<Rightarrow> string \<Rightarrow> GValue" where
  "unit_value t i r c = (if c = ''tid'' then GLongInteger (of_nat i) else generated (the (r ! column_index t c)))"

definition row_ok :: "NValue Table \<Rightarrow> units \<Rightarrow> NValue row \<Rightarrow> bool" where
  \<comment> \<open>the row has a value of the type of the column in every required column\<close>
  "row_ok t units r \<longleftrightarrow> (\<forall>(iu, c, type) \<in> set units. c \<noteq> ''tid'' \<longrightarrow> (\<exists>v. r ! column_index t c = Some v \<and> scalar_of type v))"

lemma row_okD: "row_ok t units r \<Longrightarrow> (iu, c, type) \<in> set units \<Longrightarrow> c \<noteq> ''tid'' \<Longrightarrow>
    \<exists>v. r ! column_index t c = Some v \<and> scalar_of type v"
  by (force simp: row_ok_def)

definition row_mapping :: "NValue Table \<Rightarrow> units \<Rightarrow> nat \<Rightarrow> NValue row \<Rightarrow> iu_value_mapping" where
  "row_mapping t units i r = map_of (map (\<lambda>(iu, c, type). (iu, unit_value t i r c)) units)"

definition unit_typed :: "string \<Rightarrow> SqlType \<Rightarrow> GValue \<Rightarrow> bool" where
  "unit_typed c type g \<longleftrightarrow> (if c = ''tid'' then \<exists>n. g = GLongInteger n else \<exists>v. scalar_of type v \<and> g = generated v)"

definition mapping_ok :: "units \<Rightarrow> iu_value_mapping \<Rightarrow> bool" where
  "mapping_ok units vals \<longleftrightarrow> (\<forall>(iu, c, type) \<in> set units. \<exists>g. vals iu = Some g \<and> unit_typed c type g)"

definition skipped_by :: "units \<Rightarrow> (iu_value_mapping \<Rightarrow> unit exec) \<Rightarrow> bool" where
  "skipped_by units parent \<longleftrightarrow> (\<forall>vals. mapping_ok units vals \<longrightarrow> skips (parent vals))"

lemma map_of_units:
  assumes "distinct (map fst units)" "u \<in> set units" "list_all2 P units vals"
  shows "\<exists>g. map_of (zip (map fst (typed_units units)) vals) (fst u) = Some g \<and> P u g"
proof -
  from assms(2) obtain k where k: "k < length units" "units ! k = u" by (auto simp: in_set_conv_nth)
  have len: "length vals = length units" using assms(3) by (simp add: list_all2_lengthD)
  have fsts: "map fst (typed_units units) = map fst units" by (auto simp: typed_units_def)
  have "map_of (zip (map fst units) vals) (map fst units ! k) = Some (vals ! k)"
    using assms(1) len k(1) by (intro map_of_zip_nth) auto
  moreover have "P u (vals ! k)" using list_all2_nthD [OF assms(3) k(1)] k(2) by simp
  ultimately show ?thesis using k fsts by simp
qed

definition scan_at :: "string \<Rightarrow> branch_id_t \<Rightarrow> (string \<Rightarrow> NValue snapshots) \<Rightarrow> NValue Table \<Rightarrow> world \<Rightarrow> bool" where
  "scan_at name b S t w \<longleftrightarrow> running w \<and> db_inv (wo_db w) S \<and> Database_getTable (wo_db w) name = Some t
     \<and> b < db_next_branch_id (wo_db w) \<and> (b \<noteq> master_branch_id \<longrightarrow> ctx_serves (db_branches (wo_db w)) b (wo_ctx w))"

lemma scan_at_facts:
  assumes "scan_at name b S t w" "units_ok t units"
  shows "vt_ok t" "tb_ok t" "distinct (map (ci_columnName \<circ> fst) (tb_columns t))"
    "set (unit_names units) \<subseteq> insert ''tid'' (ci_columnName ` fst ` set (tb_columns t))"
    "unat b < bm_columnCount (tb_branchBitmap t)" "scan_ready (db_branches (wo_db w)) t b"
    "i < tb_rows t \<Longrightarrow> visible_row (db_branches (wo_db w)) t b i = S name b i" "tb_rows t \<le> 2 ^ 63"
proof -
  have inv: "db_inv (wo_db w) S" and t: "Database_getTable (wo_db w) name = Some t" and b: "b < db_next_branch_id (wo_db w)"
    using assms(1) by (simp_all add: scan_at_def)
  note T = db_inv_table [OF inv t]
  show vt: "vt_ok t" by (rule T(2))
  then show "tb_ok t" "tb_rows t \<le> 2 ^ 63" by (simp_all add: vt_ok_def)
  show "distinct (map (ci_columnName \<circ> fst) (tb_columns t))" using T(1) by (simp add: table_ok_def)
  show "set (unit_names units) \<subseteq> insert ''tid'' (ci_columnName ` fst ` set (tb_columns t))"
    using assms(2) by (fastforce simp: units_ok_def unit_names_def)
  show "unat b < bm_columnCount (tb_branchBitmap t)" using T(3) b by (simp add: table_width_def word_less_nat_alt)
  show "scan_ready (db_branches (wo_db w)) t b" by (rule inv_scan_ready(1) [OF inv t b])
  show "i < tb_rows t \<Longrightarrow> visible_row (db_branches (wo_db w)) t b i = S name b i" by (rule inv_scan_ready(2) [OF inv t b])
qed

lemma column_facts:
  assumes "scan_at name b S t w" "units_ok t units" "(iu, c, type) \<in> set units" "c \<noteq> ''tid''"
  shows "column_index t c < length (tb_columns t)" "ci_type (fst (tb_columns t ! column_index t c)) = type"
    "ci_columnName (fst (tb_columns t ! column_index t c)) = c" "\<not> ty_nullable type" "scalar_type type"
proof -
  note F = scan_at_facts [OF assms(1,2)]
  from assms(2-4) obtain ci where ci: "ci \<in> fst ` set (tb_columns t)" "ci_columnName ci = c" "ci_type ci = type" "scalar_type type"
    by (fastforce simp: units_ok_def)
  then obtain j where j: "j < length (tb_columns t)" "fst (tb_columns t ! j) = ci" by (auto simp: in_set_conv_nth image_iff)
  with column_index_nth [OF F(2) j(1) F(3)] ci(2) have "column_index t c = j" by simp
  with j ci show "column_index t c < length (tb_columns t)" "ci_type (fst (tb_columns t ! column_index t c)) = type"
    "ci_columnName (fst (tb_columns t ! column_index t c)) = c" "scalar_type type" by simp_all
  with ci(4) show "\<not> ty_nullable type" by (auto simp: scalar_type_def typeIDs)
qed

text \<open>The fields of a row and their values.\<close>

definition unit_field :: "NValue Table \<Rightarrow> nat \<Rightarrow> NValue row \<Rightarrow> string \<Rightarrow> NValue field" where
  "unit_field t i r c = (if c = ''tid'' then TidField (of_nat i) else ValueField (r ! column_index t c))"

lemma row_fields_units:
  assumes "scan_at name b S t w" "units_ok t units"
  shows "row_fields t (unit_names units) i r = map (\<lambda>(iu, c, type). unit_field t i r c) units"
proof -
  have "(let j = column_index t c in if c = ''tid'' then TidField (of_nat i)
      else if ty_nullable (ci_type (fst (tb_columns t ! j))) then NullableField False (r ! j) else ValueField (r ! j)) =
    unit_field t i r c" if "(iu, c, type) \<in> set units" for iu c type
    using column_facts [OF assms that] by (auto simp: unit_field_def Let_def)
  then show ?thesis by (auto simp: row_fields_def unit_names_def)
qed

lemma zip_units: "zip (typed_units units) (map f units) = map (\<lambda>u. ((fst u, snd (snd u)), f u)) units"
  by (induction units) (auto simp: typed_units_def split_beta)

lemma mapM_gen_map: "mapM_gen f (map g xs) = mapM_gen (f \<circ> g) xs"
  by (induction xs) simp_all

definition row_emit :: "data_layout \<Rightarrow> units \<Rightarrow> NValue field list \<Rightarrow> GValue list gen" where
  "row_emit dl units fs = mapM_gen (\<lambda>((iu, type), field). field_value dl type field) (zip (typed_units units) fs)"

lemma row_emit_present:
  assumes "row_ok t units r"
  shows "gives (row_emit dl units (map (\<lambda>(iu, c, type). unit_field t i r c) units)) (map (\<lambda>(iu, c, type). unit_value t i r c) units)"
proof -
  have "gives (field_value dl type (unit_field t i r c)) (unit_value t i r c)" if "(iu, c, type) \<in> set units" for iu c type
    using row_okD [OF assms that] by (cases "c = ''tid''") (auto simp: unit_field_def unit_value_def field_tid field_present)
  then show ?thesis
    unfolding row_emit_def zip_units mapM_gen_map
    by (intro gives_mapM) (auto simp: split_beta)
qed

lemma row_emit_absent:
  assumes "scan_at name b S t w" "units_ok t units" and r: "r = replicate (length (tb_columns t)) None"
  shows "gives_some (row_emit dl units (map (\<lambda>(iu, c, type). unit_field t i r c) units))
    (list_all2 (\<lambda>u. unit_typed (fst (snd u)) (snd (snd u))) units)"
proof -
  have one: "gives_some (field_value dl type (unit_field t i r c)) (unit_typed c type)" if "(iu, c, type) \<in> set units" for iu c type
  proof (cases "c = ''tid''")
    case True
    with gives_as [OF field_tid [of dl type "of_nat i"]] show ?thesis by (simp add: unit_field_def unit_typed_def)
  next
    case False
    with column_facts(1,5) [OF assms(1,2) that] r field_absent [of type dl] show ?thesis by (simp add: unit_field_def unit_typed_def [abs_def])
  qed
  have "gives_some (mapM_gen (\<lambda>u. field_value dl (snd (snd u)) (unit_field t i r (fst (snd u)))) units)
      (list_all2 (\<lambda>u. unit_typed (fst (snd u)) (snd (snd u))) units)"
    by (rule gives_mapM_some) (use one in auto)
  then show ?thesis unfolding row_emit_def zip_units mapM_gen_map by (simp add: split_beta comp_def)
qed

lemma row_mapping_zip: "map_of (zip (map fst (typed_units units)) (map (\<lambda>(iu, c, type). unit_value t i r c) units)) = row_mapping t units i r"
proof -
  have "zip (map fst (typed_units units)) (map (\<lambda>(iu, c, type). unit_value t i r c) units) =
      map (\<lambda>(iu, c, type). (iu, unit_value t i r c)) units"
    by (induction units) (auto simp: typed_units_def)
  then show ?thesis by (simp add: row_mapping_def)
qed

lemma scan_body:
  "scan_row dl name b (typed_units units) scan parent i =
     bind_exec (isVisible name i b) (\<lambda>visible. exec_if visible
       (bind_exec (scan_fields name scan b i) (\<lambda>fs.
         bind_exec (emit (row_emit dl units fs)) (\<lambda>vals. parent (map_of (zip (map fst (typed_units units)) vals))))))"
  by (simp add: scan_row_def row_emit_def)

text \<open>A row the branch does not have: nothing is run.\<close>

lemma scan_row_hidden:
  assumes at: "scan_at name b S t w" and units: "units_ok t units" and i: "i < tb_rows t" "S name b i = None"
    and k: "skipped_by units parent"
  shows "scan_row dl name b (typed_units units) (TableScan_ctor t (unit_names units)) parent i w = Some (Inr ((), w))"
proof -
  note F = scan_at_facts [OF at units]
  have t: "Database_getTable (wo_db w) name = Some t" and run: "running w" using at by (simp_all add: scan_at_def)
  from isVisibleInBranch_Inr [OF F(1) i(1) F(5)] have "isVisibleInBranch (tb_branchBitmap t) i b = Inr (tb_visible t i b)" .
  moreover have "\<not> tb_visible t i b"
  proof
    assume v: "tb_visible t i b"
    with F(6) i(1) obtain x where "find (seen_by (lineage_of (db_branches (wo_db w)) b) b) (tuple_history t i) = Some x"
      by (auto simp: scan_ready_def)
    with v F(7) [OF i(1)] i(2) show False by (simp add: visible_row_def)
  qed
  ultimately have vis: "isVisible name i b w = Some (Inr (False, w))"
    using t run by (simp add: isVisible_def with_table_def call_exec_def)
  let ?r = "replicate (length (tb_columns t)) None :: NValue row"
  let ?scan = "TableScan_ctor t (unit_names units)"
  let ?fs = "map (\<lambda>(iu, c, type). unit_field t i ?r c) units"
  let ?rest = "\<lambda>fs. bind_exec (emit (row_emit dl units fs)) (\<lambda>vals. parent (map_of (zip (map fst (typed_units units)) vals)))"
  have "produce_fields t (of_nat i) (\<lambda>_. Inr None) (unit_names units) (ts_columns ?scan) = Inr (row_fields t (unit_names units) i ?r)"
  proof (rule produce_fields_Inr)
    fix c v assume c: "c \<in> set (unit_names units)" "c \<noteq> ''tid''"
    then obtain iu type where u: "(iu, c, type) \<in> set units" by (auto simp: unit_names_def)
    note C = column_facts [OF at units u c(2)]
    show "Inr None = (Inr (?r ! column_index t c) :: NValue option result)" using C(1) by simp
    show "load_field t (of_nat i) c v = Inr (if ty_nullable (ci_type (fst (tb_columns t ! column_index t c))) then NullableField False v else ValueField v)"
      using load_field_nth [OF F(2) C(1) F(3) i(1), of v] i(1) F(8) C(3) by simp
  qed
  then have fields: "scan_fields name ?scan b i (skipped_world w) = Some (Inr (?fs, skipped_world w))"
    using t by (simp add: scan_fields_def with_table_def skipped_world_def row_fields_units [OF at units] TableScan_ctor_def)
  have "skips_as (emit (row_emit dl units ?fs)) (list_all2 (\<lambda>u. unit_typed (fst (snd u)) (snd (snd u))) units)"
    by (rule gives_skips [OF row_emit_absent [OF at units refl]])
  moreover have "skips (parent (map_of (zip (map fst (typed_units units)) vals)))"
    if "list_all2 (\<lambda>u. unit_typed (fst (snd u)) (snd (snd u))) units vals" for vals
  proof -
    have d: "distinct (map fst units)" using units by (simp add: units_ok_def)
    have "mapping_ok units (map_of (zip (map fst (typed_units units)) vals))"
      using map_of_units [OF d _ that] by (fastforce simp: mapping_ok_def)
    with k show ?thesis by (simp add: skipped_by_def)
  qed
  ultimately have "skips (?rest ?fs)" by (rule skips_bind)
  then obtain x s where "?rest ?fs (skipped_world w) = Some (Inr (x, set_machine w s))" using skips_at by blast
  with fields have "(bind_exec (scan_fields name ?scan b i) ?rest) (skipped_world w) = Some (Inr (x, set_machine w s))"
    by (simp add: bind_exec_def)
  from skip_exec_at [of "bind_exec (scan_fields name ?scan b i) ?rest", OF this] show ?thesis
    unfolding scan_body using vis by (simp add: bind_exec_def [of "isVisible name i b"] exec_if_def)
qed

text \<open>A row of the snapshot: the parent runs with its values.\<close>

definition lineage_read :: "branch_id_t \<Rightarrow> world \<Rightarrow> bool" where
  "lineage_read b w \<longleftrightarrow> (b \<noteq> master_branch_id \<longrightarrow> ctx_branch_lineage (wo_ctx w) = lineage_of (db_branches (wo_db w)) b)"

lemma scan_row_shown:
  assumes at: "scan_at name b S t w" and units: "units_ok t units" and i: "i < tb_rows t" "S name b i = Some r"
    and r: "row_ok t units r"
  shows "\<exists>w'. scan_row dl name b (typed_units units) (TableScan_ctor t (unit_names units)) parent i w = parent (row_mapping t units i r) w'
    \<and> (\<exists>s ctx. w' = w\<lparr>wo_machine := s, wo_ctx := ctx\<rparr> \<and> quiet (wo_machine w) s) \<and> scan_at name b S t w' \<and> lineage_read b w'"
proof -
  note F = scan_at_facts [OF at units]
  let ?brs = "db_branches (wo_db w)" and ?scan = "TableScan_ctor t (unit_names units)"
  have t: "Database_getTable (wo_db w) name = Some t" and run: "running w"
    and ctx: "b \<noteq> master_branch_id \<longrightarrow> ctx_serves ?brs b (wo_ctx w)" using at by (simp_all add: scan_at_def)
  have visible: "tb_visible t i b" using F(7) [OF i(1)] i(2) by (auto simp: visible_row_def split: if_splits)
  with isVisibleInBranch_Inr [OF F(1) i(1) F(5)] have vis: "isVisible name i b w = Some (Inr (True, w))"
    using t run by (simp add: isVisible_def with_table_def call_exec_def)
  from produce_tuple_Inr [OF F(1,3,4,6) i(1) visible ctx] F(7) [OF i(1)] i(2) obtain ctx' where
    tuple: "TableScan_produce_tuple t ?scan b (of_nat i) (wo_ctx w) = (Some (Inr (row_fields t (unit_names units) i r)), ctx')"
      "b \<noteq> master_branch_id \<longrightarrow> ctx_serves ?brs b ctx'" by auto
  let ?w1 = "w\<lparr>wo_ctx := ctx'\<rparr>" and ?fs = "map (\<lambda>(iu, c, type). unit_field t i r c) units"
  have fields: "scan_fields name ?scan b i w = Some (Inr (?fs, ?w1))"
    using t run tuple(1) by (simp add: scan_fields_def with_table_def row_fields_units [OF at units])
  from gives_emit [OF row_emit_present [OF r], of dl i ?w1] obtain s where
    s: "emit (row_emit dl units ?fs) ?w1 = Some (Inr (map (\<lambda>(iu, c, type). unit_value t i r c) units, set_machine ?w1 s))" "quiet (wo_machine w) s"
    by auto
  have "scan_row dl name b (typed_units units) ?scan parent i w = parent (row_mapping t units i r) (set_machine ?w1 s)"
    unfolding scan_body using vis fields s(1) by (simp add: bind_exec_def exec_if_def row_mapping_zip)
  moreover have "scan_at name b S t (set_machine ?w1 s)"
    using at tuple(2) s(2) by (simp add: scan_at_def set_machine_def running_def quiet_status)
  moreover have "lineage_read b (set_machine ?w1 s)"
    using produce_tuple_lineage [OF tuple(1)] ctx by (simp add: lineage_read_def set_machine_def)
  moreover have "set_machine ?w1 s = w\<lparr>wo_machine := s, wo_ctx := ctx'\<rparr>" by (simp add: set_machine_def)
  ultimately show ?thesis using s(2) by blast
qed

end
