(* ===== verification/SelectRuns.thy ===== *)
theory SelectRuns
  imports ScanRuns
begin

text \<open>
  Selections over a scan and the stream of their tuples. A condition compares a unit of a column with a value of
  the type of the column, the form the analysers construct.
\<close>

section \<open>Conditions\<close>

type_synonym conds = "((iu_p \<times> string \<times> SqlType) \<times> NValue) list"

definition cond_exp :: "(iu_p \<times> string \<times> SqlType) \<times> NValue \<Rightarrow> physical_exp" where
  "cond_exp = (\<lambda>((iu, c, type), v). PComparison (getBoolTy False) eq (PIdentifier iu type) (PConstant (generated v)))"

definition conds_ok :: "units \<Rightarrow> conds \<Rightarrow> bool" where
  "conds_ok units conds \<longleftrightarrow> (\<forall>((iu, c, type), v) \<in> set conds. (iu, c, type) \<in> set units \<and> c \<noteq> ''tid'' \<and> scalar_of type v)"

definition row_matches :: "NValue Table \<Rightarrow> conds \<Rightarrow> NValue row \<Rightarrow> bool" where
  "row_matches t conds r \<longleftrightarrow> (\<forall>((iu, c, type), v) \<in> set conds. r ! column_index t c = Some v)"

lemma compare_run:
  "Value_compare_gen (GInteger i) (GInteger j) eq s = Inr (GInteger i = GInteger j, s)"
  "Value_compare_gen (GNumeric type k) (GNumeric type l) eq s = Inr (GNumeric type k = GNumeric type l, s)"
  "Value_compare_gen (GDate i) (GDate j) eq s = Inr (GDate i = GDate j, s)"
  "Value_compare_gen (GTimestamp k) (GTimestamp l) eq s = Inr (GTimestamp k = GTimestamp l, s)"
  by (auto simp: Value_compare_gen_def class_compare_def Value_compare_base_def Value_icmp_def yield_gen_def intro: signed_word_eqI)

lemma scalar_not_null:
  assumes "scalar_of type v"
  shows "\<not> isUnknown_gen (generated v)" "\<not> isNullable_gen (generated v)"
  using assms by (auto elim!: scalar_ofE simp: isUnknown_gen_def isNullable_gen_def typeIDs)

lemma cond_evaluates:
  assumes "scalar_of type u" "scalar_of type v" "vals iu = Some (generated u)"
  shows "evaluate (cond_exp ((iu, c, type), v)) vals s = Inr (GBool (u = v), s)"
proof -
  have "generated u = generated v \<longleftrightarrow> u = v" by (rule generated_inj [OF assms(1,2)])
  moreover have "Value_compare_gen (generated u) (generated v) eq s = Inr (generated u = generated v, s)"
    using assms(1)
  proof (cases rule: scalar_ofE)
    case (1 i)
    from assms(2) 1(2) obtain j where "v = NInteger j" by (auto elim!: scalar_ofE simp: typeIDs)
    with 1(1) show ?thesis by (simp add: compare_run)
  next
    case (2 i)
    from assms(2) 2(2) obtain j where "v = NNumeric type j" by (auto elim!: scalar_ofE simp: typeIDs)
    with 2(1) show ?thesis by (simp add: compare_run)
  next
    case (3 i)
    from assms(2) 3(2) obtain j where "v = NDate j" by (auto elim!: scalar_ofE simp: typeIDs)
    with 3(1) show ?thesis by (simp add: compare_run)
  next
    case (4 i)
    from assms(2) 4(2) obtain j where "v = NTimestamp j" by (auto elim!: scalar_ofE simp: typeIDs)
    with 4(1) show ?thesis by (simp add: compare_run)
  qed
  ultimately have "sqlCompare (generated u) (generated v) eq s = Inr (GBool (u = v), s)"
    using scalar_values(2,3) [OF assms(1)] scalar_values(2) [OF assms(2)]
    by (simp add: sqlCompare_def same_type_gen_def SqlType_equals_def with_result_type_def inferCompareTy_def
        nullHandler2_def scalar_not_null [OF assms(1)] scalar_not_null [OF assms(2)] bind_gen_def yield_gen_def)
  then show ?thesis
    using assms(3) by (simp add: cond_exp_def evaluate_both_def typed_result_def bind_gen_def yield_gen_def SqlType_equals_def typeIDs)
qed

lemma select_runs:
  assumes "scalar_of type u" "scalar_of type v" "vals iu = Some (generated u)"
  shows "PSelect_consume (cond_exp ((iu, c, type), v)) parent vals = exec_if (u = v) (parent vals)"
proof
  fix w :: world
  have "isTrue (GBool (u = v)) s = Inr (u = v, s)" for s :: machine
    by (simp add: isTrue_def nullHandlerExtended_def isNullable_gen_def isUnknown_gen_def typeIDs bool_of_def gen_run)
  with emit_machine [OF cond_evaluates [of type u v vals iu, OF assms]] show "PSelect_consume (cond_exp ((iu, c, type), v)) parent vals w = exec_if (u = v) (parent vals) w"
    by (simp add: PSelect_consume_def bind_exec_def emit_machine typeIDs)
qed

lemma unit_typedE:
  assumes "mapping_ok units vals" "(iu, c, type) \<in> set units" "c \<noteq> ''tid''"
  obtains u where "vals iu = Some (generated u)" "scalar_of type u"
  using assms by (fastforce simp: mapping_ok_def unit_typed_def)

lemma selects_skipped:
  assumes "conds_ok units conds" "skipped_by units parent"
  shows "skipped_by units (foldr PSelect_consume (map cond_exp conds) parent)"
  using assms(1)
proof (induction conds)
  case (Cons cond conds)
  obtain iu c type v where cond: "cond = ((iu, c, type), v)" by (metis prod.collapse)
  have IH: "skipped_by units (foldr PSelect_consume (map cond_exp conds) parent)"
    using Cons by (simp add: conds_ok_def)
  show ?case
    unfolding skipped_by_def
  proof (intro allI impI)
    fix vals assume m: "mapping_ok units vals"
    from Cons.prems cond obtain u where "vals iu = Some (generated u)" "scalar_of type u" "scalar_of type v"
      by (auto simp: conds_ok_def elim: unit_typedE [OF m])
    with IH m show "skips (foldr PSelect_consume (map cond_exp (cond # conds)) parent vals)"
      by (simp add: cond select_runs skips_if skipped_by_def)
  qed
qed (use assms(2) in simp)

lemma mapping_of_row:
  assumes "units_ok t units" "row_ok t units r"
  shows "mapping_ok units (row_mapping t units i r)"
    "(iu, c, type) \<in> set units \<Longrightarrow> row_mapping t units i r iu = Some (unit_value t i r c)"
proof -
  have d: "distinct (map fst (map (\<lambda>(iu, c, type). (iu, unit_value t i r c)) units))"
    using assms(1) by (simp add: units_ok_def comp_def split_beta)
  have at: "row_mapping t units i r iu = Some (unit_value t i r c)" if "(iu, c, type) \<in> set units" for iu c type
    unfolding row_mapping_def by (rule map_of_is_SomeI [OF d]) (use that in force)
  then show "(iu, c, type) \<in> set units \<Longrightarrow> row_mapping t units i r iu = Some (unit_value t i r c)" .
  have "unit_typed c type (unit_value t i r c)" if "(iu, c, type) \<in> set units" for iu c type
    using row_okD [OF assms(2) that] by (cases "c = ''tid''") (auto simp: unit_typed_def unit_value_def)
  with at show "mapping_ok units (row_mapping t units i r)" by (fastforce simp: mapping_ok_def)
qed

lemma selects_run:
  assumes "units_ok t units" "row_ok t units r" "conds_ok units conds" "skipped_by units parent"
  shows "foldr PSelect_consume (map cond_exp conds) parent (row_mapping t units i r) w =
    (if row_matches t conds r then parent (row_mapping t units i r) w else Some (Inr ((), w)))"
  using assms(3)
proof (induction conds)
  case (Cons cond conds)
  obtain iu c type v where cond: "cond = ((iu, c, type), v)" by (metis prod.collapse)
  note M = mapping_of_row [OF assms(1,2)]
  from Cons.prems cond have u: "(iu, c, type) \<in> set units" "c \<noteq> ''tid''" "scalar_of type v" and ok: "conds_ok units conds"
    by (auto simp: conds_ok_def)
  from row_okD [OF assms(2) u(1,2)] obtain x where x: "r ! column_index t c = Some x" "scalar_of type x" by blast
  with M(2) [OF u(1)] u(2) have "row_mapping t units i r iu = Some (generated x)" by (simp add: unit_value_def)
  from select_runs [of type x v "row_mapping t units i r" iu, OF x(2) u(3) this] have
    "foldr PSelect_consume (map cond_exp (cond # conds)) parent (row_mapping t units i r) w =
       exec_if (x = v) (foldr PSelect_consume (map cond_exp conds) parent (row_mapping t units i r)) w" by (simp add: cond)
  moreover have "skips (foldr PSelect_consume (map cond_exp conds) parent (row_mapping t units i r))"
    using selects_skipped [OF ok assms(4)] M(1) by (simp add: skipped_by_def)
  ultimately show ?case
    using Cons.IH [OF ok] x(1) by (auto simp: exec_if_run row_matches_def cond)
qed (simp add: row_matches_def)

section \<open>Loops\<close>

lemma for_exec_upto:
  assumes "\<And>i w. i < n \<Longrightarrow> I i w \<Longrightarrow> \<exists>w'. f i w = Some (Inr ((), w')) \<and> I (Suc i) w'" "I 0 w"
  shows "\<exists>w'. for_exec f [0 ..< n] w = Some (Inr ((), w')) \<and> I n w'"
proof -
  have "k \<le> n \<Longrightarrow> I k w \<Longrightarrow> \<exists>w'. for_exec f [k ..< n] w = Some (Inr ((), w')) \<and> I n w'" for k w
  proof (induction "n - k" arbitrary: k w)
    case 0
    then show ?case by (simp add: yield_exec_def)
  next
    case (Suc d)
    from Suc.hyps(2) have k: "k < n" "d = n - Suc k" by simp_all
    from assms(1) [OF k(1) Suc.prems(2)] obtain w1 where w1: "f k w = Some (Inr ((), w1))" "I (Suc k) w1" by blast
    from Suc.hyps(1) [OF k(2) _ w1(2)] k(1) obtain w' where "for_exec f [Suc k ..< n] w1 = Some (Inr ((), w'))" "I n w'" by auto
    with w1 k(1) show ?case by (simp add: upt_rec [of k n] bind_exec_def)
  qed
  from this [of 0 w] assms(2) show ?thesis by simp
qed

text \<open>A scan with selections: the rows of the snapshot that match go to the parent.\<close>

definition scan_select :: "data_layout \<Rightarrow> string \<Rightarrow> branch_id_t \<Rightarrow> NValue Table \<Rightarrow> units \<Rightarrow> conds \<Rightarrow> (iu_value_mapping \<Rightarrow> unit exec) \<Rightarrow> unit exec" where
  "scan_select dl name b t units conds parent =
     PTableScan_produce dl name b (typed_units units) (TableScan_ctor t (unit_names units)) (foldr PSelect_consume (map cond_exp conds) parent)"

lemma produce_selects:
  "Operator_produce dl ius (foldl PSelect child es) parent = Operator_produce dl ius child (foldr PSelect_consume es parent)"
  by (induction es arbitrary: child) simp_all

definition same_columns :: "NValue Table \<Rightarrow> NValue Table \<Rightarrow> bool" where
  "same_columns t t' \<longleftrightarrow> map fst (tb_columns t') = map fst (tb_columns t) \<and> tb_columnsByName t' = tb_columnsByName t"

lemma same_columns_index:
  assumes "same_columns t t'"
  shows "column_index t' = column_index t" "TableScan_ctor t' = TableScan_ctor t" "units_ok t' = units_ok t"
    "row_ok t' = row_ok t" "row_matches t' = row_matches t" "row_mapping t' = row_mapping t"
proof -
  from assms have "length (tb_columns t') = length (tb_columns t)" by (metis same_columns_def length_map)
  moreover from assms have infos: "fst ` set (tb_columns t') = fst ` set (tb_columns t)" by (metis same_columns_def set_map)
  ultimately show index: "column_index t' = column_index t"
    using assms by (simp add: fun_eq_iff column_index_def Table_getColumnNames_def Table_getColumnCount_def same_columns_def)
  then show "TableScan_ctor t' = TableScan_ctor t" "row_ok t' = row_ok t" "row_matches t' = row_matches t"
    by (simp_all add: fun_eq_iff TableScan_ctor_def row_ok_def row_matches_def)
  have "unit_value t' = unit_value t" using index by (simp add: fun_eq_iff unit_value_def)
  then show "row_mapping t' = row_mapping t" by (simp add: fun_eq_iff row_mapping_def)
  show "units_ok t' = units_ok t" using infos by (simp add: fun_eq_iff units_ok_def)
qed

definition scan_state :: "string \<Rightarrow> branch_id_t \<Rightarrow> NValue Table \<Rightarrow> NValue snapshots \<Rightarrow> nat \<Rightarrow> world \<Rightarrow> bool" where
  \<comment> \<open>before the i-th row: the rows from there on are as they were\<close>
  "scan_state name b t T i w \<longleftrightarrow> (\<exists>S t'. scan_at name b S t' w \<and> same_columns t t' \<and> tb_rows t' = tb_rows t \<and> (\<forall>j \<ge> i. S name b j = T b j))"

definition stepped :: "world \<Rightarrow> world \<Rightarrow> bool" where
  \<comment> \<open>what reading a row changes\<close>
  "stepped w w' \<longleftrightarrow> (\<exists>s ctx. w' = w\<lparr>wo_machine := s, wo_ctx := ctx\<rparr> \<and> quiet (wo_machine w) s)"

lemma scan_at_stepped:
  assumes "scan_at name b S t w" "stepped w w'" "scan_state name b t' T i w'"
  shows "scan_at name b S t w'"
  using assms by (auto simp: scan_at_def scan_state_def stepped_def running_def quiet_status)

lemma scan_select_run:
  assumes units: "units_ok t units" and conds: "conds_ok units conds" and k: "skipped_by units parent"
    and rows: "\<forall>i < tb_rows t. \<forall>r. T b i = Some r \<longrightarrow> row_ok t units r"
    and state: "\<And>i w. i \<le> tb_rows t \<Longrightarrow> J i w \<Longrightarrow> scan_state name b t T i w"
    and read: "\<And>i w w'. J i w \<Longrightarrow> stepped w w' \<Longrightarrow> scan_state name b t T i w' \<Longrightarrow> J i w'"
    and match: "\<And>i r w. i < tb_rows t \<Longrightarrow> J i w \<Longrightarrow> lineage_read b w \<Longrightarrow> T b i = Some r \<Longrightarrow> row_matches t conds r \<Longrightarrow>
      \<exists>w'. parent (row_mapping t units i r) w = Some (Inr ((), w')) \<and> J (Suc i) w'"
    and skip: "\<And>i w. i < tb_rows t \<Longrightarrow> J i w \<Longrightarrow> (\<forall>r. T b i = Some r \<longrightarrow> \<not> row_matches t conds r) \<Longrightarrow> J (Suc i) w"
    and start: "J 0 w"
  shows "\<exists>w'. scan_select dl name b t units conds parent w = Some (Inr ((), w')) \<and> J (tb_rows t) w'"
proof -
  let ?parent = "foldr PSelect_consume (map cond_exp conds) parent"
  let ?row = "scan_row dl name b (typed_units units) (TableScan_ctor t (unit_names units)) ?parent"
  note skipped = selects_skipped [OF conds k]
  have step: "\<exists>w'. ?row i w = Some (Inr ((), w')) \<and> J (Suc i) w'" if i: "i < tb_rows t" and J: "J i w" for i w
  proof -
    from state [OF _ J] i obtain S t' where S: "scan_at name b S t' w" "same_columns t t'" "tb_rows t' = tb_rows t" "\<forall>j \<ge> i. S name b j = T b j"
      unfolding scan_state_def by auto
    note same = same_columns_index [OF S(2)]
    have u': "units_ok t' units" and i': "i < tb_rows t'" and here: "S name b i = T b i" using units i S(3,4) same(3) by simp_all
    show ?thesis
    proof (cases "T b i")
      case None
      from scan_row_hidden [OF S(1) u' i' _ skipped, of dl] None here have "?row i w = Some (Inr ((), w))" by (simp add: same(2))
      with skip [OF i J] None show ?thesis by simp
    next
      case (Some r)
      have ok: "row_ok t units r" using rows i Some by blast
      then have ok': "row_ok t' units r" by (simp add: same(4))
      from scan_row_shown [OF S(1) u' i' _ ok', of dl ?parent] Some here obtain w1 where
        w1: "?row i w = ?parent (row_mapping t units i r) w1" "stepped w w1" "scan_at name b S t' w1" "lineage_read b w1"
        unfolding stepped_def same(2,6) by auto
      with S have "scan_state name b t T i w1" unfolding scan_state_def by blast
      from read [OF J w1(2) this] have J1: "J i w1" .
      note run = selects_run [OF units ok conds k, of i w1]
      show ?thesis
      proof (cases "row_matches t conds r")
        case True
        with match [OF i J1 w1(4) Some] run w1(1) show ?thesis by simp
      next
        case False
        with skip [OF i J1] Some run w1(1) show ?thesis by simp
      qed
    qed
  qed
  from state [OF _ start] obtain S t' where S: "scan_at name b S t' w" "same_columns t t'" "tb_rows t' = tb_rows t"
    unfolding scan_state_def by auto
  have table: "Database_getTable (wo_db w) name = Some t'" using S(1) by (simp add: scan_at_def)
  have "Table_size t' = tb_rows t"
    using Table_size_rows [OF scan_at_facts(1) [OF S(1), of units]] units same_columns_index(3) [OF S(2)] S(3) by simp
  moreover from for_exec_upto [where f = ?row and I = J and n = "tb_rows t", OF step start]
  obtain w' where w': "for_exec ?row [0 ..< tb_rows t] w = Some (Inr ((), w'))" "J (tb_rows t) w'" by blast
  ultimately show ?thesis
    using table by (cases "tb_rows t = 0") (auto simp: scan_select_def PTableScan_produce_def with_table_def yield_exec_def Let_def)
qed

section \<open>Streams\<close>

definition unit_tuple :: "NValue Table \<Rightarrow> units \<Rightarrow> NValue row \<Rightarrow> NValue list" where
  "unit_tuple t cols r = map (\<lambda>(iu, c, type). the (r ! column_index t c)) cols"

definition cols_ok :: "units \<Rightarrow> units \<Rightarrow> bool" where
  "cols_ok units cols \<longleftrightarrow> set cols \<subseteq> set units \<and> (\<forall>(iu, c, type) \<in> set cols. c \<noteq> ''tid'')"

lemma native_tuple_generated:
  assumes "list_all2 (\<lambda>u. scalar_of (snd (snd u))) cols vs"
  shows "native_tuple (map generated vs) s = Inr (vs, s)"
proof -
  have "mapM_res (sqlValueToNativeSqlValue m) (map generated vs) = Inr (map Some vs)" for m
    using assms by (induction cols vs rule: list_all2_induct) (simp_all add: scalar_values(4))
  then show ?thesis by (auto simp: native_tuple_def comp_def)
qed

lemma increment_quiet: "\<exists>s'. increment p s = Inr ((), s') \<and> quiet s s'"
  by (auto simp: increment_def load_u64_def store_u64_def gen_run)

lemma emit_increment: "\<exists>s. emit (increment p) w = Some (Inr ((), set_machine w s)) \<and> quiet (wo_machine w) s"
proof -
  from increment_quiet [of p "wo_machine w"] obtain s where "increment p (wo_machine w) = Inr ((), s)" "quiet (wo_machine w) s" by blast
  from emit_machine [of "increment p", OF this(1)] this(2) show ?thesis by blast
qed

lemma skips_increment: "skips (emit (increment p))"
  unfolding skips_def using emit_increment by blast

lemma value_at_run: "vals iu = Some v \<Longrightarrow> value_at vals iu s = Inr (v, s)"
  by (simp add: value_at_def yield_gen_def)

lemma values_given:
  assumes "mapping_ok units vals" "cols_ok units cols"
  shows "\<exists>vs. mapM_gen (value_at vals) (map fst cols) s = Inr (map generated vs, s) \<and> list_all2 (\<lambda>u. scalar_of (snd (snd u))) cols vs
    \<and> list_all2 (\<lambda>u v. vals (fst u) = Some (generated v)) cols vs"
  using assms(2)
proof (induction cols)
  case (Cons u cols)
  obtain iu c type where u: "u = (iu, c, type)" by (metis prod.collapse)
  with Cons.prems have "(iu, c, type) \<in> set units" "c \<noteq> ''tid''" and cols: "cols_ok units cols" by (auto simp: cols_ok_def)
  then obtain v where v: "vals iu = Some (generated v)" "scalar_of type v" by (auto elim: unit_typedE [OF assms(1)])
  from Cons.IH [OF cols] obtain vs where vs: "mapM_gen (value_at vals) (map fst cols) s = Inr (map generated vs, s)"
    "list_all2 (\<lambda>u. scalar_of (snd (snd u))) cols vs" "list_all2 (\<lambda>u v. vals (fst u) = Some (generated v)) cols vs" by blast
  with v u show ?case by (intro exI [of _ "v # vs"]) (simp add: bind_gen_def value_at_run yield_gen_def)
qed (simp add: yield_gen_def)

lemma stream_consume:
  assumes "mapping_ok units vals" "cols_ok units cols"
  shows "\<exists>vs s. PTupleStream_consume (map fst cols) p vals w = Some (Inr ((), (if running w then w\<lparr>wo_streamed := wo_streamed w @ [(mem_of (wo_machine w), vs)]\<rparr> else w)\<lparr>wo_machine := s\<rparr>))
    \<and> quiet (wo_machine w) s \<and> list_all2 (\<lambda>u v. vals (fst u) = Some (generated v) \<and> scalar_of (snd (snd u)) v) cols vs"
proof -
  from values_given [OF assms, of "wo_machine w"] obtain vs where vs:
    "mapM_gen (value_at vals) (map fst cols) (wo_machine w) = Inr (map generated vs, wo_machine w)"
    "list_all2 (\<lambda>u. scalar_of (snd (snd u))) cols vs" "list_all2 (\<lambda>u v. vals (fst u) = Some (generated v)) cols vs" by blast
  let ?w1 = "if running w then w\<lparr>wo_streamed := wo_streamed w @ [(mem_of (wo_machine w), vs)]\<rparr> else w"
  from emit_increment [of p ?w1] obtain s where s: "emit (increment p) ?w1 = Some (Inr ((), set_machine ?w1 s))" "quiet (wo_machine ?w1) s" by blast
  have "PTupleStream_consume (map fst cols) p vals w = emit (increment p) ?w1"
    using emit_run [of "mapM_gen (value_at vals) (map fst cols)" w, OF vs(1)]
      emit_run [of "native_tuple (map generated vs)" w, OF native_tuple_generated [OF vs(2)]]
    by (simp add: PTupleStream_consume_def bind_exec_def callHandler_def call_exec_def)
  moreover have "list_all2 (\<lambda>u v. vals (fst u) = Some (generated v) \<and> scalar_of (snd (snd u)) v) cols vs"
    using vs(2,3) by (auto simp: list_all2_conv_all_nth split_beta)
  ultimately show ?thesis using s by (intro exI [of _ vs] exI [of _ s]) (auto simp: set_machine_def split: if_splits)
qed

lemma stream_skipped: "cols_ok units cols \<Longrightarrow> skipped_by units (PTupleStream_consume (map fst cols) p)"
  unfolding skipped_by_def skips_def
proof (intro allI impI)
  fix vals and w :: world assume "cols_ok units cols" "mapping_ok units vals" "mc_status (wo_machine w) = Skipped"
  with stream_consume [of units vals cols p w] show
    "\<exists>x s. PTupleStream_consume (map fst cols) p vals w = Some (Inr (x, set_machine w s)) \<and> quiet (wo_machine w) s"
    by (auto simp: running_def set_machine_def)
qed

definition snapshot_rows :: "(nat \<Rightarrow> NValue row option) \<Rightarrow> nat \<Rightarrow> NValue row list" where
  \<comment> \<open>the rows of a snapshot in the order of their tids\<close>
  "snapshot_rows T n = concat (map (\<lambda>i. case T i of None \<Rightarrow> [] | Some r \<Rightarrow> [r]) [0 ..< n])"

lemma snapshot_rows_Suc:
  "snapshot_rows T 0 = []" "snapshot_rows T (Suc n) = snapshot_rows T n @ (case T n of None \<Rightarrow> [] | Some r \<Rightarrow> [r])"
  by (simp_all add: snapshot_rows_def)

lemma stream_run:
  assumes at: "scan_at name b S t w" and units: "units_ok t units" and conds: "conds_ok units conds" and cols: "cols_ok units cols"
    and rows: "\<forall>i < tb_rows t. \<forall>r. S name b i = Some r \<longrightarrow> row_ok t units r"
  shows "\<exists>w'. scan_select dl name b t units conds (PTupleStream_consume (map fst cols) p) w = Some (Inr ((), w'))
    \<and> map snd (wo_streamed w') = map snd (wo_streamed w) @ map (unit_tuple t cols) (filter (row_matches t conds) (snapshot_rows (S name b) (tb_rows t)))
    \<and> wo_db w' = wo_db w"
proof -
  define J where "J i w' \<longleftrightarrow> scan_at name b S t w' \<and> wo_db w' = wo_db w \<and> map snd (wo_streamed w') =
    map snd (wo_streamed w) @ map (unit_tuple t cols) (filter (row_matches t conds) (snapshot_rows (S name b) i))" for i w'
  let ?parent = "PTupleStream_consume (map fst cols) p"
  have match: "\<exists>w2. ?parent (row_mapping t units i r) w1 = Some (Inr ((), w2)) \<and> J (Suc i) w2"
    if i: "i < tb_rows t" and J: "J i w1" and r: "S name b i = Some r" "row_matches t conds r" for i r w1
  proof -
    have ok: "row_ok t units r" using rows i r(1) by blast
    note M = mapping_of_row [OF units ok]
    have "running w1" using J by (simp add: J_def scan_at_def)
    with stream_consume [OF M(1) cols, of p i w1] obtain vs s where
      run: "?parent (row_mapping t units i r) w1 = Some (Inr ((), w1\<lparr>wo_streamed := wo_streamed w1 @ [(mem_of (wo_machine w1), vs)]\<rparr>\<lparr>wo_machine := s\<rparr>))"
        "quiet (wo_machine w1) s" and vs: "list_all2 (\<lambda>u v. row_mapping t units i r (fst u) = Some (generated v) \<and> scalar_of (snd (snd u)) v) cols vs"
      by auto
    have "vs ! k = the (r ! column_index t (fst (snd (cols ! k))))" if k: "k < length cols" for k
    proof -
      obtain iu c type where u: "cols ! k = (iu, c, type)" by (metis prod.collapse)
      then have "(iu, c, type) \<in> set cols" using k nth_mem by metis
      with cols have m: "(iu, c, type) \<in> set units" "c \<noteq> ''tid''" by (auto simp: cols_ok_def)
      from row_okD [OF ok m] obtain x where x: "r ! column_index t c = Some x" "scalar_of type x" by blast
      from list_all2_nthD [OF vs k] u M(2) [OF m(1)] m(2) x generated_inj [of type "vs ! k" x] show ?thesis
        by (simp add: unit_value_def)
    qed
    then have "vs = unit_tuple t cols r" using list_all2_lengthD [OF vs] by (simp add: unit_tuple_def list_eq_iff_nth_eq split_beta)
    with run J r show ?thesis
      by (auto simp: J_def snapshot_rows_Suc scan_at_def running_def quiet_status)
  qed
  have "\<exists>w'. scan_select dl name b t units conds ?parent w = Some (Inr ((), w')) \<and> J (tb_rows t) w'"
  proof (rule scan_select_run [where T = "S name" and J = J, OF units conds stream_skipped [OF cols] rows])
    show "scan_state name b t (S name) i w1" if "J i w1" for i w1
      using that by (auto simp: J_def scan_state_def same_columns_def)
    show "J i w2" if "J i w1" "stepped w1 w2" "scan_state name b t (S name) i w2" for i w1 w2
      using that scan_at_stepped [of name b S t w1 w2] by (auto simp: J_def stepped_def)
  qed (use at match in \<open>auto simp: J_def snapshot_rows_Suc split: option.split\<close>)
  then show ?thesis by (auto simp: J_def)
qed

end
