(* ===== verification/QueryRuns.thy ===== *)
theory QueryRuns
  imports SelectRuns
begin

text \<open>
  The trees the analysers construct for one relation, from their translation to the end of their run: a scan, a
  selection for every comparison of the WHERE clause, and the operator of the statement.
\<close>

section \<open>Units\<close>

definition column_unit :: "InformationUnit list \<Rightarrow> NValue Table \<Rightarrow> iu_p \<Rightarrow> bool" where
  \<comment> \<open>a unit of the tid or of a column of the table that has a scalar type\<close>
  "column_unit ius t iu \<longleftrightarrow> (\<exists>u ci. deref_iu ius iu = Inr u \<and> iu_iuType u = ColumnRef \<and> iu_columnInformation u = Some ci
     \<and> iu_sqlType u = ci_type ci \<and> (ci_columnName ci = ''tid'' \<or> scalar_type (ci_type ci) \<and> ci \<in> fst ` set (tb_columns t)))"

definition unit_info :: "InformationUnit list \<Rightarrow> iu_p \<Rightarrow> iu_p \<times> string \<times> SqlType" where
  "unit_info ius iu = (case getColumnInformation ius iu of Inr ci \<Rightarrow> (iu, ci_columnName ci, ci_type ci) | Inl _ \<Rightarrow> (iu, [], getUnknownTy))"

abbreviation unit_column :: "InformationUnit list \<Rightarrow> iu_p \<Rightarrow> string" where
  "unit_column ius iu \<equiv> fst (snd (unit_info ius iu))"

abbreviation unit_type :: "InformationUnit list \<Rightarrow> iu_p \<Rightarrow> SqlType" where
  "unit_type ius iu \<equiv> snd (snd (unit_info ius iu))"

lemma unit_info_fst [simp]: "fst (unit_info ius iu) = iu"
  by (simp add: unit_info_def split: sum.split)

lemma unit_info_eq: "unit_info ius iu = (iu, unit_column ius iu, unit_type ius iu)"
  by (metis prod.collapse unit_info_fst)

lemma column_unit_info:
  assumes "column_unit ius t iu"
  shows "iu_getType ius iu = Inr (unit_type ius iu)" "getColumnInformation ius iu = Inr ci \<Longrightarrow> unit_info ius iu = (iu, ci_columnName ci, ci_type ci)"
    "\<exists>ci. getColumnInformation ius iu = Inr ci"
    "unit_column ius iu \<noteq> ''tid'' \<Longrightarrow> scalar_type (unit_type ius iu)
       \<and> (\<exists>ci \<in> fst ` set (tb_columns t). ci_columnName ci = unit_column ius iu \<and> ci_type ci = unit_type ius iu)"
  using assms
  by (auto 0 4 simp: column_unit_def unit_info_def getColumnInformation_def iu_getType_def intro: rev_bexI)

lemma column_units_ok:
  assumes "distinct xs" "\<forall>iu \<in> set xs. column_unit ius t iu"
  shows "units_ok t (map (unit_info ius) xs)"
  unfolding units_ok_def
proof
  have "map fst (map (unit_info ius) xs) = xs" by (simp add: comp_def)
  then show "distinct (map fst (map (unit_info ius) xs))" using assms(1) by argo
  show "\<forall>(iu, c, type) \<in> set (map (unit_info ius) xs). c \<noteq> ''tid'' \<longrightarrow>
     scalar_type type \<and> (\<exists>ci \<in> fst ` set (tb_columns t). ci_columnName ci = c \<and> ci_type ci = type)"
  proof clarify
    fix iu c type assume "(iu, c, type) \<in> set (map (unit_info ius) xs)" and tid: "c \<noteq> ''tid''"
    then obtain x where "x \<in> set xs" "unit_info ius x = (iu, c, type)" by auto
    with column_unit_info(4) [of ius t x] assms(2) tid
    show "scalar_type type \<and> (\<exists>ci \<in> fst ` set (tb_columns t). ci_columnName ci = c \<and> ci_type ci = type)" by simp
  qed
qed

lemma required_columns:
  assumes "\<forall>iu \<in> set xs. column_unit (tc_ius tc) t iu"
  shows "mapM_gen (required_column tc) xs s = Inr (map (unit_info (tc_ius tc)) xs, s)"
  using assms
proof (induction xs)
  case (Cons x xs)
  then obtain ci where ci: "getColumnInformation (tc_ius tc) x = Inr ci" using column_unit_info(3) by fastforce
  with Cons column_unit_info(2) [of "tc_ius tc" t x ci] show ?case
    by (simp add: required_column_def bind_gen_def lift_gen_def yield_gen_def)
qed (simp add: yield_gen_def)

section \<open>Comparisons\<close>

text \<open>A comparison of the WHERE clause: the unit, the text of the constant, and the value the text stands for.\<close>

type_synonym wheres = "(iu_p \<times> string \<times> NValue) list"

definition where_exp :: "InformationUnit list \<Rightarrow> iu_p \<times> string \<times> NValue \<Rightarrow> expression" where
  "where_exp ius = (\<lambda>(iu, str, v). Comparison eq (Identifier iu) (Constant str (unit_type ius iu)) (getBoolTy False))"

definition where_ok :: "InformationUnit list \<Rightarrow> NValue Table \<Rightarrow> iu_p \<times> string \<times> NValue \<Rightarrow> bool" where
  "where_ok ius t = (\<lambda>(iu, str, v). column_unit ius t iu \<and> unit_column ius iu \<noteq> ''tid'' \<and> scalar_of (unit_type ius iu) v
     \<and> (\<forall>s. Value_castString_gen str (unit_type ius iu) s = Inr (generated v, s)))"

definition where_cond :: "InformationUnit list \<Rightarrow> iu_p \<times> string \<times> NValue \<Rightarrow> (iu_p \<times> string \<times> SqlType) \<times> NValue" where
  "where_cond ius = (\<lambda>(iu, str, v). (unit_info ius iu, v))"

definition selection_tree :: "InformationUnit list \<Rightarrow> LogicalScan \<Rightarrow> wheres \<Rightarrow> tree" where
  "selection_tree ius scan wheres = foldl Select (TableScan scan) (map (where_exp ius) wheres)"

definition needed_units :: "translation_context \<Rightarrow> iu_p set \<Rightarrow> wheres \<Rightarrow> units" where
  "needed_units tc R wheres = map (unit_info (tc_ius tc)) (tc_addresses tc (R \<union> fst ` set wheres))"

definition physical_selection :: "translation_context \<Rightarrow> string \<Rightarrow> branch_id_t \<Rightarrow> NValue Table \<Rightarrow> units \<Rightarrow> conds \<Rightarrow> physical_operator" where
  "physical_selection tc name b t units conds =
     foldl PSelect (PTableScan name b (typed_units units) (TableScan_ctor t (unit_names units))) (map cond_exp conds)"

lemma translate_where:
  assumes "where_ok (tc_ius tc) t x"
  shows "translate_exp (tc_ius tc) (where_exp (tc_ius tc) x) s = Inr (cond_exp (where_cond (tc_ius tc) x), s)"
    "collectRequired (where_exp (tc_ius tc) x) = Inr {fst x}"
proof -
  obtain iu str v where x: "x = (iu, str, v)" by (metis prod.collapse)
  with assms have w: "column_unit (tc_ius tc) t iu" "\<forall>s. Value_castString_gen str (unit_type (tc_ius tc) iu) s = Inr (generated v, s)"
    by (simp_all add: where_ok_def)
  have "cond_exp (unit_info (tc_ius tc) iu, v) = PComparison (getBoolTy False) eq (PIdentifier iu (unit_type (tc_ius tc) iu)) (PConstant (generated v))"
    by (subst unit_info_eq) (simp add: cond_exp_def split_beta)
  then show "translate_exp (tc_ius tc) (where_exp (tc_ius tc) x) s = Inr (cond_exp (where_cond (tc_ius tc) x), s)"
    using w(2) column_unit_info(1) [OF w(1)] by (simp add: x where_exp_def where_cond_def bind_gen_def lift_gen_def yield_gen_def)
  show "collectRequired (where_exp (tc_ius tc) x) = Inr {fst x}" by (simp add: x where_exp_def)
qed

lemma translate_selection:
  assumes env: "finite R" "\<And>s. finite s \<Longrightarrow> set (tc_addresses tc s) = s"
    and t: "Database_getTable (tc_db tc) (sc_table scan) = Some t"
    and units: "\<forall>iu \<in> R. column_unit (tc_ius tc) t iu" and wheres: "\<forall>x \<in> set wheres. where_ok (tc_ius tc) t x"
  shows "\<exists>rt. updateRequiredSetsTraverser (Some (R, 1)) (selection_tree (tc_ius tc) scan wheres) = Inr rt
    \<and> translate_tree tc (selection_tree (tc_ius tc) scan wheres) rt s =
        Inr (physical_selection tc (sc_table scan) (sc_branchId scan) t (needed_units tc R wheres) (map (where_cond (tc_ius tc)) wheres), s)"
  using env(1) units wheres
proof (induction wheres arbitrary: R rule: rev_induct)
  case Nil
  then have "\<forall>iu \<in> set (tc_addresses tc R). column_unit (tc_ius tc) t iu" using env(2) by simp
  from required_columns [OF this] t show ?case
    by (simp add: selection_tree_def physical_selection_def needed_units_def computeRequired_def computeExpected_def
        PTableScan_ctor_def find_table_def bind_gen_def yield_gen_def typed_units_def unit_names_def)
next
  case (snoc x wheres)
  let ?R = "R \<union> {fst x}"
  have x: "where_ok (tc_ius tc) t x" using snoc.prems(3) by simp
  then have "column_unit (tc_ius tc) t (fst x)" by (auto simp: where_ok_def)
  with snoc.prems have "finite ?R" "\<forall>iu \<in> ?R. column_unit (tc_ius tc) t iu" "\<forall>x \<in> set wheres. where_ok (tc_ius tc) t x" by auto
  from snoc.IH [OF this] obtain rt where rt: "updateRequiredSetsTraverser (Some (?R, 1)) (selection_tree (tc_ius tc) scan wheres) = Inr rt"
    "translate_tree tc (selection_tree (tc_ius tc) scan wheres) rt s =
        Inr (physical_selection tc (sc_table scan) (sc_branchId scan) t (needed_units tc ?R wheres) (map (where_cond (tc_ius tc)) wheres), s)"
    by blast
  have "needed_units tc ?R wheres = needed_units tc R (wheres @ [x])" by (simp add: needed_units_def ac_simps insert_commute)
  with rt translate_where [OF x] show ?case
    by (auto simp: selection_tree_def physical_selection_def unaryRequired_def computeRequired_def computeExpected_def
        bind_gen_def yield_gen_def)
qed

section \<open>Runs\<close>

definition row_typed :: "NValue Table \<Rightarrow> NValue row \<Rightarrow> bool" where
  \<comment> \<open>the row has a value of the type of the column in every column of a scalar type\<close>
  "row_typed t r \<longleftrightarrow> (\<forall>j < length (tb_columns t). scalar_type (ci_type (fst (tb_columns t ! j))) \<longrightarrow>
     (\<exists>v. r ! j = Some v \<and> scalar_of (ci_type (fst (tb_columns t ! j))) v))"

lemma row_typed_ok:
  assumes "scan_at name b S t w" "units_ok t units" "row_typed t r"
  shows "row_ok t units r"
proof -
  have "\<exists>v. r ! column_index t c = Some v \<and> scalar_of type v" if "(iu, c, type) \<in> set units" "c \<noteq> ''tid''" for iu c type
    using column_facts [OF assms(1,2) that] assms(3) by (auto simp: row_typed_def)
  then show ?thesis by (force simp: row_ok_def)
qed

lemma run_start:
  assumes inv: "db_inv (ac_db c) S" and t: "Database_getTable (ac_db c) name = Some t" and b: "b < db_next_branch_id (ac_db c)"
    and branch: "ac_branchIds c = {b}" and s: "mc_status s = Running"
  shows "\<exists>ctx. constructBranchLineages (sorted_list_of_set (ac_branchIds c)) (ac_db c) ExecutionContext_ctor = Some (Inr ctx)
    \<and> scan_at name b S t (query_world c s ctx)"
proof -
  have "branches_ok (db_branches (ac_db c)) (db_next_branch_id (ac_db c))" using inv by (simp add: db_inv_def)
  from constructBranchLineage_Inr [OF this b, of ExecutionContext_ctor] obtain ctx where
    ctx: "constructBranchLineage (ac_db c) b ExecutionContext_ctor = Some (Inr ctx)" "ctx_serves (db_branches (ac_db c)) b ctx"
    by (auto simp: ctx_serves_def ExecutionContext_ctor_def)
  with inv t b s show ?thesis
    by (intro exI [of _ ctx]) (simp add: branch scan_at_def query_world_def running_def)
qed

section \<open>SELECT\<close>

definition satisfies :: "InformationUnit list \<Rightarrow> NValue Table \<Rightarrow> wheres \<Rightarrow> NValue row \<Rightarrow> bool" where
  "satisfies ius t wheres r \<longleftrightarrow> (\<forall>(iu, str, v) \<in> set wheres. r ! column_index t (unit_column ius iu) = Some v)"

lemma satisfies_matches: "row_matches t (map (where_cond ius) wheres) = satisfies ius t wheres"
  by (fastforce simp: fun_eq_iff row_matches_def satisfies_def where_cond_def split_beta)

lemma wheres_conds_ok:
  assumes "\<forall>x \<in> set wheres. where_ok (tc_ius tc) t x" "set (tc_addresses tc (R \<union> fst ` set wheres)) = R \<union> fst ` set wheres"
  shows "conds_ok (needed_units tc R wheres) (map (where_cond (tc_ius tc)) wheres)"
  unfolding conds_ok_def
proof clarify
  fix iu c type v assume "((iu, c, type), v) \<in> set (map (where_cond (tc_ius tc)) wheres)"
  then obtain j str where x: "(j, str, v) \<in> set wheres" "unit_info (tc_ius tc) j = (iu, c, type)"
    by (auto simp: where_cond_def)
  have "fst (unit_info (tc_ius tc) j) = iu" using x(2) by simp
  then have j: "j = iu" by simp
  have "iu \<in> R \<union> fst ` set wheres" using x(1) j by force
  then have "unit_info (tc_ius tc) iu \<in> set (needed_units tc R wheres)" by (simp add: needed_units_def assms(2))
  moreover have "where_ok (tc_ius tc) t (j, str, v)" using assms(1) x(1) by blast
  ultimately show "(iu, c, type) \<in> set (needed_units tc R wheres) \<and> c \<noteq> ''tid'' \<and> scalar_of type v"
    using x(2) j by (simp add: where_ok_def)
qed

lemma alloca_quiet: "\<exists>p s'. alloca n s = Inr (p, s') \<and> quiet s s'"
  by (simp add: alloca_def)

lemma counter_quiet: "\<exists>p s. emit counter w = Some (Inr (p, set_machine w s)) \<and> quiet (wo_machine w) s"
proof -
  have "\<exists>p s'. counter s = Inr (p, s') \<and> quiet s s'" for s
    by (auto simp: counter_def alloca_def gen_run)
  then obtain p s where "counter (wo_machine w) = Inr (p, s)" "quiet (wo_machine w) s" by metis
  from emit_machine [of counter, OF this(1)] this(2) show ?thesis by blast
qed

text \<open>What the run of a tree over a selection starts from.\<close>

definition query_tc :: "setting \<Rightarrow> AnalyzingContext \<Rightarrow> translation_context" where
  "query_tc se c = \<lparr>tc_ius = fa_iu_vec (ac_iuFactory c), tc_db = ac_db c, tc_addresses = en_addresses (se_environment se), tc_stream = True\<rparr>"

definition query_machine :: "AnalyzingContext \<Rightarrow> string \<Rightarrow> machine" where
  "query_machine c out = \<lparr>mc_heap = ac_heap c, mc_status = Running, mc_overflow = False, mc_out = out\<rparr>"

lemma query_tc_simps [simp]:
  "tc_ius (query_tc se c) = fa_iu_vec (ac_iuFactory c)" "tc_db (query_tc se c) = ac_db c"
  "tc_addresses (query_tc se c) = en_addresses (se_environment se)" "tc_stream (query_tc se c)"
  "mc_status (query_machine c out) = Running"
  by (simp_all add: query_tc_def query_machine_def)

lemma run_tree_run:
  assumes "translateToPhysicalTree (query_tc se c) root (query_machine c out) = Inr (physicalTree, query_machine c out)"
    and "constructBranchLineages (sorted_list_of_set (ac_branchIds c)) (ac_db c) ExecutionContext_ctor = Some (Inr ctx)"
    and "Operator_produce (se_layout se) (fa_iu_vec (ac_iuFactory c)) physicalTree no_parent (query_world c (query_machine c out) ctx) = Some (Inr ((), w))"
  shows "run_tree se c root out = Some (Inr w)"
  using assms by (simp add: run_tree_def query_tc_def query_machine_def Let_def)

lemma env_addresses:
  assumes "env_ok (se_environment se)" "finite A"
  shows "distinct (en_addresses (se_environment se) A)" "set (en_addresses (se_environment se) A) = A"
  using assms by (simp_all add: env_ok_def)

definition query_at :: "setting \<Rightarrow> AnalyzingContext \<Rightarrow> (string \<Rightarrow> NValue snapshots) \<Rightarrow> NValue Table \<Rightarrow> LogicalScan \<Rightarrow> wheres \<Rightarrow> iu_p set \<Rightarrow> bool" where
  \<comment> \<open>the statement is about one table of the database, in one branch, with the units \<open>R\<close> and comparisons of columns of the table\<close>
  "query_at se c S t scan wheres R \<longleftrightarrow> db_inv (ac_db c) S \<and> Database_getTable (ac_db c) (sc_table scan) = Some t
     \<and> sc_branchId scan < db_next_branch_id (ac_db c) \<and> ac_branchIds c = {sc_branchId scan} \<and> env_ok (se_environment se)
     \<and> finite R \<and> (\<forall>iu \<in> R. column_unit (fa_iu_vec (ac_iuFactory c)) t iu) \<and> (\<forall>x \<in> set wheres. where_ok (fa_iu_vec (ac_iuFactory c)) t x)
     \<and> (\<forall>i r. S (sc_table scan) (sc_branchId scan) i = Some r \<longrightarrow> row_typed t r)"

lemma query_start:
  fixes scan
  assumes q: "query_at se c S t scan wheres R"
    and abb: "units = needed_units (query_tc se c) R wheres" "conds = map (where_cond (fa_iu_vec (ac_iuFactory c))) wheres"
    and s: "mc_status s = Running"
  shows "\<exists>rt. updateRequiredSetsTraverser (Some (R, 1)) (selection_tree (fa_iu_vec (ac_iuFactory c)) scan wheres) = Inr rt
      \<and> translate_tree (query_tc se c) (selection_tree (fa_iu_vec (ac_iuFactory c)) scan wheres) rt s =
          Inr (physical_selection (query_tc se c) (sc_table scan) (sc_branchId scan) t units conds, s)"
    "\<exists>ctx. constructBranchLineages (sorted_list_of_set (ac_branchIds c)) (ac_db c) ExecutionContext_ctor = Some (Inr ctx)
      \<and> scan_at (sc_table scan) (sc_branchId scan) S t (query_world c s ctx)"
    "units_ok t units" "conds_ok units conds" "\<forall>i < tb_rows t. \<forall>r. S (sc_table scan) (sc_branchId scan) i = Some r \<longrightarrow> row_ok t units r"
    "iu \<in> R \<Longrightarrow> unit_info (fa_iu_vec (ac_iuFactory c)) iu \<in> set units" "Table_size t = tb_rows t"
proof -
  let ?tc = "query_tc se c"
  have R: "finite R" "\<forall>iu \<in> R. column_unit (tc_ius ?tc) t iu" "\<forall>x \<in> set wheres. where_ok (tc_ius ?tc) t x"
    and t: "Database_getTable (tc_db ?tc) (sc_table scan) = Some t" and env: "env_ok (se_environment se)"
    using q by (simp_all add: query_at_def)
  from translate_selection [OF R(1) _ t R(2,3), of s] env_addresses(2) [OF env] abb show
    "\<exists>rt. updateRequiredSetsTraverser (Some (R, 1)) (selection_tree (fa_iu_vec (ac_iuFactory c)) scan wheres) = Inr rt
      \<and> translate_tree ?tc (selection_tree (fa_iu_vec (ac_iuFactory c)) scan wheres) rt s =
          Inr (physical_selection ?tc (sc_table scan) (sc_branchId scan) t units conds, s)" by simp
  from run_start [of c S "sc_table scan" t "sc_branchId scan" s] q s obtain ctx where
    ctx: "constructBranchLineages (sorted_list_of_set (ac_branchIds c)) (ac_db c) ExecutionContext_ctor = Some (Inr ctx)"
      "scan_at (sc_table scan) (sc_branchId scan) S t (query_world c s ctx)" by (auto simp: query_at_def)
  then show "\<exists>ctx. constructBranchLineages (sorted_list_of_set (ac_branchIds c)) (ac_db c) ExecutionContext_ctor = Some (Inr ctx)
      \<and> scan_at (sc_table scan) (sc_branchId scan) S t (query_world c s ctx)" by blast
  have "finite (R \<union> fst ` set wheres)" using R(1) by simp
  note U = env_addresses [OF env this]
  show units: "units_ok t units"
    unfolding abb(1) needed_units_def by (rule column_units_ok) (use U R in \<open>auto simp: where_ok_def\<close>)
  show "conds_ok units conds" using wheres_conds_ok [OF R(3), of R] U by (simp add: abb)
  show "\<forall>i < tb_rows t. \<forall>r. S (sc_table scan) (sc_branchId scan) i = Some r \<longrightarrow> row_ok t units r"
    using row_typed_ok [OF ctx(2) units] q by (simp add: query_at_def)
  show "iu \<in> R \<Longrightarrow> unit_info (fa_iu_vec (ac_iuFactory c)) iu \<in> set units" using U by (simp add: abb needed_units_def)
  show "Table_size t = tb_rows t" by (rule Table_size_rows [OF scan_at_facts(1) [OF ctx(2) units]])
qed

lemma query_counter:
  assumes "scan_at name b S t (query_world c s ctx)"
  shows "\<exists>p w. emit counter (query_world c s ctx) = Some (Inr (p, w)) \<and> scan_at name b S t w \<and> wo_streamed w = [] \<and> wo_db w = ac_db c"
proof -
  from counter_quiet [of "query_world c s ctx"] obtain p s1 where
    s1: "emit counter (query_world c s ctx) = Some (Inr (p, set_machine (query_world c s ctx) s1))" "quiet s s1"
    by (auto simp: query_world_def)
  with assms have "scan_at name b S t (set_machine (query_world c s ctx) s1)"
    by (simp add: scan_at_def running_def quiet_status query_world_def)
  moreover have "wo_streamed (set_machine (query_world c s ctx) s1) = []" "wo_db (set_machine (query_world c s ctx) s1) = ac_db c"
    by (simp_all add: query_world_def)
  ultimately show ?thesis using s1(1) by blast
qed

text \<open>SELECT.\<close>

theorem select_streams_snapshot:
  assumes "ius = fa_iu_vec (ac_iuFactory c)" "T = S (sc_table scan) (sc_branchId scan)"
    and "query_at se c S t scan wheres (set sel)" "\<forall>iu \<in> set sel. unit_column ius iu \<noteq> ''tid''"
  shows "\<exists>w. run_tree se c (Result (selection_tree ius scan wheres) sel) out = Some (Inr w) \<and> wo_db w = ac_db c
    \<and> map snd (wo_streamed w) =
        map (\<lambda>r. map (\<lambda>iu. the (r ! column_index t (unit_column ius iu))) (en_addresses (se_environment se) (set sel)))
          (filter (satisfies ius t wheres) (snapshot_rows T (Table_size t)))"
proof -
  let ?tc = "query_tc se c" and ?s = "query_machine c out" and ?addr = "en_addresses (se_environment se)"
  let ?cols = "map (unit_info ius) (?addr (set sel))"
  define units where "units = needed_units ?tc (set sel) wheres"
  define conds where "conds = map (where_cond ius) wheres"
  have run: "mc_status ?s = Running" by simp
  note Q = query_start [OF assms(3) units_def conds_def [unfolded assms(1)] run]
  from Q(1) obtain rt where
    rt: "updateRequiredSetsTraverser (Some (set sel, 1)) (selection_tree ius scan wheres) = Inr rt"
      "translate_tree ?tc (selection_tree ius scan wheres) rt ?s = Inr (physical_selection ?tc (sc_table scan) (sc_branchId scan) t units conds, ?s)"
    unfolding assms(1) by blast
  have addr: "set (?addr (set sel)) = set sel" using assms(3) env_addresses(2) [of se] by (simp add: query_at_def)
  have sel: "\<forall>iu \<in> set (?addr (set sel)). column_unit ius t iu" "\<forall>iu \<in> set (?addr (set sel)). unit_column ius iu \<noteq> ''tid''"
    using assms(3,4) addr by (simp_all add: query_at_def assms(1))
  have "mapM_gen (required_column ?tc) (?addr (set sel)) ?s = Inr (?cols, ?s)"
    using required_columns [of "?addr (set sel)" ?tc t ?s] sel(1) by (simp add: assms(1))
  moreover have "filter (\<lambda>(iu, column, type). column \<noteq> ''tid'') ?cols = ?cols"
    using sel(2) by (auto simp: filter_id_conv split_beta)
  ultimately have tree: "translateToPhysicalTree ?tc (Result (selection_tree ius scan wheres) sel) ?s =
      Inr (PTupleStream (physical_selection ?tc (sc_table scan) (sc_branchId scan) t units conds) (map fst ?cols), ?s)"
    using rt by (simp add: translateToPhysicalTree_def getRequired_def unaryRequired_def computeRequired_def lift_gen_def
        bind_gen_def yield_gen_def PTupleStream_ctor_def)
  from Q(2) obtain ctx where
    ctx: "constructBranchLineages (sorted_list_of_set (ac_branchIds c)) (ac_db c) ExecutionContext_ctor = Some (Inr ctx)"
      "scan_at (sc_table scan) (sc_branchId scan) S t (query_world c ?s ctx)" by blast
  from query_counter [OF ctx(2)] obtain p w where
    w: "emit counter (query_world c ?s ctx) = Some (Inr (p, w))" "scan_at (sc_table scan) (sc_branchId scan) S t w" "wo_streamed w = []" "wo_db w = ac_db c"
    by blast
  have cols: "cols_ok units ?cols" using sel(2) addr Q(6) by (auto simp: cols_ok_def split_beta assms(1))
  from stream_run [OF w(2) Q(3,4) cols Q(5), where dl = "se_layout se" and p = p] obtain w' where
    w': "scan_select (se_layout se) (sc_table scan) (sc_branchId scan) t units conds (PTupleStream_consume (map fst ?cols) p) w = Some (Inr ((), w'))"
      "map snd (wo_streamed w') = map (unit_tuple t ?cols) (filter (row_matches t conds) (snapshot_rows T (tb_rows t)))"
      "wo_db w' = ac_db c" unfolding assms(2) w(3,4) by auto
  have "Operator_produce (se_layout se) ius (PTupleStream (physical_selection ?tc (sc_table scan) (sc_branchId scan) t units conds) (map fst ?cols)) no_parent
      (query_world c ?s ctx) = Some (Inr ((), w'))"
    using w(1) w'(1) by (simp add: PTupleStream_produce_def physical_selection_def produce_selects scan_select_def bind_exec_def)
  then have "run_tree se c (Result (selection_tree ius scan wheres) sel) out = Some (Inr w')"
    by (rule run_tree_run [OF tree ctx(1), folded assms(1)])
  moreover have "unit_tuple t ?cols = (\<lambda>r. map (\<lambda>iu. the (r ! column_index t (unit_column ius iu))) (?addr (set sel)))"
    by (simp add: fun_eq_iff unit_tuple_def split_beta)
  ultimately show ?thesis using w'(2,3) Q(7) by (simp add: satisfies_matches conds_def)
qed

end
