(* ===== verification/ChangeRuns.thy ===== *)
theory ChangeRuns
  imports QueryRuns
begin

text \<open>
  The statements that change a table: the rows of the snapshot that satisfy the WHERE clause are changed one
  after the other, while the scan goes on over the table they are in.
\<close>

section \<open>Changing the rows of a scan\<close>

lemma snapshot_end:
  assumes "scan_at name b S t w" "tb_rows t \<le> i"
  shows "S name b i = None"
  using db_inv_table(4) [of "wo_db w" S name t] assms by (simp add: scan_at_def snap_inv_def)

lemma scan_at_put:
  assumes "scan_at name b S t w" "db_inv (put_table name t' (wo_db w)) S'" "ctx_branch_lineages ctx = ctx_branch_lineages (wo_ctx w)"
  shows "scan_at name b S' t' (update_table name t' ctx w)"
  using assms put_table_get [of "wo_db w" name t t']
  by (simp add: scan_at_def update_table_def running_def ctx_serves_def put_table_tables)

lemma scan_at_machine: "scan_at name b S t w \<Longrightarrow> mc_status s = Running \<Longrightarrow> scan_at name b S t (set_machine w s)"
  by (simp add: scan_at_def)

lemma same_columnsI:
  assumes "scan_at name b S t w" "scan_at name b S' t' w'" "map fst (tb_columns t') = map fst (tb_columns t)"
  shows "same_columns t t'"
proof -
  have ok: "tb_ok t" "tb_ok t'" using assms(1,2) db_inv_table(2) by (auto simp: scan_at_def vt_ok_def)
  have "length (tb_columns t') = length (tb_columns t)" using assms(3) by (metis length_map)
  with ok assms(3) names_cong [OF assms(3)] show ?thesis by (simp add: same_columns_def tb_ok_def)
qed

lemma same_columns_trans: "same_columns t t' \<Longrightarrow> same_columns t' t'' \<Longrightarrow> same_columns t t''"
  by (simp add: same_columns_def)

lemma change_run:
  fixes f :: "NValue row option \<Rightarrow> NValue row option" and I :: "NValue Database \<Rightarrow> (string \<Rightarrow> NValue snapshots) \<Rightarrow> bool"
  assumes at: "scan_at name b S t w" and start: "I (wo_db w) S" and units: "units_ok t units" and conds: "conds_ok units conds" and k: "skipped_by units parent"
    and rows: "\<forall>i < tb_rows t. \<forall>r. S name b i = Some r \<longrightarrow> row_ok t units r"
    and f: "f None = None" "\<And>r. \<not> row_matches t conds r \<Longrightarrow> f (Some r) = Some r"
    and step: "\<And>i r w S' t'. i < tb_rows t' \<Longrightarrow> S' name b i = Some r \<Longrightarrow> row_ok t units r \<Longrightarrow> row_matches t conds r \<Longrightarrow> I (wo_db w) S' \<Longrightarrow>
      scan_at name b S' t' w \<Longrightarrow> same_columns t t' \<Longrightarrow> lineage_read b w \<Longrightarrow>
      \<exists>w' t'' S''. parent (row_mapping t units i r) w = Some (Inr ((), w')) \<and> S'' = S'(name := (S' name)(b := (S' name b)(i := f (Some r))))
        \<and> I (wo_db w') S'' \<and> scan_at name b S'' t'' w' \<and> same_columns t' t'' \<and> tb_rows t'' = tb_rows t'"
  shows "\<exists>w'. scan_select dl name b t units conds parent w = Some (Inr ((), w')) \<and> running w'
    \<and> db_inv (wo_db w') (S(name := (S name)(b := f \<circ> S name b))) \<and> I (wo_db w') (S(name := (S name)(b := f \<circ> S name b)))"
proof -
  define changed where "changed i = S(name := (S name)(b := \<lambda>j. if j < i then f (S name b j) else S name b j))" for i
  define J where "J i w' \<longleftrightarrow> (\<exists>t'. I (wo_db w') (changed i) \<and> scan_at name b (changed i) t' w' \<and> same_columns t t' \<and> tb_rows t' = tb_rows t)" for i w'
  have at_i: "changed i name b i = S name b i" for i by (simp add: changed_def)
  have next_i: "changed (Suc i) = (changed i)(name := (changed i name)(b := (changed i name b)(i := f (S name b i))))" for i
    by (auto simp: changed_def fun_eq_iff less_Suc_eq)
  have "\<exists>w'. scan_select dl name b t units conds parent w = Some (Inr ((), w')) \<and> J (tb_rows t) w'"
  proof (rule scan_select_run [where T = "S name" and J = J, OF units conds k rows])
    show "scan_state name b t (S name) i w1" if "J i w1" for i w1
    proof -
      have "\<forall>j \<ge> i. changed i name b j = S name b j" by (simp add: changed_def)
      with that show ?thesis unfolding J_def scan_state_def by blast
    qed
    show "J i w2" if "J i w1" "stepped w1 w2" "scan_state name b t (S name) i w2" for i w1 w2
    proof -
      have "wo_db w2 = wo_db w1" using that(2) by (auto simp: stepped_def)
      with that(1) scan_at_stepped [OF _ that(2,3)] show ?thesis unfolding J_def by metis
    qed
    show "\<exists>w2. parent (row_mapping t units i r) w1 = Some (Inr ((), w2)) \<and> J (Suc i) w2"
      if i: "i < tb_rows t" and J: "J i w1" and l: "lineage_read b w1" and r: "S name b i = Some r" "row_matches t conds r" for i r w1
    proof -
      from J obtain t' where t': "I (wo_db w1) (changed i)" "scan_at name b (changed i) t' w1" "same_columns t t'" "tb_rows t' = tb_rows t"
        by (auto simp: J_def)
      have "row_ok t units r" using rows i r(1) by blast
      from step [OF _ _ this r(2) t'(1,2,3) l, of i] i r(1) t'(4) at_i [of i] obtain w2 t'' where
        "parent (row_mapping t units i r) w1 = Some (Inr ((), w2))" "I (wo_db w2) (changed (Suc i))"
        "scan_at name b (changed (Suc i)) t'' w2" "same_columns t' t''" "tb_rows t'' = tb_rows t'"
        unfolding next_i by auto
      with same_columns_trans [OF t'(3)] t'(4) show ?thesis by (auto simp: J_def)
    qed
    show "J (Suc i) w1" if "i < tb_rows t" "J i w1" "\<forall>r. S name b i = Some r \<longrightarrow> \<not> row_matches t conds r" for i w1
    proof -
      have "f (S name b i) = S name b i" using f that(3) by (cases "S name b i") auto
      then have "changed (Suc i) = changed i" unfolding next_i using at_i [of i] by (simp add: fun_upd_idem)
      with that(2) show ?thesis by (simp add: J_def)
    qed
    have "changed 0 = S" by (simp add: changed_def)
    with at start show "J 0 w" by (auto simp: J_def same_columns_def)
  qed
  moreover have "changed (tb_rows t) = S(name := (S name)(b := f \<circ> S name b))"
    using snapshot_end [OF at] f(1) by (auto simp: changed_def fun_eq_iff not_less)
  ultimately show ?thesis by (auto simp: J_def scan_at_def)
qed

section \<open>DELETE\<close>

definition without :: "(NValue row \<Rightarrow> bool) \<Rightarrow> NValue row option \<Rightarrow> NValue row option" where
  "without P r = (case r of None \<Rightarrow> None | Some x \<Rightarrow> if P x then None else Some x)"

definition tid_unit :: "InformationUnit list \<Rightarrow> iu_p \<Rightarrow> bool" where
  "tid_unit ius iu \<longleftrightarrow> named_tid ius iu = Inr True"

lemma column_unit_tid: "column_unit ius t iu \<Longrightarrow> tid_unit ius iu \<longleftrightarrow> unit_column ius iu = ''tid''"
  by (auto simp: column_unit_def tid_unit_def named_tid_def unit_info_def getColumnInformation_def)

lemma distinct_singleton_list: "distinct xs \<Longrightarrow> set xs = {x} \<Longrightarrow> xs = [x]"
  by (cases xs) (auto simp: subset_singleton_iff)

lemma delete_report:
  "running w \<Longrightarrow> \<exists>w'. bind_exec (emit (load_u64 p)) (\<lambda>tupleCnt.
     emit (printed (''Deleted '' @ show_nat (unat tupleCnt) @ '' tuples'' @ newline))) w = Some (Inr ((), w')) \<and> wo_db w' = wo_db w"
  by (simp add: bind_exec_def emit_def load_u64_def printed_def gen_run running_def)

lemma tid_of_head: "tid_unit ius iu \<Longrightarrow> vals iu = Some (GLongInteger n) \<Longrightarrow> tid_of ius (iu # rest) vals s = Inr (n, s)"
  by (simp add: tid_unit_def bind_gen_def lift_gen_def value_at_run yield_gen_def)

lemma delete_consume:
  assumes "tid_unit ius iu" "vals iu = Some (GLongInteger n)"
  shows "PDelete_consume ius [iu] name b p vals w = bind_exec (genDeleteCall name b n) (\<lambda>_. emit (increment p)) w"
  using emit_run [of "tid_of ius [iu] vals" w, OF tid_of_head [of ius iu vals n, OF assms]] by (simp add: PDelete_consume_def bind_exec_def)

lemma delete_skipped:
  assumes "tid_unit ius iu" "(iu, ''tid'', type) \<in> set units"
  shows "skipped_by units (PDelete_consume ius [iu] name b p)"
  unfolding skipped_by_def
proof (intro allI impI)
  fix vals assume "mapping_ok units vals"
  with assms(2) obtain n where n: "vals iu = Some (GLongInteger n)" by (fastforce simp: mapping_ok_def unit_typed_def)
  have "skips (bind_exec (genDeleteCall name b n) (\<lambda>_. emit (increment p)))"
    by (rule skips_bind [where P = "\<lambda>_. True"]) (simp_all add: genDeleteCall_def skips_increment)
  with delete_consume [of ius iu vals n, OF assms(1) n] show "skips (PDelete_consume ius [iu] name b p vals)" by (simp add: skips_def)
qed

lemma delete_step:
  assumes at: "scan_at name b S t w" and run: "db_run valueSize (wo_db w) S" and i: "i < tb_rows t" "S name b i \<noteq> None"
    and iu: "tid_unit ius iu" "vals iu = Some (GLongInteger (of_nat i))"
  shows "\<exists>w' t' S'. PDelete_consume ius [iu] name b p vals w = Some (Inr ((), w')) \<and> S' = S(name := (S name)(b := (S name b)(i := None)))
    \<and> db_run valueSize (wo_db w') S' \<and> scan_at name b S' t' w' \<and> same_columns t t' \<and> tb_rows t' = tb_rows t"
proof -
  let ?S = "S(name := (S name)(b := (S name b)(i := None)))"
  have inv: "db_inv (wo_db w) S" and t: "Database_getTable (wo_db w) name = Some t" and b: "b < db_next_branch_id (wo_db w)" and running: "running w"
    using at by (simp_all add: scan_at_def)
  note T = db_inv_table [OF inv t]
  have w: "unat b < bm_columnCount (tb_branchBitmap t)" using T(3) b by (simp add: table_width_def word_less_nat_alt)
  have size: "i < Table_size t" using Table_size_rows [OF T(2)] i(1) by simp
  from delete_keeps [OF inv t b size, of "wo_ctx w"] obtain t' where
    t': "delete_tuple_with_branchId (of_nat i) b t (wo_ctx w) = (Inr t', (wo_ctx w)\<lparr>ctx_branchId := b\<rparr>)" "db_inv (put_table name t' (wo_db w)) ?S" by blast
  have "tb_visible t i b" using inv_scan_ready(2) [OF inv t b i(1)] i(2) by (auto simp: visible_row_def split: if_splits)
  then have "isVisibleInBranch (tb_branchBitmap t) i b = Inr True" using isVisibleInBranch_Inr [OF T(2) i(1) w] by simp
  from db_delete [OF run t b size this t'(1)] have run': "db_run valueSize (put_table name t' (wo_db w)) ?S" .
  let ?w = "update_table name t' ((wo_ctx w)\<lparr>ctx_branchId := b\<rparr>) w"
  have at': "scan_at name b ?S t' ?w" by (rule scan_at_put [OF at t'(2)]) simp
  from delete_tuple_Inr [OF T(2) i(1), of "(wo_ctx w)\<lparr>ctx_branchId := b\<rparr>"] w t'(1) have
    cols: "map fst (tb_columns t') = map fst (tb_columns t)" "tb_rows t' = tb_rows t" by (auto simp: delete_tuple_with_branchId_def)
  have "genDeleteCall name b (of_nat i) w = Some (Inr ((), ?w))"
    using t t'(1) running by (simp add: genDeleteCall_def call_exec_def with_table_def)
  with emit_increment [of p ?w] delete_consume [of ius iu vals "of_nat i", OF iu, of name b p w] obtain s where
    s: "PDelete_consume ius [iu] name b p vals w = Some (Inr ((), set_machine ?w s))" "quiet (wo_machine ?w) s"
    by (auto simp: bind_exec_def)
  have "scan_at name b ?S t' (set_machine ?w s)"
    using scan_at_machine [OF at'] s(2) at' by (simp add: quiet_status scan_at_def running_def)
  with s(1) run' cols same_columnsI [OF at at' cols(1)] show ?thesis
    by (intro exI [of _ "set_machine ?w s"] exI [of _ t'] exI [of _ ?S]) (simp add: update_table_def)
qed

text \<open>DELETE.\<close>

theorem delete_removes_matching_rows:
  assumes "ius = fa_iu_vec (ac_iuFactory c)" "T = S (sc_table scan) (sc_branchId scan)"
    and "query_at se c S t scan wheres {tidIU}" "unit_column ius tidIU = ''tid''" "db_run valueSize (ac_db c) S"
  shows "\<exists>w. run_tree se c (Delete (selection_tree ius scan wheres) tidIU (sc_table scan) (sc_branchId scan)) out = Some (Inr w)
    \<and> db_run valueSize (wo_db w) (S(sc_table scan := (S (sc_table scan))(sc_branchId scan := without (satisfies ius t wheres) \<circ> T)))"
proof -
  let ?tc = "query_tc se c" and ?s = "query_machine c out" and ?addr = "en_addresses (se_environment se)"
  let ?name = "sc_table scan" and ?b = "sc_branchId scan"
  define units where "units = needed_units ?tc {tidIU} wheres"
  define conds where "conds = map (where_cond ius) wheres"
  have run: "mc_status ?s = Running" by simp
  note Q = query_start [OF assms(3) units_def conds_def [unfolded assms(1)] run]
  from Q(1) obtain rt where
    rt: "updateRequiredSetsTraverser (Some ({tidIU}, 1)) (selection_tree ius scan wheres) = Inr rt"
      "translate_tree ?tc (selection_tree ius scan wheres) rt ?s = Inr (physical_selection ?tc ?name ?b t units conds, ?s)"
    unfolding assms(1) by blast
  have "distinct (?addr {tidIU})" "set (?addr {tidIU}) = {tidIU}"
    using assms(3) env_addresses [of se] by (simp_all add: query_at_def)
  then have addr: "?addr {tidIU} = [tidIU]" by (metis distinct_singleton_list)
  have tree: "translateToPhysicalTree ?tc (Delete (selection_tree ius scan wheres) tidIU ?name ?b) ?s =
      Inr (PDelete (physical_selection ?tc ?name ?b t units conds) [tidIU] ?name ?b, ?s)"
    using rt addr by (simp add: translateToPhysicalTree_def getRequired_def unaryRequired_def computeRequired_def lift_gen_def
        bind_gen_def yield_gen_def)
  from Q(2) obtain ctx where
    ctx: "constructBranchLineages (sorted_list_of_set (ac_branchIds c)) (ac_db c) ExecutionContext_ctor = Some (Inr ctx)"
      "scan_at ?name ?b S t (query_world c ?s ctx)" by blast
  from query_counter [OF ctx(2)] obtain p w where
    w: "emit counter (query_world c ?s ctx) = Some (Inr (p, w))" "scan_at ?name ?b S t w" "wo_db w = ac_db c" by blast
  have iu: "tid_unit ius tidIU" using assms(3,4) column_unit_tid [of ius t tidIU] by (simp add: query_at_def assms(1))
  have unit: "(tidIU, ''tid'', unit_type ius tidIU) \<in> set units"
    using Q(6) [of tidIU] unit_info_eq [of ius tidIU] assms(4) by (metis assms(1) insertI1)
  let ?S = "S(?name := (S ?name)(?b := without (row_matches t conds) \<circ> S ?name ?b))"
  have "\<exists>w'. scan_select (se_layout se) ?name ?b t units conds (PDelete_consume ius [tidIU] ?name ?b p) w = Some (Inr ((), w'))
    \<and> running w' \<and> db_inv (wo_db w') ?S \<and> db_run valueSize (wo_db w') ?S"
  proof (rule change_run [where I = "db_run valueSize", OF w(2) _ Q(3,4) delete_skipped [OF iu unit] Q(5)])
    fix i r w1 S' t'
    assume i: "i < tb_rows t'" "S' ?name ?b i = Some r" and r: "row_ok t units r" "row_matches t conds r"
      and S': "db_run valueSize (wo_db w1) S'" "scan_at ?name ?b S' t' w1"
    have "row_mapping t units i r tidIU = Some (GLongInteger (of_nat i))"
      using mapping_of_row(2) [OF Q(3) r(1) unit] by (simp add: unit_value_def)
    from delete_step [OF S'(2,1) i(1) _ iu, of "row_mapping t units i r" p, OF _ this] i(2) r(2)
    show "\<exists>w' t'' S''. PDelete_consume ius [tidIU] ?name ?b p (row_mapping t units i r) w1 = Some (Inr ((), w'))
      \<and> S'' = S'(?name := (S' ?name)(?b := (S' ?name ?b)(i := without (row_matches t conds) (Some r))))
      \<and> db_run valueSize (wo_db w') S'' \<and> scan_at ?name ?b S'' t'' w' \<and> same_columns t' t'' \<and> tb_rows t'' = tb_rows t'"
      by (auto simp: without_def)
  qed (use assms(5) w(3) in \<open>simp_all add: without_def\<close>)
  then obtain w' where w': "scan_select (se_layout se) ?name ?b t units conds (PDelete_consume ius [tidIU] ?name ?b p) w = Some (Inr ((), w'))"
    "running w'" "db_run valueSize (wo_db w') ?S" by blast
  from delete_report [OF w'(2), of p] obtain w'' where w'': "bind_exec (emit (load_u64 p)) (\<lambda>tupleCnt.
           emit (printed (''Deleted '' @ show_nat (unat tupleCnt) @ '' tuples'' @ newline))) w' = Some (Inr ((), w''))" "wo_db w'' = wo_db w'" by blast
  have "Operator_produce (se_layout se) ius (PDelete (physical_selection ?tc ?name ?b t units conds) [tidIU] ?name ?b) no_parent
      (query_world c ?s ctx) = Some (Inr ((), w''))"
    using w(1) w'(1) w''(1) by (simp add: PDelete_produce_def physical_selection_def produce_selects scan_select_def bind_exec_def)
  then have "run_tree se c (Delete (selection_tree ius scan wheres) tidIU ?name ?b) out = Some (Inr w'')"
    by (rule run_tree_run [OF tree ctx(1), folded assms(1)])
  then show ?thesis using w'(3) w''(2) by (simp add: satisfies_matches conds_def assms(2))
qed

section \<open>INSERT\<close>

definition appended :: "nat \<Rightarrow> NValue list list \<Rightarrow> (nat \<Rightarrow> NValue row option) \<Rightarrow> nat \<Rightarrow> NValue row option" where
  "appended n tuples T i = (if n \<le> i \<and> i < n + length tuples then Some (map Some (tuples ! (i - n))) else T i)"

lemma insert_step:
  assumes run: "db_run valueSize (wo_db w) S" and t: "Database_getTable (wo_db w) name = Some t" and b: "b < db_next_branch_id (wo_db w)"
    and len: "length tuple = Table_getColumnCount t" and room: "Suc (Table_size t) < 2 ^ 63" and w: "running w"
  shows "\<exists>w' t'. genInsertCall name b tuple w = Some (Inr ((), w')) \<and> running w' \<and> Database_getTable (wo_db w') name = Some t'
    \<and> db_run valueSize (wo_db w') (S(name := (S name)(b := (S name b)(Table_size t \<mapsto> map Some tuple))))
    \<and> db_next_branch_id (wo_db w') = db_next_branch_id (wo_db w) \<and> Table_size t' = Suc (Table_size t)
    \<and> Table_getColumnCount t' = Table_getColumnCount t"
proof -
  have inv: "db_inv (wo_db w) S" by (rule db_run_inv [OF run])
  note T = db_inv_table [OF inv t]
  from insert_keeps [OF inv t b len room, of "wo_ctx w"] obtain t' where
    t': "insert_tuple_with_branchId tuple (wo_db w) t (wo_ctx w) b = ((Inr (of_nat (Table_size t)), t'), (wo_ctx w)\<lparr>ctx_branchId := b\<rparr>)" by blast
  have size: "unat (of_nat (Table_size t) :: tid_t) = Table_size t" using room by (simp add: unsigned_of_nat take_bit_nat_eq_self)
  from db_insert [OF run t b len room t'] size have run':
    "db_run valueSize (put_table name t' (wo_db w)) (S(name := (S name)(b := (S name b)(Table_size t \<mapsto> map Some tuple))))" by simp
  have vt': "vt_ok t'" by (rule db_inv_table(2) [OF db_run_inv [OF run'] put_table_get [OF t]])
  have "unat b < bm_columnCount (tb_branchBitmap t)" "unat b < unat (1 + Database_getLargestBranchId (wo_db w))"
    using T(3) b by (simp_all add: table_width_def word_less_nat_alt n_minus_one)
  with insert_tuple_Inr [OF T(2), of "(wo_ctx w)\<lparr>ctx_branchId := b\<rparr>" "wo_db w" tuple] t' room len Table_size_rows [OF T(2)]
  have rows: "tb_rows t' = Suc (tb_rows t)" "map fst (tb_columns t') = map fst (tb_columns t)"
    by (auto simp: insert_tuple_with_branchId_def Table_getColumnCount_def)
  from rows(2) have "length (tb_columns t') = length (tb_columns t)" by (metis length_map)
  moreover have "genInsertCall name b tuple w = Some (Inr ((), update_table name t' ((wo_ctx w)\<lparr>ctx_branchId := b\<rparr>) w))"
    using w t t' by (simp add: genInsertCall_def call_exec_def with_table_def)
  ultimately show ?thesis
    using run' rows(1) Table_size_rows [OF T(2)] Table_size_rows [OF vt'] put_table_get [OF t, of t'] w
    by (intro exI [of _ "update_table name t' ((wo_ctx w)\<lparr>ctx_branchId := b\<rparr>) w"] exI [of _ t'])
      (simp add: update_table_def running_def put_table_tables Table_getColumnCount_def)
qed

lemma insert_rows:
  assumes "db_run valueSize (wo_db w) S" "Database_getTable (wo_db w) name = Some t" "b < db_next_branch_id (wo_db w)"
    and "\<forall>tuple \<in> set tuples. length tuple = Table_getColumnCount t" "Table_size t + length tuples < 2 ^ 63" "running w"
  shows "\<exists>w'. PInsert_produce name tuples b w = Some (Inr ((), w'))
    \<and> db_run valueSize (wo_db w') (S(name := (S name)(b := appended (Table_size t) tuples (S name b))))"
  using assms
proof (induction tuples arbitrary: w S t)
  case Nil
  have "appended (Table_size t) [] (S name b) = S name b" by (auto simp: fun_eq_iff appended_def)
  with Nil show ?case by (simp add: PInsert_produce_def yield_exec_def)
next
  case (Cons tuple tuples)
  let ?S = "S(name := (S name)(b := (S name b)(Table_size t \<mapsto> map Some tuple)))"
  from insert_step [OF Cons.prems(1-3) _ _ Cons.prems(6), of tuple] Cons.prems(4,5) obtain w1 t1 where
    w1: "genInsertCall name b tuple w = Some (Inr ((), w1))" "running w1" "Database_getTable (wo_db w1) name = Some t1"
      "db_run valueSize (wo_db w1) ?S" "db_next_branch_id (wo_db w1) = db_next_branch_id (wo_db w)"
      "Table_size t1 = Suc (Table_size t)" "Table_getColumnCount t1 = Table_getColumnCount t" by auto
  have "\<exists>w'. PInsert_produce name tuples b w1 = Some (Inr ((), w'))
      \<and> db_run valueSize (wo_db w') (?S(name := (?S name)(b := appended (Table_size t1) tuples (?S name b))))"
    by (rule Cons.IH [OF w1(4,3)]) (use Cons.prems(3-5) w1(2,5-7) in simp_all)
  then obtain w' where w': "PInsert_produce name tuples b w1 = Some (Inr ((), w'))"
      "db_run valueSize (wo_db w') (?S(name := (?S name)(b := appended (Table_size t1) tuples (?S name b))))" by blast
  have "(?S(name := (?S name)(b := appended (Table_size t1) tuples (?S name b)))) =
      S(name := (S name)(b := appended (Table_size t) (tuple # tuples) (S name b)))"
    by (auto simp: fun_eq_iff appended_def w1(6) nth_Cons diff_Suc split: nat.split)
  with w'(2) have "db_run valueSize (wo_db w') (S(name := (S name)(b := appended (Table_size t) (tuple # tuples) (S name b))))" by metis
  moreover have "PInsert_produce name (tuple # tuples) b w = Some (Inr ((), w'))"
    using w'(1) w1(1) by (simp add: PInsert_produce_def bind_exec_def)
  ultimately show ?case by blast
qed

text \<open>INSERT.\<close>

theorem insert_appends_rows:
  assumes "db_run valueSize (ac_db c) S" "Database_getTable (ac_db c) name = Some t" "b < db_next_branch_id (ac_db c)"
    and "ac_branchIds c = {}" "\<forall>tuple \<in> set tuples. length tuple = Table_getColumnCount t" "Table_size t + length tuples < 2 ^ 63"
  shows "\<exists>w. run_tree se c (Insert name tuples b) out = Some (Inr w)
    \<and> db_run valueSize (wo_db w) (S(name := (S name)(b := appended (Table_size t) tuples (S name b))))"
proof -
  let ?s = "query_machine c out"
  have tree: "translateToPhysicalTree (query_tc se c) (Insert name tuples b) ?s = Inr (PInsert name tuples b, ?s)"
    by (simp add: translateToPhysicalTree_def getRequired_def computeRequired_def lift_gen_def bind_gen_def yield_gen_def)
  have ctx: "constructBranchLineages (sorted_list_of_set (ac_branchIds c)) (ac_db c) ExecutionContext_ctor = Some (Inr ExecutionContext_ctor)"
    by (simp add: assms(4))
  let ?w = "query_world c ?s ExecutionContext_ctor"
  have w: "wo_db ?w = ac_db c" "running ?w" by (simp_all add: query_world_def running_def)
  from insert_rows [of valueSize ?w S name t b tuples] assms w obtain w' where
    w': "PInsert_produce name tuples b ?w = Some (Inr ((), w'))"
      "db_run valueSize (wo_db w') (S(name := (S name)(b := appended (Table_size t) tuples (S name b))))" by auto
  from run_tree_run [OF tree ctx, of w'] w' show ?thesis by auto
qed

end
