(* ===== verification/UpdateRuns.thy ===== *)
theory UpdateRuns
  imports ChangeRuns
begin

text \<open>
  UPDATE: the operator is given a unit and a text for every column of the table, an empty text for the columns that
  keep their values. It brings the columns into the order of the table and replaces the tuple.
\<close>

section \<open>Assignments\<close>

type_synonym updates = "(iu_p \<times> string \<times> NValue) list"

definition assign_ok :: "InformationUnit list \<Rightarrow> NValue Table \<Rightarrow> iu_p \<times> string \<times> NValue \<Rightarrow> bool" where
  "assign_ok ius t = (\<lambda>(iu, str, v). column_unit ius t iu \<and> (str \<noteq> [] \<and> unit_column ius iu \<noteq> ''tid'' \<longrightarrow>
     scalar_of (unit_type ius iu) v \<and> (\<forall>s. Value_castString_gen str (unit_type ius iu) s = Inr (generated v, s))))"

definition unit_texts :: "updates \<Rightarrow> (iu_p \<times> string) list" where
  "unit_texts us = map (\<lambda>(iu, str, v). (iu, str)) us"

definition updates_ok :: "InformationUnit list \<Rightarrow> NValue Table \<Rightarrow> updates \<Rightarrow> bool" where
  \<comment> \<open>one assignment for every column of the table and one for the tid\<close>
  "updates_ok ius t us \<longleftrightarrow> (\<forall>u \<in> set us. assign_ok ius t u) \<and> distinct (map (\<lambda>u. unit_column ius (fst u)) us)
     \<and> set (map (\<lambda>u. unit_column ius (fst u)) us) = insert ''tid'' (ci_columnName ` fst ` set (tb_columns t))
     \<and> ''tid'' \<notin> ci_columnName ` fst ` set (tb_columns t)"

definition assigned :: "InformationUnit list \<Rightarrow> NValue Table \<Rightarrow> updates \<Rightarrow> NValue row \<Rightarrow> NValue row" where
  \<comment> \<open>the row with the values of the texts that are not empty\<close>
  "assigned ius t us r = map (\<lambda>column. case find (\<lambda>u. unit_column ius (fst u) = column) us of
       Some (iu, str, v) \<Rightarrow> Some (if str = [] then the (r ! column_index t column) else v) | None \<Rightarrow> None)
     (map (ci_columnName \<circ> fst) (tb_columns t))"

definition column_of_unit :: "InformationUnit list \<Rightarrow> NValue Table \<Rightarrow> iu_p \<times> string \<times> NValue \<Rightarrow> update_column" where
  "column_of_unit ius t = (\<lambda>(iu, str, v). \<lparr>uc_name = unit_column ius iu, uc_index = column_index t (unit_column ius iu),
     uc_value = if str \<noteq> [] then Some (generated v) else None\<rparr>)"

definition in_table :: "InformationUnit list \<Rightarrow> updates \<Rightarrow> updates" where
  "in_table ius us = filter (\<lambda>u. unit_column ius (fst u) \<noteq> ''tid'') us"

lemma update_columns_run:
  assumes "\<forall>u \<in> set us. assign_ok ius t u"
  shows "update_columns ius t (unit_texts us) s = Inr (map (column_of_unit ius t) (in_table ius us), s)"
  using assms
proof (induction us)
  case (Cons u us)
  obtain iu str v where u: "u = (iu, str, v)" by (metis prod.collapse)
  from Cons.prems u have ok: "column_unit ius t iu" "str \<noteq> [] \<Longrightarrow> unit_column ius iu \<noteq> ''tid'' \<Longrightarrow>
      Value_castString_gen str (unit_type ius iu) s = Inr (generated v, s)" by (auto simp: assign_ok_def)
  obtain ci where ci: "getColumnInformation ius iu = Inr ci" "unit_info ius iu = (iu, ci_columnName ci, ci_type ci)"
    using column_unit_info(2,3) [OF ok(1)] by blast
  have "unit_column ius iu \<noteq> ''tid'' \<Longrightarrow> \<not> ty_nullable (ci_type ci)"
    using column_unit_info(4) [OF ok(1)] ci(2) by (auto simp: scalar_type_def typeIDs)
  with Cons ok ci show ?case
    by (auto simp: u unit_texts_def in_table_def column_of_unit_def bind_gen_def lift_gen_def yield_gen_def)
qed (simp add: unit_texts_def in_table_def yield_gen_def)

lemma insort_key_map: "insort_key f (g x) (map g xs) = map g (insort_key (\<lambda>x. f (g x)) x xs)"
  by (induction xs) auto

lemma sort_key_map: "sort_key f (map g xs) = map g (sort_key (\<lambda>x. f (g x)) xs)"
  by (induction xs) (simp_all add: insort_key_map)

lemma sort_key_upt:
  assumes "distinct (map f xs)" "set (map f xs) = {0 ..< n :: nat}"
  shows "map f (sort_key f xs) = [0 ..< n]"
proof (rule sorted_distinct_set_unique)
  show "distinct (map f (sort_key f xs))" using assms(1) by (simp add: distinct_map)
qed (use assms(2) in auto)

definition sorted_updates :: "InformationUnit list \<Rightarrow> NValue Table \<Rightarrow> updates \<Rightarrow> updates" where
  "sorted_updates ius t us = sort_key (\<lambda>u. column_index t (unit_column ius (fst u))) (in_table ius us)"

lemma sorted_columns:
  "sort_key uc_index (map (column_of_unit ius t) xs) = map (column_of_unit ius t) (sort_key (\<lambda>u. column_index t (unit_column ius (fst u))) xs)"
  unfolding sort_key_map by (simp add: column_of_unit_def split_beta)

lemma sorted_updates_columns:
  assumes "table_ok t" "updates_ok ius t us"
  shows "map (\<lambda>u. unit_column ius (fst u)) (sorted_updates ius t us) = map (ci_columnName \<circ> fst) (tb_columns t)"
    "set (sorted_updates ius t us) \<subseteq> set us"
proof -
  let ?names = "map (ci_columnName \<circ> fst) (tb_columns t)" and ?n = "length (tb_columns t)"
  let ?f = "\<lambda>u. unit_column ius (fst u)" and ?xs = "in_table ius us"
  have names: "distinct ?names" and tb: "tb_ok t" using assms(1) by (simp_all add: table_ok_def vt_ok_def)
  have index: "column_index t (?names ! j) = j" if "j < ?n" for j
    using column_index_nth [OF tb that names] that by simp
  have set_f: "set (map ?f ?xs) = set ?names"
  proof -
    have "set (map ?f ?xs) = set (map ?f us) - {''tid''}" by (auto simp: in_table_def)
    also have "\<dots> = ci_columnName ` fst ` set (tb_columns t)" using assms(2) unfolding updates_ok_def by (metis Diff_insert_absorb)
    finally show ?thesis by (simp add: image_image)
  qed
  have inj: "inj_on (column_index t) (set ?names)"
    by (rule inj_onI) (metis index in_set_conv_nth length_map)
  have dist: "distinct (map ?f ?xs)" using assms(2) by (simp add: in_table_def updates_ok_def distinct_map_filter)
  have "distinct (map (column_index t) (map ?f ?xs))" using dist inj unfolding distinct_map [of "column_index t"] set_f by blast
  then have "distinct (map (\<lambda>u. column_index t (?f u)) ?xs)" by (simp add: comp_def)
  moreover have "set (map (\<lambda>u. column_index t (?f u)) ?xs) = {0 ..< ?n}"
  proof -
    have "set (map (\<lambda>u. column_index t (?f u)) ?xs) = column_index t ` set (map ?f ?xs)" by (simp add: image_image)
    also have "\<dots> = set (map (column_index t) ?names)" unfolding set_f by (simp only: set_map)
    also have "map (column_index t) ?names = [0 ..< ?n]"
      by (rule nth_equalityI) (use index in simp_all)
    finally show ?thesis by simp
  qed
  ultimately have sorted: "map (\<lambda>u. column_index t (?f u)) (sorted_updates ius t us) = [0 ..< ?n]"
    unfolding sorted_updates_def by (rule sort_key_upt)
  then have len: "length (sorted_updates ius t us) = ?n" by (metis length_map length_upt minus_nat.diff_0)
  have "?f (sorted_updates ius t us ! j) = ?names ! j" if j: "j < ?n" for j
  proof -
    have "?f (sorted_updates ius t us ! j) \<in> set ?names"
    proof -
      have "sorted_updates ius t us ! j \<in> set ?xs" using j len nth_mem [of j "sorted_updates ius t us"] by (simp add: sorted_updates_def)
      then show ?thesis using set_f by auto
    qed
    then obtain k where k: "k < ?n" "?f (sorted_updates ius t us ! j) = ?names ! k" by (metis in_set_conv_nth length_map)
    moreover have "column_index t (?f (sorted_updates ius t us ! j)) = j"
      using arg_cong [OF sorted, of "\<lambda>xs. xs ! j"] j len by simp
    ultimately show ?thesis using index by metis
  qed
  then show "map ?f (sorted_updates ius t us) = ?names" using len by (simp add: list_eq_iff_nth_eq)
  show "set (sorted_updates ius t us) \<subseteq> set us" by (auto simp: sorted_updates_def in_table_def)
qed

section \<open>The operator\<close>

definition new_value :: "iu_value_mapping \<Rightarrow> (iu_p \<times> string \<times> NValue) \<Rightarrow> GValue option" where
  "new_value vals = (\<lambda>(iu, str, v). if str = [] then vals iu else Some (generated v))"

lemma updated_value_run:
  assumes "\<forall>u \<in> set us. assign_ok ius t u" "distinct (map (\<lambda>u. unit_column ius (fst u)) us)" "u \<in> set us" "new_value vals u = Some g"
  shows "updated_value ius (unit_texts us) vals (column_of_unit ius t u) s = Inr ([g], s)"
  using assms
proof (induction us)
  case (Cons x us)
  obtain iu str v where x: "x = (iu, str, v)" by (metis prod.collapse)
  from Cons.prems x have "column_unit ius t iu" by (simp add: assign_ok_def)
  then obtain y ci where y: "deref_iu ius iu = Inr y" "iu_columnInformation y = Some ci" "unit_column ius iu = ci_columnName ci"
    by (auto simp: column_unit_def unit_info_def getColumnInformation_def)
  have name: "uc_name (column_of_unit ius t u) = unit_column ius (fst u)" by (simp add: column_of_unit_def split_beta)
  show ?case
  proof (cases "u = x")
    case True
    with Cons.prems(4) y x name show ?thesis
      by (auto simp: unit_texts_def bind_gen_def lift_gen_def yield_gen_def new_value_def column_of_unit_def value_at_run split: if_splits)
  next
    case False
    with Cons.prems(2,3) have "unit_column ius (fst u) \<noteq> unit_column ius iu"
      by (metis (mono_tags, lifting) distinct.simps(2) fst_conv image_eqI list.map(2) list.set_map set_ConsD x)
    moreover have "updated_value ius (unit_texts us) vals (column_of_unit ius t u) s = Inr ([g], s)"
      using Cons False by simp
    ultimately show ?thesis using y x name by (simp add: unit_texts_def bind_gen_def lift_gen_def)
  qed
qed simp

lemma tid_of_run:
  assumes "\<forall>u \<in> set us. assign_ok ius t u" "(iu, str, v) \<in> set us" "unit_column ius iu = ''tid''"
    and "distinct (map (\<lambda>u. unit_column ius (fst u)) us)" "vals iu = Some (GLongInteger n)"
  shows "tid_of ius (map fst us) vals s = Inr (n, s)"
  using assms(1,2,4)
proof (induction us)
  case (Cons x us)
  have x: "column_unit ius t (fst x)" using Cons.prems(1) by (auto simp: assign_ok_def)
  show ?case
  proof (cases "fst x = iu")
    case True
    then show ?thesis using tid_of_head [of ius iu vals n] column_unit_tid [OF x] assms(3,5) by simp
  next
    case False
    with Cons.prems(2) have "(iu, str, v) \<in> set us" by auto
    moreover have "unit_column ius (fst x) \<noteq> ''tid''"
      using Cons.prems(3) \<open>(iu, str, v) \<in> set us\<close> assms(3) by (auto simp: image_iff split_beta)
    then have "named_tid ius (fst x) = Inr False"
      using x by (auto simp: column_unit_def named_tid_def unit_info_def getColumnInformation_def)
    ultimately show ?thesis using Cons by (simp add: bind_gen_def lift_gen_def)
  qed
qed simp

definition updated_tuple :: "InformationUnit list \<Rightarrow> iu_value_mapping \<Rightarrow> iu_p \<times> string \<times> NValue \<Rightarrow> NValue \<Rightarrow> bool" where
  "updated_tuple ius vals u x \<longleftrightarrow> new_value vals u = Some (generated x) \<and> scalar_of (unit_type ius (fst u)) x"

lemma list_all2_choice: "\<forall>x \<in> set xs. \<exists>y. P x y \<Longrightarrow> \<exists>ys. list_all2 P xs ys"
  by (induction xs) (auto simp: list_all2_Cons1)

lemma update_consume:
  assumes t: "table_ok t" and us: "updates_ok ius t us" and units: "\<forall>u \<in> set us. unit_info ius (fst u) \<in> set units"
    and vals: "mapping_ok units vals" and tid: "(iu, str, v) \<in> set us" "unit_column ius iu = ''tid''"
  shows "\<exists>n vs. vals iu = Some (GLongInteger n) \<and> list_all2 (updated_tuple ius vals) (sorted_updates ius t us) vs
    \<and> (\<forall>w. PUpdate_consume ius name (unit_texts us) b (map (column_of_unit ius t) (in_table ius us)) p vals w =
         bind_exec (genUpdateCall name b n vs) (\<lambda>_. emit (increment p)) w)"
proof -
  have ok: "\<forall>u \<in> set us. assign_ok ius t u" and dist: "distinct (map (\<lambda>u. unit_column ius (fst u)) us)"
    using us by (simp_all add: updates_ok_def)
  have "unit_info ius iu \<in> set units" using units tid(1) by force
  then have "(iu, ''tid'', unit_type ius iu) \<in> set units" using tid(2) by (metis unit_info_eq)
  with vals obtain n where n: "vals iu = Some (GLongInteger n)" by (fastforce simp: mapping_ok_def unit_typed_def)
  have "\<exists>x. updated_tuple ius vals u x" if u: "u \<in> set (sorted_updates ius t us)" for u
  proof -
    obtain j s x where [simp]: "u = (j, s, x)" by (metis prod.collapse)
    from u have mem: "(j, s, x) \<in> set us" "unit_column ius j \<noteq> ''tid''" by (auto simp: sorted_updates_def in_table_def)
    then have "unit_info ius j \<in> set units" using units by force
    then have "(j, unit_column ius j, unit_type ius j) \<in> set units" by (metis unit_info_eq)
    then obtain y where y: "vals j = Some (generated y)" "scalar_of (unit_type ius j) y"
      using unit_typedE [OF vals _ mem(2)] by metis
    have "assign_ok ius t (j, s, x)" using ok mem(1) by blast
    with y mem(2) show ?thesis
      by (cases "s = []") (auto simp: updated_tuple_def new_value_def assign_ok_def)
  qed
  then obtain vs where vs: "list_all2 (updated_tuple ius vals) (sorted_updates ius t us) vs"
    using list_all2_choice [of "sorted_updates ius t us" "updated_tuple ius vals"] by blast
  have mapM: "mapM_gen (updated_value ius (unit_texts us) vals) (map (column_of_unit ius t) us') s = Inr (map (\<lambda>x. [generated x]) vs', s)"
    if "list_all2 (updated_tuple ius vals) us' vs'" "set us' \<subseteq> set us" for us' vs' s
    using that
  proof (induction us' vs' rule: list_all2_induct)
    case (Cons u us' x vs')
    then have "updated_value ius (unit_texts us) vals (column_of_unit ius t u) s = Inr ([generated x], s)"
      by (intro updated_value_run [OF ok dist]) (simp_all add: updated_tuple_def)
    with Cons show ?case by (simp add: bind_gen_def yield_gen_def)
  qed (simp add: yield_gen_def)
  have native: "native_tuple (map generated vs) s = Inr (vs, s)" for s
  proof (rule native_tuple_generated)
    show "list_all2 (\<lambda>u. scalar_of (snd (snd u))) (map (\<lambda>u. unit_info ius (fst u)) (sorted_updates ius t us)) vs"
      using vs by (auto simp: list_all2_conv_all_nth updated_tuple_def)
  qed
  have "map fst (unit_texts us) = map fst us" by (simp add: unit_texts_def split_beta)
  with tid_of_run [of us ius t iu str v vals n, OF ok tid dist n]
  have tids: "tid_of ius (map fst (unit_texts us)) vals s = Inr (n, s)" for s by simp
  have conc: "concat (map (\<lambda>x. [generated x]) vs) = map generated vs" by (induction vs) simp_all
  have "PUpdate_consume ius name (unit_texts us) b (map (column_of_unit ius t) (in_table ius us)) p vals w =
         bind_exec (genUpdateCall name b n vs) (\<lambda>_. emit (increment p)) w" for w
    using emit_run [of "tid_of ius (map fst (unit_texts us)) vals" w, OF tids]
      emit_run [of "mapM_gen (updated_value ius (unit_texts us) vals) (map (column_of_unit ius t) (sorted_updates ius t us))" w,
        OF mapM [OF vs sorted_updates_columns(2) [OF t us]]]
      emit_run [of "native_tuple (map generated vs)" w, OF native]
    unfolding PUpdate_consume_def sorted_columns sorted_updates_def [symmetric]
    by (simp add: bind_exec_def conc)
  with n vs show ?thesis by blast
qed

lemma update_skipped:
  assumes "table_ok t" "updates_ok ius t us" "\<forall>u \<in> set us. unit_info ius (fst u) \<in> set units"
  shows "skipped_by units (PUpdate_consume ius name (unit_texts us) b (map (column_of_unit ius t) (in_table ius us)) p)"
  unfolding skipped_by_def
proof (intro allI impI)
  fix vals assume vals: "mapping_ok units vals"
  have "''tid'' \<in> set (map (\<lambda>u. unit_column ius (fst u)) us)" using assms(2) unfolding updates_ok_def by blast
  then obtain iu str v where "(iu, str, v) \<in> set us" "unit_column ius iu = ''tid''" by auto
  from update_consume [OF assms vals this, of name b p] obtain n vs where
    run: "\<forall>w. PUpdate_consume ius name (unit_texts us) b (map (column_of_unit ius t) (in_table ius us)) p vals w =
         bind_exec (genUpdateCall name b n vs) (\<lambda>_. emit (increment p)) w" by blast
  have "skips (bind_exec (genUpdateCall name b n vs) (\<lambda>_. emit (increment p)))"
    by (rule skips_bind [where P = "\<lambda>_. True"]) (simp_all add: genUpdateCall_def skips_increment)
  with run show "skips (PUpdate_consume ius name (unit_texts us) b (map (column_of_unit ius t) (in_table ius us)) p vals)"
    by (simp add: skips_def)
qed

lemma scalar_loads: "scalar_type type \<Longrightarrow> Value_load_check type = Inr ()"
  by (auto simp: scalar_type_def Value_load_check_def typeIDs)

lemma updates_load:
  assumes "table_ok t" "updates_ok ius t us"
  shows "row_loads t = Inr ()"
proof (rule row_loads_columns, rule ballI)
  fix c assume c: "c \<in> set (tb_columns t)"
  let ?n = "ci_columnName (fst c)"
  have "?n \<in> set (map (\<lambda>u. unit_column ius (fst u)) us)" "?n \<noteq> ''tid''"
    using assms(2) c unfolding updates_ok_def by (blast, metis imageI)
  then obtain iu str v where u: "(iu, str, v) \<in> set us" "unit_column ius iu = ?n" by auto
  then have "column_unit ius t iu" using assms(2) by (auto simp: updates_ok_def assign_ok_def)
  with u(2) \<open>?n \<noteq> ''tid''\<close> obtain c' where
    c': "c' \<in> set (tb_columns t)" "ci_columnName (fst c') = ?n" "scalar_type (ci_type (fst c'))"
    by (auto simp: column_unit_def unit_info_def getColumnInformation_def)
  have "distinct (map (ci_columnName \<circ> fst) (tb_columns t))" using assms(1) by (simp add: table_ok_def)
  then have "c' = c" using c c'(1,2) by (auto simp: distinct_map inj_on_def)
  with c'(3) show "Value_load_check (ci_type (fst c)) = Inr ()" by (simp add: scalar_loads)
qed

lemma update_same_columns:
  assumes vt: "vt_ok t" and i: "i < tb_rows t" and len: "length tuple = length (tb_columns t)"
    and loads: "row_loads t = Inr ()"
    and b: "unat (ctx_branchId ctx) < unat (1 + Database_getLargestBranchId db)"
    and seen: "ctx_branchId ctx \<noteq> master_branch_id \<Longrightarrow> find (seen_by (ctx_branch_lineage ctx) (ctx_branchId ctx)) (tuple_history t i) \<noteq> None"
    and run: "update_tuple (of_nat i) tuple db t ctx = Some (None, t')"
  shows "map fst (tb_columns t') = map fst (tb_columns t)" "tb_rows t' = tb_rows t"
proof -
  have "map fst (tb_columns t') = map fst (tb_columns t) \<and> tb_rows t' = tb_rows t"
  proof (cases "ctx_branchId ctx = master_branch_id")
    case True
    from update_master_Inr [OF vt i True len loads, of db] run show ?thesis by auto
  next
    case False
    have "find (vis ctx) (tuple_history t i) \<noteq> None" using seen [OF False] by (simp add: vis_seen_by [abs_def])
    from update_branch_Inr [OF vt i False b len this] run show ?thesis by auto
  qed
  then show "map fst (tb_columns t') = map fst (tb_columns t)" "tb_rows t' = tb_rows t" by simp_all
qed

lemma genUpdateCall_run:
  assumes at: "scan_at name b S t w" and l: "lineage_read b w" and i: "i < tb_rows t" "S name b i \<noteq> None"
    and len: "length tuple = length (tb_columns t)" and loads: "row_loads t = Inr ()"
  shows "\<exists>t' ctx'. genUpdateCall name b (of_nat i) tuple w = Some (Inr ((), update_table name t' ctx' w))
    \<and> scan_at name b (S(name := (S name)(b := (S name b)(i \<mapsto> map Some tuple)))) t' (update_table name t' ctx' w)
    \<and> map fst (tb_columns t') = map fst (tb_columns t) \<and> tb_rows t' = tb_rows t"
proof -
  let ?S = "S(name := (S name)(b := (S name b)(i \<mapsto> map Some tuple)))" and ?ctx = "(wo_ctx w)\<lparr>ctx_branchId := b\<rparr>"
  have inv: "db_inv (wo_db w) S" and t: "Database_getTable (wo_db w) name = Some t" and b: "b < db_next_branch_id (wo_db w)" and running: "running w"
    using at by (simp_all add: scan_at_def)
  note T = db_inv_table [OF inv t]
  have w: "unat b < bm_columnCount (tb_branchBitmap t)" using T(3) b by (simp add: table_width_def word_less_nat_alt)
  have size: "i < Table_size t" using Table_size_rows [OF T(2)] i(1) by simp
  have vis: "tb_visible t i b" using inv_scan_ready(2) [OF inv t b i(1)] i(2) by (auto simp: visible_row_def split: if_splits)
  then have visible: "isVisibleInBranch (tb_branchBitmap t) i b = Inr True" using isVisibleInBranch_Inr [OF T(2) i(1) w] by simp
  have lin: "b \<noteq> master_branch_id \<longrightarrow> ctx_branch_lineage (wo_ctx w) = lineage_of (db_branches (wo_db w)) b"
    using l by (simp add: lineage_read_def)
  have count: "length tuple = Table_getColumnCount t" using len by (simp add: Table_getColumnCount_def)
  have "update_loads b t = Inr ()" using loads by (simp add: update_loads_def)
  from update_keeps [OF inv t b count size visible lin this] obtain t' where
    t': "update_tuple_with_branchId (of_nat i) b tuple (wo_db w) t (wo_ctx w) = (Some (None, t'), ?ctx)" "db_inv (put_table name t' (wo_db w)) ?S" by blast
  have largest: "unat (ctx_branchId ?ctx) < unat (1 + Database_getLargestBranchId (wo_db w))"
    using b by (simp add: n_minus_one word_less_nat_alt)
  have seen: "find (seen_by (ctx_branch_lineage ?ctx) (ctx_branchId ?ctx)) (tuple_history t i) \<noteq> None" if "ctx_branchId ?ctx \<noteq> master_branch_id"
    using that lin inv_scan_ready(1) [OF inv t b] vis i(1) by (auto simp: scan_ready_def)
  from t'(1) have run: "update_tuple (of_nat i) tuple (wo_db w) t ?ctx = Some (None, t')" by (simp add: update_tuple_with_branchId_def Let_def)
  note cols = update_same_columns [OF T(2) i(1) len loads largest seen run]
  have "genUpdateCall name b (of_nat i) tuple w = Some (Inr ((), update_table name t' ?ctx w))"
    using t t'(1) running by (simp add: genUpdateCall_def call_exec_def with_table_def)
  moreover have "scan_at name b ?S t' (update_table name t' ?ctx w)" by (rule scan_at_put [OF at t'(2)]) simp
  ultimately show ?thesis using cols by blast
qed

lemma find_distinct: "distinct (map f xs) \<Longrightarrow> x \<in> set xs \<Longrightarrow> find (\<lambda>y. f y = f x) xs = Some x"
  by (induction xs) (auto simp: image_iff)

lemma assigned_columns:
  assumes t: "table_ok t" and us: "updates_ok ius t us" and vs: "list_all2 (updated_tuple ius vals) (sorted_updates ius t us) vs"
    and old: "\<And>iu str v. (iu, str, v) \<in> set us \<Longrightarrow> unit_column ius iu \<noteq> ''tid'' \<Longrightarrow>
      \<exists>x. r ! column_index t (unit_column ius iu) = Some x \<and> scalar_of (unit_type ius iu) x \<and> vals iu = Some (generated x)"
  shows "map Some vs = assigned ius t us r" "length vs = length (tb_columns t)"
proof -
  let ?f = "\<lambda>u. unit_column ius (fst u)" and ?us = "sorted_updates ius t us"
  note S = sorted_updates_columns [OF t us]
  have lens: "length ?us = length (tb_columns t)" "length vs = length ?us"
    using S(1) list_all2_lengthD [OF vs] by (metis length_map, simp)
  then show "length vs = length (tb_columns t)" by simp
  have dist: "distinct (map ?f us)" and ok: "\<forall>u \<in> set us. assign_ok ius t u" using us by (simp_all add: updates_ok_def)
  have "map Some vs ! j = assigned ius t us r ! j" if j: "j < length (tb_columns t)" for j
  proof -
    obtain iu str v where u: "?us ! j = (iu, str, v)" by (metis prod.collapse)
    have mem: "(iu, str, v) \<in> set us" "unit_column ius iu \<noteq> ''tid''"
      using nth_mem [of j ?us] j lens(1) u by (auto simp: sorted_updates_def in_table_def)
    have name: "unit_column ius iu = ci_columnName (fst (tb_columns t ! j))"
      using arg_cong [OF S(1), of "\<lambda>xs. xs ! j"] j lens(1) u by simp
    have find: "find (\<lambda>u. unit_column ius (fst u) = unit_column ius iu) us = Some (iu, str, v)"
      by (rule find_distinct [OF dist, of "(iu, str, v)", simplified]) (rule mem(1))
    from list_all2_nthD [OF vs, of j] j lens(1) u have x: "new_value vals (iu, str, v) = Some (generated (vs ! j))" "scalar_of (unit_type ius iu) (vs ! j)"
      by (simp_all add: updated_tuple_def)
    have "vs ! j = (if str = [] then the (r ! column_index t (unit_column ius iu)) else v)"
    proof (cases "str = []")
      case True
      from old [OF mem] obtain y where y: "r ! column_index t (unit_column ius iu) = Some y" "scalar_of (unit_type ius iu) y" "vals iu = Some (generated y)" by blast
      from x(1) True y(3) have "generated (vs ! j) = generated y" by (simp add: new_value_def)
      with generated_inj [OF x(2) y(2)] have "vs ! j = y" by iprover
      with y(1) True show ?thesis by simp
    next
      case False
      with ok mem have v: "scalar_of (unit_type ius iu) v" by (auto simp: assign_ok_def)
      from x(1) False have "generated (vs ! j) = generated v" by (simp add: new_value_def)
      with generated_inj [OF x(2) v] have "vs ! j = v" by iprover
      with False show ?thesis by simp
    qed
    with find name j lens show ?thesis by (simp add: assigned_def)
  qed
  then show "map Some vs = assigned ius t us r" using lens by (simp add: list_eq_iff_nth_eq assigned_def)
qed

definition changed_by :: "(NValue row \<Rightarrow> bool) \<Rightarrow> (NValue row \<Rightarrow> NValue row) \<Rightarrow> NValue row option \<Rightarrow> NValue row option" where
  "changed_by P f r = map_option (\<lambda>x. if P x then f x else x) r"

text \<open>UPDATE.\<close>

theorem update_changes_matching_rows:
  assumes "ius = fa_iu_vec (ac_iuFactory c)" "T = S (sc_table scan) (sc_branchId scan)"
    and "query_at se c S t scan wheres (fst ` set us)" "updates_ok ius t us"
  shows "\<exists>w. run_tree se c (Update (selection_tree ius scan wheres) (unit_texts us) (sc_table scan) (sc_branchId scan)) out = Some (Inr w)
    \<and> db_inv (wo_db w) (S(sc_table scan := (S (sc_table scan))(sc_branchId scan :=
         changed_by (satisfies ius t wheres) (assigned ius t us) \<circ> T)))"
proof -
  let ?tc = "query_tc se c" and ?s = "query_machine c out"
  let ?name = "sc_table scan" and ?b = "sc_branchId scan"
  let ?cols = "map (column_of_unit ius t) (in_table ius us)"
  define units where "units = needed_units ?tc (fst ` set us) wheres"
  define conds where "conds = map (where_cond ius) wheres"
  have run: "mc_status ?s = Running" by simp
  note Q = query_start [OF assms(3) units_def conds_def [unfolded assms(1)] run]
  have table: "Database_getTable (tc_db ?tc) ?name = Some t" and inv: "db_inv (ac_db c) S" using assms(3) by (simp_all add: query_at_def)
  have ok: "table_ok t" using db_inv_table(1) [OF inv] table by simp
  from Q(1) obtain rt where
    rt: "updateRequiredSetsTraverser (Some (fst ` set us, 1)) (selection_tree ius scan wheres) = Inr rt"
      "translate_tree ?tc (selection_tree ius scan wheres) rt ?s = Inr (physical_selection ?tc ?name ?b t units conds, ?s)"
    unfolding assms(1) by blast
  have columns: "update_columns ius t (unit_texts us) ?s = Inr (?cols, ?s)"
    by (rule update_columns_run) (use assms(4) in \<open>simp add: updates_ok_def\<close>)
  have "fst ` set (unit_texts us) = fst ` set us" by (force simp: unit_texts_def)
  then have tree: "translateToPhysicalTree ?tc (Update (selection_tree ius scan wheres) (unit_texts us) ?name ?b) ?s =
      Inr (PUpdate (physical_selection ?tc ?name ?b t units conds) ?name (unit_texts us) ?b ?cols, ?s)"
    using rt table columns by (simp add: translateToPhysicalTree_def getRequired_def unaryRequired_def computeRequired_def lift_gen_def
        bind_gen_def yield_gen_def PUpdate_ctor_def find_table_def assms(1))
  from Q(2) obtain ctx where
    ctx: "constructBranchLineages (sorted_list_of_set (ac_branchIds c)) (ac_db c) ExecutionContext_ctor = Some (Inr ctx)"
      "scan_at ?name ?b S t (query_world c ?s ctx)" by blast
  from query_counter [OF ctx(2)] obtain p w where
    w: "emit counter (query_world c ?s ctx) = Some (Inr (p, w))" "scan_at ?name ?b S t w" "wo_db w = ac_db c" by blast
  have infos: "\<forall>u \<in> set us. unit_info ius (fst u) \<in> set units" using Q(6) by (simp add: assms(1))
  let ?parent = "PUpdate_consume ius ?name (unit_texts us) ?b ?cols p"
  let ?f = "changed_by (row_matches t conds) (assigned ius t us)"
  have "\<exists>w'. scan_select (se_layout se) ?name ?b t units conds ?parent w = Some (Inr ((), w'))
    \<and> running w' \<and> db_inv (wo_db w') (S(?name := (S ?name)(?b := ?f \<circ> S ?name ?b))) \<and> True"
  proof (rule change_run [where I = "\<lambda>_ _. True", OF w(2) _ Q(3,4) update_skipped [OF ok assms(4) infos] Q(5)])
    fix i r w1 S' t'
    assume i: "i < tb_rows t'" "S' ?name ?b i = Some r" and r: "row_ok t units r" "row_matches t conds r"
      and S': "scan_at ?name ?b S' t' w1" "same_columns t t'" "lineage_read ?b w1"
    note M = mapping_of_row [OF Q(3) r(1)]
    have "''tid'' \<in> set (map (\<lambda>u. unit_column ius (fst u)) us)" using assms(4) unfolding updates_ok_def by blast
    then obtain iu str v where tid: "(iu, str, v) \<in> set us" "unit_column ius iu = ''tid''" by auto
    from update_consume [OF ok assms(4) infos M(1) tid, of i ?name ?b p] obtain n vs where
      vs: "row_mapping t units i r iu = Some (GLongInteger n)" "list_all2 (updated_tuple ius (row_mapping t units i r)) (sorted_updates ius t us) vs"
        "\<forall>w. ?parent (row_mapping t units i r) w = bind_exec (genUpdateCall ?name ?b n vs) (\<lambda>_. emit (increment p)) w" by blast
    have mem: "(j, unit_column ius j, unit_type ius j) \<in> set units" if "(j, str, v) \<in> set us" for j str v
      using infos that unit_info_eq [of ius j] by (metis fst_conv)
    have n: "n = of_nat i" using vs(1) M(2) [OF mem [OF tid(1)], of i] tid(2) by (simp add: unit_value_def)
    have "\<exists>x. r ! column_index t (unit_column ius j) = Some x \<and> scalar_of (unit_type ius j) x \<and> row_mapping t units i r j = Some (generated x)"
      if j: "(j, str, v) \<in> set us" "unit_column ius j \<noteq> ''tid''" for j str v
      using row_okD [OF r(1) mem [OF j(1)] j(2)] M(2) [OF mem [OF j(1)], of i] j(2) by (auto simp: unit_value_def)
    note A = assigned_columns [OF ok assms(4) vs(2) this]
    have "map fst (tb_columns t') = map fst (tb_columns t)" using S'(2) by (simp add: same_columns_def)
    then have "length (tb_columns t') = length (tb_columns t)" "row_loads t' = Inr ()"
      using row_loads_cong [of t' t] updates_load [OF ok assms(4)] by (metis length_map, simp)
    with genUpdateCall_run [OF S'(1,3) i(1), of vs] i(2) A(2) obtain t'' ctx' where
      t'': "genUpdateCall ?name ?b (of_nat i) vs w1 = Some (Inr ((), update_table ?name t'' ctx' w1))"
        "scan_at ?name ?b (S'(?name := (S' ?name)(?b := (S' ?name ?b)(i \<mapsto> map Some vs)))) t'' (update_table ?name t'' ctx' w1)"
        "map fst (tb_columns t'') = map fst (tb_columns t')" "tb_rows t'' = tb_rows t'" by auto
    let ?w = "update_table ?name t'' ctx' w1"
    from emit_increment [of p ?w] obtain s where s: "emit (increment p) ?w = Some (Inr ((), set_machine ?w s))" "quiet (wo_machine ?w) s" by blast
    have "scan_at ?name ?b (S'(?name := (S' ?name)(?b := (S' ?name ?b)(i \<mapsto> map Some vs)))) t'' (set_machine ?w s)"
      using scan_at_machine [OF t''(2)] s(2) t''(2) by (simp add: quiet_status scan_at_def running_def)
    moreover have "?parent (row_mapping t units i r) w1 = Some (Inr ((), set_machine ?w s))"
      using vs(3) t''(1) s(1) by (simp add: n bind_exec_def)
    moreover have "same_columns t' t''" by (rule same_columnsI [OF S'(1) t''(2,3)])
    moreover have "?f (Some r) = Some (map Some vs)" using r(2) A(1) by (simp add: changed_by_def)
    ultimately show "\<exists>w' t'' S''. ?parent (row_mapping t units i r) w1 = Some (Inr ((), w'))
      \<and> S'' = S'(?name := (S' ?name)(?b := (S' ?name ?b)(i := ?f (Some r)))) \<and> True \<and> scan_at ?name ?b S'' t'' w'
      \<and> same_columns t' t'' \<and> tb_rows t'' = tb_rows t'"
      using t''(4) by metis
  qed (simp_all add: changed_by_def)
  then obtain w' where w': "scan_select (se_layout se) ?name ?b t units conds ?parent w = Some (Inr ((), w'))"
    "db_inv (wo_db w') (S(?name := (S ?name)(?b := ?f \<circ> S ?name ?b)))" by blast
  have "Operator_produce (se_layout se) ius (PUpdate (physical_selection ?tc ?name ?b t units conds) ?name (unit_texts us) ?b ?cols) no_parent
      (query_world c ?s ctx) = Some (Inr ((), set_machine w' (wo_machine w')))"
    using w(1) w'(1) by (simp add: PUpdate_produce_def physical_selection_def produce_selects scan_select_def bind_exec_def
        emit_def load_u64_def gen_run yield_exec_def)
  then have "run_tree se c (Update (selection_tree ius scan wheres) (unit_texts us) ?name ?b) out = Some (Inr w')"
    using run_tree_run [OF tree ctx(1), folded assms(1), of w'] by simp
  then show ?thesis using w'(2) by (simp add: satisfies_matches conds_def assms(2))
qed

end
