(* ===== verification/RelationTrees.thy ===== *)
theory RelationTrees
  imports UpdateRuns UpdateConstruction
begin

text \<open>
  The trees of statements on one relation, as they are: a scan of the table in the branch, with one selection for
  every comparison of the WHERE clause, over units whose columns and types are those of the table.
\<close>

section \<open>The units of a scan\<close>

definition known_unit :: "InformationUnit list \<Rightarrow> NValue Table \<Rightarrow> iu_p \<Rightarrow> bool" where
  "known_unit ius t iu \<longleftrightarrow> (\<exists>u ci. deref_iu ius iu = Inr u \<and> iu_iuType u = ColumnRef \<and> iu_columnInformation u = Some ci
     \<and> iu_sqlType u = ci_type ci \<and> (ci_columnName ci = ''tid'' \<or> ci \<in> fst ` set (tb_columns t)))"

lemma known_unit_column:
  assumes "known_unit ius t iu" "unit_column ius iu = ''tid'' \<or> scalar_type (unit_type ius iu)"
  shows "column_unit ius t iu"
proof -
  from assms(1) obtain u ci where u: "deref_iu ius iu = Inr u" "iu_iuType u = ColumnRef" "iu_columnInformation u = Some ci"
    "iu_sqlType u = ci_type ci" "ci_columnName ci = ''tid'' \<or> ci \<in> fst ` set (tb_columns t)" unfolding known_unit_def by blast
  then have "unit_info ius iu = (iu, ci_columnName ci, ci_type ci)" by (simp add: unit_info_def getColumnInformation_def)
  with u assms(2) show ?thesis unfolding column_unit_def by (intro exI [of _ u] exI [of _ ci]) auto
qed

definition column_sqlType :: "NValue Table \<Rightarrow> string \<Rightarrow> SqlType" where
  "column_sqlType t n = ci_type (fst (tb_columns t ! column_index t n))"

lemma known_unit_type:
  assumes "known_unit ius t iu" "table_ok t" "unit_column ius iu \<noteq> ''tid''"
  shows "unit_type ius iu = column_sqlType t (unit_column ius iu)"
proof -
  from assms(1) obtain u ci where u: "deref_iu ius iu = Inr u" "iu_iuType u = ColumnRef" "iu_columnInformation u = Some ci"
    "ci_columnName ci = ''tid'' \<or> ci \<in> fst ` set (tb_columns t)" unfolding known_unit_def by blast
  then have "unit_info ius iu = (iu, ci_columnName ci, ci_type ci)" by (simp add: unit_info_def getColumnInformation_def)
  with u assms(3) have ci: "ci \<in> fst ` set (tb_columns t)" "ci_columnName ci = unit_column ius iu" "ci_type ci = unit_type ius iu" by auto
  then obtain j where j: "j < length (tb_columns t)" "fst (tb_columns t ! j) = ci" by (auto simp: in_set_conv_nth image_iff)
  have "tb_ok t" "distinct (map (ci_columnName \<circ> fst) (tb_columns t))" using assms(2) by (simp_all add: table_ok_def vt_ok_def)
  from column_index_nth [OF this(1) j(1) this(2)] j(2) ci show ?thesis by (simp add: column_sqlType_def)
qed

lemma store_ius_units:
  assumes "store_ius alias ius c = Inr c'" "ius_ok c" "\<forall>iu \<in> set ius. unit_ok c iu"
  shows "c' = c\<lparr>ac_ius := ac_ius c'\<rparr> \<and> (\<forall>p n iu. unit_at c' p n = Some iu \<longrightarrow>
     unit_at c p n = Some iu \<or> p = alias \<and> iu \<in> set ius \<and> column_of c iu = n)"
  using assms
proof (induction ius arbitrary: c)
  case (Cons x ius)
  define c1 where "c1 = c\<lparr>ac_ius := AList.update alias (AList.update (column_of c x) x (inner_map alias (ac_ius c))) (ac_ius c)\<rparr>"
  have x: "unit_ok c x" using Cons.prems by simp
  have run: "store_ius alias ius c1 = Inr c'"
    using Cons.prems(1) store_ius_step [OF x] by (simp add: c1_def)
  have same: "unit_ok c1 = unit_ok c" "column_of c1 = column_of c" by (auto simp: unit_ok_def column_of_def c1_def fun_eq_iff)
  have at: "unit_at c1 p n = (if p = alias \<and> n = column_of c x then Some x else unit_at c p n)" for p n
    by (rule store_one(2) [OF Cons.prems(2) x c1_def])
  have "ius_ok c1" by (rule store_one(1) [OF Cons.prems(2) x c1_def])
  moreover have "\<forall>iu \<in> set ius. unit_ok c1 iu" using Cons.prems(3) same by simp
  ultimately have IH: "c' = c1\<lparr>ac_ius := ac_ius c'\<rparr>" "\<forall>p n iu. unit_at c' p n = Some iu \<longrightarrow>
     unit_at c1 p n = Some iu \<or> p = alias \<and> iu \<in> set ius \<and> column_of c1 iu = n"
    using Cons.IH [OF run] by blast+
  have "c1\<lparr>ac_ius := m\<rparr> = c\<lparr>ac_ius := m\<rparr>" for m by (simp add: c1_def)
  with IH(1) have "c' = c\<lparr>ac_ius := ac_ius c'\<rparr>" by metis
  with IH(2) show ?case unfolding at same by (auto split: if_splits)
qed simp

definition relation_at :: "NValue Database \<Rightarrow> PTable \<Rightarrow> NValue Table \<Rightarrow> heap \<Rightarrow> AnalyzingContext \<Rightarrow> bool" where
  \<comment> \<open>the context of a statement on one relation, up to its tree\<close>
  "relation_at db r t h c \<longleftrightarrow> ius_ok c \<and> ac_db c = db \<and> ac_heap c = h \<and> ac_callback c = None \<and> ac_branchIds c = {branch_of db r}
     \<and> (\<forall>p n iu. unit_at c p n = Some iu \<longrightarrow> p = effective_alias r \<and> known_unit (fa_iu_vec (ac_iuFactory c)) t iu
          \<and> unit_column (fa_iu_vec (ac_iuFactory c)) iu = n \<and> n \<in> insert ''tid'' (columns_of db r))
     \<and> (\<forall>n \<in> insert ''tid'' (columns_of db r). has_unit c (effective_alias r) n)"

lemma scan_columns_infos:
  assumes "tb_ok t" "ci \<in> set (scan_columns t)"
  shows "ci_columnName ci = ''tid'' \<or> ci \<in> fst ` set (tb_columns t)"
proof -
  have "fst (tb_columns t ! the (map_of (tb_columnsByName t) n)) \<in> fst ` set (tb_columns t)" if n: "n \<in> set (Table_getColumnNames t)" for n
  proof -
    from n have "n \<in> fst ` set (tb_columnsByName t)" by (auto simp: Table_getColumnNames_def)
    then obtain i where i: "map_of (tb_columnsByName t) n = Some i" by (metis map_of_eq_None_iff not_Some_eq)
    then have "(n, i) \<in> set (tb_columnsByName t)" by (rule map_of_SomeD)
    with assms(1) i show ?thesis by (auto simp: tb_ok_def set_zip)
  qed
  with assms(2) show ?thesis by (auto simp: scan_columns_def tid_columnInformation_def)
qed

lemma scan_unit_known:
  assumes "tb_ok t" "iu \<in> scan_units f (scan_columns t)" "fa_iu_vec (ac_iuFactory c) = fa_iu_vec (scan_factory uid (scan_columns t) f)"
  shows "known_unit (fa_iu_vec (ac_iuFactory c)) t iu" "unit_column (fa_iu_vec (ac_iuFactory c)) iu = column_of c iu"
    "column_of c iu \<in> set (Table_getColumnNames t @ [''tid''])"
proof -
  from assms(2) obtain k where k: "k < length (scan_columns t)" "iu = Some (length (fa_iu_vec f) + k)"
    by (auto simp: scan_units_def) (metis le_Suc_ex nat_add_left_cancel_less)
  let ?ci = "scan_columns t ! k"
  have at: "fa_iu_vec (ac_iuFactory c) ! (length (fa_iu_vec f) + k) = \<lparr>iu_iuType = ColumnRef, iu_sqlType = ci_type ?ci,
      iu_columnInformation = Some ?ci, iu_scanUID = Some uid\<rparr>"
    "length (fa_iu_vec f) + k < length (fa_iu_vec (ac_iuFactory c))"
    unfolding assms(3) using k(1) by (simp_all add: scan_factory_def nth_append)
  have ci: "?ci \<in> set (scan_columns t)" using k(1) by simp
  show "known_unit (fa_iu_vec (ac_iuFactory c)) t iu"
    using at k(2) scan_columns_infos [OF assms(1) ci] by (simp add: known_unit_def deref_iu_def)
  show "unit_column (fa_iu_vec (ac_iuFactory c)) iu = column_of c iu"
    using at k(2) by (simp add: unit_info_def getColumnInformation_def deref_iu_def column_of_def)
  have "column_of c iu = ci_columnName ?ci" using at k(2) by (simp add: column_of_def)
  then show "column_of c iu \<in> set (Table_getColumnNames t @ [''tid''])"
    using ci unfolding scan_columns_names [OF assms(1), symmetric] by simp
qed

lemma relation_scanned:
  assumes en: "env_ok en" and r: "relation_ok db r" and t: "Database_getTable db (pt_name r) = Some t" "tb_ok t"
  shows "\<exists>c s. construct_scan en r (AnalyzingContext_ctor db h) = Inr (r\<lparr>pt_alias := effective_alias r\<rparr>, c)
    \<and> relation_at db r t h c \<and> scanned c \<and> ac_dangling c = [effective_alias r \<mapsto> Some (TableScan s)]
    \<and> sc_table s = pt_name r \<and> sc_branchId s = branch_of db r \<and> ac_graph c = \<lparr>jg_vertices = [], jg_edges = []\<rparr> \<and> ac_joinedTree c = None"
proof -
  let ?c = "AnalyzingContext_ctor db h" and ?name = "effective_alias r" and ?b = "branch_of db r"
  have start: "ac_db ?c = db" "ac_dangling ?c = Map.empty" "ac_graph ?c = \<lparr>jg_vertices = [], jg_edges = []\<rparr>" "ac_joinedTree ?c = None"
    by (simp_all add: AnalyzingContext_ctor_def)
  from construct_scan_ok [OF en scanned_start(1), of db h r] r obtain c s where
    c: "construct_scan en r ?c = Inr (r\<lparr>pt_alias := ?name\<rparr>, c)" "scanned c" "ac_db c = db" "ac_graph c = ac_graph ?c" "ac_joinedTree c = None"
      "\<forall>column \<in> insert ''tid'' (columns_of db r). has_unit c ?name column"
      "sc_table s = pt_name r" "sc_branchId s = ?b" "ac_dangling c = [?name \<mapsto> Some (TableScan s)]"
    unfolding start by auto
  define cis where "cis = scan_columns t"
  define f where "f = ac_iuFactory ?c"
  define c1 where "c1 = ?c\<lparr>ac_db := db, ac_branchIds := insert ?b (ac_branchIds ?c), ac_iuFactory := scan_factory (fa_operatorUID f) cis f\<rparr>"
  have rel: "(if pt_alias r = [] then r\<lparr>pt_alias := pt_name r\<rparr> else r) = r\<lparr>pt_alias := ?name\<rparr>" by (simp add: effective_alias_def)
  have "construct_scan en r ?c = bind_res (store_ius ?name (en_addresses en (scan_units f cis)) c1) (\<lambda>c2.
        Inr (r\<lparr>pt_alias := ?name\<rparr>, c2\<lparr>ac_dangling := if ac_dangling c2 ?name = None
          then (ac_dangling c2)(?name \<mapsto> Some (TableScan \<lparr>sc_uid = fa_operatorUID f, sc_table = pt_name r, sc_branchId = ?b, sc_produced = scan_units f cis\<rparr>)) else ac_dangling c2\<rparr>))"
    using t(1) branch_lookup_same [OF r] unfolding construct_scan_def rel
    by (simp add: getTable_def start scan_created [OF t(2)] Let_def c1_def f_def cis_def cong: if_cong)
  with c(1) obtain c2 d where c2: "store_ius ?name (en_addresses en (scan_units f cis)) c1 = Inr c2" "c = c2\<lparr>ac_dangling := d\<rparr>"
    by (auto simp: bind_res_eq_Inr)
  have vec: "fa_iu_vec (ac_iuFactory c1) = fa_iu_vec (scan_factory (fa_operatorUID f) cis f)" by (simp add: c1_def)
  have fin: "finite (scan_units f cis)" by (simp add: scan_units_def)
  with en have units: "set (en_addresses en (scan_units f cis)) = scan_units f cis" by (simp add: env_ok_def)
  have none: "unit_at c1 p n = None" for p n by (simp add: c1_def unit_at_def AnalyzingContext_ctor_def inner_map_def)
  have ok1: "ius_ok c1" by (simp add: ius_ok_def none) (simp add: c1_def AnalyzingContext_ctor_def inner_map_def)
  have "\<forall>iu \<in> set (en_addresses en (scan_units f cis)). unit_ok c1 iu" using scan_unit_ok [OF _ vec] units by blast
  from store_ius_units [OF c2(1) ok1 this] have st: "c2 = c1\<lparr>ac_ius := ac_ius c2\<rparr>"
    "\<And>p n iu. unit_at c2 p n = Some iu \<Longrightarrow> unit_at c1 p n = Some iu \<or> p = ?name \<and> iu \<in> scan_units f cis \<and> column_of c1 iu = n"
    unfolding units by blast+
  have fact: "ac_iuFactory c = ac_iuFactory c1" by (subst c2(2), subst st(1)) simp
  have frame: "ac_heap c = h" "ac_callback c = None" "ac_branchIds c = {?b}"
    by (subst c2(2), subst st(1), simp add: c1_def AnalyzingContext_ctor_def)+
  have at: "unit_at c = unit_at c2" by (simp add: c2(2) unit_at_def fun_eq_iff)
  have col: "column_of c1 = column_of c" by (simp add: column_of_def fact fun_eq_iff)
  have "p = ?name \<and> known_unit (fa_iu_vec (ac_iuFactory c)) t iu \<and> unit_column (fa_iu_vec (ac_iuFactory c)) iu = n
      \<and> n \<in> insert ''tid'' (columns_of db r)" if "unit_at c p n = Some iu" for p n iu
  proof -
    from st(2) that none have iu: "p = ?name" "iu \<in> scan_units f cis" "column_of c iu = n" unfolding at col by auto
    have "fa_iu_vec (ac_iuFactory c) = fa_iu_vec (scan_factory (fa_operatorUID f) (scan_columns t) f)" using vec by (simp add: fact cis_def)
    from scan_unit_known [OF t(2) iu(2) [unfolded cis_def] this] iu t(1) show ?thesis by (auto simp: columns_of_def)
  qed
  then have "relation_at db r t h c" using c(2,3,6) frame by (simp add: relation_at_def scanned_def)
  with c start(3) show ?thesis by (intro exI [of _ c] exI [of _ s]) simp
qed

section \<open>Comparisons\<close>

definition text_value :: "SqlType \<Rightarrow> string \<Rightarrow> NValue option" where
  \<comment> \<open>the value of a scalar type that a text stands for\<close>
  "text_value type str =
     (case ty_typeID type of
        IntegerID \<Rightarrow> (case castStringToIntegerValue str of Inr i \<Rightarrow> Some (NInteger i) | Inl _ \<Rightarrow> None)
      | NumericID \<Rightarrow> (case castStringToNumericValue str (unat (numericLayout_length type)) (unat (numericLayout_precision type)) of
            Inr raw \<Rightarrow> Some (NNumeric type raw) | Inl _ \<Rightarrow> None)
      | DateID \<Rightarrow> (case castStringToDateValue str of Inr d \<Rightarrow> Some (NDate d) | Inl _ \<Rightarrow> None)
      | TimestampID \<Rightarrow> (case castStringToTimestampValue str of Inr x \<Rightarrow> Some (NTimestamp x) | Inl _ \<Rightarrow> None)
      | _ \<Rightarrow> None)"

lemma text_value_casts:
  assumes "scalar_type type" "text_value type str = Some v"
  shows "scalar_of type v" "Value_castString_gen str type s = Inr (generated v, s)"
proof -
  note defs = text_value_def Value_castString_gen_def bind_gen_def lift_gen_def yield_gen_def
  from assms(1) consider "type = getIntegerTy False" | "type = getDateTy False" | "type = getTimestampTy False"
    | "ty_typeID type = NumericID" "\<not> ty_nullable type" by (auto simp: scalar_type_def)
  then have "scalar_of type v \<and> Value_castString_gen str type s = Inr (generated v, s)"
  proof cases
    case 1
    with assms(2) obtain i where "castStringToIntegerValue str = Inr i" "v = NInteger i"
      by (auto simp: text_value_def typeIDs split: sum.splits)
    with 1 show ?thesis by (simp add: defs scalar_of_def scalar_type_def typeIDs Integer_castString_gen_def)
  next
    case 2
    with assms(2) obtain d where "castStringToDateValue str = Inr d" "v = NDate d"
      by (auto simp: text_value_def typeIDs split: sum.splits)
    with 2 show ?thesis by (simp add: defs scalar_of_def scalar_type_def typeIDs Date_castString_gen_def)
  next
    case 3
    with assms(2) obtain x where "castStringToTimestampValue str = Inr x" "v = NTimestamp x"
      by (auto simp: text_value_def typeIDs split: sum.splits)
    with 3 show ?thesis by (simp add: defs scalar_of_def scalar_type_def typeIDs Timestamp_castString_gen_def)
  next
    case 4
    with assms(2) obtain raw where raw: "castStringToNumericValue str (unat (numericLayout_length type)) (unat (numericLayout_precision type)) = Inr raw"
      "v = NNumeric type raw" by (auto simp: text_value_def split: sum.splits)
    with 4 show ?thesis by (simp add: defs scalar_of_def scalar_type_def Numeric_castString_gen_def)
  qed
  then show "scalar_of type v" "Value_castString_gen str type s = Inr (generated v, s)" by simp_all
qed

definition comparison_ok :: "NValue Database \<Rightarrow> PTable \<Rightarrow> NValue Table \<Rightarrow> PColumn \<times> string \<Rightarrow> bool" where
  \<comment> \<open>a column of the relation, of a scalar type, with a text of that type\<close>
  "comparison_ok db r t = (\<lambda>(column, str). bound_to r column \<and> pc_name column \<in> columns_of db r
     \<and> scalar_type (column_sqlType t (pc_name column)) \<and> text_value (column_sqlType t (pc_name column)) str \<noteq> None)"

definition row_holds :: "NValue Table \<Rightarrow> (PColumn \<times> string) list \<Rightarrow> NValue row \<Rightarrow> bool" where
  \<comment> \<open>the row has the values of the texts in the columns of the comparisons\<close>
  "row_holds t sels row \<longleftrightarrow> (\<forall>(column, str) \<in> set sels.
     row ! column_index t (pc_name column) = text_value (column_sqlType t (pc_name column)) str)"

definition unit_of :: "AnalyzingContext \<Rightarrow> string \<Rightarrow> string \<Rightarrow> iu_p" where
  "unit_of c p n = the (unit_at c p n)"

definition statement_wheres :: "AnalyzingContext \<Rightarrow> PTable \<Rightarrow> NValue Table \<Rightarrow> (PColumn \<times> string) list \<Rightarrow> wheres" where
  "statement_wheres c r t sels = map (\<lambda>(column, str). (unit_of c (effective_alias r) (pc_name column), str,
     the (text_value (column_sqlType t (pc_name column)) str))) sels"

lemma relation_unit:
  assumes "relation_at db r t h c" "n \<in> insert ''tid'' (columns_of db r)" "ius = fa_iu_vec (ac_iuFactory c)"
  shows "unit_at c (effective_alias r) n = Some (unit_of c (effective_alias r) n)"
    "known_unit ius t (unit_of c (effective_alias r) n)" "unit_column ius (unit_of c (effective_alias r) n) = n"
    "table_ok t \<Longrightarrow> n \<noteq> ''tid'' \<Longrightarrow> unit_type ius (unit_of c (effective_alias r) n) = column_sqlType t n"
proof -
  from assms(1,2) have "has_unit c (effective_alias r) n" unfolding relation_at_def by blast
  then show at: "unit_at c (effective_alias r) n = Some (unit_of c (effective_alias r) n)"
    by (auto simp: has_unit_def unit_of_def)
  with assms(1) show k: "known_unit ius t (unit_of c (effective_alias r) n)" "unit_column ius (unit_of c (effective_alias r) n) = n"
    unfolding relation_at_def assms(3) by blast+
  from known_unit_type [OF k(1)] k(2) show "table_ok t \<Longrightarrow> n \<noteq> ''tid'' \<Longrightarrow>
    unit_type ius (unit_of c (effective_alias r) n) = column_sqlType t n" by simp
qed

lemma relation_column_unit:
  assumes "relation_at db r t h c" "n \<in> columns_of db r" "n \<noteq> ''tid''" "ius = fa_iu_vec (ac_iuFactory c)" "table_ok t"
    "scalar_type (column_sqlType t n)"
  shows "column_unit ius t (unit_of c (effective_alias r) n)"
  using relation_unit [OF assms(1) _ assms(4), of n] assms by (intro known_unit_column) simp_all

lemma statement_wheres_ok:
  assumes "relation_at db r t h c" "ius = fa_iu_vec (ac_iuFactory c)" "table_ok t" "''tid'' \<notin> columns_of db r"
    "\<forall>sel \<in> set sels. comparison_ok db r t sel"
  shows "\<forall>x \<in> set (statement_wheres c r t sels). where_ok ius t x"
    "satisfies ius t (statement_wheres c r t sels) = row_holds t sels"
proof -
  have col: "pc_name column \<in> columns_of db r" "pc_name column \<noteq> ''tid''" "scalar_type (column_sqlType t (pc_name column))"
    "\<exists>v. text_value (column_sqlType t (pc_name column)) str = Some v"
    if "(column, str) \<in> set sels" for column str
    using that assms(4,5) by (auto simp: comparison_ok_def)
  show "\<forall>x \<in> set (statement_wheres c r t sels). where_ok ius t x"
  proof
    fix x assume "x \<in> set (statement_wheres c r t sels)"
    then obtain column str where sel: "(column, str) \<in> set sels" and x: "x = (unit_of c (effective_alias r) (pc_name column), str,
       the (text_value (column_sqlType t (pc_name column)) str))" by (auto simp: statement_wheres_def)
    note C = col [OF sel]
    from C(4) obtain v where v: "text_value (column_sqlType t (pc_name column)) str = Some v" by blast
    have "pc_name column \<in> insert ''tid'' (columns_of db r)" using C(1) by simp
    note U = relation_unit [OF assms(1) this assms(2)]
    show "where_ok ius t x"
      using relation_column_unit [OF assms(1) C(1,2) assms(2,3) C(3)] U(3,4) assms(3) C(2) text_value_casts [OF C(3) v] v
      by (simp add: x where_ok_def)
  qed
  have "satisfies ius t (statement_wheres c r t sels) row \<longleftrightarrow> row_holds t sels row" for row
  proof -
    have "unit_column ius (unit_of c (effective_alias r) (pc_name column)) = pc_name column" if "(column, str) \<in> set sels" for column str
      using relation_unit(3) [OF assms(1) _ assms(2)] col(1) [OF that] by simp
    moreover have "Some (the (text_value (column_sqlType t (pc_name column)) str)) = text_value (column_sqlType t (pc_name column)) str"
      if "(column, str) \<in> set sels" for column str
      using col(4) [OF that] by auto
    ultimately show ?thesis
      by (auto simp: satisfies_def row_holds_def statement_wheres_def split_beta)
  qed
  then show "satisfies ius t (statement_wheres c r t sels) = row_holds t sels" by blast
qed

lemma relation_selected:
  assumes en: "env_ok en" and c: "relation_at db r t h c" "scanned c" "ac_dangling c = [effective_alias r \<mapsto> Some tree]"
    and t: "table_ok t" "''tid'' \<notin> columns_of db r" and sels: "\<forall>sel \<in> set sels. comparison_ok db r t sel"
  shows "\<exists>c'. construct_selects en sels c = Inr c' \<and> relation_at db r t h c' \<and> scanned c' \<and> same_base c c'
    \<and> ac_dangling c' = [effective_alias r \<mapsto> Some (foldl Select tree (map (where_exp (fa_iu_vec (ac_iuFactory c))) (statement_wheres c r t sels)))]
    \<and> ac_graph c' = ac_graph c \<and> ac_joinedTree c' = ac_joinedTree c"
  using c sels
proof (induction sels arbitrary: c tree)
  case Nil
  then show ?case by (simp add: construct_selects_def statement_wheres_def)
next
  case (Cons sel sels)
  obtain column str where sel: "sel = (column, str)" by force
  let ?p = "effective_alias r" and ?ius = "fa_iu_vec (ac_iuFactory c)"
  let ?iu = "unit_of c ?p (pc_name column)"
  from Cons.prems(4) sel have col: "bound_to r column" "pc_name column \<in> columns_of db r" "scalar_type (column_sqlType t (pc_name column))"
    by (auto simp: comparison_ok_def)
  then have tid: "pc_name column \<noteq> ''tid''" "pc_name column \<in> insert ''tid'' (columns_of db r)" using t(2) by auto
  note U = relation_unit [OF Cons.prems(1) tid(2) refl]
  have ok: "ius_ok c" using Cons.prems(1) by (simp add: relation_at_def)
  have res: "resolvable c column" using U(1) col(1) by (auto simp: resolvable_def has_unit_def bound_to_def)
  obtain p iu where su: "selection_unit en column c = (p, iu)" by force
  have "unit_at c p (pc_name column) = Some iu" by (rule selection_unit_at [OF en ok res su])
  then have p: "p = ?p" "iu = ?iu" using Cons.prems(1) U(1) unfolding relation_at_def by auto
  from construct_select_run [OF en Cons.prems(2) res su, of str] obtain m tree' exp where
    m: "ac_dangling c ?p = Some (Some tree')"
      "construct_select en (column, str) c = Inr (next_uid (c\<lparr>ac_ius := m, ac_dangling := (ac_dangling c)(?p \<mapsto> Some (Select tree' exp))\<rparr>))"
      "unit_at (c\<lparr>ac_ius := m\<rparr>) = unit_at c" "ius_ok (c\<lparr>ac_ius := m\<rparr>)"
      "\<exists>type. iu_getType ?ius ?iu = Inr type \<and> exp = Comparison eq (Identifier ?iu) (Constant str type) (getBoolTy (ty_nullable type))"
    unfolding p by blast
  have tree: "tree' = tree" using m(1) Cons.prems(3) by simp
  have unit: "column_unit ?ius t ?iu" by (rule relation_column_unit [OF Cons.prems(1) col(2) tid(1) refl t(1) col(3)])
  have type: "iu_getType ?ius ?iu = Inr (unit_type ?ius ?iu)" by (rule column_unit_info(1) [OF unit])
  moreover have "\<not> ty_nullable (unit_type ?ius ?iu)" using U(4) t(1) tid(1) col(3) by (auto simp: scalar_type_def typeIDs)
  ultimately have exp: "exp = where_exp ?ius (?iu, str, v)" for v using m(5) by (simp add: where_exp_def)
  define c1 where "c1 = next_uid (c\<lparr>ac_ius := m, ac_dangling := (ac_dangling c)(?p \<mapsto> Some (Select tree' exp))\<rparr>)"
  have run: "construct_select en sel c = Inr c1" using m(2) by (simp add: c1_def sel)
  have at: "unit_at c1 = unit_at c" using m(3) by (simp add: c1_def unit_at_def fun_eq_iff)
  have has: "has_unit c1 = has_unit c" by (simp add: has_unit_def at fun_eq_iff)
  have vec: "fa_iu_vec (ac_iuFactory c1) = ?ius" by (simp add: c1_def)
  from construct_select_ok [OF en Cons.prems(2) res, of str] run sel have c1: "scanned c1" "same_base c c1" by auto
  have frame: "ac_db c1 = ac_db c" "ac_heap c1 = ac_heap c" "ac_callback c1 = ac_callback c" "ac_branchIds c1 = ac_branchIds c"
    "ac_graph c1 = ac_graph c" "ac_joinedTree c1 = ac_joinedTree c"
    by (simp_all add: c1_def next_uid_def)
  have rel: "relation_at db r t h c1"
    using Cons.prems(1) c1(1) unfolding relation_at_def at has vec frame scanned_def by blast
  have "ac_dangling c1 = [?p \<mapsto> Some (Select tree exp)]" by (simp add: c1_def tree Cons.prems(3)) (simp add: fun_eq_iff)
  moreover have "\<forall>sel \<in> set sels. comparison_ok db r t sel" using Cons.prems(4) by simp
  ultimately obtain c' where
    c': "construct_selects en sels c1 = Inr c'" "relation_at db r t h c'" "scanned c'" "same_base c1 c'"
      "ac_dangling c' = [?p \<mapsto> Some (foldl Select (Select tree exp) (map (where_exp (fa_iu_vec (ac_iuFactory c1))) (statement_wheres c1 r t sels)))]"
      "ac_graph c' = ac_graph c1" "ac_joinedTree c' = ac_joinedTree c1" using Cons.IH [OF rel c1(1)] by blast
  have "unit_of c1 = unit_of c" by (simp add: unit_of_def at fun_eq_iff)
  then have W: "statement_wheres c r t (sel # sels) =
      (?iu, str, the (text_value (column_sqlType t (pc_name column)) str)) # statement_wheres c1 r t sels"
    by (simp add: statement_wheres_def sel)
  from c'(5) have "ac_dangling c' = [?p \<mapsto> Some (foldl Select tree (map (where_exp ?ius) (statement_wheres c r t (sel # sels))))]"
    unfolding vec exp [of "the (text_value (column_sqlType t (pc_name column)) str)"] W by simp
  moreover have "construct_selects en (sel # sels) c = Inr c'" using run c'(1) by (simp add: construct_selects_def)
  ultimately show ?case using c'(2,3,6,7) same_base_trans [OF c1(2) c'(4)] frame(5,6) by auto
qed

end
