(* ===== verification/StatementExamples.thy ===== *)
theory StatementExamples
  imports RelationTrees
begin

text \<open>
  The rows and statements at which the properties of whole statements are applied: the catalogue with two rows
  in a table, a branch of it, and a statement of each kind on the branch.
\<close>

definition ex_row :: "u32 \<Rightarrow> u32 \<Rightarrow> NValue list" where
  "ex_row a b = [NInteger a, NInteger b]"

definition ex_s_table :: "NValue Database \<Rightarrow> NValue Table" where
  "ex_s_table db = the (Database_getTable db ''s'')"

definition ex_inserted :: "NValue list \<Rightarrow> NValue Database \<Rightarrow> NValue Database" where
  "ex_inserted row db = put_table ''s'' (snd (fst (insert_tuple_with_branchId row db (ex_s_table db) ExecutionContext_ctor 0))) db"

definition ex_first :: "NValue Database" where "ex_first = ex_inserted (ex_row 7 1) ex_catalogue"
definition ex_second :: "NValue Database" where "ex_second = ex_inserted (ex_row 5 2) ex_first"
definition ex_branched :: "NValue Database" where "ex_branched = snd (Database_createBranch ''dev'' 0 ex_second)"

definition ex_rows :: "NValue snapshots" where
  "ex_rows = (\<lambda>b. if b \<in> {0, 1} then [0 \<mapsto> map Some (ex_row 7 1), 1 \<mapsto> map Some (ex_row 5 2)] else Map.empty)"

definition ex_snapshots :: "string \<Rightarrow> NValue snapshots" where
  "ex_snapshots = (\<lambda>_ _. Map.empty)(''s'' := ex_rows)"

definition ex_layout :: data_layout where
  "ex_layout = \<lparr>dl_indicator = (\<lambda>_. 0), dl_valueSize = (\<lambda>_. 8), dl_member = (\<lambda>_ i. 8 * of_nat i), dl_nodeTuple = (\<lambda>_. 8),
     dl_nodeSize = (\<lambda>_. 64), dl_groupEntry = (\<lambda>i. 16 * of_nat i), dl_groupSize = 64, dl_avgCount = (\<lambda>_. 8)\<rparr>"

definition ex_setting :: setting where
  "ex_setting = \<lparr>se_environment = ex_env, se_layout = ex_layout, se_valueSize = ex_size, se_branchOrder = id\<rparr>"

lemma ex_branched_facts:
  "case Database_getTable ex_catalogue ''s'' of Some t \<Rightarrow> True | None \<Rightarrow> False"
  "case Database_getTable ex_first ''s'' of Some t \<Rightarrow> True | None \<Rightarrow> False"
  "case Database_getTable ex_branched ''s'' of Some t \<Rightarrow> True | None \<Rightarrow> False"
  "fst (fst (insert_tuple_with_branchId (ex_row 7 1) ex_catalogue (ex_s_table ex_catalogue) ExecutionContext_ctor 0)) = Inr 0"
  "fst (fst (insert_tuple_with_branchId (ex_row 5 2) ex_first (ex_s_table ex_first) ExecutionContext_ctor 0)) = Inr 1"
  "Table_getColumnCount (ex_s_table ex_catalogue) = 2" "Table_size (ex_s_table ex_catalogue) = 0" "db_next_branch_id ex_catalogue = 1"
  "Table_getColumnCount (ex_s_table ex_first) = 2" "Table_size (ex_s_table ex_first) = 1" "db_next_branch_id ex_first = 1"
  "fst (Database_createBranch ''dev'' 0 ex_second) = Inr 1" "db_next_branch_id ex_second = 1"
  "Table_getColumnCount (ex_s_table ex_branched) = 2" "Table_size (ex_s_table ex_branched) = 2"
  by code_simp+


lemma ex_s_tables:
  "Database_getTable ex_catalogue ''s'' = Some (ex_s_table ex_catalogue)"
  "Database_getTable ex_first ''s'' = Some (ex_s_table ex_first)"
  "Database_getTable ex_branched ''s'' = Some (ex_s_table ex_branched)"
  unfolding ex_s_table_def by (rule ex_lookup, rule ex_branched_facts)+

lemma ex_branched_run: "db_run ex_size ex_branched ex_snapshots"
proof -
  define S1 :: "string \<Rightarrow> NValue snapshots" where "S1 = (\<lambda>_ _ _. None)(''s'' := (\<lambda>_. Map.empty)(0 := [0 \<mapsto> map Some (ex_row 7 1)]))"
  define S2 where "S2 = S1(''s'' := (S1 ''s'')(0 := (S1 ''s'' 0)(1 \<mapsto> map Some (ex_row 5 2))))"
  have len: "length (ex_row a b) = 2" for a b by (simp add: ex_row_def)
  from db_insert [OF ex_catalogue_run ex_s_tables(1), where b = 0 and tuple = "ex_row 7 1" and ctx = ExecutionContext_ctor
      and tid = 0 and t' = "snd (fst (insert_tuple_with_branchId (ex_row 7 1) ex_catalogue (ex_s_table ex_catalogue) ExecutionContext_ctor 0))"]
  have "db_run ex_size ex_first S1"
    using ex_branched_facts(4,6-8) by (simp add: ex_first_def ex_inserted_def S1_def len prod_eq_iff)
  from db_insert [OF this ex_s_tables(2), where b = 0 and tuple = "ex_row 5 2" and ctx = ExecutionContext_ctor
      and tid = 1 and t' = "snd (fst (insert_tuple_with_branchId (ex_row 5 2) ex_first (ex_s_table ex_first) ExecutionContext_ctor 0))"]
  have "db_run ex_size ex_second S2"
    using ex_branched_facts(5,9-11) by (simp add: ex_second_def ex_inserted_def S2_def len prod_eq_iff)
  from db_create_branch [OF this, of 0 "''dev''" 1 ex_branched] ex_branched_facts(12,13)
  have "db_run ex_size ex_branched (\<lambda>table. (S2 table)(1 := S2 table 0))" by (simp add: ex_branched_def prod_eq_iff invalid_branch_id_def)
  moreover have "(\<lambda>table. (S2 table)(1 := S2 table 0)) = ex_snapshots"
    by (auto simp: fun_eq_iff S2_def S1_def ex_snapshots_def ex_rows_def)
  ultimately show ?thesis by simp
qed

definition ex_delete_text :: string where "ex_delete_text = ''DELETE FROM s VERSION dev WHERE a = 7 ;''"
definition ex_update_text :: string where "ex_update_text = ''UPDATE s VERSION dev SET b = 8 WHERE a = 5 ;''"
definition ex_insert_text :: string where "ex_insert_text = ''INSERT INTO s VERSION dev VALUES ( 9 , 4 ) ;''"
definition ex_select_text :: string where "ex_select_text = ''SELECT b FROM s VERSION dev WHERE a = 7 ;''"

definition ex_parsed :: "string \<Rightarrow> ParsingContext" where
  "ex_parsed query = (case parseStatement ParsingContext_ctor query of Some (Inr px) \<Rightarrow> px)"

lemma ex_parsed_text:
  "case parseStatement ParsingContext_ctor query of Some (Inr px) \<Rightarrow> True | _ \<Rightarrow> False \<Longrightarrow> parseStatement ParsingContext_ctor query = Some (Inr (ex_parsed query))"
  by (auto simp: ex_parsed_def split: option.splits sum.splits)

lemma ex_texts_parsed:
  "case parseStatement ParsingContext_ctor ex_delete_text of Some (Inr px) \<Rightarrow> True | _ \<Rightarrow> False"
  "case parseStatement ParsingContext_ctor ex_update_text of Some (Inr px) \<Rightarrow> True | _ \<Rightarrow> False"
  "case parseStatement ParsingContext_ctor ex_insert_text of Some (Inr px) \<Rightarrow> True | _ \<Rightarrow> False"
  "case parseStatement ParsingContext_ctor ex_select_text of Some (Inr px) \<Rightarrow> True | _ \<Rightarrow> False"
  by code_simp+

definition ex_dev_relation :: PTable where
  "ex_dev_relation = \<lparr>pt_name = ''s'', pt_alias = [], pt_version = ''dev''\<rparr>"

definition ex_where :: "string \<Rightarrow> string \<Rightarrow> PColumn \<times> string" where
  "ex_where column v = (\<lparr>pc_name = column, pc_table = []\<rparr>, v)"

lemma ex_delete_parsed:
  "px_opType (ex_parsed ex_delete_text) = Op_Delete"
  "px_deleteStmt (ex_parsed ex_delete_text) = \<lparr>del_relation = ex_dev_relation, del_selections = [ex_where ''a'' ''7'']\<rparr>"
  by code_simp+

lemma ex_update_parsed:
  "px_opType (ex_parsed ex_update_text) = Op_Update"
  "px_updateStmt (ex_parsed ex_update_text) =
     \<lparr>upd_relation = ex_dev_relation, upd_updates = [ex_where ''b'' ''8''], upd_selections = [ex_where ''a'' ''5'']\<rparr>"
  by code_simp+

lemma ex_insert_parsed:
  "px_opType (ex_parsed ex_insert_text) = Op_Insert"
  "px_insertStmt (ex_parsed ex_insert_text) = \<lparr>ins_relation = ex_dev_relation, ins_columns = [], ins_values = [''9'', ''4'']\<rparr>"
  by code_simp+

lemma ex_select_parsed:
  "px_opType (ex_parsed ex_select_text) = Op_Select"
  "px_selectStmt (ex_parsed ex_select_text) = \<lparr>sel_projections = [\<lparr>pc_name = ''b'', pc_table = []\<rparr>], sel_relations = [ex_dev_relation],
     sel_joinConditions = [], sel_selections = [ex_where ''a'' ''7'']\<rparr>"
  by code_simp+

lemma ex_verified:
  "DeleteAnalyser_verify ex_branched (Some (px_deleteStmt (ex_parsed ex_delete_text))) = Inr ()"
  "UpdateAnalyser_verify ex_branched (Some (px_updateStmt (ex_parsed ex_update_text))) = Inr ()"
  "InsertAnalyser_verify ex_branched (Some (px_insertStmt (ex_parsed ex_insert_text))) = Inr ()"
  "SelectAnalyser_verify ex_branched (Some (px_selectStmt (ex_parsed ex_select_text))) = Inr ()"
  unfolding ex_delete_parsed(2) ex_update_parsed(2) ex_insert_parsed(2) ex_select_parsed(2)
  by code_simp+

lemma ex_columns:
  "Table_getColumnNames (ex_s_table ex_branched) = [''a'', ''b'']" "length (tb_columns (ex_s_table ex_branched)) = 2"
  "ci_type (fst (tb_columns (ex_s_table ex_branched) ! 0)) = ex_int" "ci_type (fst (tb_columns (ex_s_table ex_branched) ! 1)) = ex_int"
  "ci_columnName (fst (tb_columns (ex_s_table ex_branched) ! 0)) = ''a''" "ci_columnName (fst (tb_columns (ex_s_table ex_branched) ! 1)) = ''b''"
  "column_index (ex_s_table ex_branched) ''a'' = 0" "column_index (ex_s_table ex_branched) ''b'' = 1"
  "branch_of ex_branched ex_dev_relation = 1"
  by code_simp+

lemma ex_column_types: "column_sqlType (ex_s_table ex_branched) ''a'' = ex_int" "column_sqlType (ex_s_table ex_branched) ''b'' = ex_int"
  using ex_columns by (simp_all add: column_sqlType_def)

lemma ex_column_set: "columns_of ex_branched ex_dev_relation = {''a'', ''b''}"
  using ex_s_tables(3) ex_columns(1) by (simp add: columns_of_def ex_dev_relation_def)

lemma ex_int_scalar: "scalar_type ex_int" "scalar_of ex_int (NInteger i)"
  by (simp_all add: scalar_type_def scalar_of_def ex_int_def)

lemma ex_text_values: "text_value ex_int ''7'' = Some (NInteger 7)" "text_value ex_int ''5'' = Some (NInteger 5)"
  "text_value ex_int ''8'' = Some (NInteger 8)" "text_value ex_int ''9'' = Some (NInteger 9)" "text_value ex_int ''4'' = Some (NInteger 4)"
proof -
  have casts: "castStringToIntegerValue ''7'' = Inr 7" "castStringToIntegerValue ''5'' = Inr 5" "castStringToIntegerValue ''8'' = Inr 8"
    "castStringToIntegerValue ''9'' = Inr 9" "castStringToIntegerValue ''4'' = Inr 4" by code_simp+
  have "text_value ex_int str = (case castStringToIntegerValue str of Inr i \<Rightarrow> Some (NInteger i) | Inl _ \<Rightarrow> None)" for str
    by (simp add: text_value_def ex_int_def typeIDs)
  then show "text_value ex_int ''7'' = Some (NInteger 7)" "text_value ex_int ''5'' = Some (NInteger 5)"
    "text_value ex_int ''8'' = Some (NInteger 8)" "text_value ex_int ''9'' = Some (NInteger 9)" "text_value ex_int ''4'' = Some (NInteger 4)"
    using casts by simp_all
qed

lemma ex_rows_typed: "ex_snapshots ''s'' b i = Some row \<Longrightarrow> row_typed (ex_s_table ex_branched) row"
  using ex_columns(2-4) ex_int_scalar
  by (auto simp: ex_snapshots_def ex_rows_def ex_row_def row_typed_def less_Suc_eq numeral_2_eq_2 split: if_splits)

lemma ex_comparison_ok:
  assumes "column \<in> {''a'', ''b''}" "text_value ex_int v \<noteq> None"
  shows "comparison_ok ex_branched ex_dev_relation (ex_s_table ex_branched) (ex_where column v)"
proof -
  have "column_sqlType (ex_s_table ex_branched) column = ex_int" "column \<in> columns_of ex_branched ex_dev_relation"
    using assms(1) ex_column_types by (auto simp: ex_column_set)
  with assms(2) ex_int_scalar(1) show ?thesis by (simp add: comparison_ok_def ex_where_def bound_to_def)
qed

end
