(* ===== verification/StatementRuns.thy ===== *)
theory StatementRuns
  imports StatementExamples
begin

text \<open>
  Statements on one relation from their text to the end of their run: parsed, checked, constructed, translated and
  executed.
\<close>

section \<open>Branches\<close>

lemma run_branches: "db_run valueSize db S \<Longrightarrow> db_branchMapping db v = Some b \<Longrightarrow> b < db_next_branch_id db"
proof (induction rule: db_run.induct)
  case (db_create_table db S name db1 t cols t')
  then show ?case
    by (auto simp: Database_createTable_def put_table_def split: if_splits prod.splits option.splits)
next
  case (db_create_branch db S parent name child db')
  note keeps = create_branch_keeps [OF db_run_inv [OF db_create_branch.hyps(1)] db_create_branch.hyps(2-4)]
  from db_create_branch.hyps(4) have db': "db_next_branch_id db' = db_next_branch_id db + 1"
    "db_branchMapping db' = (db_branchMapping db)(name \<mapsto> child)"
    by (auto simp: Database_createBranch_def Let_def split: prod.splits option.splits)
  from keeps(2) have "0 < db_next_branch_id db'" by (simp add: db_inv_def branches_ok_def)
  then have "1 + db_next_branch_id db \<noteq> 0" using db'(1) by (metis add.commute less_irrefl)
  then have "unat (1 + db_next_branch_id db) = Suc (unat (db_next_branch_id db))" by (rule unatSuc)
  then have less: "x < db_next_branch_id db \<Longrightarrow> x < db_next_branch_id db + 1" "db_next_branch_id db < db_next_branch_id db + 1" for x
    by (simp_all add: word_less_nat_alt add.commute)
  with db_create_branch show ?case using keeps(1) db' by (auto split: if_splits)
qed (auto simp: Database_ctor_def Database_createBranch_def put_table_def master_branch_id_def split: if_splits)

lemma branch_of_run:
  assumes "db_run valueSize db S" "relation_ok db r"
  shows "branch_of db r < db_next_branch_id db"
proof (cases "pt_version r = ''master''")
  case True
  have "lin_ok (lineage_of (db_branches db)) (db_next_branch_id db)"
    using db_run_inv [OF assms(1)] lin_ok_lineage by (auto simp: db_inv_def)
  with True show ?thesis by (simp add: branch_of_def branch_lookup_def lin_ok_def master_branch_id_def)
next
  case False
  from assms(2) obtain b where "db_branchMapping db (pt_version r) = Some b" by (auto simp: relation_ok_def)
  with False run_branches [OF assms(1)] show ?thesis by (simp add: branch_of_def branch_lookup_def)
qed

section \<open>Statements on one relation\<close>

definition statement_at :: "setting \<Rightarrow> NValue Database \<Rightarrow> NValue snapshots \<Rightarrow> PTable \<Rightarrow> NValue Table \<Rightarrow> (PColumn \<times> string) list \<Rightarrow> bool" where
  \<comment> \<open>the table of the relation has no column called tid; the comparisons are of its columns, the rows of the branch hold values of
     the types of the columns\<close>
  "statement_at se db T r t sels \<longleftrightarrow> env_ok (se_environment se) \<and> Database_getTable db (pt_name r) = Some t
     \<and> ''tid'' \<notin> columns_of db r \<and> (\<forall>sel \<in> set sels. comparison_ok db r t sel)
     \<and> (\<forall>i row. T (branch_of db r) i = Some row \<longrightarrow> row_typed t row)"

lemma target_relation_ok:
  assumes "verify_target db r = Inr t" "db_run valueSize db S"
  shows "relation_ok db r" "Database_getTable db (pt_name r) = Some t"
  using verify_target_known [OF assms(1) run_tables_ok [OF assms(2)]] by blast+

lemma relation_query:
  assumes run: "db_run valueSize db S" and r: "relation_ok db r" and at: "statement_at se db (S (pt_name r)) r t sels"
    and c: "relation_at db r t h c0" and c': "ac_db c = db" "ac_branchIds c = ac_branchIds c0" "fa_iu_vec (ac_iuFactory c) = fa_iu_vec (ac_iuFactory c0)"
    and s: "sc_table s = pt_name r" "sc_branchId s = branch_of db r"
    and R: "finite R" "\<forall>iu \<in> R. column_unit (fa_iu_vec (ac_iuFactory c0)) t iu"
  shows "query_at se c S t s (statement_wheres c0 r t sels) R"
proof -
  have inv: "db_inv db S" by (rule db_run_inv [OF run])
  have t: "Database_getTable db (pt_name r) = Some t" using at by (simp add: statement_at_def)
  have "\<forall>x \<in> set (statement_wheres c0 r t sels). where_ok (fa_iu_vec (ac_iuFactory c0)) t x"
    using at db_inv_table(1) [OF inv t] by (intro statement_wheres_ok(1) [OF c refl]) (simp_all add: statement_at_def)
  then show ?thesis
    using inv t branch_of_run [OF run r] at c R by (simp add: query_at_def c' s relation_at_def statement_at_def)
qed

lemma unit_of_base: "same_base c c' \<Longrightarrow> unit_of c' = unit_of c" "same_base c c' \<Longrightarrow> statement_wheres c' r t sels = statement_wheres c r t sels"
  by (simp_all add: same_base_def unit_of_def statement_wheres_def fun_eq_iff)

text \<open>The scan and the comparisons.\<close>

lemma statement_selection:
  assumes run: "db_run valueSize db S" and r: "relation_ok db r" and at: "statement_at se db (S (pt_name r)) r t sels"
  shows "\<exists>c1 c2 s. construct_scan (se_environment se) r (AnalyzingContext_ctor db h) = Inr (r\<lparr>pt_alias := effective_alias r\<rparr>, c1)
    \<and> construct_selects (se_environment se) sels c1 = Inr c2 \<and> relation_at db r t h c2 \<and> scanned c2 \<and> ac_db c1 = db
    \<and> ac_dangling c2 = [effective_alias r \<mapsto> Some (selection_tree (fa_iu_vec (ac_iuFactory c2)) s (statement_wheres c2 r t sels))]
    \<and> sc_table s = pt_name r \<and> sc_branchId s = branch_of db r \<and> ac_graph c2 = \<lparr>jg_vertices = [], jg_edges = []\<rparr> \<and> ac_joinedTree c2 = None"
proof -
  have en: "env_ok (se_environment se)" and t: "Database_getTable db (pt_name r) = Some t"
    and sels: "\<forall>sel \<in> set sels. comparison_ok db r t sel" "''tid'' \<notin> columns_of db r" using at by (simp_all add: statement_at_def)
  have ok: "table_ok t" by (rule db_inv_table(1) [OF db_run_inv [OF run] t])
  then have tb: "tb_ok t" by (simp add: table_ok_def vt_ok_def)
  from relation_scanned [OF en r t tb, of h] obtain c1 s where
    c1: "construct_scan (se_environment se) r (AnalyzingContext_ctor db h) = Inr (r\<lparr>pt_alias := effective_alias r\<rparr>, c1)"
      "relation_at db r t h c1" "scanned c1" "ac_dangling c1 = [effective_alias r \<mapsto> Some (TableScan s)]"
      "sc_table s = pt_name r" "sc_branchId s = branch_of db r" "ac_graph c1 = \<lparr>jg_vertices = [], jg_edges = []\<rparr>" "ac_joinedTree c1 = None"
    by blast
  from relation_selected [OF en c1(2-4) ok sels(2,1)] obtain c2 where
    c2: "construct_selects (se_environment se) sels c1 = Inr c2" "relation_at db r t h c2" "scanned c2" "same_base c1 c2"
      "ac_dangling c2 = [effective_alias r \<mapsto> Some (foldl Select (TableScan s) (map (where_exp (fa_iu_vec (ac_iuFactory c1))) (statement_wheres c1 r t sels)))]"
      "ac_graph c2 = ac_graph c1" "ac_joinedTree c2 = ac_joinedTree c1" by blast
  have "fa_iu_vec (ac_iuFactory c2) = fa_iu_vec (ac_iuFactory c1)" using c2(4) by (simp add: same_base_def)
  with c2(5) unit_of_base(2) [OF c2(4), of r t sels] have
    "ac_dangling c2 = [effective_alias r \<mapsto> Some (selection_tree (fa_iu_vec (ac_iuFactory c2)) s (statement_wheres c2 r t sels))]"
    by (simp add: selection_tree_def)
  moreover have "ac_db c1 = db" using c1(2) by (simp add: relation_at_def)
  ultimately show ?thesis using c1 c2 by metis
qed

section \<open>DELETE\<close>

lemma tid_unit_of:
  assumes "env_ok en" "relation_at db r t h c"
  shows "getUniqueColumnIU en ''tid'' c = unit_of c (effective_alias r) ''tid''"
proof -
  have ok: "ius_ok c" and has: "\<exists>p. has_unit c p ''tid''" using assms(2) by (auto simp: relation_at_def)
  from getUniqueColumnIU_at [OF assms(1) ok has] obtain p where p: "unit_at c p ''tid'' = Some (getUniqueColumnIU en ''tid'' c)" by blast
  with assms(2) have "p = effective_alias r" unfolding relation_at_def by blast
  with p show ?thesis by (simp add: unit_of_def)
qed

text \<open>C5: a DELETE statement on a table whose compared columns are of scalar types runs to its end, from its text on:
  it is parsed, checked, constructed, translated and executed without an exception, and leaves the database in which
  exactly the rows of the named branch with the given values are gone, the other rows, branches and tables being
  what they were.\<close>

theorem delete_statement:
  assumes "parseStatement ParsingContext_ctor query = Some (Inr px)" "px_opType px = Op_Delete"
    and "DeleteAnalyser_verify db (Some (px_deleteStmt px)) = Inr u" "r = del_relation (px_deleteStmt px)" "sels = del_selections (px_deleteStmt px)"
    and "db_run valueSize db S" "statement_at se db (S (pt_name r)) r t sels"
  shows "\<exists>w. compileAndExecute se query db h = Some (Inr (None, w))
    \<and> db_run valueSize (wo_db w) (S(pt_name r := (S (pt_name r))(branch_of db r := without (row_holds t sels) \<circ> S (pt_name r) (branch_of db r))))"
proof -
  let ?en = "se_environment se" and ?stmt = "px_deleteStmt px" and ?p = "effective_alias r"
  have en: "env_ok ?en" and table: "Database_getTable db (pt_name r) = Some t" and tid: "''tid'' \<notin> columns_of db r"
    and sels: "\<forall>sel \<in> set sels. comparison_ok db r t sel" using assms(7) by (simp_all add: statement_at_def)
  from assms(3,4) obtain t' where "verify_target db r = Inr t'" by (auto simp: DeleteAnalyser_verify_def bind_res_eq_Inr)
  note r = target_relation_ok(1) [OF this assms(6)]
  from statement_selection [OF assms(6) r assms(7), of h] obtain c1 c2 s where
    c: "construct_scan ?en r (AnalyzingContext_ctor db h) = Inr (r\<lparr>pt_alias := ?p\<rparr>, c1)"
      "construct_selects ?en sels c1 = Inr c2" "relation_at db r t h c2"
      "ac_dangling c2 = [?p \<mapsto> Some (selection_tree (fa_iu_vec (ac_iuFactory c2)) s (statement_wheres c2 r t sels))]"
      "sc_table s = pt_name r" "sc_branchId s = branch_of db r" by blast
  let ?ius = "fa_iu_vec (ac_iuFactory c2)" and ?tid = "unit_of c2 ?p ''tid''" and ?wheres = "statement_wheres c2 r t sels"
  have c2: "ac_db c2 = db" "ac_callback c2 = None" using c(3) by (simp_all add: relation_at_def)
  define c3 where "c3 = set_root (Delete (selection_tree ?ius s ?wheres) ?tid (pt_name r) (branch_of db r))
      (c2\<lparr>ac_db := db, ac_dangling := (ac_dangling c2)(?p \<mapsto> None)\<rparr>)"
  have construct: "DeleteAnalyser_constructTree ?en ?stmt (AnalyzingContext_ctor db h) = Inr c3"
    using c(1,2,4) c2(1) table tid_unit_of [OF en c(3)]
    by (simp add: DeleteAnalyser_constructTree_def assms(4,5) [symmetric] Let_def branch_lookup_same [OF r] getTable_def
        effective_alias_def [symmetric] take_production_def c3_def)
  have c3: "ac_db c3 = db" "ac_branchIds c3 = ac_branchIds c2" "fa_iu_vec (ac_iuFactory c3) = ?ius" "ac_callback c3 = None"
    "ac_joinedTree c3 = Some (Delete (selection_tree ?ius s ?wheres) ?tid (pt_name r) (branch_of db r))"
    using c2 by (simp_all add: c3_def set_root_def next_uid_def getUID_def)
  note T = relation_unit [OF c(3) _ refl, of "''tid''", simplified]
  have "column_unit ?ius t ?tid" by (rule known_unit_column [OF T(2)]) (simp add: T(3))
  from relation_query [OF assms(6) r assms(7) c(3) c3(1,2,3) c(5,6), of "{?tid}"] this
  have q: "query_at se c3 S t s ?wheres {?tid}" by simp
  have tid': "unit_column (fa_iu_vec (ac_iuFactory c3)) ?tid = ''tid''" by (simp add: c3(3) T(3))
  have "db_run valueSize (ac_db c3) S" by (simp add: c3(1) assms(6))
  from delete_removes_matching_rows [OF refl refl q tid' this, of "[]"] obtain w where
    w: "run_tree se c3 (Delete (selection_tree ?ius s ?wheres) ?tid (pt_name r) (branch_of db r)) [] = Some (Inr w)"
      "db_run valueSize (wo_db w) (S(pt_name r := (S (pt_name r))(branch_of db r := without (satisfies ?ius t ?wheres) \<circ> S (pt_name r) (branch_of db r))))"
    unfolding c3(3) c(5,6) by blast
  have ok: "table_ok t" by (rule db_inv_table(1) [OF db_run_inv [OF assms(6)] table])
  have sat: "satisfies ?ius t ?wheres = row_holds t sels" by (rule statement_wheres_ok(2) [OF c(3) refl ok tid sels])
  have "compileAndExecute se query db h = Some (Inr (None, w))"
    using assms(1-3) construct c3(4,5) w(1)
    by (simp add: compileAndExecute_def verify_statement_def construct_statement_def Let_def)
  with w(2) show ?thesis unfolding sat by blast
qed

lemma ex_statement_at:
  assumes "text_value ex_int v \<noteq> None"
  shows "statement_at ex_setting ex_branched (ex_snapshots ''s'') ex_dev_relation (ex_s_table ex_branched) [ex_where ''a'' v]"
  using ex_comparison_ok [of "''a''" v] assms ex_s_tables(3) ex_env_ok ex_rows_typed
  by (simp add: statement_at_def ex_setting_def ex_column_set) (simp add: ex_dev_relation_def)

lemma ex_row_holds: "row_holds (ex_s_table ex_branched) [ex_where ''a'' v] row \<longleftrightarrow> row ! 0 = text_value ex_int v"
  by (simp add: row_holds_def ex_where_def ex_columns(7) ex_column_types)

lemma delete_statement_witness:
  "\<exists>w. compileAndExecute ex_setting ex_delete_text ex_branched ex_heap = Some (Inr (None, w))
    \<and> db_run ex_size (wo_db w) (ex_snapshots(''s'' := ex_rows(1 := [1 \<mapsto> map Some (ex_row 5 2)])))"
proof -
  have "without (row_holds (ex_s_table ex_branched) [ex_where ''a'' ''7'']) \<circ> ex_rows 1 = [1 \<mapsto> map Some (ex_row 5 2)]"
    unfolding ex_row_holds [abs_def] ex_text_values by (auto simp: fun_eq_iff without_def ex_rows_def ex_row_def)
  moreover have "ex_snapshots ''s'' = ex_rows" "pt_name ex_dev_relation = ''s''" by (simp_all add: ex_snapshots_def ex_dev_relation_def)
  moreover have "del_relation (px_deleteStmt (ex_parsed ex_delete_text)) = ex_dev_relation"
    "del_selections (px_deleteStmt (ex_parsed ex_delete_text)) = [ex_where ''a'' ''7'']" by (simp_all add: ex_delete_parsed)
  ultimately show ?thesis
    using delete_statement [OF ex_parsed_text [OF ex_texts_parsed(1)] ex_delete_parsed(1) ex_verified(1) refl refl ex_branched_run, of ex_setting "ex_s_table ex_branched" ex_heap]
      ex_statement_at [of "''7''"] ex_text_values by (simp add: ex_columns(9))
qed

end
