(* ===== verification/ChangeStatements.thy ===== *)
theory ChangeStatements
  imports StatementRuns
begin

text \<open>
  INSERT and UPDATE from their text to the end of their run, for tables whose columns are of scalar types.
\<close>

section \<open>INSERT\<close>

definition insert_names :: "NValue Table \<Rightarrow> InsertStatement \<Rightarrow> string list" where
  \<comment> \<open>the columns of an INSERT, all of them when none is named\<close>
  "insert_names t stmt = (if ins_columns stmt = [] then Table_getColumnNames t else map pc_name (ins_columns stmt))"

definition text_row :: "NValue Table \<Rightarrow> string list \<Rightarrow> string list \<Rightarrow> NValue row" where
  \<comment> \<open>the values the texts stand for in the columns, in the order they are given\<close>
  "text_row t names vals = map2 (\<lambda>n str. text_value (column_sqlType t n) str) names vals"

lemma Table_getCI_at:
  assumes "table_ok t" "n \<in> set (Table_getColumnNames t)"
  shows "\<exists>ci. Table_getCI t n = Inr ci \<and> ci_type ci = column_sqlType t n"
proof -
  have ok: "tb_ok t" "distinct (map (ci_columnName \<circ> fst) (tb_columns t))" using assms(1) by (simp_all add: table_ok_def vt_ok_def)
  from assms(2) obtain j where j: "j < length (tb_columns t)" "n = ci_columnName (fst (tb_columns t ! j))"
    by (auto simp: Table_getColumnNames_eq [OF ok(1)] in_set_conv_nth)
  have "map_of (tb_columnsByName t) n = Some j"
  proof -
    have "zip (map (ci_columnName \<circ> fst) (tb_columns t)) [0 ..< length (tb_columns t)] ! j = (n, j)" using j by simp
    then have "(n, j) \<in> set (tb_columnsByName t)" using ok(1) j(1) by (metis length_map length_upt length_zip minus_nat.diff_0 min.idem nth_mem tb_ok_def)
    moreover have "distinct (map fst (tb_columnsByName t))" using ok by (simp add: tb_ok_def)
    ultimately show ?thesis by (metis map_of_is_SomeI)
  qed
  with j column_index_nth [OF ok(1) j(1) ok(2)] show ?thesis by (simp add: Table_getCI_def column_sqlType_def)
qed

lemma Value_castString_text:
  assumes "scalar_type type" "text_value type str = Some v"
  shows "Value_castString p str type h = Inr (v, h)"
proof -
  from assms(1) have null: "\<not> ty_nullable type" by (auto simp: scalar_type_def typeIDs)
  from assms(1) consider "ty_typeID type = IntegerID" | "ty_typeID type = DateID" | "ty_typeID type = TimestampID" | "ty_typeID type = NumericID"
    unfolding scalar_type_def typeIDs by fastforce
  then show ?thesis
  proof cases
    case 1
    with assms(2) obtain i where "castStringToIntegerValue str = Inr i" "v = NInteger i" by (auto simp: text_value_def split: sum.splits)
    with 1 null show ?thesis by (simp add: Value_castString_def Integer_castString_def)
  next
    case 2
    with assms(2) obtain d where "castStringToDateValue str = Inr d" "v = NDate d" by (auto simp: text_value_def split: sum.splits)
    with 2 null show ?thesis by (simp add: Value_castString_def Date_castString_def)
  next
    case 3
    with assms(2) obtain x where "castStringToTimestampValue str = Inr x" "v = NTimestamp x" by (auto simp: text_value_def split: sum.splits)
    with 3 null show ?thesis by (simp add: Value_castString_def Timestamp_castString_def)
  next
    case 4
    with assms(2) obtain raw where "castStringToNumericValue str (unat (numericLayout_length type)) (unat (numericLayout_precision type)) = Inr raw"
      "v = NNumeric type raw" by (auto simp: text_value_def split: sum.splits)
    with 4 null show ?thesis by (simp add: Value_castString_def Numeric_castString_def)
  qed
qed

lemma cast_values_run:
  assumes t: "table_ok t" and cols: "\<forall>c \<in> set columns. pc_name c \<in> set (Table_getColumnNames t) \<and> scalar_type (column_sqlType t (pc_name c))"
    and tuple: "length vals = length columns" "text_row t (map pc_name columns) vals = map Some tuple"
  shows "cast_values en t columns vals h = Inr (tuple, h)"
  using cols tuple
proof (induction columns arbitrary: vals tuple)
  case Nil
  then show ?case by (simp add: text_row_def)
next
  case (Cons c columns)
  from Cons.prems(2) obtain val vals' where vals: "vals = val # vals'" by (cases vals) auto
  with Cons.prems(3) obtain v tuple' where v: "tuple = v # tuple'" "text_value (column_sqlType t (pc_name c)) val = Some v"
    "text_row t (map pc_name columns) vals' = map Some tuple'" by (cases tuple) (auto simp: text_row_def)
  have c: "pc_name c \<in> set (Table_getColumnNames t)" "scalar_type (column_sqlType t (pc_name c))" using Cons.prems(1) by auto
  from Table_getCI_at [OF t c(1)] obtain ci where ci: "Table_getCI t (pc_name c) = Inr ci" "ci_type ci = column_sqlType t (pc_name c)" by blast
  have "cast_values en t columns vals' h = Inr (tuple', h)" using Cons.IH Cons.prems(1,2) vals v(3) by simp
  with ci Value_castString_text [OF c(2) v(2)] show ?case by (simp add: vals v(1))
qed

text \<open>C4: an INSERT statement on a table of scalar columns runs to its end, from its text on, and appends one row to
  the named branch: the values of its texts, in the order they are given.\<close>

theorem insert_statement:
  assumes "parseStatement ParsingContext_ctor query = Some (Inr px)" "px_opType px = Op_Insert"
    and "InsertAnalyser_verify db (Some (px_insertStmt px)) = Inr u" "r = ins_relation (px_insertStmt px)"
    and "db_run valueSize db S" "Database_getTable db (pt_name r) = Some t" "Table_size t + 1 < 2 ^ 63"
    and "names = insert_names t (px_insertStmt px)" "length names = Table_getColumnCount t" "length (ins_values (px_insertStmt px)) = length names"
    and "\<forall>n \<in> set names. scalar_type (column_sqlType t n)"
    and "row = text_row t names (ins_values (px_insertStmt px))" "None \<notin> set row"
  shows "\<exists>w. compileAndExecute se query db h = Some (Inr (None, w))
    \<and> db_run valueSize (wo_db w) (S(pt_name r := (S (pt_name r))(branch_of db r := (S (pt_name r) (branch_of db r))(Table_size t \<mapsto> row))))"
proof -
  let ?stmt = "px_insertStmt px" and ?en = "se_environment se" and ?b = "branch_of db r"
  from assms(3,4) obtain t' where t': "verify_target db r = Inr t'"
    "ins_columns ?stmt \<noteq> [] \<Longrightarrow> \<forall>c \<in> set (ins_columns ?stmt). pc_name c \<in> set (Table_getColumnNames t')"
    by (auto simp: InsertAnalyser_verify_def bind_res_eq_Inr Let_def split: if_splits)
  note r = target_relation_ok [OF t'(1) assms(5)]
  with assms(6) have same: "t' = t" by simp
  define columns where "columns = (if ins_columns ?stmt = [] then map (\<lambda>c. \<lparr>pc_name = c, pc_table = []\<rparr>) (Table_getColumnNames t) else ins_columns ?stmt)"
  have names: "map pc_name columns = names" by (simp add: columns_def assms(8) insert_names_def comp_def)
  from assms(13) have "\<exists>tuple. row = map Some tuple" unfolding ex_map_conv by (metis option.exhaust)
  then obtain tuple where tuple: "row = map Some tuple" by blast
  have ok: "table_ok t" by (rule db_inv_table(1) [OF db_run_inv [OF assms(5)] assms(6)])
  have cast: "cast_values ?en t columns (ins_values ?stmt) h = Inr (tuple, h)"
  proof (rule cast_values_run [OF ok])
    show "\<forall>c \<in> set columns. pc_name c \<in> set (Table_getColumnNames t) \<and> scalar_type (column_sqlType t (pc_name c))"
      using t'(2) assms(11) unfolding names [symmetric] by (auto simp: columns_def same)
  qed (use names assms(10,12) tuple in \<open>auto simp flip: names\<close>)
  define c where "c = set_root (Insert (pt_name r) [tuple] ?b) ((AnalyzingContext_ctor db h)\<lparr>ac_db := db, ac_heap := h\<rparr>)"
  have construct: "InsertAnalyser_constructTree ?en ?stmt (AnalyzingContext_ctor db h) = Inr c"
    using assms(6) cast branch_lookup_same [OF r(1)]
    by (simp add: InsertAnalyser_constructTree_def assms(4) [symmetric] Let_def getTable_def columns_def [symmetric] c_def
        AnalyzingContext_ctor_def [of db h])
  have c: "ac_db c = db" "ac_branchIds c = {}" "ac_callback c = None" "ac_joinedTree c = Some (Insert (pt_name r) [tuple] ?b)"
    by (simp_all add: c_def set_root_def next_uid_def AnalyzingContext_ctor_def)
  have len: "length tuple = Table_getColumnCount t"
    using arg_cong [OF tuple, of length] assms(9,10,12) by (simp add: text_row_def)
  from insert_appends_rows [of valueSize c S "pt_name r" t ?b "[tuple]" se "[]"] branch_of_run [OF assms(5) r(1)] assms(5-7) c(1,2) len obtain w where
    w: "run_tree se c (Insert (pt_name r) [tuple] ?b) [] = Some (Inr w)"
      "db_run valueSize (wo_db w) (S(pt_name r := (S (pt_name r))(?b := appended (Table_size t) [tuple] (S (pt_name r) ?b))))" by auto
  have "appended (Table_size t) [tuple] (S (pt_name r) ?b) = (S (pt_name r) ?b)(Table_size t \<mapsto> row)"
    by (auto simp: appended_def fun_eq_iff tuple)
  moreover have "compileAndExecute se query db h = Some (Inr (None, w))"
    using assms(1-3) construct c(3,4) w(1)
    by (simp add: compileAndExecute_def verify_statement_def construct_statement_def Let_def)
  ultimately show ?thesis using w(2) by metis
qed

lemma insert_statement_witness:
  "\<exists>w. compileAndExecute ex_setting ex_insert_text ex_branched ex_heap = Some (Inr (None, w))
    \<and> db_run ex_size (wo_db w) (ex_snapshots(''s'' := ex_rows(1 := (ex_rows 1)(2 \<mapsto> map Some (ex_row 9 4)))))"
proof -
  let ?t = "ex_s_table ex_branched"
  have names: "insert_names ?t (px_insertStmt (ex_parsed ex_insert_text)) = [''a'', ''b'']"
    by (simp add: insert_names_def ex_insert_parsed ex_columns(1))
  have row: "text_row ?t [''a'', ''b''] [''9'', ''4''] = map Some (ex_row 9 4)"
    by (simp add: text_row_def ex_column_types ex_text_values ex_row_def)
  have facts: "pt_name ex_dev_relation = ''s''" "ex_snapshots ''s'' = ex_rows" "ins_relation (px_insertStmt (ex_parsed ex_insert_text)) = ex_dev_relation"
    "ins_values (px_insertStmt (ex_parsed ex_insert_text)) = [''9'', ''4'']"
    by (simp_all add: ex_dev_relation_def ex_snapshots_def ex_insert_parsed)
  from insert_statement [OF ex_parsed_text [OF ex_texts_parsed(3)] ex_insert_parsed(1) ex_verified(3) refl ex_branched_run, of ?t "[''a'', ''b'']"
      "map Some (ex_row 9 4)" ex_setting ex_heap]
  show ?thesis unfolding facts names using row ex_s_tables(3) ex_branched_facts(14,15) ex_int_scalar(1)
    by (simp add: ex_column_types ex_columns(9) ex_row_def)
qed

section \<open>UPDATE\<close>

definition row_assigned :: "NValue Table \<Rightarrow> (PColumn \<times> string) list \<Rightarrow> NValue row \<Rightarrow> NValue row" where
  \<comment> \<open>the row with the values of the SET clause; a column that is given the empty text keeps its value\<close>
  "row_assigned t updates row = map (\<lambda>j.
     let n = ci_columnName (fst (tb_columns t ! j)); str = update_value updates n
     in if str = [] then row ! j else text_value (ci_type (fst (tb_columns t ! j))) str) [0 ..< length (tb_columns t)]"

definition assignment_ok :: "NValue Table \<Rightarrow> (PColumn \<times> string) list \<Rightarrow> string \<Rightarrow> bool" where
  \<comment> \<open>a column of a scalar type, with a text of that type when it is assigned\<close>
  "assignment_ok t updates n \<longleftrightarrow> scalar_type (column_sqlType t n)
     \<and> (update_value updates n \<noteq> [] \<longrightarrow> text_value (column_sqlType t n) (update_value updates n) \<noteq> None)"

definition statement_updates :: "environment \<Rightarrow> AnalyzingContext \<Rightarrow> PTable \<Rightarrow> NValue Table \<Rightarrow> (PColumn \<times> string) list \<Rightarrow> updates" where
  "statement_updates en c r t updates = map (\<lambda>(n, iu). (iu, update_value updates n, the (text_value (column_sqlType t n) (update_value updates n))))
     (iterate en (inner_map (effective_alias r) (ac_ius c)))"

lemma relation_entries:
  assumes en: "env_ok en" and c: "relation_at db r t h c"
  shows "set (iterate en (inner_map (effective_alias r) (ac_ius c))) = (\<lambda>n. (n, unit_of c (effective_alias r) n)) ` insert ''tid'' (columns_of db r)"
    "distinct (map fst (iterate en (inner_map (effective_alias r) (ac_ius c))))"
proof -
  let ?p = "effective_alias r"
  have ok: "ius_ok c" using c by (simp add: relation_at_def)
  then have um: "umap_ok (inner_map ?p (ac_ius c))" by (simp add: ius_ok_def)
  have mem: "(n, iu) \<in> set (iterate en (inner_map ?p (ac_ius c))) \<longleftrightarrow> unit_at c ?p n = Some iu" for n iu
    unfolding set_iterate [OF en um] unit_at_def using um by (simp add: umap_ok_def)
  moreover have "unit_at c ?p n = Some iu \<longleftrightarrow> n \<in> insert ''tid'' (columns_of db r) \<and> iu = unit_of c ?p n" for n iu
    using relation_unit(1) [OF c _ refl, of n] c unfolding relation_at_def by (metis option.inject)
  ultimately show "set (iterate en (inner_map ?p (ac_ius c))) = (\<lambda>n. (n, unit_of c ?p n)) ` insert ''tid'' (columns_of db r)"
    by (auto simp: set_eq_iff image_iff split_paired_all)
  show "distinct (map fst (iterate en (inner_map ?p (ac_ius c))))"
    using en um by (simp add: iterate_def comp_def env_ok_def umap_ok_def)
qed

lemma statement_updates_ok:
  assumes en: "env_ok en" and c: "relation_at db r t h c" "ius = fa_iu_vec (ac_iuFactory c)" and t: "table_ok t" "Database_getTable db (pt_name r) = Some t"
    and tid: "''tid'' \<notin> columns_of db r" and ok: "\<forall>n \<in> columns_of db r. assignment_ok t updates n"
  shows "updates_ok ius t (statement_updates en c r t updates)"
    "fst ` set (statement_updates en c r t updates) = unit_of c (effective_alias r) ` insert ''tid'' (columns_of db r)"
    "row_typed t row \<Longrightarrow> assigned ius t (statement_updates en c r t updates) row = row_assigned t updates row"
proof -
  let ?p = "effective_alias r" and ?us = "statement_updates en c r t updates"
  let ?ns = "insert ''tid'' (columns_of db r)"
  have tb: "tb_ok t" "distinct (map (ci_columnName \<circ> fst) (tb_columns t))" using t(1) by (simp_all add: table_ok_def vt_ok_def)
  have cols: "columns_of db r = ci_columnName ` fst ` set (tb_columns t)"
    using t(2) by (simp add: columns_of_def Table_getColumnNames_eq [OF tb(1)] image_image)
  note E = relation_entries [OF en c(1)]
  note U = relation_unit [OF c(1) _ c(2)]
  define value_of where "value_of n = (unit_of c ?p n, update_value updates n, the (text_value (column_sqlType t n) (update_value updates n)))" for n
  have us: "?us = map value_of (map fst (iterate en (inner_map ?p (ac_ius c))))"
    unfolding statement_updates_def map_map by (rule map_cong [OF refl]) (use E(1) in \<open>auto simp: value_of_def\<close>)
  have keys: "set (map fst (iterate en (inner_map ?p (ac_ius c)))) = ?ns" using E(1) by (simp add: image_image)
  then have set_us: "set ?us = value_of ` ?ns" unfolding us by (simp only: set_map)
  have key: "unit_column ius (fst (value_of n)) = n" if "n \<in> ?ns" for n using U(3) [OF that] by (simp add: value_of_def)
  have ok_at: "assign_ok ius t (value_of n)" if n: "n \<in> ?ns" for n
  proof (cases "n = ''tid''")
    case True
    have "column_unit ius t (unit_of c ?p n)" by (rule known_unit_column [OF U(2) [OF n]]) (use U(3) [OF n] True in simp)
    with U(3) [OF n] True show ?thesis by (simp add: assign_ok_def value_of_def)
  next
    case False
    with n have mem: "n \<in> columns_of db r" by simp
    with ok have a: "scalar_type (column_sqlType t n)" "update_value updates n \<noteq> [] \<Longrightarrow>
        \<exists>v. text_value (column_sqlType t n) (update_value updates n) = Some v" by (auto simp: assignment_ok_def)
    have type: "unit_type ius (unit_of c ?p n) = column_sqlType t n" by (rule U(4) [OF n t(1) False])
    show ?thesis
      using relation_column_unit [OF c(1) mem False c(2) t(1) a(1)] text_value_casts [OF a(1)] a(2)
      by (auto simp: assign_ok_def value_of_def type)
  qed
  have names: "map (\<lambda>u. unit_column ius (fst u)) ?us = map fst (iterate en (inner_map ?p (ac_ius c)))"
    unfolding us map_map by (rule map_cong [OF refl]) (use E(1) key in auto)
  show "updates_ok ius t ?us"
    unfolding updates_ok_def names keys using E(2) ok_at tid by (simp add: set_us cols)
  show "fst ` set ?us = unit_of c ?p ` ?ns" by (simp add: set_us image_image value_of_def)
  assume row: "row_typed t row"
  have "assigned ius t ?us row ! j = row_assigned t updates row ! j" if j: "j < length (tb_columns t)" for j
  proof -
    let ?ci = "fst (tb_columns t ! j)"
    let ?n = "ci_columnName ?ci"
    have n: "?n \<in> columns_of db r" using j by (auto simp: cols)
    have index: "column_index t ?n = j" by (rule column_index_nth [OF tb(1) j tb(2)])
    then have type: "column_sqlType t ?n = ci_type ?ci" by (simp add: column_sqlType_def)
    from n have "value_of ?n \<in> set ?us" by (simp add: set_us)
    from find_distinct [of "\<lambda>u. unit_column ius (fst u)" ?us, OF _ this] key [of ?n] n E(2)
    have find: "find (\<lambda>u. unit_column ius (fst u) = ?n) ?us = Some (value_of ?n)" by (simp add: names)
    from ok n type have a: "scalar_type (ci_type ?ci)" "update_value updates ?n \<noteq> [] \<Longrightarrow> text_value (ci_type ?ci) (update_value updates ?n) \<noteq> None"
      by (auto simp: assignment_ok_def)
    from row j a(1) obtain v where "row ! j = Some v" unfolding row_typed_def by blast
    with find index type a(2) j show ?thesis by (auto simp: assigned_def row_assigned_def value_of_def Let_def)
  qed
  then show "assigned ius t ?us row = row_assigned t updates row"
    by (simp add: list_eq_iff_nth_eq) (simp add: assigned_def row_assigned_def)
qed

text \<open>C3: an UPDATE statement on a table of scalar columns runs to its end, from its text on, and changes in the named
  branch exactly the rows with the given values, each to the values of the SET clause, the other columns, rows,
  branches and tables being what they were; an assignment of the empty text changes nothing.\<close>

theorem update_statement:
  assumes "parseStatement ParsingContext_ctor query = Some (Inr px)" "px_opType px = Op_Update"
    and "UpdateAnalyser_verify db (Some (px_updateStmt px)) = Inr u" "r = upd_relation (px_updateStmt px)"
    and "sels = upd_selections (px_updateStmt px)" "updates = upd_updates (px_updateStmt px)"
    and "db_run valueSize db S" "statement_at se db (S (pt_name r)) r t sels" "\<forall>n \<in> columns_of db r. assignment_ok t updates n"
  shows "\<exists>w. compileAndExecute se query db h = Some (Inr (None, w))
    \<and> db_inv (wo_db w) (S(pt_name r := (S (pt_name r))(branch_of db r :=
         changed_by (row_holds t sels) (row_assigned t updates) \<circ> S (pt_name r) (branch_of db r))))"
proof -
  let ?en = "se_environment se" and ?stmt = "px_updateStmt px" and ?p = "effective_alias r" and ?T = "S (pt_name r) (branch_of db r)"
  have en: "env_ok ?en" and table: "Database_getTable db (pt_name r) = Some t" and tid: "''tid'' \<notin> columns_of db r"
    and sels: "\<forall>sel \<in> set sels. comparison_ok db r t sel" and rows: "\<forall>i row. ?T i = Some row \<longrightarrow> row_typed t row"
    using assms(8) by (simp_all add: statement_at_def)
  have ok: "table_ok t" by (rule db_inv_table(1) [OF db_run_inv [OF assms(7)] table])
  from assms(3,4) obtain t' where "verify_target db r = Inr t'" by (auto simp: UpdateAnalyser_verify_def bind_res_eq_Inr)
  note r = target_relation_ok(1) [OF this assms(7)]
  from statement_selection [OF assms(7) r assms(8), of h] obtain c1 c2 s where
    c: "construct_scan ?en r (AnalyzingContext_ctor db h) = Inr (r\<lparr>pt_alias := ?p\<rparr>, c1)"
      "construct_selects ?en sels c1 = Inr c2" "relation_at db r t h c2"
      "ac_dangling c2 = [?p \<mapsto> Some (selection_tree (fa_iu_vec (ac_iuFactory c2)) s (statement_wheres c2 r t sels))]"
      "sc_table s = pt_name r" "sc_branchId s = branch_of db r" by blast
  let ?ius = "fa_iu_vec (ac_iuFactory c2)" and ?wheres = "statement_wheres c2 r t sels"
  define us where "us = statement_updates ?en c2 r t updates"
  have c2: "ac_db c2 = db" "ac_callback c2 = None" "ius_ok c2" using c(3) by (simp_all add: relation_at_def)
  have c2_db: "c2\<lparr>ac_db := db\<rparr> = c2" using c2(1) by simp
  note U = statement_updates_ok [OF en c(3) refl ok table tid assms(9), folded us_def]
  from ius_of_ok [OF c2(3), of ?p] obtain m where m: "ius_of ?p c2 = (inner_map ?p (ac_ius c2), c2\<lparr>ac_ius := m\<rparr>)" by blast
  have texts: "map (\<lambda>(key, iu). (iu, update_value updates key)) (iterate ?en (inner_map ?p (ac_ius c2))) = unit_texts us"
    by (simp add: us_def statement_updates_def unit_texts_def comp_def split_beta)
  define c3 where "c3 = set_root (Update (selection_tree ?ius s ?wheres) (unit_texts us) (pt_name r) (branch_of db r))
      (c2\<lparr>ac_ius := m, ac_dangling := (ac_dangling c2)(?p \<mapsto> None)\<rparr>)"
  have construct: "UpdateAnalyser_constructTree ?en ?stmt (AnalyzingContext_ctor db h) = Inr c3"
    using c(1,2,4) c2(1) table m(1)
    by (simp add: UpdateAnalyser_constructTree_def assms(4-6) [symmetric] Let_def branch_lookup_same [OF r] getTable_def
        effective_alias_def [symmetric] take_production_def c3_def c2_db texts)
  have c3: "ac_db c3 = db" "ac_branchIds c3 = ac_branchIds c2" "fa_iu_vec (ac_iuFactory c3) = ?ius" "ac_callback c3 = None"
    "ac_joinedTree c3 = Some (Update (selection_tree ?ius s ?wheres) (unit_texts us) (pt_name r) (branch_of db r))"
    using c2 by (simp_all add: c3_def set_root_def next_uid_def getUID_def)
  have units: "\<forall>iu \<in> fst ` set us. column_unit ?ius t iu" using U(1) by (auto simp: updates_ok_def assign_ok_def)
  have "query_at se c3 S t s ?wheres (fst ` set us)"
    by (rule relation_query [OF assms(7) r assms(8) c(3) c3(1,2,3) c(5,6) _ units]) simp
  from update_changes_matching_rows [OF refl refl this, of "[]"] U(1) obtain w where
    w: "run_tree se c3 (Update (selection_tree ?ius s ?wheres) (unit_texts us) (pt_name r) (branch_of db r)) [] = Some (Inr w)"
      "db_inv (wo_db w) (S(pt_name r := (S (pt_name r))(branch_of db r := changed_by (satisfies ?ius t ?wheres) (assigned ?ius t us) \<circ> ?T)))"
    unfolding c3(3) c(5,6) by blast
  have sat: "satisfies ?ius t ?wheres = row_holds t sels" by (rule statement_wheres_ok(2) [OF c(3) refl ok tid sels])
  have "(changed_by (row_holds t sels) (assigned ?ius t us) \<circ> ?T) i = (changed_by (row_holds t sels) (row_assigned t updates) \<circ> ?T) i" for i
    using rows U(3) by (cases "?T i") (auto simp: changed_by_def)
  then have "changed_by (row_holds t sels) (assigned ?ius t us) \<circ> ?T = changed_by (row_holds t sels) (row_assigned t updates) \<circ> ?T" by blast
  moreover have "compileAndExecute se query db h = Some (Inr (None, w))"
    using assms(1-3) construct c3(4,5) w(1)
    by (simp add: compileAndExecute_def verify_statement_def construct_statement_def Let_def)
  ultimately show ?thesis using w(2) unfolding sat by auto
qed

lemma update_statement_witness:
  "\<exists>w. compileAndExecute ex_setting ex_update_text ex_branched ex_heap = Some (Inr (None, w))
    \<and> db_inv (wo_db w) (ex_snapshots(''s'' := ex_rows(1 := (ex_rows 1)(1 \<mapsto> map Some (ex_row 5 8)))))"
proof -
  let ?t = "ex_s_table ex_branched" and ?updates = "[ex_where ''b'' ''8'']"
  have facts: "pt_name ex_dev_relation = ''s''" "ex_snapshots ''s'' = ex_rows" "upd_relation (px_updateStmt (ex_parsed ex_update_text)) = ex_dev_relation"
    "upd_selections (px_updateStmt (ex_parsed ex_update_text)) = [ex_where ''a'' ''5'']" "upd_updates (px_updateStmt (ex_parsed ex_update_text)) = ?updates"
    by (simp_all add: ex_dev_relation_def ex_snapshots_def ex_update_parsed)
  have given: "update_value ?updates ''a'' = []" "update_value ?updates ''b'' = ''8''" by (simp_all add: update_value_def ex_where_def)
  have ok: "\<forall>n \<in> columns_of ex_branched ex_dev_relation. assignment_ok ?t ?updates n"
    by (simp add: ex_column_set assignment_ok_def ex_column_types given ex_text_values ex_int_scalar(1))
  have assigned: "row_assigned ?t ?updates [x, y] = [x, Some (NInteger 8)]" for x y
    by (simp add: row_assigned_def ex_columns(2-6) [unfolded One_nat_def] numeral_2_eq_2 given ex_text_values)
  have "(changed_by (row_holds ?t [ex_where ''a'' ''5'']) (row_assigned ?t ?updates) \<circ> ex_rows 1) i = ((ex_rows 1)(1 \<mapsto> map Some (ex_row 5 8))) i" for i
    unfolding ex_row_holds [abs_def] ex_text_values by (simp add: changed_by_def ex_rows_def ex_row_def assigned)
  then have "changed_by (row_holds ?t [ex_where ''a'' ''5'']) (row_assigned ?t ?updates) \<circ> ex_rows 1 = (ex_rows 1)(1 \<mapsto> map Some (ex_row 5 8))" by blast
  then show ?thesis
    using update_statement [OF ex_parsed_text [OF ex_texts_parsed(2)] ex_update_parsed(1) ex_verified(2) refl refl refl ex_branched_run, of ex_setting ?t ex_heap]
      ex_statement_at [of "''5''"] ex_text_values ok unfolding facts by (simp add: ex_columns(9))
qed

end
