(* ===== verification/SelectStatements.thy ===== *)
theory SelectStatements
  imports ChangeStatements
begin

text \<open>
  A query on one relation from its text to the end of its run.
\<close>

section \<open>The tree\<close>

lemma single_iterate: "env_ok en \<Longrightarrow> iterate en [(k, v)] = [(k, v)]"
  using distinct_singleton_list [of "en_keys en [k]" k] by (simp add: iterate_def env_ok_def)

text \<open>The join of one relation is its tree.\<close>

lemma single_join:
  assumes en: "env_ok en" and stmt: "sel_relations stmt = [r]" "sel_joinConditions stmt = []"
    and c: "ac_dangling c = [effective_alias r \<mapsto> Some tree]" "ac_graph c = \<lparr>jg_vertices = [], jg_edges = []\<rparr>" "ac_joinedTree c = None"
  shows "\<exists>g. construct_joins en stmt c = Some (Inr (stmt\<lparr>sel_relations := [r\<lparr>pt_alias := []\<rparr>]\<rparr>,
     c\<lparr>ac_dangling := [effective_alias r \<mapsto> None], ac_graph := g, ac_joinedTree := Some tree\<rparr>))"
proof -
  let ?p = "effective_alias r"
  let ?v = "\<lparr>jv_production = Some tree, jv_visited = False\<rparr>"
  have graph: "addVertex ?p ?v (ac_graph c) = \<lparr>jg_vertices = [(?p, ?v)], jg_edges = []\<rparr>"
    by (simp add: addVertex_def c(2) insert_new_def)
  let ?c = "c\<lparr>ac_dangling := [?p \<mapsto> None], ac_graph := \<lparr>jg_vertices = [(?p, ?v)], jg_edges = []\<rparr>\<rparr>"
  have "construct_join_graph en stmt c = Inr (stmt\<lparr>sel_relations := [r\<lparr>pt_alias := []\<rparr>]\<rparr>, ?c)"
    using c(1) graph by (simp add: construct_join_graph_def stmt add_vertex_def effective_alias_def [symmetric] Let_def)
  moreover have "\<exists>g. construct_join_from (Suc 0) (LocalName ?p) ?c = Some (Inr (?c\<lparr>ac_graph := g, ac_joinedTree := Some tree\<rparr>))"
    by (simp add: deref_name_def getVertex_def getConnectedEdges_def c(3) Let_def, rule exI, rule refl)
  ultimately show ?thesis by (auto simp: construct_joins_def single_iterate [OF en])
qed

lemma no_tid_names:
  assumes "\<forall>(n, iu) \<in> set entries. unit_ok c iu \<and> column_of c iu = n"
  shows "no_tid c entries = Inr (map snd (filter (\<lambda>(n, iu). n \<noteq> ''tid'') entries))"
proof -
  have "mapM_res (\<lambda>(key, iu). bind_res (deref_iu (fa_iu_vec (ac_iuFactory c)) iu) (\<lambda>unit.
         case iu_columnInformation unit of None \<Rightarrow> Inl MemFault | Some ci \<Rightarrow> Inr (ci_columnName ci, iu))) entries = Inr (map (\<lambda>x. x) entries)"
  proof (rule mapM_res_Inr)
    fix x assume "x \<in> set entries"
    with assms show "(\<lambda>(key, iu). bind_res (deref_iu (fa_iu_vec (ac_iuFactory c)) iu) (\<lambda>unit.
         case iu_columnInformation unit of None \<Rightarrow> Inl MemFault | Some ci \<Rightarrow> Inr (ci_columnName ci, iu))) x = Inr x"
      by (cases x) (auto simp: unit_ok_def deref_iu_def column_of_def)
  qed
  then show ?thesis by (simp add: no_tid_def)
qed

definition selected_names :: "NValue Database \<Rightarrow> PTable \<Rightarrow> PColumn list \<Rightarrow> string set" where
  \<comment> \<open>the columns of a query; the star looks for the units under the name of the table, because the alias has been moved\<close>
  "selected_names db r columns = (if columns \<noteq> [] then pc_name ` set columns
     else if effective_alias r = pt_name r then columns_of db r else {})"

lemma relation_star:
  assumes en: "env_ok en" and c: "relation_at db r t h c"
  shows "\<exists>ius m. star_units en [r\<lparr>pt_alias := []\<rparr>] c = Inr (ius, c\<lparr>ac_ius := m\<rparr>)
    \<and> set ius = unit_of c (effective_alias r) ` (if effective_alias r = pt_name r then columns_of db r - {''tid''} else {})"
proof -
  let ?n = "pt_name r" and ?entries = "inner_map (pt_name r) (ac_ius c)"
  have ok: "ius_ok c" using c by (simp add: relation_at_def)
  from ius_of_ok [OF ok, of ?n] obtain m where m: "ius_of ?n c = (?entries, c\<lparr>ac_ius := m\<rparr>)"
    "unit_at (c\<lparr>ac_ius := m\<rparr>) = unit_at c" "ius_ok (c\<lparr>ac_ius := m\<rparr>)" by blast
  have at: "unit_at c ?n n = Some iu" if "(n, iu) \<in> set (iterate en ?entries)" for n iu by (rule entries_units [OF en ok that])
  have names: "unit_ok (c\<lparr>ac_ius := m\<rparr>) iu \<and> column_of (c\<lparr>ac_ius := m\<rparr>) iu = n" if "(n, iu) \<in> set (iterate en ?entries)" for n iu
  proof -
    from at [OF that] c have k: "known_unit (fa_iu_vec (ac_iuFactory c)) t iu" "unit_column (fa_iu_vec (ac_iuFactory c)) iu = n"
      unfolding relation_at_def by blast+
    have "unit_ok (c\<lparr>ac_ius := m\<rparr>) iu" using at [OF that] m(2,3) unfolding ius_ok_def by metis
    with k show ?thesis by (auto simp: known_unit_def column_of_def unit_info_def getColumnInformation_def unit_ok_def deref_iu_def)
  qed
  have same: "c\<lparr>ac_ius := m\<rparr>\<lparr>ac_ius := x\<rparr> = c\<lparr>ac_ius := x\<rparr>" for x by simp
  define ius where "ius = map snd (filter (\<lambda>(n, iu). n \<noteq> ''tid'') (iterate en ?entries))"
  have "star_units en [r\<lparr>pt_alias := []\<rparr>] c = Inr (ius, c\<lparr>ac_ius := m\<rparr>)"
  proof -
    have "no_tid (c\<lparr>ac_ius := m\<rparr>) (iterate en ?entries) = Inr ius" unfolding ius_def by (rule no_tid_names) (use names in blast)
    with m(1) show ?thesis by simp
  qed
  moreover have "set ius = unit_of c (effective_alias r) ` (if effective_alias r = ?n then columns_of db r - {''tid''} else {})"
  proof (cases "effective_alias r = ?n")
    case True
    with relation_entries(1) [OF en c] show ?thesis by (auto simp: ius_def image_iff)
  next
    case False
    then have "iterate en ?entries = []" using at c unfolding relation_at_def by (metis list.set_intros(1) neq_Nil_conv surj_pair)
    with False show ?thesis by (simp add: ius_def)
  qed
  ultimately show ?thesis by blast
qed

lemma relation_projected:
  assumes en: "env_ok en" and c: "relation_at db r t h c" and cols: "\<forall>column \<in> set columns. bound_to r column \<and> pc_name column \<in> columns_of db r"
  shows "\<exists>m. projected_units en columns c = (map (unit_of c (effective_alias r) \<circ> pc_name) columns, c\<lparr>ac_ius := m\<rparr>)
    \<and> unit_at (c\<lparr>ac_ius := m\<rparr>) = unit_at c \<and> ius_ok (c\<lparr>ac_ius := m\<rparr>)"
proof -
  let ?p = "effective_alias r"
  have ok: "ius_ok c" using c by (simp add: relation_at_def)
  have at: "unit_at c ?p (pc_name column) = Some (unit_of c ?p (pc_name column))" if "column \<in> set columns" for column
    using relation_unit(1) [OF c _ refl] cols that by blast
  have "\<forall>column \<in> set columns. resolvable c column"
    using cols at by (auto simp: resolvable_def has_unit_def bound_to_def)
  from projected_units_ok [OF en ok this] obtain ius m where
    m: "projected_units en columns c = (ius, c\<lparr>ac_ius := m\<rparr>)" "unit_at (c\<lparr>ac_ius := m\<rparr>) = unit_at c" "ius_ok (c\<lparr>ac_ius := m\<rparr>)"
      "list_all2 (\<lambda>iu column. \<exists>p. unit_at c p (pc_name column) = Some iu \<and> (pc_table column = [] \<or> pc_table column = p)) ius columns" by blast
  have "list_all2 (\<lambda>iu column. iu = unit_of c ?p (pc_name column)) ius columns"
  proof (rule list.rel_mono_strong [OF m(4)])
    fix iu column assume "column \<in> set columns" "\<exists>p. unit_at c p (pc_name column) = Some iu \<and> (pc_table column = [] \<or> pc_table column = p)"
    with at c show "iu = unit_of c ?p (pc_name column)" unfolding relation_at_def by (metis option.inject)
  qed
  then have "ius = map (unit_of c ?p \<circ> pc_name) columns" by (induction rule: list_all2_induct) simp_all
  with m(1-3) show ?thesis by blast
qed

section \<open>SELECT\<close>

text \<open>The tree of a query: a projection of the units of its columns over the scan with its comparisons.\<close>

lemma select_constructed:
  assumes "SelectAnalyser_verify db (Some stmt) = Inr u" "sel_relations stmt = [r]" "sel_joinConditions stmt = []" "sels = sel_selections stmt"
    and "db_run valueSize db S" "statement_at se db (S (pt_name r)) r t sels"
    and "\<forall>n \<in> selected_names db r (sel_projections stmt). scalar_type (column_sqlType t n)"
  shows "\<exists>c s wheres sel ius. SelectAnalyser_constructTree (se_environment se) stmt (AnalyzingContext_ctor db h) = Some (Inr c)
    \<and> ac_db c = db \<and> ac_callback c = None \<and> ius = fa_iu_vec (ac_iuFactory c) \<and> sc_table s = pt_name r \<and> sc_branchId s = branch_of db r
    \<and> ac_joinedTree c = Some (Result (selection_tree ius s wheres) sel) \<and> query_at se c S t s wheres (set sel)
    \<and> satisfies ius t wheres = row_holds t sels \<and> inj_on (unit_column ius) (set sel)
    \<and> unit_column ius ` set sel = selected_names db r (sel_projections stmt) \<and> ''tid'' \<notin> selected_names db r (sel_projections stmt)"
proof -
  let ?en = "se_environment se" and ?p = "effective_alias r" and ?names = "selected_names db r (sel_projections stmt)"
  have en: "env_ok ?en" and table: "Database_getTable db (pt_name r) = Some t" and tid: "''tid'' \<notin> columns_of db r"
    and sels: "\<forall>sel \<in> set sels. comparison_ok db r t sel" using assms(6) by (simp_all add: statement_at_def)
  have ok: "table_ok t" by (rule db_inv_table(1) [OF db_run_inv [OF assms(5)] table])
  note verified = verified_select [OF assms(1), unfolded assms(2)]
  have r: "relation_ok db r"
    using verified(1) run_tables_ok [OF assms(5)] unfolding relation_ok_def tables_ok_def by auto
  have proj: "\<forall>column \<in> set (sel_projections stmt). bound_to r column \<and> pc_name column \<in> columns_of db r"
    using verified(3) by (auto simp: in_scope_def bound_to_def effective_alias_def)
  from statement_selection [OF assms(5) r assms(6), of h] obtain c1 c2 s where
    c: "construct_scan ?en r (AnalyzingContext_ctor db h) = Inr (r\<lparr>pt_alias := ?p\<rparr>, c1)"
      "construct_selects ?en sels c1 = Inr c2" "relation_at db r t h c2"
      "ac_dangling c2 = [?p \<mapsto> Some (selection_tree (fa_iu_vec (ac_iuFactory c2)) s (statement_wheres c2 r t sels))]"
      "sc_table s = pt_name r" "sc_branchId s = branch_of db r" "ac_graph c2 = \<lparr>jg_vertices = [], jg_edges = []\<rparr>" "ac_joinedTree c2 = None" by blast
  let ?ius = "fa_iu_vec (ac_iuFactory c2)" and ?wheres = "statement_wheres c2 r t sels"
  let ?tree = "selection_tree ?ius s ?wheres" and ?stmt = "stmt\<lparr>sel_relations := [r\<lparr>pt_alias := ?p\<rparr>]\<rparr>"
  have again: "effective_alias (r\<lparr>pt_alias := ?p\<rparr>) = ?p" by (simp add: effective_alias_def)
  from single_join [OF en, of ?stmt "r\<lparr>pt_alias := ?p\<rparr>" c2 ?tree] c(4,7,8) assms(3) obtain g where
    g: "construct_joins ?en ?stmt c2 = Some (Inr (stmt\<lparr>sel_relations := [r\<lparr>pt_alias := []\<rparr>]\<rparr>,
        c2\<lparr>ac_dangling := [?p \<mapsto> None], ac_graph := g, ac_joinedTree := Some ?tree\<rparr>))" unfolding again by auto
  define c3 where "c3 = c2\<lparr>ac_dangling := [?p \<mapsto> None], ac_graph := g, ac_joinedTree := Some ?tree\<rparr>"
  have c3: "relation_at db r t h c3"
  proof -
    have "unit_ok c3 = unit_ok c2" by (rule unit_ok_cong) (simp add: c3_def)
    then have "ius_ok c3 = ius_ok c2" by (simp add: ius_ok_def unit_at_def) (simp add: c3_def)
    moreover have "unit_at c3 = unit_at c2" "has_unit c3 = has_unit c2" by (simp_all add: c3_def unit_at_def has_unit_def fun_eq_iff)
    ultimately show ?thesis using c(3) by (simp add: relation_at_def) (simp add: c3_def)
  qed
  have same: "unit_of c3 = unit_of c2" by (simp add: c3_def unit_of_def unit_at_def fun_eq_iff)
  from relation_projected [OF en c3 proj] obtain m where
    m: "projected_units ?en (sel_projections stmt) c3 = (map (unit_of c2 ?p \<circ> pc_name) (sel_projections stmt), c3\<lparr>ac_ius := m\<rparr>)"
      "unit_at (c3\<lparr>ac_ius := m\<rparr>) = unit_at c3" "ius_ok (c3\<lparr>ac_ius := m\<rparr>)" unfolding same by blast
  have star: "\<exists>sel m'. star_units ?en [r\<lparr>pt_alias := []\<rparr>] (c3\<lparr>ac_ius := m\<rparr>) = Inr (sel, c3\<lparr>ac_ius := m'\<rparr>)
      \<and> set sel = unit_of c2 ?p ` (if ?p = pt_name r then columns_of db r - {''tid''} else {})"
  proof -
    have "has_unit (c3\<lparr>ac_ius := m\<rparr>) = has_unit c3" by (simp add: has_unit_def m(2) fun_eq_iff)
    with c3 m(2,3) have "relation_at db r t h (c3\<lparr>ac_ius := m\<rparr>)" by (simp add: relation_at_def)
    from relation_star [OF en this] m(2) show ?thesis by (simp add: unit_of_def same [symmetric])
  qed
  have "\<exists>sel m'. (if sel_projections stmt = [] then star_units ?en [r\<lparr>pt_alias := []\<rparr>] (c3\<lparr>ac_ius := m\<rparr>)
        else Inr (map (unit_of c2 ?p \<circ> pc_name) (sel_projections stmt), c3\<lparr>ac_ius := m\<rparr>)) = Inr (sel, c3\<lparr>ac_ius := m'\<rparr>)
      \<and> set sel = unit_of c2 ?p ` ?names"
  proof (cases "sel_projections stmt = []")
    case True
    with star tid show ?thesis by (auto simp: selected_names_def)
  qed (auto simp: selected_names_def image_image)
  then obtain sel m' where sel: "(if sel_projections stmt = [] then star_units ?en [r\<lparr>pt_alias := []\<rparr>] (c3\<lparr>ac_ius := m\<rparr>)
        else Inr (map (unit_of c2 ?p \<circ> pc_name) (sel_projections stmt), c3\<lparr>ac_ius := m\<rparr>)) = Inr (sel, c3\<lparr>ac_ius := m'\<rparr>)"
      "set sel = unit_of c2 ?p ` ?names" by blast
  define c5 where "c5 = set_root (Result ?tree sel) (c3\<lparr>ac_ius := m'\<rparr>)"
  have construct: "SelectAnalyser_constructTree ?en stmt (AnalyzingContext_ctor db h) = Some (Inr c5)"
  proof (cases "sel_projections stmt = []")
    case True
    with c(1,2) g m(1) sel(1) show ?thesis
      by (simp add: SelectAnalyser_constructTree_def assms(2) assms(4) [symmetric] c3_def [symmetric] c5_def) (simp add: c3_def)
  next
    case False
    with c(1,2) g m(1) sel(1) show ?thesis
      by (simp add: SelectAnalyser_constructTree_def assms(2) assms(4) [symmetric] c3_def [symmetric] c5_def) (simp add: c3_def)
  qed
  have c5: "ac_db c5 = db" "ac_branchIds c5 = ac_branchIds c2" "fa_iu_vec (ac_iuFactory c5) = ?ius" "ac_callback c5 = None"
    "ac_joinedTree c5 = Some (Result ?tree sel)"
    using c(3) by (simp_all add: c5_def c3_def set_root_def next_uid_def getUID_def relation_at_def)
  have sub: "?names \<subseteq> columns_of db r" using proj by (auto simp: selected_names_def)
  note U = relation_unit [OF c(3) _ refl]
  have name: "unit_column ?ius (unit_of c2 ?p n) = n" if "n \<in> ?names" for n using U(3) [of n] sub that by auto
  have unit: "column_unit ?ius t (unit_of c2 ?p n)" if n: "n \<in> ?names" for n
  proof (rule relation_column_unit [OF c(3) _ _ refl ok])
    show "n \<in> columns_of db r" "n \<noteq> ''tid''" using n sub tid by auto
    show "scalar_type (column_sqlType t n)" using n assms(7) by simp
  qed
  have units: "\<forall>iu \<in> set sel. column_unit ?ius t iu" unfolding sel(2) by (rule ballI, elim imageE) (simp add: unit)
  have q: "query_at se c5 S t s ?wheres (set sel)"
    by (rule relation_query [OF assms(5) r assms(6) c(3) c5(1,2,3) c(5,6) _ units]) simp
  have sat: "satisfies ?ius t ?wheres = row_holds t sels" by (rule statement_wheres_ok(2) [OF c(3) refl ok tid sels])
  have names: "unit_column ?ius ` set sel = ?names"
  proof -
    have "unit_column ?ius ` set sel = (\<lambda>n. unit_column ?ius (unit_of c2 ?p n)) ` ?names" by (simp only: sel(2) image_image)
    also have "\<dots> = (\<lambda>n. n) ` ?names" by (rule image_cong [OF refl name])
    finally show ?thesis by simp
  qed
  have inj: "inj_on (unit_column ?ius) (set sel)" using name unfolding sel(2) by (auto intro!: inj_onI)
  have "''tid'' \<notin> ?names" using sub tid by blast
  then show ?thesis
    by (intro exI [of _ c5] exI [of _ s] exI [of _ "?wheres"] exI [of _ sel] exI [of _ "?ius"] conjI construct c5(1,4,5) c(5,6) q sat inj names)
      (simp_all add: c5(3))
qed

text \<open>C2: a query on one relation whose compared and projected columns are of scalar types (integer, date, timestamp
  or numeric, not nullable) runs to its end, from its text on, leaves the database unchanged and streams exactly
  the rows of the snapshot of the named branch that have the given values, in the order of their tids, with
  the named columns, each once, in an order that does not depend on the row; the star streams the columns of a relation
  without an alias and no column of a relation with one. Of other types nothing is claimed: the code generated for
  a WHERE on a text or varchar column is never run, since generating the comparison throws.\<close>

theorem select_statement:
  assumes "parseStatement ParsingContext_ctor query = Some (Inr px)" "px_opType px = Op_Select" "stmt = px_selectStmt px"
    and "SelectAnalyser_verify db (Some stmt) = Inr u" "sel_relations stmt = [r]" "sel_joinConditions stmt = []" "sels = sel_selections stmt"
    and "db_run valueSize db S" "statement_at se db (S (pt_name r)) r t sels"
    and "\<forall>n \<in> selected_names db r (sel_projections stmt). scalar_type (column_sqlType t n)"
  shows "\<exists>w names. compileAndExecute se query db h = Some (Inr (None, w)) \<and> wo_db w = db
    \<and> distinct names \<and> set names = selected_names db r (sel_projections stmt)
    \<and> map snd (wo_streamed w) = map (\<lambda>row. map (\<lambda>n. the (row ! column_index t n)) names)
         (filter (row_holds t sels) (snapshot_rows (S (pt_name r) (branch_of db r)) (Table_size t)))"
proof -
  let ?en = "se_environment se" and ?names = "selected_names db r (sel_projections stmt)" and ?T = "S (pt_name r) (branch_of db r)"
  from select_constructed [OF assms(4-10), of h] obtain c s wheres sel ius where
    construct: "SelectAnalyser_constructTree ?en stmt (AnalyzingContext_ctor db h) = Some (Inr c)" "ac_db c = db" "ac_callback c = None"
    and ius: "ius = fa_iu_vec (ac_iuFactory c)" and s: "sc_table s = pt_name r" "sc_branchId s = branch_of db r"
    and tree: "ac_joinedTree c = Some (Result (selection_tree ius s wheres) sel)" and q: "query_at se c S t s wheres (set sel)"
    and sat: "satisfies ius t wheres = row_holds t sels" and inj: "inj_on (unit_column ius) (set sel)"
    and names: "unit_column ius ` set sel = ?names" "''tid'' \<notin> ?names" by blast
  have "\<forall>iu \<in> set sel. unit_column ius iu \<noteq> ''tid''" using names by (metis imageI)
  from select_streams_snapshot [OF ius refl q this, of "[]"] obtain w where
    w: "run_tree se c (Result (selection_tree ius s wheres) sel) [] = Some (Inr w)" "wo_db w = db"
      "map snd (wo_streamed w) = map (\<lambda>row. map (\<lambda>iu. the (row ! column_index t (unit_column ius iu))) (en_addresses ?en (set sel)))
          (filter (row_holds t sels) (snapshot_rows ?T (Table_size t)))"
    unfolding s construct(2) sat by blast
  define ns where "ns = map (unit_column ius) (en_addresses ?en (set sel))"
  have "env_ok ?en" using assms(9) by (simp add: statement_at_def)
  then have addr: "distinct (en_addresses ?en (set sel))" "set (en_addresses ?en (set sel)) = set sel" by (simp_all add: env_ok_def)
  have "distinct ns" using addr inj by (simp add: ns_def distinct_map)
  moreover have "set ns = ?names" by (simp only: ns_def set_map addr(2) names(1))
  moreover have "map snd (wo_streamed w) = map (\<lambda>row. map (\<lambda>n. the (row ! column_index t n)) ns)
      (filter (row_holds t sels) (snapshot_rows ?T (Table_size t)))" using w(3) unfolding ns_def map_map comp_def .
  moreover have "compileAndExecute se query db h = Some (Inr (None, w))"
    using assms(1,2,4) construct(1,3) tree w(1)
    by (simp add: compileAndExecute_def verify_statement_def construct_statement_def Let_def assms(3))
  ultimately show ?thesis using w(2) by blast
qed

lemma select_statement_witness:
  "\<exists>w. compileAndExecute ex_setting ex_select_text ex_branched ex_heap = Some (Inr (None, w)) \<and> wo_db w = ex_branched
    \<and> map snd (wo_streamed w) = [[NInteger 1]]"
proof -
  let ?t = "ex_s_table ex_branched" and ?stmt = "px_selectStmt (ex_parsed ex_select_text)"
  have facts: "sel_relations ?stmt = [ex_dev_relation]" "sel_joinConditions ?stmt = []" "sel_selections ?stmt = [ex_where ''a'' ''7'']"
    "sel_projections ?stmt = [\<lparr>pc_name = ''b'', pc_table = []\<rparr>]" "pt_name ex_dev_relation = ''s''" "ex_snapshots ''s'' = ex_rows"
    by (simp_all add: ex_dev_relation_def ex_snapshots_def ex_select_parsed)
  have names: "selected_names ex_branched ex_dev_relation [\<lparr>pc_name = ''b'', pc_table = []\<rparr>] = {''b''}" by (simp add: selected_names_def)
  have single: "ns = [''b'']" if "distinct ns" "set ns = {''b''}" for ns by (rule distinct_singleton_list [OF that])
  have rows: "filter (row_holds ?t [ex_where ''a'' ''7'']) (snapshot_rows (ex_rows 1) 2) = [map Some (ex_row 7 1)]"
    unfolding ex_row_holds [abs_def] ex_text_values by (simp add: snapshot_rows_def ex_rows_def ex_row_def numeral_2_eq_2)
  have at: "statement_at ex_setting ex_branched (ex_snapshots ''s'') ex_dev_relation ?t [ex_where ''a'' ''7'']"
    by (rule ex_statement_at) (simp add: ex_text_values)
  have types: "\<forall>n \<in> {''b''}. scalar_type (column_sqlType ?t n)" by (simp add: ex_column_types ex_int_scalar(1))
  note run = select_statement [OF ex_parsed_text [OF ex_texts_parsed(4)] ex_select_parsed(1) refl ex_verified(4) facts(1,2) refl ex_branched_run]
  from run [where se = ex_setting and t = ?t and h = ex_heap, unfolded facts names ex_columns(9) ex_branched_facts(15), OF at [unfolded facts] types]
  obtain w ns where w: "compileAndExecute ex_setting ex_select_text ex_branched ex_heap = Some (Inr (None, w))" "wo_db w = ex_branched"
    "distinct ns" "set ns = {''b''}" "map snd (wo_streamed w) = map (\<lambda>row. map (\<lambda>n. the (row ! column_index ?t n)) ns)
         (filter (row_holds ?t [ex_where ''a'' ''7'']) (snapshot_rows (ex_rows 1) 2))" by (elim exE conjE) (rule that)
  have ns: "ns = [''b'']" by (rule single [OF w(3,4)])
  have "map snd (wo_streamed w) = [[NInteger 1]]" unfolding w(5) rows ns list.map ex_columns(8) by (simp add: ex_row_def)
  then show ?thesis by (intro exI [of _ w] conjI w(1,2))
qed

end
