(* ===== verification/SchemaParser.thy ===== *)
theory SchemaParser
  imports SqlParser
begin

text \<open>
  The reader of schema files (schema_parser/Parser.cpp), the schema it builds (Schema.hpp, Schema.cpp) and the generator of
  the code that loads the tables of a schema (generator.cpp). The build runs it on the file of a schema.

  The stream is what is left of the file; \<open>operator>>\<close> skips white space and takes what comes before the next. The state of
  the parser and the schema are passed on; a \<^verbatim>\<open>ParserError\<close> ends the run. Messages to \<^verbatim>\<open>std::cerr\<close> are left out.
\<close>

section \<open>Schemas\<close>

datatype schema_tag = Tag_Integer | Tag_Date | Tag_Timestamp | Tag_Numeric | Tag_Char | Tag_Varchar

record SchemaAttribute =
  sa_name :: string
  sa_type :: "schema_tag option" \<comment> \<open>\<open>None\<close> and the one of \<open>sa_len2\<close>: not initialised\<close>
  sa_len :: u32
  sa_len2 :: "u32 option"
  sa_notNull :: bool

record SecondaryIndex =
  sx_name :: string
  sx_table :: string
  sx_attributes :: "nat list"

record SchemaRelation =
  sr_name :: string
  sr_attributes :: "SchemaAttribute list"
  sr_primaryKey :: "nat list"
  sr_secondaryIndices :: "nat list" \<comment> \<open>pointers into the vector of the indices, as the positions they were taken of\<close>

record Schema =
  sh_relations :: "SchemaRelation list"
  sh_indices :: "SecondaryIndex list"
  sh_attributes :: "(string \<times> nat \<times> nat) list" \<comment> \<open>the multimap: the attribute at a position of a relation\<close>

definition SchemaAttribute_ctor :: "string \<Rightarrow> SchemaAttribute" where
  "SchemaAttribute_ctor name = \<lparr>sa_name = name, sa_type = None, sa_len = - 1, sa_len2 = None, sa_notNull = False\<rparr>"

definition SchemaRelation_ctor :: "string \<Rightarrow> SchemaRelation" where
  "SchemaRelation_ctor name = \<lparr>sr_name = name, sr_attributes = [], sr_primaryKey = [], sr_secondaryIndices = []\<rparr>"

definition SecondaryIndex_ctor :: "string \<Rightarrow> SecondaryIndex" where
  "SecondaryIndex_ctor name = \<lparr>sx_name = name, sx_table = [], sx_attributes = []\<rparr>"

definition Schema_ctor :: Schema where
  "Schema_ctor = \<lparr>sh_relations = [], sh_indices = [], sh_attributes = []\<rparr>"

definition position :: "('a \<Rightarrow> bool) \<Rightarrow> 'a list \<Rightarrow> nat option" where
  \<comment> \<open>\<^verbatim>\<open>std::find_if\<close>\<close>
  "position P xs = find (\<lambda>i. P (xs ! i)) [0 ..< length xs]"

datatype schema_error =
    ParserError u32 string
  | SchemaThrown string \<comment> \<open>a string, or a \<^verbatim>\<open>std::runtime_error\<close> with it\<close>
  | SchemaTerminate \<comment> \<open>a \<^verbatim>\<open>throw\<close> without an exception\<close>
  | SchemaUndefined \<comment> \<open>behaviour the language does not define\<close>

section \<open>The tokens\<close>

datatype schema_state =
    SS_Init | SS_Create | SS_Index | SS_IndexName | SS_IndexOn | SS_IndexTableName | SS_IndexKeyListBegin | SS_IndexKeyName | SS_IndexEnd
  | SS_Table | SS_CreateTableBegin | SS_CreateTableEnd | SS_TableName | SS_Primary | SS_Key | SS_KeyListBegin | SS_KeyName | SS_KeyListEnd
  | SS_AttributeName | SS_AttributeTypeInt | SS_AttributeTypeDate | SS_AttributeTypeTimestamp | SS_AttributeTypeChar | SS_CharBegin
  | SS_CharValue | SS_CharEnd | SS_AttributeTypeVarchar | SS_VarcharBegin | SS_VarcharValue | SS_VarcharEnd | SS_AttributeTypeNumeric
  | SS_NumericBegin | SS_NumericValue1 | SS_NumericSeparator | SS_NumericValue2 | SS_NumericEnd | SS_Not | SS_Null | SS_Separator | SS_Semicolon

type_synonym schema_step = "schema_error + schema_state \<times> Schema"

definition schema_keywords :: "string list" where
  "schema_keywords = [''primary'', ''key'', ''create'', ''index'', ''on'', ''table'', ''integer'', ''date'', ''timestamp'', ''numeric'',
     ''not'', ''null'', ''char'', ''varchar'']"

definition isEscaped :: "string \<Rightarrow> bool" where
  "isEscaped str = (length str > 2 \<and> hd str = CHR 0x22 \<and> last str = CHR 0x22)"

definition schema_unescape :: "string \<Rightarrow> string" where
  "schema_unescape str = take (length str - 2) (drop 1 str)"

definition isIdentifier :: "string \<Rightarrow> bool" where
  "isIdentifier str = (str \<notin> set schema_keywords \<and> set str \<subseteq> set ''abcdefghijklmnopqrstuvwxyz_1234567890'')"

definition isInt :: "string \<Rightarrow> bool" where
  "isInt str = (\<forall>c \<in> set str. is_digit_char c)"

definition atoi :: "string \<Rightarrow> schema_error + u32" where
  \<comment> \<open>of digits; a number that is no \<^verbatim>\<open>int\<close> has no defined result\<close>
  "atoi str = (if read_digits 0 str < 2 ^ 31 then Inr (of_nat (read_digits 0 str)) else Inl SchemaUndefined)"

definition ticked :: "string \<Rightarrow> string" where
  "ticked s = CHR 0x27 # s @ [CHR 0x27]"

definition unexpected_token :: "u32 \<Rightarrow> string \<Rightarrow> string \<Rightarrow> schema_error + 'a" where
  "unexpected_token line what token = Inl (ParserError line (what @ ticked token))"

definition set_attribute :: "(SchemaAttribute \<Rightarrow> SchemaAttribute) \<Rightarrow> Schema \<Rightarrow> Schema" where
  \<comment> \<open>through \<^verbatim>\<open>schema.relations.back().attributes.back()\<close>\<close>
  "set_attribute f sc = sc\<lparr>sh_relations := update_last (\<lambda>rel. rel\<lparr>sr_attributes := update_last f (sr_attributes rel)\<rparr>) (sh_relations sc)\<rparr>"

definition index_key :: "u32 \<Rightarrow> string \<Rightarrow> Schema \<Rightarrow> schema_error + Schema" where
  \<comment> \<open>a key of the last index\<close>
  "index_key line token sc =
     (let index = last (sh_indices sc)
      in case position (\<lambda>rel. sr_name rel = sx_table index) (sh_relations sc) of
           None \<Rightarrow> Inl (ParserError line (''Relation '' @ ticked (sx_table index) @ '' doesn't exist''))
         | Some i \<Rightarrow>
             (case position (\<lambda>attr. sa_name attr = token) (sr_attributes (sh_relations sc ! i)) of
                None \<Rightarrow> Inl (ParserError line (''Attribute '' @ ticked token @ '' doesn't exist''))
              | Some j \<Rightarrow>
                  Inr (sc\<lparr>sh_indices := update_last (\<lambda>x. x\<lparr>sx_attributes := sx_attributes x @ [j]\<rparr>) (sh_indices sc),
                          sh_relations := if sx_attributes index = []
                            then (sh_relations sc)[i := (sh_relations sc ! i)\<lparr>sr_secondaryIndices :=
                              sr_secondaryIndices (sh_relations sc ! i) @ [length (sh_indices sc) - 1]\<rparr>]
                            else sh_relations sc\<rparr>)))"

definition next_index :: "u32 \<Rightarrow> string \<Rightarrow> string \<Rightarrow> schema_state \<Rightarrow> Schema \<Rightarrow> schema_step" where
  "next_index line token tok st sc =
     (case st of
        SS_Index \<Rightarrow>
          if isIdentifier tok then Inr (SS_IndexName, sc\<lparr>sh_indices := sh_indices sc @ [SecondaryIndex_ctor token]\<rparr>)
          else unexpected_token line ''Expected IndexName, found '' token
      | SS_IndexName \<Rightarrow> if tok = ''on'' then Inr (SS_IndexOn, sc) else unexpected_token line ''Expected 'ON', found '' token
      | SS_IndexOn \<Rightarrow>
          (let set_table = (\<lambda>name. Inr (SS_IndexTableName, sc\<lparr>sh_indices := update_last (\<lambda>x. x\<lparr>sx_table := name\<rparr>) (sh_indices sc)\<rparr>))
           in if isEscaped tok then set_table (schema_unescape token)
              else if isIdentifier tok then set_table token
              else unexpected_token line ''Expected IndexTableName, found '' token)
      | SS_IndexTableName \<Rightarrow> if tok = ''('' then Inr (SS_IndexKeyListBegin, sc) else unexpected_token line ''Expected '(', found '' token
      | SS_IndexKeyListBegin \<Rightarrow>
          if isIdentifier tok then (case index_key line token sc of Inl e \<Rightarrow> Inl e | Inr sc' \<Rightarrow> Inr (SS_IndexKeyName, sc'))
          else unexpected_token line ''Expected key attribute, found '' token
      | _ \<comment> \<open>\<open>SS_IndexKeyName\<close>\<close> \<Rightarrow>
          if tok = '','' then Inr (SS_IndexKeyListBegin, sc)
          else if tok = '')'' then Inr (SS_IndexEnd, sc)
          else unexpected_token line ''Expected ',' or ')', found '' token)"

definition add_attribute :: "string \<Rightarrow> Schema \<Rightarrow> Schema" where
  "add_attribute token sc =
     (let i = length (sh_relations sc) - 1; j = length (sr_attributes (last (sh_relations sc)));
          sc1 = sc\<lparr>sh_relations := update_last (\<lambda>rel. rel\<lparr>sr_attributes := sr_attributes rel @ [SchemaAttribute_ctor token]\<rparr>) (sh_relations sc)\<rparr>
      in if token \<notin> fst ` set (sh_attributes sc) then sc1\<lparr>sh_attributes := (token, i, j) # sh_attributes sc\<rparr> else sc1)"

definition next_table :: "u32 \<Rightarrow> string \<Rightarrow> string \<Rightarrow> schema_state \<Rightarrow> Schema \<Rightarrow> schema_step" where
  "next_table line token tok st sc =
     (let add_table = (\<lambda>name. Inr (SS_TableName, sc\<lparr>sh_relations := sh_relations sc @ [SchemaRelation_ctor name]\<rparr>))
      in case st of
        SS_Table \<Rightarrow>
          if isEscaped tok then add_table (schema_unescape token)
          else if isIdentifier tok then add_table token
          else unexpected_token line ''Expected TableName, found '' token
      | SS_TableName \<Rightarrow> if tok = ''('' then Inr (SS_CreateTableBegin, sc) else unexpected_token line ''Expected '(', found '' token
      | _ \<comment> \<open>\<open>SS_Separator\<close>, \<open>SS_CreateTableBegin\<close>\<close> \<Rightarrow>
          if tok = '')'' then Inr (SS_CreateTableEnd, sc)
          else if tok = ''primary'' then Inr (SS_Primary, sc)
          else if isIdentifier tok then Inr (SS_AttributeName, add_attribute token sc)
          else unexpected_token line ''Expected attribute definition, primary key definition or ')', found '' token)"

definition next_key :: "u32 \<Rightarrow> string \<Rightarrow> string \<Rightarrow> schema_state \<Rightarrow> Schema \<Rightarrow> schema_step" where
  "next_key line token tok st sc =
     (case st of
        SS_Primary \<Rightarrow> if tok = ''key'' then Inr (SS_Key, sc) else unexpected_token line ''Expected 'KEY', found '' token
      | SS_Key \<Rightarrow> if tok = ''('' then Inr (SS_KeyListBegin, sc) else unexpected_token line ''Expected list of key attributes, found '' token
      | SS_KeyListBegin \<Rightarrow>
          if isIdentifier tok
          then (let rel = last (sh_relations sc)
                in case position (\<lambda>attr. sa_name attr = token) (sr_attributes rel) of
                     None \<Rightarrow> Inl (ParserError line (ticked token @ '' is not an attribute of '' @ ticked (sr_name rel)))
                   | Some j \<Rightarrow> Inr (SS_KeyName, sc\<lparr>sh_relations := update_last (\<lambda>r. r\<lparr>sr_primaryKey := sr_primaryKey r @ [j]\<rparr>) (sh_relations sc)\<rparr>))
          else unexpected_token line ''Expected key attribute, found '' token
      | SS_KeyName \<Rightarrow>
          if tok = '','' then Inr (SS_KeyListBegin, sc)
          else if tok = '')'' then Inr (SS_KeyListEnd, sc)
          else unexpected_token line ''Expected ',' or ')', found '' token
      | _ \<comment> \<open>\<open>SS_KeyListEnd\<close>\<close> \<Rightarrow>
          if tok = '','' then Inr (SS_Separator, sc)
          else if tok = '')'' then Inr (SS_CreateTableEnd, sc)
          else unexpected_token line ''Expected ',' or ')', found '' token)"

definition set_length :: "(u32 \<Rightarrow> SchemaAttribute \<Rightarrow> SchemaAttribute) \<Rightarrow> schema_state \<Rightarrow> u32 \<Rightarrow> string \<Rightarrow> string \<Rightarrow> string \<Rightarrow> Schema \<Rightarrow> schema_step" where
  \<comment> \<open>a length of the last attribute\<close>
  "set_length f st line what token tok sc =
     (if isInt tok then (case atoi tok of Inl e \<Rightarrow> Inl e | Inr n \<Rightarrow> Inr (st, set_attribute (f n) sc))
      else unexpected_token line what token)"

definition next_type :: "u32 \<Rightarrow> string \<Rightarrow> string \<Rightarrow> schema_state \<Rightarrow> Schema \<Rightarrow> schema_step" where
  "next_type line token tok st sc =
     (let typed = (\<lambda>tag st'. Inr (st', set_attribute (\<lambda>a. a\<lparr>sa_type := Some tag\<rparr>) sc));
          open_bracket = (\<lambda>st' what. if tok = ''('' then Inr (st', sc) else unexpected_token line what token);
          close_bracket = (\<lambda>st' what. if tok = '')'' then Inr (st', sc) else unexpected_token line what token);
          first_length = (\<lambda>n a. a\<lparr>sa_len := n\<rparr>)
      in case st of
        SS_AttributeName \<Rightarrow>
          if tok = ''integer'' then typed Tag_Integer SS_AttributeTypeInt
          else if tok = ''date'' then typed Tag_Date SS_AttributeTypeDate
          else if tok = ''timestamp'' then typed Tag_Timestamp SS_AttributeTypeTimestamp
          else if tok = ''char'' then typed Tag_Char SS_AttributeTypeChar
          else if tok = ''varchar'' then typed Tag_Varchar SS_AttributeTypeVarchar
          else if tok = ''numeric'' then typed Tag_Numeric SS_AttributeTypeNumeric
          else unexpected_token line ''Expected type after attribute name, found '' token
      | SS_AttributeTypeChar \<Rightarrow> open_bracket SS_CharBegin ''Expected '(' after 'CHAR', found''
      | SS_CharBegin \<Rightarrow> set_length first_length SS_CharValue line ''Expected integer after 'CHAR(', found'' token tok sc
      | SS_CharValue \<Rightarrow> close_bracket SS_CharEnd ''Expected ')' after length of CHAR, found''
      | SS_AttributeTypeVarchar \<Rightarrow> open_bracket SS_VarcharBegin ''Expected '(' after 'VARCHAR', found''
      | SS_VarcharBegin \<Rightarrow> set_length first_length SS_VarcharValue line ''Expected integer after 'VARCHAR(', found'' token tok sc
      | SS_VarcharValue \<Rightarrow> close_bracket SS_VarcharEnd ''Expected ')' after length of VARCHAR, found''
      | SS_AttributeTypeNumeric \<Rightarrow> open_bracket SS_NumericBegin ''Expected '(' after 'NUMERIC', found''
      | SS_NumericBegin \<Rightarrow> set_length first_length SS_NumericValue1 line ''Expected integer after 'NUMERIC(', found'' token tok sc
      | SS_NumericValue1 \<Rightarrow>
          if tok = '','' then Inr (SS_NumericSeparator, sc) else unexpected_token line ''Expected ',' after first length of NUMERIC, found'' token
      | SS_NumericSeparator \<Rightarrow>
          set_length (\<lambda>n a. a\<lparr>sa_len2 := Some n\<rparr>) SS_NumericValue2 line ''Expected second length for NUMERIC type, found'' token tok sc
      | _ \<comment> \<open>\<open>SS_NumericValue2\<close>\<close> \<Rightarrow> close_bracket SS_NumericEnd ''Expected ')' after second length of NUMERIC, found'')"

definition next_end :: "u32 \<Rightarrow> string \<Rightarrow> string \<Rightarrow> schema_state \<Rightarrow> Schema \<Rightarrow> schema_step" where
  \<comment> \<open>after the type of an attribute\<close>
  "next_end line token tok st sc =
     (case st of
        SS_Not \<Rightarrow>
          if tok = ''null'' then Inr (SS_Null, set_attribute (\<lambda>a. a\<lparr>sa_notNull := True\<rparr>) sc)
          else unexpected_token line ''Expected 'NULL' after 'NOT' name, found '' token
      | SS_Null \<Rightarrow>
          if tok = '','' then Inr (SS_Separator, sc)
          else if tok = '')'' then Inr (SS_CreateTableEnd, sc)
          else unexpected_token line ''Expected ',' or ')' after attribute definition, found '' token
      | _ \<comment> \<open>the ends of the types\<close> \<Rightarrow>
          if tok = '','' then Inr (SS_Separator, sc)
          else if tok = ''not'' then Inr (SS_Not, sc)
          else if tok = '')'' then Inr (SS_CreateTableEnd, sc)
          else unexpected_token line ''Expected ',' or 'NOT NULL' after attribute type, found '' token)"

definition nextToken :: "u32 \<Rightarrow> string \<Rightarrow> schema_state \<Rightarrow> Schema \<Rightarrow> schema_step" where
  "nextToken line token st sc =
     (let tok = map to_lower token
      in if token = [] then Inr (st, sc)
         else if st \<in> {SS_Semicolon, SS_Init}
         then (if tok = ''create'' then Inr (SS_Create, sc) else unexpected_token line ''Expected 'CREATE', found '' token)
         else if st = SS_Create
         then (if tok = ''table'' then Inr (SS_Table, sc)
               else if tok = ''index'' then Inr (SS_Index, sc)
               else unexpected_token line ''Expected 'TABLE' or 'INDEX', found '' token)
         else if st \<in> {SS_Index, SS_IndexName, SS_IndexOn, SS_IndexTableName, SS_IndexKeyListBegin, SS_IndexKeyName} then next_index line token tok st sc
         else if st \<in> {SS_Table, SS_TableName, SS_Separator, SS_CreateTableBegin} then next_table line token tok st sc
         else if st \<in> {SS_IndexEnd, SS_CreateTableEnd}
         then (if tok = '';'' then Inr (SS_Semicolon, sc) else unexpected_token line ''Expected ';', found '' token)
         else if st \<in> {SS_Primary, SS_Key, SS_KeyListBegin, SS_KeyName, SS_KeyListEnd} then next_key line token tok st sc
         else if st \<in> {SS_AttributeName, SS_AttributeTypeChar, SS_CharBegin, SS_CharValue, SS_AttributeTypeVarchar, SS_VarcharBegin,
                       SS_VarcharValue, SS_AttributeTypeNumeric, SS_NumericBegin, SS_NumericValue1, SS_NumericSeparator, SS_NumericValue2}
         then next_type line token tok st sc
         else next_end line token tok st sc)"

section \<open>The file\<close>

fun next_tokens :: "u32 \<Rightarrow> string list \<Rightarrow> schema_state \<times> Schema \<Rightarrow> schema_step" where
  "next_tokens line [] s = Inr s"
| "next_tokens line (token # tokens) (st, sc) =
     (case nextToken line token st sc of Inl e \<Rightarrow> Inl e | Inr s \<Rightarrow> next_tokens line tokens s)"

fun split_token :: "string \<Rightarrow> string \<Rightarrow> string list" where
  \<comment> \<open>the pieces between the separators, and the separators; the first argument is the piece read so far\<close>
  "split_token piece [] = [piece]"
| "split_token piece (c # cs) = (if c \<in> set '',)(;'' then piece # [c] # split_token [] cs else split_token (piece @ [c]) cs)"

definition read_token :: "string \<Rightarrow> (string \<times> string) option" where
  \<comment> \<open>\<^verbatim>\<open>in >> token\<close>\<close>
  "read_token inp =
     (let s = dropWhile is_space inp
      in if s = [] then None else Some (takeWhile (\<lambda>c. \<not> is_space c) s, dropWhile (\<lambda>c. \<not> is_space c) s))"

lemma read_token_shorter: "read_token inp = Some (token, rest) \<Longrightarrow> length rest < length inp"
proof -
  assume *: "read_token inp = Some (token, rest)"
  define s where "s = dropWhile is_space inp"
  from * have s: "s \<noteq> []" "rest = dropWhile (\<lambda>c. \<not> is_space c) s" by (auto simp: read_token_def s_def Let_def split: if_splits)
  then have "\<not> is_space (hd s)" using hd_dropWhile [of is_space inp] by (simp add: s_def)
  with s have "length rest < length s" by (cases s) (auto simp: le_imp_less_Suc length_dropWhile_le)
  moreover have "length s \<le> length inp" by (simp add: s_def length_dropWhile_le)
  ultimately show ?thesis by simp
qed

definition newline_char :: char where
  "newline_char = CHR 0x0A"

function skip_comment :: "u32 \<Rightarrow> string \<Rightarrow> u32 \<times> string" where
  \<comment> \<open>the loop over the tokens of a comment: it ends at a line break that follows a token at once\<close>
  "skip_comment line inp =
     (if inp \<noteq> [] \<and> hd inp = newline_char then (line + 1, inp)
      else case read_token inp of None \<Rightarrow> (line, []) | Some (_, rest) \<Rightarrow> skip_comment line rest)"
  by pat_completeness auto
termination by (relation "measure (\<lambda>(line, inp). length inp)") (auto dest: read_token_shorter)

declare skip_comment.simps [simp del]

fun count_lines :: "u32 \<Rightarrow> string \<Rightarrow> u32 \<times> string" where
  "count_lines line [] = (line, [])"
| "count_lines line (c # cs) = (if c = newline_char then count_lines (line + 1) cs else (line, c # cs))"

definition comment_at :: "string \<Rightarrow> nat option" where
  \<comment> \<open>\<^verbatim>\<open>token.find("--")\<close>\<close>
  "comment_at token = find (\<lambda>i. token ! i = CHR ''-'' \<and> token ! Suc i = CHR ''-'') [0 ..< length token - 1]"

lemma skip_comment_shorter: "length (snd (skip_comment line inp)) \<le> length inp"
proof (induction line inp rule: skip_comment.induct)
  case (1 line inp)
  show ?case
  proof (cases "inp \<noteq> [] \<and> hd inp = newline_char")
    case False
    show ?thesis
    proof (cases "read_token inp")
      case (Some x)
      then obtain token rest where x: "read_token inp = Some (token, rest)" by (cases x) auto
      from "1.IH" [OF False x refl] read_token_shorter [OF x] False x show ?thesis by (simp add: skip_comment.simps [of line inp])
    qed (use False in \<open>auto simp: skip_comment.simps [of line inp]\<close>)
  qed (simp add: skip_comment.simps [of line inp])
qed

lemma count_lines_shorter: "length (snd (count_lines line inp)) \<le> length inp"
  by (induction line inp rule: count_lines.induct) auto

lemma skip_comment_le: "(line', rest) = skip_comment line inp \<Longrightarrow> length rest \<le> length inp"
  using skip_comment_shorter [of line inp] by (metis snd_conv)

lemma count_lines_le: "(line', rest) = count_lines line inp \<Longrightarrow> length rest \<le> length inp"
  using count_lines_shorter [of line inp] by (metis snd_conv)

function schema_loop :: "string \<Rightarrow> u32 \<Rightarrow> schema_state \<times> Schema \<Rightarrow> schema_step" where
  "schema_loop inp line s =
     (case read_token inp of
        None \<Rightarrow> Inr s
      | Some (token, rest) \<Rightarrow>
          (case comment_at token of
             Some i \<Rightarrow>
               if i \<noteq> 0 then Inl (SchemaThrown ''not implemented'')
               else (case skip_comment line rest of (line', rest') \<Rightarrow> schema_loop rest' line' s)
           | None \<Rightarrow>
               (case next_tokens line (split_token [] token) s of
                  Inl e \<Rightarrow> Inl e
                | Inr s' \<Rightarrow> (case count_lines line rest of (line', rest') \<Rightarrow> schema_loop rest' line' s'))))"
  by pat_completeness auto
termination
  by (relation "measure (\<lambda>(inp, line, s). length inp)")
    (auto dest!: read_token_shorter skip_comment_le count_lines_le)

declare schema_loop.simps [simp del]

definition schema_parse :: "(string \<rightharpoonup> string) \<Rightarrow> string \<Rightarrow> schema_step" where
  \<comment> \<open>\<^verbatim>\<open>Parser::parse\<close> of a new parser, with the state it is left in; the files are given by their names\<close>
  "schema_parse files fileName =
     (case files fileName of
        None \<Rightarrow> Inl (ParserError 1 (''cannot open file '' @ ticked fileName))
      | Some content \<Rightarrow> schema_loop content 1 (SS_Init, Schema_ctor))"

section \<open>Names and texts of a schema\<close>

definition bracketed :: "string \<Rightarrow> string list \<Rightarrow> string" where
  "bracketed name args = name @ ''('' @ concat (map (\<lambda>(i, arg). (if i = 0 then [] else '', '') @ arg) (zip [0 ..< length args] args)) @ '')''"

definition second_length :: "SchemaAttribute \<Rightarrow> schema_error + u32" where
  "second_length attr = (case sa_len2 attr of None \<Rightarrow> Inl SchemaUndefined | Some n \<Rightarrow> Inr n)"

definition type_text :: "SchemaAttribute \<Rightarrow> schema_error + string" where
  \<comment> \<open>there is no case for dates\<close>
  "type_text attr =
     (case sa_type attr of
        None \<Rightarrow> Inl SchemaUndefined
      | Some Tag_Integer \<Rightarrow> Inr ''Integer''
      | Some Tag_Timestamp \<Rightarrow> Inr ''Timestamp''
      | Some Tag_Numeric \<Rightarrow> (case second_length attr of Inl e \<Rightarrow> Inl e
          | Inr n \<Rightarrow> Inr (bracketed ''Numeric'' [show_nat (unat (sa_len attr)), show_nat (unat n)]))
      | Some Tag_Char \<Rightarrow> Inr (bracketed ''Char'' [show_nat (unat (sa_len attr))])
      | Some Tag_Varchar \<Rightarrow> Inr (bracketed ''Varchar'' [show_nat (unat (sa_len attr))])
      | Some Tag_Date \<Rightarrow> Inl SchemaTerminate)"

fun all_texts :: "('a \<Rightarrow> schema_error + string) \<Rightarrow> 'a list \<Rightarrow> schema_error + string" where
  "all_texts f [] = Inr []"
| "all_texts f (x # xs) = (case f x of Inl e \<Rightarrow> Inl e | Inr s \<Rightarrow> (case all_texts f xs of Inl e \<Rightarrow> Inl e | Inr ss \<Rightarrow> Inr (s @ ss)))"

definition relation_text :: "SchemaRelation \<Rightarrow> schema_error + string" where
  "relation_text rel =
     (if \<exists>k \<in> set (sr_primaryKey rel). length (sr_attributes rel) \<le> k then Inl SchemaUndefined
      else case all_texts (\<lambda>attr. case type_text attr of Inl e \<Rightarrow> Inl e
           | Inr type \<Rightarrow> Inr (CHR 0x09 # sa_name attr @ [CHR 0x09] @ type @ (if sa_notNull attr then '' not null'' else []) @ [newline_char]))
         (sr_attributes rel) of
        Inl e \<Rightarrow> Inl e
      | Inr attrs \<Rightarrow> Inr (sr_name rel @ [newline_char, CHR 0x09] @ ''Primary Key:''
            @ concat (map (\<lambda>k. CHR '' '' # sa_name (sr_attributes rel ! k)) (sr_primaryKey rel)) @ [newline_char] @ attrs))"

definition Schema_toString :: "Schema \<Rightarrow> schema_error + string" where
  "Schema_toString sc =
     (case all_texts relation_text (sh_relations sc) of
        Inl e \<Rightarrow> Inl e
      | Inr rels \<Rightarrow> Inr (rels @ concat (map (\<lambda>x. bracketed (sx_name x @ '' on '' @ sx_table x) (map show_nat (sx_attributes x)) @ [newline_char])
          (sh_indices sc))))"

definition getRelation :: "Schema \<Rightarrow> string \<Rightarrow> schema_error + SchemaRelation" where
  "getRelation sc name =
     (case find (\<lambda>rel. sr_name rel = name) (sh_relations sc) of
        None \<Rightarrow> Inl (SchemaThrown (''Relation '' @ ticked name @ '' doesn't exist''))
      | Some rel \<Rightarrow> Inr rel)"

definition getRelationAttribute :: "SchemaRelation \<Rightarrow> string \<Rightarrow> schema_error + SchemaAttribute" where
  "getRelationAttribute rel name =
     (case find (\<lambda>attr. sa_name attr = name) (sr_attributes rel) of
        None \<Rightarrow> Inl (SchemaThrown (''Attribute '' @ ticked name @ '' doesn't exist''))
      | Some attr \<Rightarrow> Inr attr)"

definition attribute_count :: "Schema \<Rightarrow> string \<Rightarrow> nat" where
  \<comment> \<open>\<^verbatim>\<open>schema.attributes.count(name)\<close>\<close>
  "attribute_count sc name = length (filter (\<lambda>entry. fst entry = name) (sh_attributes sc))"

definition getAttribute :: "Schema \<Rightarrow> string \<Rightarrow> schema_error + SchemaAttribute" where
  "getAttribute sc name =
     (if attribute_count sc name > 1 then Inl (SchemaThrown (''ambiguous name: '' @ name))
      else case map_of (sh_attributes sc) name of
             None \<Rightarrow> Inl (SchemaThrown (''Attribute '' @ ticked name @ '' doesn't exist''))
           | Some (i, j) \<Rightarrow> Inr (sr_attributes (sh_relations sc ! i) ! j))"

definition isAttributeName :: "Schema \<Rightarrow> string \<Rightarrow> bool" where
  "isAttributeName sc name = (attribute_count sc name > 0)"

section \<open>The generator\<close>

definition dquoted :: "string \<Rightarrow> string" where
  "dquoted s = CHR 0x22 # s @ [CHR 0x22]"

definition generateGetSqlTypeCall :: "SchemaAttribute \<Rightarrow> schema_error + string" where
  "generateGetSqlTypeCall attr =
     (let nullable = (if sa_notNull attr then ''false'' else ''true''); len = show_nat (unat (sa_len attr))
      in case sa_type attr of
           None \<Rightarrow> Inl SchemaUndefined
         | Some Tag_Integer \<Rightarrow> Inr (bracketed ''Sql::getIntegerTy'' [nullable])
         | Some Tag_Date \<Rightarrow> Inr (bracketed ''Sql::getDateTy'' [nullable])
         | Some Tag_Timestamp \<Rightarrow> Inr (bracketed ''Sql::getTimestampTy'' [nullable])
         | Some Tag_Numeric \<Rightarrow> (case second_length attr of Inl e \<Rightarrow> Inl e
             | Inr n \<Rightarrow> Inr (bracketed ''Sql::getNumericTy'' [len, show_nat (unat n), nullable]))
         | Some Tag_Char \<Rightarrow> Inr (bracketed ''Sql::getCharTy'' [len, nullable])
         | Some Tag_Varchar \<Rightarrow> Inr (bracketed ''Sql::getVarcharTy'' [len, nullable]))"

definition generateTableLoadCode :: "SchemaRelation \<Rightarrow> schema_error + string" where
  "generateTableLoadCode rel =
     (let name = sr_name rel; fileName = ''tables/'' @ name @ ''.tbl''
      in case all_texts (\<lambda>attr. case generateGetSqlTypeCall attr of Inl e \<Rightarrow> Inl e
               | Inr call \<Rightarrow> Inr (name @ ''.addColumn('' @ dquoted (sa_name attr) @ '', '' @ call @ '');'' @ [newline_char])) (sr_attributes rel) of
           Inl e \<Rightarrow> Inl e
         | Inr columns \<Rightarrow>
             Inr (''{'' @ [newline_char] @ ''ModuleGen moduleGen('' @ dquoted ''LoadTableModule'' @ '');'' @ [newline_char]
               @ ''auto & '' @ name @ '' = db->createTable('' @ dquoted name @ '');'' @ [newline_char] @ columns
               @ ''std::ifstream fs('' @ dquoted fileName @ '');'' @ [newline_char]
               @ ''if (!fs) { throw std::runtime_error('' @ dquoted (''file not found: '' @ fileName) @ ''); }'' @ [newline_char]
               @ ''loadTable(fs, '' @ name @ '');'' @ [newline_char] @ ''}'' @ [newline_char]))"

definition generateLoadCode :: "Schema \<Rightarrow> schema_error + string" where
  "generateLoadCode sc =
     (case all_texts generateTableLoadCode (sh_relations sc) of
        Inl e \<Rightarrow> Inl e
      | Inr code \<Rightarrow>
          Inr (''#include '' @ dquoted ''foundations/loader.hpp'' @ [newline_char]
            @ ''#include '' @ dquoted ''foundations/version_management.hpp'' @ [newline_char]
            @ ''#include <fstream>'' @ [newline_char] @ ''std::unique_ptr<Database> loadDatabase()'' @ [newline_char]
            @ ''{'' @ [newline_char] @ ''auto db = std::make_unique<Database>();'' @ [newline_char] @ code
            @ ''return db;'' @ [newline_char] @ ''}'' @ [newline_char]))"

definition schema_main :: "(string \<rightharpoonup> string) \<Rightarrow> string \<Rightarrow> schema_error + string" where
  \<comment> \<open>what is printed; a \<^verbatim>\<open>ParserError\<close> is reported and nothing is generated\<close>
  "schema_main files fileName =
     (case schema_parse files fileName of Inl e \<Rightarrow> Inl e | Inr (_, sc) \<Rightarrow> generateLoadCode sc)"

end
