(* ===== verification/SchemaProperties.thy ===== *)
theory SchemaProperties
  imports SchemaParser
begin

text \<open>
  What the reader of schema files guarantees of the schema it returns, for every file, and that the tables of a schema
  are read back from their text.
\<close>

section \<open>The invariant of the parser\<close>

definition attribute_complete :: "SchemaAttribute \<Rightarrow> bool" where
  "attribute_complete a \<longleftrightarrow> sa_type a \<noteq> None \<and> (sa_type a = Some Tag_Numeric \<longrightarrow> sa_len2 a \<noteq> None)"

definition keys_ok :: "SchemaRelation \<Rightarrow> bool" where
  "keys_ok rel \<longleftrightarrow> (\<forall>k \<in> set (sr_primaryKey rel). k < length (sr_attributes rel))"

definition index_ok :: "SchemaRelation list \<Rightarrow> SecondaryIndex \<Rightarrow> bool" where
  \<comment> \<open>the keys are attributes of the first relation with the name\<close>
  "index_ok rels x \<longleftrightarrow> sx_attributes x = []
     \<or> (\<exists>rel. find (\<lambda>rel. sr_name rel = sx_table x) rels = Some rel \<and> (\<forall>j \<in> set (sx_attributes x). j < length (sr_attributes rel)))"

definition attributes_ok :: "SchemaRelation list \<Rightarrow> (string \<times> nat \<times> nat) list \<Rightarrow> bool" where
  \<comment> \<open>one entry for every name of an attribute, at an attribute of that name\<close>
  "attributes_ok rels entries \<longleftrightarrow> distinct (map fst entries)
     \<and> (\<forall>(n, i, j) \<in> set entries. i < length rels \<and> j < length (sr_attributes (rels ! i)) \<and> sa_name (sr_attributes (rels ! i) ! j) = n)
     \<and> (\<forall>rel \<in> set rels. \<forall>a \<in> set (sr_attributes rel). sa_name a \<in> fst ` set entries)"

definition schema_ok :: "Schema \<Rightarrow> bool" where
  "schema_ok sc \<longleftrightarrow> (\<forall>rel \<in> set (sh_relations sc). keys_ok rel) \<and> (\<forall>x \<in> set (sh_indices sc). index_ok (sh_relations sc) x)
     \<and> attributes_ok (sh_relations sc) (sh_attributes sc)"

definition all_complete :: "SchemaRelation list \<Rightarrow> bool" where
  "all_complete rels \<longleftrightarrow> (\<forall>rel \<in> set rels. \<forall>a \<in> set (sr_attributes rel). attribute_complete a)"

definition in_attribute :: "schema_state set" where
  "in_attribute = {SS_AttributeName, SS_AttributeTypeInt, SS_AttributeTypeDate, SS_AttributeTypeTimestamp, SS_AttributeTypeChar, SS_CharBegin,
     SS_CharValue, SS_CharEnd, SS_AttributeTypeVarchar, SS_VarcharBegin, SS_VarcharValue, SS_VarcharEnd, SS_AttributeTypeNumeric,
     SS_NumericBegin, SS_NumericValue1, SS_NumericSeparator, SS_NumericValue2, SS_NumericEnd, SS_Not, SS_Null}"

definition pending :: "schema_state set" where
  "pending = {SS_AttributeName, SS_AttributeTypeNumeric, SS_NumericBegin, SS_NumericValue1, SS_NumericSeparator}"

definition within_table :: "schema_state set" where
  "within_table = {SS_TableName, SS_CreateTableBegin, SS_Primary, SS_Key, SS_KeyListBegin, SS_KeyName, SS_KeyListEnd, SS_Separator} \<union> in_attribute"

definition before_keys :: "schema_state set" where
  "before_keys = {SS_IndexName, SS_IndexOn, SS_IndexTableName}"

definition in_index :: "schema_state set" where
  "in_index = {SS_IndexKeyListBegin, SS_IndexKeyName} \<union> before_keys"

lemmas state_sets = in_attribute_def pending_def within_table_def before_keys_def in_index_def

definition attribute_state :: "schema_state \<Rightarrow> SchemaAttribute \<Rightarrow> bool" where
  "attribute_state st a = (if st \<in> pending then st = SS_AttributeName \<or> sa_type a = Some Tag_Numeric else attribute_complete a)"

fun parser_inv :: "schema_state \<times> Schema \<Rightarrow> bool" where
  \<comment> \<open>where \<open>back()\<close> is called there is a last element; only the attribute that is being read may lack a type or a length\<close>
  "parser_inv (st, sc) \<longleftrightarrow> schema_ok sc
     \<and> (st \<in> in_index \<longrightarrow> sh_indices sc \<noteq> []) \<and> (st \<in> before_keys \<longrightarrow> sx_attributes (last (sh_indices sc)) = [])
     \<and> (st \<in> within_table \<longrightarrow> sh_relations sc \<noteq> [])
     \<and> (if st \<in> in_attribute
        then sr_attributes (last (sh_relations sc)) \<noteq> [] \<and> all_complete (butlast (sh_relations sc))
          \<and> (\<forall>a \<in> set (butlast (sr_attributes (last (sh_relations sc)))). attribute_complete a)
          \<and> attribute_state st (last (sr_attributes (last (sh_relations sc))))
        else all_complete (sh_relations sc))"

text \<open>The changes of a schema keep it well formed.\<close>

lemma schema_ok_start: "schema_ok Schema_ctor"
  by (simp add: schema_ok_def Schema_ctor_def attributes_ok_def)

lemma position_find: "position P xs = Some i \<Longrightarrow> i < length xs \<and> P (xs ! i) \<and> find P xs = Some (xs ! i)"
proof -
  assume *: "position P xs = Some i"
  then have i: "i < length xs" "P (xs ! i)" "\<forall>j < i. \<not> P (xs ! j)"
    by (auto simp: position_def find_Some_iff)
  then have "find P xs = Some (xs ! i)" by (auto simp: find_Some_iff)
  with i show ?thesis by blast
qed

lemma position_less: "position P xs = Some i \<Longrightarrow> i < length xs"
  using position_find by blast

lemma schema_ok_indices:
  assumes "schema_ok sc" "index_ok (sh_relations sc) x"
  shows "schema_ok (sc\<lparr>sh_indices := sh_indices sc @ [x]\<rparr>)" "sh_indices sc \<noteq> [] \<Longrightarrow> schema_ok (sc\<lparr>sh_indices := butlast (sh_indices sc) @ [x]\<rparr>)"
  using assms by (auto simp: schema_ok_def dest: in_set_butlastD)

lemma find_append_Some: "find P xs = Some x \<Longrightarrow> find P (xs @ ys) = Some x"
  by (induction xs) (auto split: if_splits)

lemma schema_ok_new_table:
  assumes "schema_ok sc"
  shows "schema_ok (sc\<lparr>sh_relations := sh_relations sc @ [SchemaRelation_ctor name]\<rparr>)"
  using assms by (auto simp: schema_ok_def keys_ok_def index_ok_def attributes_ok_def SchemaRelation_ctor_def nth_append find_append_Some)

lemma find_map_same: "(\<And>x. x \<in> set xs \<Longrightarrow> P (f x) = P x) \<Longrightarrow> find P (map f xs) = map_option f (find P xs)"
  by (induction xs) auto

text \<open>A change of the last table that keeps its name and the names of the attributes it has.\<close>

lemma find_last_changed:
  assumes "sr_name r' = sr_name r" "find (\<lambda>rel. sr_name rel = n) (rels @ [r]) = Some rel" "length (sr_attributes r) \<le> length (sr_attributes r')"
  shows "\<exists>rel'. find (\<lambda>rel. sr_name rel = n) (rels @ [r']) = Some rel' \<and> length (sr_attributes rel) \<le> length (sr_attributes rel')"
  using assms by (induction rels) (auto split: if_splits)

lemma schema_ok_last_table:
  assumes "schema_ok sc" "sh_relations sc = rels @ [r]"
    and r': "sr_name r' = sr_name r" "keys_ok r'" "\<exists>new. map sa_name (sr_attributes r') = map sa_name (sr_attributes r) @ new"
    and entries: "sh_attributes sc' = sh_attributes sc" "set (map sa_name (sr_attributes r')) \<subseteq> fst ` set (sh_attributes sc)"
    and sc': "sh_relations sc' = rels @ [r']" "sh_indices sc' = sh_indices sc"
  shows "schema_ok sc'"
proof -
  from r'(3) obtain new where new: "map sa_name (sr_attributes r') = map sa_name (sr_attributes r) @ new" by blast
  then have len: "length (sr_attributes r) \<le> length (sr_attributes r')" by (metis length_append length_map le_add1)
  have name: "sa_name (sr_attributes r' ! j) = sa_name (sr_attributes r ! j)" if "j < length (sr_attributes r)" for j
    using arg_cong [OF new, of "\<lambda>xs. xs ! j"] that len by (simp add: nth_append)
  have "index_ok (rels @ [r']) x" if "index_ok (rels @ [r]) x" for x
    using that find_last_changed [OF r'(1) _ len, of "sx_table x" rels] unfolding index_ok_def by (meson order_less_le_trans)
  moreover have "attributes_ok (rels @ [r']) (sh_attributes sc)"
    using assms(1) entries(2) name len unfolding schema_ok_def attributes_ok_def assms(2)
    by (fastforce simp: nth_append split: if_splits)
  ultimately show ?thesis using assms(1) r'(2) by (simp add: schema_ok_def assms(2) sc' entries(1))
qed

lemma update_last_Nil [simp]: "update_last f [] = []"
  by (simp add: update_last_def)

lemma schema_ok_set_attribute:
  assumes "schema_ok sc" "\<And>a. sa_name (f a) = sa_name a"
  shows "schema_ok (set_attribute f sc)"
proof (cases "sh_relations sc" rule: rev_cases)
  case Nil
  with assms(1) show ?thesis by (simp add: set_attribute_def schema_ok_def)
next
  case (snoc rels r)
  let ?r = "r\<lparr>sr_attributes := update_last f (sr_attributes r)\<rparr>"
  have names: "map sa_name (update_last f as) = map sa_name as" for as using assms(2) by (cases as rule: rev_cases) simp_all
  have "length (sr_attributes ?r) = length (sr_attributes r)" by (cases "sr_attributes r" rule: rev_cases) simp_all
  moreover have "keys_ok r" "set (map sa_name (sr_attributes r)) \<subseteq> fst ` set (sh_attributes sc)"
    using assms(1) unfolding schema_ok_def attributes_ok_def snoc by (simp, force)
  ultimately show ?thesis
    using names by (intro schema_ok_last_table [OF assms(1) snoc, of ?r]) (simp_all add: set_attribute_def snoc keys_ok_def)
qed

lemma schema_ok_add_attribute:
  assumes "schema_ok sc" "sh_relations sc \<noteq> []"
  shows "schema_ok (add_attribute token sc)"
proof -
  obtain rels r where r: "sh_relations sc = rels @ [r]" using assms(2) by (cases "sh_relations sc" rule: rev_cases) auto
  let ?r = "r\<lparr>sr_attributes := sr_attributes r @ [SchemaAttribute_ctor token]\<rparr>"
  define entries where "entries = (if token \<in> fst ` set (sh_attributes sc) then sh_attributes sc
    else (token, length rels, length (sr_attributes r)) # sh_attributes sc)"
  have sc': "add_attribute token sc = sc\<lparr>sh_relations := rels @ [?r], sh_attributes := entries\<rparr>"
    by (simp add: add_attribute_def r Let_def entries_def)
  have old: "keys_ok r" "\<And>x. x \<in> set (sh_indices sc) \<Longrightarrow> index_ok (rels @ [r]) x" "attributes_ok (rels @ [r]) (sh_attributes sc)" "\<And>x. x \<in> set rels \<Longrightarrow> keys_ok x"
    using assms(1) by (simp_all add: schema_ok_def r)
  have "index_ok (rels @ [?r]) x" if "x \<in> set (sh_indices sc)" for x
    using old(2) [OF that] find_last_changed [of ?r r "sx_table x" rels] unfolding index_ok_def by (force intro: order_less_le_trans)
  moreover have "attributes_ok (rels @ [?r]) entries"
  proof -
    have "\<forall>(n, i, j) \<in> set (sh_attributes sc). i < length (rels @ [?r]) \<and> j < length (sr_attributes ((rels @ [?r]) ! i))
        \<and> sa_name (sr_attributes ((rels @ [?r]) ! i) ! j) = n"
      using old(3) unfolding attributes_ok_def by (fastforce simp: nth_append)
    with old(3) show ?thesis by (auto simp: attributes_ok_def entries_def SchemaAttribute_ctor_def)
  qed
  moreover have "keys_ok ?r" using old(1) by (auto simp: keys_ok_def)
  ultimately show ?thesis using old(4) unfolding sc' by (auto simp: schema_ok_def)
qed

lemma index_key_ok:
  assumes "schema_ok sc" "sh_indices sc \<noteq> []" "index_key line token sc = Inr sc'"
  shows "schema_ok sc' \<and> sh_indices sc' \<noteq> [] \<and> (all_complete (sh_relations sc) \<longrightarrow> all_complete (sh_relations sc'))"
proof -
  obtain xs x where xs: "sh_indices sc = xs @ [x]" using assms(2) by (cases "sh_indices sc" rule: rev_cases) auto
  from assms(3) obtain i j where ij: "position (\<lambda>rel. sr_name rel = sx_table x) (sh_relations sc) = Some i"
    "position (\<lambda>attr. sa_name attr = token) (sr_attributes (sh_relations sc ! i)) = Some j"
    by (auto simp: index_key_def xs split: option.splits)
  note i = position_find [OF ij(1)] and j = position_less [OF ij(2)]
  let ?x = "x\<lparr>sx_attributes := sx_attributes x @ [j]\<rparr>" and ?rels = "sh_relations sc"
  define rels where "rels = (if sx_attributes x = [] then ?rels[i := (?rels ! i)\<lparr>sr_secondaryIndices := sr_secondaryIndices (?rels ! i) @ [length xs]\<rparr>] else ?rels)"
  have sc': "sc' = sc\<lparr>sh_indices := xs @ [?x], sh_relations := rels\<rparr>"
    using assms(3) ij by (simp add: index_key_def xs rels_def split: if_splits)
  define f where "f k rel = (if sx_attributes x = [] \<and> k = i then rel\<lparr>sr_secondaryIndices := sr_secondaryIndices rel @ [length xs]\<rparr> else rel)" for k and rel :: SchemaRelation
  have len: "length rels = length ?rels" and nth: "k < length ?rels \<Longrightarrow> rels ! k = f k (?rels ! k)" for k
    by (auto simp: rels_def f_def nth_list_update)
  have f: "sr_name (f k rel) = sr_name rel" "sr_attributes (f k rel) = sr_attributes rel" "sr_primaryKey (f k rel) = sr_primaryKey rel" for k rel
    by (simp_all add: f_def)
  have mem: "\<exists>old \<in> set ?rels. sr_attributes rel = sr_attributes old \<and> sr_primaryKey rel = sr_primaryKey old" if rel: "rel \<in> set rels" for rel
  proof -
    from rel obtain k where "k < length ?rels" "rel = rels ! k" by (auto simp: in_set_conv_nth len)
    then show ?thesis using nth f by (metis nth_mem)
  qed
  have find: "\<exists>rel'. find (\<lambda>rel. sr_name rel = n) rels = Some rel' \<and> sr_attributes rel' = sr_attributes rel"
    if rel: "find (\<lambda>rel. sr_name rel = n) ?rels = Some rel" for n rel
  proof -
    from rel obtain k where k: "k < length ?rels" "sr_name (?rels ! k) = n" "rel = ?rels ! k" "\<forall>j < k. sr_name (?rels ! j) \<noteq> n"
      by (auto simp: find_Some_iff)
    have "sr_name (rels ! j) = sr_name (?rels ! j)" if "j < length ?rels" for j using nth [OF that] f by simp
    with k have "k < length rels \<and> sr_name (rels ! k) = n \<and> (\<forall>j < k. sr_name (rels ! j) \<noteq> n)" by (simp add: len)
    then have "find (\<lambda>rel. sr_name rel = n) rels = Some (rels ! k)" unfolding find_Some_iff by blast
    with k nth f show ?thesis by auto
  qed
  have index: "index_ok rels y" if "index_ok ?rels y" for y
  proof (cases "sx_attributes y = []")
    case False
    with that obtain rel where rel: "find (\<lambda>rel. sr_name rel = sx_table y) ?rels = Some rel" "\<forall>j \<in> set (sx_attributes y). j < length (sr_attributes rel)"
      by (auto simp: index_ok_def)
    from find [OF rel(1)] rel(2) show ?thesis by (auto simp: index_ok_def)
  qed (simp add: index_ok_def)
  from find [OF i [THEN conjunct2, THEN conjunct2]] obtain rel where
    rel: "find (\<lambda>rel. sr_name rel = sx_table x) rels = Some rel" "sr_attributes rel = sr_attributes (?rels ! i)" by blast
  have "index_ok rels x" using assms(1) index by (simp add: schema_ok_def xs)
  then have "index_ok rels ?x" using rel j by (auto simp: index_ok_def)
  moreover have "index_ok rels y" if "y \<in> set xs" for y using assms(1) that index by (simp add: schema_ok_def xs)
  moreover have "keys_ok r" if "r \<in> set rels" for r using mem [OF that] assms(1) by (auto simp: keys_ok_def schema_ok_def)
  moreover have "attributes_ok rels (sh_attributes sc)"
  proof -
    have "\<forall>(n, i, j) \<in> set (sh_attributes sc). i < length rels \<and> j < length (sr_attributes (rels ! i)) \<and> sa_name (sr_attributes (rels ! i) ! j) = n"
      using assms(1) unfolding schema_ok_def attributes_ok_def by (fastforce simp: len nth f)
    moreover have "\<forall>rel \<in> set rels. \<forall>a \<in> set (sr_attributes rel). sa_name a \<in> fst ` set (sh_attributes sc)"
      using mem assms(1) unfolding schema_ok_def attributes_ok_def by metis
    ultimately show ?thesis using assms(1) by (simp add: schema_ok_def attributes_ok_def)
  qed
  moreover have "all_complete ?rels \<longrightarrow> all_complete rels" using mem unfolding all_complete_def by metis
  ultimately show ?thesis by (auto simp: sc' schema_ok_def)
qed

text \<open>The steps of the parser keep the invariant.\<close>

lemma in_attribute_parts:
  assumes "parser_inv (st, sc)" "st \<in> in_attribute"
  shows "\<exists>rels r as a. sh_relations sc = rels @ [r] \<and> sr_attributes r = as @ [a] \<and> all_complete rels \<and> (\<forall>b \<in> set as. attribute_complete b)
    \<and> attribute_state st a \<and> schema_ok sc"
proof -
  from assms obtain rels r where r: "sh_relations sc = rels @ [r]" by (cases "sh_relations sc" rule: rev_cases) (auto simp: within_table_def)
  with assms obtain as a where "sr_attributes r = as @ [a]" by (cases "sr_attributes r" rule: rev_cases) auto
  with assms r show ?thesis by auto
qed

lemma parts_in_attribute:
  assumes "sh_relations sc = rels @ [r]" "sr_attributes r = as @ [a]" "all_complete rels" "\<forall>b \<in> set as. attribute_complete b"
    "attribute_state st a" "schema_ok sc" "st \<in> in_attribute"
  shows "parser_inv (st, sc)"
  using assms by (auto simp: state_sets)

lemma inv_change:
  assumes "parser_inv (st, sc)" "st \<in> in_attribute" "st' \<in> in_attribute" "\<And>a. sa_name (f a) = sa_name a"
    "\<And>a. attribute_state st a \<Longrightarrow> attribute_state st' (f a)"
  shows "parser_inv (st', set_attribute f sc)"
proof -
  from in_attribute_parts [OF assms(1,2)] obtain rels r as a where
    p: "sh_relations sc = rels @ [r]" "sr_attributes r = as @ [a]" "all_complete rels" "\<forall>b \<in> set as. attribute_complete b"
      "attribute_state st a" "schema_ok sc" by blast
  have "sh_relations (set_attribute f sc) = rels @ [r\<lparr>sr_attributes := as @ [f a]\<rparr>]" by (simp add: set_attribute_def p)
  then show ?thesis
    by (rule parts_in_attribute) (use p assms(3,5) schema_ok_set_attribute [OF p(6) assms(4)] in simp_all)
qed

lemma inv_move:
  assumes "parser_inv (st, sc)" "st \<in> in_attribute" "st' \<in> in_attribute" "\<And>a. attribute_state st a \<Longrightarrow> attribute_state st' a"
  shows "parser_inv (st', sc)"
  using assms parts_in_attribute in_attribute_parts by metis

lemma inv_leave:
  assumes "parser_inv (st, sc)" "st \<in> in_attribute" "st \<notin> pending" "st' \<in> {SS_Separator, SS_CreateTableEnd}"
  shows "parser_inv (st', sc)"
proof -
  from in_attribute_parts [OF assms(1,2)] obtain rels r as a where
    p: "sh_relations sc = rels @ [r]" "sr_attributes r = as @ [a]" "all_complete rels" "\<forall>b \<in> set as. attribute_complete b"
      "attribute_state st a" "schema_ok sc" by blast
  then have "all_complete (sh_relations sc)" using assms(3) by (auto simp: all_complete_def attribute_state_def)
  with p assms(4) show ?thesis by (auto simp: state_sets)
qed

declare parser_inv.simps [simp del]

lemma next_end_type:
  assumes "st \<noteq> SS_Not" "st \<noteq> SS_Null"
  shows "next_end line token tok st sc = (if tok = '','' then Inr (SS_Separator, sc) else if tok = ''not'' then Inr (SS_Not, sc)
     else if tok = '')'' then Inr (SS_CreateTableEnd, sc) else unexpected_token line ''Expected ',' or 'NOT NULL' after attribute type, found '' token)"
  using assms unfolding next_end_def by (cases st) (simp_all only: schema_state.case simp_thms)

lemma next_end_inv:
  assumes "parser_inv (st, sc)" "st \<in> in_attribute - pending" "next_end line token tok st sc = Inr s"
    "st \<notin> {SS_AttributeTypeChar, SS_CharBegin, SS_CharValue, SS_AttributeTypeVarchar, SS_VarcharBegin, SS_VarcharValue, SS_NumericValue2}"
  shows "parser_inv s"
proof -
  have st: "st \<in> in_attribute" "st \<notin> pending" using assms(2) by auto
  show ?thesis
  proof (cases "st = SS_Not")
    case True
    with assms(3) have "s = (SS_Null, set_attribute (\<lambda>a. a\<lparr>sa_notNull := True\<rparr>) sc)" by (auto simp: next_end_def unexpected_token_def split: if_splits)
    with inv_change [OF assms(1) st(1), of SS_Null "\<lambda>a. a\<lparr>sa_notNull := True\<rparr>"] True show ?thesis
      by (simp add: state_sets attribute_state_def attribute_complete_def)
  next
    case False
    have "s = (SS_Separator, sc) \<or> s = (SS_CreateTableEnd, sc) \<or> s = (SS_Not, sc)"
    proof (cases "st = SS_Null")
      case True
      with assms(3) show ?thesis by (auto simp: next_end_def unexpected_token_def split: if_splits)
    next
      case N: False
      show ?thesis using assms(3) by (simp only: next_end_type [OF False N]) (auto simp: unexpected_token_def split: if_splits)
    qed
    then consider "s = (SS_Separator, sc)" | "s = (SS_CreateTableEnd, sc)" | "s = (SS_Not, sc)" by blast
    then show ?thesis
    proof cases
      case 3
      with inv_move [OF assms(1) st(1), of SS_Not] st(2) show ?thesis by (simp add: in_attribute_def pending_def attribute_state_def)
    qed (use inv_leave [OF assms(1) st] in auto)
  qed
qed

lemma set_length_inv:
  assumes "parser_inv (st, sc)" "st \<in> in_attribute" "st' \<in> in_attribute" "set_length f st' line what token tok sc = Inr s"
    "\<And>n a. sa_name (f n a) = sa_name a" "\<And>n a. attribute_state st a \<Longrightarrow> attribute_state st' (f n a)"
  shows "parser_inv s"
proof -
  from assms(4) obtain n where "s = (st', set_attribute (f n) sc)" by (auto simp: set_length_def unexpected_token_def split: if_splits sum.splits)
  with inv_change [OF assms(1-3) assms(5,6)] show ?thesis by simp
qed

lemma next_type_inv:
  assumes inv: "parser_inv (st, sc)" and run: "next_type line token tok st sc = Inr s"
    and st: "st \<in> {SS_AttributeName, SS_AttributeTypeChar, SS_CharBegin, SS_CharValue, SS_AttributeTypeVarchar, SS_VarcharBegin,
      SS_VarcharValue, SS_AttributeTypeNumeric, SS_NumericBegin, SS_NumericValue1, SS_NumericSeparator, SS_NumericValue2}"
  shows "parser_inv s"
proof -
  have in_attr: "st \<in> in_attribute" using st by (auto simp: in_attribute_def)
  note move = inv_move [OF inv in_attr] and change = inv_change [OF inv in_attr] and lengths = set_length_inv [OF inv in_attr]
  note defs = next_type_def unexpected_token_def Let_def state_sets attribute_state_def attribute_complete_def
  from st consider "st = SS_AttributeName" | "st = SS_CharBegin" | "st = SS_VarcharBegin" | "st = SS_NumericBegin" | "st = SS_NumericSeparator"
    | "st \<in> {SS_AttributeTypeChar, SS_CharValue, SS_AttributeTypeVarchar, SS_VarcharValue, SS_AttributeTypeNumeric, SS_NumericValue1, SS_NumericValue2}"
    by blast
  then show ?thesis
  proof cases
    case 1
    with run obtain tag st' where "s = (st', set_attribute (\<lambda>a. a\<lparr>sa_type := Some tag\<rparr>) sc)"
      "st' = SS_AttributeTypeNumeric \<and> tag = Tag_Numeric \<or> tag \<noteq> Tag_Numeric \<and> st' \<in> in_attribute - pending"
      by (auto simp: defs split: if_splits)
    with change [of st' "\<lambda>a. a\<lparr>sa_type := Some tag\<rparr>"] show ?thesis by (auto simp: defs)
  next
    case 2
    with run lengths [of SS_CharValue "\<lambda>n a. a\<lparr>sa_len := n\<rparr>"] show ?thesis by (auto simp: defs)
  next
    case 3
    with run lengths [of SS_VarcharValue "\<lambda>n a. a\<lparr>sa_len := n\<rparr>"] show ?thesis by (auto simp: defs)
  next
    case 4
    with run lengths [of SS_NumericValue1 "\<lambda>n a. a\<lparr>sa_len := n\<rparr>"] show ?thesis by (auto simp: defs)
  next
    case 5
    with run lengths [of SS_NumericValue2 "\<lambda>n a. a\<lparr>sa_len2 := Some n\<rparr>"] show ?thesis by (auto simp: defs)
  next
    case 6
    with run obtain st' where "s = (st', sc)" "st' \<in> in_attribute" "st \<in> pending \<longleftrightarrow> st' \<in> pending" "st' \<noteq> SS_AttributeName" "st \<noteq> SS_AttributeName"
      by (auto simp: defs split: if_splits)
    then have "attribute_state st = attribute_state st'" by (simp add: fun_eq_iff attribute_state_def)
    with move [of st'] \<open>s = (st', sc)\<close> \<open>st' \<in> in_attribute\<close> show ?thesis by simp
  qed
qed

text \<open>Outside of the attributes every attribute is complete.\<close>

lemma inv_outside:
  assumes "parser_inv (st, sc)" "st \<notin> in_attribute"
  shows "schema_ok sc" "all_complete (sh_relations sc)" "st \<in> in_index \<Longrightarrow> sh_indices sc \<noteq> []"
    "st \<in> before_keys \<Longrightarrow> sx_attributes (last (sh_indices sc)) = []" "st \<in> within_table \<Longrightarrow> sh_relations sc \<noteq> []"
  using assms by (simp_all add: parser_inv.simps)

lemma outside_inv:
  assumes "schema_ok sc" "all_complete (sh_relations sc)" "st \<notin> in_attribute" "st \<in> in_index \<Longrightarrow> sh_indices sc \<noteq> []"
    "st \<in> before_keys \<Longrightarrow> sx_attributes (last (sh_indices sc)) = []" "st \<in> within_table \<Longrightarrow> sh_relations sc \<noteq> []"
  shows "parser_inv (st, sc)"
  using assms by (simp add: parser_inv.simps)

lemma next_index_inv:
  assumes inv: "parser_inv (st, sc)" and run: "next_index line token tok st sc = Inr s"
    and st: "st \<in> {SS_Index, SS_IndexName, SS_IndexOn, SS_IndexTableName, SS_IndexKeyListBegin, SS_IndexKeyName}"
  shows "parser_inv s"
proof -
  have out: "st \<notin> in_attribute" using st by (auto simp: state_sets)
  note old = inv_outside [OF inv out]
  note defs = next_index_def unexpected_token_def Let_def
  from st consider "st = SS_Index" | "st \<in> {SS_IndexName, SS_IndexTableName, SS_IndexKeyName}" | "st = SS_IndexOn" | "st = SS_IndexKeyListBegin" by blast
  then show ?thesis
  proof cases
    case 1
    with run have s: "s = (SS_IndexName, sc\<lparr>sh_indices := sh_indices sc @ [SecondaryIndex_ctor token]\<rparr>)" by (auto simp: defs split: if_splits)
    show ?thesis unfolding s
      by (rule outside_inv) (use old schema_ok_indices(1) [OF old(1), of "SecondaryIndex_ctor token"] in
        \<open>simp_all add: state_sets index_ok_def SecondaryIndex_ctor_def\<close>)
  next
    case 2
    with run obtain st' where "s = (st', sc)" "st' \<in> {SS_IndexOn, SS_IndexKeyListBegin, SS_IndexEnd}" "st' = SS_IndexOn \<longrightarrow> st = SS_IndexName"
      by (auto simp: defs split: if_splits)
    with old 2 show ?thesis by (auto intro!: outside_inv simp: state_sets)
  next
    case 3
    then have indices: "sh_indices sc \<noteq> []" "sx_attributes (last (sh_indices sc)) = []" using old(3,4) by (simp_all add: state_sets)
    then obtain xs x where xs: "sh_indices sc = xs @ [x]" "sx_attributes x = []" by (cases "sh_indices sc" rule: rev_cases) auto
    with 3 run obtain name where s: "s = (SS_IndexTableName, sc\<lparr>sh_indices := xs @ [x\<lparr>sx_table := name\<rparr>]\<rparr>)"
      by (auto simp: defs split: if_splits)
    have "schema_ok (sc\<lparr>sh_indices := xs @ [x\<lparr>sx_table := name\<rparr>]\<rparr>)"
      using schema_ok_indices(2) [OF old(1) _ indices(1), of "x\<lparr>sx_table := name\<rparr>"] xs by (simp add: index_ok_def)
    then show ?thesis unfolding s by (rule outside_inv) (use old xs in \<open>simp_all add: state_sets\<close>)
  next
    case 4
    then have "sh_indices sc \<noteq> []" using old(3) by (simp add: state_sets)
    moreover from 4 run obtain sc' where "index_key line token sc = Inr sc'" "s = (SS_IndexKeyName, sc')" by (auto simp: defs split: if_splits sum.splits)
    ultimately show ?thesis using index_key_ok [OF old(1)] old(2) by (auto intro!: outside_inv simp: state_sets)
  qed
qed

lemma next_table_inv:
  assumes inv: "parser_inv (st, sc)" and run: "next_table line token tok st sc = Inr s"
    and st: "st \<in> {SS_Table, SS_TableName, SS_Separator, SS_CreateTableBegin}"
  shows "parser_inv s"
proof -
  have out: "st \<notin> in_attribute" using st by (auto simp: state_sets)
  note old = inv_outside [OF inv out]
  note defs = next_table_def unexpected_token_def Let_def
  from st consider "st = SS_Table" | "st = SS_TableName" | "st \<in> {SS_Separator, SS_CreateTableBegin}" by blast
  then show ?thesis
  proof cases
    case 1
    with run obtain name where s: "s = (SS_TableName, sc\<lparr>sh_relations := sh_relations sc @ [SchemaRelation_ctor name]\<rparr>)" by (auto simp: defs split: if_splits)
    show ?thesis unfolding s
      by (rule outside_inv [OF schema_ok_new_table [OF old(1)]]) (use old(2) in \<open>auto simp: state_sets all_complete_def SchemaRelation_ctor_def\<close>)
  next
    case 2
    with run have "s = (SS_CreateTableBegin, sc)" by (auto simp: defs split: if_splits)
    with old 2 show ?thesis by (auto intro!: outside_inv simp: state_sets)
  next
    case 3
    then have rels: "sh_relations sc \<noteq> []" using old(5) by (auto simp: state_sets)
    from 3 run consider "s = (SS_CreateTableEnd, sc)" | "s = (SS_Primary, sc)" | "s = (SS_AttributeName, add_attribute token sc)"
      by (auto simp: defs split: if_splits)
    then show ?thesis
    proof cases
      case 3
      obtain xs x where x: "sh_relations sc = xs @ [x]" using rels by (cases "sh_relations sc" rule: rev_cases) auto
      have "sh_relations (add_attribute token sc) = xs @ [x\<lparr>sr_attributes := sr_attributes x @ [SchemaAttribute_ctor token]\<rparr>]"
        by (simp add: add_attribute_def x Let_def)
      then have "parser_inv (SS_AttributeName, add_attribute token sc)"
        by (rule parts_in_attribute) (use schema_ok_add_attribute [OF old(1) rels] old(2) x in
          \<open>auto simp: all_complete_def attribute_state_def state_sets\<close>)
      with 3 show ?thesis by simp
    qed (use old rels in \<open>auto intro!: outside_inv simp: state_sets\<close>)
  qed
qed

lemma next_key_inv:
  assumes inv: "parser_inv (st, sc)" and run: "next_key line token tok st sc = Inr s"
    and st: "st \<in> {SS_Primary, SS_Key, SS_KeyListBegin, SS_KeyName, SS_KeyListEnd}"
  shows "parser_inv s"
proof -
  have out: "st \<notin> in_attribute" "st \<in> within_table" using st by (auto simp: state_sets)
  note old = inv_outside [OF inv out(1)]
  obtain rels r where r: "sh_relations sc = rels @ [r]" using old(5) [OF out(2)] by (cases "sh_relations sc" rule: rev_cases) auto
  note defs = next_key_def unexpected_token_def Let_def
  show ?thesis
  proof (cases "st = SS_KeyListBegin")
    case True
    with run obtain j where j: "position (\<lambda>attr. sa_name attr = token) (sr_attributes r) = Some j"
      and s: "s = (SS_KeyName, sc\<lparr>sh_relations := rels @ [r\<lparr>sr_primaryKey := sr_primaryKey r @ [j]\<rparr>]\<rparr>)"
      by (auto simp: defs r split: if_splits option.splits)
    let ?r = "r\<lparr>sr_primaryKey := sr_primaryKey r @ [j]\<rparr>"
    have "keys_ok r" "set (map sa_name (sr_attributes r)) \<subseteq> fst ` set (sh_attributes sc)"
      using old(1) unfolding schema_ok_def attributes_ok_def r by (simp, force)
    then have "schema_ok (sc\<lparr>sh_relations := rels @ [?r]\<rparr>)"
      using position_less [OF j] by (intro schema_ok_last_table [OF old(1) r, of ?r]) (auto simp: keys_ok_def)
    then show ?thesis unfolding s by (rule outside_inv) (use old(2) in \<open>auto simp: r all_complete_def state_sets\<close>)
  next
    case False
    with run st obtain st' where "s = (st', sc)" "st' \<in> {SS_Key, SS_KeyListBegin, SS_KeyListEnd, SS_Separator, SS_CreateTableEnd}"
      by (auto simp: defs split: if_splits)
    with old r show ?thesis by (auto intro!: outside_inv simp: state_sets)
  qed
qed

lemma nextToken_inv:
  assumes "parser_inv (st, sc)" "nextToken line token st sc = Inr s"
  shows "parser_inv s"
proof (cases "token = []")
  case False
  let ?tok = "map to_lower token"
  note run = assms(2) [unfolded nextToken_def Let_def] False
  have all: "st \<in> in_attribute \<or> st \<in> {SS_Semicolon, SS_Init, SS_Create, SS_IndexEnd, SS_CreateTableEnd} \<or>
      st \<in> {SS_Index, SS_IndexName, SS_IndexOn, SS_IndexTableName, SS_IndexKeyListBegin, SS_IndexKeyName} \<or>
      st \<in> {SS_Table, SS_TableName, SS_Separator, SS_CreateTableBegin} \<or> st \<in> {SS_Primary, SS_Key, SS_KeyListBegin, SS_KeyName, SS_KeyListEnd}"
    by (cases st) (simp_all add: in_attribute_def)
  show ?thesis
  proof (cases "st \<in> in_attribute")
    case True
    have "\<not> st \<in> {SS_Semicolon, SS_Init}" "st \<noteq> SS_Create" "\<not> st \<in> {SS_IndexEnd, SS_CreateTableEnd}"
      "\<not> st \<in> {SS_Index, SS_IndexName, SS_IndexOn, SS_IndexTableName, SS_IndexKeyListBegin, SS_IndexKeyName}"
      "\<not> st \<in> {SS_Table, SS_TableName, SS_Separator, SS_CreateTableBegin}" "\<not> st \<in> {SS_Primary, SS_Key, SS_KeyListBegin, SS_KeyName, SS_KeyListEnd}"
      using True by (auto simp: in_attribute_def)
    note run' = run [simplified this if_False if_True]
    show ?thesis
    proof (cases "st \<in> {SS_AttributeName, SS_AttributeTypeChar, SS_CharBegin, SS_CharValue, SS_AttributeTypeVarchar, SS_VarcharBegin,
        SS_VarcharValue, SS_AttributeTypeNumeric, SS_NumericBegin, SS_NumericValue1, SS_NumericSeparator, SS_NumericValue2}")
      case True
      show ?thesis by (rule next_type_inv [OF assms(1) _ True]) (use run' True in simp)
    next
      case F: False
      have "st \<in> in_attribute - pending" using \<open>st \<in> in_attribute\<close> F by (auto simp: pending_def)
      from next_end_inv [OF assms(1) this, of line token ?tok s] run' F show ?thesis by simp
    qed
  next
    case False
    note old = inv_outside [OF assms(1) False]
    from all False consider "st \<in> {SS_Semicolon, SS_Init, SS_Create, SS_IndexEnd, SS_CreateTableEnd}"
      | "st \<in> {SS_Index, SS_IndexName, SS_IndexOn, SS_IndexTableName, SS_IndexKeyListBegin, SS_IndexKeyName}"
      | "st \<in> {SS_Table, SS_TableName, SS_Separator, SS_CreateTableBegin}" | "st \<in> {SS_Primary, SS_Key, SS_KeyListBegin, SS_KeyName, SS_KeyListEnd}" by blast
    then show ?thesis
    proof cases
      case 1
      with run obtain st' where "s = (st', sc)" "st' \<in> {SS_Create, SS_Table, SS_Index, SS_Semicolon}"
        by (auto simp: unexpected_token_def split: if_splits)
      with old show ?thesis by (auto intro!: outside_inv simp: state_sets)
    next
      case 2
      show ?thesis by (rule next_index_inv [OF assms(1) _ 2]) (use run 2 in auto)
    next
      case 3
      show ?thesis by (rule next_table_inv [OF assms(1) _ 3]) (use run 3 in auto)
    next
      case 4
      show ?thesis by (rule next_key_inv [OF assms(1) _ 4]) (use run 4 in auto)
    qed
  qed
qed (use assms in \<open>simp add: nextToken_def\<close>)

lemma next_tokens_inv: "parser_inv s \<Longrightarrow> next_tokens line tokens s = Inr s' \<Longrightarrow> parser_inv s'"
proof (induction tokens arbitrary: s)
  case (Cons token tokens)
  obtain st sc where s: "s = (st, sc)" by (cases s)
  with Cons.prems(2) obtain s1 where "nextToken line token st sc = Inr s1" "next_tokens line tokens s1 = Inr s'" by (auto split: sum.splits)
  with Cons.IH [of s1] nextToken_inv Cons.prems(1) s show ?case by blast
qed simp

lemma schema_loop_inv: "parser_inv s \<Longrightarrow> schema_loop inp line s = Inr s' \<Longrightarrow> parser_inv s'"
proof (induction inp line s rule: schema_loop.induct)
  case (1 inp line s)
  show ?case
  proof (cases "read_token inp")
    case None
    with "1.prems" show ?thesis by (simp add: schema_loop.simps [of inp])
  next
    case (Some x)
    then obtain token rest where x: "read_token inp = Some (token, rest)" by (cases x) auto
    show ?thesis
    proof (cases "comment_at token")
      case (Some i)
      obtain line' rest' where c: "skip_comment line rest = (line', rest')" by force
      from "1.prems"(2) x Some c have "i = 0" "schema_loop rest' line' s = Inr s'" by (auto simp: schema_loop.simps [of inp] split: if_splits)
      with "1.IH"(2) [OF x refl Some _ c [symmetric]] "1.prems"(1) show ?thesis by simp
    next
      case None
      obtain line' rest' where c: "count_lines line rest = (line', rest')" by force
      from "1.prems"(2) x None c obtain s1 where
        s1: "next_tokens line (split_token [] token) s = Inr s1" "schema_loop rest' line' s1 = Inr s'"
        by (auto simp: schema_loop.simps [of inp] split: sum.splits)
      from "1.IH"(1) [OF x refl None s1(1) c [symmetric] next_tokens_inv [OF "1.prems"(1) s1(1)] s1(2)] show ?thesis .
    qed
  qed
qed

lemma parser_inv_start: "parser_inv (SS_Init, Schema_ctor)"
  by (rule outside_inv) (simp_all add: schema_ok_start, simp_all add: all_complete_def Schema_ctor_def state_sets)

lemma all_texts_ok: "\<forall>x \<in> set xs. \<exists>s. f x = Inr s \<Longrightarrow> \<exists>s. all_texts f xs = Inr s"
  by (induction xs) auto

lemma complete_call: "attribute_complete a \<Longrightarrow> \<exists>s. generateGetSqlTypeCall a = Inr s"
  by (auto simp: attribute_complete_def generateGetSqlTypeCall_def second_length_def Let_def split: option.splits schema_tag.splits)

lemma complete_code:
  assumes "all_complete (sh_relations sc)"
  shows "\<exists>code. generateLoadCode sc = Inr code"
proof -
  have "\<exists>s. generateTableLoadCode rel = Inr s" if rel: "rel \<in> set (sh_relations sc)" for rel
  proof -
    have "\<forall>a \<in> set (sr_attributes rel). \<exists>s. (case generateGetSqlTypeCall a of Inl e \<Rightarrow> Inl e
        | Inr call \<Rightarrow> Inr (sr_name rel @ ''.addColumn('' @ dquoted (sa_name a) @ '', '' @ call @ '');'' @ [newline_char])) = Inr s"
      using complete_call assms rel by (fastforce simp: all_complete_def)
    from all_texts_ok [OF this] show ?thesis by (auto simp: generateTableLoadCode_def Let_def)
  qed
  then have "\<exists>s. all_texts generateTableLoadCode (sh_relations sc) = Inr s" by (intro all_texts_ok) blast
  then show ?thesis by (auto simp: generateLoadCode_def)
qed

lemma attribute_found:
  assumes "attributes_ok (sh_relations sc) (sh_attributes sc)" "rel \<in> set (sh_relations sc)" "a \<in> set (sr_attributes rel)"
  shows "\<exists>b. getAttribute sc (sa_name a) = Inr b \<and> sa_name b = sa_name a"
proof -
  let ?n = "sa_name a"
  have dist: "distinct (map fst (sh_attributes sc))" and "?n \<in> fst ` set (sh_attributes sc)" using assms by (auto simp: attributes_ok_def)
  then obtain i j where ij: "map_of (sh_attributes sc) ?n = Some (i, j)" by (metis map_of_eq_None_iff option.exhaust surj_pair)
  have "length (filter (\<lambda>entry. fst entry = n) es) \<le> 1" if "distinct (map fst es)" for es :: "(string \<times> nat \<times> nat) list" and n
    using that by (induction es) (force simp: filter_empty_conv)+
  with dist have "attribute_count sc ?n \<le> 1" by (simp add: attribute_count_def)
  moreover have "sa_name (sr_attributes (sh_relations sc ! i) ! j) = ?n" using map_of_SomeD [OF ij] assms(1) by (auto simp: attributes_ok_def)
  ultimately show ?thesis using ij by (simp add: getAttribute_def)
qed

text \<open>Whatever a schema file holds, the schema the parser returns is well formed: primary keys and indices name attributes
  that are there, and every name of an attribute is found, never ambiguous, even if several tables have it. When the
  file ends after a statement, every attribute has its type and its lengths, and the code that loads the tables
  is generated.\<close>

lemma parsed_schema_ok:
  assumes "schema_parse files fileName = Inr (st, sc)"
  shows "schema_ok sc \<and> (\<forall>rel \<in> set (sh_relations sc). \<forall>a \<in> set (sr_attributes rel).
      \<exists>b. getAttribute sc (sa_name a) = Inr b \<and> sa_name b = sa_name a)
    \<and> (st \<in> {SS_Init, SS_Semicolon} \<longrightarrow> all_complete (sh_relations sc) \<and> (\<exists>code. schema_main files fileName = Inr code))"
proof -
  from assms obtain content where "schema_loop content 1 (SS_Init, Schema_ctor) = Inr (st, sc)"
    by (auto simp: schema_parse_def split: option.splits)
  from schema_loop_inv [OF parser_inv_start this] have inv: "parser_inv (st, sc)" .
  then have ok: "schema_ok sc" by (simp add: parser_inv.simps)
  then have "attributes_ok (sh_relations sc) (sh_attributes sc)" by (simp add: schema_ok_def)
  moreover have "all_complete (sh_relations sc)" if "st \<in> {SS_Init, SS_Semicolon}"
    using inv_outside(2) [OF inv] that by (auto simp: in_attribute_def)
  ultimately show ?thesis using ok attribute_found complete_code assms by (simp add: schema_main_def)
qed

end
