(* ===== verification/Spec2Isabelle.thy ===== *)
theory Spec2Isabelle
  imports StorageProperties SqlRoundTrip NativeValueProperties AlgebraProperties UpdateConstruction JoinOrder
    GeneratedTexts ExpressionEvaluation SelectStatements SchemaProperties
begin

text \<open>
  A verification development for TardisDB, a relational main-memory database with branches: every
  table is shared by all branches of the database, and every tuple has a chain of versions from which
  a branch reads the newest one it may see. A statement is the text of a SQL dialect; it is parsed,
  checked against the database, turned into a tree of logical operators, translated to physical
  operators that emit code through LLVM, and the code is run.

  \<^bold>\<open>The parts of the program and the theories that model them.\<close> Paths are relative to the sources.

  \<^item> \<open>Tardis_Prelude\<close>: the machine integers, the exceptions of the program (\<open>exn\<close>), the result types --
    \<open>'a result\<close> for an operation that may throw, \<open>'a comp\<close> for one that may also not return (\<open>None\<close>) --
    their composition, and the lemmas on lists and words that several components use.
  \<^item> Storage. \<open>BranchBitmap\<close>: the growable array of foundations/Vector.cpp and the bitmap tables of
    foundations/Database.cpp, with the bit test that generated code makes. \<open>SqlTypes\<close>: sql/SqlType.cpp.
    \<open>TableStore\<close>: \<^verbatim>\<open>Table\<close>, \<^verbatim>\<open>Database\<close> and the branches of foundations/Database.cpp. \<open>VersionChain\<close>:
    foundations/version_management.cpp on an explicit heap, the execution context
    (queryExecutor/ExecutionContext.hpp) and the lineage of a branch (\<^verbatim>\<open>constructBranchLineage\<close>).
    \<open>TableScan\<close>: what the loop emitted by algebra/physical/TableScan.cpp reads.
  \<^item> SQL text. \<open>SqlTokenizer\<close> and \<open>SqlParser\<close>: tools/sqlParser, the state machine with one case for each
    state and message.
  \<^item> Analysis. \<open>LogicalExpressions\<close>, \<open>LogicalOperators\<close>: algebra/logical, foundations/IUFactory.cpp and the
    inference of types of sql/SqlOperators.cpp. \<open>SemanticVerification\<close>: the method \<^verbatim>\<open>verify\<close> of the analysers in
    tools/semanticalAnalyser. \<open>TreeConstruction\<close>: their method \<^verbatim>\<open>constructTree\<close>, with the join graph.
  \<^item> Values. \<open>LegacyCasts\<close>: text to values and back, foundations/LegacyTypes.cpp. \<open>NativeValues\<close>: the values the
    storage keeps, native/sql, with the string pool and the hash functions. \<open>GeneratedValues\<close>, \<open>ValueDispatch\<close>: the
    values generated code computes with, sql/SqlValues.cpp. \<open>SqlOperators\<close>: sql/SqlOperators.cpp and the null handlers.
    \<open>PhysicalExpressions\<close>: algebra/physical/expressions.hpp and the translation of expressions.
  \<^item> Execution. \<open>HashTables\<close>: the memory pool and the two hash tables of foundations. \<open>EmittedOperators\<close>,
    \<open>PhysicalOperators\<close>, \<open>HashOperators\<close>: the operators of algebra/physical. \<open>PhysicalTrees\<close>: the tree translator of
    algebra/translation.cpp. \<open>StatementExecution\<close>: \<^verbatim>\<open>compileAndExecute\<close> of tools/queryCompiler, COPY and BRANCH.
  \<^item> Schema files. \<open>SchemaParser\<close>: schema_parser, the parser of schema files and the generator of the C++ text that
    creates and loads the tables; \<open>SchemaProperties\<close>: what the parser guarantees of a schema.

  \<^bold>\<open>How state and operations correspond.\<close> A class is a record with the fields of the source, an enumeration
  a datatype, an integer of \<open>w\<close> bits a word of that length. An operation that changes an object returns the
  changed object; when the source throws on the way, the pair holds the exception and the object as the exception
  leaves it. Pointers between the versions of a tuple are the datatype \<open>element\<close> (null, the entry of a tuple, a
  storage on the heap); reading through a pointer to nothing is the exception \<open>MemFault\<close>, a failed
  assertion \<open>AssertFailed\<close>, \<^verbatim>\<open>unreachable()\<close> is \<open>Unreachable\<close>. The data of a cell is a parameter \<^verbatim>\<open>'v\<close> of the
  storage; for whole statements it is \<open>NValue\<close>, the native values. The loader of native values throws for some
  types whatever the bytes are; \<open>Value_load_check\<close> is that test, for rows whose cells are abstract.

  Code that emits code is modelled by what the emitted instructions do when they run, together with the
  exceptions of the emission (\<open>'a gen\<close> for values, \<open>'a exec\<close> for operators, which also change the database).
  The two happen at one time in the model; so an emission that throws after emitted code has run leaves a
  state that is not described, and statements that throw say nothing about the state. Code that is emitted for a branch that
  is not taken is emitted all the same: it runs in a machine whose status is not running (\<open>skips\<close>), where it
  can still throw and allocate.

  \<^bold>\<open>What is a parameter.\<close> Sizes and offsets LLVM computes (\<open>data_layout\<close>, \<^verbatim>\<open>valueSize\<close>, the size of a type), the order in
  which a hash map or a set of pointers is iterated, the addresses of C strings and the contents of files
  (\<open>environment\<close>, \<open>setting\<close>). What is assumed of them is \<open>env_ok\<close>: an iteration visits every element
  once. The witnesses use concrete orders.

  \<^bold>\<open>Loops and fuel.\<close> The walks along version chains and lineages, the loop of the parser and the printing of decimals
  are \<open>partial_function (option)\<close>: not returning is \<open>None\<close>. That they return is proved for well-formed chains
  (C12, C14), for lineages (C16), for text with a semicolon (C9), and that they do not for a \<^verbatim>\<open>create table\<close> without
  an end (C10). \<open>construct_join_from\<close> counts its depth down from the number of vertices of the join graph;
  every recursive call follows a vertex that had not been visited, and the lemmas of \<open>JoinConstruction\<close> show
  that the fuel is not used up. The insertion into a hash table and its rehash call each
  other; the depth of these calls is an argument, which the grouping sets to two: the rehash doubles the table, which
  then takes the nodes it had without another rehash. No theorem is stated about that bound. The other
  loops are structural or have a termination proof.

  \<^bold>\<open>What the lemmas show.\<close>

  \<^item> \<open>VersionHistory\<close>, \<open>BranchLineage\<close>: the history a chain stands for, the invariant \<open>vt_ok\<close> of a table and what every
    operation does to histories; the lineage of a branch as the path to the root.
  \<^item> \<open>Snapshots\<close>: the contract of a versioned table, the locale \<open>version_store\<close>, under which branches are snapshots;
    the tables of the code are its interpretation \<open>vt\<close>. (The locale \<open>growable\<close> of \<open>BranchBitmap\<close> is the contract of the
    arrays, with the interpretation \<open>vec\<close>.) \<open>DatabaseRuns\<close>: the runs \<open>db_run\<close> of statements on a database, their
    invariant, and branch isolation (C1, C6). \<open>StorageProperties\<close>: the single operations (C11 to C17).
  \<^item> \<open>CastRoundTrips\<close> (C18 to C21), \<open>NativeValueProperties\<close> (C22 to C26), \<open>GeneratedValueProperties\<close> and
    \<open>GeneratedTexts\<close> (C27 to C30): casts and printing, storing and loading, equality against hashing, the agreement of
    native and generated values. \<open>SqlOperatorProperties\<close>, \<open>ExpressionEvaluation\<close> (C31 to C33): arithmetic and comparisons.
  \<^item> \<open>SqlParser\<close>, \<open>SqlRoundTrip\<close> (C7 to C10): termination, and the parser as the inverse of printing.
  \<^item> \<open>ScopeResolution\<close>, \<open>SelectConstruction\<close>, \<open>JoinConstruction\<close>, \<open>SelectProperties\<close>, \<open>UpdateConstruction\<close>, \<open>JoinOrder\<close> (C34 to
    C37): verified statements have trees. \<open>AlgebraProperties\<close> (C38 to C40): required units, types.
  \<^item> \<open>OperatorRuns\<close>, \<open>ScanRuns\<close>, \<open>SelectRuns\<close>, \<open>QueryRuns\<close>, \<open>ChangeRuns\<close>, \<open>UpdateRuns\<close>, \<open>RelationTrees\<close>,
    \<open>StatementRuns\<close>, \<open>ChangeStatements\<close>, \<open>SelectStatements\<close> (C2 to C5): statements on one relation, from their text to the
    database they leave and the rows they stream, are what they mean on the snapshots of the branch.
    \<open>AnalysisExamples\<close>, \<open>StatementExamples\<close>: the concrete databases and statements of the witnesses.

  \<^bold>\<open>Bounds of the statements.\<close> The runs create tables with columns that are not nullable, which is what \<^verbatim>\<open>CREATE
  TABLE\<close> accepts: with a nullable column, a stored tuple is written and read through different structs. The statements C2
  to C5 are for columns of the types integer, date, timestamp and numeric (\<open>scalar_type\<close>): comparing strings throws while
  code is generated (C32), and a row with a longinteger cannot be updated in the master branch (C6). They are
  for one relation; joins are covered up to their trees (C34, C37), and the code of the hash join and the grouping is
  modelled without theorems on whole queries. Arithmetic is exact for precisions up to nine (C33).

  \<^bold>\<open>What is not modelled.\<close> The wrapper around LLVM in codegen and the execution of compiled modules (calls of a third-party
  library); the drivers, servers, hand-written queries, tests, benchmarks and loaders of example tables; the adaptive radix tree (third-party)
  and the index join, which is compiled out; the conversion from the Hyrise parser, compiled only with that parser;
  \<^verbatim>\<open>merge_tuple\<close>, \<^verbatim>\<open>removeRow\<close> and the classes \<^verbatim>\<open>Map\<close> and logical \<^verbatim>\<open>Not\<close>, which have no body or cannot be
  instantiated; concurrency, of which the code has none.
\<close>

end
